(* ===== verification/Rounding.thy ===== *)
theory Rounding
  imports Complex_Main
begin

text \<open>
  Rounding to a fixed number of significant digits, over the rationals. Python's
  \<^verbatim>\<open>decimal.Decimal\<close> (radix 10, 28 digits) and \<^verbatim>\<open>float\<close> (radix 2, 53 digits) both
  compute the exact result of an operation and round it half-to-even. The theory defines that
  rounding as an executable function, states its contract as the locale \<open>rounding\<close>
  (monotone, odd, exact where the value is representable) and proves the facts the
  component theories use once, inside the locale.
\<close>

named_theorems round_simps \<open>evaluation of rounding on concrete numbers\<close>

section \<open>Rounding to an integer\<close>

text \<open>Ties to even: the rule of the default decimal context, of IEEE arithmetic and of \<open>round\<close>.\<close>

definition round_half_even :: "rat \<Rightarrow> int" where
  "round_half_even q =
     (let f = \<lfloor>q\<rfloor>; d = q - of_int f
      in if d < 1/2 then f else if 1/2 < d then f + 1 else if even f then f else f + 1)"

text \<open>Ties away from zero: \<^verbatim>\<open>decimal.ROUND_HALF_UP\<close>.\<close>

definition round_half_up :: "rat \<Rightarrow> int" where
  "round_half_up q = (if 0 \<le> q then \<lfloor>q + 1/2\<rfloor> else - \<lfloor>1/2 - q\<rfloor>)"

lemma round_half_even_of_int [simp]: "round_half_even (of_int k) = k"
  by (simp add: round_half_even_def)

lemma round_half_up_of_int [simp]: "round_half_up (of_int k) = k"
proof -
  have "\<lfloor>(of_int k :: rat) + 1/2\<rfloor> = k" and "\<lfloor>1/2 - (of_int k :: rat)\<rfloor> = - k"
    by (simp_all add: floor_eq_iff)
  then show ?thesis by (simp add: round_half_up_def)
qed

lemma round_half_even_near: "\<bar>of_int (round_half_even q) - q\<bar> \<le> 1/2"
proof -
  have "of_int \<lfloor>q\<rfloor> \<le> q" and "q < of_int \<lfloor>q\<rfloor> + 1" by linarith+
  then show ?thesis by (auto simp: round_half_even_def Let_def abs_le_iff)
qed

lemma round_half_up_near: "\<bar>of_int (round_half_up q) - q\<bar> \<le> 1/2"
proof (cases "0 \<le> q")
  case True
  have "of_int \<lfloor>q + 1/2\<rfloor> \<le> q + 1/2" and "q + 1/2 < of_int \<lfloor>q + 1/2\<rfloor> + 1" by linarith+
  with True show ?thesis unfolding round_half_up_def abs_le_iff if_P [OF True] by linarith
next
  case False
  have "of_int \<lfloor>1/2 - q\<rfloor> \<le> 1/2 - q" and "1/2 - q < of_int \<lfloor>1/2 - q\<rfloor> + 1" by linarith+
  with False show ?thesis unfolding round_half_up_def abs_le_iff if_not_P [OF False] of_int_minus by linarith
qed

text \<open>A rounding to the nearest integer never crosses an integer.\<close>

lemma round_half_even_floor: "round_half_even q = \<lfloor>q\<rfloor> \<or> round_half_even q = \<lfloor>q\<rfloor> + 1 \<and> q - of_int \<lfloor>q\<rfloor> \<ge> 1/2"
  by (auto simp: round_half_even_def Let_def)

lemma round_half_even_mono:
  assumes "p \<le> q"
  shows "round_half_even p \<le> round_half_even q"
proof (cases "\<lfloor>p\<rfloor> = \<lfloor>q\<rfloor>")
  case True
  with assms show ?thesis by (auto simp: round_half_even_def Let_def)
next
  case False
  with assms have "\<lfloor>p\<rfloor> + 1 \<le> \<lfloor>q\<rfloor>" using floor_mono [OF assms] by linarith
  with round_half_even_floor [of p] round_half_even_floor [of q] show ?thesis by linarith
qed

lemma round_half_even_uminus: "round_half_even (- q) = - round_half_even q"
proof (cases "q = of_int \<lfloor>q\<rfloor>")
  case True
  then obtain k where "q = of_int k" by blast
  then show ?thesis by (metis of_int_minus round_half_even_of_int)
next
  case False
  let ?f = "\<lfloor>q\<rfloor>"
  from False have lt: "of_int ?f < q" and "q < of_int ?f + 1" by linarith+
  then have f: "\<lfloor>- q\<rfloor> = - ?f - 1" by (intro floor_unique) auto
  show ?thesis unfolding round_half_even_def f Let_def by auto
qed

lemma round_half_up_mono:
  assumes "p \<le> q"
  shows "round_half_up p \<le> round_half_up q"
proof -
  consider "0 \<le> p" "0 \<le> q" | "p < 0" "0 \<le> q" | "p < 0" "q < 0" using assms by linarith
  then show ?thesis
  proof cases
    case 1
    with assms show ?thesis by (simp add: round_half_up_def floor_mono)
  next
    case 2
    then have "0 \<le> \<lfloor>q + 1/2\<rfloor>" "0 \<le> \<lfloor>1/2 - p\<rfloor>" by simp_all
    then have "- \<lfloor>1/2 - p\<rfloor> \<le> \<lfloor>q + 1/2\<rfloor>" by linarith
    with 2 show ?thesis by (simp add: round_half_up_def)
  next
    case 3
    with assms show ?thesis by (simp add: round_half_up_def floor_mono)
  qed
qed

lemma round_half_up_uminus: "round_half_up (- q) = - round_half_up q"
proof -
  have "\<lfloor>1/2 :: rat\<rfloor> = 0" by (rule floor_unique) simp_all
  then show ?thesis by (cases q "0 :: rat" rule: linorder_cases) (auto simp: round_half_up_def add.commute)
qed

section \<open>The exponent of a positive rational\<close>

text \<open>\<open>flog b n\<close> is the exponent of the leading digit of \<open>n\<close> in radix \<open>b\<close>.\<close>

function flog :: "int \<Rightarrow> int \<Rightarrow> int" where
  "flog b n = (if b < 2 \<or> n < b then 0 else 1 + flog b (n div b))"
  by pat_completeness auto
termination
  by (relation "measure (\<lambda>(b, n). nat n)") (auto simp: int_div_less_self)

declare flog.simps [simp del]

lemma flog_bounds:
  assumes "2 \<le> b" "0 < n"
  shows "0 \<le> flog b n \<and> b ^ nat (flog b n) \<le> n \<and> n < b ^ nat (flog b n + 1)"
  using assms
proof (induction b n rule: flog.induct)
  case (1 b n)
  show ?case
  proof (cases "n < b")
    case True
    with "1.prems" show ?thesis by (simp add: flog.simps [of b n])
  next
    case False
    let ?q = "n div b"
    from False "1.prems" have pos: "0 < ?q" by (simp add: pos_imp_zdiv_pos_iff)
    with False "1.prems" "1.IH"
    have ih: "0 \<le> flog b ?q" "b ^ nat (flog b ?q) \<le> ?q" "?q < b ^ nat (flog b ?q + 1)" by auto
    have le: "b * ?q \<le> n" and lt: "n < b * (?q + 1)"
      using "1.prems" by (auto simp: algebra_simps mult.commute)
        (smt (verit) div_mult_mod_eq pos_mod_bound mult.commute pos_mod_sign)+
    have "b * b ^ nat (flog b ?q) \<le> b * ?q" using ih(2) "1.prems" by simp
    then have lo: "b ^ nat (1 + flog b ?q) \<le> n" using le ih(1) by (simp add: nat_add_distrib)
    have "b * (?q + 1) \<le> b * b ^ nat (flog b ?q + 1)" using ih(3) "1.prems" by simp
    then have "n < b ^ nat (1 + flog b ?q + 1)" using lt ih(1) by (simp add: nat_add_distrib)
    with lo ih(1) False "1.prems" show ?thesis by (simp add: flog.simps [of b n])
  qed
qed

text \<open>\<open>mag b x\<close> is the unique \<open>e\<close> with \<open>b ^ e \<le> x < b ^ (e + 1)\<close>, for \<open>x > 0\<close>.\<close>

definition mag :: "nat \<Rightarrow> rat \<Rightarrow> int" where
  "mag b x = (if 1 \<le> x then flog (int b) \<lfloor>x\<rfloor>
              else - (1 + flog (int b) (\<lceil>1 / x\<rceil> - 1)))"

lemma mag_bounds:
  assumes b: "2 \<le> b" and x: "0 < x"
  shows "of_nat b powi mag b x \<le> x" "x < of_nat b powi (mag b x + 1)"
proof -
  have "of_nat b powi mag b x \<le> x \<and> x < of_nat b powi (mag b x + 1)"
  proof (cases "1 \<le> x")
    case True
    let ?e = "flog (int b) \<lfloor>x\<rfloor>"
    have fb: "0 \<le> ?e" "int b ^ nat ?e \<le> \<lfloor>x\<rfloor>" "\<lfloor>x\<rfloor> + 1 \<le> int b ^ nat (?e + 1)"
      using flog_bounds [of "int b" "\<lfloor>x\<rfloor>"] b True by auto
    have lo: "(of_nat b :: rat) ^ nat ?e \<le> of_int \<lfloor>x\<rfloor>"
      using of_int_le_iff [where 'a = rat, THEN iffD2, OF fb(2)] by simp
    have hi: "(of_int \<lfloor>x\<rfloor> :: rat) + 1 \<le> of_nat b ^ nat (?e + 1)"
      using of_int_le_iff [where 'a = rat, THEN iffD2, OF fb(3)] by simp
    have "(of_nat b :: rat) ^ nat ?e \<le> x" "x < of_nat b ^ nat (?e + 1)" using lo hi by linarith+
    with fb(1) True show ?thesis by (simp add: mag_def power_int_def)
  next
    case False
    let ?m = "\<lceil>1 / x\<rceil>"
    let ?e = "flog (int b) (?m - 1)"
    from False x have gt1: "1 < 1 / x" by simp
    then have "0 < ?m - 1" by linarith
    then have fb: "0 \<le> ?e" "int b ^ nat ?e \<le> ?m - 1" "?m \<le> int b ^ nat (?e + 1)"
      using flog_bounds [of "int b" "?m - 1"] b by auto
    have hi: "(of_nat b :: rat) ^ nat ?e \<le> of_int ?m - 1"
      using of_int_le_iff [where 'a = rat, THEN iffD2, OF fb(2)] by simp
    have lo: "(of_int ?m :: rat) \<le> of_nat b ^ nat (?e + 1)"
      using of_int_le_iff [where 'a = rat, THEN iffD2, OF fb(3)] by simp
    have lo': "1 / x \<le> of_nat b ^ nat (?e + 1)" and hi': "(of_nat b :: rat) ^ nat ?e < 1 / x"
      using lo hi by linarith+
    have bpos: "(0 :: rat) < of_nat b" using b by simp
    from lo' x bpos have "inverse (of_nat b ^ nat (?e + 1)) \<le> x" by (simp add: field_simps)
    moreover from hi' x bpos have "x < inverse (of_nat b ^ nat ?e)" by (simp add: field_simps)
    ultimately show ?thesis using False fb(1)
      by (simp add: mag_def power_int_def power_inverse add.commute)
  qed
  then show "of_nat b powi mag b x \<le> x" "x < of_nat b powi (mag b x + 1)" by auto
qed

lemma powi_le_cancel:
  assumes "2 \<le> b" shows "(of_nat b :: rat) powi m \<le> of_nat b powi n \<longleftrightarrow> m \<le> n"
proof
  assume "(of_nat b :: rat) powi m \<le> of_nat b powi n"
  moreover have "(of_nat b :: rat) powi n < of_nat b powi m" if "n < m"
    using that assms by (intro power_int_strict_increasing) auto
  ultimately show "m \<le> n" by (meson not_le)
next
  assume "m \<le> n"
  then show "(of_nat b :: rat) powi m \<le> of_nat b powi n"
    using assms by (intro power_int_increasing) auto
qed

lemma powi_less_cancel:
  assumes "2 \<le> b" shows "(of_nat b :: rat) powi m < of_nat b powi n \<longleftrightarrow> m < n"
  using powi_le_cancel [OF assms, of n m] by (auto simp: not_le [symmetric])

lemma powi_pos: "2 \<le> b \<Longrightarrow> (0 :: rat) < of_nat b powi n"
  by (simp add: zero_less_power_int)

lemma mag_mono:
  assumes "2 \<le> b" "0 < x" "x \<le> y"
  shows "mag b x \<le> mag b y"
proof -
  have "(of_nat b :: rat) powi mag b x < of_nat b powi (mag b y + 1)"
    using mag_bounds [of b x] mag_bounds [of b y] assms by linarith
  then show ?thesis using powi_less_cancel [OF assms(1)] by simp
qed

section \<open>Rounding to \<open>p\<close> significant digits in radix \<open>b\<close>\<close>

text \<open>
  The spacing of the representable numbers around \<open>x\<close> is \<open>b ^ ulp\<close>; \<open>emin\<close> is the exponent of the
  smallest spacing (gradual underflow). Overflow of the exponent is not part of the function.
\<close>

definition ulp_exp :: "nat \<Rightarrow> nat \<Rightarrow> int \<Rightarrow> rat \<Rightarrow> int" where
  "ulp_exp b p emin x = max emin (mag b \<bar>x\<bar> - (int p - 1))"

definition rnd :: "nat \<Rightarrow> nat \<Rightarrow> int \<Rightarrow> rat \<Rightarrow> rat" where
  "rnd b p emin x =
     (if x = 0 then 0
      else let s = of_nat b powi ulp_exp b p emin x in of_int (round_half_even (x / s)) * s)"

lemma rnd_0 [simp]: "rnd b p emin 0 = 0"
  by (simp add: rnd_def)

lemma rnd_uminus: "rnd b p emin (- x) = - rnd b p emin x"
  by (simp add: rnd_def ulp_exp_def Let_def round_half_even_uminus)

lemma grid_le:
  assumes "0 < s" "x \<le> of_int k * s"
  shows "of_int (round_half_even (x / s)) * s \<le> of_int k * s"
proof -
  from assms have "x / s \<le> of_int k" by (simp add: field_simps)
  then have "round_half_even (x / s) \<le> k" using round_half_even_mono [of "x / s" "of_int k"] by simp
  with assms(1) show ?thesis by simp
qed

lemma grid_ge:
  assumes "0 < s" "of_int k * s \<le> x"
  shows "of_int k * s \<le> of_int (round_half_even (x / s)) * s"
proof -
  from assms have "of_int k \<le> x / s" by (simp add: field_simps)
  then have "k \<le> round_half_even (x / s)" using round_half_even_mono [of "of_int k" "x / s"] by simp
  with assms(1) show ?thesis by simp
qed

lemma powi_on_grid:
  assumes "2 \<le> b" "e \<le> m"
  obtains k :: int where "(of_nat b :: rat) powi m = of_int k * of_nat b powi e"
proof
  have "(of_nat b :: rat) powi m = of_nat b powi (m - e) * of_nat b powi e"
    using assms by (simp flip: power_int_add)
  moreover have "(of_nat b :: rat) powi (m - e) = of_int (int b ^ nat (m - e))"
    using assms by (simp add: power_int_def)
  ultimately show "(of_nat b :: rat) powi m = of_int (int b ^ nat (m - e)) * of_nat b powi e" by simp
qed

lemma rnd_nonneg: "2 \<le> b \<Longrightarrow> 0 \<le> x \<Longrightarrow> 0 \<le> rnd b p emin x"
  using grid_ge [of "of_nat b powi ulp_exp b p emin x" 0 x]
  by (auto simp: rnd_def Let_def powi_pos)

lemma rnd_mono_pos:
  assumes b: "2 \<le> b" and p: "1 \<le> p" and x: "0 < x" and xy: "x \<le> y"
  shows "rnd b p emin x \<le> rnd b p emin y"
proof -
  let ?ex = "ulp_exp b p emin x" and ?ey = "ulp_exp b p emin y"
  let ?sx = "(of_nat b :: rat) powi ?ex" and ?sy = "(of_nat b :: rat) powi ?ey"
  have sx: "0 < ?sx" and sy: "0 < ?sy" using powi_pos [OF b] by auto
  have y: "0 < y" using x xy by simp
  have mm: "mag b x \<le> mag b y" by (rule mag_mono [OF b x xy])
  then have e: "?ex \<le> ?ey" using x y by (simp add: ulp_exp_def)
  have rx: "rnd b p emin x = of_int (round_half_even (x / ?sx)) * ?sx"
    and ry: "rnd b p emin y = of_int (round_half_even (y / ?sy)) * ?sy"
    using x y by (simp_all add: rnd_def Let_def)
  show ?thesis
  proof (cases "?ex = ?ey")
    case True
    have "x / ?sx \<le> y / ?sx" using xy sx by (simp add: divide_right_mono)
    from round_half_even_mono [OF this] show ?thesis
      using sx unfolding rx ry True [symmetric] by simp
  next
    case False
    with e have lt: "?ex < ?ey" by simp
    then have ey: "?ey \<le> mag b y" and ml: "mag b x < mag b y"
      using x y p by (auto simp: ulp_exp_def max_def split: if_splits)
    let ?c = "(of_nat b :: rat) powi mag b y"
    have "x < of_nat b powi (mag b x + 1)" using mag_bounds [OF b x] by simp
    also have "\<dots> \<le> ?c" using ml by (simp add: powi_le_cancel [OF b])
    finally have xc: "x \<le> ?c" by simp
    obtain k where k: "?c = of_int k * ?sx" using powi_on_grid [OF b, of ?ex "mag b y"] e ey by auto
    obtain l where l: "?c = of_int l * ?sy" using powi_on_grid [OF b ey] by blast
    have "rnd b p emin x \<le> ?c" unfolding rx k using grid_le [OF sx] xc k by simp
    moreover have "?c \<le> rnd b p emin y"
      unfolding ry l using grid_ge [OF sy] mag_bounds(1) [OF b y] l by simp
    ultimately show ?thesis by simp
  qed
qed

lemma rnd_mono:
  assumes b: "2 \<le> b" and p: "1 \<le> p" and xy: "x \<le> y"
  shows "rnd b p emin x \<le> rnd b p emin y"
proof -
  consider "0 < x" | "x \<le> 0" "0 \<le> y" | "y < 0" by linarith
  then show ?thesis
  proof cases
    case 1 then show ?thesis using rnd_mono_pos [OF b p _ xy] by simp
  next
    case 2
    then have "0 \<le> rnd b p emin (- x)" and "0 \<le> rnd b p emin y" using rnd_nonneg [OF b] by auto
    then show ?thesis by (simp add: rnd_uminus)
  next
    case 3
    then have "rnd b p emin (- y) \<le> rnd b p emin (- x)" using rnd_mono_pos [OF b p, of "- y" "- x"] xy by simp
    then show ?thesis by (simp add: rnd_uminus)
  qed
qed

text \<open>A number with at most \<open>p\<close> digits is left as it is.\<close>

lemma rnd_exact:
  assumes b: "2 \<le> b" and k: "\<bar>k\<bar> < int b ^ p" and e: "emin \<le> e"
  shows "rnd b p emin (of_int k * of_nat b powi e) = of_int k * of_nat b powi e"
proof (cases "k = 0")
  case False
  let ?x = "of_int k * (of_nat b :: rat) powi e"
  have pe: "0 < (of_nat b :: rat) powi e" by (rule powi_pos [OF b])
  have x: "0 < \<bar>?x\<bar>" using False pe b by simp
  have "(of_int \<bar>k\<bar> :: rat) < of_int (int b ^ p)" using k by (simp only: of_int_less_iff)
  then have "\<bar>of_int k :: rat\<bar> < of_nat b powi int p" by simp
  then have "\<bar>?x\<bar> < of_nat b powi int p * of_nat b powi e"
    using pe by (simp add: abs_mult)
  also have "\<dots> = of_nat b powi (int p + e)" using b by (simp add: power_int_add)
  finally have "(of_nat b :: rat) powi mag b \<bar>?x\<bar> < of_nat b powi (int p + e)"
    using mag_bounds(1) [OF b x] by simp
  then have "mag b \<bar>?x\<bar> < int p + e" by (simp only: powi_less_cancel [OF b])
  with e have le: "ulp_exp b p emin ?x \<le> e" by (simp add: ulp_exp_def)
  define s where "s = (of_nat b :: rat) powi ulp_exp b p emin ?x"
  obtain j where j: "(of_nat b :: rat) powi e = of_int j * s"
    using powi_on_grid [OF b le] unfolding s_def by blast
  have s: "s \<noteq> 0" unfolding s_def using powi_pos [OF b, of "ulp_exp b p emin ?x"] by linarith
  have xs: "?x = of_int (k * j) * s" by (simp only: j of_int_mult mult.assoc)
  then have "?x / s = of_int (k * j)" using s by (metis nonzero_mult_div_cancel_right)
  then have "round_half_even (?x / s) = k * j" by (simp only: round_half_even_of_int)
  moreover have "?x \<noteq> 0" using x by simp
  then have "rnd b p emin ?x = of_int (round_half_even (?x / s)) * s"
    by (simp only: rnd_def Let_def if_False s_def)
  ultimately show ?thesis by (simp only: xs)
qed simp

text \<open>Every result has at most \<open>p\<close> digits.\<close>

lemma rnd_form:
  assumes b: "2 \<le> b" and p: "1 \<le> p"
  shows "\<exists>k e. rnd b p emin x = of_int k * of_nat b powi e \<and> \<bar>k\<bar> < int b ^ p \<and> emin \<le> e"
proof (cases "x = 0")
  case True
  then show ?thesis using b by (intro exI [of _ 0] exI [of _ emin]) simp
next
  case False
  let ?u = "ulp_exp b p emin x"
  define s where "s = (of_nat b :: rat) powi ?u"
  define k where "k = round_half_even (x / s)"
  have s: "0 < s" unfolding s_def by (rule powi_pos [OF b])
  have r: "rnd b p emin x = of_int k * s" using False by (simp add: rnd_def Let_def s_def k_def)
  have u: "emin \<le> ?u" by (simp add: ulp_exp_def)
  have "\<bar>x\<bar> < of_nat b powi (mag b \<bar>x\<bar> + 1)" using mag_bounds(2) [OF b, of "\<bar>x\<bar>"] False by simp
  also have "\<dots> \<le> of_nat b powi (int p + ?u)"
    unfolding powi_le_cancel [OF b] by (simp add: ulp_exp_def)
  also have "\<dots> = of_int (int b ^ p) * s" using b by (simp add: power_int_add s_def)
  finally have "\<bar>x\<bar> < of_int (int b ^ p) * s" .
  then have "\<bar>x / s\<bar> \<le> of_int (int b ^ p)" using s by (simp add: field_simps)
  then have "- of_int (int b ^ p) \<le> x / s" "x / s \<le> of_int (int b ^ p)" by linarith+
  from round_half_even_mono [OF this(1)] round_half_even_mono [OF this(2)]
  have kb: "\<bar>k\<bar> \<le> int b ^ p" by (simp add: k_def round_half_even_uminus del: of_int_power)
  show ?thesis
  proof (cases "\<bar>k\<bar> < int b ^ p")
    case True
    with r u show ?thesis by (auto simp: s_def)
  next
    case False
    with kb have k: "k = sgn k * int b * int b ^ (p - 1)"
      using p b by (cases p) (auto simp: abs_if sgn_if split: if_splits)
    have "\<bar>sgn k * int b ^ (p - 1)\<bar> < int b ^ p"
      using p b by (cases p) (auto simp: abs_mult abs_sgn_eq)
    moreover have "of_int k * s = of_int (sgn k * int b ^ (p - 1)) * of_nat b powi (?u + 1)"
      using b by (subst k) (simp add: s_def power_int_add algebra_simps)
    ultimately show ?thesis using r u by (metis (no_types) add.commute add_increasing zero_le_one)
  qed
qed

text \<open>For evaluation: the powers are computed on integers.\<close>

lemma rnd_code [code]:
  "rnd b p emin x =
     (if x = 0 then 0
      else let e = ulp_exp b p emin x in
        if 0 \<le> e then let s = int b ^ nat e in of_int (round_half_even (x / of_int s) * s)
        else let s = int b ^ nat (- e) in of_int (round_half_even (x * of_int s)) / of_int s)"
  by (simp add: rnd_def Let_def power_int_def power_inverse divide_inverse)

section \<open>The contract of a rounding\<close>

text \<open>
  What the component theories rely on: an order-preserving odd function. Everything about
  signs and bounds of computed amounts follows from it, whatever the precision.
\<close>

locale rounding =
  fixes rd :: "rat \<Rightarrow> rat"
  assumes mono: "x \<le> y \<Longrightarrow> rd x \<le> rd y"
    and odd: "rd (- x) = - rd x"
begin

lemma zero [simp]: "rd 0 = 0"
  using odd [of 0] by simp

lemma nonneg: "0 \<le> x \<Longrightarrow> 0 \<le> rd x"
  using mono [of 0 x] by simp

lemma nonpos: "x \<le> 0 \<Longrightarrow> rd x \<le> 0"
  using mono [of x 0] by simp

lemma pos_imp: "0 < rd x \<Longrightarrow> 0 < x"
  using nonpos [of x] by (meson not_le)

lemma neg_imp: "rd x < 0 \<Longrightarrow> x < 0"
  using nonneg [of x] by (meson not_le)

lemma le_fixed: "rd c = c \<Longrightarrow> x \<le> c \<Longrightarrow> rd x \<le> c"
  using mono [of x c] by simp

lemma ge_fixed: "rd c = c \<Longrightarrow> c \<le> x \<Longrightarrow> c \<le> rd x"
  using mono [of c x] by simp

lemma abs_rd: "rd \<bar>x\<bar> = \<bar>rd x\<bar>"
  using nonneg [of x] nonpos [of x] by (cases "0 \<le> x") (auto simp: odd abs_if)

end

text \<open>
  A rounding to digits: it also leaves alone every number whose digits fit.
\<close>

locale digit_rounding = rounding +
  fixes radix :: nat and digits :: nat and emin :: int
  assumes exact: "\<bar>k\<bar> < int radix ^ digits \<Longrightarrow> emin \<le> e \<Longrightarrow>
      rd (of_int k * of_nat radix powi e) = of_int k * of_nat radix powi e"
    and form: "\<exists>k e. rd x = of_int k * of_nat radix powi e \<and> \<bar>k\<bar> < int radix ^ digits \<and> emin \<le> e"
    and emin_neg: "emin \<le> 0"
    and radix: "2 \<le> radix"
begin

lemma idem [simp]: "rd (rd x) = rd x"
  using form [of x] exact by metis

text \<open>Shifting the point of a representable number upwards keeps it representable.\<close>

lemma shift: "rd (rd x * of_nat radix ^ n) = rd x * of_nat radix ^ n"
proof -
  obtain k e where k: "rd x = of_int k * of_nat radix powi e" "\<bar>k\<bar> < int radix ^ digits" "emin \<le> e"
    using form by blast
  then have eq: "rd x * of_nat radix ^ n = of_int k * of_nat radix powi (e + int n)"
    using radix by (simp add: power_int_add)
  show ?thesis unfolding eq by (rule exact) (use k in auto)
qed

lemma exact_int: "\<bar>k\<bar> < int radix ^ digits \<Longrightarrow> rd (of_int k) = of_int k"
  using exact [of k 0] emin_neg by simp

lemma exact_scaled:
  assumes "\<bar>k\<bar> < int radix ^ digits" "emin \<le> - int n"
  shows "rd (of_int k / of_nat radix ^ n) = of_int k / of_nat radix ^ n"
  using exact [of k "- int n"] assms by (simp add: power_int_minus divide_inverse)

end

end
