(* ===== verification/Py_Num.thy ===== *)
theory Py_Num
  imports Rounding
begin

text \<open>
  Python's two number types as the code uses them. A \<^verbatim>\<open>Decimal\<close> is an exact rational that
  every operation rounds to the 28 digits of the default context; a \<^verbatim>\<open>float\<close> is a rational that
  every operation rounds to binary64. Literals are exact (\<^verbatim>\<open>Decimal("0.15")\<close>) or correctly
  rounded (\<^verbatim>\<open>0.15\<close>, here \<open>flt\<close>). Infinities, NaN, the sign of zero and exponent overflow are not
  values of these types; a division by zero never reaches the operation in the modelled code,
  which guards it.
\<close>

definition dec28 :: "rat \<Rightarrow> rat" where
  "dec28 = rnd 10 28 (- 1000026)"

definition fl64 :: "rat \<Rightarrow> rat" where
  "fl64 = rnd 2 53 (- 1074)"

interpretation dec_r: digit_rounding dec28 10 28 "- 1000026"
proof unfold_locales
  show "\<exists>k e. dec28 x = of_int k * of_nat 10 powi e \<and> \<bar>k\<bar> < int 10 ^ 28 \<and> - 1000026 \<le> e" for x
    unfolding dec28_def by (rule rnd_form) simp_all
qed (simp_all add: dec28_def rnd_mono rnd_uminus rnd_exact [where b = 10, simplified])

interpretation flt_r: digit_rounding fl64 2 53 "- 1074"
proof unfold_locales
  show "\<exists>k e. fl64 x = of_int k * of_nat 2 powi e \<and> \<bar>k\<bar> < int 2 ^ 53 \<and> - 1074 \<le> e" for x
    unfolding fl64_def by (rule rnd_form) simp_all
qed (simp_all add: fl64_def rnd_mono rnd_uminus rnd_exact [where b = 2, simplified])

section \<open>Decimal\<close>

datatype dec = Dec (dval: rat)

instantiation dec :: "{zero, one, plus, minus, uminus, times, inverse, linorder}"
begin

definition zero_dec :: dec where "0 = Dec 0"
definition one_dec :: dec where "1 = Dec 1"
definition plus_dec :: "dec \<Rightarrow> dec \<Rightarrow> dec" where "a + b = Dec (dec28 (dval a + dval b))"
definition minus_dec :: "dec \<Rightarrow> dec \<Rightarrow> dec" where "a - b = Dec (dec28 (dval a - dval b))"
definition uminus_dec :: "dec \<Rightarrow> dec" where "- a = Dec (dec28 (- dval a))"
definition times_dec :: "dec \<Rightarrow> dec \<Rightarrow> dec" where "a * b = Dec (dec28 (dval a * dval b))"
definition inverse_dec :: "dec \<Rightarrow> dec" where "inverse a = Dec (dec28 (1 / dval a))"
definition divide_dec :: "dec \<Rightarrow> dec \<Rightarrow> dec" where "a div b = Dec (dec28 (dval a / dval b))"
definition less_eq_dec :: "dec \<Rightarrow> dec \<Rightarrow> bool" where "a \<le> b \<longleftrightarrow> dval a \<le> dval b"
definition less_dec :: "dec \<Rightarrow> dec \<Rightarrow> bool" where "a < b \<longleftrightarrow> dval a < dval b"

instance
  by standard (auto simp: less_eq_dec_def less_dec_def intro: dec.expand)

end

lemma dval_simps [simp]:
  "dval 0 = 0" "dval 1 = 1"
  "dval (a + b) = dec28 (dval a + dval b)"
  "dval (a - b) = dec28 (dval a - dval b)"
  "dval (- a) = dec28 (- dval a)"
  "dval (a * b) = dec28 (dval a * dval b)"
  "dval (a / b) = dec28 (dval a / dval b)"
  by (simp_all add: zero_dec_def one_dec_def plus_dec_def minus_dec_def uminus_dec_def
      times_dec_def divide_dec_def)

lemma dec_order [simp]:
  "Dec x \<le> Dec y \<longleftrightarrow> x \<le> y" "Dec x < Dec y \<longleftrightarrow> x < y"
  by (simp_all add: less_eq_dec_def less_dec_def)

lemma dec_le_iff: "a \<le> b \<longleftrightarrow> dval a \<le> dval b" and dec_less_iff: "a < b \<longleftrightarrow> dval a < dval b"
  by (simp_all add: less_eq_dec_def less_dec_def)

lemma dec_eq_iff: "a = b \<longleftrightarrow> dval a = dval b"
  by (auto intro: dec.expand)

lemma dval_min: "dval (min a b) = min (dval a) (dval b)"
  and dval_max: "dval (max a b) = max (dval a) (dval b)"
  by (simp_all add: min_def max_def dec_le_iff)

text \<open>
  \<^verbatim>\<open>x.quantize(Decimal(10) ** -n)\<close> with ties to even (the context's rule) or with
  \<^verbatim>\<open>ROUND_HALF_UP\<close>: rounding to \<open>n\<close> places. Both are roundings in the sense of the locale.
\<close>

definition qz_even :: "nat \<Rightarrow> rat \<Rightarrow> rat" where
  "qz_even n q = of_int (round_half_even (q * 10 ^ n)) / 10 ^ n"

definition qz_up :: "nat \<Rightarrow> rat \<Rightarrow> rat" where
  "qz_up n q = of_int (round_half_up (q * 10 ^ n)) / 10 ^ n"

interpretation qz_even: rounding "qz_even n" for n
  by unfold_locales (auto simp: qz_even_def round_half_even_uminus divide_right_mono round_half_even_mono)

interpretation qz_up: rounding "qz_up n" for n
  by unfold_locales (auto simp: qz_up_def round_half_up_uminus divide_right_mono round_half_up_mono)

definition quantize :: "nat \<Rightarrow> dec \<Rightarrow> dec" where
  "quantize n x = Dec (qz_even n (dval x))"

definition quantize_half_up :: "nat \<Rightarrow> dec \<Rightarrow> dec" where
  "quantize_half_up n x = Dec (qz_up n (dval x))"

lemma dval_quantize [simp]:
  "dval (quantize n x) = qz_even n (dval x)" "dval (quantize_half_up n x) = qz_up n (dval x)"
  by (simp_all add: quantize_def quantize_half_up_def)

text \<open>Numbers with \<open>n\<close> decimal places, and the columns \<^verbatim>\<open>NUMERIC(p, s)\<close> of the schema.\<close>

definition places :: "nat \<Rightarrow> rat \<Rightarrow> bool" where
  "places n q \<longleftrightarrow> of_int \<lfloor>q * 10 ^ n\<rfloor> = q * 10 ^ n"

definition numeric :: "nat \<Rightarrow> nat \<Rightarrow> dec \<Rightarrow> bool" where
  "numeric p s x \<longleftrightarrow> places s (dval x) \<and> \<bar>dval x\<bar> * 10 ^ s < 10 ^ p"

lemma placesE:
  assumes "places n q" obtains k where "q = of_int k / 10 ^ n"
  using assms by (auto simp: places_def field_simps)

lemma places_scaled [simp]: "places n (of_int k / 10 ^ n)"
  by (simp add: places_def)

lemma places_0 [simp]: "places n 0"
  by (simp add: places_def)

lemma places_closed:
  assumes "places n p" "places n q"
  shows "places n (p + q)" "places n (p - q)" "places n (min p q)"
proof -
  obtain j k where [simp]: "p = of_int j / 10 ^ n" "q = of_int k / 10 ^ n"
    using assms by (meson placesE)
  have "p + q = of_int (j + k) / 10 ^ n" "p - q = of_int (j - k) / 10 ^ n"
    by (simp_all add: add_divide_distrib diff_divide_distrib)
  then show "places n (p + q)" "places n (p - q)" by (metis places_scaled)+
  show "places n (min p q)" using assms by (simp add: min_def)
qed

lemma places_uminus: "places n p \<Longrightarrow> places n (- p)"
  using places_closed(2) [of n 0 p] by simp

lemma places_qz [simp]: "places n (qz_even n q)" "places n (qz_up n q)"
  by (simp_all add: qz_even_def qz_up_def)

lemma qz_fixed: "places n q \<Longrightarrow> qz_even n q = q" "places n q \<Longrightarrow> qz_up n q = q"
  by (auto elim!: placesE simp: qz_even_def qz_up_def)

lemma dec28_places:
  assumes "places n q" "\<bar>q\<bar> * 10 ^ n < 10 ^ 28" "n \<le> 28"
  shows "dec28 q = q"
proof -
  obtain k where k: "q = of_int k / 10 ^ n" using assms(1) by (rule placesE)
  with assms(2) have "(of_int \<bar>k\<bar> :: rat) < of_int (int 10 ^ 28)" by (simp add: abs_divide)
  then have "\<bar>k\<bar> < int 10 ^ 28" by (simp only: of_int_less_iff)
  with dec_r.exact_scaled [of k n] assms(3) k show ?thesis by simp
qed

lemma quantize_near:
  "\<bar>dval (quantize n x) - dval x\<bar> \<le> 1 / (2 * 10 ^ n)"
  "\<bar>dval (quantize_half_up n x) - dval x\<bar> \<le> 1 / (2 * 10 ^ n)"
proof -
  have *: "\<bar>of_int k / 10 ^ n - q\<bar> \<le> 1 / (2 * 10 ^ n)"
    if "\<bar>of_int k - q * 10 ^ n\<bar> \<le> 1/2" for k and q :: rat
  proof -
    have "of_int k / 10 ^ n - q = (of_int k - q * 10 ^ n) / 10 ^ n" by (simp add: field_simps)
    with that show ?thesis by (simp add: abs_divide divide_le_eq field_simps)
  qed
  show "\<bar>dval (quantize n x) - dval x\<bar> \<le> 1 / (2 * 10 ^ n)"
    using * [OF round_half_even_near] by (simp add: qz_even_def)
  show "\<bar>dval (quantize_half_up n x) - dval x\<bar> \<le> 1 / (2 * 10 ^ n)"
    using * [OF round_half_up_near] by (simp add: qz_up_def)
qed

text \<open>\<^verbatim>\<open>sum(xs, Decimal("0"))\<close>: a left fold.\<close>

definition dec_sum :: "dec list \<Rightarrow> dec" where
  "dec_sum xs = foldl (+) (Dec 0) xs"

lemma foldl_plus_exact:
  assumes "\<forall>x\<in>set xs. places n (dval x) \<and> 0 \<le> dval x" "places n (dval a)" "0 \<le> dval a"
    and "(dval a + sum_list (map dval xs)) * 10 ^ n < 10 ^ 28" "n \<le> 28"
  shows "dval (foldl (+) a xs) = dval a + sum_list (map dval xs)"
  using assms
proof (induction xs arbitrary: a)
  case (Cons x xs)
  have nn: "0 \<le> sum_list (map dval xs)" using Cons.prems(1) by (intro sum_list_nonneg) auto
  have "places n (dval a + dval x)" using Cons.prems by (intro places_closed) auto
  moreover have "(dval a + dval x) * 10 ^ n < 10 ^ 28"
  proof -
    have "(dval a + dval x) * 10 ^ n \<le> (dval a + sum_list (map dval (x # xs))) * 10 ^ n"
      using nn by (intro mult_right_mono) auto
    then show ?thesis using Cons.prems(4) by linarith
  qed
  ultimately have ax: "dval (a + x) = dval a + dval x"
    using Cons.prems by (simp add: dec28_places [of n])
  have "dval (foldl (+) (a + x) xs) = dval (a + x) + sum_list (map dval xs)"
    by (rule Cons.IH)
      (use Cons.prems in \<open>auto simp: ax add.assoc simp del: dval_simps intro: places_closed\<close>)
  then show ?case by (simp add: ax del: dval_simps)
qed simp

lemma places_sum_list: "\<forall>x\<in>set xs. places n (dval x) \<Longrightarrow> places n (sum_list (map dval xs))"
  by (induction xs) (auto intro: places_closed)

lemma dec_sum_exact:
  assumes "\<forall>x\<in>set xs. places n (dval x) \<and> 0 \<le> dval x" "sum_list (map dval xs) * 10 ^ n < 10 ^ 28" "n \<le> 28"
  shows "dval (dec_sum xs) = sum_list (map dval xs)"
  using foldl_plus_exact [of xs n "Dec 0"] assms by (simp add: dec_sum_def)

section \<open>Float\<close>

datatype flt = Flt (fval: rat)

instantiation flt :: "{zero, one, plus, minus, uminus, times, inverse, linorder, abs}"
begin

definition zero_flt :: flt where "0 = Flt 0"
definition one_flt :: flt where "1 = Flt 1"
definition plus_flt :: "flt \<Rightarrow> flt \<Rightarrow> flt" where "a + b = Flt (fl64 (fval a + fval b))"
definition minus_flt :: "flt \<Rightarrow> flt \<Rightarrow> flt" where "a - b = Flt (fl64 (fval a - fval b))"
definition uminus_flt :: "flt \<Rightarrow> flt" where "- a = Flt (- fval a)"
definition times_flt :: "flt \<Rightarrow> flt \<Rightarrow> flt" where "a * b = Flt (fl64 (fval a * fval b))"
definition inverse_flt :: "flt \<Rightarrow> flt" where "inverse a = Flt (fl64 (1 / fval a))"
definition divide_flt :: "flt \<Rightarrow> flt \<Rightarrow> flt" where "a div b = Flt (fl64 (fval a / fval b))"
definition abs_flt :: "flt \<Rightarrow> flt" where "\<bar>a\<bar> = Flt \<bar>fval a\<bar>"
definition less_eq_flt :: "flt \<Rightarrow> flt \<Rightarrow> bool" where "a \<le> b \<longleftrightarrow> fval a \<le> fval b"
definition less_flt :: "flt \<Rightarrow> flt \<Rightarrow> bool" where "a < b \<longleftrightarrow> fval a < fval b"

instance
  by standard (auto simp: less_eq_flt_def less_flt_def intro: flt.expand)

end

lemma fval_simps [simp]:
  "fval 0 = 0" "fval 1 = 1"
  "fval (a + b) = fl64 (fval a + fval b)"
  "fval (a - b) = fl64 (fval a - fval b)"
  "fval (- a) = - fval a"
  "fval (a * b) = fl64 (fval a * fval b)"
  "fval (a / b) = fl64 (fval a / fval b)"
  "fval \<bar>a\<bar> = \<bar>fval a\<bar>"
  by (simp_all add: zero_flt_def one_flt_def plus_flt_def minus_flt_def uminus_flt_def
      times_flt_def divide_flt_def abs_flt_def)

lemma flt_order [simp]:
  "Flt x \<le> Flt y \<longleftrightarrow> x \<le> y" "Flt x < Flt y \<longleftrightarrow> x < y"
  by (simp_all add: less_eq_flt_def less_flt_def)

lemma flt_le_iff: "a \<le> b \<longleftrightarrow> fval a \<le> fval b" and flt_less_iff: "a < b \<longleftrightarrow> fval a < fval b"
  by (simp_all add: less_eq_flt_def less_flt_def)

lemma flt_eq_iff: "a = b \<longleftrightarrow> fval a = fval b"
  by (auto intro: flt.expand)

lemma fval_min: "fval (min a b) = min (fval a) (fval b)"
  and fval_max: "fval (max a b) = max (fval a) (fval b)"
  by (simp_all add: min_def max_def flt_le_iff)

text \<open>A float literal, \<^verbatim>\<open>float(n)\<close> of an integer and \<^verbatim>\<open>float(d)\<close> of a Decimal: the nearest float.\<close>

definition flt :: "rat \<Rightarrow> flt" where
  "flt q = Flt (fl64 q)"

definition flt_of_int :: "int \<Rightarrow> flt" where
  "flt_of_int n = flt (of_int n)"

definition flt_of_dec :: "dec \<Rightarrow> flt" where
  "flt_of_dec d = flt (dval d)"

text \<open>\<^verbatim>\<open>round(x, n)\<close>: the nearest decimal with \<open>n\<close> places (ties to even on the exact value), then
  the nearest float. \<^verbatim>\<open>round(x)\<close> gives an integer.\<close>

definition py_round :: "nat \<Rightarrow> flt \<Rightarrow> flt" where
  "py_round n x = flt (of_int (round_half_even (fval x * 10 ^ n)) / 10 ^ n)"

definition py_round_int :: "flt \<Rightarrow> int" where
  "py_round_int x = round_half_even (fval x)"

text \<open>\<^verbatim>\<open>sum(xs)\<close> on floats: a left fold from the integer 0, whose addition is exact.\<close>

definition flt_sum :: "flt list \<Rightarrow> flt" where
  "flt_sum xs = foldl (+) 0 xs"

text \<open>A rational that is a float (a Decimal literal is always a Decimal).\<close>

definition is_flt :: "flt \<Rightarrow> bool" where
  "is_flt x \<longleftrightarrow> fl64 (fval x) = fval x"

text \<open>A share of a whole in percent, computed in floats, is between 0 and 100.\<close>

lemma percentage: "k \<le> n \<Longrightarrow> 0 \<le> flt (of_nat k / of_nat n) * flt 100 \<and> flt (of_nat k / of_nat n) * flt 100 \<le> Flt 100"
proof -
  assume "k \<le> n"
  then have q: "0 \<le> (of_nat k / of_nat n :: rat)" "(of_nat k / of_nat n :: rat) \<le> 1" by (auto simp: divide_le_eq)
  have one: "fl64 1 = 1" and hundred: "fl64 100 = 100" using flt_r.exact_int [of 1] flt_r.exact_int [of 100] by simp_all
  have "0 \<le> fl64 (of_nat k / of_nat n)" "fl64 (of_nat k / of_nat n) \<le> 1"
    using flt_r.nonneg [OF q(1)] flt_r.le_fixed [OF one q(2)] by simp_all
  then have "0 \<le> fl64 (fl64 (of_nat k / of_nat n) * 100)" "fl64 (fl64 (of_nat k / of_nat n) * 100) \<le> 100"
    by (auto intro!: flt_r.nonneg flt_r.le_fixed [OF hundred])
  then show ?thesis by (simp add: flt_le_iff flt_def hundred)
qed

text \<open>A float differs from a number of up to ten digits before the point by less than a millionth.\<close>

lemma fl64_near_micro:
  assumes "\<bar>x\<bar> \<le> 2 ^ 32"
  shows "\<bar>fl64 x - x\<bar> \<le> 1 / 2 ^ 20"
proof -
  define k where "k = \<lfloor>x * 2 ^ 20\<rfloor>"
  have k: "of_int k \<le> x * 2 ^ 20" "x * 2 ^ 20 < of_int k + 1" unfolding k_def by linarith+
  have "- (2 ^ 52) \<le> x * 2 ^ 20" "x * 2 ^ 20 \<le> 2 ^ 52" using assms by (auto simp: abs_le_iff)
  then have "(of_int (- (2 ^ 52) - 1) :: rat) < of_int k" "(of_int k :: rat) \<le> of_int (2 ^ 52)" using k by simp_all
  then have b: "\<bar>k\<bar> < int 2 ^ 53" "\<bar>k + 1\<bar> < int 2 ^ 53" unfolding of_int_less_iff of_int_le_iff by simp_all
  have fix_k: "fl64 (of_int k / 2 ^ 20) = of_int k / 2 ^ 20" "fl64 (of_int (k + 1) / 2 ^ 20) = of_int (k + 1) / 2 ^ 20"
    using flt_r.exact_scaled [OF b(1), of 20] flt_r.exact_scaled [OF b(2), of 20] by simp_all
  have lo: "of_int k / 2 ^ 20 \<le> x" and hi: "x \<le> of_int (k + 1) / 2 ^ 20"
    using k by (simp_all add: pos_divide_le_eq pos_le_divide_eq)
  have "of_int k / 2 ^ 20 \<le> fl64 x" "fl64 x \<le> of_int (k + 1) / 2 ^ 20"
    using flt_r.ge_fixed [OF fix_k(1) lo] flt_r.le_fixed [OF fix_k(2) hi] by simp_all
  moreover have "(of_int (k + 1) :: rat) / 2 ^ 20 = of_int k / 2 ^ 20 + 1 / 2 ^ 20" by (simp add: add_divide_distrib)
  ultimately show ?thesis using lo hi unfolding abs_le_iff by linarith
qed

text \<open>
  A value sent to a column \<^verbatim>\<open>NUMERIC(p, s)\<close> is rounded half away from zero; a decimal of at most four
  places that went through a float comes back as it was.
\<close>

lemma stored_float:
  assumes "places 4 (dval d)" "\<bar>dval d\<bar> < 10 ^ 8"
  shows "qz_up 4 (fval (flt_of_dec d)) = dval d"
proof -
  obtain k where k: "dval d = of_int k / 10 ^ 4" using assms(1) by (rule placesE)
  have near: "\<bar>fl64 (dval d) - dval d\<bar> \<le> 1 / 2 ^ 20" using assms(2) by (intro fl64_near_micro) simp
  define y where "y = fl64 (dval d) * 10 ^ 4"
  have "y - of_int k = (fl64 (dval d) - dval d) * 10 ^ 4" unfolding y_def left_diff_distrib by (simp add: k)
  then have "\<bar>y - of_int k\<bar> = \<bar>fl64 (dval d) - dval d\<bar> * \<bar>10 ^ 4\<bar>" by (simp only: abs_mult)
  also have "\<dots> < 1 / 2" using near by simp
  finally have y: "\<bar>y - of_int k\<bar> < 1 / 2" .
  have "\<bar>of_int (round_half_up y) - y\<bar> \<le> 1 / 2" by (rule round_half_up_near)
  with y have "\<bar>of_int (round_half_up y - k) :: rat\<bar> < 1" unfolding of_int_diff by linarith
  then have "round_half_up y = k" by (simp flip: of_int_abs)
  then show ?thesis by (simp add: qz_up_def flt_of_dec_def flt_def k flip: y_def) (simp add: y_def k)
qed

end
