(* ===== verification/Py_Str.thy ===== *)
theory Py_Str
  imports Main "HOL-Library.Char_ord"
begin

text \<open>
  The string methods the code uses, on the ASCII characters: a byte of a multi-byte UTF-8 sequence
  is neither a letter, a digit nor a space and is left alone by the case conversions.
\<close>

definition is_upper :: "char \<Rightarrow> bool" where "is_upper c \<longleftrightarrow> CHR ''A'' \<le> c \<and> c \<le> CHR ''Z''"
definition is_lower :: "char \<Rightarrow> bool" where "is_lower c \<longleftrightarrow> CHR ''a'' \<le> c \<and> c \<le> CHR ''z''"
definition is_digit :: "char \<Rightarrow> bool" where "is_digit c \<longleftrightarrow> CHR ''0'' \<le> c \<and> c \<le> CHR ''9''"
definition is_alpha :: "char \<Rightarrow> bool" where "is_alpha c \<longleftrightarrow> is_upper c \<or> is_lower c"

definition is_space :: "char \<Rightarrow> bool" where
  "is_space c \<longleftrightarrow> of_char c \<in> ({9, 10, 11, 12, 13, 28, 29, 30, 31, 32} :: nat set)"

definition char_lower :: "char \<Rightarrow> char" where
  "char_lower c = (if is_upper c then char_of (of_char c + 32 :: nat) else c)"

definition char_upper :: "char \<Rightarrow> char" where
  "char_upper c = (if is_lower c then char_of (of_char c - 32 :: nat) else c)"

text \<open>\<^verbatim>\<open>s.lower()\<close>, \<^verbatim>\<open>s.upper()\<close>, \<^verbatim>\<open>s.strip()\<close>, \<^verbatim>\<open>s.startswith(p)\<close>, \<^verbatim>\<open>p in s\<close>\<close>

definition py_lower :: "string \<Rightarrow> string" where "py_lower s = map char_lower s"
definition py_upper :: "string \<Rightarrow> string" where "py_upper s = map char_upper s"

definition py_lstrip :: "string \<Rightarrow> string" where "py_lstrip s = dropWhile is_space s"
definition py_strip :: "string \<Rightarrow> string" where "py_strip s = rev (py_lstrip (rev (py_lstrip s)))"

fun startswith :: "string \<Rightarrow> string \<Rightarrow> bool" where
  "startswith [] s = True"
| "startswith (c # p) [] = False"
| "startswith (c # p) (d # s) = (c = d \<and> startswith p s)"

fun contains_str :: "string \<Rightarrow> string \<Rightarrow> bool" where
  "contains_str p [] = (p = [])"
| "contains_str p (c # s) = (startswith p (c # s) \<or> contains_str p s)"

lemma char_lower_idem [simp]: "char_lower (char_lower c) = char_lower c"
proof (cases "is_upper c")
  case True
  then have r: "65 \<le> (of_char c :: nat)" "(of_char c :: nat) \<le> 90" by (simp_all add: is_upper_def less_eq_char_def)
  then have "(of_char (char_lower c) :: nat) = of_char c + 32" using True by (simp add: char_lower_def)
  then have "\<not> is_upper (char_lower c)" using r by (simp add: is_upper_def less_eq_char_def)
  then show ?thesis by (simp add: char_lower_def)
qed (simp add: char_lower_def)

lemma py_lower_idem [simp]: "py_lower (py_lower s) = py_lower s"
  by (simp add: py_lower_def)

lemma startswith_iff: "startswith p s \<longleftrightarrow> (\<exists>t. s = p @ t)"
  by (induction p s rule: startswith.induct) auto

lemma contains_str_iff: "contains_str p s \<longleftrightarrow> (\<exists>a b. s = a @ p @ b)"
proof (induction p s rule: contains_str.induct)
  case (2 p c s)
  show ?case
  proof
    assume "contains_str p (c # s)"
    then consider t where "c # s = p @ t" | a b where "s = a @ p @ b"
      using 2 by (auto simp: startswith_iff)
    then show "\<exists>a b. c # s = a @ p @ b"
    proof cases
      case 1 then have "c # s = [] @ p @ t" by simp
      then show ?thesis by blast
    next
      case 2 then have "c # s = (c # a) @ p @ b" by simp
      then show ?thesis by blast
    qed
  next
    assume "\<exists>a b. c # s = a @ p @ b"
    then obtain a b where "c # s = a @ p @ b" by auto
    then have "startswith p (c # s) \<or> (\<exists>a b. s = a @ p @ b)"
      by (cases a) (auto simp: startswith_iff)
    then show "contains_str p (c # s)" using 2 by auto
  qed
qed auto

text \<open>\<^verbatim>\<open>len(s)\<close> in characters: the bytes that do not continue a UTF-8 sequence.\<close>

definition char_len :: "string \<Rightarrow> nat" where
  "char_len s = length (filter (\<lambda>c. \<not> (128 \<le> (of_char c :: nat) \<and> (of_char c :: nat) < 192)) s)"

text \<open>Characters of the messages that a string literal here cannot hold, in UTF-8.\<close>

definition em_dash :: string where "em_dash = [CHR 0xE2, CHR 0x80, CHR 0x94]"
definition en_dash :: string where "en_dash = [CHR 0xE2, CHR 0x80, CHR 0x93]"
definition apostrophe :: string where "apostrophe = [CHR 0x27]"

text \<open>\<^verbatim>\<open>str(n)\<close> of an integer, least digit last.\<close>

definition digit_char :: "nat \<Rightarrow> char" where "digit_char d = char_of (48 + d)"

fun str_of_nat :: "nat \<Rightarrow> string" where
  "str_of_nat n = (if n < 10 then [digit_char n] else str_of_nat (n div 10) @ [digit_char (n mod 10)])"

definition str_of_int :: "int \<Rightarrow> string" where
  "str_of_int n = (if n < 0 then CHR ''-'' # str_of_nat (nat (- n)) else str_of_nat (nat n))"

declare str_of_nat.simps [simp del]

text \<open>The separators of \<^verbatim>\<open>f"{n:,}"\<close>: a comma between groups of three digits, from the right.\<close>

fun group_rev :: "string \<Rightarrow> string" where
  "group_rev (a # b # c # d # ds) = a # b # c # CHR '','' # group_rev (d # ds)"
| "group_rev ds = ds"

definition commas :: "string \<Rightarrow> string" where
  "commas digits = rev (group_rev (rev digits))"

end
