(* ===== verification/Py_Base.thy ===== *)
theory Py_Base
  imports Py_Num Py_Str "HOL-Library.Product_Lexorder" "HOL-Library.List_Lexorder" "HOL-Library.Char_ord"
    "HOL-Library.Multiset"
begin

text \<open>
  What the component theories share besides numbers: results that may be errors, dates, and
  Python's sorting and searching of lists. Strings are \<open>char list\<close>s of their UTF-8 bytes,
  compared lexicographically, which is the order of Python's code points.
\<close>

section \<open>Results\<close>

text \<open>A call that may raise: \<open>Inl\<close> carries the exception. \<open>bind_r\<close> runs the rest unless it raised.\<close>

definition bind_r :: "'e + 'a \<Rightarrow> ('a \<Rightarrow> 'e + 'b) \<Rightarrow> 'e + 'b" where
  "bind_r r f = (case r of Inl e \<Rightarrow> Inl e | Inr x \<Rightarrow> f x)"

lemma bind_r_simps [simp]: "bind_r (Inl e) f = Inl e" "bind_r (Inr x) f = f x"
  by (simp_all add: bind_r_def)

lemma bind_r_Inr_iff: "bind_r r f = Inr y \<longleftrightarrow> (\<exists>x. r = Inr x \<and> f x = Inr y)"
  by (cases r) auto

lemma bind_r_Inl_iff: "bind_r r f = Inl e \<longleftrightarrow> r = Inl e \<or> (\<exists>x. r = Inr x \<and> f x = Inl e)"
  by (cases r) auto

definition is_ok :: "'e + 'a \<Rightarrow> bool" where
  "is_ok r = (case r of Inl _ \<Rightarrow> False | Inr _ \<Rightarrow> True)"

lemma is_ok_simps [simp]: "\<not> is_ok (Inl e)" "is_ok (Inr x)"
  by (simp_all add: is_ok_def)

lemma is_ok_bind: "is_ok r \<Longrightarrow> (\<And>x. r = Inr x \<Longrightarrow> is_ok (f x)) \<Longrightarrow> is_ok (bind_r r f)"
  by (cases r) auto

lemma is_ok_ex: "is_ok r \<longleftrightarrow> (\<exists>x. r = Inr x)"
  by (cases r) auto

text \<open>A comprehension whose elements may raise.\<close>

fun collect_r :: "('e + 'a) list \<Rightarrow> 'e + 'a list" where
  "collect_r [] = Inr []"
| "collect_r (r # rs) = bind_r r (\<lambda>x. bind_r (collect_r rs) (\<lambda>xs. Inr (x # xs)))"

lemma collect_r_Inr_iff: "collect_r rs = Inr xs \<longleftrightarrow> rs = map Inr xs"
  by (induction rs arbitrary: xs) (auto simp: bind_r_Inr_iff Cons_eq_map_conv)

lemma collect_r_Inl: "collect_r rs = Inl e \<Longrightarrow> Inl e \<in> set rs"
  by (induction rs) (auto simp: bind_r_Inl_iff)

lemma collect_r_prefix: "collect_r rs = Inr xs \<Longrightarrow> collect_r (take k rs) = Inr (take k xs)"
  by (induction rs arbitrary: k xs) (auto simp: bind_r_Inr_iff take_Cons split: nat.splits)

lemma length_collect_r: "collect_r rs = Inr xs \<Longrightarrow> length xs = length rs"
  by (induction rs arbitrary: xs) (auto simp: bind_r_Inr_iff)

section \<open>Dates\<close>

text \<open>
  A \<^verbatim>\<open>datetime.date\<close> is its proleptic Gregorian ordinal: comparison is the order of the ordinals,
  \<^verbatim>\<open>(a - b).days\<close> is their difference, \<^verbatim>\<open>a + timedelta(days=n)\<close> their sum. The year, month and day
  are computed as the standard library's \<^verbatim>\<open>_ymd2ord\<close> and \<^verbatim>\<open>_ord2ymd\<close> do.
\<close>

type_synonym date = int

definition is_leap :: "int \<Rightarrow> bool" where
  "is_leap y \<longleftrightarrow> y mod 4 = 0 \<and> (y mod 100 \<noteq> 0 \<or> y mod 400 = 0)"

definition days_before_year :: "int \<Rightarrow> int" where
  "days_before_year y = (let z = y - 1 in z * 365 + z div 4 - z div 100 + z div 400)"

definition days_in_month :: "int \<Rightarrow> int \<Rightarrow> int" where
  "days_in_month y m =
     (if m = 2 then (if is_leap y then 29 else 28)
      else if m \<in> {4, 6, 9, 11} then 30 else 31)"

definition days_before_month :: "int \<Rightarrow> int \<Rightarrow> int" where
  "days_before_month y m =
     sum_list (map (days_in_month y) (takeWhile (\<lambda>k. k < m) [1, 2, 3, 4, 5, 6, 7, 8, 9, 10, 11, 12]))"

definition mk_date :: "int \<Rightarrow> int \<Rightarrow> int \<Rightarrow> date" where
  "mk_date y m d = days_before_year y + days_before_month y m + d"

text \<open>The year is estimated from the ordinal and corrected by at most one in each direction.\<close>

definition year_of :: "date \<Rightarrow> int" where
  "year_of n =
     (let y = (n * 400) div 146097 + 1
      in if n \<le> days_before_year y then y - 1
         else if days_before_year (y + 1) < n then y + 1 else y)"

definition month_of :: "date \<Rightarrow> int" where
  "month_of n =
     (let y = year_of n; r = n - days_before_year y
      in int (length (takeWhile (\<lambda>k. days_before_month y k < r) [1, 2, 3, 4, 5, 6, 7, 8, 9, 10, 11, 12])))"

definition day_of :: "date \<Rightarrow> int" where
  "day_of n = n - days_before_year (year_of n) - days_before_month (year_of n) (month_of n)"

lemma mk_date_ymd: "mk_date (year_of n) (month_of n) (day_of n) = n"
  by (simp add: mk_date_def day_of_def)

text \<open>
  \<^verbatim>\<open>date.fromisoformat(s)\<close>: \<^verbatim>\<open>YYYY-MM-DD\<close>, \<^verbatim>\<open>YYYYMMDD\<close> and the ISO week forms, or \<^verbatim>\<open>ValueError\<close>.
\<close>

definition digits_val :: "string \<Rightarrow> int option" where
  "digits_val s = (if s \<noteq> [] \<and> list_all is_digit s
     then Some (foldl (\<lambda>n c. 10 * n + (of_char c - 48)) 0 s) else None)"

definition ymd_valid :: "int \<Rightarrow> int \<Rightarrow> int \<Rightarrow> bool" where
  "ymd_valid y m d \<longleftrightarrow> 1 \<le> y \<and> y \<le> 9999 \<and> 1 \<le> m \<and> m \<le> 12 \<and> 1 \<le> d \<and> d \<le> days_in_month y m"

definition isoweek_date :: "int \<Rightarrow> int \<Rightarrow> int \<Rightarrow> date option" where
  "isoweek_date y w d =
     (let first = mk_date y 1 1; wd = (first + 6) mod 7;
          monday = first - wd + (if 3 < wd then 7 else 0);
          long = (first mod 7 = 4 \<or> first mod 7 = 3 \<and> is_leap y)
      in if 1 \<le> y \<and> y \<le> 9999 \<and> (0 < w \<and> w < 53 \<or> w = 53 \<and> long) \<and> 0 < d \<and> d < 8
         then Some (monday + (w - 1) * 7 + (d - 1)) else None)"

definition date_fromisoformat :: "string \<Rightarrow> date option" where
  "date_fromisoformat s =
     (if length s \<notin> {7, 8, 10} then None else
      let sep = (s ! 4 = CHR ''-''); p = drop (if sep then 5 else 4) s;
          dash_ok = (\<lambda>r. (take 1 r = ''-'') = sep); skip = (\<lambda>r. if sep then drop 1 r else r)
      in Option.bind (digits_val (take 4 s)) (\<lambda>y.
           if take 1 p = ''W'' then
             let r = drop 3 p
             in Option.bind (digits_val (take 2 (drop 1 p))) (\<lambda>w.
                  if length (take 2 (drop 1 p)) < 2 then None
                  else if r = [] then isoweek_date y w 1
                  else if \<not> dash_ok r \<or> length (skip r) \<noteq> 1 then None
                  else Option.bind (digits_val (skip r)) (isoweek_date y w))
           else
             let r = drop 2 p
             in Option.bind (digits_val (take 2 p)) (\<lambda>m.
                  if length (take 2 p) < 2 \<or> \<not> dash_ok r \<or> length (skip r) \<noteq> 2 then None
                  else Option.bind (digits_val (skip r)) (\<lambda>d.
                    if ymd_valid y m d then Some (mk_date y m d) else None))))"

section \<open>Formatting\<close>

text \<open>The format \<^verbatim>\<open>f"{x:.nf}"\<close>, and \<^verbatim>\<open>f"{x:,.0f}"\<close>.\<close>

definition fmt_fixed :: "nat \<Rightarrow> flt \<Rightarrow> string" where
  "fmt_fixed n x =
     (let k = nat (round_half_even (\<bar>fval x\<bar> * 10 ^ n)); frac = str_of_nat (k mod 10 ^ n)
      in (if fval x < 0 then ''-'' else []) @ str_of_nat (k div 10 ^ n)
         @ (if n = 0 then [] else ''.'' @ replicate (n - length frac) (CHR ''0'') @ frac))"

definition fmt_commas :: "flt \<Rightarrow> string" where
  "fmt_commas x = (if fval x < 0 then ''-'' else []) @ commas (str_of_nat (nat (round_half_even \<bar>fval x\<bar>)))"

text \<open>\<^verbatim>\<open>f"{n:0wd}"\<close> of a natural number and \<^verbatim>\<open>d.isoformat()\<close>.\<close>

definition zero_padded :: "nat \<Rightarrow> int \<Rightarrow> string" where
  "zero_padded w n = (let digits = str_of_nat (nat n) in replicate (w - length digits) (CHR ''0'') @ digits)"

definition date_isoformat :: "date \<Rightarrow> string" where
  "date_isoformat d = zero_padded 4 (year_of d) @ ''-'' @ zero_padded 2 (month_of d) @ ''-'' @ zero_padded 2 (day_of d)"

section \<open>Requests\<close>

text \<open>What an endpoint raises: \<^verbatim>\<open>HTTPException(status_code, detail)\<close>, or an exception nothing handles (a 500).\<close>

datatype http_error = HTTPException int string | ServerError

section \<open>Lists\<close>

text \<open>\<^verbatim>\<open>sorted(xs, key=f)\<close> is the stable \<open>sort_key f\<close>; with \<^verbatim>\<open>reverse=True\<close> equal keys keep their order too.\<close>

definition sort_key_desc :: "('a \<Rightarrow> 'k::linorder) \<Rightarrow> 'a list \<Rightarrow> 'a list" where
  "sort_key_desc f xs = rev (sort_key f (rev xs))"

lemma set_sort_key_desc [simp]: "set (sort_key_desc f xs) = set xs"
  by (simp add: sort_key_desc_def)

lemma length_sort_key_desc [simp]: "length (sort_key_desc f xs) = length xs"
  by (simp add: sort_key_desc_def)

lemma sort_key_desc_sorted: "sorted_wrt (\<lambda>x y. f y \<le> f x) (sort_key_desc f xs)"
proof -
  have "sorted (map f (sort_key f (rev xs)))" by simp
  then show ?thesis by (simp add: sort_key_desc_def sorted_wrt_rev sorted_map)
qed

text \<open>The first element of a stable sort is the first least element.\<close>

lemma hd_sort_key:
  assumes "xs \<noteq> []"
  shows "hd (sort_key f xs) \<in> set xs" "\<And>y. y \<in> set xs \<Longrightarrow> f (hd (sort_key f xs)) \<le> f y"
proof -
  have ne: "sort_key f xs \<noteq> []" using assms by (metis length_0_conv length_sort)
  then have "hd (sort_key f xs) \<in> set (sort_key f xs)" by (rule hd_in_set)
  then show "hd (sort_key f xs) \<in> set xs" by simp
  fix y assume "y \<in> set xs"
  then have y: "y \<in> set (sort_key f xs)" by simp
  have "sorted (map f (sort_key f xs))" by simp
  with ne y show "f (hd (sort_key f xs)) \<le> f y"
    by (cases "sort_key f xs") auto
qed

lemma insort_key_map: "insort_key f (g x) (map g xs) = map g (insort_key (\<lambda>x. f (g x)) x xs)"
  by (induction xs) auto

lemma sort_key_map: "sort_key f (map g xs) = map g (sort_key (\<lambda>x. f (g x)) xs)"
  by (induction xs) (simp_all add: insort_key_map)

lemma find_hd_filter: "filter P xs \<noteq> [] \<Longrightarrow> List.find P xs = Some (hd (filter P xs))"
  by (induction xs) auto

text \<open>A dict filled in order: the value of a key, updated in place or appended.\<close>

fun upsert :: "'k \<Rightarrow> ('v option \<Rightarrow> 'v) \<Rightarrow> ('k \<times> 'v) list \<Rightarrow> ('k \<times> 'v) list" where
  "upsert k f [] = [(k, f None)]"
| "upsert k f ((k', v) # kvs) = (if k = k' then (k', f (Some v)) # kvs else (k', v) # upsert k f kvs)"

lemma map_of_upsert: "map_of (upsert k f kvs) = (map_of kvs)(k \<mapsto> f (map_of kvs k))"
  by (induction kvs) auto

lemma keys_upsert:
  "map fst (upsert k f kvs) = (if map_of kvs k = None then map fst kvs @ [k] else map fst kvs)"
  by (induction kvs) auto

lemma distinct_upsert: "distinct (map fst kvs) \<Longrightarrow> distinct (map fst (upsert k f kvs))"
  by (auto simp: keys_upsert map_of_eq_None_iff)

section \<open>Reachable states\<close>

text \<open>
  A component that serves requests is a set of initial states and a step relation; a safety
  property is an invariant of the states it can reach. The locale is the contract every
  stateful component discharges: its invariant holds at the start and every step keeps it.
\<close>

inductive reach :: "('s \<Rightarrow> bool) \<Rightarrow> ('s \<Rightarrow> 's \<Rightarrow> bool) \<Rightarrow> 's \<Rightarrow> bool"
  for init :: "'s \<Rightarrow> bool" and step :: "'s \<Rightarrow> 's \<Rightarrow> bool" where
  reach_init: "init s \<Longrightarrow> reach init step s"
| reach_step: "reach init step s \<Longrightarrow> step s t \<Longrightarrow> reach init step t"

locale invariant_system =
  fixes init :: "'s \<Rightarrow> bool" and step :: "'s \<Rightarrow> 's \<Rightarrow> bool" and inv :: "'s \<Rightarrow> bool"
  assumes inv_init: "init s \<Longrightarrow> inv s"
    and inv_step: "inv s \<Longrightarrow> step s t \<Longrightarrow> inv t"
begin

lemma reach_inv: "reach init step s \<Longrightarrow> inv s"
  by (induction rule: reach.induct) (auto intro: inv_init inv_step)

end

end
