(* ===== verification/Market.thy ===== *)
theory Market
  imports Py_Base
begin

text \<open>
  The market data tables \<^verbatim>\<open>securities\<close>, \<^verbatim>\<open>ohlcv_daily\<close> and \<^verbatim>\<open>corporate_actions\<close>
  (\<^verbatim>\<open>psx_api/models/securities.py\<close>, \<^verbatim>\<open>models/ohlcv.py\<close>, \<^verbatim>\<open>models/corporate_actions.py\<close>) that the
  services read and the ingest service fills.
\<close>

record Security =
  sec_symbol :: string
  company_name :: string
  sector :: string
  is_kmi_compliant :: bool
  is_kse100 :: bool
  is_kse30 :: bool
  market_cap_pkr :: "int option"
  shares_outstanding :: "int option"
  listed_at :: "date option"
  delisted_at :: "date option"
  is_active :: bool

record OhlcvDaily =
  o_symbol :: string
  o_date :: date
  o_open :: "dec option"
  o_high :: "dec option"
  o_low :: "dec option"
  o_close :: "dec option"
  o_volume :: "int option"
  o_value_pkr :: "dec option"
  o_adjusted_close :: "dec option"

record CorporateAction =
  ca_id :: int
  ca_symbol :: string
  ca_action_type :: string
  ca_announcement_date :: date
  ca_ex_date :: "date option"
  ca_record_date :: "date option"
  ca_payment_date :: "date option"
  ca_amount_per_share :: "dec option"
  ca_ratio_numerator :: "int option"
  ca_ratio_denominator :: "int option"
  ca_raw_announcement :: "string option"
  ca_created_at :: int

record market_db =
  security_rows :: "Security list"
  ohlcv_rows :: "OhlcvDaily list"

definition find_security :: "market_db \<Rightarrow> string \<Rightarrow> Security option" where
  "find_security mk symb = List.find (\<lambda>s. sec_symbol s = symb) (security_rows mk)"

text \<open>\<^verbatim>\<open>ROW_NUMBER() OVER (PARTITION BY symbol ORDER BY date DESC)\<close>: the rows of a symbol, newest first.\<close>

definition newest_first :: "market_db \<Rightarrow> string \<Rightarrow> OhlcvDaily list" where
  "newest_first mk symb = sort_key_desc o_date (filter (\<lambda>x. o_symbol x = symb) (ohlcv_rows mk))"

end
