(* ===== verification/Cgt.thy ===== *)
theory Cgt
  imports Py_Base
begin

text \<open>
  The capital-gains-tax engine, \<^verbatim>\<open>psx_api/tax/cgt.py\<close>: the brackets of the tax table, the choice of
  the bracket that applies, and the FIFO matching of one sale against the open purchase lots.
  Exceptions are the left values of results.
\<close>

section \<open>Data and errors\<close>

datatype tax_error =
    NoApplicableTaxRuleError date bool int
  | InsufficientLotsError dec dec
  | ValueError string

record TaxBracket =
  effective_from :: date
  effective_to :: "date option"
  is_filer :: bool
  min_holding_days :: int
  max_holding_days :: "int option"
  rate_pct :: dec

record BuyLot =
  lot_transaction_id :: string
  lot_buy_date :: date
  lot_quantity :: dec
  lot_price :: dec

record MatchedLot =
  m_transaction_id :: string
  m_buy_date :: date
  m_sell_date :: date
  m_quantity :: dec
  m_buy_price :: dec
  m_sell_price :: dec
  m_holding_period_days :: int
  m_gross_gain_pkr :: dec
  m_cgt_rate_pct :: dec
  m_cgt_pkr :: dec

record CgtResult =
  matched :: "MatchedLot list"
  total_gross_gain_pkr :: dec
  total_cgt_pkr :: dec
  weighted_avg_buy_price :: dec

section \<open>Brackets\<close>

definition quantize_paisa :: "dec \<Rightarrow> dec" where
  "quantize_paisa v = quantize_half_up 2 v"

definition bracket_matches :: "TaxBracket \<Rightarrow> date \<Rightarrow> bool \<Rightarrow> int \<Rightarrow> bool" where
  "bracket_matches b sell_date filer holding_days =
     (if is_filer b \<noteq> filer then False
      else if sell_date < effective_from b then False
      else if (case effective_to b of None \<Rightarrow> False | Some t \<Rightarrow> t < sell_date) then False
      else if holding_days < min_holding_days b then False
      else if (case max_holding_days b of None \<Rightarrow> False | Some m \<Rightarrow> m < holding_days) then False
      else True)"

definition specificity :: "TaxBracket \<Rightarrow> int \<times> int" where
  "specificity b =
     ((case max_holding_days b of Some m \<Rightarrow> m - min_holding_days b | None \<Rightarrow> 10 ^ 9),
      (case effective_to b of Some t \<Rightarrow> t - effective_from b | None \<Rightarrow> 10 ^ 9))"

definition find_bracket ::
  "TaxBracket list \<Rightarrow> date \<Rightarrow> bool \<Rightarrow> int \<Rightarrow> tax_error + TaxBracket" where
  "find_bracket brackets sell_date filer holding_days =
     (case sort_key specificity (filter (\<lambda>b. bracket_matches b sell_date filer holding_days) brackets) of
        [] \<Rightarrow> Inl (NoApplicableTaxRuleError sell_date filer holding_days)
      | b # _ \<Rightarrow> Inr b)"

section \<open>Tax of one matched pair\<close>

definition calculate_cgt ::
  "dec \<Rightarrow> dec \<Rightarrow> dec \<Rightarrow> int \<Rightarrow> bool \<Rightarrow> date \<Rightarrow> TaxBracket list \<Rightarrow> tax_error + dec" where
  "calculate_cgt buy_price sell_price quantity holding_days filer sell_date brackets =
     (if quantity \<le> Dec 0 then Inl (ValueError ''quantity must be positive'')
      else let gross_gain = (sell_price - buy_price) * quantity in
        if gross_gain \<le> Dec 0 then Inr (Dec 0)
        else bind_r (find_bracket brackets sell_date filer holding_days)
          (\<lambda>b. Inr (quantize_paisa (gross_gain * rate_pct b / Dec 100))))"

section \<open>FIFO matching\<close>

text \<open>The arguments of one call of \<open>match_fifo\<close> besides the lots, and the loop's variables.\<close>

record sale =
  sell_quantity :: dec
  sell_price :: dec
  sell_date :: date
  sell_filer :: bool
  sell_brackets :: "TaxBracket list"

record fifo_state =
  remaining :: dec
  matched_so_far :: "MatchedLot list"
  total_qty_for_avg :: dec
  weighted_cost :: dec

text \<open>The gain, rate and tax of taking \<open>take\<close> shares of a lot.\<close>

definition match_lot :: "sale \<Rightarrow> BuyLot \<Rightarrow> dec \<Rightarrow> tax_error + MatchedLot" where
  "match_lot s lot taken =
     (let holding_days = sell_date s - lot_buy_date lot;
          gross_gain = (sell_price s - lot_price lot) * taken
      in bind_r
          (if Dec 0 < gross_gain
           then bind_r (find_bracket (sell_brackets s) (sell_date s) (sell_filer s) holding_days)
                  (\<lambda>b. Inr (quantize_paisa (gross_gain * rate_pct b / Dec 100), rate_pct b))
           else Inr (Dec 0, Dec 0))
          (\<lambda>(cgt, rate). Inr
             \<lparr>m_transaction_id = lot_transaction_id lot, m_buy_date = lot_buy_date lot,
              m_sell_date = sell_date s, m_quantity = taken, m_buy_price = lot_price lot,
              m_sell_price = sell_price s, m_holding_period_days = holding_days,
              m_gross_gain_pkr = quantize_paisa gross_gain, m_cgt_rate_pct = rate,
              m_cgt_pkr = cgt\<rparr>))"

fun fifo_loop :: "sale \<Rightarrow> BuyLot list \<Rightarrow> fifo_state \<Rightarrow> tax_error + fifo_state" where
  "fifo_loop s [] st = Inr st"
| "fifo_loop s (lot # lots) st =
     (if remaining st \<le> Dec 0 then Inr st
      else if lot_quantity lot \<le> Dec 0 then fifo_loop s lots st
      else let take = min (lot_quantity lot) (remaining st) in
        if take \<le> Dec 0 then fifo_loop s lots st
        else bind_r (match_lot s lot take)
          (\<lambda>m. fifo_loop s lots
             \<lparr>remaining = remaining st - take,
              matched_so_far = matched_so_far st @ [m],
              total_qty_for_avg = total_qty_for_avg st + take,
              weighted_cost = weighted_cost st + lot_price lot * take\<rparr>))"

definition sort_lots :: "BuyLot list \<Rightarrow> BuyLot list" where
  "sort_lots lots = sort_key (\<lambda>lo. (lot_buy_date lo, lot_transaction_id lo)) lots"

definition match_fifo :: "BuyLot list \<Rightarrow> sale \<Rightarrow> tax_error + CgtResult" where
  "match_fifo lots s =
     (if sell_quantity s \<le> Dec 0 then Inl (ValueError ''sell_quantity must be positive'')
      else bind_r
        (fifo_loop s (sort_lots lots)
           \<lparr>remaining = sell_quantity s, matched_so_far = [],
            total_qty_for_avg = Dec 0, weighted_cost = Dec 0\<rparr>)
        (\<lambda>st. if Dec 0 < remaining st
           then Inl (InsufficientLotsError (sell_quantity s) (remaining st))
           else Inr
             \<lparr>matched = matched_so_far st,
              total_gross_gain_pkr = quantize_paisa (dec_sum (map m_gross_gain_pkr (matched_so_far st))),
              total_cgt_pkr = quantize_paisa (dec_sum (map m_cgt_pkr (matched_so_far st))),
              weighted_avg_buy_price =
                (if Dec 0 < total_qty_for_avg st
                 then quantize_half_up 4 (weighted_cost st / total_qty_for_avg st) else Dec 0)\<rparr>))"

section \<open>The bracket that applies\<close>

lemma hd_sort_key_stable:
  assumes "xs \<noteq> []"
  shows "hd (sort_key f xs) = hd (filter (\<lambda>x. f x = f (hd (sort_key f xs))) xs)"
proof -
  let ?k = "f (hd (sort_key f xs))"
  have "sort_key f xs \<noteq> []" using assms by (metis length_0_conv length_sort)
  then have "hd (filter (\<lambda>x. f x = ?k) (sort_key f xs)) = hd (sort_key f xs)"
    by (cases "sort_key f xs") auto
  then show ?thesis by (metis sort_key_stable)
qed

lemma find_bracket_Inl_iff:
  "find_bracket bs d f h = Inl e \<longleftrightarrow>
     e = NoApplicableTaxRuleError d f h \<and> (\<forall>b\<in>set bs. \<not> bracket_matches b d f h)"
proof -
  let ?cs = "filter (\<lambda>b. bracket_matches b d f h) bs"
  have "find_bracket bs d f h = Inl e \<longleftrightarrow> e = NoApplicableTaxRuleError d f h \<and> sort_key specificity ?cs = []"
    by (auto simp: find_bracket_def split: list.splits)
  moreover have "sort_key specificity ?cs = [] \<longleftrightarrow> ?cs = []"
    by (metis length_0_conv length_sort)
  ultimately show ?thesis by (auto simp: filter_empty_conv)
qed

lemma find_bracket_InrD:
  assumes "find_bracket bs d f h = Inr b"
  shows "b \<in> set bs" "bracket_matches b d f h"
    "\<And>b'. b' \<in> set bs \<Longrightarrow> bracket_matches b' d f h \<Longrightarrow> specificity b \<le> specificity b'"
proof -
  let ?cs = "filter (\<lambda>b. bracket_matches b d f h) bs"
  from assms obtain xs where xs: "sort_key specificity ?cs = b # xs"
    by (auto simp: find_bracket_def split: list.splits)
  then have ne: "?cs \<noteq> []" by auto
  have b: "b = hd (sort_key specificity ?cs)" using xs by simp
  from hd_sort_key(1) [OF ne, of specificity] show "b \<in> set bs" "bracket_matches b d f h" by (auto simp: b)
  show "specificity b \<le> specificity b'" if "b' \<in> set bs" "bracket_matches b' d f h" for b'
    unfolding b by (rule hd_sort_key(2) [OF ne]) (use that in simp)
qed

section \<open>The economics of one matched lot\<close>

lemma match_lot_Inr:
  assumes "match_lot s lot taken = Inr m"
  shows "m_transaction_id m = lot_transaction_id lot" "m_quantity m = taken"
    "m_buy_price m = lot_price lot" "m_holding_period_days m = sell_date s - lot_buy_date lot"
    "m_gross_gain_pkr m = quantize_paisa ((sell_price s - lot_price lot) * taken)"
  using assms by (auto simp: match_lot_def Let_def bind_r_Inr_iff split: if_splits)

lemma match_lot_Inl:
  "match_lot s lot taken = Inl e \<longleftrightarrow>
     Dec 0 < (sell_price s - lot_price lot) * taken \<and>
     find_bracket (sell_brackets s) (sell_date s) (sell_filer s) (sell_date s - lot_buy_date lot) = Inl e"
  by (auto simp: match_lot_def Let_def bind_r_Inl_iff bind_r_Inr_iff)

text \<open>A tax of at most 100 per cent of a positive gain lies between nothing and the gain.\<close>

lemma tax_of_gain_bounds:
  assumes g: "g = dec28 x" "0 \<le> g" and r: "0 \<le> r" "r \<le> 100"
  shows "0 \<le> dec28 (dec28 (g * r) / 100)" "dec28 (dec28 (g * r) / 100) \<le> g"
proof -
  have "0 \<le> dec28 (g * r)" using g(2) r(1) by (intro dec_r.nonneg) simp
  then show "0 \<le> dec28 (dec28 (g * r) / 100)" by (intro dec_r.nonneg) simp
  have "dec28 (g * 100) = g * 100" using dec_r.shift [of x 2] g(1) by simp
  then have "dec28 (g * r) \<le> g * 100"
    using g(2) r(2) by (intro dec_r.le_fixed) (auto intro: mult_left_mono)
  then show "dec28 (dec28 (g * r) / 100) \<le> g"
    using g(1) by (intro dec_r.le_fixed) auto
qed

lemma match_lot_cgt_bounds:
  assumes m: "match_lot s lot taken = Inr m"
    and rates: "\<forall>b\<in>set (sell_brackets s). Dec 0 \<le> rate_pct b \<and> rate_pct b \<le> Dec 100"
  shows "Dec 0 \<le> m_cgt_pkr m" "m_cgt_pkr m \<le> max (Dec 0) (m_gross_gain_pkr m)"
proof -
  let ?g = "(sell_price s - lot_price lot) * taken"
  have "Dec 0 \<le> m_cgt_pkr m \<and> m_cgt_pkr m \<le> max (Dec 0) (m_gross_gain_pkr m)"
  proof (cases "Dec 0 < ?g")
    case True
    with m obtain b where b: "find_bracket (sell_brackets s) (sell_date s) (sell_filer s)
        (sell_date s - lot_buy_date lot) = Inr b"
      and c: "m_cgt_pkr m = quantize_paisa (?g * rate_pct b / Dec 100)"
      by (auto simp: match_lot_def Let_def bind_r_Inr_iff)
    from find_bracket_InrD(1) [OF b] rates have r: "0 \<le> dval (rate_pct b)" "dval (rate_pct b) \<le> 100"
      by (auto simp: dec_le_iff)
    from True have g: "dval ?g = dec28 (dval (sell_price s - lot_price lot) * dval taken)" "0 \<le> dval ?g"
      by (auto simp: dec_less_iff)
    note tax = tax_of_gain_bounds [OF g r]
    have "0 \<le> dval (m_cgt_pkr m)"
      unfolding c quantize_paisa_def by (simp add: qz_up.nonneg tax(1) [simplified])
    moreover have "dval (m_cgt_pkr m) \<le> dval (m_gross_gain_pkr m)"
      unfolding c match_lot_Inr(5) [OF m] quantize_paisa_def using qz_up.mono [OF tax(2)] by simp
    ultimately show ?thesis by (simp add: dec_le_iff dval_max)
  next
    case False
    with m have "m_cgt_pkr m = Dec 0" by (auto simp: match_lot_def Let_def bind_r_Inr_iff)
    then show ?thesis by simp
  qed
  then show "Dec 0 \<le> m_cgt_pkr m" "m_cgt_pkr m \<le> max (Dec 0) (m_gross_gain_pkr m)" by auto
qed

section \<open>Specification of FIFO matching\<close>

text \<open>
  What the loop is meant to compute, on exact quantities: walk the lots in order and take from
  each as much as is still needed.
\<close>

fun take_fifo :: "rat \<Rightarrow> ('i \<times> rat) list \<Rightarrow> ('i \<times> rat) list" where
  "take_fifo r [] = []"
| "take_fifo r ((i, q) # xs) =
     (if r \<le> 0 then [] else if q \<le> 0 then take_fifo r xs
      else (i, min q r) # take_fifo (r - min q r) xs)"

definition capacity :: "('i \<times> rat) list \<Rightarrow> rat" where
  "capacity xs = sum_list (map (\<lambda>(i, q). max 0 q) xs)"

lemma capacity_simps [simp]: "capacity [] = 0" "capacity ((i, q) # xs) = max 0 q + capacity xs"
  by (simp_all add: capacity_def)

lemma capacity_nonneg: "0 \<le> capacity xs"
  by (induction xs) auto

lemma take_fifo_done: "r \<le> 0 \<Longrightarrow> take_fifo r xs = []"
  by (cases "(r, xs)" rule: take_fifo.cases) auto

lemma take_fifo_sum:
  "0 \<le> r \<Longrightarrow> sum_list (map snd (take_fifo r xs)) = min r (capacity xs)"
proof (induction r xs rule: take_fifo.induct)
  case (2 r i q xs)
  then show ?case using capacity_nonneg [of xs]
    by (cases "r \<le> 0"; cases "q \<le> 0") (auto simp: min_def max_def)
qed auto

text \<open>Only positive amounts are taken, in order, and a lot is used up before the next is touched.\<close>

lemma take_fifo_prefix:
  "\<exists>n. map fst (take_fifo r xs) = take n (map fst (filter (\<lambda>(i, q). 0 < q) xs))"
proof (induction r xs rule: take_fifo.induct)
  case (2 r i q xs)
  show ?case
  proof (cases "r \<le> 0 \<or> q \<le> 0")
    case True
    with 2 show ?thesis by (auto intro: exI [of _ 0])
  next
    case False
    with 2 obtain n where "map fst (take_fifo (r - min q r) xs) = take n (map fst (filter (\<lambda>(i, q). 0 < q) xs))"
      by auto
    with False show ?thesis by (intro exI [of _ "Suc n"]) auto
  qed
qed auto

lemma capacity_sort_lots: "capacity (map f (sort_lots lots)) = capacity (map f lots)"
proof -
  have "mset (map g (sort_lots lots)) = mset (map g lots)" for g :: "BuyLot \<Rightarrow> rat"
    by (simp add: sort_lots_def)
  then have "sum_list (map g (sort_lots lots)) = sum_list (map g lots)" for g :: "BuyLot \<Rightarrow> rat"
    by (metis sum_mset_sum_list)
  then show ?thesis by (simp add: capacity_def o_def)
qed

section \<open>The loop implements the specification\<close>

definition lot_key :: "BuyLot \<Rightarrow> string \<times> rat" where
  "lot_key l = (lot_transaction_id l, dval (lot_quantity l))"

definition matched_key :: "MatchedLot \<Rightarrow> string \<times> rat" where
  "matched_key m = (m_transaction_id m, dval (m_quantity m))"

text \<open>Quantities as the schema stores them, \<^verbatim>\<open>NUMERIC(20, 4)\<close>: their differences are exact.\<close>

definition stored_qty :: "dec \<Rightarrow> bool" where
  "stored_qty q = numeric 20 4 q"

lemma stored_qty_diff:
  assumes "places 4 p" "places 4 q" "0 \<le> q" "q \<le> p" "p * 10 ^ 4 < 10 ^ 20"
  shows "dec28 (p - q) = p - q"
  using assms by (intro dec28_places [of 4]) (auto intro: places_closed simp: abs_if)

text \<open>A sum of stored quantities stays exact as long as it fits the 28 digits of the context.\<close>

definition exact_qty :: "dec \<Rightarrow> bool" where
  "exact_qty q \<longleftrightarrow> places 4 (dval q) \<and> \<bar>dval q\<bar> * 10 ^ 4 < 10 ^ 28"

lemma stored_exact: "stored_qty q \<Longrightarrow> exact_qty q"
  by (auto simp: stored_qty_def numeric_def exact_qty_def)

lemma exact_qty_diff:
  assumes "places 4 p" "places 4 q" "0 \<le> q" "q \<le> p" "p * 10 ^ 4 < 10 ^ 28"
  shows "dec28 (p - q) = p - q"
  using assms by (intro dec28_places [of 4]) (auto intro: places_closed simp: abs_if)

lemma fifo_loop_refines:
  assumes "fifo_loop s lots st = Inr st'"
    and "\<forall>l\<in>set lots. places 4 (dval (lot_quantity l))"
    and "places 4 (dval (remaining st))" "0 \<le> dval (remaining st)" "dval (remaining st) * 10 ^ 4 < 10 ^ 28"
  shows "\<exists>ms. matched_so_far st' = matched_so_far st @ ms
      \<and> map matched_key ms = take_fifo (dval (remaining st)) (map lot_key lots)
      \<and> dval (remaining st') = dval (remaining st) - sum_list (map snd (take_fifo (dval (remaining st)) (map lot_key lots)))"
  using assms
proof (induction s lots st rule: fifo_loop.induct)
  case (2 s lot lots st)
  let ?q = "dval (lot_quantity lot)" and ?r = "dval (remaining st)"
  let ?t = "min (lot_quantity lot) (remaining st)"
  show ?case
  proof (cases "?r \<le> 0 \<or> ?q \<le> 0")
    case True
    with 2 show ?thesis
      by (cases "?r \<le> 0") (auto simp: dec_le_iff lot_key_def [of lot] take_fifo_done)
  next
    case False
    then have pos: "\<not> remaining st \<le> Dec 0" "\<not> lot_quantity lot \<le> Dec 0" "\<not> ?t \<le> Dec 0"
      by (auto simp: dec_le_iff dval_min min_def)
    let ?st = "\<lambda>m. \<lparr>remaining = remaining st - ?t, matched_so_far = matched_so_far st @ [m],
        total_qty_for_avg = total_qty_for_avg st + ?t,
        weighted_cost = weighted_cost st + lot_price lot * ?t\<rparr>"
    from "2.prems"(1) pos obtain m where m: "match_lot s lot ?t = Inr m"
      and rest: "fifo_loop s lots (?st m) = Inr st'"
      by (auto simp: Let_def bind_r_Inr_iff)
    have exact: "dval (remaining st - ?t) = ?r - min ?q ?r"
      using "2.prems" False by (simp add: dval_min exact_qty_diff places_closed)
    have "places 4 (?r - min ?q ?r)" using "2.prems" by (simp add: places_closed)
    moreover have "0 \<le> ?r - min ?q ?r" "(?r - min ?q ?r) * 10 ^ 4 < 10 ^ 28"
      using "2.prems"(5) False by (auto simp: min_def)
    ultimately obtain ms where ms: "matched_so_far st' = matched_so_far st @ [m] @ ms"
        "map matched_key ms = take_fifo (?r - min ?q ?r) (map lot_key lots)"
        "dval (remaining st') = ?r - min ?q ?r
           - sum_list (map snd (take_fifo (?r - min ?q ?r) (map lot_key lots)))"
      using "2.IH"(3) [OF pos(1,2) refl pos(3) rest] "2.prems"(2) exact by auto
    have "matched_key m = (lot_transaction_id lot, min ?q ?r)"
      using match_lot_Inr [OF m] by (simp add: matched_key_def dval_min)
    with ms False show ?thesis by (intro exI [of _ "m # ms"]) (auto simp: lot_key_def [of lot])
  qed
qed (auto simp: take_fifo_done)

lemma fifo_loop_error:
  assumes "fifo_loop s lots st = Inl e"
  shows "\<exists>lot\<in>set lots. find_bracket (sell_brackets s) (sell_date s) (sell_filer s)
      (sell_date s - lot_buy_date lot) = Inl e"
  using assms
proof (induction s lots st rule: fifo_loop.induct)
  case (2 s lot lots st)
  then show ?case by (auto simp: Let_def bind_r_Inl_iff match_lot_Inl split: if_splits)
qed auto

text \<open>A fact about every lot that is matched holds of the whole result.\<close>

lemma fifo_loop_matched:
  assumes "fifo_loop s lots st = Inr st'"
    and "\<forall>m\<in>set (matched_so_far st). P m"
    and step: "\<forall>lot taken m. match_lot s lot taken = Inr m \<longrightarrow> P m"
  shows "\<forall>m\<in>set (matched_so_far st'). P m"
  using assms(1,2) step
proof (induction s lots st rule: fifo_loop.induct)
  case (2 s lot lots st)
  let ?t = "min (lot_quantity lot) (remaining st)"
  consider "remaining st \<le> Dec 0" | "\<not> remaining st \<le> Dec 0" "lot_quantity lot \<le> Dec 0"
    | "\<not> remaining st \<le> Dec 0" "\<not> lot_quantity lot \<le> Dec 0" "?t \<le> Dec 0"
    | "\<not> remaining st \<le> Dec 0" "\<not> lot_quantity lot \<le> Dec 0" "\<not> ?t \<le> Dec 0" by blast
  then show ?case
  proof cases
    case 1
    with "2.prems" show ?thesis by simp
  next
    case 2
    with "2.prems" show ?thesis by (intro "2.IH"(1)) simp_all
  next
    case 3
    with "2.prems" show ?thesis by (intro "2.IH"(2)) (simp_all add: Let_def)
  next
    case 4
    let ?st = "\<lambda>m. \<lparr>remaining = remaining st - ?t, matched_so_far = matched_so_far st @ [m],
        total_qty_for_avg = total_qty_for_avg st + ?t,
        weighted_cost = weighted_cost st + lot_price lot * ?t\<rparr>"
    from "2.prems"(1) 4 obtain m where m: "match_lot s lot ?t = Inr m"
      and rest: "fifo_loop s lots (?st m) = Inr st'"
      by (auto simp: Let_def bind_r_Inr_iff)
    with "2.prems" show ?thesis by (intro "2.IH"(3) [OF 4(1,2) refl 4(3) rest]) auto
  qed
qed auto

section \<open>Properties\<close>

text \<open>
  The bracket search returns the first, in table order, of the most specific brackets that
  match the date, the filer status and the holding period, and raises exactly when none matches.
\<close>

lemma find_bracket_char:
  "find_bracket bs d f h =
     (case List.find (\<lambda>b. bracket_matches b d f h \<and>
          (\<forall>b'\<in>set bs. bracket_matches b' d f h \<longrightarrow> specificity b \<le> specificity b')) bs of
        None \<Rightarrow> Inl (NoApplicableTaxRuleError d f h)
      | Some b \<Rightarrow> Inr b)"
proof (cases "filter (\<lambda>b. bracket_matches b d f h) bs = []")
  case True
  then have none: "\<forall>b\<in>set bs. \<not> bracket_matches b d f h" by (simp add: filter_empty_conv)
  then have "List.find (\<lambda>b. bracket_matches b d f h \<and>
      (\<forall>b'\<in>set bs. bracket_matches b' d f h \<longrightarrow> specificity b \<le> specificity b')) bs = None"
    by (auto simp: find_None_iff)
  moreover have "find_bracket bs d f h = Inl (NoApplicableTaxRuleError d f h)"
    using none by (simp add: find_bracket_Inl_iff)
  ultimately show ?thesis by simp
next
  case False
  let ?cs = "filter (\<lambda>b. bracket_matches b d f h) bs"
  let ?b = "hd (sort_key specificity ?cs)"
  let ?P = "\<lambda>b. bracket_matches b d f h \<and>
      (\<forall>b'\<in>set bs. bracket_matches b' d f h \<longrightarrow> specificity b \<le> specificity b')"
  have least: "specificity ?b \<le> specificity b'" if "b' \<in> set ?cs" for b'
    using hd_sort_key(2) [OF False that] .
  have mem: "?b \<in> set ?cs" by (rule hd_sort_key(1) [OF False])
  have "?P x \<longleftrightarrow> bracket_matches x d f h \<and> specificity x = specificity ?b" if "x \<in> set bs" for x
    using least mem that by (auto intro: antisym)
  then have "filter ?P bs = filter (\<lambda>x. bracket_matches x d f h \<and> specificity x = specificity ?b) bs"
    by (intro filter_cong) auto
  also have "\<dots> = filter (\<lambda>x. specificity x = specificity ?b) ?cs" by (simp add: conj_commute)
  finally have eq: "hd (filter ?P bs) = ?b" using hd_sort_key_stable [OF False, of specificity] by simp
  have "filter ?P bs \<noteq> []" using mem least by (auto simp: filter_empty_conv)
  then have "List.find ?P bs = Some ?b" using find_hd_filter [of ?P bs] eq by simp
  moreover have "sort_key specificity ?cs \<noteq> []" using False by (metis length_0_conv length_sort)
  then have "find_bracket bs d f h = Inr ?b" by (cases "sort_key specificity ?cs") (auto simp: find_bracket_def)
  ultimately show ?thesis by simp
qed

text \<open>A concrete table, lots and sale, for the witnesses.\<close>

definition ex_bracket :: TaxBracket where
  "ex_bracket = \<lparr>effective_from = 738000, effective_to = None, is_filer = True,
     min_holding_days = 0, max_holding_days = None, rate_pct = Dec 15\<rparr>"

definition ex_lots :: "BuyLot list" where
  "ex_lots =
     [\<lparr>lot_transaction_id = ''b'', lot_buy_date = 738100, lot_quantity = Dec 40, lot_price = Dec 120\<rparr>,
      \<lparr>lot_transaction_id = ''a'', lot_buy_date = 738050, lot_quantity = Dec 10, lot_price = Dec 100\<rparr>]"

definition ex_sale :: sale where
  "ex_sale = \<lparr>sell_quantity = Dec 25, sell_price = Dec 130, sell_date = 738200, sell_filer = True,
     sell_brackets = [ex_bracket]\<rparr>"

lemmas ex_defs = ex_bracket_def ex_lots_def ex_sale_def

lemma ex_match: obtains r where "match_fifo ex_lots ex_sale = Inr r"
proof -
  have "is_ok (match_fifo ex_lots ex_sale)" by code_simp
  then show thesis using that by (cases "match_fifo ex_lots ex_sale") auto
qed

lemma match_fifo_Inr:
  assumes "match_fifo lots s = Inr r"
  obtains st where "Dec 0 < sell_quantity s"
    "fifo_loop s (sort_lots lots) \<lparr>remaining = sell_quantity s, matched_so_far = [],
       total_qty_for_avg = Dec 0, weighted_cost = Dec 0\<rparr> = Inr st"
    "\<not> Dec 0 < remaining st" "matched r = matched_so_far st"
    "total_cgt_pkr r = quantize_paisa (dec_sum (map m_cgt_pkr (matched_so_far st)))"
    "total_gross_gain_pkr r = quantize_paisa (dec_sum (map m_gross_gain_pkr (matched_so_far st)))"
  using assms by (auto simp: match_fifo_def bind_r_Inr_iff split: if_splits)

lemma match_fifo_loop:
  assumes "\<forall>l\<in>set lots. stored_qty (lot_quantity l)" "exact_qty (sell_quantity s)" "Dec 0 < sell_quantity s"
    and "fifo_loop s (sort_lots lots) \<lparr>remaining = sell_quantity s, matched_so_far = [],
       total_qty_for_avg = Dec 0, weighted_cost = Dec 0\<rparr> = Inr st"
  shows "map matched_key (matched_so_far st) = take_fifo (dval (sell_quantity s)) (map lot_key (sort_lots lots))"
    and "dval (remaining st) = dval (sell_quantity s) - min (dval (sell_quantity s)) (capacity (map lot_key lots))"
proof -
  have "\<forall>l\<in>set (sort_lots lots). places 4 (dval (lot_quantity l))"
    using assms(1) by (simp add: sort_lots_def stored_qty_def numeric_def)
  moreover have q: "places 4 (dval (sell_quantity s))" "0 \<le> dval (sell_quantity s)"
      "dval (sell_quantity s) * 10 ^ 4 < 10 ^ 28"
    using assms(2,3) by (simp_all add: exact_qty_def dec_less_iff)
  ultimately show "map matched_key (matched_so_far st) = take_fifo (dval (sell_quantity s)) (map lot_key (sort_lots lots))"
    and "dval (remaining st) = dval (sell_quantity s) - min (dval (sell_quantity s)) (capacity (map lot_key lots))"
    using fifo_loop_refines [OF assms(4)] by (auto simp: take_fifo_sum capacity_sort_lots)
qed

lemma match_fifo_capacity:
  assumes "\<forall>l\<in>set lots. stored_qty (lot_quantity l)" "stored_qty (sell_quantity s)"
    and "match_fifo lots s = Inr r"
  shows "dval (sell_quantity s) \<le> capacity (map lot_key lots)"
  using assms(3) match_fifo_loop(2) [OF assms(1) stored_exact [OF assms(2)]]
  by (elim match_fifo_Inr) (auto simp: dec_less_iff min_def split: if_splits)

text \<open>
  C1: a successful FIFO match implements the specification: the lots it takes from, and how much
  of each, are those of walking a permutation of the lots that is sorted by purchase date and
  identifier, and the quantities add up to the quantity sold.
\<close>

theorem match_fifo_refines:
  assumes "\<forall>l\<in>set lots. stored_qty (lot_quantity l)" and "stored_qty (sell_quantity s)"
    and ok: "match_fifo lots s = Inr r"
  shows "mset (sort_lots lots) = mset lots
    \<and> sorted (map (\<lambda>lo. (lot_buy_date lo, lot_transaction_id lo)) (sort_lots lots))
    \<and> map matched_key (matched r) = take_fifo (dval (sell_quantity s)) (map lot_key (sort_lots lots))
    \<and> sum_list (map (dval \<circ> m_quantity) (matched r)) = dval (sell_quantity s)"
proof -
  obtain st where pos: "Dec 0 < sell_quantity s" and
    st: "fifo_loop s (sort_lots lots) \<lparr>remaining = sell_quantity s, matched_so_far = [],
       total_qty_for_avg = Dec 0, weighted_cost = Dec 0\<rparr> = Inr st"
    "\<not> Dec 0 < remaining st" "matched r = matched_so_far st"
    using ok by (rule match_fifo_Inr)
  note loop = match_fifo_loop [OF assms(1) stored_exact [OF assms(2)] pos st(1)]
  have key: "map matched_key (matched r) = take_fifo (dval (sell_quantity s)) (map lot_key (sort_lots lots))"
    using loop(1) st(3) by simp
  have "map (dval \<circ> m_quantity) (matched r) = map snd (map matched_key (matched r))"
    by (simp add: matched_key_def)
  also have "sum_list \<dots> = min (dval (sell_quantity s)) (capacity (map lot_key lots))"
    unfolding key using pos by (simp add: take_fifo_sum capacity_sort_lots dec_less_iff)
  also have "\<dots> = dval (sell_quantity s)" using loop(2) st(2) by (simp add: dec_less_iff min_def split: if_splits)
  finally show ?thesis using key by (simp add: sort_lots_def)
qed

theorem match_fifo_refines_witness:
  "\<exists>r. match_fifo ex_lots ex_sale = Inr r
     \<and> map matched_key (matched r) = [(''a'', 10), (''b'', 15)]
     \<and> sum_list (map (dval \<circ> m_quantity) (matched r)) = 25"
proof -
  have ok: "\<forall>l\<in>set ex_lots. stored_qty (lot_quantity l)" "stored_qty (sell_quantity ex_sale)"
    by code_simp+
  obtain r where r: "match_fifo ex_lots ex_sale = Inr r" by (rule ex_match)
  have "take_fifo (dval (sell_quantity ex_sale)) (map lot_key (sort_lots ex_lots)) = [(''a'', 10), (''b'', 15)]"
    by code_simp
  moreover have "dval (sell_quantity ex_sale) = 25" by code_simp
  ultimately show ?thesis using match_fifo_refines [OF ok r] r by auto
qed

lemma match_fifo_outcome:
  assumes qs: "\<forall>l\<in>set lots. stored_qty (lot_quantity l)" "stored_qty (sell_quantity s)"
    and pos: "Dec 0 < sell_quantity s"
    and cover: "\<forall>l\<in>set lots. is_ok (find_bracket (sell_brackets s) (sell_date s) (sell_filer s)
        (sell_date s - lot_buy_date l))"
  shows match_fifo_short: "capacity (map lot_key lots) < dval (sell_quantity s) \<Longrightarrow>
      match_fifo lots s = Inl (InsufficientLotsError (sell_quantity s)
           (Dec (dval (sell_quantity s) - capacity (map lot_key lots))))"
    and match_fifo_enough: "dval (sell_quantity s) \<le> capacity (map lot_key lots) \<Longrightarrow> is_ok (match_fifo lots s)"
proof -
  let ?st = "\<lparr>remaining = sell_quantity s, matched_so_far = [], total_qty_for_avg = Dec 0,
      weighted_cost = Dec 0\<rparr>"
  have "\<exists>st. fifo_loop s (sort_lots lots) ?st = Inr st"
  proof (cases "fifo_loop s (sort_lots lots) ?st")
    case (Inl e)
    from fifo_loop_error [OF this] cover show ?thesis by (auto simp: sort_lots_def)
  qed simp
  then obtain st where st: "fifo_loop s (sort_lots lots) ?st = Inr st" by blast
  note loop = match_fifo_loop(2) [OF qs(1) stored_exact [OF qs(2)] pos st]
  show "match_fifo lots s = Inl (InsufficientLotsError (sell_quantity s)
           (Dec (dval (sell_quantity s) - capacity (map lot_key lots))))"
    if short: "capacity (map lot_key lots) < dval (sell_quantity s)"
  proof -
    from short have r: "remaining st = Dec (dval (sell_quantity s) - capacity (map lot_key lots))"
      using loop by (simp add: dec_eq_iff)
    then have "Dec 0 < remaining st" using short by simp
    with r st pos show ?thesis by (simp add: match_fifo_def not_le [symmetric])
  qed
  show "is_ok (match_fifo lots s)" if "dval (sell_quantity s) \<le> capacity (map lot_key lots)"
  proof -
    from that have "dval (remaining st) = 0" using loop by simp
    with st pos show ?thesis by (simp add: match_fifo_def dec_less_iff dec_le_iff)
  qed
qed



text \<open>
  C3: with rates between 0 and 100 per cent, the tax on every matched lot is never negative,
  never more than the lot's gain, and nothing on a loss.
\<close>

theorem match_fifo_cgt_bounds:
  assumes "match_fifo lots s = Inr r"
    and rates: "\<forall>b\<in>set (sell_brackets s). Dec 0 \<le> rate_pct b \<and> rate_pct b \<le> Dec 100"
  shows "\<forall>m\<in>set (matched r). Dec 0 \<le> m_cgt_pkr m \<and> m_cgt_pkr m \<le> max (Dec 0) (m_gross_gain_pkr m)"
proof -
  obtain st where st: "fifo_loop s (sort_lots lots) \<lparr>remaining = sell_quantity s, matched_so_far = [],
       total_qty_for_avg = Dec 0, weighted_cost = Dec 0\<rparr> = Inr st" "matched r = matched_so_far st"
    using assms(1) by (rule match_fifo_Inr)
  show ?thesis unfolding st(2)
    by (rule fifo_loop_matched [OF st(1)]) (auto dest: match_lot_cgt_bounds [OF _ rates])
qed

theorem match_fifo_cgt_bounds_witness:
  "\<exists>r. match_fifo ex_lots ex_sale = Inr r \<and>
     (\<forall>m\<in>set (matched r). Dec 0 \<le> m_cgt_pkr m \<and> m_cgt_pkr m \<le> max (Dec 0) (m_gross_gain_pkr m))"
proof -
  obtain r where r: "match_fifo ex_lots ex_sale = Inr r" by (rule ex_match)
  have "\<forall>b\<in>set (sell_brackets ex_sale). Dec 0 \<le> rate_pct b \<and> rate_pct b \<le> Dec 100" by code_simp
  from match_fifo_cgt_bounds [OF r this] r show ?thesis by blast
qed

lemma dec_sum_single: "dec_sum [x] = Dec (dec28 (dval x))"
  by (simp add: dec_sum_def dec_eq_iff)

text \<open>
  On a single open lot that holds enough, FIFO matching charges what \<open>calculate_cgt\<close> computes
  for the pair, and raises the same error when no bracket applies.
\<close>

lemma match_fifo_single_lot:
  assumes pos: "Dec 0 < sell_quantity s" and enough: "sell_quantity s \<le> lot_quantity lot"
    and tax: "calculate_cgt (lot_price lot) (sell_price s) (sell_quantity s)
        (sell_date s - lot_buy_date lot) (sell_filer s) (sell_date s) (sell_brackets s) = c"
    and range: "\<forall>x. c = Inr x \<longrightarrow> \<bar>dval x\<bar> < 10 ^ 26"
  shows "(case c of Inl e \<Rightarrow> match_fifo [lot] s = Inl e
     | Inr x \<Rightarrow> (\<exists>r. match_fifo [lot] s = Inr r \<and> total_cgt_pkr r = x))"
proof -
  have lotpos: "\<not> lot_quantity lot \<le> Dec 0" and t: "min (lot_quantity lot) (sell_quantity s) = sell_quantity s"
    and npos: "\<not> sell_quantity s \<le> Dec 0"
    using pos enough by (auto simp: min_def)
  have rem: "sell_quantity s - sell_quantity s = Dec 0" by (simp add: dec_eq_iff)
  let ?g = "(sell_price s - lot_price lot) * sell_quantity s"
  let ?b = "find_bracket (sell_brackets s) (sell_date s) (sell_filer s) (sell_date s - lot_buy_date lot)"
  have sum_q: "quantize_paisa (dec_sum [quantize_paisa y]) = quantize_paisa y"
    if "\<bar>dval (quantize_paisa y)\<bar> < 10 ^ 26" for y
  proof -
    have "places 2 (dval (quantize_paisa y))" by (simp add: quantize_paisa_def)
    moreover from this that have "dec28 (dval (quantize_paisa y)) = dval (quantize_paisa y)"
      by (intro dec28_places [of 2]) auto
    ultimately show ?thesis by (simp add: dec_sum_single dec_eq_iff quantize_paisa_def qz_fixed)
  qed
  have zero: "quantize_paisa (dec_sum [Dec 0]) = Dec 0"
    by (simp add: dec_sum_single quantize_paisa_def dec_eq_iff)
  have sorted: "sort_lots [lot] = [lot]" by (simp add: sort_lots_def)
  show ?thesis
  proof (cases "Dec 0 < ?g")
    case False
    then have "c = Inr (Dec 0)" using tax npos by (simp add: calculate_cgt_def Let_def not_less)
    with False show ?thesis
      by (simp add: match_fifo_def sorted npos lotpos t match_lot_def Let_def rem zero)
  next
    case True
    then have c: "c = bind_r ?b (\<lambda>b. Inr (quantize_paisa (?g * rate_pct b / Dec 100)))"
      using tax npos by (simp add: calculate_cgt_def Let_def not_le [symmetric])
    show ?thesis
    proof (cases ?b)
      case (Inl e)
      with True c show ?thesis by (simp add: match_fifo_def sorted npos lotpos t match_lot_def Let_def)
    next
      case (Inr b)
      with c range have "\<bar>dval (quantize_paisa (?g * rate_pct b / Dec 100))\<bar> < 10 ^ 26" by simp
      with True Inr c show ?thesis
        by (simp add: match_fifo_def sorted npos lotpos t match_lot_def Let_def rem sum_q)
    qed
  qed
qed

end
