(* ===== verification/Transactions.thy ===== *)
theory Transactions
  imports Cgt
begin

text \<open>
  The transaction pipeline, \<^verbatim>\<open>psx_api/services/transaction_service.py\<close>, over the tables of
  \<^verbatim>\<open>psx_api/models/portfolios.py\<close> and \<^verbatim>\<open>models/tax_rules.py\<close>. The database is a record of tables,
  each a list of rows in insertion order; a query's \<^verbatim>\<open>ORDER BY\<close> is a stable sort. The identifier and
  the creation time the server assigns to a new row are arguments.
\<close>

section \<open>Tables\<close>

datatype TransactionType = BUY | SELL | DIVIDEND | BONUS | RIGHTS

record Transaction =
  t_id :: string
  t_portfolio_id :: string
  t_symbol :: string
  t_type :: TransactionType
  t_date :: date
  t_quantity :: dec
  t_price :: dec
  t_brokerage_pkr :: dec
  t_fed_pkr :: dec
  t_cvt_pkr :: dec
  t_cgt_pkr :: dec
  t_notes :: "string option"
  t_created_at :: int

record HoldingsSnapshot =
  h_portfolio_id :: string
  h_symbol :: string
  h_quantity :: dec
  h_avg_cost_pkr :: dec
  h_total_invested_pkr :: dec
  h_realized_pnl_pkr :: dec
  h_total_dividends_received_pkr :: dec

record TaxRule =
  rule_type :: string
  rule_bracket :: TaxBracket

record ledger_db =
  securities :: "string list"
  transactions :: "Transaction list"
  holdings :: "HoldingsSnapshot list"
  tax_rules :: "TaxRule list"

definition load_cgt_brackets :: "ledger_db \<Rightarrow> TaxBracket list" where
  "load_cgt_brackets db =
     map rule_bracket (sort_key (\<lambda>r. effective_from (rule_bracket r))
       (filter (\<lambda>r. rule_type r = ''cgt'') (tax_rules db)))"

text \<open>\<^verbatim>\<open>transaction_type in ("buy", "bonus", "rights")\<close>\<close>

definition is_acquisition :: "Transaction \<Rightarrow> bool" where
  "is_acquisition t = (t_type t \<in> {BUY, BONUS, RIGHTS})"

text \<open>The rows of one portfolio and symbol, in the order of date and creation.\<close>

definition symbol_txns :: "ledger_db \<Rightarrow> string \<Rightarrow> string \<Rightarrow> Transaction list" where
  "symbol_txns db pid symb =
     sort_key (\<lambda>t. (t_date t, t_created_at t))
       (filter (\<lambda>t. t_portfolio_id t = pid \<and> t_symbol t = symb) (transactions db))"

definition list_for_portfolio :: "ledger_db \<Rightarrow> string \<Rightarrow> nat \<Rightarrow> Transaction list" where
  "list_for_portfolio db pid limit =
     take limit (sort_key_desc (\<lambda>t. (t_date t, t_created_at t))
       (filter (\<lambda>t. t_portfolio_id t = pid) (transactions db)))"

section \<open>Requests and previews\<close>

record TransactionCreate =
  c_symbol :: string
  c_type :: TransactionType
  c_date :: date
  c_quantity :: dec
  c_price :: dec
  c_brokerage_pkr :: dec
  c_fed_pkr :: dec
  c_cvt_pkr :: dec
  c_cgt_pkr :: dec
  c_notes :: "string option"

record MatchedLotPreview =
  p_transaction_id :: string
  p_buy_date :: date
  p_quantity :: dec
  p_buy_price :: dec
  p_holding_period_days :: int
  p_gross_gain_pkr :: dec
  p_cgt_rate_pct :: dec
  p_cgt_pkr :: dec

record TransactionPreview =
  pv_type :: TransactionType
  pv_symbol :: string
  pv_quantity :: dec
  pv_price_per_share :: dec
  pv_gross_value_pkr :: dec
  pv_brokerage_pkr :: dec
  pv_fed_pkr :: dec
  pv_cvt_pkr :: dec
  pv_cgt_pkr :: dec
  pv_total_charges_pkr :: dec
  pv_net_cash_impact_pkr :: dec
  pv_matched_lots :: "MatchedLotPreview list"
  pv_warnings :: "tax_error list"

text \<open>\<^verbatim>\<open>TransactionError(message, status_code)\<close>, and an exception of the tax engine that no handler catches.\<close>

datatype txn_error =
    UnknownSymbol string
  | CannotSave "tax_error list"
  | Uncaught tax_error

text \<open>The constraints of the request schema: positive quantity, amounts with four decimal places.\<close>

definition valid_create :: "TransactionCreate \<Rightarrow> bool" where
  "valid_create c \<longleftrightarrow>
     c_symbol c \<noteq> [] \<and> length (c_symbol c) \<le> 20
     \<and> Dec 0 < c_quantity c \<and> places 4 (dval (c_quantity c))
     \<and> (\<forall>x \<in> {c_price c, c_brokerage_pkr c, c_fed_pkr c, c_cvt_pkr c, c_cgt_pkr c}. Dec 0 \<le> x \<and> places 4 (dval x))"

text \<open>A request is checked against the constraints, then its symbol is normalised.\<close>

definition upper_symbol :: "string \<Rightarrow> string" where
  "upper_symbol v = py_strip (py_upper v)"

definition parse_create :: "TransactionCreate \<Rightarrow> TransactionCreate option" where
  "parse_create c = (if valid_create c then Some (c\<lparr>c_symbol := upper_symbol (c_symbol c)\<rparr>) else None)"

section \<open>Preview\<close>

definition validate_symbol :: "ledger_db \<Rightarrow> string \<Rightarrow> txn_error + unit" where
  "validate_symbol db symb = (if symb \<in> set (securities db) then Inr () else Inl (UnknownSymbol symb))"

text \<open>Reducing the open quantity of each purchase by the earlier sales, oldest first.\<close>

fun consume_lots :: "dec \<Rightarrow> Transaction list \<Rightarrow> (Transaction \<times> dec) list" where
  "consume_lots sell_remaining [] = []"
| "consume_lots sell_remaining (b # bs) =
     (if sell_remaining \<le> Dec 0 then map (\<lambda>x. (x, t_quantity x)) (b # bs)
      else let take = min (t_quantity b) sell_remaining
           in (b, t_quantity b - take) # consume_lots (sell_remaining - take) bs)"

definition open_lots :: "Transaction list \<Rightarrow> dec \<Rightarrow> BuyLot list" where
  "open_lots buys sold =
     map (\<lambda>(b, q). \<lparr>lot_transaction_id = t_id b, lot_buy_date = t_date b, lot_quantity = q,
            lot_price = t_price b\<rparr>)
       (filter (\<lambda>(b, q). Dec 0 < q) (consume_lots sold buys))"

definition compute_sell_cgt ::
  "ledger_db \<Rightarrow> string \<Rightarrow> TransactionCreate \<Rightarrow> bool \<Rightarrow> tax_error + dec \<times> MatchedLotPreview list" where
  "compute_sell_cgt db pid body filer =
     (let txns = symbol_txns db pid (c_symbol body);
          buys = filter is_acquisition txns;
          prior_sells = filter (\<lambda>t. t_type t = SELL) txns;
          lots = open_lots buys (dec_sum (map t_quantity prior_sells))
      in bind_r (match_fifo lots
             \<lparr>sell_quantity = c_quantity body, sell_price = c_price body, sell_date = c_date body,
              sell_filer = filer, sell_brackets = load_cgt_brackets db\<rparr>)
           (\<lambda>result. Inr (total_cgt_pkr result,
              map (\<lambda>m. \<lparr>p_transaction_id = m_transaction_id m, p_buy_date = m_buy_date m,
                  p_quantity = m_quantity m, p_buy_price = m_buy_price m,
                  p_holding_period_days = m_holding_period_days m,
                  p_gross_gain_pkr = m_gross_gain_pkr m, p_cgt_rate_pct = m_cgt_rate_pct m,
                  p_cgt_pkr = m_cgt_pkr m\<rparr>) (matched result))))"

definition net_cash :: "TransactionCreate \<Rightarrow> dec \<Rightarrow> dec \<Rightarrow> dec" where
  "net_cash body gross cgt =
     (case c_type body of
        BUY \<Rightarrow> - (gross + c_brokerage_pkr body + c_fed_pkr body + c_cvt_pkr body)
      | SELL \<Rightarrow> gross - c_brokerage_pkr body - c_fed_pkr body - c_cvt_pkr body - cgt
      | DIVIDEND \<Rightarrow> gross - c_brokerage_pkr body - c_fed_pkr body - c_cvt_pkr body
      | _ \<Rightarrow> - (c_brokerage_pkr body + c_fed_pkr body + c_cvt_pkr body))"

definition preview ::
  "ledger_db \<Rightarrow> string \<Rightarrow> TransactionCreate \<Rightarrow> bool \<Rightarrow> txn_error + TransactionPreview" where
  "preview db pid body filer =
     bind_r (validate_symbol db (c_symbol body)) (\<lambda>_.
       let gross = quantize 2 (c_quantity body * c_price body) in
       bind_r
         (if c_type body = SELL
          then case compute_sell_cgt db pid body filer of
              Inr (cgt, lots) \<Rightarrow> Inr (cgt, lots, [])
            | Inl (ValueError msg) \<Rightarrow> Inl (Uncaught (ValueError msg))
            | Inl e \<Rightarrow> Inr (Dec 0, [], [e])
          else Inr (Dec 0, [], []))
         (\<lambda>(cgt, lots, warnings). Inr
            \<lparr>pv_type = c_type body, pv_symbol = c_symbol body, pv_quantity = c_quantity body,
             pv_price_per_share = c_price body, pv_gross_value_pkr = gross,
             pv_brokerage_pkr = c_brokerage_pkr body, pv_fed_pkr = c_fed_pkr body,
             pv_cvt_pkr = c_cvt_pkr body, pv_cgt_pkr = cgt,
             pv_total_charges_pkr =
               quantize 2 (c_brokerage_pkr body + c_fed_pkr body + c_cvt_pkr body + cgt),
             pv_net_cash_impact_pkr = quantize 2 (net_cash body gross cgt),
             pv_matched_lots = lots, pv_warnings = warnings\<rparr>))"

section \<open>The holdings snapshot\<close>

record walk_state =
  w_lots :: "(dec \<times> dec) list"
  w_realized_pnl :: dec
  w_dividends :: dec
  w_total_invested :: dec

text \<open>
  The inner \<^verbatim>\<open>while remaining > 0 and lots\<close>. It ends: a lot that is not used up means that nothing
  remains, so every further turn removes a lot.
\<close>

function sell_loop :: "dec \<Rightarrow> dec \<Rightarrow> (dec \<times> dec) list \<Rightarrow> dec \<Rightarrow> (dec \<times> dec) list \<times> dec" where
  "sell_loop price left [] pnl = ([], pnl)"
| "sell_loop price left ((q, c) # lots) pnl =
     (if Dec 0 < left
      then let take = min q left; pnl' = pnl + (price - c) * take; q' = q - take
           in if q' = Dec 0 then sell_loop price (left - take) lots pnl'
              else sell_loop price (left - take) ((q', c) # lots) pnl'
      else ((q, c) # lots, pnl))"
  by pat_completeness auto
termination
proof (relation "measures [\<lambda>(p, r, lots, pnl). length lots, \<lambda>(p, r, lots, pnl). if Dec 0 < r then 1 else 0]")
  fix r q :: dec and t q' :: dec
  assume "Dec 0 < r" "t = min q r" "q' = q - t" "q' \<noteq> Dec 0"
  then have "t = r" by (auto simp: min_def dec_eq_iff split: if_splits)
  then have "\<not> Dec 0 < r - t" by (simp add: dec_less_iff)
  with \<open>Dec 0 < r\<close> show "((p, r - t, (q', c) # lots, pnl'), p, r, (q, c) # lots, pnl)
      \<in> measures [\<lambda>(p, r, lots, pnl). length lots, \<lambda>(p, r, lots, pnl). if Dec 0 < r then 1 else 0]"
    for p c lots pnl pnl' by simp
qed auto

fun walk_step :: "walk_state \<Rightarrow> Transaction \<Rightarrow> walk_state" where
  "walk_step w t =
     (if is_acquisition t
      then w\<lparr>w_lots := w_lots w @ [(t_quantity t, t_price t)],
             w_total_invested := w_total_invested w + t_quantity t * t_price t\<rparr>
      else if t_type t = SELL
      then let (lots, pnl) = sell_loop (t_price t) (t_quantity t) (w_lots w) (w_realized_pnl w)
           in w\<lparr>w_lots := lots, w_realized_pnl := pnl\<rparr>
      else if t_type t = DIVIDEND
      then w\<lparr>w_dividends := w_dividends w + t_quantity t * t_price t\<rparr>
      else w)"

definition walk :: "Transaction list \<Rightarrow> walk_state" where
  "walk txns = foldl walk_step
     \<lparr>w_lots = [], w_realized_pnl = Dec 0, w_dividends = Dec 0, w_total_invested = Dec 0\<rparr> txns"

definition refresh_holdings_snapshot :: "ledger_db \<Rightarrow> string \<Rightarrow> string \<Rightarrow> ledger_db" where
  "refresh_holdings_snapshot db pid symb =
     (let w = walk (symbol_txns db pid symb);
          open_qty = dec_sum (map fst (w_lots w));
          weighted = dec_sum (map (\<lambda>(q, c). q * c) (w_lots w));
          avg_cost = (if Dec 0 < open_qty then weighted / open_qty else Dec 0);
          mine = (\<lambda>h. h_portfolio_id h = pid \<and> h_symbol h = symb);
          row = \<lparr>h_portfolio_id = pid, h_symbol = symb, h_quantity = open_qty,
                 h_avg_cost_pkr = quantize 4 avg_cost,
                 h_total_invested_pkr = quantize 2 (w_total_invested w),
                 h_realized_pnl_pkr = quantize 2 (w_realized_pnl w),
                 h_total_dividends_received_pkr = quantize 2 (w_dividends w)\<rparr>
      in if open_qty = Dec 0 \<and> w_dividends w = Dec 0 \<and> w_realized_pnl w = Dec 0
         then db\<lparr>holdings := filter (\<lambda>h. \<not> mine h) (holdings db)\<rparr>
         else if \<exists>h\<in>set (holdings db). mine h
         then db\<lparr>holdings := map (\<lambda>h. if mine h then row else h) (holdings db)\<rparr>
         else db\<lparr>holdings := holdings db @ [row]\<rparr>)"

section \<open>Create\<close>

definition create ::
  "ledger_db \<Rightarrow> string \<Rightarrow> TransactionCreate \<Rightarrow> bool \<Rightarrow> string \<Rightarrow> int
     \<Rightarrow> txn_error + ledger_db \<times> Transaction \<times> TransactionPreview" where
  "create db pid body filer new_id now =
     bind_r (preview db pid body filer) (\<lambda>pv.
       if pv_warnings pv \<noteq> [] then Inl (CannotSave (pv_warnings pv))
       else let txn = \<lparr>t_id = new_id, t_portfolio_id = pid, t_symbol = c_symbol body,
                t_type = c_type body, t_date = c_date body, t_quantity = c_quantity body,
                t_price = c_price body, t_brokerage_pkr = c_brokerage_pkr body,
                t_fed_pkr = c_fed_pkr body, t_cvt_pkr = c_cvt_pkr body,
                t_cgt_pkr = pv_cgt_pkr pv, t_notes = c_notes body, t_created_at = now\<rparr>;
              db' = db\<lparr>transactions := transactions db @ [txn]\<rparr>
            in Inr (refresh_holdings_snapshot db' pid (c_symbol body), txn, pv))"

section \<open>Exact quantities\<close>

text \<open>The shares bought and sold in a list of rows, and what a row of the table satisfies.\<close>

definition bought :: "Transaction list \<Rightarrow> rat" where
  "bought txns = sum_list (map (dval \<circ> t_quantity) (filter is_acquisition txns))"

definition sold :: "Transaction list \<Rightarrow> rat" where
  "sold txns = sum_list (map (dval \<circ> t_quantity) (filter (\<lambda>t. t_type t = SELL) txns))"

definition row_ok :: "Transaction \<Rightarrow> bool" where
  "row_ok t \<longleftrightarrow> Dec 0 < t_quantity t \<and> stored_qty (t_quantity t)"

lemma row_okD:
  assumes "row_ok t"
  shows "0 < dval (t_quantity t)" "places 4 (dval (t_quantity t))" "dval (t_quantity t) * 10 ^ 4 < 10 ^ 20"
  using assms by (auto simp: row_ok_def stored_qty_def numeric_def dec_less_iff)

lemma sum_qty_nonneg: "\<forall>t\<in>set txns. row_ok t \<Longrightarrow> 0 \<le> sum_list (map (dval \<circ> t_quantity) txns)"
  by (rule sum_list_nonneg) (auto dest: row_okD(1) intro: less_imp_le)

lemma bought_sold_append [simp]:
  "bought (xs @ ys) = bought xs + bought ys" "sold (xs @ ys) = sold xs + sold ys"
  by (simp_all add: bought_def sold_def)

lemma bought_sold_nonneg:
  assumes "\<forall>t\<in>set txns. row_ok t"
  shows "0 \<le> bought txns" "0 \<le> sold txns"
  using assms by (simp_all add: bought_def sold_def sum_qty_nonneg)

lemma bought_sold_sort [simp]: "bought (sort_key f xs) = bought xs" "sold (sort_key f xs) = sold xs"
proof -
  have "sum_list (map g (filter P (sort_key f xs))) = sum_list (map g (filter P xs))"
    for g :: "Transaction \<Rightarrow> rat" and P
    by (metis mset_filter mset_map mset_sort sum_mset_sum_list)
  then show "bought (sort_key f xs) = bought xs" "sold (sort_key f xs) = sold xs"
    by (simp_all only: bought_def sold_def)
qed

subsection \<open>Open lots\<close>

text \<open>After the earlier sales, what is left open of each purchase and in total.\<close>

lemma consume_lots_exact:
  assumes "\<forall>b\<in>set bs. row_ok b" "places 4 (dval r)" "0 \<le> dval r"
    "dval r * 10 ^ 4 < 10 ^ 28"
  shows "(\<forall>(b, q)\<in>set (consume_lots r bs). places 4 (dval q) \<and> 0 \<le> dval q \<and> q \<le> t_quantity b \<and> b \<in> set bs)
    \<and> sum_list (map (dval \<circ> snd) (consume_lots r bs)) = max 0 (sum_list (map (dval \<circ> t_quantity) bs) - dval r)"
  using assms
proof (induction r bs rule: consume_lots.induct)
  case (2 r b bs)
  note b = row_okD [of b]
  show ?case
  proof (cases "r \<le> Dec 0")
    case True
    with 2 have "dval r = 0" by (simp add: dec_le_iff)
    moreover have "0 \<le> sum_list (map (dval \<circ> t_quantity) bs)"
      using "2.prems"(1) by (simp add: sum_qty_nonneg)
    ultimately show ?thesis using True 2 by (auto simp: o_def dest: row_okD less_imp_le [OF row_okD(1)])
  next
    case False
    let ?t = "min (t_quantity b) r"
    have q: "dval (t_quantity b - ?t) = dval (t_quantity b) - min (dval (t_quantity b)) (dval r)"
      using 2 b by (simp add: dval_min) (intro dec28_places [of 4], auto intro!: places_closed simp: min_def)
    have r: "dval (r - ?t) = dval r - min (dval (t_quantity b)) (dval r)"
      using 2 b by (simp add: dval_min) (intro dec28_places [of 4], auto intro!: places_closed simp: min_def)
    have pr: "places 4 (dval (r - ?t))" "0 \<le> dval (r - ?t)" "dval (r - ?t) * 10 ^ 4 < 10 ^ 28"
      unfolding r using 2 b by (auto intro!: places_closed simp: min_def)
    have pq: "places 4 (dval (t_quantity b - ?t))" "0 \<le> dval (t_quantity b - ?t)" "t_quantity b - ?t \<le> t_quantity b"
      unfolding dec_le_iff q using 2 b by (auto intro!: places_closed simp: min_def)
    have IH: "(\<forall>(b', q)\<in>set (consume_lots (r - ?t) bs). places 4 (dval q) \<and> 0 \<le> dval q \<and> q \<le> t_quantity b' \<and> b' \<in> set bs)"
      "sum_list (map (dval \<circ> snd) (consume_lots (r - ?t) bs)) = max 0 (sum_list (map (dval \<circ> t_quantity) bs) - dval (r - ?t))"
      using "2.IH" [OF False refl _ pr] "2.prems"(1) by (simp_all add: o_def)
    have nn: "0 \<le> sum_list (map (dval \<circ> t_quantity) bs)"
      using "2.prems"(1) by (simp add: sum_qty_nonneg)
    show ?thesis using False IH pq q r nn "2.prems" b
      by (auto simp: Let_def o_def min_def max_def simp del: dval_simps)
  qed
qed auto

lemma open_lots_exact:
  assumes "\<forall>b\<in>set buys. row_ok b" "places 4 (dval r)" "0 \<le> dval r" "dval r * 10 ^ 4 < 10 ^ 28"
  shows "\<forall>l\<in>set (open_lots buys r). stored_qty (lot_quantity l)"
    "capacity (map lot_key (open_lots buys r)) = max 0 (sum_list (map (dval \<circ> t_quantity) buys) - dval r)"
proof -
  note c = consume_lots_exact [OF assms]
  show "\<forall>l\<in>set (open_lots buys r). stored_qty (lot_quantity l)"
  proof
    fix l assume "l \<in> set (open_lots buys r)"
    then obtain b q where bq: "(b, q) \<in> set (consume_lots r buys)" "lot_quantity l = q"
      by (auto simp: open_lots_def)
    with c have "places 4 (dval q)" "0 \<le> dval q" "dval q \<le> dval (t_quantity b)" "row_ok b"
      using assms(1) by (auto simp: dec_le_iff)
    then show "stored_qty (lot_quantity l)"
      using row_okD(3) [of b] bq by (auto simp: stored_qty_def numeric_def)
  qed
  have "capacity (map lot_key (map g (filter (\<lambda>(b, q). Dec 0 < q) xs))) = sum_list (map (dval \<circ> snd) xs)"
    if "\<forall>(b, q)\<in>set xs. 0 \<le> dval q" "\<And>b q. lot_quantity (g (b, q)) = q" for xs and g :: "Transaction \<times> dec \<Rightarrow> BuyLot"
    using that(1)
    by (induction xs) (auto simp: lot_key_def dec_less_iff that(2) max_def split: prod.splits)
  then have "capacity (map lot_key (open_lots buys r)) = sum_list (map (dval \<circ> snd) (consume_lots r buys))"
    using c unfolding open_lots_def by (smt (verit) BuyLot.select_convs(3) case_prodD case_prodI2 prod.case)
  with c show "capacity (map lot_key (open_lots buys r)) = max 0 (sum_list (map (dval \<circ> t_quantity) buys) - dval r)"
    by simp
qed

subsection \<open>The lots of the snapshot\<close>

definition lots_ok :: "(dec \<times> dec) list \<Rightarrow> bool" where
  "lots_ok lots \<longleftrightarrow> (\<forall>(q, c)\<in>set lots. 0 < dval q \<and> places 4 (dval q) \<and> dval q * 10 ^ 4 < 10 ^ 20)"

definition lots_total :: "(dec \<times> dec) list \<Rightarrow> rat" where
  "lots_total lots = sum_list (map (dval \<circ> fst) lots)"

lemma lots_total_nonneg: "lots_ok lots \<Longrightarrow> 0 \<le> lots_total lots"
  unfolding lots_total_def by (rule sum_list_nonneg) (auto simp: lots_ok_def intro: less_imp_le)

lemma sell_loop_exact:
  assumes "lots_ok lots" "places 4 (dval r)" "0 \<le> dval r" "dval r * 10 ^ 4 < 10 ^ 20"
  shows "lots_ok (fst (sell_loop p r lots pnl))
    \<and> lots_total (fst (sell_loop p r lots pnl)) = max 0 (lots_total lots - dval r)"
  using assms
proof (induction p r lots pnl rule: sell_loop.induct)
  case (1 p r pnl)
  then show ?case by (simp add: lots_ok_def lots_total_def)
next
  case (2 p r q c lots pnl)
  have q: "0 < dval q" "places 4 (dval q)" "dval q * 10 ^ 4 < 10 ^ 20" and lots: "lots_ok lots"
    using "2.prems"(1) by (auto simp: lots_ok_def)
  show ?case
  proof (cases "Dec 0 < r")
    case False
    then have "dval r = 0" using "2.prems" by (simp add: dec_less_iff)
    with False "2.prems" lots_total_nonneg [OF "2.prems"(1)] show ?thesis by simp
  next
    case True
    let ?t = "min q r"
    have eq: "dval (q - ?t) = dval q - min (dval q) (dval r)" "dval (r - ?t) = dval r - min (dval q) (dval r)"
      using q "2.prems" by (simp_all add: dval_min stored_qty_diff places_closed)
    have r: "places 4 (dval (r - ?t))" "0 \<le> dval (r - ?t)" "dval (r - ?t) * 10 ^ 4 < 10 ^ 20"
      unfolding eq using q "2.prems" by (auto intro!: places_closed simp: min_def)
    show ?thesis
    proof (cases "q - ?t = Dec 0")
      case zero: True
      then have "min (dval q) (dval r) = dval q" using eq(1) by (metis dec.sel diff_eq_eq add_0)
      with True zero "2.IH"(1) [OF True refl refl refl zero lots r] eq show ?thesis
        by (simp add: lots_total_def Let_def del: dval_simps)
    next
      case False
      then have lt: "min (dval q) (dval r) = dval r" "dval r < dval q"
        using eq(1) by (auto simp: dec_eq_iff min_def simp del: dval_simps split: if_splits)
      have "lots_ok ((q - ?t, c) # lots)"
        using lots q "2.prems" lt unfolding lots_ok_def list.set ball_simps prod.case eq
        by (auto intro: places_closed)
      from "2.IH"(2) [OF True refl refl refl False this r] True False eq lt show ?thesis
        by (simp add: lots_total_def Let_def del: dval_simps)
    qed
  qed
qed

text \<open>What the walk means: the position after each row, where a sale never goes below zero.\<close>

definition position_step :: "rat \<Rightarrow> Transaction \<Rightarrow> rat" where
  "position_step s t =
     (if is_acquisition t then s + dval (t_quantity t)
      else if t_type t = SELL then max 0 (s - dval (t_quantity t)) else s)"

definition net_position :: "Transaction list \<Rightarrow> rat" where
  "net_position txns = foldl position_step 0 txns"

lemma walk_step_exact:
  assumes "row_ok t" "lots_ok (w_lots w)"
  shows "lots_ok (w_lots (walk_step w t))
    \<and> lots_total (w_lots (walk_step w t)) = position_step (lots_total (w_lots w)) t"
proof -
  note t = row_okD [OF assms(1)]
  note sl = sell_loop_exact [OF assms(2) t(2) less_imp_le [OF t(1)] t(3)]
  have app: "lots_ok (w_lots w @ [(t_quantity t, c)])"
    "lots_total (w_lots w @ [(t_quantity t, c)]) = lots_total (w_lots w) + dval (t_quantity t)" for c
    using assms(2) t by (auto simp: lots_ok_def lots_total_def)
  show ?thesis using app sl assms(2)
    by (auto simp: position_step_def is_acquisition_def Let_def split: prod.splits)
       (metis fst_conv)+
qed

lemma walk_exact:
  assumes "\<forall>t\<in>set txns. row_ok t"
  shows "lots_ok (w_lots (walk txns)) \<and> lots_total (w_lots (walk txns)) = net_position txns"
  using assms
proof (induction txns rule: rev_induct)
  case Nil
  then show ?case by (simp add: walk_def net_position_def lots_ok_def lots_total_def)
next
  case (snoc t txns)
  then show ?case using walk_step_exact [of t "walk txns"]
    by (auto simp: walk_def net_position_def)
qed

lemma net_position_bounds:
  assumes "\<forall>t\<in>set txns. row_ok t"
  shows "0 \<le> net_position txns \<and> bought txns - sold txns \<le> net_position txns \<and> net_position txns \<le> bought txns"
  using assms
proof (induction txns rule: rev_induct)
  case (snoc t txns)
  have "is_acquisition t \<Longrightarrow> t_type t \<noteq> SELL" by (auto simp: is_acquisition_def)
  with snoc row_okD(1) [of t] show ?case
    by (auto simp: net_position_def bought_def sold_def position_step_def max_def)
qed (simp add: net_position_def bought_def sold_def)

text \<open>If no prefix of the history oversells, the position is what was bought less what was sold.\<close>

lemma net_position_covered:
  assumes "\<forall>n \<le> length txns. sold (take n txns) \<le> bought (take n txns)"
  shows "net_position txns = bought txns - sold txns"
  using assms
proof (induction txns rule: rev_induct)
  case (snoc t txns)
  have "sold (take n txns) \<le> bought (take n txns)" if "n \<le> length txns" for n
    using snoc.prems [rule_format, of n] that by simp
  then have IH: "net_position txns = bought txns - sold txns" using snoc.IH by blast
  have "sold (txns @ [t]) \<le> bought (txns @ [t])" using snoc.prems [rule_format, of "length (txns @ [t])"] by simp
  moreover have "t_type t = SELL \<Longrightarrow> \<not> is_acquisition t" by (auto simp: is_acquisition_def)
  ultimately show ?case using IH
    by (cases "is_acquisition t"; cases "t_type t = SELL")
       (auto simp: net_position_def bought_def sold_def position_step_def max_def)
qed (simp add: net_position_def bought_def sold_def)

section \<open>The ledger as a whole\<close>

definition holding_qty :: "ledger_db \<Rightarrow> string \<Rightarrow> string \<Rightarrow> rat" where
  "holding_qty db pid symb =
     (case List.find (\<lambda>h. h_portfolio_id h = pid \<and> h_symbol h = symb) (holdings db) of
        None \<Rightarrow> 0 | Some h \<Rightarrow> dval (h_quantity h))"

text \<open>Every stored row is positive and in range, and no history is too long for 28 digits.\<close>

definition ledger_ok :: "ledger_db \<Rightarrow> bool" where
  "ledger_ok db \<longleftrightarrow> (\<forall>t\<in>set (transactions db). row_ok t
     \<and> bought (symbol_txns db (t_portfolio_id t) (t_symbol t)) * 10 ^ 4 < 10 ^ 28)"

definition never_oversold :: "ledger_db \<Rightarrow> bool" where
  "never_oversold db \<longleftrightarrow> (\<forall>t\<in>set (transactions db).
     sold (symbol_txns db (t_portfolio_id t) (t_symbol t)) \<le> bought (symbol_txns db (t_portfolio_id t) (t_symbol t)))"

definition snapshots_current :: "ledger_db \<Rightarrow> bool" where
  "snapshots_current db \<longleftrightarrow> (\<forall>pid symb. holding_qty db pid symb = net_position (symbol_txns db pid symb))"

lemma symbol_txns_empty:
  assumes "\<not> (\<exists>t\<in>set (transactions db). t_portfolio_id t = pid \<and> t_symbol t = symb)"
  shows "symbol_txns db pid symb = []"
proof -
  have "filter (\<lambda>t. t_portfolio_id t = pid \<and> t_symbol t = symb) (transactions db) = []"
    using assms by (auto simp: filter_empty_conv)
  then show ?thesis by (simp only: symbol_txns_def sort_key_simps)
qed

lemma symbol_txns_all:
  assumes "ledger_ok db"
  shows "\<forall>t\<in>set (symbol_txns db pid symb). row_ok t" "bought (symbol_txns db pid symb) * 10 ^ 4 < 10 ^ 28"
proof -
  show "\<forall>t\<in>set (symbol_txns db pid symb). row_ok t"
    using assms by (auto simp: symbol_txns_def ledger_ok_def)
  show "bought (symbol_txns db pid symb) * 10 ^ 4 < 10 ^ 28"
    using assms symbol_txns_empty [of db pid symb] by (cases "symbol_txns db pid symb = []")
      (auto simp: ledger_ok_def bought_def)
qed

lemma never_oversold_all: "never_oversold db \<Longrightarrow> sold (symbol_txns db pid symb) \<le> bought (symbol_txns db pid symb)"
  using symbol_txns_empty [of db pid symb] by (cases "symbol_txns db pid symb = []")
    (auto simp: never_oversold_def bought_def sold_def)

lemma refresh_frame [simp]:
  "transactions (refresh_holdings_snapshot db pid symb) = transactions db"
  "tax_rules (refresh_holdings_snapshot db pid symb) = tax_rules db"
  "securities (refresh_holdings_snapshot db pid symb) = securities db"
  "symbol_txns (refresh_holdings_snapshot db pid symb) pid' symb' = symbol_txns db pid' symb'"
  by (simp_all add: refresh_holdings_snapshot_def Let_def symbol_txns_def)

lemma find_map_upd:
  assumes "\<And>x. P (f x) = P x"
  shows "List.find P (map f xs) = map_option f (List.find P xs)"
  using assms by (induction xs) auto

lemma refresh_other:
  assumes "(pid', symb') \<noteq> (pid, symb)"
  shows "holding_qty (refresh_holdings_snapshot db pid symb) pid' symb' = holding_qty db pid' symb'"
proof -
  let ?P = "\<lambda>h. h_portfolio_id h = pid' \<and> h_symbol h = symb'"
  let ?mine = "\<lambda>h. h_portfolio_id h = pid \<and> h_symbol h = symb"
  have dis: "\<not> (?P h \<and> ?mine h)" for h :: HoldingsSnapshot using assms by auto
  have del: "List.find ?P (filter (\<lambda>h. \<not> ?mine h) hs) = List.find ?P hs" for hs :: "HoldingsSnapshot list"
    using assms by (induction hs) auto
  have upd: "List.find ?P (map (\<lambda>h. if ?mine h then row else h) hs) = List.find ?P hs"
    if "?mine row" for hs :: "HoldingsSnapshot list" and row
    using assms that by (induction hs) auto
  have app: "List.find ?P (hs @ [row]) = List.find ?P hs" if "?mine row" for hs :: "HoldingsSnapshot list" and row
    using assms that by (induction hs) auto
  show ?thesis unfolding holding_qty_def refresh_holdings_snapshot_def Let_def
    by (simp add: del [simplified] upd app)
qed

lemma refresh_mine:
  assumes ok: "\<forall>t\<in>set (symbol_txns db pid symb). row_ok t"
    and fits: "bought (symbol_txns db pid symb) * 10 ^ 4 < 10 ^ 28"
  shows "holding_qty (refresh_holdings_snapshot db pid symb) pid symb = net_position (symbol_txns db pid symb)"
proof -
  let ?w = "walk (symbol_txns db pid symb)"
  let ?mine = "\<lambda>h. h_portfolio_id h = pid \<and> h_symbol h = symb"
  have w: "lots_ok (w_lots ?w)" "lots_total (w_lots ?w) = net_position (symbol_txns db pid symb)"
    using walk_exact [OF ok] by auto
  have le: "net_position (symbol_txns db pid symb) * 10 ^ 4 < 10 ^ 28"
    using net_position_bounds [OF ok] fits by simp
  have tot: "sum_list (map dval (map fst (w_lots ?w))) = net_position (symbol_txns db pid symb)"
    using w(2) by (simp add: lots_total_def o_def)
  have "dval (dec_sum (map fst (w_lots ?w))) = sum_list (map dval (map fst (w_lots ?w)))"
    by (rule dec_sum_exact [where n = 4])
       (use w(1) le tot in \<open>auto simp: lots_ok_def intro: less_imp_le\<close>)
  then have q: "dval (dec_sum (map fst (w_lots ?w))) = net_position (symbol_txns db pid symb)"
    using tot by simp
  have del: "List.find ?mine (filter (\<lambda>h. \<not> ?mine h) hs) = None" for hs :: "HoldingsSnapshot list"
    by (auto simp: find_None_iff)
  have upd: "List.find ?mine (map (\<lambda>h. if ?mine h then row else h) hs) = Some row"
    if "?mine row" "\<exists>h\<in>set hs. ?mine h" for hs :: "HoldingsSnapshot list" and row
    using that by (induction hs) auto
  have app: "List.find ?mine (hs @ [row]) = Some row"
    if "?mine row" "\<not> (\<exists>h\<in>set hs. ?mine h)" for hs :: "HoldingsSnapshot list" and row
    using that by (induction hs) auto
  have none: "List.find ?mine hs = None" if "\<forall>h\<in>set hs. h_portfolio_id h = pid \<longrightarrow> h_symbol h \<noteq> symb"
    for hs :: "HoldingsSnapshot list"
    using that by (auto simp: find_None_iff)
  show ?thesis unfolding holding_qty_def refresh_holdings_snapshot_def Let_def
    using q by (auto simp: del [simplified] upd app none dec_eq_iff)
qed

lemma create_Inr:
  assumes "create db pid body filer new_id now = Inr (db', txn, pv)"
  shows "preview db pid body filer = Inr pv" "pv_warnings pv = []"
    "txn = \<lparr>t_id = new_id, t_portfolio_id = pid, t_symbol = c_symbol body, t_type = c_type body,
       t_date = c_date body, t_quantity = c_quantity body, t_price = c_price body,
       t_brokerage_pkr = c_brokerage_pkr body, t_fed_pkr = c_fed_pkr body, t_cvt_pkr = c_cvt_pkr body,
       t_cgt_pkr = pv_cgt_pkr pv, t_notes = c_notes body, t_created_at = now\<rparr>"
    "db' = refresh_holdings_snapshot (db\<lparr>transactions := transactions db @ [txn]\<rparr>) pid (c_symbol body)"
  using assms by (auto simp: create_def bind_r_Inr_iff Let_def split: if_splits)

lemma preview_sell_ok:
  assumes "preview db pid body filer = Inr pv" "pv_warnings pv = []" "c_type body = SELL"
  shows "\<exists>r. compute_sell_cgt db pid body filer = Inr (pv_cgt_pkr pv, r)"
  using assms by (auto simp: preview_def bind_r_Inr_iff Let_def split: sum.splits tax_error.splits)

lemma ledger_open_lots:
  fixes db pid symb
  defines "txns \<equiv> symbol_txns db pid symb"
  defines "lots \<equiv> open_lots (filter is_acquisition txns)
      (dec_sum (map t_quantity (filter (\<lambda>t. t_type t = SELL) txns)))"
  assumes ok: "ledger_ok db" and inv: "never_oversold db"
  shows "\<forall>l\<in>set lots. stored_qty (lot_quantity l)"
    "capacity (map lot_key lots) = bought txns - sold txns"
    "\<forall>l\<in>set lots. \<exists>t\<in>set (filter is_acquisition txns). lot_buy_date l = t_date t"
proof -
  let ?sells = "map t_quantity (filter (\<lambda>t. t_type t = SELL) txns)"
  have rows: "\<forall>t\<in>set txns. row_ok t" "bought txns * 10 ^ 4 < 10 ^ 28"
    unfolding txns_def by (rule symbol_txns_all [OF ok])+
  have le: "sold txns \<le> bought txns" unfolding txns_def by (rule never_oversold_all [OF inv])
  have sum: "sum_list (map dval ?sells) = sold txns" by (simp add: sold_def)
  have lim: "sold txns * 10 ^ 4 < 10 ^ 28" using le rows(2) by simp
  then have s: "dval (dec_sum ?sells) = sold txns"
    unfolding sum [symmetric]
    by (intro dec_sum_exact [where n = 4]) (use rows(1) in \<open>auto dest: row_okD intro: less_imp_le [OF row_okD(1)]\<close>)
  have pl: "places 4 (dval (dec_sum ?sells))"
    unfolding s sum [symmetric] by (rule places_sum_list) (use rows(1) in \<open>auto dest: row_okD(2)\<close>)
  have nn: "0 \<le> dval (dec_sum ?sells)" "dval (dec_sum ?sells) * 10 ^ 4 < 10 ^ 28"
    unfolding s using bought_sold_nonneg [OF rows(1)] lim by auto
  have acq: "\<forall>b\<in>set (filter is_acquisition txns). row_ok b" using rows(1) by simp
  note exact = open_lots_exact [OF acq pl nn] and consumed = consume_lots_exact [OF acq pl nn]
  show "\<forall>l\<in>set lots. stored_qty (lot_quantity l)" unfolding lots_def by (rule exact(1))
  show "capacity (map lot_key lots) = bought txns - sold txns"
    unfolding lots_def exact(2) s using le by (simp add: bought_def)
  show "\<forall>l\<in>set lots. \<exists>t\<in>set (filter is_acquisition txns). lot_buy_date l = t_date t"
    using consumed unfolding lots_def open_lots_def by auto
qed

lemma sell_within_open:
  assumes ok: "ledger_ok db" and inv: "never_oversold db" and q: "stored_qty (c_quantity body)"
    and sell: "compute_sell_cgt db pid body filer = Inr x"
  shows "dval (c_quantity body) \<le> bought (symbol_txns db pid (c_symbol body)) - sold (symbol_txns db pid (c_symbol body))"
proof -
  note lots = ledger_open_lots [OF ok inv, of pid "c_symbol body"]
  from sell obtain sl r where "match_fifo (open_lots (filter is_acquisition (symbol_txns db pid (c_symbol body)))
      (dec_sum (map t_quantity (filter (\<lambda>t. t_type t = SELL) (symbol_txns db pid (c_symbol body)))))) sl = Inr r"
    "sell_quantity sl = c_quantity body"
    by (auto simp: compute_sell_cgt_def Let_def bind_r_Inr_iff)
  from match_fifo_capacity [OF lots(1) _ this(1)] this(2) q lots(2) show ?thesis by simp
qed

text \<open>Requests: one call of \<open>create\<close> with a body the schema accepts and that fits its columns.\<close>

inductive ledger_step :: "ledger_db \<Rightarrow> ledger_db \<Rightarrow> bool" where
  step_create: "parse_create raw = Some body \<Longrightarrow> stored_qty (c_quantity body) \<Longrightarrow>
     create db pid body filer new_id now = Inr (db', txn, pv) \<Longrightarrow>
     bought (symbol_txns db' pid (c_symbol body)) * 10 ^ 4 < 10 ^ 28 \<Longrightarrow> ledger_step db db'"

definition ledger_init :: "ledger_db \<Rightarrow> bool" where
  "ledger_init db \<longleftrightarrow> transactions db = [] \<and> holdings db = []"

definition ledger_inv :: "ledger_db \<Rightarrow> bool" where
  "ledger_inv db \<longleftrightarrow> ledger_ok db \<and> never_oversold db \<and> snapshots_current db"

lemma ledger_init_inv: "ledger_init db \<Longrightarrow> ledger_inv db"
  by (auto simp: ledger_init_def ledger_inv_def ledger_ok_def never_oversold_def snapshots_current_def
      holding_qty_def symbol_txns_empty net_position_def)

lemma symbol_txns_append:
  "mset (symbol_txns (db\<lparr>transactions := transactions db @ [t]\<rparr>) pid symb) =
     mset (symbol_txns db pid symb) + (if t_portfolio_id t = pid \<and> t_symbol t = symb then {#t#} else {#})"
  by (simp add: symbol_txns_def)

lemma symbol_txns_append_other:
  "(t_portfolio_id t, t_symbol t) \<noteq> (pid, symb) \<Longrightarrow>
     symbol_txns (db\<lparr>transactions := transactions db @ [t]\<rparr>) pid symb = symbol_txns db pid symb"
  by (auto simp: symbol_txns_def)

lemma bought_sold_mset:
  assumes "mset xs = mset ys + mset zs"
  shows "bought xs = bought ys + bought zs" "sold xs = sold ys + sold zs"
proof -
  have "sum_list (map g (filter P xs)) = sum_list (map g (filter P ys)) + sum_list (map g (filter P zs))"
    for g :: "Transaction \<Rightarrow> rat" and P
  proof -
    have "mset (map g (filter P xs)) = mset (map g (filter P ys)) + mset (map g (filter P zs))"
      by (simp add: assms)
    then show ?thesis by (metis sum_mset.union sum_mset_sum_list)
  qed
  then show "bought xs = bought ys + bought zs" "sold xs = sold ys + sold zs"
    by (simp_all only: bought_def sold_def)
qed

lemma parse_create_pos: "parse_create raw = Some body \<Longrightarrow> Dec 0 < c_quantity body"
  by (auto simp: parse_create_def valid_create_def split: if_splits)

lemma create_ledger_inv:
  assumes inv: "ledger_inv db" and body: "Dec 0 < c_quantity body" "stored_qty (c_quantity body)"
    and cr: "create db pid body filer new_id now = Inr (db', txn, pv)"
    and fits: "bought (symbol_txns db' pid (c_symbol body)) * 10 ^ 4 < 10 ^ 28"
  shows "ledger_inv db'"
proof -
  let ?s = "c_symbol body"
  let ?db = "db\<lparr>transactions := transactions db @ [txn]\<rparr>"
  note c = create_Inr [OF cr]
  have ok: "ledger_ok db" and no: "never_oversold db" and cur: "snapshots_current db"
    using inv by (simp_all add: ledger_inv_def)
  have key: "t_portfolio_id txn = pid" "t_symbol txn = ?s" and qty: "t_quantity txn = c_quantity body"
    and ty: "t_type txn = c_type body" using c(3) by simp_all
  have row: "row_ok txn" using body by (simp add: row_ok_def qty)
  have mine: "mset (symbol_txns ?db pid ?s) = mset (symbol_txns db pid ?s) + mset [txn]"
    using symbol_txns_append [of db txn pid ?s] key by simp
  have other: "symbol_txns ?db p y = symbol_txns db p y" if "(p, y) \<noteq> (pid, ?s)" for p y
    using symbol_txns_append_other [of txn p y db] that key by auto
  have db': "symbol_txns db' p y = symbol_txns ?db p y" "transactions db' = transactions db @ [txn]" for p y
    unfolding c(4) by simp_all
  have "ledger_ok db'"
    using ok row fits other key unfolding ledger_ok_def db'
    by (auto simp: db') (metis db'(1) other)
  moreover have "sold (symbol_txns db' p y) \<le> bought (symbol_txns db' p y)" for p y
  proof (cases "(p, y) = (pid, ?s)")
    case False
    then show ?thesis using other never_oversold_all [OF no] by (simp add: db')
  next
    case True
    have sums: "sold (symbol_txns db' p y) = sold (symbol_txns db pid ?s) + sold [txn]"
      "bought (symbol_txns db' p y) = bought (symbol_txns db pid ?s) + bought [txn]"
      using bought_sold_mset [OF mine] True by (simp_all add: db')
    show ?thesis
    proof (cases "c_type body = SELL")
      case False
      then have "sold [txn] = 0" "0 \<le> bought [txn]"
        using bought_sold_nonneg [of "[txn]"] row by (auto simp: sold_def ty)
      then show ?thesis using sums never_oversold_all [OF no, of pid ?s] by simp
    next
      case sell: True
      obtain r where "compute_sell_cgt db pid body filer = Inr (pv_cgt_pkr pv, r)"
        using preview_sell_ok [OF c(1,2) sell] by blast
      from sell_within_open [OF ok no body(2) this]
      have "dval (c_quantity body) \<le> bought (symbol_txns db pid ?s) - sold (symbol_txns db pid ?s)" .
      moreover have "sold [txn] = dval (c_quantity body)" "bought [txn] = 0"
        using sell ty qty by (simp_all add: sold_def bought_def is_acquisition_def)
      ultimately show ?thesis using sums by simp
    qed
  qed
  then have "never_oversold db'" by (simp add: never_oversold_def)
  moreover have "snapshots_current db'"
    unfolding snapshots_current_def
  proof (intro allI)
    fix p y
    show "holding_qty db' p y = net_position (symbol_txns db' p y)"
    proof (cases "(p, y) = (pid, ?s)")
      case True
      have "\<forall>t\<in>set (symbol_txns ?db pid ?s). row_ok t"
        using ok row by (auto simp: symbol_txns_def ledger_ok_def)
      from refresh_mine [OF this] fits True show ?thesis by (simp add: c(4))
    next
      case False
      have "holding_qty ?db p y = holding_qty db p y" by (simp add: holding_qty_def)
      with False cur other show ?thesis
        unfolding db'(1) c(4) by (auto simp: refresh_other snapshots_current_def)
    qed
  qed
  ultimately show ?thesis by (simp add: ledger_inv_def)
qed

interpretation ledger: invariant_system ledger_init ledger_step ledger_inv
  by unfold_locales (auto simp: ledger_init_inv elim!: ledger_step.cases intro: create_ledger_inv parse_create_pos)

section \<open>Properties\<close>

text \<open>A ledger with one symbol, a purchase, and a sale dated before the purchase.\<close>

definition ex_ledger :: ledger_db where
  "ex_ledger = \<lparr>securities = [''OGDC''], transactions = [], holdings = [],
     tax_rules = [\<lparr>rule_type = ''cgt'', rule_bracket = ex_bracket\<rparr>]\<rparr>"

definition ex_buy :: TransactionCreate where
  "ex_buy = \<lparr>c_symbol = ''OGDC'', c_type = BUY, c_date = 738100, c_quantity = Dec 100, c_price = Dec 90,
     c_brokerage_pkr = Dec 15, c_fed_pkr = Dec 2, c_cvt_pkr = Dec 1, c_cgt_pkr = Dec 0, c_notes = None\<rparr>"

definition ex_sell :: TransactionCreate where
  "ex_sell = ex_buy\<lparr>c_type := SELL, c_date := 738090, c_price := Dec 80\<rparr>"

definition ex_ledger1 :: ledger_db where
  "ex_ledger1 = (case create ex_ledger ''p'' ex_buy True ''t1'' 1 of
     Inr (db, t, pv) \<Rightarrow> db | Inl e \<Rightarrow> ex_ledger)"

definition ex_ledger2 :: ledger_db where
  "ex_ledger2 = (case create ex_ledger1 ''p'' ex_sell True ''t2'' 2 of
     Inr (db, t, pv) \<Rightarrow> db | Inl e \<Rightarrow> ex_ledger1)"

lemma create_okE:
  assumes "is_ok (create db pid body filer i n)"
  obtains t pv where "create db pid body filer i n =
     Inr ((case create db pid body filer i n of Inr (db', t, pv) \<Rightarrow> db' | Inl e \<Rightarrow> db), t, pv)"
  using assms by (cases "create db pid body filer i n") auto

definition ex_row :: "TransactionCreate \<Rightarrow> string \<Rightarrow> int \<Rightarrow> dec \<Rightarrow> Transaction" where
  "ex_row b i n cgt = \<lparr>t_id = i, t_portfolio_id = ''p'', t_symbol = c_symbol b, t_type = c_type b,
     t_date = c_date b, t_quantity = c_quantity b, t_price = c_price b, t_brokerage_pkr = c_brokerage_pkr b,
     t_fed_pkr = c_fed_pkr b, t_cvt_pkr = c_cvt_pkr b, t_cgt_pkr = cgt, t_notes = c_notes b, t_created_at = n\<rparr>"

lemma ex_create1:
  obtains t pv x where "create ex_ledger ''p'' ex_buy True ''t1'' 1 = Inr (ex_ledger1, t, pv)"
    "transactions ex_ledger1 = [ex_row ex_buy ''t1'' 1 x]"
proof -
  have "is_ok (create ex_ledger ''p'' ex_buy True ''t1'' 1)" by code_simp
  then obtain t pv where c: "create ex_ledger ''p'' ex_buy True ''t1'' 1 = Inr (ex_ledger1, t, pv)"
    by (elim create_okE) (auto simp: ex_ledger1_def)
  have "transactions ex_ledger1 = transactions ex_ledger @ [t]" by (subst create_Inr(4) [OF c]) simp
  moreover have "t = ex_row ex_buy ''t1'' 1 (pv_cgt_pkr pv)" by (subst create_Inr(3) [OF c]) (simp add: ex_row_def)
  ultimately show thesis using that [OF c, of "pv_cgt_pkr pv"] by (simp add: ex_ledger_def)
qed

lemma ex_create2:
  obtains t pv x y where "create ex_ledger1 ''p'' ex_sell True ''t2'' 2 = Inr (ex_ledger2, t, pv)"
    "transactions ex_ledger2 = [ex_row ex_buy ''t1'' 1 x, ex_row ex_sell ''t2'' 2 y]"
proof -
  have "is_ok (create ex_ledger1 ''p'' ex_sell True ''t2'' 2)" by code_simp
  then obtain t pv where c: "create ex_ledger1 ''p'' ex_sell True ''t2'' 2 = Inr (ex_ledger2, t, pv)"
    by (elim create_okE) (auto simp: ex_ledger2_def)
  obtain x where "transactions ex_ledger1 = [ex_row ex_buy ''t1'' 1 x]" by (rule ex_create1)
  moreover have "transactions ex_ledger2 = transactions ex_ledger1 @ [t]" by (subst create_Inr(4) [OF c]) simp
  moreover have "t = ex_row ex_sell ''t2'' 2 (pv_cgt_pkr pv)" by (subst create_Inr(3) [OF c]) (simp add: ex_row_def)
  ultimately show thesis using that [OF c, of x "pv_cgt_pkr pv"] by simp
qed

lemma ex_rows:
  "\<exists>x. symbol_txns ex_ledger1 ''p'' ''OGDC'' = [ex_row ex_buy ''t1'' 1 x]"
  "\<exists>x y. symbol_txns ex_ledger2 ''p'' ''OGDC'' = [ex_row ex_sell ''t2'' 2 y, ex_row ex_buy ''t1'' 1 x]"
proof -
  obtain x where "transactions ex_ledger1 = [ex_row ex_buy ''t1'' 1 x]" by (rule ex_create1)
  then show "\<exists>x. symbol_txns ex_ledger1 ''p'' ''OGDC'' = [ex_row ex_buy ''t1'' 1 x]"
    by (auto simp: symbol_txns_def ex_row_def ex_buy_def)
  obtain x y where "transactions ex_ledger2 = [ex_row ex_buy ''t1'' 1 x, ex_row ex_sell ''t2'' 2 y]"
    by (rule ex_create2)
  then show "\<exists>x y. symbol_txns ex_ledger2 ''p'' ''OGDC'' = [ex_row ex_sell ''t2'' 2 y, ex_row ex_buy ''t1'' 1 x]"
    by (auto simp: symbol_txns_def ex_row_def ex_buy_def ex_sell_def)
qed

lemma ex_bought_sold:
  "bought (symbol_txns ex_ledger1 ''p'' ''OGDC'') = 100"
  "bought (symbol_txns ex_ledger2 ''p'' ''OGDC'') = 100" "sold (symbol_txns ex_ledger2 ''p'' ''OGDC'') = 100"
  "net_position (symbol_txns ex_ledger2 ''p'' ''OGDC'') = 100"
  using ex_rows by (auto simp: bought_def sold_def net_position_def position_step_def is_acquisition_def
      ex_row_def ex_buy_def ex_sell_def)

lemma ex_steps: "ledger_step ex_ledger ex_ledger1" "ledger_step ex_ledger1 ex_ledger2"
proof -
  have sy: "c_symbol ex_buy = ''OGDC''" "c_symbol ex_sell = ''OGDC''" by (simp_all add: ex_sell_def ex_buy_def)
  have "valid_create ex_buy" "valid_create ex_sell" "upper_symbol ''OGDC'' = ''OGDC''" by code_simp+
  then have v: "parse_create ex_buy = Some ex_buy" "parse_create ex_sell = Some ex_sell"
    "stored_qty (c_quantity ex_buy)" "stored_qty (c_quantity ex_sell)"
    by (simp_all add: parse_create_def sy) (simp_all add: ex_sell_def ex_buy_def, code_simp+)
  obtain t pv where "create ex_ledger ''p'' ex_buy True ''t1'' 1 = Inr (ex_ledger1, t, pv)" by (rule ex_create1)
  with v show "ledger_step ex_ledger ex_ledger1" by (elim step_create [OF v(1), rotated 1]) (simp_all add: sy ex_bought_sold)
  obtain t pv where "create ex_ledger1 ''p'' ex_sell True ''t2'' 2 = Inr (ex_ledger2, t, pv)" by (rule ex_create2)
  with v show "ledger_step ex_ledger1 ex_ledger2" by (elim step_create [OF v(2), rotated 1]) (simp_all add: sy ex_bought_sold)
qed

lemma ex_reach: "reach ledger_init ledger_step ex_ledger2"
proof -
  have "ledger_init ex_ledger" by (simp add: ledger_init_def ex_ledger_def)
  then show ?thesis using ex_steps by (meson reach.intros)
qed

text \<open>
  C4: in every ledger that a sequence of accepted transactions can produce, no portfolio has
  sold more of a symbol than it acquired, and every snapshot row holds the net position of the
  symbol's date-ordered history.
\<close>

theorem reachable_ledger_safe:
  assumes "reach ledger_init ledger_step db"
  shows "sold (symbol_txns db pid symb) \<le> bought (symbol_txns db pid symb)
    \<and> holding_qty db pid symb = net_position (symbol_txns db pid symb)"
  using ledger.reach_inv [OF assms] never_oversold_all
  by (auto simp: ledger_inv_def snapshots_current_def)

theorem reachable_ledger_safe_witness:
  "sold (symbol_txns ex_ledger2 ''p'' ''OGDC'') \<le> bought (symbol_txns ex_ledger2 ''p'' ''OGDC'')
   \<and> holding_qty ex_ledger2 ''p'' ''OGDC'' = net_position (symbol_txns ex_ledger2 ''p'' ''OGDC'')"
  by (rule reachable_ledger_safe [OF ex_reach])

text \<open>
  A sale may be recorded with a date before the purchases it is matched against. The preview
  accepts it, since the lots are not filtered by date, but the snapshot walks the rows by date and
  drops the part of a sale that finds no earlier lot: a ledger is reachable whose purchases and
  sales cancel while its snapshot still shows the 100 shares.
\<close>

lemma backdated_sale_not_deducted:
  "reach ledger_init ledger_step ex_ledger2
   \<and> bought (symbol_txns ex_ledger2 ''p'' ''OGDC'') = 100 \<and> sold (symbol_txns ex_ledger2 ''p'' ''OGDC'') = 100
   \<and> holding_qty ex_ledger2 ''p'' ''OGDC'' = 100"
proof -
  have "snapshots_current ex_ledger2" using ledger.reach_inv [OF ex_reach] by (simp add: ledger_inv_def)
  then show ?thesis using ex_reach ex_bought_sold by (simp add: snapshots_current_def)
qed

lemma dec28_paisa:
  assumes "places 2 q" "\<bar>q\<bar> < 10 ^ 26"
  shows "dec28 q = q"
  using assms by (intro dec28_places [of 2]) auto

text \<open>
  For charges in whole paisas, the previewed net cash impact is the signed gross value (paid
  for a purchase, received for a sale or dividend, none for a bonus or rights issue) less the
  previewed total charges, exactly.
\<close>

lemma preview_cash_identity:
  assumes pv: "preview db pid body filer = Inr pv"
    and paisa: "places 2 (dval (c_brokerage_pkr body))" "places 2 (dval (c_fed_pkr body))"
      "places 2 (dval (c_cvt_pkr body))"
    and range: "\<bar>dval (c_brokerage_pkr body)\<bar> < 10 ^ 24" "\<bar>dval (c_fed_pkr body)\<bar> < 10 ^ 24"
      "\<bar>dval (c_cvt_pkr body)\<bar> < 10 ^ 24" "\<bar>dval (pv_gross_value_pkr pv)\<bar> < 10 ^ 24" "\<bar>dval (pv_cgt_pkr pv)\<bar> < 10 ^ 24"
  shows "dval (pv_net_cash_impact_pkr pv) =
    (case c_type body of BUY \<Rightarrow> - dval (pv_gross_value_pkr pv) | SELL \<Rightarrow> dval (pv_gross_value_pkr pv)
       | DIVIDEND \<Rightarrow> dval (pv_gross_value_pkr pv) | _ \<Rightarrow> 0) - dval (pv_total_charges_pkr pv)"
proof -
  let ?b = "dval (c_brokerage_pkr body)" and ?f = "dval (c_fed_pkr body)" and ?c = "dval (c_cvt_pkr body)"
  let ?g = "dval (pv_gross_value_pkr pv)" and ?x = "dval (pv_cgt_pkr pv)"
  from pv have fields: "pv_gross_value_pkr pv = quantize 2 (c_quantity body * c_price body)"
    "pv_total_charges_pkr pv = quantize 2 (c_brokerage_pkr body + c_fed_pkr body + c_cvt_pkr body + pv_cgt_pkr pv)"
    "pv_net_cash_impact_pkr pv = quantize 2 (net_cash body (pv_gross_value_pkr pv) (pv_cgt_pkr pv))"
    "c_type body \<noteq> SELL \<Longrightarrow> pv_cgt_pkr pv = Dec 0"
    by (auto simp: preview_def bind_r_Inr_iff Let_def)
  have gp: "places 2 ?g" by (simp add: fields(1))
  have xp: "places 2 ?x"
  proof (cases "c_type body = SELL")
    case True
    with pv show ?thesis
      by (auto simp: preview_def bind_r_Inr_iff Let_def compute_sell_cgt_def quantize_paisa_def
          split: sum.splits tax_error.splits elim!: match_fifo_Inr)
  qed (simp add: fields(4))
  note pl = paisa gp xp places_closed [where n = 2] places_uminus
  have m: "(10 :: rat) ^ 26 = 100 * 10 ^ 24" "(0 :: rat) < 10 ^ 24" by simp_all
  have r: "\<bar>?b + ?f\<bar> < 10 ^ 26" "\<bar>?b + ?f + ?c\<bar> < 10 ^ 26" "\<bar>?b + ?f + ?c + ?x\<bar> < 10 ^ 26"
    "\<bar>?g + ?b\<bar> < 10 ^ 26" "\<bar>?g + ?b + ?f\<bar> < 10 ^ 26" "\<bar>?g + ?b + ?f + ?c\<bar> < 10 ^ 26"
    "\<bar>?g - ?b\<bar> < 10 ^ 26" "\<bar>?g - ?b - ?f\<bar> < 10 ^ 26" "\<bar>?g - ?b - ?f - ?c\<bar> < 10 ^ 26"
    "\<bar>?g - ?b - ?f - ?c - ?x\<bar> < 10 ^ 26"
    "\<bar>- ?g - ?b - ?f - ?c\<bar> < 10 ^ 26" "\<bar>- ?b - ?f - ?c\<bar> < 10 ^ 26"
    using range m by linarith+
  have e: "dec28 (?b + ?f) = ?b + ?f" "dec28 (?b + ?f + ?c) = ?b + ?f + ?c"
    "dec28 (?b + ?f + ?c + ?x) = ?b + ?f + ?c + ?x" "dec28 (?g + ?b) = ?g + ?b"
    "dec28 (?g + ?b + ?f) = ?g + ?b + ?f" "dec28 (?g + ?b + ?f + ?c) = ?g + ?b + ?f + ?c"
    "dec28 (?g - ?b) = ?g - ?b" "dec28 (?g - ?b - ?f) = ?g - ?b - ?f"
    "dec28 (?g - ?b - ?f - ?c) = ?g - ?b - ?f - ?c"
    "dec28 (?g - ?b - ?f - ?c - ?x) = ?g - ?b - ?f - ?c - ?x"
    "dec28 (- ?g - ?b - ?f - ?c) = - ?g - ?b - ?f - ?c" "dec28 (- ?b - ?f - ?c) = - ?b - ?f - ?c"
    by (rule dec28_paisa; (intro pl | rule r))+
  have tot: "dval (pv_total_charges_pkr pv) = ?b + ?f + ?c + ?x"
    unfolding fields(2) by (simp add: e qz_fixed pl)
  show ?thesis unfolding tot fields(3) net_cash_def using fields(4)
    by (cases "c_type body") (simp_all add: e qz_fixed pl)
qed

text \<open>
  A sale of more than is held, in a ledger with a bracket for every holding period, is refused
  with the exact shortfall and nothing is saved.
\<close>

lemma oversell_refused:
  assumes inv: "ledger_inv db" and known: "c_symbol body \<in> set (securities db)"
    and sell: "c_type body = SELL" and body: "Dec 0 < c_quantity body" "stored_qty (c_quantity body)"
    and short: "bought (symbol_txns db pid (c_symbol body)) - sold (symbol_txns db pid (c_symbol body))
        < dval (c_quantity body)"
    and cover: "\<forall>t\<in>set (filter is_acquisition (symbol_txns db pid (c_symbol body))).
        is_ok (find_bracket (load_cgt_brackets db) (c_date body) filer (c_date body - t_date t))"
  shows "create db pid body filer new_id now = Inl (CannotSave [InsufficientLotsError (c_quantity body)
      (Dec (dval (c_quantity body) - (bought (symbol_txns db pid (c_symbol body)) - sold (symbol_txns db pid (c_symbol body)))))])"
proof -
  let ?txns = "symbol_txns db pid (c_symbol body)"
  let ?lots = "open_lots (filter is_acquisition ?txns)
      (dec_sum (map t_quantity (filter (\<lambda>t. t_type t = SELL) ?txns)))"
  let ?sale = "\<lparr>sell_quantity = c_quantity body, sell_price = c_price body, sell_date = c_date body,
      sell_filer = filer, sell_brackets = load_cgt_brackets db\<rparr>"
  have ok: "ledger_ok db" "never_oversold db" using inv by (simp_all add: ledger_inv_def)
  note lots = ledger_open_lots [OF ok, of pid "c_symbol body"]
  have "match_fifo ?lots ?sale = Inl (InsufficientLotsError (sell_quantity ?sale)
      (Dec (dval (sell_quantity ?sale) - capacity (map lot_key ?lots))))"
    by (rule match_fifo_short [OF lots(1)])
       (use body cover lots(3) short in \<open>auto simp: lots(2)\<close>)
  then have "compute_sell_cgt db pid body filer = Inl (InsufficientLotsError (c_quantity body)
      (Dec (dval (c_quantity body) - (bought ?txns - sold ?txns))))"
    by (simp add: compute_sell_cgt_def Let_def lots(2))
  then show ?thesis using known sell by (simp add: create_def preview_def validate_symbol_def Let_def)
qed

end
