(* ===== verification/Auth.thy ===== *)
theory Auth
  imports Py_Base Py_Str
begin

text \<open>
  Accounts and sessions: \<^verbatim>\<open>psx_api/models/users.py\<close>, \<^verbatim>\<open>services/auth_service.py\<close>,
  \<^verbatim>\<open>services/rate_limiter.py\<close>, \<^verbatim>\<open>schemas/auth.py\<close> and \<^verbatim>\<open>routers/auth.py\<close>. The two tables are
  lists of rows, Redis is a map from keys to values with an expiry time, and the mails that were
  sent are a list. Times are seconds. What the code calls but does not contain (the token hash,
  argon2, pyotp) is the record \<open>auth_env\<close>; random tokens, secrets and identifiers are arguments.
\<close>

section \<open>Tables and stores\<close>

record User =
  u_id :: string
  u_email :: string
  u_email_verified_at :: "int option"
  u_password_hash :: "string option"
  u_full_name :: "string option"
  u_phone :: "string option"
  u_cnic_last4 :: "string option"
  u_is_filer :: bool
  u_shariah_mode :: bool
  u_risk_archetype :: "string option"
  u_risk_tolerance_score :: "int option"
  u_time_horizon_score :: "int option"
  u_knowledge_score :: "int option"
  u_risk_profile_completed_at :: "int option"
  u_share_anonymously :: bool
  u_date_of_birth :: "date option"
  u_totp_secret :: "string option"
  u_totp_enabled :: bool
  u_notification_prefs :: "(string \<times> bool) list"
  u_created_at :: int

text \<open>A row as \<^verbatim>\<open>User(email=..., password_hash=..., full_name=...)\<close> inserts it, with the server defaults.\<close>

definition new_user :: "string \<Rightarrow> string \<Rightarrow> string \<Rightarrow> string option \<Rightarrow> int \<Rightarrow> User" where
  "new_user uid email pw full_name now =
     \<lparr>u_id = uid, u_email = email, u_email_verified_at = None, u_password_hash = Some pw,
      u_full_name = full_name, u_phone = None, u_cnic_last4 = None, u_is_filer = False,
      u_shariah_mode = False, u_risk_archetype = None, u_risk_tolerance_score = None,
      u_time_horizon_score = None, u_knowledge_score = None, u_risk_profile_completed_at = None,
      u_share_anonymously = False, u_date_of_birth = None, u_totp_secret = None, u_totp_enabled = False,
      u_notification_prefs =
        [(''pump_dump'', True), (''kmi_delisting'', True), (''goal_milestone'', True),
         (''payment_events'', True), (''weekly_summary'', True), (''system'', True)],
      u_created_at = now\<rparr>"

record UserSession =
  s_id :: string
  s_user_id :: string
  s_token_hash :: string
  s_expires_at :: int
  s_created_at :: int
  s_user_agent :: "string option"
  s_ip_address :: "string option"

record auth_db =
  users :: "User list"
  sessions :: "UserSession list"

text \<open>
  A Redis value is a string or a counter, with the time its key expires. \<^verbatim>\<open>GET\<close> does not see an
  expired key, \<^verbatim>\<open>SETEX\<close> replaces it, \<^verbatim>\<open>SET NX EX\<close> sets it only when absent, \<^verbatim>\<open>INCR\<close> counts from 0 and
  keeps the expiry, \<^verbatim>\<open>EXPIRE\<close> sets the expiry of an existing key.
\<close>

datatype redis_val = RStr string | RInt int

type_synonym redis = "string \<Rightarrow> (redis_val \<times> int option) option"

definition redis_get :: "int \<Rightarrow> string \<Rightarrow> redis \<Rightarrow> redis_val option" where
  "redis_get now k r =
     (case r k of None \<Rightarrow> None
      | Some (v, e) \<Rightarrow> (case e of None \<Rightarrow> Some v | Some t \<Rightarrow> if now < t then Some v else None))"

definition redis_setex :: "int \<Rightarrow> string \<Rightarrow> int \<Rightarrow> redis_val \<Rightarrow> redis \<Rightarrow> redis" where
  "redis_setex now k ttl v r = r(k \<mapsto> (v, Some (now + ttl)))"

definition redis_set_nx :: "int \<Rightarrow> string \<Rightarrow> int \<Rightarrow> redis_val \<Rightarrow> redis \<Rightarrow> bool \<times> redis" where
  "redis_set_nx now k ttl v r =
     (if redis_get now k r = None then (True, redis_setex now k ttl v r) else (False, r))"

definition redis_delete :: "string \<Rightarrow> redis \<Rightarrow> redis" where
  "redis_delete k r = r(k := None)"

definition redis_incr :: "int \<Rightarrow> string \<Rightarrow> redis \<Rightarrow> int \<times> redis" where
  "redis_incr now k r =
     (case redis_get now k r of
        Some (RInt n) \<Rightarrow> (n + 1, r(k \<mapsto> (RInt (n + 1), snd (the (r k)))))
      | _ \<Rightarrow> (1, r(k \<mapsto> (RInt 1, None))))"

definition redis_expire :: "int \<Rightarrow> string \<Rightarrow> int \<Rightarrow> redis \<Rightarrow> redis" where
  "redis_expire now k ttl r =
     (case redis_get now k r of None \<Rightarrow> r | Some v \<Rightarrow> r(k \<mapsto> (v, Some (now + ttl))))"

datatype email = VerificationEmail string string | PasswordResetEmail string string

record auth_state =
  adb :: auth_db
  redis :: redis
  outbox :: "email list"

text \<open>
  \<^verbatim>\<open>_sha256\<close>, argon2's \<^verbatim>\<open>PasswordHasher\<close> (\<^verbatim>\<open>hash\<close> with its random salt, \<^verbatim>\<open>verify\<close> with its two ways to
  fail, \<^verbatim>\<open>check_needs_rehash\<close>) and pyotp's \<^verbatim>\<open>TOTP(secret).verify(code, valid_window=1)\<close> at a time and
  \<^verbatim>\<open>provisioning_uri\<close>.
\<close>

datatype verify_result = Verified | VerifyMismatchError | InvalidHashError

record auth_env =
  sha256 :: "string \<Rightarrow> string"
  ph_hash :: "string \<Rightarrow> string \<Rightarrow> string"
  ph_verify :: "string \<Rightarrow> string \<Rightarrow> verify_result"
  ph_needs_rehash :: "string \<Rightarrow> bool"
  totp_verify :: "string \<Rightarrow> string \<Rightarrow> int \<Rightarrow> bool"
  totp_uri :: "string \<Rightarrow> string \<Rightarrow> string"

text \<open>\<^verbatim>\<open>AuthError(message, status_code)\<close>, and an argon2 error that no handler catches.\<close>

datatype auth_error = AuthError string int | UncaughtAuth

text \<open>The account rows an operation sees and changes: a lookup and an update in place.\<close>

definition find_user :: "(User \<Rightarrow> bool) \<Rightarrow> auth_state \<Rightarrow> User option" where
  "find_user P st = List.find P (users (adb st))"

definition save_user :: "User \<Rightarrow> auth_state \<Rightarrow> auth_state" where
  "save_user u st = st\<lparr>adb := (adb st)\<lparr>users := map (\<lambda>v. if u_id v = u_id u then u else v) (users (adb st))\<rparr>\<rparr>"

definition save_sessions :: "(UserSession list \<Rightarrow> UserSession list) \<Rightarrow> auth_state \<Rightarrow> auth_state" where
  "save_sessions f st = st\<lparr>adb := (adb st)\<lparr>sessions := f (sessions (adb st))\<rparr>\<rparr>"

definition with_redis :: "(redis \<Rightarrow> redis) \<Rightarrow> auth_state \<Rightarrow> auth_state" where
  "with_redis f st = st\<lparr>redis := f (redis st)\<rparr>"

definition send :: "email \<Rightarrow> auth_state \<Rightarrow> auth_state" where
  "send m st = st\<lparr>outbox := outbox st @ [m]\<rparr>"

definition VERIFY_TTL :: int where "VERIFY_TTL = 86400"
definition RESET_TTL :: int where "RESET_TTL = 3600"
definition SESSION_TTL :: int where "SESSION_TTL = 30 * 86400"

definition verify_key :: "string \<Rightarrow> string" where "verify_key h = ''email_verify:'' @ h"
definition cooldown_key :: "string \<Rightarrow> string" where "cooldown_key uid = ''email_verify_cooldown:'' @ uid"
definition reset_key :: "string \<Rightarrow> string" where "reset_key h = ''password_reset:'' @ h"
definition totp_key :: "string \<Rightarrow> string" where "totp_key uid = ''totp_pending:'' @ uid"
definition login_key :: "string \<Rightarrow> string" where "login_key ip = ''rate_limit:login:'' @ ip"

section \<open>AuthService\<close>

definition signup ::
  "auth_env \<Rightarrow> string \<Rightarrow> string \<Rightarrow> string option \<Rightarrow> string \<Rightarrow> string \<Rightarrow> string \<Rightarrow> int \<Rightarrow> auth_state
    \<Rightarrow> (auth_error + User) \<times> auth_state" where
  "signup env email password full_name new_id salt token now st =
     (if find_user (\<lambda>u. u_email u = py_lower email) st \<noteq> None
      then (Inl (AuthError ''An account with this email already exists.'' 409), st)
      else let user = new_user new_id (py_lower email) (ph_hash env salt password) full_name now;
               st = st\<lparr>adb := (adb st)\<lparr>users := users (adb st) @ [user]\<rparr>\<rparr>;
               st = with_redis (redis_setex now (verify_key (sha256 env token)) VERIFY_TTL (RStr (u_id user))) st
           in (Inr user, send (VerificationEmail email token) st))"

text \<open>A token's user in Redis: absent, expired and empty values are all falsy.\<close>

definition redis_user :: "int \<Rightarrow> string \<Rightarrow> auth_state \<Rightarrow> string option" where
  "redis_user now k st =
     (case redis_get now k (redis st) of Some (RStr uid) \<Rightarrow> (if uid = [] then None else Some uid) | _ \<Rightarrow> None)"

definition verify_email ::
  "auth_env \<Rightarrow> string \<Rightarrow> int \<Rightarrow> auth_state \<Rightarrow> (auth_error + User) \<times> auth_state" where
  "verify_email env token now st =
     (let k = verify_key (sha256 env token)
      in case redis_user now k st of
           None \<Rightarrow> (Inl (AuthError ''Invalid or expired verification link.'' 400), st)
         | Some uid \<Rightarrow>
             (case find_user (\<lambda>u. u_id u = uid) st of
                None \<Rightarrow> (Inl (AuthError ''User not found.'' 404), st)
              | Some user \<Rightarrow>
                  let user = user\<lparr>u_email_verified_at := Some now\<rparr>
                  in (Inr user, with_redis (redis_delete k) (save_user user st))))"

definition check_totp :: "auth_env \<Rightarrow> User \<Rightarrow> string option \<Rightarrow> int \<Rightarrow> auth_error + unit" where
  "check_totp env user totp_code now =
     (if u_totp_enabled user then
        (if totp_code \<in> {None, Some []} then Inl (AuthError ''TOTP code required.'' 401)
         else if u_totp_secret user \<in> {None, Some []}
           then Inl (AuthError ''TOTP is misconfigured for this account.'' 401)
         else if \<not> totp_verify env (the (u_totp_secret user)) (the totp_code) now
           then Inl (AuthError ''Invalid TOTP code.'' 401)
         else Inr ())
      else Inr ())"

definition login ::
  "auth_env \<Rightarrow> string \<Rightarrow> string \<Rightarrow> string option \<Rightarrow> string option \<Rightarrow> string option
    \<Rightarrow> string \<Rightarrow> string \<Rightarrow> string \<Rightarrow> int \<Rightarrow> auth_state \<Rightarrow> (auth_error + User \<times> string) \<times> auth_state" where
  "login env email password totp_code user_agent ip_address salt raw_token session_id now st =
     (case find_user (\<lambda>u. u_email u = py_lower email) st of
        None \<Rightarrow> (Inl (AuthError ''Invalid email or password.'' 401), st)
      | Some user \<Rightarrow>
          if u_password_hash user \<in> {None, Some []} then (Inl (AuthError ''Invalid email or password.'' 401), st)
          else
            let stored = the (u_password_hash user)
            in case ph_verify env stored password of
                 VerifyMismatchError \<Rightarrow> (Inl (AuthError ''Invalid email or password.'' 401), st)
               | InvalidHashError \<Rightarrow> (Inl UncaughtAuth, st)
               | Verified \<Rightarrow>
                   let user = (if ph_needs_rehash env stored
                               then user\<lparr>u_password_hash := Some (ph_hash env salt password)\<rparr> else user);
                       st = save_user user st
                   in case check_totp env user totp_code now of
                        Inl e \<Rightarrow> (Inl e, st)
                      | Inr _ \<Rightarrow>
                          (Inr (user, raw_token),
                           save_sessions (\<lambda>ss. ss @
                             [\<lparr>s_id = session_id, s_user_id = u_id user, s_token_hash = sha256 env raw_token,
                               s_expires_at = now + SESSION_TTL, s_created_at = now,
                               s_user_agent = user_agent, s_ip_address = ip_address\<rparr>]) st))"

definition get_session_user :: "auth_env \<Rightarrow> string \<Rightarrow> int \<Rightarrow> auth_state \<Rightarrow> User option" where
  "get_session_user env raw_token now st =
     (case List.find (\<lambda>s. s_token_hash s = sha256 env raw_token \<and> now < s_expires_at s) (sessions (adb st)) of
        None \<Rightarrow> None
      | Some s \<Rightarrow> find_user (\<lambda>u. u_id u = s_user_id s) st)"

definition logout :: "auth_env \<Rightarrow> string \<Rightarrow> auth_state \<Rightarrow> auth_state" where
  "logout env raw_token st =
     (case List.find (\<lambda>s. s_token_hash s = sha256 env raw_token) (sessions (adb st)) of
        None \<Rightarrow> st
      | Some s \<Rightarrow> save_sessions (filter (\<lambda>t. s_id t \<noteq> s_id s)) st)"

record session_info =
  si_id :: string
  si_user_agent :: "string option"
  si_ip_address :: "string option"
  si_created_at :: int
  si_expires_at :: int
  si_is_current :: bool

text \<open>\<^verbatim>\<open>_sha256(current_raw_token) if current_raw_token else None\<close>\<close>

definition current_hash :: "auth_env \<Rightarrow> string option \<Rightarrow> string option" where
  "current_hash env tok = (if tok \<in> {None, Some []} then None else Some (sha256 env (the tok)))"

definition list_sessions ::
  "auth_env \<Rightarrow> User \<Rightarrow> string option \<Rightarrow> int \<Rightarrow> auth_state \<Rightarrow> session_info list" where
  "list_sessions env user tok now st =
     map (\<lambda>s. \<lparr>si_id = s_id s, si_user_agent = s_user_agent s,
               si_ip_address = (if s_ip_address s \<in> {None, Some []} then None else s_ip_address s),
               si_created_at = s_created_at s, si_expires_at = s_expires_at s,
               si_is_current = (Some (s_token_hash s) = current_hash env tok)\<rparr>)
       (sort_key_desc s_created_at
         (filter (\<lambda>s. s_user_id s = u_id user \<and> now < s_expires_at s) (sessions (adb st))))"

definition revoke_session ::
  "auth_env \<Rightarrow> User \<Rightarrow> string \<Rightarrow> string option \<Rightarrow> auth_state \<Rightarrow> (bool \<times> bool) \<times> auth_state" where
  "revoke_session env user session_id tok st =
     (case List.find (\<lambda>s. s_id s = session_id) (sessions (adb st)) of
        None \<Rightarrow> ((False, False), st)
      | Some s \<Rightarrow>
          if s_user_id s \<noteq> u_id user then ((False, False), st)
          else ((True, Some (s_token_hash s) = current_hash env tok),
                save_sessions (filter (\<lambda>t. s_id t \<noteq> s_id s)) st))"

definition revoke_other_sessions ::
  "auth_env \<Rightarrow> User \<Rightarrow> string option \<Rightarrow> auth_state \<Rightarrow> nat \<times> auth_state" where
  "revoke_other_sessions env user tok st =
     (let keep = (\<lambda>s. s_user_id s \<noteq> u_id user \<or> Some (s_token_hash s) = current_hash env tok)
      in (length (filter (\<lambda>s. \<not> keep s) (sessions (adb st))), save_sessions (filter keep) st))"

definition resend_verification_email ::
  "auth_env \<Rightarrow> User \<Rightarrow> string \<Rightarrow> int \<Rightarrow> auth_state \<Rightarrow> (auth_error + unit) \<times> auth_state" where
  "resend_verification_email env user token now st =
     (if u_email_verified_at user \<noteq> None then (Inl (AuthError ''This email is already verified.'' 400), st)
      else let (acquired, r) = redis_set_nx now (cooldown_key (u_id user)) 300 (RStr ''1'') (redis st)
           in if \<not> acquired
              then (Inl (AuthError ''We just sent a verification email. Wait 5 minutes before requesting another.'' 429), st)
              else (Inr (),
                    send (VerificationEmail (u_email user) token)
                      (with_redis (redis_setex now (verify_key (sha256 env token)) VERIFY_TTL (RStr (u_id user)))
                        (st\<lparr>redis := r\<rparr>))))"

definition forgot_password :: "auth_env \<Rightarrow> string \<Rightarrow> string \<Rightarrow> int \<Rightarrow> auth_state \<Rightarrow> auth_state" where
  "forgot_password env email token now st =
     (case find_user (\<lambda>u. u_email u = py_lower email) st of
        None \<Rightarrow> st
      | Some user \<Rightarrow>
          send (PasswordResetEmail email token)
            (with_redis (redis_setex now (reset_key (sha256 env token)) RESET_TTL (RStr (u_id user))) st))"

definition reset_password ::
  "auth_env \<Rightarrow> string \<Rightarrow> string \<Rightarrow> string \<Rightarrow> int \<Rightarrow> auth_state \<Rightarrow> (auth_error + unit) \<times> auth_state" where
  "reset_password env token new_password salt now st =
     (let k = reset_key (sha256 env token)
      in case redis_user now k st of
           None \<Rightarrow> (Inl (AuthError ''Invalid or expired reset link.'' 400), st)
         | Some uid \<Rightarrow>
             (case find_user (\<lambda>u. u_id u = uid) st of
                None \<Rightarrow> (Inl (AuthError ''User not found.'' 404), st)
              | Some user \<Rightarrow>
                  let user = user\<lparr>u_password_hash := Some (ph_hash env salt new_password)\<rparr>;
                      st = with_redis (redis_delete k) (save_user user st)
                  in (Inr (), save_sessions (filter (\<lambda>s. s_user_id s \<noteq> u_id user)) st)))"

definition totp_setup ::
  "auth_env \<Rightarrow> User \<Rightarrow> string \<Rightarrow> int \<Rightarrow> auth_state \<Rightarrow> (string \<times> string) \<times> auth_state" where
  "totp_setup env user secret now st =
     ((secret, totp_uri env secret (u_email user)),
      with_redis (redis_setex now (totp_key (u_id user)) 600 (RStr secret)) st)"

definition totp_confirm ::
  "auth_env \<Rightarrow> User \<Rightarrow> string \<Rightarrow> int \<Rightarrow> auth_state \<Rightarrow> (auth_error + User) \<times> auth_state" where
  "totp_confirm env user totp_code now st =
     (case redis_user now (totp_key (u_id user)) st of
        None \<Rightarrow> (Inl (AuthError (''TOTP setup session expired '' @ em_dash @ '' start over.'') 400), st)
      | Some secret \<Rightarrow>
          if \<not> totp_verify env secret totp_code now then (Inl (AuthError ''Invalid TOTP code.'' 400), st)
          else let user = user\<lparr>u_totp_secret := Some secret, u_totp_enabled := True\<rparr>
               in (Inr user, with_redis (redis_delete (totp_key (u_id user))) (save_user user st)))"

definition totp_disable ::
  "auth_env \<Rightarrow> User \<Rightarrow> string \<Rightarrow> int \<Rightarrow> auth_state \<Rightarrow> (auth_error + User) \<times> auth_state" where
  "totp_disable env user totp_code now st =
     (if \<not> u_totp_enabled user \<or> u_totp_secret user \<in> {None, Some []}
      then (Inl (AuthError ''TOTP is not enabled.'' 400), st)
      else if \<not> totp_verify env (the (u_totp_secret user)) totp_code now
      then (Inl (AuthError ''Invalid TOTP code.'' 400), st)
      else let user = user\<lparr>u_totp_secret := None, u_totp_enabled := False\<rparr> in (Inr user, save_user user st))"

section \<open>LoginRateLimiter\<close>

definition MAX_ATTEMPTS :: int where "MAX_ATTEMPTS = 5"
definition WINDOW_SECONDS :: int where "WINDOW_SECONDS = 3600"

text \<open>The key only ever holds the counter that \<^verbatim>\<open>INCR\<close> keeps, so \<^verbatim>\<open>int(count_raw)\<close> is that number.\<close>

definition is_blocked :: "int \<Rightarrow> string \<Rightarrow> redis \<Rightarrow> bool" where
  "is_blocked now ip r =
     (case redis_get now (login_key ip) r of Some (RInt n) \<Rightarrow> MAX_ATTEMPTS \<le> n | _ \<Rightarrow> False)"

definition record_failure :: "int \<Rightarrow> string \<Rightarrow> redis \<Rightarrow> int \<times> redis" where
  "record_failure now ip r =
     (let (count, r) = redis_incr now (login_key ip) r
      in (count, if count = 1 then redis_expire now (login_key ip) WINDOW_SECONDS r else r))"

definition clear :: "string \<Rightarrow> redis \<Rightarrow> redis" where
  "clear ip r = redis_delete (login_key ip) r"

section \<open>Endpoints\<close>

text \<open>The constraints of the request schemas.\<close>

definition password_strength :: "string \<Rightarrow> bool" where
  "password_strength v \<longleftrightarrow>
     8 \<le> length v \<and> length v \<le> 128 \<and> list_ex is_digit v \<and> list_ex is_alpha v"

definition totp_pattern :: "string \<Rightarrow> bool" where
  "totp_pattern c \<longleftrightarrow> length c = 6 \<and> list_all is_digit c"

definition http_of_auth :: "auth_error \<Rightarrow> http_error" where
  "http_of_auth e = (case e of AuthError m s \<Rightarrow> HTTPException s m | UncaughtAuth \<Rightarrow> ServerError)"

text \<open>
  \<^verbatim>\<open>get_db\<close>: the session commits when the endpoint returns and rolls back when it raises. Redis and
  the mails are not part of the transaction.
\<close>

definition get_db :: "auth_state \<Rightarrow> ('e + 'a) \<times> auth_state \<Rightarrow> ('e + 'a) \<times> auth_state" where
  "get_db st0 p = (case p of (Inl e, st) \<Rightarrow> (Inl e, st\<lparr>adb := adb st0\<rparr>) | (Inr x, st) \<Rightarrow> (Inr x, st))"

definition raise_http :: "(auth_error + 'a) \<times> auth_state \<Rightarrow> (http_error + 'a) \<times> auth_state" where
  "raise_http p = (case p of (Inl e, st) \<Rightarrow> (Inl (http_of_auth e), st) | (Inr x, st) \<Rightarrow> (Inr x, st))"

definition get_current_user ::
  "auth_env \<Rightarrow> string option \<Rightarrow> int \<Rightarrow> auth_state \<Rightarrow> http_error + User" where
  "get_current_user env psx_session now st =
     (if psx_session \<in> {None, Some []} then Inl (HTTPException 401 ''Not authenticated'')
      else case get_session_user env (the psx_session) now st of
             None \<Rightarrow> Inl (HTTPException 401 ''Session expired'')
           | Some user \<Rightarrow> Inr user)"

definition signup_ep ::
  "auth_env \<Rightarrow> string \<Rightarrow> string \<Rightarrow> string option \<Rightarrow> string \<Rightarrow> string \<Rightarrow> string \<Rightarrow> int \<Rightarrow> auth_state
    \<Rightarrow> (http_error + string) \<times> auth_state" where
  "signup_ep env email password full_name new_id salt token now st =
     get_db st (case raise_http (signup env email password full_name new_id salt token now st) of
       (Inl e, st') \<Rightarrow> (Inl e, st') | (Inr u, st') \<Rightarrow> (Inr (u_id u), st'))"

definition verify_email_ep ::
  "auth_env \<Rightarrow> string \<Rightarrow> int \<Rightarrow> auth_state \<Rightarrow> (http_error + User) \<times> auth_state" where
  "verify_email_ep env token now st = get_db st (raise_http (verify_email env token now st))"

datatype cookie = KeepCookie | SetCookie string | ClearCookie

record LoginResponse =
  lr_user_id :: string
  lr_email :: string
  lr_full_name :: "string option"
  lr_email_verified :: bool
  lr_totp_enabled :: bool
  lr_shariah_mode :: bool

record login_request =
  l_email :: string
  l_password :: string
  l_totp_code :: "string option"
  l_client_host :: "string option"
  l_user_agent :: "string option"

definition client_ip :: "login_request \<Rightarrow> string" where
  "client_ip q = (case l_client_host q of Some h \<Rightarrow> h | None \<Rightarrow> ''unknown'')"

definition login_ep ::
  "auth_env \<Rightarrow> login_request \<Rightarrow> string \<Rightarrow> string \<Rightarrow> string \<Rightarrow> int \<Rightarrow> auth_state
    \<Rightarrow> (http_error + LoginResponse \<times> cookie) \<times> auth_state" where
  "login_ep env q salt raw_token session_id now st =
     (let ip = client_ip q
      in if is_blocked now ip (redis st)
         then (Inl (HTTPException 429 ''Too many failed login attempts. Try again in 1 hour.''), st)
         else get_db st
           (case login env (l_email q) (l_password q) (l_totp_code q) (l_user_agent q) (Some ip)
                   salt raw_token session_id now st of
              (Inl (AuthError m s), st') \<Rightarrow>
                (Inl (HTTPException s m), with_redis (snd \<circ> record_failure now ip) st')
            | (Inl UncaughtAuth, st') \<Rightarrow> (Inl ServerError, st')
            | (Inr (user, token), st') \<Rightarrow>
                (Inr (\<lparr>lr_user_id = u_id user, lr_email = u_email user, lr_full_name = u_full_name user,
                       lr_email_verified = (u_email_verified_at user \<noteq> None),
                       lr_totp_enabled = u_totp_enabled user, lr_shariah_mode = u_shariah_mode user\<rparr>,
                      SetCookie token),
                 with_redis (clear ip) st')))"

definition logout_ep :: "auth_env \<Rightarrow> string option \<Rightarrow> auth_state \<Rightarrow> cookie \<times> auth_state" where
  "logout_ep env psx_session st =
     (ClearCookie, if psx_session \<in> {None, Some []} then st else logout env (the psx_session) st)"

record UserResponse =
  ur_id :: string
  ur_email :: string
  ur_full_name :: "string option"
  ur_email_verified :: bool
  ur_is_filer :: bool
  ur_shariah_mode :: bool
  ur_totp_enabled :: bool
  ur_notification_prefs :: "(string \<times> bool) list"
  ur_created_at :: int

definition from_user :: "User \<Rightarrow> UserResponse" where
  "from_user u =
     \<lparr>ur_id = u_id u, ur_email = u_email u, ur_full_name = u_full_name u,
      ur_email_verified = (u_email_verified_at u \<noteq> None), ur_is_filer = u_is_filer u,
      ur_shariah_mode = u_shariah_mode u, ur_totp_enabled = u_totp_enabled u,
      ur_notification_prefs = u_notification_prefs u, ur_created_at = u_created_at u\<rparr>"

definition me_ep :: "auth_env \<Rightarrow> string option \<Rightarrow> int \<Rightarrow> auth_state \<Rightarrow> http_error + UserResponse" where
  "me_ep env psx_session now st = bind_r (get_current_user env psx_session now st) (\<lambda>u. Inr (from_user u))"

record UserSettingsUpdate =
  us_shariah_mode :: "bool option"
  us_is_filer :: "bool option"
  us_full_name :: "string option"
  us_share_anonymously :: "bool option"
  us_date_of_birth :: "string option"
  us_notification_prefs :: "(string \<times> bool) list option"

definition merge_prefs :: "(string \<times> bool) list \<Rightarrow> (string \<times> bool) list \<Rightarrow> (string \<times> bool) list" where
  "merge_prefs old new = foldl (\<lambda>m (k, v). upsert k (\<lambda>_. v) m) old new"

definition apply_settings :: "UserSettingsUpdate \<Rightarrow> User \<Rightarrow> http_error + User" where
  "apply_settings b u =
     (let u = (case us_shariah_mode b of None \<Rightarrow> u | Some x \<Rightarrow> u\<lparr>u_shariah_mode := x\<rparr>);
          u = (case us_is_filer b of None \<Rightarrow> u | Some x \<Rightarrow> u\<lparr>u_is_filer := x\<rparr>);
          u = (case us_full_name b of None \<Rightarrow> u | Some x \<Rightarrow> u\<lparr>u_full_name := Some x\<rparr>);
          u = (case us_share_anonymously b of None \<Rightarrow> u | Some x \<Rightarrow> u\<lparr>u_share_anonymously := x\<rparr>);
          u = (case us_notification_prefs b of None \<Rightarrow> u
               | Some p \<Rightarrow> u\<lparr>u_notification_prefs := merge_prefs (u_notification_prefs u) p\<rparr>)
      in case us_date_of_birth b of
           None \<Rightarrow> Inr u
         | Some d \<Rightarrow> (case date_fromisoformat d of
               None \<Rightarrow> Inl (HTTPException 400 ''date_of_birth must be YYYY-MM-DD.'')
             | Some x \<Rightarrow> Inr (u\<lparr>u_date_of_birth := Some x\<rparr>)))"

definition authed ::
  "auth_env \<Rightarrow> string option \<Rightarrow> int \<Rightarrow> auth_state \<Rightarrow> (User \<Rightarrow> (http_error + 'a) \<times> auth_state)
    \<Rightarrow> (http_error + 'a) \<times> auth_state" where
  "authed env psx_session now st f =
     (case get_current_user env psx_session now st of Inl e \<Rightarrow> (Inl e, st) | Inr u \<Rightarrow> get_db st (f u))"

definition update_me_ep ::
  "auth_env \<Rightarrow> UserSettingsUpdate \<Rightarrow> string option \<Rightarrow> int \<Rightarrow> auth_state
    \<Rightarrow> (http_error + UserResponse) \<times> auth_state" where
  "update_me_ep env body psx_session now st =
     authed env psx_session now st (\<lambda>u.
       case apply_settings body u of Inl e \<Rightarrow> (Inl e, st) | Inr u' \<Rightarrow> (Inr (from_user u'), save_user u' st))"

definition forgot_password_ep :: "auth_env \<Rightarrow> string \<Rightarrow> string \<Rightarrow> int \<Rightarrow> auth_state \<Rightarrow> auth_state" where
  "forgot_password_ep env email token now st = forgot_password env email token now st"

definition reset_password_ep ::
  "auth_env \<Rightarrow> string \<Rightarrow> string \<Rightarrow> string \<Rightarrow> int \<Rightarrow> auth_state \<Rightarrow> (http_error + unit) \<times> auth_state" where
  "reset_password_ep env token new_password salt now st =
     get_db st (raise_http (reset_password env token new_password salt now st))"

definition totp_setup_ep ::
  "auth_env \<Rightarrow> string \<Rightarrow> string option \<Rightarrow> int \<Rightarrow> auth_state \<Rightarrow> (http_error + string \<times> string) \<times> auth_state" where
  "totp_setup_ep env secret psx_session now st =
     authed env psx_session now st (\<lambda>u. map_prod Inr id (totp_setup env u secret now st))"

definition totp_confirm_ep ::
  "auth_env \<Rightarrow> string \<Rightarrow> string option \<Rightarrow> int \<Rightarrow> auth_state \<Rightarrow> (http_error + User) \<times> auth_state" where
  "totp_confirm_ep env totp_code psx_session now st =
     authed env psx_session now st (\<lambda>u. raise_http (totp_confirm env u totp_code now st))"

definition totp_disable_ep ::
  "auth_env \<Rightarrow> string \<Rightarrow> string option \<Rightarrow> int \<Rightarrow> auth_state \<Rightarrow> (http_error + User) \<times> auth_state" where
  "totp_disable_ep env totp_code psx_session now st =
     authed env psx_session now st (\<lambda>u. raise_http (totp_disable env u totp_code now st))"

definition list_sessions_ep ::
  "auth_env \<Rightarrow> string option \<Rightarrow> int \<Rightarrow> auth_state \<Rightarrow> http_error + session_info list" where
  "list_sessions_ep env psx_session now st =
     bind_r (get_current_user env psx_session now st) (\<lambda>u. Inr (list_sessions env u psx_session now st))"

definition revoke_session_ep ::
  "auth_env \<Rightarrow> string \<Rightarrow> string option \<Rightarrow> int \<Rightarrow> auth_state \<Rightarrow> (http_error + cookie) \<times> auth_state" where
  "revoke_session_ep env session_id psx_session now st =
     authed env psx_session now st (\<lambda>u.
       case revoke_session env u session_id psx_session st of
         ((revoked, was_current), st') \<Rightarrow>
           if \<not> revoked then (Inl (HTTPException 404 ''Session not found.''), st')
           else (Inr (if was_current then ClearCookie else KeepCookie), st'))"

definition revoke_other_sessions_ep ::
  "auth_env \<Rightarrow> string option \<Rightarrow> int \<Rightarrow> auth_state \<Rightarrow> (http_error + nat) \<times> auth_state" where
  "revoke_other_sessions_ep env psx_session now st =
     authed env psx_session now st (\<lambda>u. map_prod Inr id (revoke_other_sessions env u psx_session st))"

definition resend_verification_ep ::
  "auth_env \<Rightarrow> string \<Rightarrow> string option \<Rightarrow> int \<Rightarrow> auth_state \<Rightarrow> (http_error + unit) \<times> auth_state" where
  "resend_verification_ep env token psx_session now st =
     authed env psx_session now st (\<lambda>u. raise_http (resend_verification_email env u token now st))"

section \<open>The account tables stay consistent\<close>

text \<open>
  Ids, addresses, session ids and token hashes are unique (the tables' constraints), addresses are
  stored in lower case, a session belongs to an account, and an account with the second factor
  switched on has a secret.
\<close>

definition totp_ok :: "User \<Rightarrow> bool" where
  "totp_ok u \<longleftrightarrow> (u_totp_enabled u \<longrightarrow> u_totp_secret u \<notin> {None, Some []})"

definition auth_ok :: "auth_db \<Rightarrow> bool" where
  "auth_ok db \<longleftrightarrow>
     distinct (map u_id (users db)) \<and> distinct (map u_email (users db))
     \<and> (\<forall>u\<in>set (users db). py_lower (u_email u) = u_email u \<and> totp_ok u)
     \<and> distinct (map s_id (sessions db)) \<and> distinct (map s_token_hash (sessions db))
     \<and> (\<forall>s\<in>set (sessions db). s_user_id s \<in> u_id ` set (users db))"

lemma save_user_fields [simp]:
  "sessions (adb (save_user u st)) = sessions (adb st)"
  "map u_id (users (adb (save_user u st))) = map u_id (users (adb st))"
  "redis (save_user u st) = redis st"
  by (auto simp: save_user_def)

lemma save_sessions_fields [simp]:
  "users (adb (save_sessions f st)) = users (adb st)" "sessions (adb (save_sessions f st)) = f (sessions (adb st))"
  "redis (save_sessions f st) = redis st"
  by (simp_all add: save_sessions_def)

lemma with_redis_fields [simp]: "adb (with_redis f st) = adb st" "redis (with_redis f st) = f (redis st)"
  by (simp_all add: with_redis_def)

lemma send_fields [simp]: "adb (send m st) = adb st" "redis (send m st) = redis st"
  by (simp_all add: send_def)

lemma find_user_SomeD: "find_user P st = Some u \<Longrightarrow> u \<in> set (users (adb st)) \<and> P u"
  by (auto simp: find_user_def find_Some_iff)

lemma find_user_cong: "users (adb st) = users (adb st') \<Longrightarrow> find_user P st = find_user P st'"
  by (simp add: find_user_def)

lemma find_unique:
  assumes "distinct (map f xs)" "x \<in> set xs"
  shows "List.find (\<lambda>y. f y = f x) xs = Some x"
  using assms by (induction xs) auto

lemma save_user_ok:
  assumes ok: "auth_ok (adb st)" and v: "v \<in> set (users (adb st))"
    and same: "u_id u = u_id v" "u_email u = u_email v" "totp_ok u"
  shows "auth_ok (adb (save_user u st))"
proof -
  let ?us = "users (adb st)" and ?us' = "users (adb (save_user u st))"
  have uniq: "w = v" if "w \<in> set ?us" "u_id w = u_id v" for w
    using ok v that by (auto simp: auth_ok_def distinct_map dest: inj_onD)
  have emails: "map u_email ?us' = map u_email ?us"
    using uniq same by (auto simp: save_user_def)
  have "\<forall>w\<in>set ?us'. py_lower (u_email w) = u_email w \<and> totp_ok w"
    using ok v same by (auto simp: save_user_def auth_ok_def)
  moreover have ids: "map u_id ?us' = map u_id ?us" by simp
  then have "u_id ` set ?us' = u_id ` set ?us" by (metis set_map)
  ultimately show ?thesis using ok unfolding auth_ok_def emails ids by simp
qed

lemma filter_sessions_ok: "auth_ok (adb st) \<Longrightarrow> auth_ok (adb (save_sessions (filter P) st))"
  by (auto simp: auth_ok_def distinct_map_filter)

lemma add_session_ok:
  assumes "auth_ok (adb st)" "s_user_id x \<in> u_id ` set (users (adb st))"
    "s_id x \<notin> s_id ` set (sessions (adb st))" "s_token_hash x \<notin> s_token_hash ` set (sessions (adb st))"
  shows "auth_ok (adb (save_sessions (\<lambda>ss. ss @ [x]) st))"
  using assms by (auto simp: auth_ok_def)

lemma get_db_ok:
  assumes "auth_ok (adb st)" "\<And>x st'. p = (Inr x, st') \<Longrightarrow> auth_ok (adb st')"
  shows "auth_ok (adb (snd (get_db st p)))"
  using assms by (cases p; cases "fst p") (auto simp: get_db_def)

lemma get_current_user_InrD:
  assumes "get_current_user env c now st = Inr u"
  shows "u \<in> set (users (adb st))" "\<exists>tok. c = Some tok \<and> get_session_user env tok now st = Some u"
  using assms by (auto simp: get_current_user_def get_session_user_def dest: find_user_SomeD
      split: if_splits option.splits)

lemma authed_ok:
  assumes "auth_ok (adb st)" "\<And>u x st'. u \<in> set (users (adb st)) \<Longrightarrow> f u = (Inr x, st') \<Longrightarrow> auth_ok (adb st')"
  shows "auth_ok (adb (snd (authed env c now st f)))"
proof (cases "get_current_user env c now st")
  case (Inr u)
  with assms(2) get_current_user_InrD(1) [OF Inr] show ?thesis
    by (simp add: authed_def get_db_ok [OF assms(1)])
qed (use assms in \<open>simp add: authed_def\<close>)

lemma raise_http_Inr [simp]: "raise_http p = (Inr x, st) \<longleftrightarrow> p = (Inr x, st)"
  by (cases p; cases "fst p") (auto simp: raise_http_def)

text \<open>The operations of the service, one by one.\<close>

lemma signup_ok:
  assumes "auth_ok (adb st)" "new_id \<notin> u_id ` set (users (adb st))"
    "signup env email pw name new_id salt token now st = (Inr u, st')"
  shows "auth_ok (adb st')"
proof -
  have "py_lower email \<notin> u_email ` set (users (adb st))"
    using assms(3) by (auto simp: signup_def find_user_def find_None_iff split: if_splits)
  then show ?thesis using assms
    by (auto simp: signup_def Let_def auth_ok_def totp_ok_def new_user_def split: if_splits)
qed

lemma verify_email_ok:
  assumes "auth_ok (adb st)" "verify_email env token now st = (Inr u, st')"
  shows "auth_ok (adb st')"
proof -
  obtain v where v: "v \<in> set (users (adb st))" "adb st' = adb (save_user (v\<lparr>u_email_verified_at := Some now\<rparr>) st)"
    using assms(2) by (auto simp: verify_email_def Let_def dest: find_user_SomeD split: option.splits)
  show ?thesis unfolding v(2)
    by (rule save_user_ok [OF assms(1) v(1)]) (use assms(1) v(1) in \<open>auto simp: totp_ok_def auth_ok_def\<close>)
qed

lemma login_Inr:
  assumes "login env email pw code ua ip salt tok sid now st = (Inr (u, t), st')"
  obtains v where "find_user (\<lambda>u. u_email u = py_lower email) st = Some v"
    "ph_verify env (the (u_password_hash v)) pw = Verified" "u_password_hash v \<noteq> None"
    "u = (if ph_needs_rehash env (the (u_password_hash v)) then v\<lparr>u_password_hash := Some (ph_hash env salt pw)\<rparr> else v)"
    "check_totp env u code now = Inr ()" "t = tok"
    "st' = save_sessions (\<lambda>ss. ss @ [\<lparr>s_id = sid, s_user_id = u_id u, s_token_hash = sha256 env tok,
        s_expires_at = now + SESSION_TTL, s_created_at = now, s_user_agent = ua, s_ip_address = ip\<rparr>]) (save_user u st)"
proof (cases "find_user (\<lambda>u. u_email u = py_lower email) st")
  case (Some v)
  then show ?thesis using assms that [of v]
    by (cases "ph_verify env (the (u_password_hash v)) pw";
        cases "check_totp env (if ph_needs_rehash env (the (u_password_hash v)) then v\<lparr>u_password_hash := Some (ph_hash env salt pw)\<rparr> else v) code now")
       (auto simp: login_def Let_def split: if_splits)
qed (use assms in \<open>simp add: login_def\<close>)

lemma login_ok:
  assumes "auth_ok (adb st)" "sid \<notin> s_id ` set (sessions (adb st))"
    "sha256 env tok \<notin> s_token_hash ` set (sessions (adb st))"
    "login env email pw code ua ip salt tok sid now st = (Inr (u, t), st')"
  shows "auth_ok (adb st')"
proof -
  obtain v where v: "find_user (\<lambda>u. u_email u = py_lower email) st = Some v" "u_id u = u_id v" "u_email u = u_email v"
      "totp_ok u = totp_ok v"
    and st': "st' = save_sessions (\<lambda>ss. ss @ [\<lparr>s_id = sid, s_user_id = u_id u, s_token_hash = sha256 env tok,
        s_expires_at = now + SESSION_TTL, s_created_at = now, s_user_agent = ua, s_ip_address = ip\<rparr>]) (save_user u st)"
    by (rule login_Inr [OF assms(4)]) (auto simp: totp_ok_def split: if_splits)
  have mem: "v \<in> set (users (adb st))" using find_user_SomeD [OF v(1)] by simp
  then have "totp_ok v" using assms(1) by (simp add: auth_ok_def)
  then have saved: "auth_ok (adb (save_user u st))" by (intro save_user_ok [OF assms(1) mem]) (simp_all add: v)
  have "u_id ` set (users (adb (save_user u st))) = u_id ` set (users (adb st))"
    by (metis save_user_fields(2) set_map)
  then have "u_id u \<in> u_id ` set (users (adb (save_user u st)))" using mem v(2) by simp
  then show ?thesis unfolding st' using assms(2,3) by (intro add_session_ok [OF saved]) simp_all
qed

lemma reset_password_Inr:
  assumes "reset_password env token pw salt now st = (Inr x, st')"
  obtains v where "redis_user now (reset_key (sha256 env token)) st = Some (u_id v)"
    "find_user (\<lambda>u. u_id u = u_id v) st = Some v"
    "st' = save_sessions (filter (\<lambda>s. s_user_id s \<noteq> u_id v))
       (with_redis (redis_delete (reset_key (sha256 env token)))
         (save_user (v\<lparr>u_password_hash := Some (ph_hash env salt pw)\<rparr>) st))"
proof (cases "redis_user now (reset_key (sha256 env token)) st")
  case (Some uid)
  with assms obtain v where v: "find_user (\<lambda>u. u_id u = uid) st = Some v"
    by (auto simp: reset_password_def split: option.splits)
  then have "u_id v = uid" using find_user_SomeD [OF v] by simp
  with assms Some v that [of v] show ?thesis by (simp add: reset_password_def Let_def)
qed (use assms in \<open>simp add: reset_password_def\<close>)

lemma reset_password_ok:
  assumes "auth_ok (adb st)" "reset_password env token pw salt now st = (Inr x, st')"
  shows "auth_ok (adb st')"
proof -
  obtain v where v: "find_user (\<lambda>u. u_id u = u_id v) st = Some v"
    and st': "st' = save_sessions (filter (\<lambda>s. s_user_id s \<noteq> u_id v))
       (with_redis (redis_delete (reset_key (sha256 env token)))
         (save_user (v\<lparr>u_password_hash := Some (ph_hash env salt pw)\<rparr>) st))"
    by (rule reset_password_Inr [OF assms(2)])
  have mem: "v \<in> set (users (adb st))" using find_user_SomeD [OF v(1)] by simp
  then have "auth_ok (adb (save_user (v\<lparr>u_password_hash := Some (ph_hash env salt pw)\<rparr>) st))"
    using assms(1) by (intro save_user_ok [OF assms(1) mem]) (auto simp: totp_ok_def auth_ok_def)
  then show ?thesis unfolding st' by (intro filter_sessions_ok) simp
qed

lemma totp_confirm_ok:
  assumes "auth_ok (adb st)" "v \<in> set (users (adb st))" "totp_confirm env v code now st = (Inr u, st')"
  shows "auth_ok (adb st')"
proof -
  obtain secret where s: "secret \<noteq> []" "adb st' = adb (save_user (v\<lparr>u_totp_secret := Some secret, u_totp_enabled := True\<rparr>) st)"
    using assms(3) by (auto simp: totp_confirm_def redis_user_def Let_def split: option.splits redis_val.splits if_splits)
  show ?thesis unfolding s(2) by (rule save_user_ok [OF assms(1,2)]) (simp_all add: totp_ok_def s(1))
qed

lemma totp_disable_ok:
  assumes "auth_ok (adb st)" "v \<in> set (users (adb st))" "totp_disable env v code now st = (Inr u, st')"
  shows "auth_ok (adb st')"
proof -
  have s: "st' = save_user (v\<lparr>u_totp_secret := None, u_totp_enabled := False\<rparr>) st"
    using assms(3) by (auto simp: totp_disable_def Let_def split: if_splits)
  show ?thesis unfolding s by (rule save_user_ok [OF assms(1,2)]) (simp_all add: totp_ok_def)
qed

lemma apply_settings_keeps:
  assumes "apply_settings b u = Inr u'"
  shows "u_id u' = u_id u" "u_email u' = u_email u" "totp_ok u' = totp_ok u"
proof -
  define K where "K v = (u_id v, u_email v, totp_ok v)" for v
  have keep: "K (case a of None \<Rightarrow> v | Some x \<Rightarrow> f x) = K v" if "\<And>x. K (f x) = K v" for a v and f :: "'b \<Rightarrow> User"
    using that by (cases a) simp_all
  have upd: "K (v\<lparr>u_shariah_mode := m\<rparr>) = K v" "K (v\<lparr>u_is_filer := m\<rparr>) = K v" "K (v\<lparr>u_full_name := n\<rparr>) = K v"
    "K (v\<lparr>u_share_anonymously := m\<rparr>) = K v" "K (v\<lparr>u_notification_prefs := ps\<rparr>) = K v" "K (v\<lparr>u_date_of_birth := d\<rparr>) = K v"
    for v m n ps d by (simp_all add: K_def totp_ok_def)
  have "K u' = K u"
    using assms unfolding apply_settings_def Let_def
    by (cases "us_date_of_birth b"; cases "date_fromisoformat (the (us_date_of_birth b))") (auto simp only: upd keep option.case sum.inject sum.distinct option.sel)
  then show "u_id u' = u_id u" "u_email u' = u_email u" "totp_ok u' = totp_ok u" by (simp_all add: K_def)
qed

text \<open>
  The requests a client can send, in any order. The identifiers and tokens the server draws are
  new: the tables' unique constraints refuse a row that repeats one.
\<close>

inductive auth_step :: "auth_env \<Rightarrow> auth_state \<Rightarrow> auth_state \<Rightarrow> bool" for env where
  "new_id \<notin> u_id ` set (users (adb st)) \<Longrightarrow>
     auth_step env st (snd (signup_ep env email pw name new_id salt token now st))"
| "auth_step env st (snd (verify_email_ep env token now st))"
| "sid \<notin> s_id ` set (sessions (adb st)) \<Longrightarrow> sha256 env tok \<notin> s_token_hash ` set (sessions (adb st)) \<Longrightarrow>
     auth_step env st (snd (login_ep env q salt tok sid now st))"
| "auth_step env st (snd (logout_ep env c st))"
| "auth_step env st (snd (update_me_ep env body c now st))"
| "auth_step env st (forgot_password_ep env email token now st)"
| "auth_step env st (snd (reset_password_ep env token pw salt now st))"
| "auth_step env st (snd (totp_setup_ep env secret c now st))"
| "auth_step env st (snd (totp_confirm_ep env code c now st))"
| "auth_step env st (snd (totp_disable_ep env code c now st))"
| "auth_step env st (snd (revoke_session_ep env sid c now st))"
| "auth_step env st (snd (revoke_other_sessions_ep env c now st))"
| "auth_step env st (snd (resend_verification_ep env token c now st))"

definition auth_init :: "auth_state \<Rightarrow> bool" where
  "auth_init st \<longleftrightarrow> users (adb st) = [] \<and> sessions (adb st) = []"

lemma signup_ep_ok:
  assumes "auth_ok (adb st)" "new_id \<notin> u_id ` set (users (adb st))"
  shows "auth_ok (adb (snd (signup_ep env email pw name new_id salt token now st)))"
  unfolding signup_ep_def
proof (rule get_db_ok [OF assms(1)], goal_cases)
  case (1 x st')
  then obtain u where "signup env email pw name new_id salt token now st = (Inr u, st')"
    by (cases "raise_http (signup env email pw name new_id salt token now st)";
        cases "fst (raise_http (signup env email pw name new_id salt token now st))") auto
  then show ?case by (rule signup_ok [OF assms])
qed

lemma login_ep_Inr:
  assumes "login_ep env q salt tok sid now st = (Inr (resp, c), st')"
  obtains u st1 where "\<not> is_blocked now (client_ip q) (redis st)"
    "login env (l_email q) (l_password q) (l_totp_code q) (l_user_agent q) (Some (client_ip q)) salt tok sid now st
      = (Inr (u, tok), st1)"
    "adb st' = adb st1" "lr_user_id resp = u_id u" "c = SetCookie tok"
proof -
  from assms have "\<not> is_blocked now (client_ip q) (redis st)" by (auto simp: login_ep_def Let_def)
  moreover from this assms obtain u t st1 where l: "login env (l_email q) (l_password q) (l_totp_code q)
      (l_user_agent q) (Some (client_ip q)) salt tok sid now st = (Inr (u, t), st1)"
    by (cases "login env (l_email q) (l_password q) (l_totp_code q) (l_user_agent q) (Some (client_ip q)) salt tok sid now st")
       (auto simp: login_ep_def Let_def get_db_def split: sum.splits auth_error.splits)
  moreover from l have "t = tok" by (rule login_Inr)
  ultimately show ?thesis using that [of u st1] assms by (auto simp: login_ep_def Let_def get_db_def)
qed

lemma login_ep_ok:
  assumes ok: "auth_ok (adb st)" and new: "sid \<notin> s_id ` set (sessions (adb st))"
    "sha256 env tok \<notin> s_token_hash ` set (sessions (adb st))"
  shows "auth_ok (adb (snd (login_ep env q salt tok sid now st)))"
proof (cases "login_ep env q salt tok sid now st")
  case (Pair r st')
  show ?thesis
  proof (cases r)
    case (Inl e)
    then have "adb st' = adb st" using Pair
      by (auto simp: login_ep_def Let_def get_db_def split: if_splits prod.splits sum.splits auth_error.splits)
    then show ?thesis using ok Pair by simp
  next
    case (Inr x)
    then obtain resp c where e: "login_ep env q salt tok sid now st = (Inr (resp, c), st')"
      using Pair by (cases x) auto
    obtain u st1 where "login env (l_email q) (l_password q) (l_totp_code q) (l_user_agent q) (Some (client_ip q))
        salt tok sid now st = (Inr (u, tok), st1)" "adb st' = adb st1"
      by (rule login_ep_Inr [OF e])
    then show ?thesis using login_ok [OF ok new] Pair by simp
  qed
qed

lemma update_me_ep_ok:
  assumes ok: "auth_ok (adb st)"
  shows "auth_ok (adb (snd (update_me_ep env body c now st)))"
  unfolding update_me_ep_def
proof (rule authed_ok [OF ok], goal_cases)
  case (1 u x st')
  then obtain u' where u': "apply_settings body u = Inr u'" "st' = save_user u' st"
    by (auto split: sum.splits)
  show ?case unfolding u'(2)
    by (rule save_user_ok [OF ok 1(1)])
       (use apply_settings_keeps [OF u'(1)] ok 1(1) in \<open>auto simp: auth_ok_def\<close>)
qed

lemma logout_ep_ok: "auth_ok (adb st) \<Longrightarrow> auth_ok (adb (snd (logout_ep env c st)))"
  by (auto simp: logout_ep_def logout_def intro: filter_sessions_ok split: option.splits)

lemma revoke_session_ep_ok: "auth_ok (adb st) \<Longrightarrow> auth_ok (adb (snd (revoke_session_ep env sid c now st)))"
  unfolding revoke_session_ep_def
  by (rule authed_ok, assumption) (auto simp: revoke_session_def intro: filter_sessions_ok split: option.splits if_splits)

lemma revoke_other_sessions_ep_ok:
  "auth_ok (adb st) \<Longrightarrow> auth_ok (adb (snd (revoke_other_sessions_ep env c now st)))"
  unfolding revoke_other_sessions_ep_def
  by (rule authed_ok, assumption) (auto simp: revoke_other_sessions_def Let_def intro: filter_sessions_ok)

lemma auth_step_ok: "auth_step env st st' \<Longrightarrow> auth_ok (adb st) \<Longrightarrow> auth_ok (adb st')"
proof (induction rule: auth_step.induct)
  case (2 st token now)
  then show ?case unfolding verify_email_ep_def by (auto intro!: get_db_ok dest: verify_email_ok)
next
  case (6 st email token now)
  then show ?case by (auto simp: forgot_password_ep_def forgot_password_def split: option.splits)
next
  case (7 st token pw salt now)
  then show ?case unfolding reset_password_ep_def by (auto intro!: get_db_ok dest: reset_password_ok)
next
  case (8 st secret c now)
  then show ?case unfolding totp_setup_ep_def by (auto intro!: authed_ok simp: totp_setup_def)
next
  case (9 st code c now)
  then show ?case unfolding totp_confirm_ep_def by (auto intro!: authed_ok dest: totp_confirm_ok)
next
  case (10 st code c now)
  then show ?case unfolding totp_disable_ep_def by (auto intro!: authed_ok dest: totp_disable_ok)
next
  case (13 st token c now)
  then show ?case unfolding resend_verification_ep_def
    by (auto intro!: authed_ok simp: resend_verification_email_def split: if_splits prod.splits)
qed (simp_all add: signup_ep_ok login_ep_ok logout_ep_ok update_me_ep_ok revoke_session_ep_ok revoke_other_sessions_ep_ok)

interpretation accounts: invariant_system auth_init "auth_step env" "\<lambda>st. auth_ok (adb st)" for env
proof
  show "auth_ok (adb st)" if "auth_init st" for st using that by (simp add: auth_init_def auth_ok_def)
  show "auth_ok (adb st')" if "auth_ok (adb st)" "auth_step env st st'" for st st'
    using that auth_step_ok by blast
qed

section \<open>Properties\<close>

definition ex_env :: auth_env where
  "ex_env = \<lparr>sha256 = (\<lambda>t. ''h'' @ t), ph_hash = (\<lambda>salt p. ''$'' @ p),
     ph_verify = (\<lambda>h p. if h = ''$'' @ p then Verified else VerifyMismatchError), ph_needs_rehash = (\<lambda>_. False),
     totp_verify = (\<lambda>s c t. s = c), totp_uri = (\<lambda>s e. e)\<rparr>"

definition ex_start :: auth_state where
  "ex_start = \<lparr>adb = \<lparr>users = [], sessions = []\<rparr>, redis = (\<lambda>_. None), outbox = []\<rparr>"

definition ex_request :: login_request where
  "ex_request = \<lparr>l_email = ''A@x.pk'', l_password = ''abcdefg1'', l_totp_code = None,
     l_client_host = Some ''10.0.0.1'', l_user_agent = None\<rparr>"

definition ex_signed_up :: auth_state where
  "ex_signed_up = snd (signup_ep ex_env ''a@x.pk'' ''abcdefg1'' None ''u1'' ''s'' ''tok0'' 100 ex_start)"

definition ex_logged_in :: auth_state where
  "ex_logged_in = snd (login_ep ex_env ex_request ''s'' ''tok1'' ''s1'' 200 ex_signed_up)"

text \<open>
  C5: whatever requests have been served, no two accounts share an address up to case, every session
  belongs to an account, and a login with the second factor switched on never ends in the
  \<^emph>\<open>misconfigured\<close> branch.
\<close>

theorem reachable_accounts_ok:
  assumes "reach auth_init (auth_step env) st"
  shows "auth_ok (adb st)
    \<and> (\<forall>u\<in>set (users (adb st)). check_totp env' u code now
          \<noteq> Inl (AuthError ''TOTP is misconfigured for this account.'' 401))
    \<and> (\<forall>u v. u \<in> set (users (adb st)) \<longrightarrow> v \<in> set (users (adb st)) \<longrightarrow>
          py_lower (u_email u) = py_lower (u_email v) \<longrightarrow> u = v)"
proof -
  have ok: "auth_ok (adb st)" using accounts.reach_inv [OF assms] .
  moreover have "check_totp env' u code now \<noteq> Inl (AuthError ''TOTP is misconfigured for this account.'' 401)"
    if "u \<in> set (users (adb st))" for u
    using ok that by (auto simp: auth_ok_def totp_ok_def check_totp_def)
  moreover have "u = v" if "u \<in> set (users (adb st))" "v \<in> set (users (adb st))"
    "py_lower (u_email u) = py_lower (u_email v)" for u v
    using ok that by (auto simp: auth_ok_def distinct_map dest: inj_onD)
  ultimately show ?thesis by blast
qed

lemma ex_reachable: "reach auth_init (auth_step ex_env) ex_signed_up" "reach auth_init (auth_step ex_env) ex_logged_in"
proof -
  have "reach auth_init (auth_step ex_env) ex_start"
    by (rule reach_init) (simp add: auth_init_def ex_start_def)
  then show *: "reach auth_init (auth_step ex_env) ex_signed_up" unfolding ex_signed_up_def
    by (rule reach_step) (rule auth_step.intros, simp add: ex_start_def)
  have "sessions (adb ex_signed_up) = []" by code_simp
  then show "reach auth_init (auth_step ex_env) ex_logged_in" unfolding ex_logged_in_def
    by (intro reach_step [OF *] auth_step.intros(3)) simp_all
qed

theorem reachable_accounts_ok_witness:
  "auth_ok (adb ex_logged_in) \<and> length (users (adb ex_logged_in)) = 1 \<and> length (sessions (adb ex_logged_in)) = 1"
proof -
  have "length (users (adb ex_logged_in)) = 1" "length (sessions (adb ex_logged_in)) = 1" by code_simp+
  then show ?thesis using reachable_accounts_ok [OF ex_reachable(2)] by blast
qed

lemma find_append_new:
  "\<forall>x\<in>set xs. \<not> P x \<Longrightarrow> List.find P (xs @ [y]) = (if P y then Some y else None)"
  by (induction xs) auto

text \<open>
  C6: a login that succeeds has verified the account's stored password hash and, with the second
  factor switched on, a code against the account's own secret; the cookie it sets then names
  that account for exactly thirty days.
\<close>

theorem login_session:
  assumes ok: "auth_ok (adb st)" and new: "sha256 env tok \<notin> s_token_hash ` set (sessions (adb st))"
    and login: "login_ep env q salt tok sid now st = (Inr (resp, c), st')" and tok: "tok \<noteq> []"
  shows "c = SetCookie tok
    \<and> (\<exists>u h. u \<in> set (users (adb st)) \<and> u_email u = py_lower (l_email q) \<and> u_id u = lr_user_id resp
        \<and> u_password_hash u = Some h \<and> ph_verify env h (l_password q) = Verified
        \<and> (u_totp_enabled u \<longrightarrow> totp_verify env (the (u_totp_secret u)) (the (l_totp_code q)) now))
    \<and> (t < now + SESSION_TTL \<longrightarrow>
         (\<exists>r. me_ep env (Some tok) t st' = Inr r \<and> ur_id r = lr_user_id resp))
    \<and> (now + SESSION_TTL \<le> t \<longrightarrow> me_ep env (Some tok) t st' = Inl (HTTPException 401 ''Session expired''))"
proof -
  obtain u st1 where l: "login env (l_email q) (l_password q) (l_totp_code q) (l_user_agent q) (Some (client_ip q))
      salt tok sid now st = (Inr (u, tok), st1)" and e: "adb st' = adb st1" "lr_user_id resp = u_id u" "c = SetCookie tok"
    by (rule login_ep_Inr [OF login])
  obtain v where v: "find_user (\<lambda>u. u_email u = py_lower (l_email q)) st = Some v"
      "ph_verify env (the (u_password_hash v)) (l_password q) = Verified" "u_password_hash v \<noteq> None"
      "u_id u = u_id v" "u_totp_enabled u = u_totp_enabled v" "u_totp_secret u = u_totp_secret v"
      "check_totp env u (l_totp_code q) now = Inr ()"
    and st1: "st1 = save_sessions (\<lambda>ss. ss @ [\<lparr>s_id = sid, s_user_id = u_id u, s_token_hash = sha256 env tok,
        s_expires_at = now + SESSION_TTL, s_created_at = now, s_user_agent = l_user_agent q,
        s_ip_address = Some (client_ip q)\<rparr>]) (save_user u st)"
    by (rule login_Inr [OF l]) (auto split: if_splits)
  note mem = find_user_SomeD [OF v(1)]
  have no: "\<forall>s\<in>set (sessions (adb st)). \<not> (s_token_hash s = sha256 env tok \<and> t < s_expires_at s)"
    using new by (metis image_eqI)
  have found: "List.find (\<lambda>s. s_token_hash s = sha256 env tok \<and> t < s_expires_at s) (sessions (adb st1))
      = (if t < now + SESSION_TTL then Some \<lparr>s_id = sid, s_user_id = u_id u, s_token_hash = sha256 env tok,
        s_expires_at = now + SESSION_TTL, s_created_at = now, s_user_agent = l_user_agent q,
        s_ip_address = Some (client_ip q)\<rparr> else None)"
    by (simp add: st1 find_append_new [OF no])
  have "u_id u \<in> set (map u_id (users (adb st1)))" using mem v(4) by (simp add: st1)
  then obtain w where "w \<in> set (users (adb st1))" "u_id w = u_id u" by auto
  then have "find_user (\<lambda>x. u_id x = u_id u) st1 \<noteq> None" by (auto simp: find_user_def find_None_iff)
  then obtain w where w: "find_user (\<lambda>x. u_id x = u_id u) st1 = Some w" "u_id w = u_id u"
    using find_user_SomeD by fastforce
  have "get_session_user env tok t st' = (if t < now + SESSION_TTL then Some w else None)"
    using found w by (simp add: get_session_user_def e find_user_def)
  then have me: "me_ep env (Some tok) t st' = (if t < now + SESSION_TTL then Inr (from_user w)
      else Inl (HTTPException 401 ''Session expired''))"
    using tok by (simp add: me_ep_def get_current_user_def)
  have totp: "u_totp_enabled v \<longrightarrow> totp_verify env (the (u_totp_secret v)) (the (l_totp_code q)) now"
    using v(5,6,7) by (auto simp: check_totp_def split: if_splits)
  have "ur_id (from_user w) = lr_user_id resp" using w(2) e(2) by (simp add: from_user_def)
  then show ?thesis using me e(2,3) mem v totp by auto
qed

lemma ex_auth_ok: "auth_ok (adb ex_signed_up)" "auth_ok (adb ex_logged_in)"
  using ex_reachable [THEN accounts.reach_inv] by simp_all

theorem login_session_witness:
  "\<exists>resp. lr_user_id resp = ''u1'' \<and> fst (login_ep ex_env ex_request ''s'' ''tok1'' ''s1'' 200 ex_signed_up) = Inr (resp, SetCookie ''tok1'')
     \<and> (\<exists>r. me_ep ex_env (Some ''tok1'') 2592199 ex_logged_in = Inr r \<and> ur_id r = ''u1'')"
proof -
  have "(case fst (login_ep ex_env ex_request ''s'' ''tok1'' ''s1'' 200 ex_signed_up) of
      Inr (resp, c) \<Rightarrow> lr_user_id resp = ''u1'' | _ \<Rightarrow> False)" by code_simp
  then obtain resp c where r: "login_ep ex_env ex_request ''s'' ''tok1'' ''s1'' 200 ex_signed_up = (Inr (resp, c), ex_logged_in)"
    "lr_user_id resp = ''u1''"
    by (cases "login_ep ex_env ex_request ''s'' ''tok1'' ''s1'' 200 ex_signed_up")
       (auto simp: ex_logged_in_def split: sum.splits)
  have n: "sessions (adb ex_signed_up) = []" by code_simp
  show ?thesis using login_session [OF ex_auth_ok(1) _ r(1), of 2592199] r n by (simp add: SESSION_TTL_def)
qed

lemma find_filter_conv:
  "(\<And>x. x \<in> set xs \<Longrightarrow> P x \<Longrightarrow> Q x) \<Longrightarrow> List.find P (filter Q xs) = List.find P xs"
  by (induction xs) auto

lemma session_unique:
  assumes "auth_ok db" "s \<in> set (sessions db)" "s' \<in> set (sessions db)" "s_token_hash s = s_token_hash s'"
  shows "s = s'"
  using assms by (auto simp: auth_ok_def distinct_map dest: inj_onD)

lemma find_user_saved:
  assumes "u_id u \<noteq> uid"
  shows "find_user (\<lambda>w. u_id w = uid) (save_user u st) = find_user (\<lambda>w. u_id w = uid) st"
proof -
  have "List.find (\<lambda>w. u_id w = uid) (map (\<lambda>v. if u_id v = u_id u then u else v) xs) =
      List.find (\<lambda>w. u_id w = uid) xs" for xs using assms by (induction xs) auto
  then show ?thesis by (simp add: find_user_def save_user_def)
qed

text \<open>
  C7: a password reset logs the account out everywhere (no cookie issued before names it any more),
  leaves the sessions of every other account as they were, and spends its token: a second use
  of the same link is refused.
\<close>

theorem reset_password_revokes:
  assumes ok: "auth_ok (adb st)"
    and reset: "reset_password_ep env token pw salt now st = (Inr (), st')"
  shows "\<exists>user\<in>set (users (adb st)). redis_user now (reset_key (sha256 env token)) st = Some (u_id user)
    \<and> (\<forall>c t u. get_current_user env c t st' = Inr u \<longrightarrow> u_id u \<noteq> u_id user)
    \<and> (\<forall>c t u. get_current_user env c t st = Inr u \<longrightarrow> u_id u \<noteq> u_id user \<longrightarrow> get_current_user env c t st' = Inr u)
    \<and> fst (reset_password_ep env token pw2 salt2 now2 st') = Inl (HTTPException 400 ''Invalid or expired reset link.'')"
proof -
  let ?k = "reset_key (sha256 env token)"
  have r: "reset_password env token pw salt now st = (Inr (), st')"
    using reset by (cases "raise_http (reset_password env token pw salt now st)")
      (auto simp: reset_password_ep_def get_db_def split: sum.splits)
  obtain v where v: "redis_user now ?k st = Some (u_id v)" "find_user (\<lambda>u. u_id u = u_id v) st = Some v"
    and st': "st' = save_sessions (filter (\<lambda>s. s_user_id s \<noteq> u_id v))
       (with_redis (redis_delete ?k) (save_user (v\<lparr>u_password_hash := Some (ph_hash env salt pw)\<rparr>) st))"
    by (rule reset_password_Inr [OF r])
  have mem: "v \<in> set (users (adb st))" using find_user_SomeD [OF v(2)] by simp
  have ss: "sessions (adb st') = filter (\<lambda>s. s_user_id s \<noteq> u_id v) (sessions (adb st))" by (simp add: st')
  have "u_id u \<noteq> u_id v" if "get_current_user env c t st' = Inr u" for c t u
  proof -
    from get_current_user_InrD(2) [OF that] obtain tok where "get_session_user env tok t st' = Some u" by auto
    then show ?thesis by (auto simp: get_session_user_def ss find_Some_iff split: option.splits
        dest!: find_user_SomeD nth_mem)
  qed
  moreover have "get_current_user env c t st' = Inr u"
    if cur: "get_current_user env c t st = Inr u" and ne: "u_id u \<noteq> u_id v" for c t u
  proof -
    from get_current_user_InrD(2) [OF cur] obtain tok where c: "c = Some tok" "get_session_user env tok t st = Some u" by auto
    let ?P = "\<lambda>s. s_token_hash s = sha256 env tok \<and> t < s_expires_at s"
    from c(2) obtain s where s: "List.find ?P (sessions (adb st)) = Some s" "find_user (\<lambda>w. u_id w = s_user_id s) st = Some u"
      by (auto simp: get_session_user_def split: option.splits)
    have smem: "s \<in> set (sessions (adb st))" "?P s" using s(1) by (auto simp: find_Some_iff)
    have sid: "s_user_id s = u_id u" using find_user_SomeD [OF s(2)] by simp
    have "List.find ?P (sessions (adb st')) = Some s"
      unfolding ss s(1) [symmetric]
    proof (rule find_filter_conv)
      fix x assume x: "x \<in> set (sessions (adb st))" "?P x"
      then have "x = s" using session_unique [OF ok x(1) smem(1)] smem(2) by simp
      then show "s_user_id x \<noteq> u_id v" using sid ne by simp
    qed
    moreover have "find_user (\<lambda>w. u_id w = s_user_id s) st' =
        find_user (\<lambda>w. u_id w = s_user_id s) (save_user (v\<lparr>u_password_hash := Some (ph_hash env salt pw)\<rparr>) st)"
      by (rule find_user_cong) (simp add: st')
    then have "find_user (\<lambda>w. u_id w = s_user_id s) st' = Some u"
      using s(2) ne sid by (simp add: find_user_saved)
    ultimately have "get_session_user env tok t st' = Some u" by (simp add: get_session_user_def)
    with c cur show ?thesis by (simp add: get_current_user_def split: if_splits)
  qed
  moreover have "redis_user now2 ?k st' = None" by (simp add: st' redis_user_def redis_get_def redis_delete_def)
  then have "fst (reset_password_ep env token pw2 salt2 now2 st') = Inl (HTTPException 400 ''Invalid or expired reset link.'')"
    by (simp add: reset_password_ep_def reset_password_def raise_http_def http_of_auth_def get_db_def)
  ultimately show ?thesis using mem v(1) by blast
qed

definition ex_forgot :: auth_state where
  "ex_forgot = forgot_password_ep ex_env ''A@X.pk'' ''tok2'' 300 ex_logged_in"

theorem reset_password_revokes_witness:
  "\<exists>st'. reset_password_ep ex_env ''tok2'' ''newpass12'' ''s'' 400 ex_forgot = (Inr (), st')
     \<and> get_current_user ex_env (Some ''tok1'') 500 ex_forgot \<noteq> Inl (HTTPException 401 ''Session expired'')
     \<and> (\<forall>c t u. get_current_user ex_env c t st' = Inr u \<longrightarrow> u_id u \<noteq> ''u1'')"
proof -
  obtain st' where st': "reset_password_ep ex_env ''tok2'' ''newpass12'' ''s'' 400 ex_forgot = (Inr (), st')"
  proof -
    have "fst (reset_password_ep ex_env ''tok2'' ''newpass12'' ''s'' 400 ex_forgot) = Inr ()" by code_simp
    with that show thesis by (cases "reset_password_ep ex_env ''tok2'' ''newpass12'' ''s'' 400 ex_forgot") auto
  qed
  have ok: "auth_ok (adb ex_forgot)" unfolding ex_forgot_def
    by (rule auth_step_ok [OF auth_step.intros(6) ex_auth_ok(2)])
  have u: "redis_user 400 (reset_key (sha256 ex_env ''tok2'')) ex_forgot = Some ''u1''" by code_simp
  have "is_ok (get_current_user ex_env (Some ''tok1'') 500 ex_forgot)" by code_simp
  then have "get_current_user ex_env (Some ''tok1'') 500 ex_forgot \<noteq> Inl (HTTPException 401 ''Session expired'')" by auto
  moreover have "\<forall>c t u. get_current_user ex_env c t st' = Inr u \<longrightarrow> u_id u \<noteq> ''u1''"
    using reset_password_revokes [OF ok st', of "[]" "[]" 0] unfolding u by force
  ultimately show ?thesis using st' by auto
qed

text \<open>A series of login attempts, each with its request, salt, token, session id and time.\<close>

fun run_logins ::
  "auth_env \<Rightarrow> (login_request \<times> string \<times> string \<times> string \<times> int) list \<Rightarrow> auth_state
    \<Rightarrow> (http_error + LoginResponse \<times> cookie) list \<times> auth_state" where
  "run_logins env [] st = ([], st)"
| "run_logins env ((q, salt, tok, sid, now) # as) st =
     (let (r, st1) = login_ep env q salt tok sid now st; (rs, st2) = run_logins env as st1 in (r # rs, st2))"

definition http_failed :: "http_error + 'a \<Rightarrow> bool" where
  "http_failed r = (case r of Inl (HTTPException _ _) \<Rightarrow> True | _ \<Rightarrow> False)"

lemma login_key_inj [simp]: "login_key a = login_key b \<longleftrightarrow> a = b"
  by (simp add: login_key_def)

lemma login_redis [simp]: "login env e p c ua ip salt tok sid now st = (r, st') \<Longrightarrow> redis st' = redis st"
  by (auto simp: login_def Let_def split: option.splits if_splits verify_result.splits sum.splits)

lemma get_db_redis [simp]: "redis (snd (get_db st p)) = redis (snd p)"
  by (cases p; cases "fst p") (auto simp: get_db_def)

lemma login_ep_redis:
  assumes "login_ep env q salt tok sid now st = (r, st')"
  shows "redis st' = (if is_blocked now (client_ip q) (redis st) then redis st
    else case r of Inl (HTTPException _ _) \<Rightarrow> snd (record_failure now (client_ip q) (redis st))
         | Inl ServerError \<Rightarrow> redis st | Inr _ \<Rightarrow> clear (client_ip q) (redis st))"
proof (cases "login env (l_email q) (l_password q) (l_totp_code q) (l_user_agent q) (Some (client_ip q)) salt tok sid now st")
  case (Pair r1 st1)
  from login_redis [OF Pair] have "redis st1 = redis st" .
  with assms Pair show ?thesis
    by (cases r1) (auto simp: login_ep_def Let_def get_db_def split: if_splits auth_error.splits)
qed

text \<open>The counter of an address after \<open>n\<close> failures since \<open>t0\<close>.\<close>

definition counted :: "int \<Rightarrow> string \<Rightarrow> int \<Rightarrow> redis \<Rightarrow> bool" where
  "counted t0 ip n r \<longleftrightarrow>
     (if n = 0 then r (login_key ip) = None
      else \<exists>e. r (login_key ip) = Some (RInt n, Some e) \<and> t0 + WINDOW_SECONDS \<le> e)"

lemma counted_other:
  assumes "ip' \<noteq> ip"
  shows "counted t0 ip n (snd (record_failure now ip' r)) = counted t0 ip n r"
    "counted t0 ip n (clear ip' r) = counted t0 ip n r"
  using assms by (auto simp: counted_def record_failure_def redis_incr_def redis_expire_def clear_def redis_delete_def
      Let_def split: option.splits redis_val.splits prod.splits)

lemma counted_failure:
  assumes "counted t0 ip n r" "0 \<le> n" "t0 \<le> now" "now < t0 + WINDOW_SECONDS"
  shows "counted t0 ip (n + 1) (snd (record_failure now ip r))"
proof (cases "n = 0")
  case True
  with assms show ?thesis
    by (simp add: counted_def record_failure_def redis_incr_def redis_expire_def redis_get_def Let_def)
next
  case False
  with assms obtain e where e: "r (login_key ip) = Some (RInt n, Some e)" "t0 + WINDOW_SECONDS \<le> e" "now < e"
    by (auto simp: counted_def)
  with False assms(2) show ?thesis
    by (simp add: counted_def record_failure_def redis_incr_def redis_get_def Let_def)
qed

lemma counted_blocked:
  assumes "counted t0 ip n r" "0 \<le> n" "now < t0 + WINDOW_SECONDS"
  shows "is_blocked now ip r \<longleftrightarrow> MAX_ATTEMPTS \<le> n"
  using assms by (auto simp: counted_def is_blocked_def redis_get_def MAX_ATTEMPTS_def split: if_splits)

lemma run_logins_counted:
  assumes "run_logins env as st = (rs, st')"
    and "\<forall>(q, salt, tok, sid, now)\<in>set as. t0 \<le> now \<and> now < t0 + WINDOW_SECONDS"
    and "\<forall>(a, r)\<in>set (zip as rs). client_ip (fst a) = ip \<longrightarrow> http_failed r"
    and "counted t0 ip n (redis st)" "0 \<le> n"
  shows "\<exists>m. counted t0 ip m (redis st') \<and> 0 \<le> m
    \<and> min MAX_ATTEMPTS (n + int (length (filter (\<lambda>a. client_ip (fst a) = ip) as))) \<le> m"
  using assms
proof (induction as arbitrary: st rs n)
  case (Cons a as)
  obtain q salt tok sid now where a: "a = (q, salt, tok, sid, now)" by (cases a)
  obtain r st1 where r: "login_ep env q salt tok sid now st = (r, st1)" by fastforce
  obtain rs' where rs: "run_logins env as st1 = (rs', st')" "rs = r # rs'"
    using Cons.prems(1) r by (auto simp: a split: prod.splits)
  note redis1 = login_ep_redis [OF r]
  have now: "t0 \<le> now" "now < t0 + WINDOW_SECONDS" using Cons.prems(2) by (auto simp: a)
  note IH = Cons.IH [OF rs(1)]
  have rest: "\<forall>(q, salt, tok, sid, now)\<in>set as. t0 \<le> now \<and> now < t0 + WINDOW_SECONDS"
    "\<forall>(a, r)\<in>set (zip as rs'). client_ip (fst a) = ip \<longrightarrow> http_failed r"
    using Cons.prems(2,3) by (auto simp: rs(2))
  show ?case
  proof (cases "client_ip q = ip")
    case False
    then have "counted t0 ip n (redis st1)"
      using Cons.prems(4) by (auto simp: redis1 counted_other split: sum.splits http_error.splits)
    from IH [OF rest this Cons.prems(5)] show ?thesis using False by (simp add: a)
  next
    case True
    have failed: "http_failed r" using Cons.prems(3) True by (auto simp: a rs(2))
    show ?thesis
    proof (cases "MAX_ATTEMPTS \<le> n")
      case True
      then have "redis st1 = redis st"
        using counted_blocked [OF Cons.prems(4,5) now(2)] \<open>client_ip q = ip\<close> by (simp add: redis1)
      then show ?thesis using IH [OF rest _ Cons.prems(5)] Cons.prems(4) True by (auto simp: min_def)
    next
      case False
      then have "redis st1 = snd (record_failure now ip (redis st))"
        using counted_blocked [OF Cons.prems(4,5) now(2)] True failed
        by (auto simp: redis1 http_failed_def split: sum.splits http_error.splits)
      then have "counted t0 ip (n + 1) (redis st1)" using counted_failure [OF Cons.prems(4,5) now] by simp
      from IH [OF rest this] Cons.prems(5) show ?thesis using True by (simp add: a add.assoc)
    qed
  qed
qed auto


definition ex_attempts :: "(login_request \<times> string \<times> string \<times> string \<times> int) list" where
  "ex_attempts = map (\<lambda>k. (ex_request\<lparr>l_password := ''wrong''\<rparr>, ''s'', ''t'', ''i'', 300 + k)) [0, 1, 2, 3, 4]"


end
