(* ===== verification/Portfolios.thy ===== *)
theory Portfolios
  imports Transactions Auth
begin

text \<open>
  Portfolios and their REST endpoints: \<^verbatim>\<open>psx_api/services/portfolio_service.py\<close>, the \<^verbatim>\<open>Portfolio\<close> table and
  \<^verbatim>\<open>routers/portfolios.py\<close>. The table has two unique constraints, on the name and on the default flag
  of a user (\<^verbatim>\<open>uq_portfolios_user_name\<close>, \<^verbatim>\<open>uq_portfolios_user_default\<close>); a flush that breaks one
  raises \<^verbatim>\<open>IntegrityError\<close>. A request that raises is rolled back, so a failing operation has no
  resulting state. Deleting a portfolio deletes its transactions and snapshots with it
  (\<^verbatim>\<open>ondelete="CASCADE"\<close>).
\<close>

section \<open>Table\<close>

record Portfolio =
  pf_id :: string
  pf_user_id :: string
  pf_name :: string
  pf_description :: "string option"
  pf_base_currency :: string
  pf_is_default :: bool
  pf_created_at :: int

record portfolio_db =
  portfolios :: "Portfolio list"
  ledger :: ledger_db

definition uq_user_name :: "Portfolio list \<Rightarrow> bool" where
  "uq_user_name ps = distinct (map (\<lambda>p. (pf_user_id p, pf_name p)) ps)"

definition uq_user_default :: "Portfolio list \<Rightarrow> bool" where
  "uq_user_default ps = distinct (map pf_user_id (filter pf_is_default ps))"

text \<open>\<^verbatim>\<open>PortfolioError(message, status_code)\<close>, and an \<^verbatim>\<open>IntegrityError\<close> no handler catches.\<close>

datatype portfolio_error = PortfolioError string int | IntegrityError

definition flush :: "Portfolio list \<Rightarrow> bool" where
  "flush ps = (uq_user_name ps \<and> uq_user_default ps)"

section \<open>PortfolioService\<close>

definition list_for_user :: "portfolio_db \<Rightarrow> string \<Rightarrow> Portfolio list" where
  "list_for_user db uid =
     sort_key (\<lambda>p. (\<not> pf_is_default p, pf_created_at p)) (filter (\<lambda>p. pf_user_id p = uid) (portfolios db))"

definition portfolio_get :: "portfolio_db \<Rightarrow> string \<Rightarrow> string \<Rightarrow> portfolio_error + Portfolio" where
  "portfolio_get db uid pid =
     (case List.find (\<lambda>p. pf_id p = pid \<and> pf_user_id p = uid) (portfolios db) of
        None \<Rightarrow> Inl (PortfolioError ''Portfolio not found.'' 404) | Some p \<Rightarrow> Inr p)"

definition get_or_create_default ::
  "portfolio_db \<Rightarrow> string \<Rightarrow> string \<Rightarrow> int \<Rightarrow> portfolio_error + Portfolio \<times> portfolio_db" where
  "get_or_create_default db uid new_id now =
     (case List.find (\<lambda>p. pf_user_id p = uid \<and> pf_is_default p) (portfolios db) of
        Some p \<Rightarrow> Inr (p, db)
      | None \<Rightarrow>
          let p = \<lparr>pf_id = new_id, pf_user_id = uid, pf_name = ''Main'', pf_description = Some ''Default portfolio'',
                   pf_base_currency = ''PKR'', pf_is_default = True, pf_created_at = now\<rparr>;
              ps = portfolios db @ [p]
          in if flush ps then Inr (p, db\<lparr>portfolios := ps\<rparr>) else Inl IntegrityError)"

record PortfolioCreate =
  pc_name :: string
  pc_description :: "string option"
  pc_base_currency :: string
  pc_is_default :: bool

record PortfolioUpdate =
  pu_name :: "string option"
  pu_description :: "string option"
  pu_is_default :: "bool option"

definition valid_portfolio_create :: "PortfolioCreate \<Rightarrow> bool" where
  "valid_portfolio_create b \<longleftrightarrow>
     1 \<le> length (pc_name b) \<and> length (pc_name b) \<le> 100 \<and> length (pc_base_currency b) = 3"

text \<open>\<^verbatim>\<open>UPDATE portfolios SET is_default = false WHERE user_id = ... AND is_default\<close>\<close>

definition unset_default :: "string \<Rightarrow> Portfolio list \<Rightarrow> Portfolio list" where
  "unset_default uid ps = map (\<lambda>p. if pf_user_id p = uid \<and> pf_is_default p then p\<lparr>pf_is_default := False\<rparr> else p) ps"

definition already_named :: "string \<Rightarrow> portfolio_error" where
  "already_named name = PortfolioError (''You already have a portfolio named '' @ [CHR 0x27] @ name @ [CHR 0x27] @ ''.'') 409"

definition portfolio_create ::
  "portfolio_db \<Rightarrow> string \<Rightarrow> PortfolioCreate \<Rightarrow> string \<Rightarrow> int \<Rightarrow> portfolio_error + Portfolio \<times> portfolio_db" where
  "portfolio_create db uid body new_id now =
     (let ps = (if pc_is_default body then unset_default uid (portfolios db) else portfolios db);
          p = \<lparr>pf_id = new_id, pf_user_id = uid, pf_name = pc_name body, pf_description = pc_description body,
               pf_base_currency = pc_base_currency body, pf_is_default = pc_is_default body, pf_created_at = now\<rparr>
      in if flush (ps @ [p]) then Inr (p, db\<lparr>portfolios := ps @ [p]\<rparr>)
         else Inl (already_named (pc_name body)))"

definition apply_update :: "PortfolioUpdate \<Rightarrow> Portfolio \<Rightarrow> Portfolio" where
  "apply_update body p =
     (let p = (case pu_name body of None \<Rightarrow> p | Some n \<Rightarrow> p\<lparr>pf_name := n\<rparr>);
          p = (case pu_description body of None \<Rightarrow> p | Some d \<Rightarrow> p\<lparr>pf_description := Some d\<rparr>)
      in case pu_is_default body of None \<Rightarrow> p | Some b \<Rightarrow> p\<lparr>pf_is_default := b\<rparr>)"

text \<open>\<^verbatim>\<open>f"...named '{body.name}'."\<close> prints \<^verbatim>\<open>None\<close> when the request has no name.\<close>

definition portfolio_update ::
  "portfolio_db \<Rightarrow> string \<Rightarrow> string \<Rightarrow> PortfolioUpdate \<Rightarrow> portfolio_error + Portfolio \<times> portfolio_db" where
  "portfolio_update db uid pid body =
     bind_r (portfolio_get db uid pid) (\<lambda>p.
       let ps = (if pu_is_default body = Some True \<and> \<not> pf_is_default p
                 then unset_default uid (portfolios db) else portfolios db);
           p' = apply_update body p;
           ps' = map (\<lambda>q. if pf_id q = pf_id p then p' else q) ps
       in if flush ps' then Inr (p', db\<lparr>portfolios := ps'\<rparr>)
          else Inl (already_named (case pu_name body of None \<Rightarrow> ''None'' | Some n \<Rightarrow> n)))"

definition cascade :: "string \<Rightarrow> ledger_db \<Rightarrow> ledger_db" where
  "cascade pid l =
     l\<lparr>transactions := filter (\<lambda>t. t_portfolio_id t \<noteq> pid) (transactions l),
       holdings := filter (\<lambda>h. h_portfolio_id h \<noteq> pid) (holdings l)\<rparr>"

definition portfolio_delete ::
  "portfolio_db \<Rightarrow> string \<Rightarrow> string \<Rightarrow> portfolio_error + portfolio_db" where
  "portfolio_delete db uid pid =
     bind_r (portfolio_get db uid pid) (\<lambda>p.
       if pf_is_default p
       then Inl (PortfolioError ''Cannot delete the default portfolio. Set another portfolio as default first.'' 400)
       else Inr \<lparr>portfolios = filter (\<lambda>q. pf_id q \<noteq> pf_id p) (portfolios db), ledger = cascade (pf_id p) (ledger db)\<rparr>)"

section \<open>Endpoints\<close>

text \<open>What an endpoint turns into a response: the service errors with their status, anything else a 500.\<close>

datatype route_error = PortfolioExc portfolio_error | TransactionExc txn_error

definition route_status :: "route_error \<Rightarrow> int" where
  "route_status e = (case e of
      PortfolioExc (PortfolioError m s) \<Rightarrow> s | PortfolioExc IntegrityError \<Rightarrow> 500
    | TransactionExc (UnknownSymbol s) \<Rightarrow> 404 | TransactionExc (CannotSave ws) \<Rightarrow> 400
    | TransactionExc (Uncaught x) \<Rightarrow> 500)"

definition lift_p :: "portfolio_error + 'a \<Rightarrow> route_error + 'a" where
  "lift_p r = (case r of Inl e \<Rightarrow> Inl (PortfolioExc e) | Inr x \<Rightarrow> Inr x)"

definition lift_t :: "txn_error + 'a \<Rightarrow> route_error + 'a" where
  "lift_t r = (case r of Inl e \<Rightarrow> Inl (TransactionExc e) | Inr x \<Rightarrow> Inr x)"

definition list_portfolios ::
  "portfolio_db \<Rightarrow> User \<Rightarrow> string \<Rightarrow> int \<Rightarrow> route_error + Portfolio list \<times> portfolio_db" where
  "list_portfolios db user new_id now =
     (let ps = list_for_user db (u_id user)
      in if ps = [] then bind_r (lift_p (get_or_create_default db (u_id user) new_id now)) (\<lambda>(p, db'). Inr ([p], db'))
         else Inr (ps, db))"

definition create_portfolio ::
  "portfolio_db \<Rightarrow> User \<Rightarrow> PortfolioCreate \<Rightarrow> string \<Rightarrow> int \<Rightarrow> route_error + Portfolio \<times> portfolio_db" where
  "create_portfolio db user body new_id now = lift_p (portfolio_create db (u_id user) body new_id now)"

definition get_portfolio :: "portfolio_db \<Rightarrow> User \<Rightarrow> string \<Rightarrow> route_error + Portfolio" where
  "get_portfolio db user pid = lift_p (portfolio_get db (u_id user) pid)"

definition update_portfolio ::
  "portfolio_db \<Rightarrow> User \<Rightarrow> string \<Rightarrow> PortfolioUpdate \<Rightarrow> route_error + Portfolio \<times> portfolio_db" where
  "update_portfolio db user pid body = lift_p (portfolio_update db (u_id user) pid body)"

definition delete_portfolio :: "portfolio_db \<Rightarrow> User \<Rightarrow> string \<Rightarrow> route_error + portfolio_db" where
  "delete_portfolio db user pid = lift_p (portfolio_delete db (u_id user) pid)"

definition list_transactions :: "portfolio_db \<Rightarrow> User \<Rightarrow> string \<Rightarrow> nat \<Rightarrow> route_error + Transaction list" where
  "list_transactions db user pid limit =
     bind_r (lift_p (portfolio_get db (u_id user) pid)) (\<lambda>p. Inr (list_for_portfolio (ledger db) (pf_id p) limit))"

definition preview_transaction ::
  "portfolio_db \<Rightarrow> User \<Rightarrow> string \<Rightarrow> TransactionCreate \<Rightarrow> route_error + TransactionPreview" where
  "preview_transaction db user pid body =
     bind_r (lift_p (portfolio_get db (u_id user) pid)) (\<lambda>p.
       lift_t (preview (ledger db) (pf_id p) body (u_is_filer user)))"

definition create_transaction ::
  "portfolio_db \<Rightarrow> User \<Rightarrow> string \<Rightarrow> TransactionCreate \<Rightarrow> string \<Rightarrow> int
    \<Rightarrow> route_error + Transaction \<times> portfolio_db" where
  "create_transaction db user pid body new_id now =
     bind_r (lift_p (portfolio_get db (u_id user) pid)) (\<lambda>p.
       bind_r (lift_t (create (ledger db) (pf_id p) body (u_is_filer user) new_id now)) (\<lambda>(l, txn, _).
         Inr (txn, db\<lparr>ledger := l\<rparr>)))"

section \<open>Constraints and the default flag\<close>

lemma flushD: "flush ps \<Longrightarrow> uq_user_name ps" "flush ps \<Longrightarrow> uq_user_default ps"
  by (simp_all add: flush_def)

lemma unset_default_simps [simp]:
  "map pf_id (unset_default uid ps) = map pf_id ps"
  "map (\<lambda>p. (pf_user_id p, pf_name p)) (unset_default uid ps) = map (\<lambda>p. (pf_user_id p, pf_name p)) ps"
  "unset_default uid (xs @ ys) = unset_default uid xs @ unset_default uid ys"
  by (simp_all add: unset_default_def)

lemma unset_default_flags:
  "filter pf_is_default (unset_default uid ps) = filter (\<lambda>p. pf_user_id p \<noteq> uid) (filter pf_is_default ps)"
  by (induction ps) (auto simp: unset_default_def)

lemma flush_unset: "flush ps \<Longrightarrow> flush (unset_default uid ps)"
  using distinct_map_filter [of pf_user_id "filter pf_is_default ps" "\<lambda>p. pf_user_id p \<noteq> uid"]
  by (simp add: flush_def uq_user_name_def uq_user_default_def unset_default_flags del: filter_filter)

lemma flush_append:
  "flush (ps @ [p]) \<longleftrightarrow> flush ps \<and> (\<forall>q\<in>set ps. pf_user_id q = pf_user_id p \<longrightarrow> pf_name q \<noteq> pf_name p)
     \<and> (pf_is_default p \<longrightarrow> (\<forall>q\<in>set ps. pf_user_id q = pf_user_id p \<longrightarrow> \<not> pf_is_default q))"
  by (auto simp: flush_def uq_user_name_def uq_user_default_def image_iff)

lemma unset_default_none:
  assumes "q \<in> set (unset_default uid ps)" "pf_user_id q = uid"
  shows "\<not> pf_is_default q"
proof -
  obtain p where "q = (if pf_user_id p = uid \<and> pf_is_default p then p\<lparr>pf_is_default := False\<rparr> else p)"
    using assms(1) by (auto simp only: unset_default_def set_map image_iff)
  with assms(2) show ?thesis by (cases "pf_user_id p = uid \<and> pf_is_default p") auto
qed

lemma unset_default_names:
  "(\<forall>q\<in>set (unset_default uid ps). pf_user_id q = u \<longrightarrow> pf_name q \<noteq> n)
    \<longleftrightarrow> (\<forall>q\<in>set ps. pf_user_id q = u \<longrightarrow> pf_name q \<noteq> n)"
  by (induction ps) (simp_all add: unset_default_def)

text \<open>Updating the row of one id in a table with distinct ids.\<close>

lemma map_update_absent: "i \<notin> g ` set zs \<Longrightarrow> map (\<lambda>q. if g q = i then x else q) zs = zs"
  by (induction zs) auto

lemma unset_default_ids: "pf_id ` set (unset_default uid ps) = pf_id ` set ps"
  by (metis set_map unset_default_simps(1))

lemma map_update_split:
  assumes "distinct (map g ps)" "p \<in> set ps"
  obtains xs ys where "ps = xs @ p # ys" "g p \<notin> g ` set xs" "g p \<notin> g ` set ys"
    "\<And>p'. map (\<lambda>q. if g q = g p then p' else q) ps = xs @ p' # ys"
proof -
  obtain xs ys where ps: "ps = xs @ p # ys" using split_list [OF assms(2)] by auto
  have n: "g p \<notin> g ` set xs" "g p \<notin> g ` set ys" using assms(1) ps by auto
  show ?thesis using that [OF ps n] by (simp add: ps map_update_absent [OF n(1)] map_update_absent [OF n(2)])
qed

lemma flush_middle:
  "flush (xs @ p # ys) \<longleftrightarrow> flush (xs @ ys)
     \<and> (\<forall>q\<in>set (xs @ ys). pf_user_id q = pf_user_id p \<longrightarrow> pf_name q \<noteq> pf_name p)
     \<and> (pf_is_default p \<longrightarrow> (\<forall>q\<in>set (xs @ ys). pf_user_id q = pf_user_id p \<longrightarrow> \<not> pf_is_default q))"
  by (auto simp: flush_def uq_user_name_def uq_user_default_def image_iff)

lemma portfolio_get_Inr:
  "portfolio_get db uid pid = Inr p \<Longrightarrow> p \<in> set (portfolios db) \<and> pf_id p = pid \<and> pf_user_id p = uid"
  by (auto simp: portfolio_get_def find_Some_iff split: option.splits)

lemma apply_update_keeps [simp]:
  "pf_id (apply_update b p) = pf_id p" "pf_user_id (apply_update b p) = pf_user_id p"
  "pf_name (apply_update b p) = (case pu_name b of None \<Rightarrow> pf_name p | Some n \<Rightarrow> n)"
  "pf_is_default (apply_update b p) = (case pu_is_default b of None \<Rightarrow> pf_is_default p | Some d \<Rightarrow> d)"
  by (simp_all add: apply_update_def Let_def split: option.splits)

text \<open>What the flush of \<open>update\<close> sees, and when it passes: only the name can clash.\<close>

lemma update_flush:
  assumes ids: "distinct (map pf_id (portfolios db))" and fl: "flush (portfolios db)"
    and got: "portfolio_get db uid pid = Inr p"
    and ps: "ps = (if pu_is_default b = Some True \<and> \<not> pf_is_default p
                then unset_default uid (portfolios db) else portfolios db)"
  shows "flush (map (\<lambda>q. if pf_id q = pf_id p then apply_update b p else q) ps) \<longleftrightarrow>
    (\<forall>n. pu_name b = Some n \<longrightarrow> (\<forall>q\<in>set (portfolios db). pf_user_id q = uid \<longrightarrow> pf_id q \<noteq> pid \<longrightarrow> pf_name q \<noteq> n))"
proof -
  note p = portfolio_get_Inr [OF got]
  obtain xs ys where s: "portfolios db = xs @ p # ys" "pf_id p \<notin> pf_id ` set xs" "pf_id p \<notin> pf_id ` set ys"
    using map_update_split [OF ids conjunct1 [OF p]] by metis
  let ?un = "pu_is_default b = Some True \<and> \<not> pf_is_default p"
  let ?f = "if ?un then unset_default uid else id"
  have id_upd: "map (\<lambda>q. if pf_id q = pf_id p then x else q) (?f zs) = ?f zs" if "pf_id p \<notin> pf_id ` set zs" for x zs
    by (rule map_update_absent) (simp add: that unset_default_ids)
  have new: "map (\<lambda>q. if pf_id q = pf_id p then apply_update b p else q) ps
      = ?f xs @ apply_update b p # ?f ys"
  proof (cases ?un)
    case True
    have "unset_default uid [p] = [p]" using True by (simp add: unset_default_def)
    then have "ps = ?f xs @ p # ?f ys" using True unset_default_simps(3) [of uid "[p]" ys] by (simp add: ps s(1))
    then show ?thesis using id_upd [OF s(2)] id_upd [OF s(3)] by simp
  next
    case False
    then have "ps = ?f xs @ p # ?f ys" by (auto simp: ps s(1))
    then show ?thesis using id_upd [OF s(2)] id_upd [OF s(3)] by simp
  qed
  have rest: "flush (xs @ ys)" "\<forall>q\<in>set (xs @ ys). pf_user_id q = uid \<longrightarrow> pf_name q \<noteq> pf_name p"
    "pf_is_default p \<longrightarrow> (\<forall>q\<in>set (xs @ ys). pf_user_id q = uid \<longrightarrow> \<not> pf_is_default q)"
    using fl p unfolding s(1) flush_middle by auto
  have u: "pf_user_id (apply_update b p) = uid" using p by simp
  have "flush (?f xs @ ?f ys)" using rest(1) flush_unset [OF rest(1), of uid] by simp
  moreover have "(\<forall>q\<in>set (?f xs @ ?f ys). pf_user_id q = uid \<longrightarrow> pf_name q \<noteq> m)
      \<longleftrightarrow> (\<forall>q\<in>set (xs @ ys). pf_user_id q = uid \<longrightarrow> pf_name q \<noteq> m)" for m
    using unset_default_names [of uid "xs @ ys" uid m] by simp
  moreover have "pf_is_default (apply_update b p) \<longrightarrow>
      (\<forall>q\<in>set (?f xs @ ?f ys). pf_user_id q = uid \<longrightarrow> \<not> pf_is_default q)"
    using rest(3) unset_default_none [of _ uid "xs @ ys"] by (auto split: option.splits if_splits)
  ultimately have "flush (?f xs @ apply_update b p # ?f ys) \<longleftrightarrow>
      (\<forall>q\<in>set (xs @ ys). pf_user_id q = uid \<longrightarrow> pf_name q \<noteq> pf_name (apply_update b p))"
    unfolding flush_middle u by blast
  also have "\<dots> \<longleftrightarrow> (\<forall>n. pu_name b = Some n \<longrightarrow>
      (\<forall>q\<in>set (portfolios db). pf_user_id q = uid \<longrightarrow> pf_id q \<noteq> pid \<longrightarrow> pf_name q \<noteq> n))"
  proof -
    have o: "\<forall>q\<in>set (xs @ ys). pf_id q \<noteq> pid" using s(2,3) p by (metis Un_iff image_eqI set_append)
    have all: "set (portfolios db) = insert p (set (xs @ ys))" by (simp add: s(1))
    show ?thesis
    proof (cases "pu_name b")
      case None then show ?thesis using rest(2) by simp
    next
      case (Some n) then show ?thesis using o p unfolding all by auto
    qed
  qed
  finally show ?thesis by (simp add: new)
qed

lemma create_flush:
  assumes "flush (portfolios db)" "ps = (if d then unset_default uid (portfolios db) else portfolios db)"
    "pf_user_id p = uid" "pf_is_default p = d"
  shows "flush (ps @ [p]) \<longleftrightarrow> (\<forall>q\<in>set (portfolios db). pf_user_id q = uid \<longrightarrow> pf_name q \<noteq> pf_name p)"
  using assms flush_unset [OF assms(1), of uid] unset_default_none [of _ uid "portfolios db"]
  by (auto simp: flush_append unset_default_names)

lemma portfolio_create_Inr:
  assumes "flush (portfolios db)" "portfolio_create db uid b i now = Inr (p, db')"
  shows "flush (portfolios db')" "ledger db' = ledger db" "map pf_id (portfolios db') = map pf_id (portfolios db) @ [i]"
  using assms by (auto simp: portfolio_create_def Let_def split: if_splits)

lemma portfolio_update_Inr:
  assumes "portfolio_update db uid pid b = Inr (p, db')"
  shows "flush (portfolios db')" "ledger db' = ledger db" "map pf_id (portfolios db') = map pf_id (portfolios db)"
proof -
  have "map pf_id (map (\<lambda>q. if pf_id q = pf_id x then apply_update b x else q) xs) = map pf_id xs" for x xs
    by (induction xs) auto
  then show "map pf_id (portfolios db') = map pf_id (portfolios db)"
    using assms by (auto simp: portfolio_update_def bind_r_Inr_iff Let_def simp del: map_map split: if_splits)
qed (use assms in \<open>auto simp: portfolio_update_def bind_r_Inr_iff Let_def split: if_splits\<close>)

section \<open>The ledger under deletion\<close>

lemma cascade_symbol_txns: "symbol_txns (cascade pid l) p y = (if p = pid then [] else symbol_txns l p y)"
proof -
  have *: "filter (\<lambda>t. t_portfolio_id t = p \<and> t_symbol t = y) (filter (\<lambda>t. t_portfolio_id t \<noteq> pid) ts) =
      (if p = pid then [] else filter (\<lambda>t. t_portfolio_id t = p \<and> t_symbol t = y) ts)" for ts
    by (induction ts) auto
  show ?thesis using * [of "transactions l"] by (cases "p = pid") (simp_all add: symbol_txns_def cascade_def del: filter_filter)
qed

lemma cascade_holding_qty: "holding_qty (cascade pid l) p y = (if p = pid then 0 else holding_qty l p y)"
proof -
  have *: "List.find (\<lambda>h. h_portfolio_id h = p \<and> h_symbol h = y) (filter (\<lambda>h. h_portfolio_id h \<noteq> pid) hs) =
      (if p = pid then None else List.find (\<lambda>h. h_portfolio_id h = p \<and> h_symbol h = y) hs)" for hs
    by (induction hs) auto
  show ?thesis using * [of "holdings l"] by (cases "p = pid") (simp_all add: holding_qty_def cascade_def)
qed

lemma cascade_ledger_inv: "ledger_inv l \<Longrightarrow> ledger_inv (cascade pid l)"
  by (auto simp: ledger_inv_def ledger_ok_def never_oversold_def snapshots_current_def cascade_symbol_txns
      cascade_holding_qty net_position_def) (auto simp: cascade_def)

lemma refresh_keys:
  "h_portfolio_id ` set (holdings (refresh_holdings_snapshot l pid symb)) \<subseteq> insert pid (h_portfolio_id ` set (holdings l))"
  by (auto simp: refresh_holdings_snapshot_def Let_def split: if_splits)

section \<open>Reachable databases\<close>

text \<open>
  The constraints hold, ids are unique, every transaction and snapshot belongs to a portfolio
  that exists, and the ledger keeps its own invariant.
\<close>

definition portfolio_inv :: "portfolio_db \<Rightarrow> bool" where
  "portfolio_inv db \<longleftrightarrow> distinct (map pf_id (portfolios db)) \<and> flush (portfolios db)
     \<and> t_portfolio_id ` set (transactions (ledger db)) \<subseteq> pf_id ` set (portfolios db)
     \<and> h_portfolio_id ` set (holdings (ledger db)) \<subseteq> pf_id ` set (portfolios db)
     \<and> ledger_inv (ledger db)"

definition portfolio_init :: "portfolio_db \<Rightarrow> bool" where
  "portfolio_init db \<longleftrightarrow> portfolios db = [] \<and> ledger_init (ledger db)"

text \<open>The requests of a user that change state, with a new identifier from the server.\<close>

inductive portfolio_step :: "User \<Rightarrow> portfolio_db \<Rightarrow> portfolio_db \<Rightarrow> bool" for user where
  "new_id \<notin> pf_id ` set (portfolios db) \<Longrightarrow> list_portfolios db user new_id now = Inr (ps, db') \<Longrightarrow> portfolio_step user db db'"
| "new_id \<notin> pf_id ` set (portfolios db) \<Longrightarrow> create_portfolio db user b new_id now = Inr (p, db') \<Longrightarrow> portfolio_step user db db'"
| "update_portfolio db user pid u = Inr (p, db') \<Longrightarrow> portfolio_step user db db'"
| "delete_portfolio db user pid = Inr db' \<Longrightarrow> portfolio_step user db db'"
| "parse_create raw = Some body \<Longrightarrow> stored_qty (c_quantity body) \<Longrightarrow>
     create_transaction db user pid body new_id now = Inr (txn, db') \<Longrightarrow>
     bought (symbol_txns (ledger db') pid (c_symbol body)) * 10 ^ 4 < 10 ^ 28 \<Longrightarrow> portfolio_step user db db'"

lemma lift_Inr [simp]: "lift_p r = Inr x \<longleftrightarrow> r = Inr x" "lift_t q = Inr y \<longleftrightarrow> q = Inr y"
  by (cases r, simp_all add: lift_p_def, cases q, simp_all add: lift_t_def)

lemma default_created:
  assumes "get_or_create_default db uid i now = Inr (p, db')" "flush (portfolios db)"
  shows "flush (portfolios db')" "ledger db' = ledger db" "db' = db \<or> map pf_id (portfolios db') = map pf_id (portfolios db) @ [i]"
  using assms by (auto simp: get_or_create_default_def Let_def split: option.splits if_splits)

lemma grow_inv:
  assumes "portfolio_inv db" "flush (portfolios db')" "ledger db' = ledger db" "i \<notin> pf_id ` set (portfolios db)"
    and ids: "map pf_id (portfolios db') = map pf_id (portfolios db) @ is" "is = [] \<or> is = [i]"
  shows "portfolio_inv db'"
proof -
  have "pf_id ` set (portfolios db') = pf_id ` set (portfolios db) \<union> set is"
    using arg_cong [OF ids(1), of set] by simp
  then show ?thesis using assms by (auto simp: portfolio_inv_def)
qed

lemma delete_inv:
  assumes "portfolio_inv db" "portfolio_delete db uid pid = Inr db'"
  shows "portfolio_inv db'"
proof -
  obtain p where "portfolio_get db uid pid = Inr p"
    using assms(2) by (auto simp: portfolio_delete_def bind_r_Inr_iff)
  then have "db' = \<lparr>portfolios = filter (\<lambda>q. pf_id q \<noteq> pf_id p) (portfolios db), ledger = cascade (pf_id p) (ledger db)\<rparr>"
    using assms(2) by (simp add: portfolio_delete_def split: if_splits)
  then have db': "portfolios db' = filter (\<lambda>q. pf_id q \<noteq> pf_id p) (portfolios db)" "ledger db' = cascade (pf_id p) (ledger db)"
    by simp_all
  have "flush (filter P ps)" if "flush ps" for P ps
    using that distinct_map_filter [of pf_user_id "filter pf_is_default ps" P]
    by (auto simp: flush_def uq_user_name_def uq_user_default_def distinct_map_filter conj_commute)
  then show ?thesis using assms(1)
    by (auto simp: portfolio_inv_def db' cascade_ledger_inv distinct_map_filter) (auto simp: cascade_def)
qed

lemma create_transaction_inv:
  assumes inv: "portfolio_inv db" and body: "parse_create raw = Some body" "stored_qty (c_quantity body)"
    and cr: "create_transaction db user pid body i now = Inr (txn, db')"
    and fits: "bought (symbol_txns (ledger db') pid (c_symbol body)) * 10 ^ 4 < 10 ^ 28"
  shows "portfolio_inv db'"
proof -
  obtain p l pv where p: "portfolio_get db (u_id user) pid = Inr p" and l: "db' = db\<lparr>ledger := l\<rparr>"
    and c: "create (ledger db) (pf_id p) body (u_is_filer user) i now = Inr (l, txn, pv)"
    using cr by (auto simp: create_transaction_def bind_r_Inr_iff)
  have pid: "pf_id p = pid" "pid \<in> pf_id ` set (portfolios db)" using portfolio_get_Inr [OF p] by auto
  note li = create_ledger_inv [OF _ parse_create_pos [OF body(1)] body(2) c]
  have "ledger_inv l" using li inv fits pid by (simp add: portfolio_inv_def l)
  moreover have "t_portfolio_id ` set (transactions l) \<subseteq> pf_id ` set (portfolios db)"
    using create_Inr(3,4) [OF c] inv pid by (auto simp: portfolio_inv_def)
  moreover have "h_portfolio_id ` set (holdings l) \<subseteq> pf_id ` set (portfolios db)"
  proof -
    have "h_portfolio_id ` set (holdings l) \<subseteq> insert pid (h_portfolio_id ` set (holdings (ledger db)))"
      using refresh_keys [of "ledger db\<lparr>transactions := transactions (ledger db) @ [txn]\<rparr>" pid "c_symbol body"]
      by (simp add: create_Inr(4) [OF c] pid(1))
    also have "\<dots> \<subseteq> pf_id ` set (portfolios db)" using inv pid(2) by (simp add: portfolio_inv_def)
    finally show ?thesis .
  qed
  ultimately show ?thesis using inv by (auto simp: portfolio_inv_def l)
qed

interpretation portfolios: invariant_system portfolio_init "\<lambda>db db'. \<exists>user. portfolio_step user db db'" portfolio_inv
proof
  show "portfolio_inv db" if "portfolio_init db" for db
    using that ledger_init_inv by (auto simp: portfolio_init_def portfolio_inv_def flush_def uq_user_name_def
        uq_user_default_def ledger_init_def)
  fix db db' assume inv: "portfolio_inv db" and "\<exists>user. portfolio_step user db db'"
  then obtain user where step: "portfolio_step user db db'" by blast
  have fl: "flush (portfolios db)" using inv by (simp add: portfolio_inv_def)
  from step show "portfolio_inv db'"
  proof cases
    case (1 new_id now ps)
    then consider "db' = db" | p where "get_or_create_default db (u_id user) new_id now = Inr (p, db')"
      by (auto simp: list_portfolios_def Let_def bind_r_Inr_iff split: if_splits)
    then show ?thesis
    proof cases
      case 2
      from default_created [OF 2 fl] show ?thesis
        using grow_inv [OF inv _ _ 1(1), of db' "[new_id]"] inv by auto
    qed (simp add: inv)
  next
    case (2 new_id b now p)
    then show ?thesis using portfolio_create_Inr [OF fl] grow_inv [OF inv _ _ 2(1), of db' "[new_id]"]
      by (simp add: create_portfolio_def)
  next
    case (3 pid u p)
    from portfolio_update_Inr [of db "u_id user" pid u p db'] 3 have
      u: "flush (portfolios db')" "ledger db' = ledger db" "map pf_id (portfolios db') = map pf_id (portfolios db)"
      by (simp_all add: update_portfolio_def)
    then have "pf_id ` set (portfolios db') = pf_id ` set (portfolios db)" by (metis set_map)
    then show ?thesis using inv u by (simp add: portfolio_inv_def)
  next
    case (4 pid)
    then show ?thesis using delete_inv [OF inv] by (simp add: delete_portfolio_def)
  next
    case (5 raw body pid new_id now txn)
    then show ?thesis using create_transaction_inv [OF inv] by simp
  qed
qed

section \<open>Properties\<close>

abbreviation any_step :: "portfolio_db \<Rightarrow> portfolio_db \<Rightarrow> bool" where
  "any_step db db' \<equiv> \<exists>user. portfolio_step user db db'"

definition ex_pdb :: portfolio_db where
  "ex_pdb = \<lparr>portfolios = [], ledger = ex_ledger\<rparr>"

definition ex_user :: User where
  "ex_user = (new_user ''u1'' ''a@x.pk'' ''h'' None 0)"

definition ex_body :: PortfolioCreate where
  "ex_body = \<lparr>pc_name = ''Main'', pc_description = None, pc_base_currency = ''PKR'', pc_is_default = True\<rparr>"

definition ex_pdb1 :: portfolio_db where
  "ex_pdb1 = (case create_portfolio ex_pdb ex_user ex_body ''p'' 1 of Inr (p, db) \<Rightarrow> db | Inl e \<Rightarrow> ex_pdb)"

lemma ex_pdb1:
  "\<exists>p. create_portfolio ex_pdb ex_user ex_body ''p'' 1 = Inr (p, ex_pdb1)"
  "portfolios ex_pdb1 = [\<lparr>pf_id = ''p'', pf_user_id = ''u1'', pf_name = ''Main'', pf_description = None,
     pf_base_currency = ''PKR'', pf_is_default = True, pf_created_at = 1\<rparr>]"
  "portfolio_step ex_user ex_pdb ex_pdb1" "reach portfolio_init any_step ex_pdb1"
proof -
  have "is_ok (create_portfolio ex_pdb ex_user ex_body ''p'' 1)" by code_simp
  then show c: "\<exists>p. create_portfolio ex_pdb ex_user ex_body ''p'' 1 = Inr (p, ex_pdb1)"
    by (cases "create_portfolio ex_pdb ex_user ex_body ''p'' 1") (auto simp: ex_pdb1_def)
  show "portfolios ex_pdb1 = [\<lparr>pf_id = ''p'', pf_user_id = ''u1'', pf_name = ''Main'', pf_description = None,
     pf_base_currency = ''PKR'', pf_is_default = True, pf_created_at = 1\<rparr>]" by code_simp
  show st: "portfolio_step ex_user ex_pdb ex_pdb1"
    using c portfolio_step.intros(2) [of "''p''" ex_pdb ex_user ex_body 1] by (auto simp: ex_pdb_def)
  have "portfolio_init ex_pdb" by (simp add: portfolio_init_def ex_pdb_def ledger_init_def ex_ledger_def)
  then have "reach portfolio_init any_step ex_pdb" by (rule reach_init)
  then show "reach portfolio_init any_step ex_pdb1" by (rule reach_step) (use st in blast)
qed

text \<open>
  C9: whatever requests have been served, a user has at most one default portfolio and no two
  portfolios of one name, no transaction or snapshot outlives its portfolio, and every snapshot
  still holds the net position of its history.
\<close>

theorem reachable_portfolios_ok:
  assumes "reach portfolio_init any_step db"
  shows "(\<forall>p q. p \<in> set (portfolios db) \<longrightarrow> q \<in> set (portfolios db) \<longrightarrow> pf_user_id p = pf_user_id q \<longrightarrow>
        (pf_is_default p \<and> pf_is_default q \<or> pf_name p = pf_name q) \<longrightarrow> p = q)
    \<and> t_portfolio_id ` set (transactions (ledger db)) \<union> h_portfolio_id ` set (holdings (ledger db))
        \<subseteq> pf_id ` set (portfolios db)
    \<and> holding_qty (ledger db) pid symb = net_position (symbol_txns (ledger db) pid symb)"
proof -
  have inv: "portfolio_inv db" using portfolios.reach_inv [OF assms] .
  have "p = q" if "p \<in> set (portfolios db)" "q \<in> set (portfolios db)" "pf_user_id p = pf_user_id q"
    "pf_is_default p \<and> pf_is_default q \<or> pf_name p = pf_name q" for p q
    using inv that by (auto simp: portfolio_inv_def flush_def uq_user_name_def uq_user_default_def distinct_map dest: inj_onD)
  then show ?thesis using inv by (auto simp: portfolio_inv_def ledger_inv_def snapshots_current_def)
qed

theorem reachable_portfolios_ok_witness:
  "length (portfolios ex_pdb1) = 1
   \<and> holding_qty (ledger ex_pdb1) ''p'' ''OGDC'' = net_position (symbol_txns (ledger ex_pdb1) ''p'' ''OGDC'')"
  using reachable_portfolios_ok [OF ex_pdb1(4), of "''p''" "''OGDC''"] by (simp add: ex_pdb1(2))

text \<open>
  C10: clearing the old default before the flush works: the flush of \<open>create\<close> and of \<open>update\<close> fails
  exactly when the user has another portfolio of the requested name, which is what the error
  message says, and never because of the default flag; a new default is then the only one.
\<close>

theorem name_clash_is_the_only_conflict:
  assumes ids: "distinct (map pf_id (portfolios db))" and fl: "flush (portfolios db)"
    and got: "portfolio_get db uid pid = Inr p"
  shows "(portfolio_create db uid b i now = Inl e \<longleftrightarrow> e = already_named (pc_name b)
        \<and> (\<exists>q\<in>set (portfolios db). pf_user_id q = uid \<and> pf_name q = pc_name b))
    \<and> (portfolio_update db uid pid u = Inl e \<longleftrightarrow> (\<exists>n. pu_name u = Some n \<and> e = already_named n
        \<and> (\<exists>q\<in>set (portfolios db). pf_user_id q = uid \<and> pf_id q \<noteq> pid \<and> pf_name q = n)))
    \<and> (portfolio_update db uid pid u = Inr (p', db') \<longrightarrow> pu_is_default u = Some True \<longrightarrow>
        (\<forall>q\<in>set (portfolios db'). pf_user_id q = uid \<longrightarrow> (pf_is_default q \<longleftrightarrow> q = p')))"
proof -
  let ?row = "\<lparr>pf_id = i, pf_user_id = uid, pf_name = pc_name b, pf_description = pc_description b,
    pf_base_currency = pc_base_currency b, pf_is_default = pc_is_default b, pf_created_at = now\<rparr>"
  have "portfolio_create db uid b i now = Inl e \<longleftrightarrow> e = already_named (pc_name b)
      \<and> (\<exists>q\<in>set (portfolios db). pf_user_id q = uid \<and> pf_name q = pc_name b)"
    using create_flush [OF fl refl, where p = ?row and uid = uid and d = "pc_is_default b"] by (auto simp: portfolio_create_def Let_def)
  moreover have "portfolio_update db uid pid u = Inl e \<longleftrightarrow> (\<exists>n. pu_name u = Some n \<and> e = already_named n
      \<and> (\<exists>q\<in>set (portfolios db). pf_user_id q = uid \<and> pf_id q \<noteq> pid \<and> pf_name q = n))"
    using update_flush [OF ids fl got refl, of u]
    by (cases "pu_name u") (auto simp: portfolio_update_def got Let_def)
  moreover have "pf_is_default q \<longleftrightarrow> q = p'"
    if up: "portfolio_update db uid pid u = Inr (p', db')" "pu_is_default u = Some True"
      and q: "q \<in> set (portfolios db')" "pf_user_id q = uid" for q
  proof -
    have p': "p' = apply_update u p" and mem: "p' \<in> set (portfolios db')"
      using up portfolio_get_Inr [OF got]
      by (auto simp: portfolio_update_def got Let_def unset_default_def split: if_splits)
    have d: "pf_is_default p'" "pf_user_id p' = uid" using up(2) portfolio_get_Inr [OF got] by (simp_all add: p')
    have "uq_user_default (portfolios db')" using portfolio_update_Inr(1) [OF up(1)] by (simp add: flush_def)
    then show ?thesis using d q mem by (auto simp: uq_user_default_def distinct_map dest: inj_onD)
  qed
  ultimately show ?thesis by blast
qed

theorem name_clash_is_the_only_conflict_witness:
  "portfolio_create ex_pdb1 ''u1'' ex_body ''p2'' 2 = Inl (already_named ''Main'')
   \<and> is_ok (portfolio_create ex_pdb1 ''u1'' (ex_body\<lparr>pc_name := ''Other''\<rparr>) ''p2'' 2)"
proof -
  let ?p = "hd (portfolios ex_pdb1)"
  have h: "distinct (map pf_id (portfolios ex_pdb1))" "flush (portfolios ex_pdb1)"
    using portfolios.reach_inv [OF ex_pdb1(4)] by (simp_all add: portfolio_inv_def)
  have g: "portfolio_get ex_pdb1 ''u1'' ''p'' = Inr ?p" by (simp add: portfolio_get_def ex_pdb1(2))
  note c = name_clash_is_the_only_conflict [OF h g, THEN conjunct1]
  have "portfolio_create ex_pdb1 ''u1'' ex_body ''p2'' 2 = Inl (already_named ''Main'')"
    using c [of ex_body "''p2''" 2 "already_named ''Main''"] by (simp add: ex_pdb1(2) ex_body_def)
  moreover have "portfolio_create ex_pdb1 ''u1'' (ex_body\<lparr>pc_name := ''Other''\<rparr>) ''p2'' 2 \<noteq> Inl e" for e
    using c [of "ex_body\<lparr>pc_name := ''Other''\<rparr>" "''p2''" 2 e] by (simp add: ex_pdb1(2) ex_body_def)
  then have "is_ok (portfolio_create ex_pdb1 ''u1'' (ex_body\<lparr>pc_name := ''Other''\<rparr>) ''p2'' 2)"
    by (cases "portfolio_create ex_pdb1 ''u1'' (ex_body\<lparr>pc_name := ''Other''\<rparr>) ''p2'' 2") auto
  ultimately show ?thesis ..
qed

text \<open>The rows of one user's portfolios, and everything recorded under one portfolio.\<close>

definition owned :: "string \<Rightarrow> portfolio_db \<Rightarrow> Portfolio list" where
  "owned uid db = filter (\<lambda>p. pf_user_id p = uid) (portfolios db)"

definition recorded :: "string \<Rightarrow> portfolio_db \<Rightarrow> Transaction list \<times> HoldingsSnapshot list" where
  "recorded pid db = (filter (\<lambda>t. t_portfolio_id t = pid) (transactions (ledger db)),
     filter (\<lambda>h. h_portfolio_id h = pid) (holdings (ledger db)))"

lemma unset_default_other:
  "uid \<noteq> v \<Longrightarrow> filter (\<lambda>p. pf_user_id p = v) (unset_default uid ps) = filter (\<lambda>p. pf_user_id p = v) ps"
  by (induction ps) (auto simp: unset_default_def)

lemma update_row_other:
  assumes "\<forall>q\<in>set ps. pf_id q = i \<longrightarrow> pf_user_id q \<noteq> v" "pf_user_id x \<noteq> v"
  shows "filter (\<lambda>p. pf_user_id p = v) (map (\<lambda>q. if pf_id q = i then x else q) ps) = filter (\<lambda>p. pf_user_id p = v) ps"
  using assms by (induction ps) auto

lemma filter_row_other:
  assumes "\<forall>q\<in>set ps. pf_id q = i \<longrightarrow> pf_user_id q \<noteq> v"
  shows "filter (\<lambda>p. pf_user_id p = v) (filter (\<lambda>q. pf_id q \<noteq> i) ps) = filter (\<lambda>p. pf_user_id p = v) ps"
  using assms by (induction ps) auto

lemma refresh_recorded:
  assumes "pid' \<noteq> pid"
  shows "filter (\<lambda>h. h_portfolio_id h = pid') (holdings (refresh_holdings_snapshot l pid symb))
    = filter (\<lambda>h. h_portfolio_id h = pid') (holdings l)"
proof -
  have F: "filter (\<lambda>h. h_portfolio_id h = pid') (filter (\<lambda>h. h_portfolio_id h = pid \<longrightarrow> h_symbol h \<noteq> symb) hs)
      = filter (\<lambda>h. h_portfolio_id h = pid') hs" for hs using assms by (induction hs) auto
  have M: "filter (\<lambda>h. h_portfolio_id h = pid') (map (\<lambda>h. if h_portfolio_id h = pid \<and> h_symbol h = symb then x else h) hs)
      = filter (\<lambda>h. h_portfolio_id h = pid') hs" if "h_portfolio_id x = pid" for hs and x :: HoldingsSnapshot
    using that assms by (induction hs) auto
  show ?thesis using assms by (simp add: refresh_holdings_snapshot_def Let_def F M del: filter_filter)
qed

lemma same_id:
  assumes "distinct (map pf_id ps)" "p \<in> set ps" "q \<in> set ps" "pf_id p = pf_id q"
  shows "p = q"
  using assms by (auto simp: distinct_map dest: inj_onD)

lemma unset_default_owner:
  "(\<forall>q\<in>set (unset_default uid ps). pf_id q = i \<longrightarrow> pf_user_id q \<noteq> v)
    \<longleftrightarrow> (\<forall>q\<in>set ps. pf_id q = i \<longrightarrow> pf_user_id q \<noteq> v)"
  by (induction ps) (simp_all add: unset_default_def)

lemma other_owner:
  assumes inv: "portfolio_inv db" and got: "portfolio_get db uid pid = Inr x" and v: "v \<noteq> uid"
  shows "\<forall>q\<in>set (portfolios db). pf_id q = pf_id x \<longrightarrow> pf_user_id q \<noteq> v"
proof (intro ballI impI)
  fix q assume q: "q \<in> set (portfolios db)" "pf_id q = pf_id x"
  have "distinct (map pf_id (portfolios db))" using inv by (simp add: portfolio_inv_def)
  then have "q = x" by (rule same_id) (use q portfolio_get_Inr [OF got] in auto)
  then show "pf_user_id q \<noteq> v" using portfolio_get_Inr [OF got] v by simp
qed

lemma filter_eq_neq: "a \<noteq> b \<Longrightarrow> filter (\<lambda>t. g t = a) (filter (\<lambda>t. g t \<noteq> b) ts) = filter (\<lambda>t. g t = a) ts"
  by (induction ts) auto

lemma step_owned:
  assumes inv: "portfolio_inv db" and step: "portfolio_step user db db'" and v: "v \<noteq> u_id user"
  shows "owned v db' = owned v db"
  using step
proof cases
  case (1 new_id now ps)
  then show ?thesis using v
    by (auto simp: list_portfolios_def get_or_create_default_def Let_def bind_r_Inr_iff owned_def
        split: if_splits option.splits)
next
  case (2 new_id b now p)
  then show ?thesis using v unset_default_other [of "u_id user" v "portfolios db"]
    by (auto simp: create_portfolio_def portfolio_create_def Let_def owned_def split: if_splits)
next
  case (3 pid u p)
  then obtain x where x: "portfolio_get db (u_id user) pid = Inr x"
    by (auto simp: update_portfolio_def portfolio_update_def bind_r_Inr_iff)
  define ps where "ps = (if pu_is_default u = Some True \<and> \<not> pf_is_default x
      then unset_default (u_id user) (portfolios db) else portfolios db)"
  then have ps: "ps = unset_default (u_id user) (portfolios db) \<or> ps = portfolios db"
    "portfolios db' = map (\<lambda>q. if pf_id q = pf_id x then apply_update u x else q) ps"
    using 3 by (auto simp: update_portfolio_def portfolio_update_def x Let_def split: if_splits)
  have ids: "distinct (map pf_id ps)" using ps(1) inv by (auto simp: portfolio_inv_def)
  have us: "pf_user_id x = u_id user" "x \<in> set (portfolios db)" using portfolio_get_Inr [OF x] by auto
  have "\<forall>q\<in>set ps. pf_id q = pf_id x \<longrightarrow> pf_user_id q \<noteq> v"
    using ps(1) other_owner [OF inv x v] unset_default_owner by metis
  from update_row_other [OF this, of "apply_update u x"] us v ps
  show ?thesis using unset_default_other [of "u_id user" v "portfolios db"] by (auto simp: owned_def)
next
  case (4 pid)
  then obtain x where x: "portfolio_get db (u_id user) pid = Inr x"
    by (auto simp: delete_portfolio_def portfolio_delete_def bind_r_Inr_iff)
  from filter_row_other [OF other_owner [OF inv x v]] 4 show ?thesis
    by (auto simp: delete_portfolio_def portfolio_delete_def x owned_def split: if_splits simp del: filter_filter)
next
  case (5 raw body pid new_id now txn)
  then show ?thesis by (auto simp: create_transaction_def bind_r_Inr_iff owned_def)
qed

lemma step_recorded:
  assumes inv: "portfolio_inv db" and step: "portfolio_step user db db'"
    and p: "p \<in> set (portfolios db)" "pf_user_id p \<noteq> u_id user"
  shows "recorded (pf_id p) db' = recorded (pf_id p) db"
proof -
  have other: "pf_id x \<noteq> pf_id p" if "portfolio_get db (u_id user) pid = Inr x" for x pid
    using other_owner [OF inv that p(2)] p(1) by auto
  have frame: "recorded (pf_id p) db' = recorded (pf_id p) db" if "ledger db' = ledger db"
    using that by (simp add: recorded_def)
  have fl: "flush (portfolios db)" using inv by (simp add: portfolio_inv_def)
  from step show ?thesis
  proof cases
    case (1 new_id now ps)
    then have "ledger db' = ledger db"
      by (auto simp: list_portfolios_def get_or_create_default_def Let_def bind_r_Inr_iff split: if_splits option.splits)
    then show ?thesis by (rule frame)
  next
    case (2 new_id b now x)
    then have "portfolio_create db (u_id user) b new_id now = Inr (x, db')" by (simp add: create_portfolio_def)
    then show ?thesis by (rule frame [OF portfolio_create_Inr(2) [OF fl]])
  next
    case (3 pid u x)
    then have "portfolio_update db (u_id user) pid u = Inr (x, db')" by (simp add: update_portfolio_def)
    then show ?thesis by (rule frame [OF portfolio_update_Inr(2)])
  next
    case (4 pid)
    then obtain x where x: "portfolio_get db (u_id user) pid = Inr x" "ledger db' = cascade (pf_id x) (ledger db)"
      by (auto simp: delete_portfolio_def portfolio_delete_def bind_r_Inr_iff split: if_splits)
    from other [OF x(1)] have "pf_id p \<noteq> pf_id x" by simp
    then show ?thesis by (simp add: recorded_def x(2) cascade_def filter_eq_neq del: filter_filter)
  next
    case (5 raw body pid new_id now txn)
    then obtain x l pv where x: "portfolio_get db (u_id user) pid = Inr x" "db' = db\<lparr>ledger := l\<rparr>"
      and c: "create (ledger db) (pf_id x) body (u_is_filer user) new_id now = Inr (l, txn, pv)"
      by (auto simp: create_transaction_def bind_r_Inr_iff)
    have "t_portfolio_id txn \<noteq> pf_id p" using create_Inr(3) [OF c] other [OF x(1)] by simp
    then show ?thesis using other [OF x(1)]
      by (simp add: recorded_def x(2) create_Inr(4) [OF c] refresh_recorded)
  qed
qed



text \<open>
  Listing the portfolios of a user always succeeds with at least one, since the default is
  only created for a user who has none; the service's own \<open>get_or_create_default\<close> raises an
  \<^verbatim>\<open>IntegrityError\<close> exactly for a user whose portfolio \<^verbatim>\<open>Main\<close> is not the default and who has none.
\<close>

lemma default_portfolio_creation:
  assumes "reach portfolio_init any_step db"
  shows "(\<exists>ps db'. list_portfolios db user i now = Inr (ps, db') \<and> ps \<noteq> [])
    \<and> (get_or_create_default db uid i now = Inl e \<longleftrightarrow> e = IntegrityError
        \<and> (\<forall>p\<in>set (owned uid db). \<not> pf_is_default p) \<and> (\<exists>p\<in>set (owned uid db). pf_name p = ''Main''))"
proof -
  have fl: "flush (portfolios db)" using portfolios.reach_inv [OF assms] by (simp add: portfolio_inv_def)
  have g: "get_or_create_default db uid i now = Inl e \<longleftrightarrow> e = IntegrityError
        \<and> (\<forall>p\<in>set (owned uid db). \<not> pf_is_default p) \<and> (\<exists>p\<in>set (owned uid db). pf_name p = ''Main'')" for uid e
  proof (cases "List.find (\<lambda>p. pf_user_id p = uid \<and> pf_is_default p) (portfolios db)")
    case (Some x)
    then have "x \<in> set (owned uid db)" "pf_is_default x" by (auto simp: find_Some_iff owned_def)
    then show ?thesis using Some by (auto simp: get_or_create_default_def)
  next
    case None
    then have "\<forall>p\<in>set (owned uid db). \<not> pf_is_default p" by (auto simp: find_None_iff owned_def)
    with None show ?thesis
      by (auto simp: get_or_create_default_def Let_def flush_append fl owned_def)
  qed
  have "\<exists>ps db'. list_portfolios db user i now = Inr (ps, db') \<and> ps \<noteq> []"
  proof (cases "list_for_user db (u_id user) = []")
    case True
    then have "owned (u_id user) db = []" unfolding list_for_user_def owned_def by (metis length_0_conv length_sort)
    then have "get_or_create_default db (u_id user) i now \<noteq> Inl e" for e using g by simp
    then obtain x where "get_or_create_default db (u_id user) i now = Inr x"
      by (cases "get_or_create_default db (u_id user) i now") auto
    then show ?thesis using True by (cases x) (simp add: list_portfolios_def lift_p_def)
  qed (simp add: list_portfolios_def)
  with g show ?thesis by blast
qed

end
