(* ===== verification/TaxSimulator.thy ===== *)
theory TaxSimulator
  imports Portfolios
begin

text \<open>
  The filer-versus-non-filer simulator, \<^verbatim>\<open>psx_api/services/tax_simulator_service.py\<close> and its endpoint:
  the history of every portfolio of a user is replayed and each sale is taxed twice. The current
  date is an argument; the sentence of the result is the datatype \<open>narrative\<close> with its numbers.
\<close>

section \<open>Replaying a portfolio\<close>

record sim_totals =
  sim_cgt_filer :: dec
  sim_cgt_nonfiler :: dec
  sim_gross_gain :: dec
  sim_brokerage :: dec
  sim_fed :: dec
  sim_cvt :: dec
  sim_sells :: int

definition zero_totals :: sim_totals where
  "zero_totals = \<lparr>sim_cgt_filer = Dec 0, sim_cgt_nonfiler = Dec 0, sim_gross_gain = Dec 0,
     sim_brokerage = Dec 0, sim_fed = Dec 0, sim_cvt = Dec 0, sim_sells = 0\<rparr>"

record sim_state =
  lots_by_symbol :: "(string \<times> BuyLot list) list"
  sim_tot :: sim_totals

definition lots_of :: "sim_state \<Rightarrow> string \<Rightarrow> BuyLot list" where
  "lots_of st symb = (case map_of (lots_by_symbol st) symb of None \<Rightarrow> [] | Some ls \<Rightarrow> ls)"

text \<open>Consuming the sold quantity from the tracked lots, in the order they were added.\<close>

fun sim_consume :: "dec \<Rightarrow> BuyLot list \<Rightarrow> BuyLot list" where
  "sim_consume r [] = []"
| "sim_consume r (lot # lots) =
     (if r \<le> Dec 0 then lot # lots
      else let taken = min (lot_quantity lot) r
           in lot\<lparr>lot_quantity := lot_quantity lot - taken\<rparr> # sim_consume (r - taken) lots)"

definition sim_sale :: "TaxBracket list \<Rightarrow> Transaction \<Rightarrow> bool \<Rightarrow> sale" where
  "sim_sale brackets t filer = \<lparr>sell_quantity = t_quantity t, sell_price = t_price t, sell_date = t_date t,
     sell_filer = filer, sell_brackets = brackets\<rparr>"

definition count_sale :: "Transaction \<Rightarrow> CgtResult \<Rightarrow> CgtResult \<Rightarrow> sim_totals \<Rightarrow> sim_totals" where
  "count_sale t fr nr tot =
     \<lparr>sim_cgt_filer = sim_cgt_filer tot + total_cgt_pkr fr,
      sim_cgt_nonfiler = sim_cgt_nonfiler tot + total_cgt_pkr nr,
      sim_gross_gain = sim_gross_gain tot + total_gross_gain_pkr fr,
      sim_brokerage = sim_brokerage tot + t_brokerage_pkr t,
      sim_fed = sim_fed tot + t_fed_pkr t, sim_cvt = sim_cvt tot + t_cvt_pkr t,
      sim_sells = sim_sells tot + 1\<rparr>"

text \<open>One row: \<^verbatim>\<open>NoApplicableTaxRuleError\<close> skips the sale, any other exception ends the simulation.\<close>

definition sim_step ::
  "TaxBracket list \<Rightarrow> date \<Rightarrow> date \<Rightarrow> sim_state \<Rightarrow> Transaction \<Rightarrow> tax_error + sim_state" where
  "sim_step brackets date_from date_to st t =
     (if is_acquisition t then
        Inr (st\<lparr>lots_by_symbol := upsert (t_symbol t)
               (\<lambda>old. (case old of None \<Rightarrow> [] | Some ls \<Rightarrow> ls) @
                  [\<lparr>lot_transaction_id = t_id t, lot_buy_date = t_date t, lot_quantity = t_quantity t, lot_price = t_price t\<rparr>])
               (lots_by_symbol st)\<rparr>)
      else if t_type t = SELL then
        (let lots = filter (\<lambda>lot. Dec 0 < lot_quantity lot) (lots_of st (t_symbol t))
         in if lots = [] then Inr st
            else case bind_r (match_fifo lots (sim_sale brackets t True)) (\<lambda>fr.
                   bind_r (match_fifo lots (sim_sale brackets t False)) (\<lambda>nr. Inr (fr, nr))) of
                   Inl (NoApplicableTaxRuleError f d h) \<Rightarrow> Inr st
                 | Inl e \<Rightarrow> Inl e
                 | Inr (fr, nr) \<Rightarrow>
                     Inr \<lparr>lots_by_symbol =
                            upsert (t_symbol t) (\<lambda>old. sim_consume (t_quantity t) (the old)) (lots_by_symbol st),
                          sim_tot = (if date_from \<le> t_date t \<and> t_date t \<le> date_to
                                     then count_sale t fr nr (sim_tot st) else sim_tot st)\<rparr>)
      else Inr st)"

fun sim_walk ::
  "TaxBracket list \<Rightarrow> date \<Rightarrow> date \<Rightarrow> sim_state \<Rightarrow> Transaction list \<Rightarrow> tax_error + sim_state" where
  "sim_walk brackets date_from date_to st [] = Inr st"
| "sim_walk brackets date_from date_to st (t # ts) =
     bind_r (sim_step brackets date_from date_to st t) (\<lambda>st'. sim_walk brackets date_from date_to st' ts)"

definition simulate_portfolio ::
  "ledger_db \<Rightarrow> string \<Rightarrow> TaxBracket list \<Rightarrow> date \<Rightarrow> date \<Rightarrow> tax_error + sim_totals" where
  "simulate_portfolio db pid brackets date_from date_to =
     bind_r (sim_walk brackets date_from date_to \<lparr>lots_by_symbol = [], sim_tot = zero_totals\<rparr>
       (sort_key (\<lambda>t. (t_date t, t_created_at t)) (filter (\<lambda>t. t_portfolio_id t = pid) (transactions db))))
       (\<lambda>st. Inr (sim_tot st))"

section \<open>The whole simulation\<close>

datatype narrative =
    NoActivity
  | NoSells
  | NoDifference int
  | KeptAdditional flt int

record sim_result =
  r_date_from :: date
  r_date_to :: date
  r_sells_processed :: int
  r_total_gross_gain_pkr :: dec
  r_total_brokerage_pkr :: dec
  r_total_fed_pkr :: dec
  r_total_cvt_pkr :: dec
  r_filer_cgt_pkr :: dec
  r_filer_net_realised_pkr :: dec
  r_nonfiler_cgt_pkr :: dec
  r_nonfiler_net_realised_pkr :: dec
  r_filer_savings_pkr :: dec
  r_filer_savings_pct :: dec
  r_narrative :: narrative

definition empty_result :: "date \<Rightarrow> date \<Rightarrow> sim_result" where
  "empty_result date_from date_to =
     \<lparr>r_date_from = date_from, r_date_to = date_to, r_sells_processed = 0, r_total_gross_gain_pkr = Dec 0,
      r_total_brokerage_pkr = Dec 0, r_total_fed_pkr = Dec 0, r_total_cvt_pkr = Dec 0,
      r_filer_cgt_pkr = Dec 0, r_filer_net_realised_pkr = Dec 0, r_nonfiler_cgt_pkr = Dec 0,
      r_nonfiler_net_realised_pkr = Dec 0, r_filer_savings_pkr = Dec 0, r_filer_savings_pct = Dec 0,
      r_narrative = NoActivity\<rparr>"

definition narrate :: "dec \<Rightarrow> int \<Rightarrow> narrative" where
  "narrate savings sells =
     (if sells = 0 then NoSells else if savings \<le> Dec 0 then NoDifference sells
      else KeptAdditional (flt_of_dec savings) sells)"

definition add_totals :: "sim_totals \<Rightarrow> sim_totals \<Rightarrow> sim_totals" where
  "add_totals a b =
     \<lparr>sim_cgt_filer = sim_cgt_filer a + sim_cgt_filer b, sim_cgt_nonfiler = sim_cgt_nonfiler a + sim_cgt_nonfiler b,
      sim_gross_gain = sim_gross_gain a + sim_gross_gain b, sim_brokerage = sim_brokerage a + sim_brokerage b,
      sim_fed = sim_fed a + sim_fed b, sim_cvt = sim_cvt a + sim_cvt b, sim_sells = sim_sells a + sim_sells b\<rparr>"

fun sim_all ::
  "ledger_db \<Rightarrow> TaxBracket list \<Rightarrow> date \<Rightarrow> date \<Rightarrow> sim_totals \<Rightarrow> Portfolio list \<Rightarrow> tax_error + sim_totals" where
  "sim_all db brackets date_from date_to tot [] = Inr tot"
| "sim_all db brackets date_from date_to tot (p # ps) =
     bind_r (simulate_portfolio db (pf_id p) brackets date_from date_to) (\<lambda>x.
       sim_all db brackets date_from date_to (add_totals tot x) ps)"

definition summarise :: "date \<Rightarrow> date \<Rightarrow> sim_totals \<Rightarrow> sim_result" where
  "summarise date_from date_to tot =
     (let charges = sim_brokerage tot + sim_fed tot + sim_cvt tot;
          net_filer = sim_gross_gain tot - charges - sim_cgt_filer tot;
          net_nonfiler = sim_gross_gain tot - charges - sim_cgt_nonfiler tot;
          savings = sim_cgt_nonfiler tot - sim_cgt_filer tot
      in \<lparr>r_date_from = date_from, r_date_to = date_to, r_sells_processed = sim_sells tot,
          r_total_gross_gain_pkr = quantize 2 (sim_gross_gain tot),
          r_total_brokerage_pkr = quantize 2 (sim_brokerage tot), r_total_fed_pkr = quantize 2 (sim_fed tot),
          r_total_cvt_pkr = quantize 2 (sim_cvt tot), r_filer_cgt_pkr = quantize 2 (sim_cgt_filer tot),
          r_filer_net_realised_pkr = quantize 2 net_filer,
          r_nonfiler_cgt_pkr = quantize 2 (sim_cgt_nonfiler tot),
          r_nonfiler_net_realised_pkr = quantize 2 net_nonfiler,
          r_filer_savings_pkr = quantize 2 savings,
          r_filer_savings_pct =
            (if Dec 0 < sim_cgt_nonfiler tot then quantize 2 (savings / sim_cgt_nonfiler tot * Dec 100) else Dec 0),
          r_narrative = narrate savings (sim_sells tot)\<rparr>)"

definition simulate ::
  "portfolio_db \<Rightarrow> string \<Rightarrow> date option \<Rightarrow> date option \<Rightarrow> date \<Rightarrow> tax_error + sim_result" where
  "simulate db uid from_opt to_opt today =
     (let date_to = (case to_opt of None \<Rightarrow> today | Some d \<Rightarrow> d);
          date_from = (case from_opt of None \<Rightarrow> date_to - 365 | Some d \<Rightarrow> d);
          ps = filter (\<lambda>p. pf_user_id p = uid) (portfolios db)
      in if ps = [] then Inr (empty_result date_from date_to)
         else bind_r (sim_all (ledger db) (load_cgt_brackets (ledger db)) date_from date_to zero_totals ps) (\<lambda>tot.
                Inr (summarise date_from date_to tot)))"

text \<open>The endpoint passes on what the service returns or raises.\<close>

definition simulate_ep ::
  "portfolio_db \<Rightarrow> User \<Rightarrow> date option \<Rightarrow> date option \<Rightarrow> date \<Rightarrow> http_error + sim_result" where
  "simulate_ep db user from_opt to_opt today =
     (case simulate db (u_id user) from_opt to_opt today of Inl e \<Rightarrow> Inl ServerError | Inr r \<Rightarrow> Inr r)"

section \<open>The two taxations of one sale\<close>

text \<open>A filer is never taxed at a higher rate: what the simulation is about.\<close>

definition filer_favoured :: "TaxBracket list \<Rightarrow> bool" where
  "filer_favoured brackets \<longleftrightarrow> (\<forall>d h bf bn. find_bracket brackets d True h = Inr bf \<longrightarrow>
     find_bracket brackets d False h = Inr bn \<longrightarrow> rate_pct bf \<le> rate_pct bn)"

definition lot_le :: "MatchedLot \<Rightarrow> MatchedLot \<Rightarrow> bool" where
  "lot_le a b \<longleftrightarrow> m_cgt_pkr a \<le> m_cgt_pkr b \<and> m_gross_gain_pkr a = m_gross_gain_pkr b"

lemma match_lot_le:
  assumes "filer_favoured brackets"
    and f: "match_lot (sim_sale brackets t True) lot q = Inr a" and n: "match_lot (sim_sale brackets t False) lot q = Inr b"
  shows "lot_le a b"
proof (cases "Dec 0 < (t_price t - lot_price lot) * q")
  case False
  with f n show ?thesis by (auto simp: match_lot_def sim_sale_def lot_le_def Let_def)
next
  case True
  let ?g = "(t_price t - lot_price lot) * q"
  obtain bf bn where bf: "find_bracket brackets (t_date t) True (t_date t - lot_buy_date lot) = Inr bf"
    "m_cgt_pkr a = quantize_paisa (?g * rate_pct bf / Dec 100)"
    and bn: "find_bracket brackets (t_date t) False (t_date t - lot_buy_date lot) = Inr bn"
    "m_cgt_pkr b = quantize_paisa (?g * rate_pct bn / Dec 100)"
    and g: "m_gross_gain_pkr a = m_gross_gain_pkr b"
    using f n True by (auto simp: match_lot_def sim_sale_def Let_def bind_r_Inr_iff)
  have "dval (rate_pct bf) \<le> dval (rate_pct bn)"
    using assms(1) bf(1) bn(1) by (simp add: filer_favoured_def dec_le_iff)
  then have "dval ?g * dval (rate_pct bf) \<le> dval ?g * dval (rate_pct bn)"
    using True by (intro mult_left_mono) (auto simp: dec_less_iff simp del: dval_simps)
  then have "dec28 (dec28 (dval ?g * dval (rate_pct bf)) / 100) \<le> dec28 (dec28 (dval ?g * dval (rate_pct bn)) / 100)"
    by (intro dec_r.mono divide_right_mono) auto
  then have "m_cgt_pkr a \<le> m_cgt_pkr b"
    unfolding bf(2) bn(2) quantize_paisa_def by (simp add: dec_le_iff qz_up.mono)
  with g show ?thesis by (simp add: lot_le_def)
qed

lemma fifo_loop_le:
  assumes "filer_favoured brackets"
    and "fifo_loop (sim_sale brackets t True) lots st = Inr a" "fifo_loop (sim_sale brackets t False) lots st' = Inr b"
    and "remaining st = remaining st'" "list_all2 lot_le (matched_so_far st) (matched_so_far st')"
  shows "list_all2 lot_le (matched_so_far a) (matched_so_far b)"
  using assms(2-)
proof (induction lots arbitrary: st st')
  case (Cons lot lots)
  let ?q = "min (lot_quantity lot) (remaining st')"
  show ?case
  proof (cases "remaining st' \<le> Dec 0 \<or> lot_quantity lot \<le> Dec 0 \<or> ?q \<le> Dec 0")
    case True
    then show ?thesis using Cons.prems Cons.IH [OF _ _ Cons.prems(3,4)]
      by (auto simp: Let_def split: if_splits)
  next
    case False
    then obtain m m' where m: "match_lot (sim_sale brackets t True) lot ?q = Inr m"
        "match_lot (sim_sale brackets t False) lot ?q = Inr m'"
      and rest: "fifo_loop (sim_sale brackets t True) lots
          \<lparr>remaining = remaining st - ?q, matched_so_far = matched_so_far st @ [m],
           total_qty_for_avg = total_qty_for_avg st + ?q, weighted_cost = weighted_cost st + lot_price lot * ?q\<rparr> = Inr a"
        "fifo_loop (sim_sale brackets t False) lots
          \<lparr>remaining = remaining st' - ?q, matched_so_far = matched_so_far st' @ [m'],
           total_qty_for_avg = total_qty_for_avg st' + ?q, weighted_cost = weighted_cost st' + lot_price lot * ?q\<rparr> = Inr b"
      using Cons.prems(1-3) by (auto simp: Let_def bind_r_Inr_iff)
    show ?thesis
      by (rule Cons.IH [OF rest]) (use Cons.prems(3,4) match_lot_le [OF assms(1) m] in \<open>auto intro: list_all2_appendI\<close>)
  qed
qed simp

lemma foldl_plus_mono:
  assumes "list_all2 (\<le>) xs ys" "a \<le> (b :: dec)"
  shows "foldl (+) a xs \<le> foldl (+) b ys"
  using assms
proof (induction arbitrary: a b rule: list_all2_induct)
  case (Cons x xs y ys)
  have "a + x \<le> b + y" using Cons by (auto simp: dec_le_iff intro: dec_r.mono)
  from Cons.IH [OF this] show ?case by simp
qed simp

lemma match_fifo_filer:
  assumes "filer_favoured brackets"
    and "match_fifo lots (sim_sale brackets t True) = Inr fr" "match_fifo lots (sim_sale brackets t False) = Inr nr"
  shows "total_cgt_pkr fr \<le> total_cgt_pkr nr" "total_gross_gain_pkr fr = total_gross_gain_pkr nr"
proof -
  obtain sf sn where sf: "fifo_loop (sim_sale brackets t True) (sort_lots lots)
      \<lparr>remaining = t_quantity t, matched_so_far = [], total_qty_for_avg = Dec 0, weighted_cost = Dec 0\<rparr> = Inr sf"
    "total_cgt_pkr fr = quantize_paisa (dec_sum (map m_cgt_pkr (matched_so_far sf)))"
    "total_gross_gain_pkr fr = quantize_paisa (dec_sum (map m_gross_gain_pkr (matched_so_far sf)))"
    and sn: "fifo_loop (sim_sale brackets t False) (sort_lots lots)
      \<lparr>remaining = t_quantity t, matched_so_far = [], total_qty_for_avg = Dec 0, weighted_cost = Dec 0\<rparr> = Inr sn"
    "total_cgt_pkr nr = quantize_paisa (dec_sum (map m_cgt_pkr (matched_so_far sn)))"
    "total_gross_gain_pkr nr = quantize_paisa (dec_sum (map m_gross_gain_pkr (matched_so_far sn)))"
    using assms(2,3) by (elim match_fifo_Inr) (auto simp: sim_sale_def)
  have le: "list_all2 lot_le (matched_so_far sf) (matched_so_far sn)"
    by (rule fifo_loop_le [OF assms(1) sf(1) sn(1)]) simp_all
  then have "list_all2 (\<le>) (map m_cgt_pkr (matched_so_far sf)) (map m_cgt_pkr (matched_so_far sn))"
    by (auto simp: list_all2_conv_all_nth lot_le_def)
  from foldl_plus_mono [OF this order_refl] show "total_cgt_pkr fr \<le> total_cgt_pkr nr"
    unfolding sf(2) sn(2) quantize_paisa_def dec_sum_def by (simp add: dec_le_iff qz_up.mono)
  have "map m_gross_gain_pkr (matched_so_far sf) = map m_gross_gain_pkr (matched_so_far sn)"
    using le by (auto simp: list_all2_conv_all_nth lot_le_def intro!: nth_equalityI)
  then show "total_gross_gain_pkr fr = total_gross_gain_pkr nr" by (simp add: sf(3) sn(3))
qed

text \<open>The totals keep the order, through a portfolio and over all of them.\<close>

definition totals_le :: "sim_totals \<Rightarrow> bool" where
  "totals_le tot \<longleftrightarrow> sim_cgt_filer tot \<le> sim_cgt_nonfiler tot"

lemma dec_plus_mono: "a \<le> b \<Longrightarrow> c \<le> d \<Longrightarrow> a + c \<le> b + (d :: dec)"
  by (auto simp: dec_le_iff intro: dec_r.mono)

lemma sim_step_sellE:
  assumes "sim_step brackets date_from date_to st t = Inr st'"
  obtains (buy) "is_acquisition t" "sim_tot st' = sim_tot st"
      "lots_by_symbol st' = upsert (t_symbol t) (\<lambda>old. (case old of None \<Rightarrow> [] | Some ls \<Rightarrow> ls) @
          [\<lparr>lot_transaction_id = t_id t, lot_buy_date = t_date t, lot_quantity = t_quantity t, lot_price = t_price t\<rparr>])
          (lots_by_symbol st)"
    | (skip) "\<not> is_acquisition t" "st' = st"
    | (sell) fr nr lots where "\<not> is_acquisition t" "t_type t = SELL" "lots = filter (\<lambda>lot. Dec 0 < lot_quantity lot) (lots_of st (t_symbol t))"
      "lots \<noteq> []" "match_fifo lots (sim_sale brackets t True) = Inr fr" "match_fifo lots (sim_sale brackets t False) = Inr nr"
      "st' = \<lparr>lots_by_symbol = upsert (t_symbol t) (\<lambda>old. sim_consume (t_quantity t) (the old)) (lots_by_symbol st),
              sim_tot = (if date_from \<le> t_date t \<and> t_date t \<le> date_to then count_sale t fr nr (sim_tot st) else sim_tot st)\<rparr>"
proof -
  let ?lots = "filter (\<lambda>lot. Dec 0 < lot_quantity lot) (lots_of st (t_symbol t))"
  consider (a) "is_acquisition t" | (b) "\<not> is_acquisition t" "t_type t \<noteq> SELL \<or> ?lots = []"
    | (c) "\<not> is_acquisition t" "t_type t = SELL" "?lots \<noteq> []" by blast
  then show ?thesis
  proof cases
    case a with assms buy show ?thesis by (auto simp: sim_step_def)
  next
    case b with assms skip show ?thesis by (auto simp: sim_step_def Let_def split: if_splits)
  next
    case c
    let ?m = "bind_r (match_fifo ?lots (sim_sale brackets t True)) (\<lambda>fr.
        bind_r (match_fifo ?lots (sim_sale brackets t False)) (\<lambda>nr. Inr (fr, nr)))"
    show ?thesis
    proof (cases ?m)
      case (Inl e)
      with assms c skip show ?thesis by (cases e) (auto simp: sim_step_def Let_def)
    next
      case (Inr x)
      then obtain fr nr where "x = (fr, nr)" "match_fifo ?lots (sim_sale brackets t True) = Inr fr"
        "match_fifo ?lots (sim_sale brackets t False) = Inr nr" by (auto simp: bind_r_Inr_iff)
      with assms c sell show ?thesis by (auto simp: sim_step_def Let_def)
    qed
  qed
qed

lemma sim_step_le:
  assumes "filer_favoured brackets" "sim_step brackets date_from date_to st t = Inr st'" "totals_le (sim_tot st)"
  shows "totals_le (sim_tot st')"
  using assms(2)
proof (cases rule: sim_step_sellE)
  case (sell fr nr lots)
  from match_fifo_filer(1) [OF assms(1) sell(5,6)] assms(3) show ?thesis
    by (simp add: sell(7) totals_le_def count_sale_def dec_plus_mono)
qed (use assms(3) in simp_all)

lemma sim_walk_le:
  "filer_favoured brackets \<Longrightarrow> sim_walk brackets date_from date_to st ts = Inr st' \<Longrightarrow> totals_le (sim_tot st) \<Longrightarrow> totals_le (sim_tot st')"
  by (induction ts arbitrary: st) (auto simp: bind_r_Inr_iff dest: sim_step_le)

lemma sim_all_le:
  assumes "filer_favoured brackets"
  shows "sim_all db brackets date_from date_to tot ps = Inr tot' \<Longrightarrow> totals_le tot \<Longrightarrow> totals_le tot'"
proof (induction ps arbitrary: tot)
  case (Cons p ps)
  then obtain x where x: "simulate_portfolio db (pf_id p) brackets date_from date_to = Inr x"
    and rest: "sim_all db brackets date_from date_to (add_totals tot x) ps = Inr tot'" by (auto simp: bind_r_Inr_iff)
  from x have "totals_le x"
    by (auto simp: simulate_portfolio_def bind_r_Inr_iff zero_totals_def totals_le_def intro: sim_walk_le [OF assms, unfolded totals_le_def])
  with Cons.prems(2) have "totals_le (add_totals tot x)" by (simp add: totals_le_def add_totals_def dec_plus_mono)
  from Cons.IH [OF rest this] show ?case .
qed simp

section \<open>When the simulation returns\<close>

text \<open>
  The history of a portfolio is dated consistently when no prefix of it sells more of a symbol
  than it acquired.
\<close>

definition rows_of :: "string \<Rightarrow> Transaction list \<Rightarrow> Transaction list" where
  "rows_of symb ts = filter (\<lambda>t. t_symbol t = symb) ts"

definition dated_cover :: "Transaction list \<Rightarrow> bool" where
  "dated_cover ts \<longleftrightarrow> (\<forall>n symb. sold (rows_of symb (take n ts)) \<le> bought (rows_of symb (take n ts)))"

definition lots_stored :: "BuyLot list \<Rightarrow> bool" where
  "lots_stored lots \<longleftrightarrow> (\<forall>l\<in>set lots. stored_qty (lot_quantity l) \<and> 0 \<le> dval (lot_quantity l))"

lemma capacity_Cons: "capacity (map lot_key (l # ls)) = max 0 (dval (lot_quantity l)) + capacity (map lot_key ls)"
  by (simp add: lot_key_def)

lemma sim_consume_exact:
  assumes "lots_stored lots" "places 4 (dval r)" "0 \<le> dval r" "dval r * 10 ^ 4 < 10 ^ 20"
  shows "lots_stored (sim_consume r lots)
    \<and> capacity (map lot_key (sim_consume r lots)) = capacity (map lot_key lots) - min (dval r) (capacity (map lot_key lots))"
  using assms
proof (induction r lots rule: sim_consume.induct)
  case (2 r lot lots)
  let ?q = "dval (lot_quantity lot)" and ?t = "min (lot_quantity lot) r"
  have q: "places 4 ?q" "0 \<le> ?q" "?q * 10 ^ 4 < 10 ^ 20"
    using "2.prems"(1) by (auto simp: lots_stored_def stored_qty_def numeric_def)
  have nn: "0 \<le> capacity (map lot_key lots)" by (rule capacity_nonneg)
  show ?case
  proof (cases "r \<le> Dec 0")
    case True
    with 2 have "dval r = 0" by (simp add: dec_le_iff)
    with True "2.prems"(1) nn q(2) show ?thesis by (simp add: capacity_Cons del: list.map)
  next
    case False
    have e: "dval (lot_quantity lot - ?t) = ?q - min ?q (dval r)" "dval (r - ?t) = dval r - min ?q (dval r)"
      using stored_qty_diff [of ?q "min ?q (dval r)"] stored_qty_diff [of "dval r" "min ?q (dval r)"] "2.prems" q
      by (simp_all add: dval_min places_closed)
    have pq: "places 4 (?q - min ?q (dval r))" "places 4 (dval r - min ?q (dval r))"
      using q(1) "2.prems"(2) by (auto intro!: places_closed)
    have "lots_stored lots" using "2.prems"(1) by (simp add: lots_stored_def)
    moreover have "places 4 (dval (r - ?t))" "0 \<le> dval (r - ?t)" "dval (r - ?t) * 10 ^ 4 < 10 ^ 20"
      unfolding e(2) using pq(2) "2.prems"(3,4) q(2) by (auto simp: min_def)
    ultimately have IH: "lots_stored (sim_consume (r - ?t) lots)"
      "capacity (map lot_key (sim_consume (r - ?t) lots)) =
         capacity (map lot_key lots) - min (dval (r - ?t)) (capacity (map lot_key lots))"
      using "2.IH" [OF False refl] by blast+
    have "stored_qty (lot_quantity lot - ?t)" "0 \<le> dval (lot_quantity lot - ?t)"
      unfolding stored_qty_def numeric_def e(1) using pq(1) q "2.prems"(3) by (auto simp: min_def)
    then have "lots_stored (sim_consume r (lot # lots))" using False IH(1) by (simp add: Let_def lots_stored_def del: dval_simps)
    moreover have "capacity (map lot_key (sim_consume r (lot # lots))) = (?q - min ?q (dval r))
        + (capacity (map lot_key lots) - min (dval r - min ?q (dval r)) (capacity (map lot_key lots)))"
    proof -
      have sc: "sim_consume r (lot # lots) = lot\<lparr>lot_quantity := lot_quantity lot - ?t\<rparr> # sim_consume (r - ?t) lots"
        using False by (simp add: Let_def)
      have "dval (lot_quantity (lot\<lparr>lot_quantity := lot_quantity lot - ?t\<rparr>)) = ?q - min ?q (dval r)" using e(1) by simp
      then show ?thesis unfolding sc capacity_Cons IH(2) e(2) by simp
    qed
    then have "capacity (map lot_key (sim_consume r (lot # lots))) =
        capacity (map lot_key (lot # lots)) - min (dval r) (capacity (map lot_key (lot # lots)))"
      unfolding capacity_Cons using nn q(2) "2.prems"(3) by (simp add: min_def)
    ultimately show ?thesis by blast
  qed
qed (simp add: lots_stored_def)

lemma capacity_filter: "capacity (map lot_key (filter (\<lambda>l. Dec 0 < lot_quantity l) lots)) = capacity (map lot_key lots)"
  by (induction lots) (auto simp: lot_key_def dec_less_iff)

lemma match_fifo_error:
  assumes "match_fifo lots s = Inl e" "\<forall>l\<in>set lots. stored_qty (lot_quantity l)" "exact_qty (sell_quantity s)"
    "Dec 0 < sell_quantity s" "dval (sell_quantity s) \<le> capacity (map lot_key lots)"
  shows "\<exists>f d h. e = NoApplicableTaxRuleError f d h"
proof (cases "fifo_loop s (sort_lots lots) \<lparr>remaining = sell_quantity s, matched_so_far = [],
       total_qty_for_avg = Dec 0, weighted_cost = Dec 0\<rparr>")
  case (Inl e')
  then show ?thesis using assms(1,4) fifo_loop_error [OF Inl]
    by (auto simp: match_fifo_def find_bracket_Inl_iff not_less [symmetric])
next
  case (Inr st)
  from match_fifo_loop(2) [OF assms(2-4) Inr] assms(5) have "\<not> Dec 0 < remaining st" by (simp add: dec_less_iff)
  moreover have "\<not> sell_quantity s \<le> Dec 0" using assms(4) by (simp only: not_le)
  ultimately show ?thesis using Inr assms(1) by (simp add: match_fifo_def)
qed

definition sim_ok :: "sim_state \<Rightarrow> Transaction list \<Rightarrow> bool" where
  "sim_ok st ts \<longleftrightarrow> (\<forall>symb. lots_stored (lots_of st symb)
     \<and> bought (rows_of symb ts) - sold (rows_of symb ts) \<le> capacity (map lot_key (lots_of st symb)))"

lemma rows_of_append [simp]: "rows_of symb (ts @ [t]) = rows_of symb ts @ (if t_symbol t = symb then [t] else [])"
  by (simp add: rows_of_def)

lemma bought_sold_one:
  "bought [t] = (if is_acquisition t then dval (t_quantity t) else 0)"
  "sold [t] = (if t_type t = SELL then dval (t_quantity t) else 0)"
  "bought [] = 0" "sold [] = 0"
  by (simp_all add: bought_def sold_def)

lemma capacity_append: "capacity (xs @ ys) = capacity xs + capacity ys"
  by (simp add: capacity_def)

lemma lots_of_upsert:
  assumes "lots_by_symbol st' = upsert k f (lots_by_symbol st)"
  shows "lots_of st' symb = (if symb = k then f (map_of (lots_by_symbol st) k) else lots_of st symb)"
  by (simp add: lots_of_def assms map_of_upsert)

lemma sim_step_buy:
  assumes ok: "sim_ok st ts" and row: "row_ok t" and acq: "is_acquisition t"
  shows "\<exists>st'. sim_step brackets date_from date_to st t = Inr st' \<and> sim_ok st' (ts @ [t])"
proof -
  let ?lot = "\<lparr>lot_transaction_id = t_id t, lot_buy_date = t_date t, lot_quantity = t_quantity t, lot_price = t_price t\<rparr>"
  obtain st' where st': "sim_step brackets date_from date_to st t = Inr st'" using acq by (simp add: sim_step_def)
  from st' have lots: "lots_of st' symb = (if symb = t_symbol t then lots_of st symb @ [?lot] else lots_of st symb)" for symb
  proof (cases rule: sim_step_sellE)
    case buy
    show ?thesis by (subst lots_of_upsert [OF buy(3)]) (simp add: lots_of_def)
  qed (use acq in simp_all)
  have "t_type t \<noteq> SELL" using acq by (auto simp: is_acquisition_def)
  then have "sim_ok st' (ts @ [t])"
    using ok row_okD [OF row] acq row
    by (auto simp: sim_ok_def lots bought_sold_one lots_stored_def capacity_append lot_key_def row_ok_def)
  with st' show ?thesis by blast
qed

lemma sim_step_sold:
  assumes ok: "sim_ok st ts" and row: "row_ok t" and sell: "t_type t = SELL"
    and cover: "sold (rows_of (t_symbol t) (ts @ [t])) \<le> bought (rows_of (t_symbol t) (ts @ [t]))"
  shows "\<exists>st'. sim_step brackets date_from date_to st t = Inr st' \<and> sim_ok st' (ts @ [t])"
proof -
  let ?k = "t_symbol t"
  let ?lots = "filter (\<lambda>lot. Dec 0 < lot_quantity lot) (lots_of st ?k)"
  have acq: "\<not> is_acquisition t" using sell by (simp add: is_acquisition_def)
  note q = row_okD [OF row]
  have cap: "dval (t_quantity t) \<le> capacity (map lot_key (lots_of st ?k))" "lots_stored (lots_of st ?k)"
    using cover ok sell acq by (auto simp: sim_ok_def bought_sold_one dest: spec [of _ ?k])
  have stored: "\<forall>l\<in>set ?lots. stored_qty (lot_quantity l)" using cap(2) by (auto simp: lots_stored_def)
  have no: "\<exists>f d h. e = NoApplicableTaxRuleError f d h" if "match_fifo ?lots (sim_sale brackets t filer) = Inl e" for e filer
    using match_fifo_error [OF that stored] row cap(1) by (simp add: sim_sale_def row_ok_def capacity_filter stored_exact)
  let ?m = "bind_r (match_fifo ?lots (sim_sale brackets t True)) (\<lambda>fr.
      bind_r (match_fifo ?lots (sim_sale brackets t False)) (\<lambda>nr. Inr (fr, nr)))"
  have "\<exists>st'. sim_step brackets date_from date_to st t = Inr st'"
  proof (cases ?m)
    case (Inl e)
    then have "\<exists>filer. match_fifo ?lots (sim_sale brackets t filer) = Inl e" by (auto simp: bind_r_Inl_iff)
    then obtain f d h where "e = NoApplicableTaxRuleError f d h" using no by blast
    with Inl sell acq show ?thesis by (simp add: sim_step_def Let_def)
  next
    case (Inr x)
    then show ?thesis using sell acq by (cases x) (simp add: sim_step_def Let_def)
  qed
  then obtain st' where st': "sim_step brackets date_from date_to st t = Inr st'" by blast
  have "sim_ok st' (ts @ [t])" using st'
  proof (cases rule: sim_step_sellE)
    case skip
    have le: "bought (rows_of symb (ts @ [t])) - sold (rows_of symb (ts @ [t]))
        \<le> bought (rows_of symb ts) - sold (rows_of symb ts)" for symb
      using q(1) acq sell by (simp add: bought_sold_one)
    show ?thesis using ok skip(2) order_trans [OF le] by (simp add: sim_ok_def)
  next
    case (sell fr nr lots)
    have some: "map_of (lots_by_symbol st) ?k = Some (lots_of st ?k)"
      using sell(3,4) by (auto simp: lots_of_def split: option.splits)
    have l: "lots_of st' symb = (if symb = ?k then sim_consume (t_quantity t) (lots_of st ?k) else lots_of st symb)" for symb
      by (subst lots_of_upsert [of st' ?k "\<lambda>old. sim_consume (t_quantity t) (the old)" st]) (simp_all add: sell(7) some)
    note c = sim_consume_exact [OF cap(2) q(2) less_imp_le [OF q(1)] q(3)]
    show ?thesis using ok c cap(1) assms(3) acq
      by (auto simp: sim_ok_def l bought_sold_one min_def)
  qed (use acq in simp)
  with st' show ?thesis by blast
qed

lemma sim_walk_returns:
  assumes "sim_ok st ts" "\<forall>t\<in>set us. row_ok t" "dated_cover (ts @ us)"
  shows "\<exists>st'. sim_walk brackets date_from date_to st us = Inr st'"
  using assms
proof (induction us arbitrary: st ts)
  case (Cons t us)
  have row: "row_ok t" using Cons.prems(2) by simp
  have "sold (rows_of (t_symbol t) (ts @ [t])) \<le> bought (rows_of (t_symbol t) (ts @ [t]))"
    using Cons.prems(3) by (auto simp: dated_cover_def dest: spec2 [of _ "Suc (length ts)" "t_symbol t"])
  then have "\<exists>st'. sim_step brackets date_from date_to st t = Inr st' \<and> sim_ok st' (ts @ [t])"
    using sim_step_buy [OF Cons.prems(1) row] sim_step_sold [OF Cons.prems(1) row] Cons.prems(1)
    by (cases "is_acquisition t"; cases "t_type t = SELL") (auto simp: sim_step_def sim_ok_def bought_sold_one)
  then obtain st' where st': "sim_step brackets date_from date_to st t = Inr st'" "sim_ok st' (ts @ [t])" by blast
  from Cons.IH [OF st'(2)] Cons.prems(2,3) show ?case by (auto simp: st'(1))
qed simp

lemma sim_all_returns:
  assumes "\<forall>p\<in>set ps. is_ok (simulate_portfolio db (pf_id p) brackets date_from date_to)"
  shows "is_ok (sim_all db brackets date_from date_to tot ps)"
  using assms
proof (induction ps arbitrary: tot)
  case (Cons p ps)
  then show ?case by (cases "simulate_portfolio db (pf_id p) brackets date_from date_to") auto
qed simp

section \<open>Properties\<close>

text \<open>
  C12: where no filer rate exceeds the non-filer rate of the same sale, a simulation that returns
  shows a filer who pays no more tax, keeps no less, and a saving that is never negative, with the
  same gross gain in both columns.
\<close>

theorem filer_never_pays_more:
  assumes fav: "filer_favoured (load_cgt_brackets (ledger db))"
    and sim: "simulate db uid from_opt to_opt today = Inr r"
  shows "r_filer_cgt_pkr r \<le> r_nonfiler_cgt_pkr r \<and> Dec 0 \<le> r_filer_savings_pkr r
    \<and> r_nonfiler_net_realised_pkr r \<le> r_filer_net_realised_pkr r"
proof -
  consider "\<exists>a b. r = empty_result a b" | a b tot ps where
    "sim_all (ledger db) (load_cgt_brackets (ledger db)) a b zero_totals ps = Inr tot" "r = summarise a b tot"
    using sim by (auto simp: simulate_def Let_def bind_r_Inr_iff split: if_splits)
  then show ?thesis
  proof cases
    case 2
    from sim_all_le [OF fav 2(1)] have le: "sim_cgt_filer tot \<le> sim_cgt_nonfiler tot"
      by (simp add: totals_le_def zero_totals_def)
    then have d: "dval (sim_cgt_filer tot) \<le> dval (sim_cgt_nonfiler tot)" by (simp add: dec_le_iff)
    then have "0 \<le> dval (sim_cgt_nonfiler tot - sim_cgt_filer tot)" by (simp add: dec_r.nonneg)
    then have s: "Dec 0 \<le> quantize 2 (sim_cgt_nonfiler tot - sim_cgt_filer tot)"
      by (simp add: dec_le_iff qz_even.nonneg del: dval_simps(4))
    have "dval (x - sim_cgt_nonfiler tot) \<le> dval (x - sim_cgt_filer tot)" for x
      using d by (simp add: dec_r.mono)
    then show ?thesis using s d
      by (simp add: 2(2) summarise_def Let_def dec_le_iff qz_even.mono del: dval_simps(4))
  qed (auto simp: empty_result_def)
qed

text \<open>A portfolio with a purchase, a later purchase and a sale between them that only the two together cover.\<close>

definition ex_early :: TransactionCreate where
  "ex_early = ex_buy\<lparr>c_date := 738080, c_quantity := Dec 50\<rparr>"

definition ex_filer :: User where
  "ex_filer = ex_user\<lparr>u_is_filer := True\<rparr>"

lemma ex_txn_step:
  assumes reach: "reach portfolio_init any_step db" and pf: "portfolios db = portfolios ex_pdb1"
    and parse: "parse_create body = Some body" "stored_qty (c_quantity body)"
    and ok: "is_ok (create (ledger db) ''p'' body True i n)"
    and fits: "\<And>x. bought (filter (\<lambda>t. t_portfolio_id t = ''p'' \<and> t_symbol t = c_symbol body)
        (transactions (ledger db) @ [ex_row body i n x])) * 10 ^ 4 < 10 ^ 28"
  obtains db' x where "reach portfolio_init any_step db'" "portfolios db' = portfolios ex_pdb1"
    "transactions (ledger db') = transactions (ledger db) @ [ex_row body i n x]"
    "tax_rules (ledger db') = tax_rules (ledger db)" "securities (ledger db') = securities (ledger db)"
proof -
  obtain l t pv where c: "create (ledger db) ''p'' body True i n = Inr (l, t, pv)"
    using ok by (cases "create (ledger db) ''p'' body True i n") auto
  note cr = create_Inr [OF c]
  have t: "t = ex_row body i n (pv_cgt_pkr pv)" by (subst cr(3)) (simp add: ex_row_def)
  have tx: "transactions l = transactions (ledger db) @ [ex_row body i n (pv_cgt_pkr pv)]"
    "tax_rules l = tax_rules (ledger db)" "securities l = securities (ledger db)"
    unfolding cr(4) t by simp_all
  have "create_transaction db ex_filer ''p'' body i n = Inr (t, db\<lparr>ledger := l\<rparr>)"
    using c by (simp add: create_transaction_def portfolio_get_def pf ex_pdb1(2) lift_p_def lift_t_def ex_filer_def
        ex_user_def new_user_def)
  moreover have "bought (symbol_txns l ''p'' (c_symbol body)) * 10 ^ 4 < 10 ^ 28"
    using fits [of "pv_cgt_pkr pv"] by (simp add: symbol_txns_def tx)
  ultimately have "portfolio_step ex_filer db (db\<lparr>ledger := l\<rparr>)"
    by (intro portfolio_step.intros(5) [OF parse]) simp_all
  then have "reach portfolio_init any_step (db\<lparr>ledger := l\<rparr>)" using reach by (blast intro: reach_step)
  then show thesis using that [of "db\<lparr>ledger := l\<rparr>"] pf tx by simp
qed

lemma ex_parse:
  "parse_create ex_buy = Some ex_buy" "parse_create ex_early = Some ex_early" "parse_create ex_sell = Some ex_sell"
proof -
  have "valid_create ex_buy" "valid_create ex_early" "valid_create ex_sell" by code_simp+
  moreover have "upper_symbol ''OGDC'' = ''OGDC''" by code_simp
  ultimately show "parse_create ex_buy = Some ex_buy" "parse_create ex_early = Some ex_early" "parse_create ex_sell = Some ex_sell"
    by (simp_all add: parse_create_def) (simp_all add: ex_buy_def ex_early_def ex_sell_def)
qed

lemma create_buy_ok:
  assumes "c_symbol body \<in> set (securities db)" "c_type body = BUY"
  shows "is_ok (create db pid body filer i n)"
  using assms by (simp add: create_def preview_def validate_symbol_def Let_def)

lemma create_sell_ok:
  assumes "c_symbol body \<in> set (securities db)" "c_type body = SELL" "is_ok (compute_sell_cgt db pid body filer)"
  shows "is_ok (create db pid body filer i n)"
  using assms by (cases "compute_sell_cgt db pid body filer") (auto simp: create_def preview_def validate_symbol_def Let_def)

lemma ex_buys:
  obtains db x y where "reach portfolio_init any_step db" "portfolios db = portfolios ex_pdb1"
    "transactions (ledger db) = [ex_row ex_buy ''t1'' 1 x, ex_row ex_early ''t3'' 3 y]"
    "tax_rules (ledger db) = tax_rules ex_ledger" "securities (ledger db) = [''OGDC'']"
proof -
  have q: "stored_qty (c_quantity ex_buy)" "stored_qty (c_quantity ex_early)" by code_simp+
  have l: "ledger ex_pdb1 = ex_ledger"
  proof -
    obtain p where "portfolio_create ex_pdb (u_id ex_user) ex_body ''p'' 1 = Inr (p, ex_pdb1)"
      using ex_pdb1(1) by (auto simp: create_portfolio_def)
    moreover have "flush (portfolios ex_pdb)" by (simp add: ex_pdb_def flush_def uq_user_name_def uq_user_default_def)
    ultimately show ?thesis using portfolio_create_Inr(2) by (fastforce simp: ex_pdb_def)
  qed
  obtain db1 x where 1: "reach portfolio_init any_step db1" "portfolios db1 = portfolios ex_pdb1"
    "transactions (ledger db1) = [ex_row ex_buy ''t1'' 1 x]" "tax_rules (ledger db1) = tax_rules ex_ledger"
    "securities (ledger db1) = [''OGDC'']"
    by (rule ex_txn_step [OF ex_pdb1(4) refl ex_parse(1) q(1), of "''t1''" 1])
       (auto simp: l ex_ledger_def ex_buy_def ex_row_def bought_def is_acquisition_def intro: create_buy_ok)
  obtain db2 y where "reach portfolio_init any_step db2" "portfolios db2 = portfolios ex_pdb1"
    "transactions (ledger db2) = [ex_row ex_buy ''t1'' 1 x, ex_row ex_early ''t3'' 3 y]"
    "tax_rules (ledger db2) = tax_rules ex_ledger" "securities (ledger db2) = [''OGDC'']"
    by (rule ex_txn_step [OF 1(1,2) ex_parse(2) q(2), of "''t3''" 3])
       (auto simp: 1 ex_early_def ex_buy_def ex_row_def bought_def is_acquisition_def intro: create_buy_ok)
  then show thesis by (rule that)
qed

lemma ex_brackets: "tax_rules db = tax_rules ex_ledger \<Longrightarrow> load_cgt_brackets db = [ex_bracket]"
  by (simp add: load_cgt_brackets_def ex_ledger_def)

text \<open>
  A simulation can fail on data the service accepted. A sale is previewed against every lot of
  its symbol, whatever its date, but replayed in the order of dates; when the lots dated before
  it hold some of the shares and not all, the replay raises \<^verbatim>\<open>InsufficientLotsError\<close>, which the
  simulator does not catch, and the endpoint answers with a server error.
\<close>

lemma simulation_fails_on_accepted_data:
  "\<exists>db. reach portfolio_init any_step db
     \<and> simulate db (u_id ex_filer) None None 738200 = Inl (InsufficientLotsError (Dec 100) (Dec 50))
     \<and> simulate_ep db ex_filer None None 738200 = Inl ServerError"
proof -
  obtain db x y where db: "reach portfolio_init any_step db" "portfolios db = portfolios ex_pdb1"
    "transactions (ledger db) = [ex_row ex_buy ''t1'' 1 x, ex_row ex_early ''t3'' 3 y]"
    "tax_rules (ledger db) = tax_rules ex_ledger" "securities (ledger db) = [''OGDC'']"
    by (rule ex_buys)
  have "is_ok (match_fifo [\<lparr>lot_transaction_id = ''t3'', lot_buy_date = 738080, lot_quantity = Dec 50, lot_price = Dec 90\<rparr>,
      \<lparr>lot_transaction_id = ''t1'', lot_buy_date = 738100, lot_quantity = Dec 100, lot_price = Dec 90\<rparr>]
      \<lparr>sell_quantity = Dec 100, sell_price = Dec 80, sell_date = 738090, sell_filer = True, sell_brackets = [ex_bracket]\<rparr>)"
    by code_simp
  then have "is_ok (compute_sell_cgt (ledger db) ''p'' ex_sell True)"
    by (simp add: compute_sell_cgt_def symbol_txns_def db(3) ex_row_def ex_buy_def ex_early_def ex_sell_def Let_def
        is_acquisition_def dec_sum_def open_lots_def ex_brackets [OF db(4)] is_ok_def bind_r_def split: sum.splits)
  then have ok: "is_ok (create (ledger db) ''p'' ex_sell True ''t4'' 4)"
    by (intro create_sell_ok) (simp_all add: db(5) ex_sell_def ex_buy_def)
  have q: "stored_qty (c_quantity ex_sell)" by code_simp
  obtain db' z where db': "reach portfolio_init any_step db'" "portfolios db' = portfolios ex_pdb1"
    "transactions (ledger db') = [ex_row ex_buy ''t1'' 1 x, ex_row ex_early ''t3'' 3 y, ex_row ex_sell ''t4'' 4 z]"
    "tax_rules (ledger db') = tax_rules ex_ledger"
    by (rule ex_txn_step [OF db(1,2) ex_parse(3) q ok])
       (auto simp: db ex_early_def ex_sell_def ex_buy_def ex_row_def bought_def is_acquisition_def)
  let ?lots = "[\<lparr>lot_transaction_id = ''t3'', lot_buy_date = 738080, lot_quantity = Dec 50, lot_price = Dec 90\<rparr>]"
  let ?t = "ex_row ex_sell ''t4'' 4 z"
  have m: "match_fifo ?lots \<lparr>sell_quantity = Dec 100, sell_price = Dec 80, sell_date = 738090, sell_filer = True, sell_brackets = [ex_bracket]\<rparr>
      = Inl (InsufficientLotsError (Dec 100) (Dec 50))" by code_simp
  have rows: "sort_key (\<lambda>t. (t_date t, t_created_at t)) (filter (\<lambda>t. t_portfolio_id t = ''p'') (transactions (ledger db')))
      = [ex_row ex_early ''t3'' 3 y, ?t, ex_row ex_buy ''t1'' 1 x]"
    by (simp add: db'(3) ex_row_def ex_early_def ex_sell_def ex_buy_def)
  have "sim_walk [ex_bracket] 737835 738200 \<lparr>lots_by_symbol = [], sim_tot = zero_totals\<rparr>
      [ex_row ex_early ''t3'' 3 y, ?t, ex_row ex_buy ''t1'' 1 x] = Inl (InsufficientLotsError (Dec 100) (Dec 50))"
    using m by (simp add: sim_step_def ex_row_def ex_early_def ex_sell_def ex_buy_def is_acquisition_def lots_of_def
        sim_sale_def Let_def)
  then have "simulate_portfolio (ledger db') ''p'' [ex_bracket] 737835 738200 = Inl (InsufficientLotsError (Dec 100) (Dec 50))"
    by (simp add: simulate_portfolio_def rows)
  then have s: "simulate db' (u_id ex_filer) None None 738200 = Inl (InsufficientLotsError (Dec 100) (Dec 50))"
    by (simp add: simulate_def db'(2) ex_pdb1(2) ex_filer_def ex_user_def new_user_def ex_brackets [OF db'(4)] Let_def)
  with db'(1) show ?thesis by (auto simp: simulate_ep_def)
qed

lemma is_ok_bind_Inr: "is_ok (bind_r r (\<lambda>x. Inr (f x))) = is_ok r"
  by (cases r) simp_all

lemma simulate_ok:
  assumes rows: "\<forall>t\<in>set (transactions (ledger db)). row_ok t"
    and dated: "\<forall>p\<in>set (portfolios db). dated_cover (sort_key (\<lambda>t. (t_date t, t_created_at t))
        (filter (\<lambda>t. t_portfolio_id t = pf_id p) (transactions (ledger db))))"
  shows "is_ok (simulate db uid from_opt to_opt today)"
proof -
  have "is_ok (simulate_portfolio (ledger db) (pf_id p) bs a b)" if "p \<in> set (portfolios db)" for p bs a b
  proof -
    let ?ts = "sort_key (\<lambda>t. (t_date t, t_created_at t)) (filter (\<lambda>t. t_portfolio_id t = pf_id p) (transactions (ledger db)))"
    have "sim_ok \<lparr>lots_by_symbol = [], sim_tot = zero_totals\<rparr> []"
      by (simp add: sim_ok_def lots_of_def rows_of_def lots_stored_def bought_sold_one)
    moreover have "\<forall>t\<in>set ?ts. row_ok t" using rows by simp
    moreover have "dated_cover ([] @ ?ts)" using dated that by simp
    ultimately have "\<exists>st'. sim_walk bs a b \<lparr>lots_by_symbol = [], sim_tot = zero_totals\<rparr> ?ts = Inr st'"
      by (rule sim_walk_returns)
    then show ?thesis by (auto simp: simulate_portfolio_def)
  qed
  then have "is_ok (sim_all (ledger db) bs a b zero_totals (filter (\<lambda>p. pf_user_id p = uid) (portfolios db)))" for bs a b
    by (intro sim_all_returns) simp
  then show ?thesis by (simp add: simulate_def Let_def is_ok_bind_Inr)
qed

text \<open>
  When no sale is dated before the shares it sells, the simulation always returns: a missing tax
  bracket skips a sale and nothing else is raised.
\<close>

lemma simulation_returns:
  assumes rows: "\<forall>t\<in>set (transactions (ledger db)). row_ok t"
    and dated: "\<forall>p\<in>set (portfolios db). dated_cover (sort_key (\<lambda>t. (t_date t, t_created_at t))
        (filter (\<lambda>t. t_portfolio_id t = pf_id p) (transactions (ledger db))))"
  shows "is_ok (simulate db uid from_opt to_opt today)"
  using assms by (rule simulate_ok)

definition ex_sim_db :: portfolio_db where
  "ex_sim_db = \<lparr>portfolios = portfolios ex_pdb1,
     ledger = ex_ledger\<lparr>transactions := [ex_row ex_early ''t1'' 1 (Dec 0), ex_row (ex_sell\<lparr>c_quantity := Dec 20\<rparr>) ''t2'' 2 (Dec 0)]\<rparr>\<rparr>"

lemma ex_sim_rows: "sort_key (\<lambda>t. (t_date t, t_created_at t)) (filter (\<lambda>t. t_portfolio_id t = ''p'') (transactions (ledger ex_sim_db)))
    = [ex_row ex_early ''t1'' 1 (Dec 0), ex_row (ex_sell\<lparr>c_quantity := Dec 20\<rparr>) ''t2'' 2 (Dec 0)]"
  by (simp add: ex_sim_db_def ex_row_def ex_early_def ex_sell_def ex_buy_def)

lemma ex_sim_hyps:
  "\<forall>t\<in>set (transactions (ledger ex_sim_db)). row_ok t"
  "\<forall>p\<in>set (portfolios ex_sim_db). dated_cover (sort_key (\<lambda>t. (t_date t, t_created_at t))
        (filter (\<lambda>t. t_portfolio_id t = pf_id p) (transactions (ledger ex_sim_db))))"
proof -
  show "\<forall>t\<in>set (transactions (ledger ex_sim_db)). row_ok t" by code_simp
  have "sold (rows_of symb (take n [ex_row ex_early ''t1'' 1 (Dec 0), ex_row (ex_sell\<lparr>c_quantity := Dec 20\<rparr>) ''t2'' 2 (Dec 0)]))
      \<le> bought (rows_of symb (take n [ex_row ex_early ''t1'' 1 (Dec 0), ex_row (ex_sell\<lparr>c_quantity := Dec 20\<rparr>) ''t2'' 2 (Dec 0)]))" for n symb
    by (cases "n = 0"; cases "n = 1"; cases "symb = ''OGDC''")
       (auto simp: rows_of_def bought_def sold_def is_acquisition_def ex_row_def ex_early_def ex_sell_def ex_buy_def take_Cons')
  then show "\<forall>p\<in>set (portfolios ex_sim_db). dated_cover (sort_key (\<lambda>t. (t_date t, t_created_at t))
        (filter (\<lambda>t. t_portfolio_id t = pf_id p) (transactions (ledger ex_sim_db))))"
    using ex_sim_rows by (simp add: ex_sim_db_def ex_pdb1(2) dated_cover_def)
qed

theorem filer_never_pays_more_witness:
  "\<exists>r. simulate ex_sim_db ''u1'' None None 738200 = Inr r \<and> r_filer_cgt_pkr r \<le> r_nonfiler_cgt_pkr r"
proof -
  have b: "load_cgt_brackets (ledger ex_sim_db) = [ex_bracket]" by (rule ex_brackets) (simp add: ex_sim_db_def)
  have "filer_favoured [ex_bracket]"
    by (auto simp: filer_favoured_def find_bracket_def bracket_matches_def ex_bracket_def)
  then have f: "filer_favoured (load_cgt_brackets (ledger ex_sim_db))" by (simp add: b)
  have "is_ok (simulate ex_sim_db ''u1'' None None 738200)" by (rule simulate_ok [OF ex_sim_hyps])
  then obtain r where "simulate ex_sim_db ''u1'' None None 738200 = Inr r"
    by (cases "simulate ex_sim_db ''u1'' None None 738200") auto
  with filer_never_pays_more [OF f this] show ?thesis by blast
qed

end
