(* ===== verification/PortfolioSummary.thy ===== *)
theory PortfolioSummary
  imports Market TaxSimulator
begin

text \<open>
  The portfolio dashboard, \<^verbatim>\<open>psx_api/services/portfolio_summary_service.py\<close>: holdings with the latest
  prices, the tax due if everything were sold today, year-to-date sums and the allocation by
  sector. Sums that the database computes over \<^verbatim>\<open>NUMERIC\<close> columns are exact.
\<close>

section \<open>Holdings with market data\<close>

record HoldingDashboardRow =
  hr_symbol :: string
  hr_company_name :: string
  hr_sector :: string
  hr_is_kmi_compliant :: bool
  hr_quantity :: dec
  hr_avg_cost_pkr :: dec
  hr_total_invested_pkr :: dec
  hr_last_close :: "dec option"
  hr_last_close_date :: "date option"
  hr_market_value_pkr :: "dec option"
  hr_unrealized_pnl_pkr :: "dec option"
  hr_unrealized_pnl_pct :: "dec option"
  hr_day_change_pct :: "dec option"
  hr_realized_pnl_pkr :: dec
  hr_total_dividends_received_pkr :: dec

definition holding_row :: "market_db \<Rightarrow> HoldingsSnapshot \<Rightarrow> Security \<Rightarrow> HoldingDashboardRow" where
  "holding_row mk h sec =
     (let closes = newest_first mk (h_symbol h);
          last_dt = (case closes of [] \<Rightarrow> None | x # _ \<Rightarrow> Some (o_date x));
          last_close = (case closes of [] \<Rightarrow> None | x # _ \<Rightarrow> o_close x);
          prev = (case closes of _ # x # _ \<Rightarrow> o_close x | _ \<Rightarrow> None);
          mv = map_option (\<lambda>c. c * h_quantity h) last_close;
          unrealized = map_option (\<lambda>c. (c - h_avg_cost_pkr h) * h_quantity h) last_close;
          unrealized_pct = (case unrealized of None \<Rightarrow> None
            | Some u \<Rightarrow> if Dec 0 < h_total_invested_pkr h
                        then Some (quantize 2 ((u / h_total_invested_pkr h) * Dec 100)) else None);
          day_change = (case (last_close, prev) of
              (Some c, Some p) \<Rightarrow> if p \<noteq> Dec 0 then Some (quantize 2 (((c - p) / p) * Dec 100)) else None
            | _ \<Rightarrow> None)
      in \<lparr>hr_symbol = h_symbol h, hr_company_name = company_name sec, hr_sector = sector sec,
          hr_is_kmi_compliant = is_kmi_compliant sec, hr_quantity = h_quantity h,
          hr_avg_cost_pkr = h_avg_cost_pkr h, hr_total_invested_pkr = h_total_invested_pkr h,
          hr_last_close = last_close, hr_last_close_date = last_dt, hr_market_value_pkr = mv,
          hr_unrealized_pnl_pkr = unrealized, hr_unrealized_pnl_pct = unrealized_pct,
          hr_day_change_pct = day_change, hr_realized_pnl_pkr = h_realized_pnl_pkr h,
          hr_total_dividends_received_pkr = h_total_dividends_received_pkr h\<rparr>)"

text \<open>The join drops a snapshot whose symbol has no security row.\<close>

definition holdings_with_market :: "ledger_db \<Rightarrow> market_db \<Rightarrow> string \<Rightarrow> HoldingDashboardRow list" where
  "holdings_with_market db mk pid =
     List.map_filter (\<lambda>h. map_option (holding_row mk h) (find_security mk (h_symbol h)))
       (sort_key h_symbol (filter (\<lambda>h. h_portfolio_id h = pid) (holdings db)))"

section \<open>Tax if sold today\<close>

definition eligible :: "HoldingDashboardRow list \<Rightarrow> HoldingDashboardRow list" where
  "eligible hs = filter (\<lambda>h. hr_last_close h \<noteq> None \<and> Dec 0 < hr_quantity h) hs"

text \<open>One query for every transaction of the held symbols, in the order of dates.\<close>

definition batch_txns :: "ledger_db \<Rightarrow> string \<Rightarrow> string list \<Rightarrow> Transaction list" where
  "batch_txns db pid symbols =
     sort_key (\<lambda>t. (t_date t, t_created_at t))
       (filter (\<lambda>t. t_portfolio_id t = pid \<and> t_symbol t \<in> set symbols \<and> (is_acquisition t \<or> t_type t = SELL))
         (transactions db))"

definition batch_buys :: "Transaction list \<Rightarrow> string \<Rightarrow> Transaction list" where
  "batch_buys rows symb = filter (\<lambda>t. t_type t \<noteq> SELL \<and> t_symbol t = symb) rows"

definition batch_sold :: "Transaction list \<Rightarrow> string \<Rightarrow> dec" where
  "batch_sold rows symb = foldl (\<lambda>q t. if t_type t = SELL \<and> t_symbol t = symb then q + t_quantity t else q) (Dec 0) rows"

fun liquidate ::
  "TaxBracket list \<Rightarrow> bool \<Rightarrow> date \<Rightarrow> Transaction list \<Rightarrow> HoldingDashboardRow list \<Rightarrow> dec \<Rightarrow> tax_error + dec" where
  "liquidate brackets filer today rows [] total_cgt = Inr total_cgt"
| "liquidate brackets filer today rows (h # hs) total_cgt =
     (let buys = batch_buys rows (hr_symbol h);
          lots = open_lots buys (batch_sold rows (hr_symbol h))
      in if buys = [] \<or> lots = [] then liquidate brackets filer today rows hs total_cgt
         else case match_fifo lots
                \<lparr>sell_quantity = dec_sum (map lot_quantity lots), sell_price = the (hr_last_close h),
                 sell_date = today, sell_filer = filer, sell_brackets = brackets\<rparr> of
                Inr result \<Rightarrow> liquidate brackets filer today rows hs (total_cgt + total_cgt_pkr result)
              | Inl (NoApplicableTaxRuleError a b c) \<Rightarrow> liquidate brackets filer today rows hs total_cgt
              | Inl e \<Rightarrow> Inl e)"

text \<open>\<open>(cgt_if_sold_pkr, after_tax_pkr)\<close>\<close>

definition gross_unrealized :: "HoldingDashboardRow list \<Rightarrow> dec" where
  "gross_unrealized hs = dec_sum (map (\<lambda>h. case hr_unrealized_pnl_pkr h of None \<Rightarrow> Dec 0 | Some u \<Rightarrow> u) (eligible hs))"

definition after_tax_unrealized ::
  "ledger_db \<Rightarrow> string \<Rightarrow> HoldingDashboardRow list \<Rightarrow> bool \<Rightarrow> date \<Rightarrow> tax_error + dec \<times> dec" where
  "after_tax_unrealized db pid hs filer today =
     (if eligible hs = [] then Inr (Dec 0, Dec 0)
      else bind_r (liquidate (load_cgt_brackets db) filer today
               (batch_txns db pid (map hr_symbol (eligible hs))) (eligible hs) (Dec 0))
             (\<lambda>cgt. Inr (cgt, gross_unrealized hs - cgt)))"

section \<open>Year to date\<close>

definition sql_sum :: "rat list \<Rightarrow> dec" where
  "sql_sum xs = Dec (sum_list xs)"

record ytd =
  y_realized_pnl_pkr :: dec
  y_dividends_pkr :: dec
  y_fees_pkr :: dec

definition ytd_aggregates :: "ledger_db \<Rightarrow> string \<Rightarrow> date \<Rightarrow> ytd" where
  "ytd_aggregates db pid today =
     (let ytd_start = mk_date (year_of today) 1 1;
          rows = filter (\<lambda>t. t_portfolio_id t = pid \<and> ytd_start \<le> t_date t) (transactions db)
      in \<lparr>y_realized_pnl_pkr = sql_sum (map (dval \<circ> h_realized_pnl_pkr) (filter (\<lambda>h. h_portfolio_id h = pid) (holdings db))),
          y_dividends_pkr = sql_sum (map (\<lambda>t. dval (t_quantity t) * dval (t_price t)) (filter (\<lambda>t. t_type t = DIVIDEND) rows)),
          y_fees_pkr = sql_sum (map (\<lambda>t. dval (t_brokerage_pkr t) + dval (t_fed_pkr t) + dval (t_cvt_pkr t) + dval (t_cgt_pkr t)) rows)\<rparr>)"

section \<open>Sector allocation and summary\<close>

record SectorAllocationRow =
  sa_sector :: string
  sa_value_pkr :: dec
  sa_pct :: dec

definition add_sector ::
  "(string \<times> dec) list \<times> dec \<Rightarrow> HoldingDashboardRow \<Rightarrow> (string \<times> dec) list \<times> dec" where
  "add_sector st h =
     (case hr_market_value_pkr h of None \<Rightarrow> st
      | Some mv \<Rightarrow> (upsert (hr_sector h) (\<lambda>old. (case old of None \<Rightarrow> Dec 0 | Some v \<Rightarrow> v) + mv) (fst st), snd st + mv))"

definition sector_allocation :: "HoldingDashboardRow list \<Rightarrow> SectorAllocationRow list" where
  "sector_allocation hs =
     (let (by_sector, total) = foldl add_sector ([], Dec 0) hs
      in if total = Dec 0 then []
         else sort_key_desc sa_value_pkr
           (map (\<lambda>(s, v). \<lparr>sa_sector = s, sa_value_pkr = quantize 2 v, sa_pct = quantize 2 ((v / total) * Dec 100)\<rparr>) by_sector))"

record PortfolioSummary =
  ps_portfolio_id :: string
  ps_total_invested_pkr :: dec
  ps_current_value_pkr :: dec
  ps_unrealized_pnl_pkr :: dec
  ps_unrealized_pnl_pct :: dec
  ps_unrealized_pnl_after_tax_pkr :: dec
  ps_estimated_liquidation_cgt_pkr :: dec
  ps_realized_pnl_ytd_pkr :: dec
  ps_dividends_ytd_pkr :: dec
  ps_fees_ytd_pkr :: dec
  ps_holding_count :: nat
  ps_holdings :: "HoldingDashboardRow list"
  ps_sector_allocation :: "SectorAllocationRow list"

definition summary :: "ledger_db \<Rightarrow> market_db \<Rightarrow> string \<Rightarrow> bool \<Rightarrow> date \<Rightarrow> tax_error + PortfolioSummary" where
  "summary db mk pid filer today =
     (let hs = holdings_with_market db mk pid; y = ytd_aggregates db pid today
      in bind_r (after_tax_unrealized db pid hs filer today) (\<lambda>(cgt, after_tax).
           let total_invested = dec_sum (map hr_total_invested_pkr hs);
               current_value = dec_sum (map (\<lambda>h. case hr_market_value_pkr h of None \<Rightarrow> Dec 0 | Some v \<Rightarrow> v) hs);
               unrealized = current_value - total_invested
           in Inr \<lparr>ps_portfolio_id = pid, ps_total_invested_pkr = quantize 2 total_invested,
                ps_current_value_pkr = quantize 2 current_value, ps_unrealized_pnl_pkr = quantize 2 unrealized,
                ps_unrealized_pnl_pct = (if Dec 0 < total_invested
                  then quantize 2 (unrealized / total_invested * Dec 100) else Dec 0),
                ps_unrealized_pnl_after_tax_pkr = quantize 2 after_tax,
                ps_estimated_liquidation_cgt_pkr = quantize 2 cgt,
                ps_realized_pnl_ytd_pkr = quantize 2 (y_realized_pnl_pkr y),
                ps_dividends_ytd_pkr = quantize 2 (y_dividends_pkr y), ps_fees_ytd_pkr = quantize 2 (y_fees_pkr y),
                ps_holding_count = length hs, ps_holdings = hs,
                ps_sector_allocation = sector_allocation hs\<rparr>))"

text \<open>The endpoint: the caller's own portfolio, then the summary with the caller's filer status.\<close>

definition portfolio_summary ::
  "portfolio_db \<Rightarrow> market_db \<Rightarrow> User \<Rightarrow> string \<Rightarrow> date \<Rightarrow> route_error + (tax_error + PortfolioSummary)" where
  "portfolio_summary db mk user pid today =
     bind_r (lift_p (portfolio_get db (u_id user) pid)) (\<lambda>p.
       Inr (summary (ledger db) mk (pf_id p) (u_is_filer user) today))"

section \<open>The batch query\<close>

lemma batch_buys_eq:
  assumes "symb \<in> set symbols"
  shows "batch_buys (batch_txns db pid symbols) symb = filter is_acquisition (symbol_txns db pid symb)"
proof -
  have "filter (\<lambda>t. t_type t \<noteq> SELL \<and> t_symbol t = symb)
      (filter (\<lambda>t. t_portfolio_id t = pid \<and> t_symbol t \<in> set symbols \<and> (is_acquisition t \<or> t_type t = SELL)) ts)
    = filter is_acquisition (filter (\<lambda>t. t_portfolio_id t = pid \<and> t_symbol t = symb) ts)" for ts
    using assms by (induction ts) (auto simp: is_acquisition_def)
  then show ?thesis by (simp only: batch_buys_def batch_txns_def symbol_txns_def filter_sort)
qed

lemma foldl_if_filter:
  "foldl (\<lambda>q t. if P t then q + g t else q) a ts = foldl (+) a (map g (filter P ts))"
  by (induction ts arbitrary: a) auto

lemma batch_sold_eq:
  assumes "symb \<in> set symbols"
  shows "batch_sold (batch_txns db pid symbols) symb
    = dec_sum (map t_quantity (filter (\<lambda>t. t_type t = SELL) (symbol_txns db pid symb)))"
proof -
  have "filter (\<lambda>t. t_type t = SELL \<and> t_symbol t = symb)
      (filter (\<lambda>t. t_portfolio_id t = pid \<and> t_symbol t \<in> set symbols \<and> (is_acquisition t \<or> t_type t = SELL)) ts)
    = filter (\<lambda>t. t_type t = SELL) (filter (\<lambda>t. t_portfolio_id t = pid \<and> t_symbol t = symb) ts)" for ts
    using assms by (induction ts) auto
  then show ?thesis
    by (simp only: batch_sold_def batch_txns_def symbol_txns_def foldl_if_filter filter_sort dec_sum_def)
qed

section \<open>Liquidation\<close>

lemma liquidation_lots:
  fixes db pid symb symbols
  assumes inv: "ledger_inv db" and symb: "symb \<in> set symbols"
  defines "lots \<equiv> open_lots (batch_buys (batch_txns db pid symbols) symb) (batch_sold (batch_txns db pid symbols) symb)"
  shows "\<forall>l\<in>set lots. stored_qty (lot_quantity l)" "\<forall>l\<in>set lots. 0 < dval (lot_quantity l)"
    "dval (dec_sum (map lot_quantity lots)) = capacity (map lot_key lots)" "exact_qty (dec_sum (map lot_quantity lots))"
proof -
  have ok: "ledger_ok db" "never_oversold db" using inv by (simp_all add: ledger_inv_def)
  have lots: "lots = open_lots (filter is_acquisition (symbol_txns db pid symb))
      (dec_sum (map t_quantity (filter (\<lambda>t. t_type t = SELL) (symbol_txns db pid symb))))"
    by (simp add: lots_def batch_buys_eq [OF symb] batch_sold_eq [OF symb])
  note opened = ledger_open_lots [OF ok, of pid symb, folded lots]
  show st: "\<forall>l\<in>set lots. stored_qty (lot_quantity l)" by (rule opened(1))
  show pos: "\<forall>l\<in>set lots. 0 < dval (lot_quantity l)"
    by (auto simp: lots_def open_lots_def dec_less_iff)
  have cap: "sum_list (map dval (map lot_quantity ls)) = capacity (map lot_key ls)"
    if "\<forall>l\<in>set ls. 0 < dval (lot_quantity l)" for ls using that by (induction ls) (auto simp: lot_key_def)
  have "capacity (map lot_key lots) * 10 ^ 4 < 10 ^ 28"
    using opened(2) symbol_txns_all(2) [OF ok(1), of pid symb] bought_sold_nonneg [OF symbol_txns_all(1) [OF ok(1)], of pid symb]
    by simp
  then show e: "dval (dec_sum (map lot_quantity lots)) = capacity (map lot_key lots)"
    using cap [OF pos] st pos
    by (subst dec_sum_exact [of _ 4]) (auto simp: stored_qty_def numeric_def)
  have "places 4 (capacity (map lot_key lots))"
    unfolding cap [OF pos, symmetric] by (rule places_sum_list) (use st in \<open>auto simp: stored_qty_def numeric_def\<close>)
  then show "exact_qty (dec_sum (map lot_quantity lots))"
    using \<open>capacity (map lot_key lots) * 10 ^ 4 < 10 ^ 28\<close> capacity_nonneg [of "map lot_key lots"]
    by (simp add: exact_qty_def e)
qed

lemma foldl_plus_nonneg: "\<forall>x\<in>set xs. Dec 0 \<le> x \<Longrightarrow> Dec 0 \<le> a \<Longrightarrow> Dec 0 \<le> foldl (+) a xs"
proof (induction xs arbitrary: a)
  case (Cons x xs)
  then have "Dec 0 \<le> a + x" by (auto simp: dec_le_iff intro: dec_r.nonneg)
  with Cons show ?case by simp
qed simp

text \<open>The tax on a match is not negative when the rates are not.\<close>

lemma match_fifo_cgt_nonneg:
  assumes "match_fifo lots s = Inr r" "\<forall>b\<in>set (sell_brackets s). Dec 0 \<le> rate_pct b \<and> rate_pct b \<le> Dec 100"
  shows "Dec 0 \<le> total_cgt_pkr r"
proof -
  obtain st where st: "fifo_loop s (sort_lots lots) \<lparr>remaining = sell_quantity s, matched_so_far = [],
       total_qty_for_avg = Dec 0, weighted_cost = Dec 0\<rparr> = Inr st"
    "total_cgt_pkr r = quantize_paisa (dec_sum (map m_cgt_pkr (matched_so_far st)))"
    using assms(1) by (rule match_fifo_Inr)
  have "\<forall>m\<in>set (matched_so_far st). Dec 0 \<le> m_cgt_pkr m"
    by (rule fifo_loop_matched [OF st(1)]) (auto dest: match_lot_cgt_bounds(1) [OF _ assms(2)])
  then have "Dec 0 \<le> foldl (+) (Dec 0) (map m_cgt_pkr (matched_so_far st))"
    by (intro foldl_plus_nonneg) auto
  then show ?thesis by (simp add: st(2) quantize_paisa_def dec_sum_def dec_le_iff qz_up.nonneg)
qed

lemma liquidate_ok:
  assumes inv: "ledger_inv db" and symbols: "hr_symbol ` set hs \<subseteq> set symbols"
  shows "\<exists>c. liquidate brackets filer today (batch_txns db pid symbols) hs a = Inr c"
  using symbols
proof (induction hs arbitrary: a)
  case (Cons h hs)
  let ?rows = "batch_txns db pid symbols"
  let ?lots = "open_lots (batch_buys ?rows (hr_symbol h)) (batch_sold ?rows (hr_symbol h))"
  let ?s = "\<lparr>sell_quantity = dec_sum (map lot_quantity ?lots), sell_price = the (hr_last_close h),
      sell_date = today, sell_filer = filer, sell_brackets = brackets\<rparr>"
  have mem: "hr_symbol h \<in> set symbols" using Cons.prems by auto
  note lots = liquidation_lots [OF inv mem, where pid = pid]
  have IH: "\<exists>c. liquidate brackets filer today ?rows hs b = Inr c" for b using Cons by auto
  show ?case
  proof (cases "batch_buys ?rows (hr_symbol h) = [] \<or> ?lots = []")
    case True
    then show ?thesis using IH by (auto simp: Let_def)
  next
    case False
    then obtain l ls where "?lots = l # ls" by (cases ?lots) auto
    then have "0 < capacity (map lot_key ?lots)"
      using lots(2) capacity_nonneg [of "map lot_key ls"] by (simp add: lot_key_def [of l])
    then have pos: "Dec 0 < sell_quantity ?s" by (simp add: dec_less_iff lots(3))
    show ?thesis
    proof (cases "match_fifo ?lots ?s")
      case (Inl e)
      from match_fifo_error [OF Inl lots(1) _ pos] lots(3,4)
      obtain f d k where "e = NoApplicableTaxRuleError f d k" by auto
      then show ?thesis using Inl False IH by (auto simp: Let_def)
    next
      case (Inr r)
      then show ?thesis using False IH by (auto simp: Let_def)
    qed
  qed
qed simp

lemma liquidate_eligible:
  assumes "ledger_inv db"
  shows "\<exists>c. liquidate brackets filer today (batch_txns db pid (map hr_symbol (eligible hs))) (eligible hs) a = Inr c"
  by (rule liquidate_ok [OF assms]) simp

lemma liquidate_nonneg:
  assumes "\<forall>b\<in>set brackets. Dec 0 \<le> rate_pct b \<and> rate_pct b \<le> Dec 100"
  shows "liquidate brackets filer today rows hs a = Inr c \<Longrightarrow> Dec 0 \<le> a \<Longrightarrow> Dec 0 \<le> c"
proof (induction hs arbitrary: a)
  case (Cons h hs)
  let ?lots = "open_lots (batch_buys rows (hr_symbol h)) (batch_sold rows (hr_symbol h))"
  let ?s = "\<lparr>sell_quantity = dec_sum (map lot_quantity ?lots), sell_price = the (hr_last_close h),
      sell_date = today, sell_filer = filer, sell_brackets = brackets\<rparr>"
  show ?case
  proof (cases "batch_buys rows (hr_symbol h) = [] \<or> ?lots = []")
    case True
    with Cons show ?thesis by (auto simp: Let_def)
  next
    case False
    show ?thesis
    proof (cases "match_fifo ?lots ?s")
      case (Inl e)
      with False Cons show ?thesis by (cases e) (auto simp: Let_def)
    next
      case (Inr r)
      have "Dec 0 \<le> total_cgt_pkr r" by (rule match_fifo_cgt_nonneg [OF Inr]) (use assms in simp)
      then have "Dec 0 \<le> a + total_cgt_pkr r" using Cons.prems(2) by (auto simp: dec_le_iff intro: dec_r.nonneg)
      with Cons Inr False show ?thesis by (auto simp: Let_def)
    qed
  qed
qed simp

section \<open>Sector shares\<close>

text \<open>
  While the holdings are added up, a sector's value never exceeds the total: the same amounts are
  added to both, and adding an amount that is not negative to a rounded total never lowers it.
\<close>

definition shares_ok :: "(string \<times> dec) list \<times> dec \<Rightarrow> bool" where
  "shares_ok st \<longleftrightarrow> distinct (map fst (fst st)) \<and> dec28 (dval (snd st)) = dval (snd st)
     \<and> (\<forall>(s, v)\<in>set (fst st). 0 \<le> dval v \<and> v \<le> snd st) \<and> 0 \<le> dval (snd st)"

lemma dec_add_ge: "dec28 (dval a) = dval a \<Longrightarrow> 0 \<le> dval b \<Longrightarrow> a \<le> a + b"
  using dec_r.mono [of "dval a" "dval a + dval b"] by (simp add: dec_le_iff)

lemma add_sector_ok:
  assumes ok: "shares_ok st" and mv: "\<forall>v. hr_market_value_pkr h = Some v \<longrightarrow> 0 \<le> dval v"
  shows "shares_ok (add_sector st h)"
proof (cases "hr_market_value_pkr h")
  case (Some mv)
  obtain bs tot where st: "st = (bs, tot)" by (cases st)
  let ?f = "\<lambda>old. (case old of None \<Rightarrow> Dec 0 | Some v \<Rightarrow> v) + mv"
  let ?bs = "upsert (hr_sector h) ?f bs"
  have m: "0 \<le> dval mv" and d: "distinct (map fst bs)" and t: "dec28 (dval tot) = dval tot" "0 \<le> dval tot"
    and le: "\<forall>(s, v)\<in>set bs. 0 \<le> dval v \<and> v \<le> tot"
    using ok Some assms(2) by (auto simp: shares_ok_def st)
  have d': "distinct (map fst ?bs)" using d by (rule distinct_upsert)
  have grow: "tot \<le> tot + mv" by (rule dec_add_ge [OF t(1) m])
  have "0 \<le> dval v \<and> v \<le> tot + mv" if "(s, v) \<in> set ?bs" for s v
  proof -
    from that d' have "map_of ?bs s = Some v" by simp
    then consider "s = hr_sector h" "v = ?f (map_of bs s)" | "(s, v) \<in> set bs"
      by (auto simp: map_of_upsert split: if_splits dest: map_of_SomeD)
    then show ?thesis
    proof cases
      case 1
      show ?thesis
      proof (cases "map_of bs s")
        case None
        then show ?thesis using 1 m t(2) by (auto simp: dec_le_iff intro: dec_r.mono dec_r.nonneg)
      next
        case (Some w)
        then have "0 \<le> dval w" "dval w \<le> dval tot" using le by (auto simp: dec_le_iff dest!: map_of_SomeD)
        then show ?thesis using 1 Some m by (auto simp: dec_le_iff intro: dec_r.mono dec_r.nonneg)
      qed
    next
      case 2
      then show ?thesis using le grow by (auto intro: order_trans)
    qed
  qed
  then show ?thesis using d' t m Some by (auto simp: shares_ok_def add_sector_def st dec_r.idem intro: dec_r.nonneg)
qed (use ok in \<open>simp add: add_sector_def\<close>)

lemma foldl_add_sector_ok:
  "shares_ok st \<Longrightarrow> \<forall>h\<in>set hs. \<forall>v. hr_market_value_pkr h = Some v \<longrightarrow> 0 \<le> dval v \<Longrightarrow> shares_ok (foldl add_sector st hs)"
  by (induction hs arbitrary: st) (auto simp: add_sector_ok)

lemma dec28_small: "dec28 1 = 1" "dec28 100 = 100"
  using dec_r.exact_int [of 1] dec_r.exact_int [of 100] by simp_all

lemma pct_bounds:
  assumes "0 \<le> dval v" "v \<le> tot" "0 < dval tot"
  shows "Dec 0 \<le> quantize 2 ((v / tot) * Dec 100)" "quantize 2 ((v / tot) * Dec 100) \<le> Dec 100"
proof -
  have q: "0 \<le> dval v / dval tot" "dval v / dval tot \<le> 1" using assms by (auto simp: dec_le_iff)
  have r: "0 \<le> dec28 (dval v / dval tot)" "dec28 (dval v / dval tot) \<le> 1"
    using dec_r.nonneg [OF q(1)] dec_r.mono [OF q(2)] dec28_small by simp_all
  then have "0 \<le> dec28 (dec28 (dval v / dval tot) * 100)" "dec28 (dec28 (dval v / dval tot) * 100) \<le> 100"
    using dec_r.mono [of "dec28 (dval v / dval tot) * 100" 100] dec28_small by (auto intro: dec_r.nonneg)
  then show "Dec 0 \<le> quantize 2 ((v / tot) * Dec 100)" "quantize 2 ((v / tot) * Dec 100) \<le> Dec 100"
    using qz_even.mono [of _ 100 2] qz_fixed(1) [of 2 100] by (auto simp: dec_le_iff qz_even.nonneg places_def)
qed

section \<open>Properties\<close>


text \<open>
  The allocation lists each sector once, the largest first, and every share is between 0 and 100
  percent, rounding included.
\<close>

lemma sector_shares:
  assumes "\<forall>h\<in>set hs. \<forall>v. hr_market_value_pkr h = Some v \<longrightarrow> Dec 0 \<le> v"
  shows "distinct (map sa_sector (sector_allocation hs))
    \<and> sorted_wrt (\<lambda>a b. sa_value_pkr b \<le> sa_value_pkr a) (sector_allocation hs)
    \<and> (\<forall>r\<in>set (sector_allocation hs). Dec 0 \<le> sa_pct r \<and> sa_pct r \<le> Dec 100)"
proof -
  obtain bs tot where bs: "foldl add_sector ([], Dec 0) hs = (bs, tot)" by fastforce
  have "shares_ok ([], Dec 0)" by (simp add: shares_ok_def dec_r.zero)
  from foldl_add_sector_ok [OF this, of hs] assms have ok: "shares_ok (bs, tot)" by (simp add: bs dec_le_iff)
  let ?row = "\<lambda>(s, v). \<lparr>sa_sector = s, sa_value_pkr = quantize 2 v, sa_pct = quantize 2 ((v / tot) * Dec 100)\<rparr>"
  have alloc: "sector_allocation hs = (if tot = Dec 0 then [] else sort_key_desc sa_value_pkr (map ?row bs))"
    by (simp add: sector_allocation_def bs)
  have perm: "mset (sort_key_desc sa_value_pkr (map ?row bs)) = mset (map ?row bs)" by (simp add: sort_key_desc_def)
  have sec: "map sa_sector (map ?row bs) = map fst bs" by (auto simp: case_prod_beta)
  have "mset (map sa_sector (sort_key_desc sa_value_pkr (map ?row bs))) = mset (map fst bs)"
    by (simp only: mset_map perm flip: sec)
  from mset_eq_imp_distinct_iff [OF this] have "distinct (map sa_sector (sort_key_desc sa_value_pkr (map ?row bs)))"
    using ok by (simp only: shares_ok_def fst_conv)
  moreover have "Dec 0 \<le> sa_pct r \<and> sa_pct r \<le> Dec 100" if "r \<in> set (map ?row bs)" "tot \<noteq> Dec 0" for r
  proof -
    from that obtain sv where "sv \<in> set bs" "r = ?row sv" by auto
    moreover have "0 < dval tot" using ok that(2) by (auto simp: shares_ok_def dec_eq_iff)
    ultimately show ?thesis using ok pct_bounds [of "snd sv" tot] by (cases sv) (auto simp: shares_ok_def)
  qed
  ultimately show ?thesis using sort_key_desc_sorted [of sa_value_pkr] by (auto simp: alloc)
qed

definition ex_holding :: "string \<Rightarrow> dec option \<Rightarrow> HoldingDashboardRow" where
  "ex_holding sct mv = \<lparr>hr_symbol = sct, hr_company_name = sct, hr_sector = sct, hr_is_kmi_compliant = True,
     hr_quantity = Dec 1, hr_avg_cost_pkr = Dec 1, hr_total_invested_pkr = Dec 1, hr_last_close = mv,
     hr_last_close_date = None, hr_market_value_pkr = mv, hr_unrealized_pnl_pkr = None, hr_unrealized_pnl_pct = None,
     hr_day_change_pct = None, hr_realized_pnl_pkr = Dec 0, hr_total_dividends_received_pkr = Dec 0\<rparr>"

text \<open>A purchase of 100 shares at 10 rupees of which 50 were sold at cost, while the price stays at 10.\<close>

definition ex_half_sold :: ledger_db where
  "ex_half_sold = refresh_holdings_snapshot (ex_ledger\<lparr>transactions :=
     [ex_row (ex_buy\<lparr>c_price := Dec 10\<rparr>) ''t1'' 1 (Dec 0),
      ex_row (ex_buy\<lparr>c_price := Dec 10, c_type := SELL, c_quantity := Dec 50, c_date := 738110\<rparr>) ''t2'' 2 (Dec 0)]\<rparr>) ''p'' ''OGDC''"

definition ex_market :: market_db where
  "ex_market = \<lparr>security_rows = [\<lparr>sec_symbol = ''OGDC'', company_name = ''Oil and Gas'', sector = ''Energy'',
       is_kmi_compliant = True, is_kse100 = True, is_kse30 = True, market_cap_pkr = None, shares_outstanding = None,
       listed_at = None, delisted_at = None, is_active = True\<rparr>],
     ohlcv_rows = [\<lparr>o_symbol = ''OGDC'', o_date = 738150, o_open = None, o_high = None, o_low = None,
       o_close = Some (Dec 10), o_volume = None, o_value_pkr = None, o_adjusted_close = None\<rparr>]\<rparr>"

lemma ex_half_sold_holdings:
  "holdings ex_half_sold = [\<lparr>h_portfolio_id = ''p'', h_symbol = ''OGDC'', h_quantity = Dec 50, h_avg_cost_pkr = Dec 10,
     h_total_invested_pkr = Dec 1000, h_realized_pnl_pkr = Dec 0, h_total_dividends_received_pkr = Dec 0\<rparr>]"
  by code_simp

lemma ex_half_sold_inv: "ledger_inv ex_half_sold"
proof -
  let ?ts = "[ex_row (ex_buy\<lparr>c_price := Dec 10\<rparr>) ''t1'' 1 (Dec 0),
      ex_row (ex_buy\<lparr>c_price := Dec 10, c_type := SELL, c_quantity := Dec 50, c_date := 738110\<rparr>) ''t2'' 2 (Dec 0)]"
  have ts: "transactions ex_half_sold = ?ts" by (simp add: ex_half_sold_def)
  have rows: "symbol_txns ex_half_sold pid symb = (if pid = ''p'' \<and> symb = ''OGDC'' then ?ts else [])" for pid symb
    by (simp add: symbol_txns_def ts) (auto simp: ex_row_def ex_buy_def)
  have "row_ok t" if "t \<in> set ?ts" for t
    using that by (auto simp: row_ok_def ex_row_def ex_buy_def stored_qty_def numeric_def places_def)
  moreover have "bought ?ts = 100" "sold ?ts = 50" "net_position ?ts = 50"
    by (simp_all add: bought_def sold_def net_position_def position_step_def is_acquisition_def ex_row_def ex_buy_def)
  moreover have "net_position [] = 0" "bought [] = 0" "sold [] = 0" by (simp_all add: net_position_def bought_def sold_def)
  moreover have "holding_qty ex_half_sold pid symb = (if pid = ''p'' \<and> symb = ''OGDC'' then 50 else 0)" for pid symb
    by (auto simp: holding_qty_def ex_half_sold_holdings)
  ultimately show ?thesis
    by (auto simp: ledger_inv_def ledger_ok_def never_oversold_def snapshots_current_def rows ts)
qed

lemma ex_half_sold_market: "holdings_with_market ex_half_sold ex_market ''p'' =
    [\<lparr>hr_symbol = ''OGDC'', hr_company_name = ''Oil and Gas'', hr_sector = ''Energy'', hr_is_kmi_compliant = True,
      hr_quantity = Dec 50, hr_avg_cost_pkr = Dec 10, hr_total_invested_pkr = Dec 1000, hr_last_close = Some (Dec 10),
      hr_last_close_date = Some 738150, hr_market_value_pkr = Some (Dec 500), hr_unrealized_pnl_pkr = Some (Dec 0),
      hr_unrealized_pnl_pct = Some (Dec 0), hr_day_change_pct = None, hr_realized_pnl_pkr = Dec 0,
      hr_total_dividends_received_pkr = Dec 0\<rparr>]"
proof -
  have r: "holding_row ex_market \<lparr>h_portfolio_id = ''p'', h_symbol = ''OGDC'', h_quantity = Dec 50, h_avg_cost_pkr = Dec 10,
     h_total_invested_pkr = Dec 1000, h_realized_pnl_pkr = Dec 0, h_total_dividends_received_pkr = Dec 0\<rparr> (hd (security_rows ex_market)) =
    \<lparr>hr_symbol = ''OGDC'', hr_company_name = ''Oil and Gas'', hr_sector = ''Energy'', hr_is_kmi_compliant = True,
      hr_quantity = Dec 50, hr_avg_cost_pkr = Dec 10, hr_total_invested_pkr = Dec 1000, hr_last_close = Some (Dec 10),
      hr_last_close_date = Some 738150, hr_market_value_pkr = Some (Dec 500), hr_unrealized_pnl_pkr = Some (Dec 0),
      hr_unrealized_pnl_pct = Some (Dec 0), hr_day_change_pct = None, hr_realized_pnl_pkr = Dec 0,
      hr_total_dividends_received_pkr = Dec 0\<rparr>" by code_simp
  have "find_security ex_market ''OGDC'' = Some (hd (security_rows ex_market))" by (simp add: find_security_def ex_market_def)
  then show ?thesis using r by (simp add: holdings_with_market_def ex_half_sold_holdings map_filter_simps)
qed

lemma ex_half_sold_rates:
  "\<forall>b\<in>set (load_cgt_brackets ex_half_sold). Dec 0 \<le> rate_pct b \<and> rate_pct b \<le> Dec 100"
  by (subst ex_brackets) (simp_all add: ex_half_sold_def ex_bracket_def)

lemma ex_half_sold_gross: "gross_unrealized (holdings_with_market ex_half_sold ex_market ''p'') = Dec 0"
  by (simp add: ex_half_sold_market gross_unrealized_def eligible_def dec_sum_def dec_eq_iff dec_r.zero)


text \<open>
  The dashboard reports an unrealized loss that does not exist. The snapshot's invested amount is
  the cost of everything ever bought, so after a sale at cost with an unchanged price the total
  unrealized profit is minus the cost of the shares sold, although the only holding's own
  unrealized profit is zero; the figure after tax, computed from the holdings, is then larger
  than the figure before tax.
\<close>

lemma unrealized_counts_sold_cost:
  "ledger_inv ex_half_sold \<and> (\<exists>s. summary ex_half_sold ex_market ''p'' True 738200 = Inr s
     \<and> map hr_unrealized_pnl_pkr (ps_holdings s) = [Some (Dec 0)]
     \<and> ps_unrealized_pnl_pkr s = Dec (- 500))"
proof -
  let ?hs = "holdings_with_market ex_half_sold ex_market ''p''"
  obtain x where "liquidate (load_cgt_brackets ex_half_sold) True 738200
      (batch_txns ex_half_sold ''p'' (map hr_symbol (eligible ?hs))) (eligible ?hs) (Dec 0) = Inr x"
    using liquidate_eligible [OF ex_half_sold_inv] by blast
  then obtain c where "after_tax_unrealized ex_half_sold ''p'' ?hs True 738200 = Inr c"
    by (cases "eligible ?hs = []") (simp_all add: after_tax_unrealized_def)
  moreover have "quantize 2 (dec_sum [Dec 500] - dec_sum [Dec 1000]) = Dec (- 500)" by code_simp
  ultimately show ?thesis using ex_half_sold_inv
    by (cases c) (simp add: summary_def Let_def ex_half_sold_market)
qed

end
