(* ===== verification/Purification.thy ===== *)
theory Purification
  imports PortfolioSummary
begin

text \<open>
  Dividend purification: the calculator \<^verbatim>\<open>psx_api/purification/calculator.py\<close>, the service
  \<^verbatim>\<open>services/purification_service.py\<close> with its table of donation marks, and the two endpoints of
  \<^verbatim>\<open>routers/community.py\<close>. The clock is an argument.
\<close>

section \<open>Calculator\<close>

record DividendRecord =
  dv_symbol :: string
  dv_date :: date
  dv_amount_pkr :: dec

record PurificationLine =
  pl_symbol :: string
  pl_dividends_pkr :: dec
  pl_purification_pct :: dec
  pl_purification_amount_pkr :: dec

record PurificationReport =
  pr_fiscal_year :: int
  pr_total_dividends_pkr :: dec
  pr_total_purification_pkr :: dec
  pr_lines :: "PurificationLine list"
  pr_purification_pct :: dec

definition DEFAULT_PURIFICATION_PCT :: dec where
  "DEFAULT_PURIFICATION_PCT = Dec 5"

definition by_symbol :: "int \<Rightarrow> DividendRecord list \<Rightarrow> (string \<times> dec) list" where
  "by_symbol fiscal_year dividends =
     foldl (\<lambda>m d. if year_of (dv_date d) \<noteq> fiscal_year then m
                  else upsert (dv_symbol d) (\<lambda>old. (case old of None \<Rightarrow> Dec 0 | Some t \<Rightarrow> t) + dv_amount_pkr d) m)
       [] dividends"

definition purification_line :: "dec \<Rightarrow> string \<times> dec \<Rightarrow> PurificationLine" where
  "purification_line pct e =
     \<lparr>pl_symbol = fst e, pl_dividends_pkr = quantize 2 (snd e), pl_purification_pct = pct,
      pl_purification_amount_pkr = quantize 2 (snd e * (pct / Dec 100))\<rparr>"

definition compute_report :: "DividendRecord list \<Rightarrow> int \<Rightarrow> dec option \<Rightarrow> PurificationReport" where
  "compute_report dividends fiscal_year pct_opt =
     (let pct = (case pct_opt of None \<Rightarrow> DEFAULT_PURIFICATION_PCT | Some p \<Rightarrow> p);
          lines = map (purification_line pct) (sort_key fst (by_symbol fiscal_year dividends))
      in \<lparr>pr_fiscal_year = fiscal_year,
          pr_total_dividends_pkr = quantize 2 (dec_sum (map pl_dividends_pkr lines)),
          pr_total_purification_pkr = quantize 2 (dec_sum (map pl_purification_amount_pkr lines)),
          pr_lines = lines, pr_purification_pct = pct\<rparr>)"

section \<open>Service\<close>

record PurificationRecord =
  rec_user_id :: string
  rec_fiscal_year :: int
  rec_symbol :: string
  rec_dividends_received_pkr :: dec
  rec_purification_pct :: dec
  rec_purification_amount_pkr :: dec
  rec_marked_donated_at :: "int option"

type_synonym purification_db = "PurificationRecord list"

text \<open>The dividends of compliant securities in the user's portfolios.\<close>

definition user_dividends :: "portfolio_db \<Rightarrow> market_db \<Rightarrow> string \<Rightarrow> DividendRecord list" where
  "user_dividends db mk uid =
     map (\<lambda>t. \<lparr>dv_symbol = t_symbol t, dv_date = t_date t, dv_amount_pkr = t_quantity t * t_price t\<rparr>)
       (filter (\<lambda>t. t_type t = DIVIDEND
           \<and> list_ex (\<lambda>p. pf_id p = t_portfolio_id t \<and> pf_user_id p = uid) (portfolios db)
           \<and> (case find_security mk (t_symbol t) of None \<Rightarrow> False | Some s \<Rightarrow> is_kmi_compliant s))
         (transactions (ledger db)))"

definition marked_set :: "purification_db \<Rightarrow> string \<Rightarrow> int \<Rightarrow> string set" where
  "marked_set recs uid fiscal_year =
     set (map rec_symbol (filter (\<lambda>r. rec_user_id r = uid \<and> rec_fiscal_year r = fiscal_year
        \<and> rec_marked_donated_at r \<noteq> None) recs))"

text \<open>The report with its lines, each with the flag \<^verbatim>\<open>marked_donated\<close>.\<close>

definition service_report ::
  "portfolio_db \<Rightarrow> market_db \<Rightarrow> purification_db \<Rightarrow> string \<Rightarrow> int option \<Rightarrow> dec option \<Rightarrow> date
    \<Rightarrow> PurificationReport \<times> (PurificationLine \<times> bool) list" where
  "service_report db mk recs uid year_opt pct_opt today =
     (let fiscal_year = (if year_opt \<in> {None, Some 0} then year_of today else the year_opt);
          pct = (if pct_opt \<in> {None, Some (Dec 0)} then DEFAULT_PURIFICATION_PCT else the pct_opt);
          report = compute_report (user_dividends db mk uid) fiscal_year (Some pct)
      in (report, map (\<lambda>lin. (lin, pl_symbol lin \<in> marked_set recs uid fiscal_year)) (pr_lines report)))"

definition is_record :: "string \<Rightarrow> int \<Rightarrow> string \<Rightarrow> PurificationRecord \<Rightarrow> bool" where
  "is_record uid fiscal_year symb r \<longleftrightarrow>
     rec_user_id r = uid \<and> rec_fiscal_year r = fiscal_year \<and> rec_symbol r = symb"

definition service_mark_donated ::
  "portfolio_db \<Rightarrow> market_db \<Rightarrow> string \<Rightarrow> int \<Rightarrow> string \<Rightarrow> bool \<Rightarrow> date \<Rightarrow> int \<Rightarrow> purification_db \<Rightarrow> purification_db" where
  "service_mark_donated db mk uid fiscal_year symb donated today now recs =
     (let mark = (if donated then Some now else None)
      in if list_ex (is_record uid fiscal_year symb) recs
         then map (\<lambda>r. if is_record uid fiscal_year symb r then r\<lparr>rec_marked_donated_at := mark\<rparr> else r) recs
         else case List.find (\<lambda>lin. pl_symbol lin = symb)
                     (pr_lines (fst (service_report db mk recs uid (Some fiscal_year) None today))) of
                None \<Rightarrow> recs
              | Some lin \<Rightarrow> recs @
                  [\<lparr>rec_user_id = uid, rec_fiscal_year = fiscal_year, rec_symbol = symb,
                    rec_dividends_received_pkr = pl_dividends_pkr lin, rec_purification_pct = pl_purification_pct lin,
                    rec_purification_amount_pkr = pl_purification_amount_pkr lin, rec_marked_donated_at = mark\<rparr>])"

section \<open>Endpoints\<close>

definition purification_report ::
  "portfolio_db \<Rightarrow> market_db \<Rightarrow> purification_db \<Rightarrow> User \<Rightarrow> int option \<Rightarrow> date
    \<Rightarrow> PurificationReport \<times> (PurificationLine \<times> bool) list" where
  "purification_report db mk recs user year_opt today =
     service_report db mk recs (u_id user)
       (Some (if year_opt \<in> {None, Some 0} then year_of today else the year_opt)) None today"

definition mark_donated ::
  "portfolio_db \<Rightarrow> market_db \<Rightarrow> User \<Rightarrow> int \<Rightarrow> string \<Rightarrow> bool \<Rightarrow> date \<Rightarrow> int \<Rightarrow> purification_db \<Rightarrow> purification_db" where
  "mark_donated db mk user fiscal_year symb donated today now recs =
     service_mark_donated db mk (u_id user) fiscal_year (py_upper symb) donated today now recs"

section \<open>Grouping\<close>

definition sums_ok :: "(string \<times> dec) list \<Rightarrow> bool" where
  "sums_ok m \<longleftrightarrow> distinct (map fst m) \<and> (\<forall>(s, v)\<in>set m. 0 \<le> dval v \<and> dec28 (dval v) = dval v)"

lemma set_upsert: "e \<in> set (upsert k f m) \<Longrightarrow> e \<in> set m \<or> (\<exists>w. e = (k, f w) \<and> (\<forall>v. w = Some v \<longrightarrow> (k, v) \<in> set m))"
proof (induction m)
  case (Cons kv m)
  obtain k' v where "kv = (k', v)" by (cases kv)
  with Cons show ?case by (cases "k = k'") auto
qed simp

lemma upsert_sums_ok:
  assumes "sums_ok m" "0 \<le> dval x"
  shows "sums_ok (upsert k (\<lambda>old. (case old of None \<Rightarrow> Dec 0 | Some t \<Rightarrow> t) + x) m)"
proof -
  let ?f = "\<lambda>old. (case old of None \<Rightarrow> Dec 0 | Some t \<Rightarrow> t) + x"
  have "0 \<le> dval v \<and> dec28 (dval v) = dval v" if elem: "(s, v) \<in> set (upsert k ?f m)" for s v
  proof (cases "(s, v) \<in> set m")
    case True
    then show ?thesis using assms(1) by (auto simp: sums_ok_def)
  next
    case False
    then obtain w where w: "v = ?f w" "\<forall>u. w = Some u \<longrightarrow> (k, u) \<in> set m" using set_upsert [OF elem] by auto
    have "0 \<le> dval (case w of None \<Rightarrow> Dec 0 | Some t \<Rightarrow> t)"
      using w(2) assms(1) by (cases w) (auto simp: sums_ok_def)
    then show ?thesis using assms(2) by (simp add: w(1) dec_r.idem dec_r.nonneg)
  qed
  then show ?thesis using assms(1) by (auto simp: sums_ok_def distinct_upsert)
qed

lemma by_symbol_ok:
  assumes "\<forall>d\<in>set ds. 0 \<le> dval (dv_amount_pkr d)"
  shows "sums_ok (by_symbol y ds)"
proof -
  have "sums_ok (foldl (\<lambda>m d. if year_of (dv_date d) \<noteq> y then m
      else upsert (dv_symbol d) (\<lambda>old. (case old of None \<Rightarrow> Dec 0 | Some t \<Rightarrow> t) + dv_amount_pkr d) m) m ds)"
    if "sums_ok m" for m
    using that assms by (induction ds arbitrary: m) (auto simp: upsert_sums_ok)
  moreover have "sums_ok []" by (simp add: sums_ok_def)
  ultimately show ?thesis unfolding by_symbol_def by blast
qed

lemma keys_by_symbol:
  "fst ` set (by_symbol y ds) = dv_symbol ` {d \<in> set ds. year_of (dv_date d) = y}"
proof -
  have k: "fst ` set (upsert k f m) = insert k (fst ` set m)" for k and f :: "dec option \<Rightarrow> dec" and m :: "(string \<times> dec) list"
  proof -
    have "fst ` set (upsert k f m) = set (map fst (upsert k f m))" by simp
    also have "\<dots> = insert k (fst ` set m)" unfolding keys_upsert using map_of_eq_None_iff [of m k] by auto
    finally show ?thesis .
  qed
  have "fst ` set (foldl (\<lambda>m d. if year_of (dv_date d) \<noteq> y then m
      else upsert (dv_symbol d) (\<lambda>old. (case old of None \<Rightarrow> Dec 0 | Some t \<Rightarrow> t) + dv_amount_pkr d) m) m ds)
    = fst ` set m \<union> dv_symbol ` {d \<in> set ds. year_of (dv_date d) = y}" for m
    by (induction ds arbitrary: m) (auto simp: k)
  then show ?thesis by (simp add: by_symbol_def)
qed

lemma line_bounds:
  assumes "0 \<le> dval v" "dec28 (dval v) = dval v" "0 \<le> dval pct" "dval pct \<le> 100"
  shows "Dec 0 \<le> pl_purification_amount_pkr (purification_line pct (s, v))"
    "pl_purification_amount_pkr (purification_line pct (s, v)) \<le> pl_dividends_pkr (purification_line pct (s, v))"
proof -
  have m: "0 \<le> dec28 (dval pct / 100)" "dec28 (dval pct / 100) \<le> 1"
    using assms(3,4) dec_r.mono [of "dval pct / 100" 1] dec28_small by (auto intro: dec_r.nonneg)
  then have "dval v * dec28 (dval pct / 100) \<le> dval v" using assms(1) by (simp add: mult_left_le)
  then have "dec28 (dval v * dec28 (dval pct / 100)) \<le> dval v" using dec_r.mono assms(2) by fastforce
  then show "pl_purification_amount_pkr (purification_line pct (s, v)) \<le> pl_dividends_pkr (purification_line pct (s, v))"
    by (simp add: purification_line_def dec_le_iff qz_even.mono)
  show "Dec 0 \<le> pl_purification_amount_pkr (purification_line pct (s, v))"
    using m(1) assms(1) by (simp add: purification_line_def dec_le_iff qz_even.nonneg dec_r.nonneg)
qed

section \<open>Properties\<close>

text \<open>
  A report has one line per symbol that paid a dividend in the year, in alphabetical order; for a
  rate between 0 and 100 percent no line asks for more than the dividends it lists or for a
  negative amount, and the total to donate does not exceed the total received.
\<close>

lemma purification_report_lines:
  assumes amounts: "\<forall>d\<in>set ds. Dec 0 \<le> dv_amount_pkr d" and pct: "Dec 0 \<le> pct" "pct \<le> Dec 100"
  shows "sorted_wrt (<) (map pl_symbol (pr_lines (compute_report ds y (Some pct))))
    \<and> set (map pl_symbol (pr_lines (compute_report ds y (Some pct)))) = dv_symbol ` {d \<in> set ds. year_of (dv_date d) = y}
    \<and> (\<forall>lin\<in>set (pr_lines (compute_report ds y (Some pct))).
         Dec 0 \<le> pl_purification_amount_pkr lin \<and> pl_purification_amount_pkr lin \<le> pl_dividends_pkr lin)
    \<and> pr_total_purification_pkr (compute_report ds y (Some pct)) \<le> pr_total_dividends_pkr (compute_report ds y (Some pct))"
proof -
  let ?m = "sort_key fst (by_symbol y ds)"
  let ?lines = "map (purification_line pct) ?m"
  have ok: "sums_ok (by_symbol y ds)" using amounts by (intro by_symbol_ok) (simp add: dec_le_iff)
  have lines: "pr_lines (compute_report ds y (Some pct)) = ?lines" by (simp add: compute_report_def Let_def)
  have syms: "map pl_symbol ?lines = map fst ?m" by (simp add: purification_line_def)
  have "sorted (map fst ?m)" by simp
  moreover have "distinct (map fst ?m)" using ok by (simp add: sums_ok_def distinct_map)
  ultimately have "sorted_wrt (<) (map pl_symbol ?lines)" unfolding syms by (simp only: strict_sorted_iff)
  moreover have "set (map pl_symbol ?lines) = dv_symbol ` {d \<in> set ds. year_of (dv_date d) = y}"
    unfolding syms by (simp add: keys_by_symbol)
  moreover have each: "\<forall>lin\<in>set ?lines. Dec 0 \<le> pl_purification_amount_pkr lin \<and> pl_purification_amount_pkr lin \<le> pl_dividends_pkr lin"
    using ok line_bounds pct by (auto simp: sums_ok_def dec_le_iff)
  moreover have "list_all2 (\<le>) (map pl_purification_amount_pkr ?lines) (map pl_dividends_pkr ?lines)"
    using each by (auto simp: list_all2_map1 list_all2_map2 list.rel_map intro!: list.rel_refl_strong)
  from foldl_plus_mono [OF this order_refl]
  have "pr_total_purification_pkr (compute_report ds y (Some pct)) \<le> pr_total_dividends_pkr (compute_report ds y (Some pct))"
    by (simp add: compute_report_def Let_def dec_sum_def dec_le_iff qz_even.mono)
  ultimately show ?thesis by (simp add: lines)
qed

lemma service_mark_donated_marks:
  assumes line: "symb \<in> set (map pl_symbol (pr_lines (fst (service_report db mk recs uid (Some y) None today))))"
  shows "(symb \<in> marked_set (service_mark_donated db mk uid y symb donated today now recs) uid y) = donated
    \<and> (\<forall>v z s. (v, z, s) \<noteq> (uid, y, symb) \<longrightarrow>
         (s \<in> marked_set (service_mark_donated db mk uid y symb donated today now recs) v z) = (s \<in> marked_set recs v z))
    \<and> fst (service_report db mk (service_mark_donated db mk uid y symb donated today now recs) uid (Some y) None today)
      = fst (service_report db mk recs uid (Some y) None today)"
proof -
  let ?mark = "if donated then Some now else None"
  have in_marked: "s \<in> marked_set rs v z \<longleftrightarrow> (\<exists>r\<in>set rs. is_record v z s r \<and> rec_marked_donated_at r \<noteq> None)" for rs v z s
    by (auto simp: marked_set_def is_record_def)
  let ?new = "service_mark_donated db mk uid y symb donated today now recs"
  have "(symb \<in> marked_set ?new uid y) = donated
      \<and> (\<forall>v z s. (v, z, s) \<noteq> (uid, y, symb) \<longrightarrow> (s \<in> marked_set ?new v z) = (s \<in> marked_set recs v z))"
  proof (cases "list_ex (is_record uid y symb) recs")
    case True
    let ?f = "\<lambda>r. if is_record uid y symb r then r\<lparr>rec_marked_donated_at := ?mark\<rparr> else r"
    have new: "?new = map ?f recs" using True by (simp add: service_mark_donated_def Let_def)
    have key: "is_record v z s (?f r) = is_record v z s r" for v z s r by (simp add: is_record_def)
    obtain r0 where r0: "r0 \<in> set recs" "is_record uid y symb r0" using True by (auto simp: list_ex_iff)
    have "symb \<in> marked_set ?new uid y \<longleftrightarrow> (\<exists>r\<in>set recs. is_record uid y symb (?f r) \<and> rec_marked_donated_at (?f r) \<noteq> None)"
      unfolding in_marked new by (simp only: set_map bex_simps)
    also have "\<dots> \<longleftrightarrow> (\<exists>r\<in>set recs. is_record uid y symb r \<and> ?mark \<noteq> None)" unfolding key by auto
    also have "\<dots> \<longleftrightarrow> donated" using r0 by auto
    finally have "(symb \<in> marked_set ?new uid y) = donated" .
    moreover have "(s \<in> marked_set ?new v z) = (s \<in> marked_set recs v z)" if "(v, z, s) \<noteq> (uid, y, symb)" for v z s
    proof -
      have "rec_marked_donated_at (?f r) = rec_marked_donated_at r" if "is_record v z s r" for r
        using that \<open>(v, z, s) \<noteq> (uid, y, symb)\<close> by (auto simp: is_record_def)
      then have "is_record v z s (?f r) \<and> rec_marked_donated_at (?f r) \<noteq> None
          \<longleftrightarrow> is_record v z s r \<and> rec_marked_donated_at r \<noteq> None" for r unfolding key by metis
      then show ?thesis unfolding in_marked new by (simp only: set_map bex_simps)
    qed
    ultimately show ?thesis by blast
  next
    case False
    obtain lin where "List.find (\<lambda>lin. pl_symbol lin = symb)
        (pr_lines (fst (service_report db mk recs uid (Some y) None today))) = Some lin"
      using line by (cases "List.find (\<lambda>lin. pl_symbol lin = symb)
        (pr_lines (fst (service_report db mk recs uid (Some y) None today)))") (auto simp: find_None_iff)
    then have new: "?new = recs @ [\<lparr>rec_user_id = uid, rec_fiscal_year = y, rec_symbol = symb,
        rec_dividends_received_pkr = pl_dividends_pkr lin, rec_purification_pct = pl_purification_pct lin,
        rec_purification_amount_pkr = pl_purification_amount_pkr lin, rec_marked_donated_at = ?mark\<rparr>]"
      using False by (simp add: service_mark_donated_def Let_def)
    show ?thesis using False by (auto simp: in_marked new is_record_def list_ex_iff)
  qed
  moreover have "fst (service_report db mk ?new uid (Some y) None today) = fst (service_report db mk recs uid (Some y) None today)"
    by (simp add: service_report_def Let_def)
  ultimately show ?thesis by blast
qed

definition ex_div_db :: portfolio_db where
  "ex_div_db = \<lparr>portfolios = portfolios ex_pdb1,
     ledger = ex_ledger\<lparr>transactions := [ex_row (ex_buy\<lparr>c_type := DIVIDEND, c_price := Dec 5\<rparr>) ''t1'' 1 (Dec 0)]\<rparr>\<rparr>"

lemma ex_div_lines: "map pl_symbol (pr_lines (fst (service_report ex_div_db ex_market [] ''u1'' (Some 2021) None 738200))) = [''OGDC'']"
proof -
  have "user_dividends ex_div_db ex_market ''u1'' = [\<lparr>dv_symbol = ''OGDC'', dv_date = 738100, dv_amount_pkr = Dec 100 * Dec 5\<rparr>]"
    by (simp add: user_dividends_def ex_div_db_def ex_pdb1(2) ex_row_def ex_buy_def find_security_def ex_market_def)
  moreover have "year_of 738100 = 2021" by code_simp
  ultimately show ?thesis
    by (simp add: service_report_def compute_report_def by_symbol_def Let_def purification_line_def)
qed

text \<open>
  C14: marking round trip. After a request to mark (or unmark) a symbol of the year's report as
  donated, the report endpoint returns the same report with that symbol's line marked (or not) and
  every other line as before, and the marks of other users and years do not change.
\<close>

theorem mark_donated_roundtrip:
  assumes year: "y \<noteq> 0"
    and line: "py_upper symb \<in> set (map pl_symbol (pr_lines (fst (purification_report db mk recs user (Some y) today))))"
  shows "purification_report db mk (mark_donated db mk user y symb donated today now recs) user (Some y) today
      = (fst (purification_report db mk recs user (Some y) today),
         map (\<lambda>(lin, m). (lin, if pl_symbol lin = py_upper symb then donated else m))
           (snd (purification_report db mk recs user (Some y) today)))
    \<and> (\<forall>v z. (v, z) \<noteq> (u_id user, y) \<longrightarrow>
         marked_set (mark_donated db mk user y symb donated today now recs) v z = marked_set recs v z)"
proof -
  let ?new = "mark_donated db mk user y symb donated today now recs"
  have line': "py_upper symb \<in> set (map pl_symbol (pr_lines (fst (service_report db mk recs (u_id user) (Some y) None today))))"
    using line year by (simp add: purification_report_def)
  note m = service_mark_donated_marks [OF line', of donated now, folded mark_donated_def]
  have mark: "(s \<in> marked_set ?new (u_id user) y) = (if s = py_upper symb then donated else s \<in> marked_set recs (u_id user) y)" for s
    using m by auto
  have "purification_report db mk ?new user (Some y) today
      = (fst (purification_report db mk recs user (Some y) today),
         map (\<lambda>(lin, m). (lin, if pl_symbol lin = py_upper symb then donated else m))
           (snd (purification_report db mk recs user (Some y) today)))"
    using year by (simp add: purification_report_def service_report_def Let_def mark)
  moreover have "marked_set ?new v z = marked_set recs v z" if "(v, z) \<noteq> (u_id user, y)" for v z
    using m that by blast
  ultimately show ?thesis by blast
qed

theorem mark_donated_roundtrip_witness:
  "''OGDC'' \<in> set (map pl_symbol (pr_lines (fst (purification_report ex_div_db ex_market [] ex_user (Some 2021) 738200))))
   \<and> purification_report ex_div_db ex_market (mark_donated ex_div_db ex_market ex_user 2021 ''ogdc'' True 738200 9 []) ex_user (Some 2021) 738200
      = (fst (purification_report ex_div_db ex_market [] ex_user (Some 2021) 738200),
         map (\<lambda>(lin, m). (lin, if pl_symbol lin = ''OGDC'' then True else m))
           (snd (purification_report ex_div_db ex_market [] ex_user (Some 2021) 738200)))"
proof -
  have up: "py_upper ''ogdc'' = ''OGDC''" by code_simp
  have "''OGDC'' \<in> set (map pl_symbol (pr_lines (fst (purification_report ex_div_db ex_market [] ex_user (Some 2021) 738200))))"
    using ex_div_lines unfolding purification_report_def ex_user_def by (simp add: new_user_def del: set_map)
  then show ?thesis
    using mark_donated_roundtrip [of 2021 "''ogdc''" ex_div_db ex_market "[]" ex_user 738200 True 9] unfolding up by simp
qed

end
