(* ===== verification/RiskProfile.thy ===== *)
theory RiskProfile
  imports Auth
begin

text \<open>
  The risk questionnaire: questions, scoring and archetypes of \<^verbatim>\<open>psx_api/risk/profile.py\<close> and the
  endpoints of \<^verbatim>\<open>routers/risk.py\<close>, which store the result on the user's row. A dict of answers is
  the list of its items, in the order Python iterates it, with distinct keys.
\<close>

section \<open>Question bank\<close>

datatype axis = Risk_tolerance | Time_horizon | Knowledge

datatype risk_option = Option (op_value: string) (op_label: string) (op_weight: int)

datatype risk_question = Question (q_id: string) (q_axis: axis) (q_prompt: string) (q_options: "risk_option list")

text \<open>Two more characters of the texts outside ASCII, in UTF-8.\<close>

definition nb_hyphen :: string where "nb_hyphen = [CHR 0xE2, CHR 0x80, CHR 0x91]"
definition ellipsis :: string where "ellipsis = [CHR 0xE2, CHR 0x80, CHR 0xA6]"

definition QUESTIONS :: "risk_question list" where
  "QUESTIONS =
    [
     Question ''rt1'' Risk_tolerance
       ''If your portfolio dropped 30% in a single month, what would you do?''
       [Option ''sell_all'' ''Sell everything to stop the bleeding'' 1,
        Option ''sell_some'' ''Sell some to reduce exposure'' 2,
        Option ''hold'' ''Hold and wait for recovery'' 4,
        Option ''buy_more'' (''Buy more '' @ em_dash @ '' the dip is an opportunity'') 5],
     Question ''rt2'' Risk_tolerance
       (''Pick the portfolio you'' @ apostrophe @ ''d be most comfortable owning.'')
       [Option ''a'' (''Average return 4%, worst year '' @ nb_hyphen @ ''2%'') 1,
        Option ''b'' (''Average return 7%, worst year '' @ nb_hyphen @ ''10%'') 2,
        Option ''c'' (''Average return 10%, worst year '' @ nb_hyphen @ ''20%'') 3,
        Option ''d'' (''Average return 14%, worst year '' @ nb_hyphen @ ''35%'') 4,
        Option ''e'' (''Average return 20%, worst year '' @ nb_hyphen @ ''50%'') 5],
     Question ''rt3'' Risk_tolerance
       ''How would you describe your investing experience so far?''
       [Option ''none'' (''I haven'' @ apostrophe @ ''t invested before'') 1,
        Option ''savings'' ''Mostly savings accounts and fixed deposits'' 2,
        Option ''mutual_funds'' ''Mutual funds / Sukuk'' 3,
        Option ''equities'' ''Direct equities'' 4,
        Option ''active'' ''Active equities, options, or futures'' 5],
     Question ''rt4'' Risk_tolerance
       ''What share of your monthly income could you put at meaningful risk?''
       [Option ''0_5'' (''0'' @ en_dash @ ''5%'') 1,
        Option ''5_10'' (''5'' @ en_dash @ ''10%'') 2,
        Option ''10_20'' (''10'' @ en_dash @ ''20%'') 3,
        Option ''20_30'' (''20'' @ en_dash @ ''30%'') 4,
        Option ''30_plus'' ''30%+'' 5],
     Question ''rt5'' Risk_tolerance
       ''How would you feel checking your portfolio after a -15% week?''
       [Option ''panic'' (''Panicked '' @ em_dash @ '' I'' @ apostrophe @ ''d want out'') 1,
        Option ''uneasy'' (''Uneasy but I'' @ apostrophe @ ''d hold'') 2,
        Option ''ok'' (''It'' @ apostrophe @ ''s part of the game'') 4,
        Option ''excited'' (''Excited '' @ em_dash @ '' time to buy'') 5],
     Question ''th1'' Time_horizon
       ''When will you most likely need this money?''
       [Option ''lt2'' ''Within 2 years'' 1,
        Option ''2_5'' (''2'' @ en_dash @ ''5 years'') 2,
        Option ''5_10'' (''5'' @ en_dash @ ''10 years'') 3,
        Option ''10_20'' (''10'' @ en_dash @ ''20 years'') 4,
        Option ''20_plus'' ''20+ years (retirement, legacy)'' 5],
     Question ''th2'' Time_horizon
       ''Could you live without this money for 5+ years if a crash forced you to wait?''
       [Option ''no'' (''No, I'' @ apostrophe @ ''d need it sooner'') 1,
        Option ''maybe'' (''Maybe '' @ em_dash @ '' would be tight'') 3,
        Option ''yes'' ''Yes, comfortably'' 5],
     Question ''th3'' Time_horizon
       ''Are you currently saving toward a specific goal that has a hard deadline?''
       [Option ''hard_soon'' ''Yes, within 3 years (down payment, wedding, Hajj)'' 1,
        Option ''medium'' (''Yes, in 3'' @ en_dash @ ''10 years'') 3,
        Option ''flexible'' (''No hard deadline '' @ em_dash @ '' long-term wealth building'') 5],
     Question ''kn1'' Knowledge
       ''What is the KMI-30 index?''
       [Option ''top30'' ''The 30 largest stocks on PSX'' 1,
        Option ''kmi'' ''The 30 largest Shariah-compliant stocks on PSX'' 5,
        Option ''top100'' ''Same as KSE-100 minus banks'' 1,
        Option ''dontknow'' ''Not sure'' 1],
     Question ''kn2'' Knowledge
       ''What does CGT stand for and when does it apply?''
       [Option ''right'' (''Capital Gains Tax '' @ em_dash @ '' paid on realised profit when you sell'') 5,
        Option ''wrong1'' (''Capital Growth Tax '' @ em_dash @ '' paid annually on holdings'') 1,
        Option ''wrong2'' (''Cumulative Gain Tax '' @ em_dash @ '' paid on dividends only'') 1,
        Option ''dontknow'' ''Not sure'' 1],
     Question ''kn3'' Knowledge
       (''If a stock'' @ apostrophe @ ''s P/E ratio is much higher than its sector average, that usually means'' @ ellipsis)
       [Option ''right'' (''The market is pricing in higher future growth (or it'' @ apostrophe @ ''s overvalued)'') 5,
        Option ''wrong1'' (''It'' @ apostrophe @ ''s safer than the rest of the sector'') 1,
        Option ''wrong2'' ''It pays a higher dividend'' 1,
        Option ''dontknow'' ''Not sure'' 1],
     Question ''kn4'' Knowledge
       ''Diversification primarily reduces which kind of risk?''
       [Option ''right'' ''Stock-specific (idiosyncratic) risk'' 5,
        Option ''wrong1'' ''All risk equally'' 1,
        Option ''wrong2'' ''Inflation risk'' 1,
        Option ''dontknow'' ''Not sure'' 1]
    ]"

definition BY_ID :: "string \<Rightarrow> risk_question option" where
  "BY_ID qid = map_of (map (\<lambda>q. (q_id q, q)) QUESTIONS) qid"

section \<open>Scoring\<close>

datatype invalid_answers = AnswerSetMismatch "string list" "string list" | UnknownOption string string

datatype risk_error = InvalidAnswersError invalid_answers | ZeroDivisionError

text \<open>The weights collected so far, per axis.\<close>

record raw_weights =
  raw_risk_tolerance :: "int list"
  raw_time_horizon :: "int list"
  raw_knowledge :: "int list"

definition add_weight :: "axis \<Rightarrow> int \<Rightarrow> raw_weights \<Rightarrow> raw_weights" where
  "add_weight a w raw = (case a of
     Risk_tolerance \<Rightarrow> raw\<lparr>raw_risk_tolerance := raw_risk_tolerance raw @ [w]\<rparr>
   | Time_horizon \<Rightarrow> raw\<lparr>raw_time_horizon := raw_time_horizon raw @ [w]\<rparr>
   | Knowledge \<Rightarrow> raw\<lparr>raw_knowledge := raw_knowledge raw @ [w]\<rparr>)"

definition find_option :: "string \<Rightarrow> string \<Rightarrow> (axis \<times> int) option" where
  "find_option qid v = Option.bind (BY_ID qid) (\<lambda>q.
     map_option (\<lambda>opt. (q_axis q, op_weight opt)) (List.find (\<lambda>opt. op_value opt = v) (q_options q)))"

fun collect_weights :: "(string \<times> string) list \<Rightarrow> raw_weights \<Rightarrow> risk_error + raw_weights" where
  "collect_weights [] raw = Inr raw"
| "collect_weights ((qid, v) # answers) raw =
     (case find_option qid v of
        None \<Rightarrow> Inl (InvalidAnswersError (UnknownOption v qid))
      | Some (a, w) \<Rightarrow> collect_weights answers (add_weight a w raw))"

definition axis_score :: "int list \<Rightarrow> risk_error + int" where
  "axis_score weights =
     (if weights = [] then Inl ZeroDivisionError
      else Inr (max 1 (min 5 (py_round_int (flt (of_int (sum_list weights) / of_nat (length weights)))))))"

record RiskScores =
  sc_risk_tolerance :: int
  sc_time_horizon :: int
  sc_knowledge :: int

definition score :: "(string \<times> string) list \<Rightarrow> risk_error + RiskScores" where
  "score answers =
     (let ids = map q_id QUESTIONS; keys = map fst answers
      in if set keys \<noteq> set ids
         then Inl (InvalidAnswersError (AnswerSetMismatch
                (sort (filter (\<lambda>i. i \<notin> set keys) ids)) (sort (filter (\<lambda>k. k \<notin> set ids) keys))))
         else bind_r (collect_weights answers \<lparr>raw_risk_tolerance = [], raw_time_horizon = [], raw_knowledge = []\<rparr>) (\<lambda>raw.
              bind_r (axis_score (raw_risk_tolerance raw)) (\<lambda>rt.
              bind_r (axis_score (raw_time_horizon raw)) (\<lambda>th.
              bind_r (axis_score (raw_knowledge raw)) (\<lambda>kn.
              Inr \<lparr>sc_risk_tolerance = rt, sc_time_horizon = th, sc_knowledge = kn\<rparr>)))))"

section \<open>Archetypes\<close>

definition ARCHETYPES :: "string list" where
  "ARCHETYPES = [''conservative_saver'', ''cautious_beginner'', ''balanced_builder'', ''growth_seeker'', ''aggressive_trader'']"

datatype archetype_profile = ArchetypeProfile (ap_key: string) (ap_label: string) (ap_description: string)

definition ARCHETYPE_PROFILES :: "(string \<times> archetype_profile) list" where
  "ARCHETYPE_PROFILES =
    [
     (''conservative_saver'', ArchetypeProfile ''conservative_saver'' ''Conservative Saver'' ''Capital preservation first. T-Bills and Sukuk dominate; equities are a small satellite.''),
     (''cautious_beginner'', ArchetypeProfile ''cautious_beginner'' ''Cautious Beginner'' ''Learning the ropes. A meaningful equity allocation backed by a solid fixed-income base.''),
     (''balanced_builder'', ArchetypeProfile ''balanced_builder'' ''Balanced Builder'' ''Steady wealth-building. Equities and fixed income roughly balanced, tilted by horizon.''),
     (''growth_seeker'', ArchetypeProfile ''growth_seeker'' ''Growth Seeker'' ''Wants real returns over inflation. Equity-heavy, comfortable with multi-year drawdowns.''),
     (''aggressive_trader'', ArchetypeProfile ''aggressive_trader'' ''Aggressive Trader'' ''High volatility tolerance, long horizon, active engagement with markets.'')
    ]"

text \<open>The index of the archetype: tolerance sets it, then the three adjustments in the order of the code.\<close>

definition archetype_index :: "RiskScores \<Rightarrow> int" where
  "archetype_index sc =
     (let rt = sc_risk_tolerance sc; th = sc_time_horizon sc; kn = sc_knowledge sc;
          base = max 0 (min 4 (rt - 1));
          base = (if th \<le> 2 \<and> base > 2 then 2 else base);
          base = (if th \<ge> 4 \<and> kn \<ge> 3 \<and> base < 4 then base + 1 else base);
          base = (if kn \<le> 2 \<and> rt < 5 \<and> base > 1 then 1 else base)
      in base)"

definition archetype :: "RiskScores \<Rightarrow> string" where
  "archetype sc = ARCHETYPES ! nat (archetype_index sc)"

record evaluation =
  ev_scores :: RiskScores
  ev_archetype :: string
  ev_label :: string
  ev_description :: string

text \<open>\<^verbatim>\<open>ARCHETYPE_PROFILES[k]\<close>: a missing key is a \<^verbatim>\<open>KeyError\<close>.\<close>

definition evaluate :: "(string \<times> string) list \<Rightarrow> risk_error + evaluation option" where
  "evaluate answers =
     bind_r (score answers) (\<lambda>sc.
       Inr (map_option (\<lambda>profile.
              \<lparr>ev_scores = sc, ev_archetype = archetype sc, ev_label = ap_label profile,
               ev_description = ap_description profile\<rparr>)
            (map_of ARCHETYPE_PROFILES (archetype sc))))"

section \<open>Endpoints\<close>

text \<open>What the client sees of a question: the weights are left out.\<close>

definition get_questionnaire :: "(string \<times> axis \<times> string \<times> (string \<times> string) list) list" where
  "get_questionnaire = map (\<lambda>q. (q_id q, q_axis q, q_prompt q, map (\<lambda>opt. (op_value opt, op_label opt)) (q_options q))) QUESTIONS"

record RiskProfileResult =
  rp_archetype :: string
  rp_label :: string
  rp_description :: string
  rp_scores :: RiskScores
  rp_completed_at :: "int option"

definition or_zero :: "int option \<Rightarrow> int" where
  "or_zero x = (case x of None \<Rightarrow> 0 | Some n \<Rightarrow> n)"

definition profile_of :: "User \<Rightarrow> http_error + RiskProfileResult option" where
  "profile_of user =
     (case u_risk_archetype user of
        None \<Rightarrow> Inr None
      | Some k \<Rightarrow> (case map_of ARCHETYPE_PROFILES k of
            None \<Rightarrow> Inl ServerError
          | Some profile \<Rightarrow> Inr (Some \<lparr>rp_archetype = k, rp_label = ap_label profile, rp_description = ap_description profile,
              rp_scores = \<lparr>sc_risk_tolerance = or_zero (u_risk_tolerance_score user),
                           sc_time_horizon = or_zero (u_time_horizon_score user),
                           sc_knowledge = or_zero (u_knowledge_score user)\<rparr>,
              rp_completed_at = u_risk_profile_completed_at user\<rparr>)))"

definition get_profile :: "auth_env \<Rightarrow> string option \<Rightarrow> int \<Rightarrow> auth_state \<Rightarrow> http_error + RiskProfileResult option" where
  "get_profile env psx_session now st = bind_r (get_current_user env psx_session now st) profile_of"

text \<open>The detail of the 400 is the message of the exception; it is not modelled beyond its arguments.\<close>

datatype submit_error = Http http_error | BadAnswers invalid_answers

definition submit_answers ::
  "auth_env \<Rightarrow> (string \<times> string) list \<Rightarrow> string option \<Rightarrow> int \<Rightarrow> auth_state
    \<Rightarrow> (submit_error + RiskProfileResult) \<times> auth_state" where
  "submit_answers env answers psx_session now st =
     (case get_current_user env psx_session now st of
        Inl e \<Rightarrow> (Inl (Http e), st)
      | Inr user \<Rightarrow> if answers = [] then (Inl (Http (HTTPException 422 [])), st) else (case evaluate answers of
            Inl (InvalidAnswersError d) \<Rightarrow> (Inl (BadAnswers d), st)
          | Inl ZeroDivisionError \<Rightarrow> (Inl (Http ServerError), st)
          | Inr None \<Rightarrow> (Inl (Http ServerError), st)
          | Inr (Some r) \<Rightarrow>
              let user' = user\<lparr>u_risk_archetype := Some (ev_archetype r),
                    u_risk_tolerance_score := Some (sc_risk_tolerance (ev_scores r)),
                    u_time_horizon_score := Some (sc_time_horizon (ev_scores r)),
                    u_knowledge_score := Some (sc_knowledge (ev_scores r)),
                    u_risk_profile_completed_at := Some now\<rparr>
              in (Inr \<lparr>rp_archetype = ev_archetype r, rp_label = ev_label r, rp_description = ev_description r,
                       rp_scores = ev_scores r, rp_completed_at = u_risk_profile_completed_at user'\<rparr>,
                  save_user user' st)))"

section \<open>Complete answers\<close>

text \<open>Every question is answered, nothing else is, and each answer is an option of its question.\<close>

definition complete_answers :: "(string \<times> string) list \<Rightarrow> bool" where
  "complete_answers answers \<longleftrightarrow> set (map fst answers) = set (map q_id QUESTIONS)
     \<and> list_all (\<lambda>(qid, v). \<exists>q\<in>set QUESTIONS. q_id q = qid \<and> v \<in> op_value ` set (q_options q)) answers"

lemma bank_axes:
  "map (\<lambda>q. (q_id q, q_axis q)) QUESTIONS =
    [(''rt1'', Risk_tolerance), (''rt2'', Risk_tolerance), (''rt3'', Risk_tolerance), (''rt4'', Risk_tolerance),
     (''rt5'', Risk_tolerance), (''th1'', Time_horizon), (''th2'', Time_horizon), (''th3'', Time_horizon),
     (''kn1'', Knowledge), (''kn2'', Knowledge), (''kn3'', Knowledge), (''kn4'', Knowledge)]"
  by (simp add: QUESTIONS_def)

lemma bank_ids: "map q_id QUESTIONS = [''rt1'', ''rt2'', ''rt3'', ''rt4'', ''rt5'', ''th1'', ''th2'', ''th3'', ''kn1'', ''kn2'', ''kn3'', ''kn4'']"
  using arg_cong [OF bank_axes, of "map fst"] by (simp add: o_def)

lemma bank_distinct: "distinct (map q_id QUESTIONS)"
  by (simp add: bank_ids)

lemma BY_ID_Some: "BY_ID qid = Some q \<longleftrightarrow> q \<in> set QUESTIONS \<and> q_id q = qid"
  using bank_distinct by (auto simp: BY_ID_def map_of_eq_Some_iff o_def)

lemma find_option_axis:
  assumes "find_option qid v = Some (a, w)" shows "(qid, a) \<in> set (map (\<lambda>q. (q_id q, q_axis q)) QUESTIONS)"
  using assms by (auto simp: find_option_def BY_ID_Some bind_eq_Some_conv)

lemma find_option_None:
  "find_option qid v \<noteq> None \<longleftrightarrow> (\<exists>q\<in>set QUESTIONS. q_id q = qid \<and> v \<in> op_value ` set (q_options q))"
proof
  assume "find_option qid v \<noteq> None"
  then obtain q opt where "BY_ID qid = Some q" "List.find (\<lambda>opt. op_value opt = v) (q_options q) = Some opt"
    by (auto simp: find_option_def bind_eq_Some_conv)
  then show "\<exists>q\<in>set QUESTIONS. q_id q = qid \<and> v \<in> op_value ` set (q_options q)"
    by (auto simp: BY_ID_Some find_Some_iff intro!: bexI [of _ q])
next
  assume "\<exists>q\<in>set QUESTIONS. q_id q = qid \<and> v \<in> op_value ` set (q_options q)"
  then obtain q where q: "q \<in> set QUESTIONS" "q_id q = qid" "v \<in> op_value ` set (q_options q)" by blast
  then have "BY_ID qid = Some q" by (simp add: BY_ID_Some)
  moreover have "List.find (\<lambda>opt. op_value opt = v) (q_options q) \<noteq> None" using q(3) by (auto simp: find_None_iff)
  ultimately show "find_option qid v \<noteq> None" by (auto simp: find_option_def)
qed

definition weights_of :: "axis \<Rightarrow> raw_weights \<Rightarrow> int list" where
  "weights_of a raw = (case a of Risk_tolerance \<Rightarrow> raw_risk_tolerance raw | Time_horizon \<Rightarrow> raw_time_horizon raw | Knowledge \<Rightarrow> raw_knowledge raw)"

lemma weights_of_add: "weights_of a (add_weight b w raw) = weights_of a raw @ (if a = b then [w] else [])"
  by (cases a; cases b) (simp_all add: weights_of_def add_weight_def)

lemma collect_weights_ok:
  "is_ok (collect_weights answers raw) \<longleftrightarrow> list_all (\<lambda>(qid, v). find_option qid v \<noteq> None) answers"
  by (induction answers raw rule: collect_weights.induct) (auto split: option.splits)

lemma collect_weights_error:
  "collect_weights answers raw \<noteq> Inl ZeroDivisionError"
  by (induction answers raw rule: collect_weights.induct) (auto split: option.splits)

lemma collect_weights_grow:
  assumes "collect_weights answers raw = Inr raw'"
  shows "weights_of a raw \<noteq> [] \<or> (\<exists>(qid, v)\<in>set answers. (qid, a) \<in> set (map (\<lambda>q. (q_id q, q_axis q)) QUESTIONS))
    \<Longrightarrow> weights_of a raw' \<noteq> []"
  using assms
proof (induction answers raw rule: collect_weights.induct)
  case (2 qid v answers raw)
  then obtain b w where o: "find_option qid v = Some (b, w)" "collect_weights answers (add_weight b w raw) = Inr raw'"
    by (auto split: option.splits)
  have "a = b" if "(qid, a) \<in> set (map (\<lambda>q. (q_id q, q_axis q)) QUESTIONS)"
  proof -
    have "distinct (map fst (map (\<lambda>q. (q_id q, q_axis q)) QUESTIONS))" using bank_distinct by (simp add: o_def)
    from eq_key_imp_eq_value [OF this that find_option_axis [OF o(1)]] show ?thesis .
  qed
  then have "weights_of a (add_weight b w raw) \<noteq> []
      \<or> (\<exists>(qid, v)\<in>set answers. (qid, a) \<in> set (map (\<lambda>q. (q_id q, q_axis q)) QUESTIONS))"
    using "2.prems"(1) unfolding weights_of_add by (auto simp del: set_map)
  from "2.IH" [OF o(1) refl this o(2)] show ?case .
qed auto

lemma all_axes_scored:
  assumes "set (map fst answers) = set (map q_id QUESTIONS)" "collect_weights answers raw = Inr raw'"
  shows "weights_of a raw' \<noteq> []"
proof -
  obtain qid where "(qid, a) \<in> set (map (\<lambda>q. (q_id q, q_axis q)) QUESTIONS)" unfolding bank_axes by (cases a) auto
  moreover from this have "qid \<in> set (map fst answers)" using assms(1) by auto
  ultimately have "\<exists>(qid, v)\<in>set answers. (qid, a) \<in> set (map (\<lambda>q. (q_id q, q_axis q)) QUESTIONS)" by force
  with collect_weights_grow [OF assms(2)] show ?thesis by blast
qed

lemma archetype_index_range: "0 \<le> archetype_index sc \<and> archetype_index sc \<le> 4"
  by (simp add: archetype_index_def Let_def)

lemma archetype_index_mono:
  assumes "sc_risk_tolerance sc \<le> sc_risk_tolerance sc'" "sc_time_horizon sc \<le> sc_time_horizon sc'"
    "sc_knowledge sc \<le> sc_knowledge sc'"
  shows "archetype_index sc \<le> archetype_index sc'"
proof -
  have base: "max 0 (min 4 (r - 1)) \<le> max 0 (min 4 (r' - 1))" if "r \<le> r'" for r r' :: int using that by simp
  have short: "(if h \<le> 2 \<and> b > 2 then 2 else b) \<le> (if h' \<le> 2 \<and> b' > 2 then 2 else b')"
    if "h \<le> h'" "b \<le> b'" for h h' b b' :: int using that by auto
  have long: "(if h \<ge> 4 \<and> k \<ge> 3 \<and> b < 4 then b + 1 else b) \<le> (if h' \<ge> 4 \<and> k' \<ge> 3 \<and> b' < 4 then b' + 1 else b')"
    if "h \<le> h'" "k \<le> k'" "b \<le> b'" for h h' k k' b b' :: int using that by auto
  have low: "(if k \<le> 2 \<and> r < 5 \<and> b > 1 then 1 else b) \<le> (if k' \<le> 2 \<and> r' < 5 \<and> b' > 1 then 1 else b')"
    if "k \<le> k'" "r \<le> r'" "b \<le> b'" for k k' r r' b b' :: int using that by auto
  show ?thesis unfolding archetype_index_def Let_def
    by (rule low [OF assms(3,1) long [OF assms(2,3) short [OF assms(2) base [OF assms(1)]]]])
qed

lemma archetype_known: "archetype sc \<in> set ARCHETYPES" "\<exists>p. map_of ARCHETYPE_PROFILES (archetype sc) = Some p"
proof -
  have "nat (archetype_index sc) < 5" using archetype_index_range [of sc] by linarith
  then have "nat (archetype_index sc) < length ARCHETYPES" by (simp add: ARCHETYPES_def)
  then show a: "archetype sc \<in> set ARCHETYPES" by (simp add: archetype_def)
  have "map fst ARCHETYPE_PROFILES = ARCHETYPES" by (simp add: ARCHETYPE_PROFILES_def ARCHETYPES_def)
  with a have "archetype sc \<in> fst ` set ARCHETYPE_PROFILES" by (metis set_map)
  then show "\<exists>p. map_of ARCHETYPE_PROFILES (archetype sc) = Some p"
    by (metis map_of_eq_None_iff option.exhaust)
qed

lemma evaluate_complete:
  assumes "complete_answers answers"
  shows "\<exists>x. evaluate answers = Inr (Some x) \<and> ev_archetype x \<in> set ARCHETYPES
    \<and> sc_risk_tolerance (ev_scores x) \<in> {1..5} \<and> sc_time_horizon (ev_scores x) \<in> {1..5} \<and> sc_knowledge (ev_scores x) \<in> {1..5}"
proof -
  let ?raw = "\<lparr>raw_risk_tolerance = [], raw_time_horizon = [], raw_knowledge = []\<rparr>"
  have keys: "set (map fst answers) = set (map q_id QUESTIONS)"
    and opts: "list_all (\<lambda>(qid, v). find_option qid v \<noteq> None) answers"
    using assms unfolding complete_answers_def find_option_None by simp_all
  then have "is_ok (collect_weights answers ?raw)" by (simp only: collect_weights_ok)
  then obtain raw where raw: "collect_weights answers ?raw = Inr raw" by (cases "collect_weights answers ?raw") auto
  have ne: "raw_risk_tolerance raw \<noteq> []" "raw_time_horizon raw \<noteq> []" "raw_knowledge raw \<noteq> []"
    using all_axes_scored [OF keys raw, of Risk_tolerance] all_axes_scored [OF keys raw, of Time_horizon]
      all_axes_scored [OF keys raw, of Knowledge] by (simp_all add: weights_of_def)
  obtain sc where sc: "score answers = Inr sc" "sc_risk_tolerance sc \<in> {1..5}" "sc_time_horizon sc \<in> {1..5}" "sc_knowledge sc \<in> {1..5}"
    using keys raw ne by (simp add: score_def Let_def axis_score_def)
  show ?thesis using sc archetype_known [of sc] by (auto simp: evaluate_def)
qed

section \<open>Properties\<close>

text \<open>
  C16: the questionnaire is total. Exactly the complete answer sets are evaluated; then all three
  scores are between 1 and 5 and the archetype is one of the five with a profile. Otherwise
  the answers are rejected with the error the endpoint turns into a 400: no axis is ever empty and
  no archetype is missing.
\<close>

theorem evaluate_total:
  "case evaluate answers of
     Inl e \<Rightarrow> \<not> complete_answers answers \<and> (\<exists>d. e = InvalidAnswersError d)
   | Inr r \<Rightarrow> complete_answers answers \<and> (\<exists>x. r = Some x \<and> ev_archetype x \<in> set ARCHETYPES
       \<and> sc_risk_tolerance (ev_scores x) \<in> {1..5} \<and> sc_time_horizon (ev_scores x) \<in> {1..5} \<and> sc_knowledge (ev_scores x) \<in> {1..5})"
proof (cases "complete_answers answers")
  case True
  with evaluate_complete [OF True] show ?thesis by auto
next
  case False
  have "\<exists>d. score answers = Inl (InvalidAnswersError d)"
  proof (cases "set (map fst answers) = set (map q_id QUESTIONS)")
    case True
    let ?raw = "\<lparr>raw_risk_tolerance = [], raw_time_horizon = [], raw_knowledge = []\<rparr>"
    have "\<not> is_ok (collect_weights answers ?raw)"
      using False True unfolding complete_answers_def collect_weights_ok find_option_None by simp
    then obtain e where "collect_weights answers ?raw = Inl e" by (cases "collect_weights answers ?raw") auto
    moreover from this have "\<exists>d. e = InvalidAnswersError d" using collect_weights_error by (cases e) auto
    ultimately show ?thesis using True by (auto simp: score_def)
  next
    case False
    then show ?thesis unfolding score_def Let_def by (simp only: not_False_eq_True if_True) blast
  qed
  then show ?thesis using False by (auto simp: evaluate_def)
qed

text \<open>
  The archetype never becomes more cautious when tolerance, horizon or knowledge rise; a short
  horizon caps it at balanced, little knowledge without the highest tolerance at cautious, and
  knowledge alone never makes an aggressive trader.
\<close>

lemma archetype_monotone:
  assumes "sc_risk_tolerance sc \<le> sc_risk_tolerance sc'" "sc_time_horizon sc \<le> sc_time_horizon sc'"
    "sc_knowledge sc \<le> sc_knowledge sc'"
  shows "archetype_index sc \<le> archetype_index sc'
    \<and> (sc_time_horizon sc \<le> 2 \<longrightarrow> archetype sc \<in> set (take 3 ARCHETYPES))
    \<and> (sc_knowledge sc \<le> 2 \<and> sc_risk_tolerance sc < 5 \<longrightarrow> archetype sc \<in> set (take 2 ARCHETYPES))
    \<and> (archetype sc = ''aggressive_trader'' \<longrightarrow> 4 \<le> sc_risk_tolerance sc)"
proof -
  have upto: "archetype sc \<in> set (take (Suc n) ARCHETYPES)" if "archetype_index sc \<le> int n" "n < 5" for n
  proof -
    have "nat (archetype_index sc) < Suc n" "Suc n \<le> length ARCHETYPES"
      using archetype_index_range [of sc] that by (auto simp: ARCHETYPES_def)
    then show ?thesis unfolding archetype_def by (metis in_set_conv_nth length_take min.absorb2 nth_take)
  qed
  have "archetype_index sc \<le> archetype_index sc'" using assms by (rule archetype_index_mono)
  moreover have "archetype_index sc \<le> 2" if "sc_time_horizon sc \<le> 2" using that by (auto simp: archetype_index_def Let_def)
  moreover have "archetype_index sc \<le> 1" if "sc_knowledge sc \<le> 2" "sc_risk_tolerance sc < 5"
    using that by (auto simp: archetype_index_def Let_def)
  moreover have "4 \<le> sc_risk_tolerance sc" if "archetype sc = ''aggressive_trader''"
  proof (rule ccontr)
    assume "\<not> ?thesis"
    then have "archetype_index sc \<le> 3" by (auto simp: archetype_index_def Let_def)
    from upto [of 3] this that show False by (simp add: ARCHETYPES_def)
  qed
  ultimately show ?thesis using upto [of 1] upto [of 2] by (simp add: numeral_eq_Suc)
qed

text \<open>The adjustments can move the bucket by two, although the comment says by one.\<close>

lemma archetype_shifts_two:
  "archetype \<lparr>sc_risk_tolerance = 5, sc_time_horizon = 1, sc_knowledge = 5\<rparr> = ''balanced_builder''"
  by (simp add: archetype_def archetype_index_def ARCHETYPES_def)

text \<open>After a submission the session's user is the row with the result.\<close>

lemma submit_answers_Inr:
  assumes ok: "auth_ok (adb st)" and sub: "submit_answers env answers cookie now st = (Inr r, st')"
  obtains user x p where "get_current_user env cookie now st = Inr user" "evaluate answers = Inr (Some x)"
    "map_of ARCHETYPE_PROFILES (ev_archetype x) = Some p" "ev_archetype x \<in> set ARCHETYPES"
    "r = \<lparr>rp_archetype = ev_archetype x, rp_label = ap_label p, rp_description = ap_description p,
          rp_scores = ev_scores x, rp_completed_at = Some now\<rparr>"
    "st' = save_user (user\<lparr>u_risk_archetype := Some (ev_archetype x),
                    u_risk_tolerance_score := Some (sc_risk_tolerance (ev_scores x)),
                    u_time_horizon_score := Some (sc_time_horizon (ev_scores x)),
                    u_knowledge_score := Some (sc_knowledge (ev_scores x)),
                    u_risk_profile_completed_at := Some now\<rparr>) st"
    "auth_ok (adb st')"
    "get_current_user env cookie now st' = Inr (user\<lparr>u_risk_archetype := Some (ev_archetype x),
                    u_risk_tolerance_score := Some (sc_risk_tolerance (ev_scores x)),
                    u_time_horizon_score := Some (sc_time_horizon (ev_scores x)),
                    u_knowledge_score := Some (sc_knowledge (ev_scores x)),
                    u_risk_profile_completed_at := Some now\<rparr>)"
proof -
  obtain user x where u: "get_current_user env cookie now st = Inr user" and x: "evaluate answers = Inr (Some x)"
    using sub by (auto simp: submit_answers_def split: sum.splits if_splits risk_error.splits option.splits)
  let ?u = "user\<lparr>u_risk_archetype := Some (ev_archetype x),
                    u_risk_tolerance_score := Some (sc_risk_tolerance (ev_scores x)),
                    u_time_horizon_score := Some (sc_time_horizon (ev_scores x)),
                    u_knowledge_score := Some (sc_knowledge (ev_scores x)),
                    u_risk_profile_completed_at := Some now\<rparr>"
  obtain p where p: "map_of ARCHETYPE_PROFILES (ev_archetype x) = Some p" "ev_label x = ap_label p" "ev_description x = ap_description p"
    "ev_archetype x \<in> set ARCHETYPES"
    using x archetype_known by (auto simp: evaluate_def bind_r_Inr_iff)
  have r: "r = \<lparr>rp_archetype = ev_archetype x, rp_label = ev_label x, rp_description = ev_description x,
      rp_scores = ev_scores x, rp_completed_at = Some now\<rparr>" and st': "st' = save_user ?u st"
    using sub u x by (simp_all add: submit_answers_def Let_def split: if_splits)
  have user: "user \<in> set (users (adb st))" using u by (rule get_current_user_InrD)
  have totp: "totp_ok user" using ok user by (simp add: auth_ok_def)
  have ok': "auth_ok (adb st')" unfolding st' by (rule save_user_ok [OF ok user]) (use totp in \<open>simp_all add: totp_ok_def\<close>)
  have "List.find (\<lambda>w. u_id w = u_id user) (users (adb st')) = Some ?u"
    using find_unique [of u_id "users (adb st')" ?u] ok' user by (force simp: auth_ok_def st' save_user_def)
  moreover obtain tok s where "cookie = Some tok" "tok \<noteq> []"
    "List.find (\<lambda>s. s_token_hash s = sha256 env tok \<and> now < s_expires_at s) (sessions (adb st)) = Some s"
    "find_user (\<lambda>w. u_id w = s_user_id s) st = Some user"
    using u by (auto simp: get_current_user_def get_session_user_def split: if_splits option.splits)
  moreover have "s_user_id s = u_id user" using calculation(5) by (auto dest: find_user_SomeD)
  ultimately have "get_current_user env cookie now st' = Inr ?u"
    by (simp add: get_current_user_def get_session_user_def find_user_def st')
  with that [OF u x p(1,4)] r st' ok' p(2,3) show thesis by simp
qed

text \<open>
  Round trip. The profile a user submits is the profile the user reads back with the same
  session, the accounts stay consistent, and no other account changes.
\<close>

lemma submit_profile_roundtrip:
  assumes ok: "auth_ok (adb st)" and sub: "submit_answers env answers cookie now st = (Inr r, st')"
  shows "get_profile env cookie now st' = Inr (Some r) \<and> auth_ok (adb st')
    \<and> sessions (adb st') = sessions (adb st) \<and> map u_id (users (adb st')) = map u_id (users (adb st))
    \<and> (\<forall>u. get_current_user env cookie now st = Inr u \<longrightarrow>
         filter (\<lambda>w. u_id w \<noteq> u_id u) (users (adb st')) = filter (\<lambda>w. u_id w \<noteq> u_id u) (users (adb st)))"
proof (rule submit_answers_Inr [OF assms], goal_cases)
  case (1 user x p)
  let ?u = "user\<lparr>u_risk_archetype := Some (ev_archetype x),
                    u_risk_tolerance_score := Some (sc_risk_tolerance (ev_scores x)),
                    u_time_horizon_score := Some (sc_time_horizon (ev_scores x)),
                    u_knowledge_score := Some (sc_knowledge (ev_scores x)),
                    u_risk_profile_completed_at := Some now\<rparr>"
  have st': "st' = save_user ?u st" using 1 by simp
  have "get_profile env cookie now st' = Inr (Some r)"
    unfolding get_profile_def 1(8) using 1(3,5) by (simp add: profile_of_def or_zero_def)
  moreover have "filter (\<lambda>w. u_id w \<noteq> u_id user) (users (adb st')) = filter (\<lambda>w. u_id w \<noteq> u_id user) (users (adb st))"
    by (simp add: st' save_user_def filter_map o_def) (rule map_idI, simp)
  ultimately show ?case using 1(1,7) by (simp add: st')
qed

definition ex_answers :: "(string \<times> string) list" where
  "ex_answers = [(''rt1'', ''hold''), (''rt2'', ''c''), (''rt3'', ''equities''), (''rt4'', ''10_20''), (''rt5'', ''ok''),
     (''th1'', ''5_10''), (''th2'', ''yes''), (''th3'', ''flexible''),
     (''kn1'', ''kmi''), (''kn2'', ''right''), (''kn3'', ''wrong1''), (''kn4'', ''right'')]"

lemma ex_answers_complete: "complete_answers ex_answers"
proof -
  have "list_all (\<lambda>(qid, v). find_option qid v \<noteq> None) ex_answers" by code_simp
  then show ?thesis unfolding complete_answers_def find_option_None bank_ids by (simp add: ex_answers_def insert_commute)
qed

end
