(* ===== verification/Goals.thy ===== *)
theory Goals
  imports Py_Base
begin

text \<open>
  The goal engine: \<^verbatim>\<open>psx_api/goals/tvm.py\<close> (time value of money) and \<^verbatim>\<open>goals/allocation.py\<close>. The
  float power \<^verbatim>\<open>x ** n\<close> is the C library's \<^verbatim>\<open>pow\<close>: it is the argument \<open>pow\<close>, which may raise
  \<^verbatim>\<open>OverflowError\<close>; nothing else is assumed of it.
\<close>

section \<open>Time value of money\<close>

datatype tvm_error = OverflowError | DivisionByZero

type_synonym pow_fn = "flt \<Rightarrow> int \<Rightarrow> tvm_error + flt"

datatype Rating = Feasible | Stretch | Aggressive | Unrealistic | AlreadyFunded

record GoalAnalysis =
  ga_months_remaining :: int
  ga_years_remaining :: flt
  ga_required_cagr :: "dec option"
  ga_rating :: Rating
  ga_summary :: string
  ga_suggested_monthly_contribution_pkr :: "dec option"
  ga_suggested_extension_months :: "int option"

definition months_between :: "date \<Rightarrow> date \<Rightarrow> int" where
  "months_between start fin =
     (if fin \<le> start then 0
      else let months = (year_of fin - year_of start) * 12 + (month_of fin - month_of start);
               months = (if day_of fin < day_of start then months - 1 else months)
           in max 0 months)"

definition future_value :: "pow_fn \<Rightarrow> flt \<Rightarrow> flt \<Rightarrow> int \<Rightarrow> flt \<Rightarrow> tvm_error + flt" where
  "future_value pow present_value monthly_contribution months annual_rate =
     (if months = 0 then Inr present_value
      else if annual_rate = 0 then Inr (present_value + monthly_contribution * flt_of_int months)
      else let r = annual_rate / flt 12
           in bind_r (pow (1 + r) months) (\<lambda>growth.
                Inr (present_value * growth + monthly_contribution * (growth - 1) / r)))"

text \<open>The loop of the bisection, on the future value as a function of the rate.\<close>

fun bisect_loop :: "(flt \<Rightarrow> tvm_error + flt) \<Rightarrow> flt \<Rightarrow> nat \<Rightarrow> flt \<Rightarrow> flt \<Rightarrow> tvm_error + flt \<times> flt" where
  "bisect_loop fv target 0 lo hi = Inr (lo, hi)"
| "bisect_loop fv target (Suc n) lo hi =
     (let mid = (lo + hi) / flt 2
      in bind_r (fv mid) (\<lambda>fv_mid.
           if fv_mid < target then bisect_loop fv target n mid hi else bisect_loop fv target n lo mid))"

definition bisect_cagr :: "pow_fn \<Rightarrow> flt \<Rightarrow> flt \<Rightarrow> flt \<Rightarrow> int \<Rightarrow> tvm_error + flt option" where
  "bisect_cagr pow target present_value monthly_contribution months =
     (if months = 0 then Inr None
      else let fv = future_value pow present_value monthly_contribution months; lo = flt (- 1 / 2); hi = flt 2
           in bind_r (fv lo) (\<lambda>fv_lo. bind_r (fv hi) (\<lambda>fv_hi.
                if target < fv_lo \<or> fv_hi < target then Inr None
                else bind_r (bisect_loop fv target 80 lo hi) (\<lambda>(lo, hi). Inr (Some ((lo + hi) / flt 2))))))"

definition rating_for_cagr :: "flt \<Rightarrow> Rating" where
  "rating_for_cagr cagr_pct =
     (if cagr_pct \<le> flt 8 then Feasible else if cagr_pct \<le> flt 14 then Stretch
      else if cagr_pct \<le> flt 20 then Aggressive else Unrealistic)"

definition required_pmt :: "pow_fn \<Rightarrow> flt \<Rightarrow> flt \<Rightarrow> int \<Rightarrow> flt \<Rightarrow> tvm_error + flt" where
  "required_pmt pow target pv months rate =
     (if months = 0 then Inr 0
      else if rate = 0 then Inr (max 0 ((target - pv) / flt_of_int months))
      else let r = rate / flt 12
           in bind_r (pow (1 + r) months) (\<lambda>growth.
                let deficit = target - pv * growth
                in if deficit \<le> 0 then Inr 0
                   else if growth - 1 = 0 then Inl DivisionByZero
                   else Inr (deficit * r / (growth - 1))))"

text \<open>The walk over the months \<^verbatim>\<open>range(1, 12 * 60)\<close>; the first argument counts the months left.\<close>

fun months_walk :: "nat \<Rightarrow> (int \<Rightarrow> tvm_error + flt) \<Rightarrow> flt \<Rightarrow> int \<Rightarrow> tvm_error + int option" where
  "months_walk 0 fv target m = Inr None"
| "months_walk (Suc n) fv target m =
     bind_r (fv m) (\<lambda>v. if target \<le> v then Inr (Some m) else months_walk n fv target (m + 1))"

definition months_to_drop_to_feasible :: "pow_fn \<Rightarrow> flt \<Rightarrow> flt \<Rightarrow> flt \<Rightarrow> flt \<Rightarrow> tvm_error + int option" where
  "months_to_drop_to_feasible pow target pv pmt rate =
     months_walk 719 (\<lambda>months. future_value pow pv pmt months rate) target 1"

text \<open>
  \<^verbatim>\<open>Decimal(str(x))\<close> of a float: the shortest decimal that reads back as \<open>x\<close>, at most 17 digits.
\<close>

definition dec_of_repr :: "flt \<Rightarrow> dec" where
  "dec_of_repr x =
     Dec (case List.find (\<lambda>d. fl64 d = fval x) (map (\<lambda>n. rnd 10 n (- 400) (fval x)) [1..<17]) of
            Some d \<Rightarrow> d | None \<Rightarrow> rnd 10 17 (- 400) (fval x))"

definition money_of_flt :: "flt \<Rightarrow> dec" where
  "money_of_flt x = dec_of_repr (py_round 2 x)"

definition summary_for :: "flt \<Rightarrow> Rating \<Rightarrow> flt \<Rightarrow> string" where
  "summary_for cagr_pct rating years =
     (let horizon = fmt_fixed 1 years @ '' year'' @ (if years \<noteq> 1 then ''s'' else []);
          cagr = fmt_fixed 1 cagr_pct
      in case rating of
           Feasible \<Rightarrow> ''You need '' @ cagr @ ''% CAGR '' @ em_dash
             @ '' comfortably below long-run PKR T-Bill yields. Realistic with a conservative or balanced mix over '' @ horizon @ ''.''
         | Stretch \<Rightarrow> ''You need '' @ cagr @ ''% CAGR over '' @ horizon
             @ ''. Achievable with a diversified PSX equity portfolio in line with KSE-100'' @ apostrophe
             @ ''s long-run nominal return, but not guaranteed '' @ em_dash @ '' expect 20'' @ en_dash @ ''30% drawdowns along the way.''
         | Aggressive \<Rightarrow> ''You need '' @ cagr @ ''% CAGR over '' @ horizon @ '' '' @ em_dash
             @ '' only the top decile of stocks sustain this. Either accept a lot of single-stock risk, increase your monthly contribution, or push the deadline out.''
         | _ \<Rightarrow> ''You need '' @ cagr @ ''% CAGR over '' @ horizon @ '' '' @ em_dash
             @ '' unrealistic for the long term. Increase your monthly contribution or extend the deadline; the math here is fighting you.'')"

definition funded_summary :: "flt \<Rightarrow> flt \<Rightarrow> string" where
  "funded_summary pv target = ''You'' @ apostrophe @ ''re already at PKR '' @ fmt_commas pv @ '' against a target of PKR ''
     @ fmt_commas target @ ''. Goal is funded '' @ em_dash @ '' keep it invested.''"

definition past_date_summary :: "flt \<Rightarrow> string" where
  "past_date_summary short = ''Target date is today or in the past, but you'' @ apostrophe @ ''re PKR '' @ fmt_commas short
     @ '' short. Pick a future target date.''"

definition unreachable_summary :: string where
  "unreachable_summary = ''Even at extreme growth rates, your current contribution doesn'' @ apostrophe
     @ ''t reach this target. Increase the monthly contribution.''"

definition analyze :: "pow_fn \<Rightarrow> dec \<Rightarrow> dec \<Rightarrow> dec \<Rightarrow> date \<Rightarrow> date \<Rightarrow> tvm_error + GoalAnalysis" where
  "analyze pow target_amount_pkr current_amount_pkr monthly_contribution_pkr target_date today =
     (let target = flt_of_dec target_amount_pkr; pv = flt_of_dec current_amount_pkr;
          pmt = flt_of_dec monthly_contribution_pkr; months = months_between today target_date;
          years = flt_of_int months / flt 12
      in if target \<le> pv
         then Inr \<lparr>ga_months_remaining = months, ga_years_remaining = py_round 2 years, ga_required_cagr = None,
                   ga_rating = AlreadyFunded, ga_summary = funded_summary pv target,
                   ga_suggested_monthly_contribution_pkr = None, ga_suggested_extension_months = None\<rparr>
         else if months = 0
         then Inr \<lparr>ga_months_remaining = 0, ga_years_remaining = 0, ga_required_cagr = None,
                   ga_rating = Unrealistic, ga_summary = past_date_summary (target - pv),
                   ga_suggested_monthly_contribution_pkr = None, ga_suggested_extension_months = None\<rparr>
         else bind_r (bisect_cagr pow target pv pmt months) (\<lambda>rate. case rate of
           None \<Rightarrow> bind_r (required_pmt pow target pv months (flt (12 / 100))) (\<lambda>need.
             Inr \<lparr>ga_months_remaining = months, ga_years_remaining = py_round 2 years, ga_required_cagr = None,
                   ga_rating = Unrealistic, ga_summary = unreachable_summary,
                   ga_suggested_monthly_contribution_pkr = Some (money_of_flt need), ga_suggested_extension_months = Some 12\<rparr>)
         | Some rate \<Rightarrow>
             let cagr_pct = py_round 2 (rate * flt 100); rating = rating_for_cagr cagr_pct;
                 done_with = (\<lambda>pmt_opt ext_opt.
                   \<lparr>ga_months_remaining = months, ga_years_remaining = py_round 2 years,
                    ga_required_cagr = Some (dec_of_repr cagr_pct), ga_rating = rating,
                    ga_summary = summary_for cagr_pct rating years,
                    ga_suggested_monthly_contribution_pkr = pmt_opt, ga_suggested_extension_months = ext_opt\<rparr>)
             in if rating = Aggressive \<or> rating = Unrealistic
                then bind_r (required_pmt pow target pv months (flt (10 / 100))) (\<lambda>need.
                     bind_r (months_to_drop_to_feasible pow target pv pmt (flt (8 / 100))) (\<lambda>ext.
                       Inr (done_with (Some (money_of_flt need)) (map_option (\<lambda>x. max 0 (x - months)) ext))))
                else Inr (done_with None None)))"

section \<open>Allocation\<close>

datatype HorizonBucket = Short | Medium | Long | VeryLong

definition horizon_bucket :: "int \<Rightarrow> HorizonBucket" where
  "horizon_bucket months =
     (if months < 24 then Short else if months < 60 then Medium else if months < 120 then Long else VeryLong)"

definition TABLE :: "(string \<times> (HorizonBucket \<Rightarrow> int \<times> int \<times> int)) list" where
  "TABLE =
     [(''conservative_saver'', \<lambda>b. case b of Short \<Rightarrow> (0, 90, 10) | Medium \<Rightarrow> (30, 65, 5) | Long \<Rightarrow> (50, 47, 3) | VeryLong \<Rightarrow> (60, 37, 3)),
      (''cautious_beginner'', \<lambda>b. case b of Short \<Rightarrow> (10, 80, 10) | Medium \<Rightarrow> (40, 55, 5) | Long \<Rightarrow> (60, 37, 3) | VeryLong \<Rightarrow> (70, 27, 3)),
      (''balanced_builder'', \<lambda>b. case b of Short \<Rightarrow> (30, 60, 10) | Medium \<Rightarrow> (50, 47, 3) | Long \<Rightarrow> (70, 27, 3) | VeryLong \<Rightarrow> (80, 17, 3)),
      (''growth_seeker'', \<lambda>b. case b of Short \<Rightarrow> (40, 55, 5) | Medium \<Rightarrow> (65, 32, 3) | Long \<Rightarrow> (85, 12, 3) | VeryLong \<Rightarrow> (95, 3, 2)),
      (''aggressive_trader'', \<lambda>b. case b of Short \<Rightarrow> (50, 45, 5) | Medium \<Rightarrow> (70, 27, 3) | Long \<Rightarrow> (90, 8, 2) | VeryLong \<Rightarrow> (100, 0, 0))]"

definition BUCKET_LABELS :: "HorizonBucket \<Rightarrow> string" where
  "BUCKET_LABELS b = (case b of Short \<Rightarrow> ''<2 years'' | Medium \<Rightarrow> ''2'' @ en_dash @ ''5 years''
     | Long \<Rightarrow> ''5'' @ en_dash @ ''10 years'' | VeryLong \<Rightarrow> ''10+ years'')"

record Allocation =
  al_archetype :: string
  al_horizon_bucket :: HorizonBucket
  al_months :: int
  al_equity_pct :: int
  al_tbills_pct :: int
  al_cash_pct :: int
  al_rationale :: string

definition rationale_for :: "string \<Rightarrow> HorizonBucket \<Rightarrow> int \<Rightarrow> string" where
  "rationale_for arch bucket equity_pct =
     (let horizon_label = BUCKET_LABELS bucket; profile = map (\<lambda>c. if c = CHR ''_'' then CHR '' '' else c) arch
      in if equity_pct = 0
         then ''With a '' @ horizon_label @ '' horizon and a '' @ profile
           @ '' profile, equity drawdowns would have nowhere to recover. T-Bills and cash protect the principal.''
         else if 90 \<le> equity_pct
         then ''A '' @ horizon_label @ '' horizon gives equity drawdowns plenty of time to recover. For your profile, the long-run real-return premium from equities outweighs the volatility cost.''
         else ''A '' @ horizon_label @ '' horizon and '' @ profile @ '' profile point to a balanced split: ''
           @ str_of_int equity_pct @ ''% equity for growth, the rest in T-Bills/Sukuk for stability through drawdowns.'')"

definition recommend :: "string \<Rightarrow> int \<Rightarrow> Allocation" where
  "recommend arch months_remaining =
     (let bucket = horizon_bucket months_remaining;
          arch = (if arch \<notin> set (map fst TABLE) then ''balanced_builder'' else arch)
      in case the (map_of TABLE arch) bucket of (eq, tb, cash) \<Rightarrow>
           \<lparr>al_archetype = arch, al_horizon_bucket = bucket, al_months = months_remaining, al_equity_pct = eq,
            al_tbills_pct = tb, al_cash_pct = cash, al_rationale = rationale_for arch bucket eq\<rparr>)"

section \<open>The bracket of the bisection\<close>

lemma is_flt_arith: "is_flt (a + b)" "is_flt (a / b)"
  by (simp_all add: is_flt_def)

lemma fl64_double: "is_flt x \<Longrightarrow> fl64 (2 * fval x) = 2 * fval x"
  using flt_r.shift [of "fval x" 1] by (simp add: is_flt_def mult.commute)

lemma fl64_literals: "fl64 2 = 2" "fl64 (- (1 / 2)) = - (1 / 2)"
  using flt_r.exact_int [of 2] flt_r.exact_scaled [of "- 1" 1] by simp_all

lemma midpoint_between:
  assumes "is_flt lo" "is_flt hi" "lo \<le> hi"
  shows "lo \<le> (lo + hi) / flt 2" "(lo + hi) / flt 2 \<le> hi"
proof -
  have "2 * fval lo \<le> fl64 (fval lo + fval hi)" "fl64 (fval lo + fval hi) \<le> 2 * fval hi"
    using flt_r.ge_fixed [OF fl64_double [OF assms(1)]] flt_r.le_fixed [OF fl64_double [OF assms(2)]] assms(3)
    by (simp_all add: flt_le_iff)
  then have "fval lo \<le> fl64 (fl64 (fval lo + fval hi) / 2)" "fl64 (fl64 (fval lo + fval hi) / 2) \<le> fval hi"
    using assms(1,2) by (auto simp: is_flt_def intro!: flt_r.ge_fixed flt_r.le_fixed)
  then show "lo \<le> (lo + hi) / flt 2" "(lo + hi) / flt 2 \<le> hi"
    by (simp_all add: flt_le_iff flt_def fl64_literals)
qed

lemma fl64_near:
  assumes "\<bar>x\<bar> \<le> 4" shows "\<bar>fl64 x - x\<bar> \<le> 1 / 2 ^ 50"
proof -
  define k where "k = \<lfloor>x * 2 ^ 50\<rfloor>"
  have "- (4 * 2 ^ 50) \<le> x * 2 ^ 50" "x * 2 ^ 50 \<le> 4 * 2 ^ 50" using assms by auto
  then have "of_int (- (4 * 2 ^ 50)) \<le> x * 2 ^ 50" "x * 2 ^ 50 < of_int (4 * 2 ^ 50 + 1)" by simp_all
  then have "- (4 * 2 ^ 50) \<le> k" "k < 4 * 2 ^ 50 + 1" unfolding k_def by (simp_all only: le_floor_iff floor_less_iff)
  then have "\<bar>k\<bar> < int 2 ^ 53" "\<bar>k + 1\<bar> < int 2 ^ 53" by simp_all
  from this [THEN flt_r.exact_scaled [of _ 50]]
  have fixed: "fl64 (of_int k / 2 ^ 50) = of_int k / 2 ^ 50" "fl64 (of_int (k + 1) / 2 ^ 50) = of_int (k + 1) / 2 ^ 50"
    by simp_all
  have "of_int k \<le> x * 2 ^ 50" "x * 2 ^ 50 \<le> of_int (k + 1)" unfolding k_def by linarith+
  then have x: "of_int k / 2 ^ 50 \<le> x" "x \<le> of_int (k + 1) / 2 ^ 50" by (simp_all add: field_simps)
  note r = flt_r.ge_fixed [OF fixed(1) x(1)] flt_r.le_fixed [OF fixed(2) x(2)]
  have "of_int (k + 1) / 2 ^ 50 = (of_int k / 2 ^ 50 :: rat) + 1 / 2 ^ 50" by (simp add: add_divide_distrib)
  with r x show ?thesis by linarith
qed

lemma halved_error: "\<bar>s - (a + b)\<bar> \<le> e \<Longrightarrow> \<bar>f - s / 2\<bar> \<le> e \<Longrightarrow> \<bar>f - (a + b) / 2\<bar> \<le> 3 * e / (2 :: rat)"
  by (simp add: abs_le_iff field_simps)

lemma half_width: "\<bar>m - (a + b) / 2\<bar> \<le> e \<Longrightarrow> b - m \<le> (b - a) / 2 + (e :: rat)" "\<bar>m - (a + b) / 2\<bar> \<le> e \<Longrightarrow> m - a \<le> (b - a) / 2 + (e :: rat)"
  by (simp_all add: abs_le_iff field_simps)

lemma width_step: "A \<le> B + c * (p - q) \<Longrightarrow> A + c * (1 - p) \<le> B + c * (1 - q)" for A :: rat
  by (simp add: algebra_simps)

lemma midpoint_near:
  assumes "- 1 / 2 \<le> fval lo" "fval lo \<le> fval hi" "fval hi \<le> 2"
  shows "\<bar>fval ((lo + hi) / flt 2) - (fval lo + fval hi) / 2\<bar> \<le> 3 / 2 ^ 51"
proof -
  let ?s = "fl64 (fval lo + fval hi)"
  define e :: rat where "e = 1 / 2 ^ 50"
  have e: "e \<le> 1" "3 / 2 ^ 51 = 3 * e / 2" by (simp_all add: e_def)
  have s: "\<bar>?s - (fval lo + fval hi)\<bar> \<le> e" unfolding e_def using assms by (intro fl64_near) simp
  then have "\<bar>?s / 2\<bar> \<le> 4" using assms e(1) by linarith
  from fl64_near [OF this] have "\<bar>fl64 (?s / 2) - ?s / 2\<bar> \<le> e" by (simp only: e_def)
  from halved_error [OF s this] show ?thesis unfolding e(2) by (simp add: flt_def fl64_literals)
qed

text \<open>Every interval the loop reaches brackets the target, and the width halves up to rounding.\<close>

definition brackets :: "(flt \<Rightarrow> tvm_error + flt) \<Rightarrow> flt \<Rightarrow> flt \<Rightarrow> flt \<Rightarrow> bool" where
  "brackets fv target lo hi \<longleftrightarrow> is_flt lo \<and> is_flt hi \<and> flt (- 1 / 2) \<le> lo \<and> lo \<le> hi \<and> hi \<le> flt 2
     \<and> (\<exists>a. fv lo = Inr a \<and> a \<le> target) \<and> (\<exists>b. fv hi = Inr b \<and> target \<le> b)"

lemma bisect_loop_brackets:
  assumes "brackets fv target lo hi" "bisect_loop fv target n lo hi = Inr (lo', hi')"
  shows "brackets fv target lo' hi'
    \<and> fval hi' - fval lo' \<le> (fval hi - fval lo) / 2 ^ n + 3 / 2 ^ 50 * (1 - 1 / 2 ^ n)"
  using assms
proof (induction n arbitrary: lo hi)
  case (Suc n)
  let ?mid = "(lo + hi) / flt 2"
  obtain v where v: "fv ?mid = Inr v" using Suc.prems(2) by (auto simp: Let_def bind_r_Inr_iff)
  have b: "is_flt lo" "is_flt hi" "lo \<le> hi" "- 1 / 2 \<le> fval lo" "fval lo \<le> fval hi" "fval hi \<le> 2"
    using Suc.prems(1) by (simp_all add: brackets_def flt_le_iff flt_def fl64_literals)
  note m = midpoint_between [OF b(1-3)] and near = midpoint_near [OF b(4-6)]
  obtain lo1 hi1 where n: "bisect_loop fv target n lo1 hi1 = Inr (lo', hi')" "brackets fv target lo1 hi1"
    and w: "fval hi1 - fval lo1 \<le> (fval hi - fval lo) / 2 + 3 / 2 ^ 51"
  proof (cases "v < target")
    case True
    show thesis
    proof (rule that)
      show "bisect_loop fv target n ?mid hi = Inr (lo', hi')" using Suc.prems(2) v True by (simp add: Let_def)
      show "brackets fv target ?mid hi" using Suc.prems(1) m v True by (auto simp: brackets_def is_flt_arith)
      show "fval hi - fval ?mid \<le> (fval hi - fval lo) / 2 + 3 / 2 ^ 51" using near by (rule half_width)
    qed
  next
    case False
    show thesis
    proof (rule that)
      show "bisect_loop fv target n lo ?mid = Inr (lo', hi')" using Suc.prems(2) v False by (simp add: Let_def)
      show "brackets fv target lo ?mid" using Suc.prems(1) m v False by (auto simp: brackets_def is_flt_arith)
      show "fval ?mid - fval lo \<le> (fval hi - fval lo) / 2 + 3 / 2 ^ 51" using near by (rule half_width)
    qed
  qed
  have "(fval hi1 - fval lo1) / 2 ^ n \<le> ((fval hi - fval lo) / 2 + 3 / 2 ^ 51) / 2 ^ n"
    using w by (intro divide_right_mono) auto
  also have "\<dots> = (fval hi - fval lo) / 2 ^ Suc n + 3 / 2 ^ 50 * (1 / 2 ^ n - 1 / 2 ^ Suc n)" by (simp add: field_simps)
  finally have "(fval hi1 - fval lo1) / 2 ^ n + 3 / 2 ^ 50 * (1 - 1 / 2 ^ n)
      \<le> (fval hi - fval lo) / 2 ^ Suc n + 3 / 2 ^ 50 * (1 - 1 / 2 ^ Suc n)" by (rule width_step)
  with Suc.IH [OF n(2,1)] show ?case by linarith
qed simp

lemma bisect_loop_returns:
  assumes "\<forall>x. is_ok (fv x)" shows "is_ok (bisect_loop fv target n lo hi)"
proof (induction n arbitrary: lo hi)
  case (Suc n)
  obtain v where "fv ((lo + hi) / flt 2) = Inr v" using assms by (metis is_ok_simps(1) sum.exhaust)
  then show ?case using Suc by (simp add: Let_def)
qed simp

lemma months_walk_least:
  assumes "months_walk n fv target m = Inr r"
  shows "case r of
      Some k \<Rightarrow> m \<le> k \<and> k < m + int n \<and> (\<exists>v. fv k = Inr v \<and> target \<le> v) \<and> (\<forall>j\<in>{m..<k}. \<exists>v. fv j = Inr v \<and> v < target)
    | None \<Rightarrow> (\<forall>j\<in>{m..<m + int n}. \<exists>v. fv j = Inr v \<and> v < target)"
  using assms
proof (induction n arbitrary: m)
  case (Suc n)
  obtain v where v: "fv m = Inr v" using Suc.prems by (auto simp: bind_r_Inr_iff)
  show ?case
  proof (cases "target \<le> v")
    case True
    then show ?thesis using Suc.prems v by auto
  next
    case False
    then have "months_walk n fv target (m + 1) = Inr r" using Suc.prems v by simp
    note ih = Suc.IH [OF this]
    have first: "(\<forall>j\<in>{m + 1..<k}. \<exists>v. fv j = Inr v \<and> v < target) \<Longrightarrow> (\<forall>j\<in>{m..<k}. \<exists>v. fv j = Inr v \<and> v < target)" for k
    proof (rule ballI)
      fix j assume *: "\<forall>j\<in>{m + 1..<k}. \<exists>v. fv j = Inr v \<and> v < target" and "j \<in> {m..<k}"
      then consider "j = m" | "j \<in> {m + 1..<k}" by force
      then show "\<exists>v. fv j = Inr v \<and> v < target" using * v False by cases auto
    qed
    show ?thesis using ih first by (cases r) (auto simp: add.assoc)
  qed
qed auto

lemma months_walk_returns:
  assumes "\<And>j. is_ok (fv j)" shows "is_ok (months_walk n fv target m)"
proof (induction n arbitrary: m)
  case (Suc n)
  obtain v where "fv m = Inr v" using assms by (metis is_ok_simps(1) sum.exhaust)
  then show ?case using Suc by simp
qed simp

text \<open>The rows of the table.\<close>

definition row_of :: "string \<Rightarrow> HorizonBucket \<Rightarrow> int \<times> int \<times> int" where
  "row_of arch = the (map_of TABLE (if arch \<notin> set (map fst TABLE) then ''balanced_builder'' else arch))"

lemma row_of_in_TABLE: "row_of arch \<in> set (map snd TABLE)"
proof -
  let ?a = "if arch \<notin> set (map fst TABLE) then ''balanced_builder'' else arch"
  have "?a \<in> fst ` set TABLE" by (auto simp: TABLE_def)
  then have "map_of TABLE ?a \<noteq> None" unfolding map_of_eq_None_iff by blast
  then obtain f where f: "map_of TABLE ?a = Some f" by blast
  then have "(?a, f) \<in> set TABLE" by (rule map_of_SomeD)
  from imageI [OF this, of snd] show ?thesis unfolding row_of_def f by simp
qed

lemma table_sums:
  "f \<in> set (map snd TABLE) \<Longrightarrow> case f b of (e, t, c) \<Rightarrow> e \<in> {0..100} \<and> t \<in> {0..100} \<and> c \<in> {0..100} \<and> e + t + c = 100"
  by (cases b) (auto simp: TABLE_def)

lemma bucket_order:
  assumes "m \<le> m'"
  obtains "horizon_bucket m = horizon_bucket m'" | "horizon_bucket m = Short" | "horizon_bucket m' = VeryLong"
    | "horizon_bucket m = Medium" "horizon_bucket m' = Long"
proof -
  consider "m < 24" | "120 \<le> m'" | "24 \<le> m" "m' < 60" | "60 \<le> m" "m' < 120" | "24 \<le> m" "m < 60" "60 \<le> m'" "m' < 120"
    by linarith
  then show thesis using assms that by cases (simp_all add: horizon_bucket_def)
qed

lemma table_horizon:
  assumes f: "f \<in> set (map snd TABLE)" and "m \<le> m'"
  shows "fst (f (horizon_bucket m)) \<le> fst (f (horizon_bucket m'))"
proof -
  have short: "fst (f Short) \<le> fst (f b)" and long: "fst (f b) \<le> fst (f VeryLong)" for b
    using f by (cases b; auto simp: TABLE_def)+
  have "fst (f Medium) \<le> fst (f Long)" using f by (auto simp: TABLE_def)
  with \<open>m \<le> m'\<close> short long show ?thesis by (cases m m' rule: bucket_order) simp_all
qed

lemma table_profile:
  assumes "i \<le> j" "j < 5"
  shows "fst (row_of (fst (TABLE ! i)) b) \<le> fst (row_of (fst (TABLE ! j)) b)"
proof -
  have rows: "row_of (fst (TABLE ! n)) = snd (TABLE ! n)" if "n \<in> {0, 1, 2, 3, 4}" for n
    using that by (auto simp: row_of_def TABLE_def)
  have pairs: "fst (snd (TABLE ! n) b) \<le> fst (snd (TABLE ! Suc n) b)" if "n \<in> {0, 1, 2, 3}" for n
    using that by (cases b) (auto simp: TABLE_def)
  have step: "fst (row_of (fst (TABLE ! n)) b) \<le> fst (row_of (fst (TABLE ! Suc n)) b)" if "Suc n < 5" for n
  proof -
    have "n \<in> {0, 1, 2, 3}" "n \<in> {0, 1, 2, 3, 4}" "Suc n \<in> {0, 1, 2, 3, 4}" using that by auto
    then show ?thesis using pairs rows by metis
  qed
  show ?thesis using assms
  proof (induction j)
    case (Suc j)
    show ?case
    proof (cases "i = Suc j")
      case False
      then have "fst (row_of (fst (TABLE ! i)) b) \<le> fst (row_of (fst (TABLE ! j)) b)" using Suc by simp
      then show ?thesis using step [of j] Suc.prems(2) by (meson order_trans)
    qed simp
  qed simp
qed

lemma recommend_pcts:
  "al_equity_pct (recommend arch m) = fst (row_of arch (horizon_bucket m))"
  "al_tbills_pct (recommend arch m) = fst (snd (row_of arch (horizon_bucket m)))"
  "al_cash_pct (recommend arch m) = snd (snd (row_of arch (horizon_bucket m)))"
  by (simp_all add: recommend_def row_of_def Let_def case_prod_beta)

section \<open>Properties\<close>

text \<open>
  C17: the required rate. When the bisection gives a rate, the rate lies in an interval of
  \<open>[-50%, 200%]\<close> at most \<open>2 ^ -48\<close> wide at whose lower end the future value does not exceed the
  target and at whose upper end it reaches it; it gives none exactly when there is no time left or
  the target is outside what the two extreme rates yield.
\<close>

theorem required_rate_brackets:
  assumes "bisect_cagr pow target pv pmt months = Inr r"
  shows "case r of
      Some rate \<Rightarrow> \<exists>lo hi. brackets (future_value pow pv pmt months) target lo hi
        \<and> lo \<le> rate \<and> rate \<le> hi \<and> fval hi - fval lo \<le> 1 / 2 ^ 48
    | None \<Rightarrow> months = 0 \<or> (\<exists>a b. future_value pow pv pmt months (flt (- 1 / 2)) = Inr a
        \<and> future_value pow pv pmt months (flt 2) = Inr b \<and> (target < a \<or> b < target))"
proof (cases r)
  case None
  then show ?thesis using assms by (auto simp: bisect_cagr_def Let_def bind_r_Inr_iff split: if_splits prod.splits)
next
  case (Some rate)
  let ?fv = "future_value pow pv pmt months"
  obtain a b lo hi where ab: "?fv (flt (- 1 / 2)) = Inr a" "?fv (flt 2) = Inr b" "a \<le> target" "target \<le> b"
    and loop: "bisect_loop ?fv target 80 (flt (- 1 / 2)) (flt 2) = Inr (lo, hi)" and rate: "rate = (lo + hi) / flt 2"
    using assms Some by (auto simp: bisect_cagr_def Let_def bind_r_Inr_iff split: if_splits prod.splits)
  have "brackets ?fv target (flt (- 1 / 2)) (flt 2)"
    using ab by (auto simp: brackets_def is_flt_def flt_def flt_le_iff fl64_literals)
  from bisect_loop_brackets [OF this loop]
  have br: "brackets ?fv target lo hi"
    and "fval hi - fval lo \<le> (fval (flt 2) - fval (flt (- 1 / 2))) / 2 ^ 80 + 3 / 2 ^ 50 * (1 - 1 / 2 ^ 80)"
    by blast+
  moreover have "(fval (flt 2) - fval (flt (- 1 / 2))) / 2 ^ 80 + 3 / 2 ^ 50 * (1 - 1 / 2 ^ 80) \<le> 1 / 2 ^ 48"
    by (simp add: flt_def fl64_literals)
  ultimately have "fval hi - fval lo \<le> 1 / 2 ^ 48" by linarith
  then show ?thesis using br midpoint_between [of lo hi] Some rate by (auto simp: brackets_def)
qed


text \<open>
  Every recommended allocation is between 0 and 100 percent in each class and adds up to 100;
  for one profile more time never means less equity, and for one horizon a bolder profile of the
  table never means less; an unknown profile gets the balanced one.
\<close>

lemma allocation_sound:
  assumes "m \<le> m'" "i \<le> j" "j < 5"
  shows "(let a = recommend arch m in
        al_equity_pct a \<in> {0..100} \<and> al_tbills_pct a \<in> {0..100} \<and> al_cash_pct a \<in> {0..100}
        \<and> al_equity_pct a + al_tbills_pct a + al_cash_pct a = 100)
    \<and> al_equity_pct (recommend arch m) \<le> al_equity_pct (recommend arch m')
    \<and> al_equity_pct (recommend (fst (TABLE ! i)) m) \<le> al_equity_pct (recommend (fst (TABLE ! j)) m)
    \<and> (arch \<in> set (map fst TABLE) \<or> recommend arch m = recommend ''balanced_builder'' m)"
proof -
  have "al_equity_pct (recommend arch m) \<le> al_equity_pct (recommend arch m')"
    unfolding recommend_pcts using row_of_in_TABLE assms(1) by (rule table_horizon)
  moreover have "al_equity_pct (recommend (fst (TABLE ! i)) m) \<le> al_equity_pct (recommend (fst (TABLE ! j)) m)"
    unfolding recommend_pcts using assms(2,3) by (rule table_profile)
  moreover have "''balanced_builder'' \<in> set (map fst TABLE)" by (simp add: TABLE_def)
  then have "arch \<in> set (map fst TABLE) \<or> recommend arch m = recommend ''balanced_builder'' m"
    unfolding recommend_def Let_def by (simp del: set_map)
  ultimately show ?thesis
    using table_sums [OF row_of_in_TABLE [of arch], of "horizon_bucket m"]
    by (simp add: Let_def recommend_pcts case_prod_beta del: set_map)
qed

text \<open>An exact power, for the examples.\<close>

definition exact_pow :: pow_fn where
  "exact_pow x n = Inr (flt (fval x ^ nat n))"


lemma ex_future_values:
  "future_value exact_pow (flt 100) 0 1 (flt (- 1 / 2)) = Inr a \<Longrightarrow> a \<le> flt 110"
  "future_value exact_pow (flt 100) 0 1 (flt 2) = Inr b \<Longrightarrow> flt 110 \<le> b"
proof -
  have "(case future_value exact_pow (flt 100) 0 1 (flt (- 1 / 2)) of Inr a \<Rightarrow> a \<le> flt 110 | _ \<Rightarrow> False)" by code_simp
  then show "future_value exact_pow (flt 100) 0 1 (flt (- 1 / 2)) = Inr a \<Longrightarrow> a \<le> flt 110" by simp
  have "(case future_value exact_pow (flt 100) 0 1 (flt 2) of Inr a \<Rightarrow> flt 110 \<le> a | _ \<Rightarrow> False)" by code_simp
  then show "future_value exact_pow (flt 100) 0 1 (flt 2) = Inr b \<Longrightarrow> flt 110 \<le> b" by simp
qed

lemma ex_bisect: "\<exists>rate. bisect_cagr exact_pow (flt 110) (flt 100) 0 1 = Inr (Some rate)"
proof -
  let ?fv = "future_value exact_pow (flt 100) 0 1"
  have all: "\<forall>x. is_ok (?fv x)" by (simp add: future_value_def exact_pow_def Let_def)
  then obtain a b where ab: "?fv (flt (- 1 / 2)) = Inr a" "?fv (flt 2) = Inr b" by (metis is_ok_simps(1) sum.exhaust)
  obtain lo hi where "bisect_loop ?fv (flt 110) 80 (flt (- 1 / 2)) (flt 2) = Inr (lo, hi)"
    using bisect_loop_returns [OF all, of "flt 110" 80 "flt (- 1 / 2)" "flt 2"]
    by (cases "bisect_loop ?fv (flt 110) 80 (flt (- 1 / 2)) (flt 2)") auto
  then show ?thesis using ab ex_future_values(1) [OF ab(1)] ex_future_values(2) [OF ab(2)] by (auto simp: bisect_cagr_def Let_def)
qed

theorem required_rate_brackets_witness:
  "\<exists>rate lo hi. bisect_cagr exact_pow (flt 110) (flt 100) 0 1 = Inr (Some rate)
     \<and> brackets (future_value exact_pow (flt 100) 0 1) (flt 110) lo hi \<and> lo \<le> rate \<and> rate \<le> hi \<and> fval hi - fval lo \<le> 1 / 2 ^ 48"
proof -
  obtain rate where "bisect_cagr exact_pow (flt 110) (flt 100) 0 1 = Inr (Some rate)" using ex_bisect by blast
  from this required_rate_brackets [OF this] show ?thesis by auto
qed

end
