(* ===== verification/GoalService.thy ===== *)
theory GoalService
  imports Goals Auth
begin

text \<open>
  Goals of a user: the table \<^verbatim>\<open>models/goals.py\<close>, the service \<^verbatim>\<open>services/goal_service.py\<close> and the
  endpoints \<^verbatim>\<open>routers/goals.py\<close>. The state is the table; the ids of the existing portfolios, the
  new row's id, the time and the date of today are arguments. A request that raises leaves the
  table as it was (\<^verbatim>\<open>get_db\<close> rolls back).
\<close>

section \<open>Table and bodies\<close>

datatype GoalType = Retirement | Hajj | Education | Home | Marriage | EmergencyFund | Custom

record Goal =
  g_id :: string
  g_user_id :: string
  g_name :: string
  g_goal_type :: GoalType
  g_target_amount_pkr :: dec
  g_target_date :: date
  g_current_amount_pkr :: dec
  g_monthly_contribution_pkr :: dec
  g_linked_portfolio_id :: "string option"
  g_notes :: "string option"
  g_created_at :: int
  g_updated_at :: int

record GoalCreate =
  gc_name :: string
  gc_goal_type :: GoalType
  gc_target_amount_pkr :: dec
  gc_target_date :: date
  gc_current_amount_pkr :: dec
  gc_monthly_contribution_pkr :: dec
  gc_linked_portfolio_id :: "string option"
  gc_notes :: "string option"

text \<open>A field of an update is absent, null, or a value.\<close>

record GoalUpdate =
  gu_name :: "string option option"
  gu_target_amount_pkr :: "dec option option"
  gu_target_date :: "date option option"
  gu_current_amount_pkr :: "dec option option"
  gu_monthly_contribution_pkr :: "dec option option"
  gu_linked_portfolio_id :: "string option option"
  gu_notes :: "string option option"

definition valid_name :: "string \<Rightarrow> bool" where "valid_name s \<longleftrightarrow> 1 \<le> char_len s \<and> char_len s \<le> 100"
definition valid_target :: "dec \<Rightarrow> bool" where "valid_target x \<longleftrightarrow> Dec 0 < x \<and> places 2 (dval x)"
definition valid_amount :: "dec \<Rightarrow> bool" where "valid_amount x \<longleftrightarrow> Dec 0 \<le> x \<and> places 2 (dval x)"

definition valid_goal_create :: "GoalCreate \<Rightarrow> bool" where
  "valid_goal_create b \<longleftrightarrow> valid_name (gc_name b) \<and> valid_target (gc_target_amount_pkr b)
     \<and> valid_amount (gc_current_amount_pkr b) \<and> valid_amount (gc_monthly_contribution_pkr b)"

definition given :: "('a \<Rightarrow> bool) \<Rightarrow> 'a option option \<Rightarrow> bool" where
  "given P x = (case x of Some (Some v) \<Rightarrow> P v | _ \<Rightarrow> True)"

definition valid_goal_update :: "GoalUpdate \<Rightarrow> bool" where
  "valid_goal_update b \<longleftrightarrow> given valid_name (gu_name b) \<and> given valid_target (gu_target_amount_pkr b)
     \<and> given valid_amount (gu_current_amount_pkr b) \<and> given valid_amount (gu_monthly_contribution_pkr b)"

datatype goal_error = GoalError string int | UncaughtDb | UncaughtTvm tvm_error

text \<open>What the columns accept: \<^verbatim>\<open>NUMERIC(20, 2)\<close> amounts and a portfolio that exists.\<close>

definition goal_flush :: "string list \<Rightarrow> Goal \<Rightarrow> bool" where
  "goal_flush pids g \<longleftrightarrow> numeric 20 2 (g_target_amount_pkr g) \<and> numeric 20 2 (g_current_amount_pkr g)
     \<and> numeric 20 2 (g_monthly_contribution_pkr g)
     \<and> (case g_linked_portfolio_id g of None \<Rightarrow> True | Some p \<Rightarrow> p \<in> set pids)"

section \<open>Service\<close>

definition goals_for_user :: "Goal list \<Rightarrow> string \<Rightarrow> Goal list" where
  "goals_for_user rows uid = sort_key g_target_date (filter (\<lambda>g. g_user_id g = uid) rows)"

definition goal_get :: "Goal list \<Rightarrow> string \<Rightarrow> string \<Rightarrow> goal_error + Goal" where
  "goal_get rows uid gid =
     (case List.find (\<lambda>g. g_id g = gid \<and> g_user_id g = uid) rows of
        None \<Rightarrow> Inl (GoalError ''Goal not found.'' 404) | Some g \<Rightarrow> Inr g)"

definition goal_create ::
  "string list \<Rightarrow> string \<Rightarrow> GoalCreate \<Rightarrow> string \<Rightarrow> int \<Rightarrow> Goal list \<Rightarrow> goal_error + Goal \<times> Goal list" where
  "goal_create pids uid body gid now rows =
     (let goal = \<lparr>g_id = gid, g_user_id = uid, g_name = gc_name body, g_goal_type = gc_goal_type body,
                  g_target_amount_pkr = gc_target_amount_pkr body, g_target_date = gc_target_date body,
                  g_current_amount_pkr = gc_current_amount_pkr body,
                  g_monthly_contribution_pkr = gc_monthly_contribution_pkr body,
                  g_linked_portfolio_id = gc_linked_portfolio_id body, g_notes = gc_notes body,
                  g_created_at = now, g_updated_at = now\<rparr>
      in if goal_flush pids goal then Inr (goal, rows @ [goal]) else Inl UncaughtDb)"

text \<open>\<^verbatim>\<open>setattr\<close> for each field that was sent; a null in a \<^verbatim>\<open>NOT NULL\<close> column fails at the flush.\<close>

definition set_required :: "'a option option \<Rightarrow> ('a \<Rightarrow> Goal \<Rightarrow> Goal) \<Rightarrow> Goal option \<Rightarrow> Goal option" where
  "set_required x upd g = (case x of None \<Rightarrow> g | Some None \<Rightarrow> None | Some (Some v) \<Rightarrow> map_option (upd v) g)"

definition set_nullable :: "'a option option \<Rightarrow> ('a option \<Rightarrow> Goal \<Rightarrow> Goal) \<Rightarrow> Goal option \<Rightarrow> Goal option" where
  "set_nullable x upd g = (case x of None \<Rightarrow> g | Some v \<Rightarrow> map_option (upd v) g)"

definition apply_goal_update :: "GoalUpdate \<Rightarrow> Goal \<Rightarrow> Goal option" where
  "apply_goal_update b g =
     set_nullable (gu_notes b) (\<lambda>v g. g\<lparr>g_notes := v\<rparr>)
    (set_nullable (gu_linked_portfolio_id b) (\<lambda>v g. g\<lparr>g_linked_portfolio_id := v\<rparr>)
    (set_required (gu_monthly_contribution_pkr b) (\<lambda>v g. g\<lparr>g_monthly_contribution_pkr := v\<rparr>)
    (set_required (gu_current_amount_pkr b) (\<lambda>v g. g\<lparr>g_current_amount_pkr := v\<rparr>)
    (set_required (gu_target_date b) (\<lambda>v g. g\<lparr>g_target_date := v\<rparr>)
    (set_required (gu_target_amount_pkr b) (\<lambda>v g. g\<lparr>g_target_amount_pkr := v\<rparr>)
    (set_required (gu_name b) (\<lambda>v g. g\<lparr>g_name := v\<rparr>) (Some g)))))))"

definition save_goal :: "Goal \<Rightarrow> Goal list \<Rightarrow> Goal list" where
  "save_goal g rows = map (\<lambda>h. if g_id h = g_id g then g else h) rows"

text \<open>The time of the update is set by the database when a column changed.\<close>

definition goal_update ::
  "string list \<Rightarrow> string \<Rightarrow> string \<Rightarrow> GoalUpdate \<Rightarrow> int \<Rightarrow> Goal list \<Rightarrow> goal_error + Goal \<times> Goal list" where
  "goal_update pids uid gid body now rows =
     bind_r (goal_get rows uid gid) (\<lambda>goal.
       case apply_goal_update body goal of
         None \<Rightarrow> Inl UncaughtDb
       | Some g \<Rightarrow> if \<not> goal_flush pids g then Inl UncaughtDb
           else let g = (if g = goal then g else g\<lparr>g_updated_at := now\<rparr>) in Inr (g, save_goal g rows))"

definition goal_delete :: "string \<Rightarrow> string \<Rightarrow> Goal list \<Rightarrow> goal_error + Goal list" where
  "goal_delete uid gid rows = bind_r (goal_get rows uid gid) (\<lambda>goal. Inr (filter (\<lambda>g. g_id g \<noteq> g_id goal) rows))"

record GoalAnalysisResponse =
  gr_analysis :: GoalAnalysis
  gr_allocation :: Allocation

definition analyse :: "pow_fn \<Rightarrow> Goal \<Rightarrow> User \<Rightarrow> date \<Rightarrow> goal_error + GoalAnalysisResponse" where
  "analyse pow goal user today =
     (case analyze pow (g_target_amount_pkr goal) (g_current_amount_pkr goal) (g_monthly_contribution_pkr goal)
             (g_target_date goal) today of
        Inl e \<Rightarrow> Inl (UncaughtTvm e)
      | Inr result \<Rightarrow>
          let arch = (if u_risk_archetype user \<in> {None, Some []} then ''balanced_builder'' else the (u_risk_archetype user))
          in Inr \<lparr>gr_analysis = result, gr_allocation = recommend arch (ga_months_remaining result)\<rparr>)"

section \<open>Endpoints\<close>

definition http_of_goal :: "goal_error \<Rightarrow> http_error" where
  "http_of_goal e = (case e of GoalError m n \<Rightarrow> HTTPException n m | _ \<Rightarrow> ServerError)"

definition raise_goal :: "goal_error + 'a \<Rightarrow> http_error + 'a" where
  "raise_goal r = (case r of Inl e \<Rightarrow> Inl (http_of_goal e) | Inr x \<Rightarrow> Inr x)"

type_synonym GoalWithAnalysis = "Goal \<times> GoalAnalysisResponse"

definition with_analysis :: "pow_fn \<Rightarrow> User \<Rightarrow> date \<Rightarrow> Goal \<Rightarrow> goal_error + GoalWithAnalysis" where
  "with_analysis pow user today goal = bind_r (analyse pow goal user today) (\<lambda>a. Inr (goal, a))"

fun analyse_all :: "pow_fn \<Rightarrow> User \<Rightarrow> date \<Rightarrow> Goal list \<Rightarrow> goal_error + GoalWithAnalysis list" where
  "analyse_all pow user today [] = Inr []"
| "analyse_all pow user today (g # gs) =
     bind_r (with_analysis pow user today g) (\<lambda>r. bind_r (analyse_all pow user today gs) (\<lambda>rs. Inr (r # rs)))"

definition list_goals :: "pow_fn \<Rightarrow> User \<Rightarrow> date \<Rightarrow> Goal list \<Rightarrow> http_error + GoalWithAnalysis list" where
  "list_goals pow user today rows = raise_goal (analyse_all pow user today (goals_for_user rows (u_id user)))"

definition create_goal ::
  "pow_fn \<Rightarrow> string list \<Rightarrow> User \<Rightarrow> GoalCreate \<Rightarrow> string \<Rightarrow> date \<Rightarrow> int \<Rightarrow> Goal list
    \<Rightarrow> http_error + GoalWithAnalysis \<times> Goal list" where
  "create_goal pow pids user body gid today now rows =
     (if \<not> valid_goal_create body then Inl (HTTPException 422 [])
      else raise_goal (bind_r (goal_create pids (u_id user) body gid now rows) (\<lambda>(goal, rows').
             bind_r (with_analysis pow user today goal) (\<lambda>r. Inr (r, rows')))))"

definition get_goal :: "pow_fn \<Rightarrow> User \<Rightarrow> string \<Rightarrow> date \<Rightarrow> Goal list \<Rightarrow> http_error + GoalWithAnalysis" where
  "get_goal pow user gid today rows =
     raise_goal (bind_r (goal_get rows (u_id user) gid) (with_analysis pow user today))"

definition update_goal ::
  "pow_fn \<Rightarrow> string list \<Rightarrow> User \<Rightarrow> string \<Rightarrow> GoalUpdate \<Rightarrow> date \<Rightarrow> int \<Rightarrow> Goal list
    \<Rightarrow> http_error + GoalWithAnalysis \<times> Goal list" where
  "update_goal pow pids user gid body today now rows =
     (if \<not> valid_goal_update body then Inl (HTTPException 422 [])
      else raise_goal (bind_r (goal_update pids (u_id user) gid body now rows) (\<lambda>(goal, rows').
             bind_r (with_analysis pow user today goal) (\<lambda>r. Inr (r, rows')))))"

definition delete_goal :: "User \<Rightarrow> string \<Rightarrow> Goal list \<Rightarrow> http_error + Goal list" where
  "delete_goal user gid rows = raise_goal (goal_delete (u_id user) gid rows)"

section \<open>Invariant\<close>

text \<open>Ids are unique and every stored goal is one the validators accept.\<close>

definition goal_ok :: "Goal \<Rightarrow> bool" where
  "goal_ok g \<longleftrightarrow> valid_name (g_name g) \<and> valid_target (g_target_amount_pkr g) \<and> valid_amount (g_current_amount_pkr g)
     \<and> valid_amount (g_monthly_contribution_pkr g)"

definition goals_inv :: "Goal list \<Rightarrow> bool" where
  "goals_inv rows \<longleftrightarrow> distinct (map g_id rows) \<and> list_all goal_ok rows"

inductive goal_step :: "User \<Rightarrow> Goal list \<Rightarrow> Goal list \<Rightarrow> bool" for user where
  "gid \<notin> g_id ` set rows \<Longrightarrow> create_goal pow pids user body gid today now rows = Inr (r, rows') \<Longrightarrow> goal_step user rows rows'"
| "update_goal pow pids user gid body today now rows = Inr (r, rows') \<Longrightarrow> goal_step user rows rows'"
| "delete_goal user gid rows = Inr rows' \<Longrightarrow> goal_step user rows rows'"

lemma raise_goal_Inr [simp]: "raise_goal r = Inr x \<longleftrightarrow> r = Inr x"
  by (cases r) (auto simp: raise_goal_def)

lemma with_analysis_goal: "with_analysis pow user today goal = Inr r \<Longrightarrow> fst r = goal"
  by (auto simp: with_analysis_def bind_r_Inr_iff)

lemma goal_get_Inr: "goal_get rows uid gid = Inr g \<Longrightarrow> g \<in> set rows \<and> g_id g = gid \<and> g_user_id g = uid"
  by (auto simp: goal_get_def find_Some_iff split: option.splits)

lemma goal_get_unique:
  assumes "distinct (map g_id rows)" "g \<in> set rows"
  shows "goal_get rows (g_user_id g) (g_id g) = Inr g"
proof -
  have "List.find (\<lambda>h. g_id h = g_id g \<and> g_user_id h = g_user_id g) rows = Some g"
    using assms by (induction rows) force+
  then show ?thesis by (simp add: goal_get_def)
qed

lemma set_required_pred:
  "pred_option P go \<Longrightarrow> (\<And>v g. x = Some (Some v) \<Longrightarrow> P g \<Longrightarrow> P (upd v g)) \<Longrightarrow> pred_option P (set_required x upd go)"
  by (cases x; cases "the x"; cases go) (auto simp: set_required_def)

lemma set_nullable_pred:
  "pred_option P go \<Longrightarrow> (\<And>v g. P g \<Longrightarrow> P (upd v g)) \<Longrightarrow> pred_option P (set_nullable x upd go)"
  by (cases x; cases go) (auto simp: set_nullable_def)

lemma goal_update_keeps:
  assumes h: "apply_goal_update b g = Some h"
  shows "g_id h = g_id g \<and> g_user_id h = g_user_id g" "valid_goal_update b \<Longrightarrow> goal_ok g \<Longrightarrow> goal_ok h"
proof -
  have "pred_option (\<lambda>h. g_id h = g_id g \<and> g_user_id h = g_user_id g) (apply_goal_update b g)"
    unfolding apply_goal_update_def by (intro set_nullable_pred set_required_pred) simp_all
  then show "g_id h = g_id g \<and> g_user_id h = g_user_id g" by (simp add: h)
  assume v: "valid_goal_update b" "goal_ok g"
  then have "pred_option goal_ok (apply_goal_update b g)"
    unfolding apply_goal_update_def
    by (intro set_nullable_pred set_required_pred) (simp_all add: goal_ok_def valid_goal_update_def given_def)
  then show "goal_ok h" by (simp add: h)
qed

lemma update_goal_Inr:
  assumes "update_goal pow pids user gid body today now rows = Inr (r, rows')"
  obtains goal where "goal_get rows (u_id user) gid = Inr goal" "rows' = save_goal (fst r) rows"
    "g_id (fst r) = g_id goal" "g_user_id (fst r) = u_id user" "goal_ok goal \<Longrightarrow> goal_ok (fst r)"
    "with_analysis pow user today (fst r) = Inr r"
proof -
  obtain g where u: "goal_update pids (u_id user) gid body now rows = Inr (g, rows')" "valid_goal_update body"
    and w: "with_analysis pow user today g = Inr r"
    using assms by (auto simp: update_goal_def bind_r_Inr_iff split: if_splits)
  have r: "fst r = g" using w by (rule with_analysis_goal)
  obtain goal h where g: "goal_get rows (u_id user) gid = Inr goal" "apply_goal_update body goal = Some h"
    "g = (if h = goal then h else h\<lparr>g_updated_at := now\<rparr>)" "rows' = save_goal g rows"
  proof (cases "goal_get rows (u_id user) gid")
    case (Inr goal)
    show thesis
    proof (cases "apply_goal_update body goal")
      case (Some h)
      show thesis by (rule that [OF Inr Some]) (use u(1) Inr Some in \<open>auto simp: goal_update_def Let_def split: if_splits\<close>)
    qed (use u(1) Inr in \<open>simp add: goal_update_def\<close>)
  qed (use u(1) in \<open>simp add: goal_update_def\<close>)
  have "goal_ok g = goal_ok h" "g_id g = g_id h" "g_user_id g = g_user_id h" using g(3) by (simp_all add: goal_ok_def)
  with g u(2) w goal_update_keeps [OF g(2)] goal_get_Inr [OF g(1)] show thesis
    unfolding r [symmetric] by (intro that [of goal]) auto
qed

lemma create_goal_Inr:
  assumes "create_goal pow pids user body gid today now rows = Inr (r, rows')"
  shows "rows' = rows @ [fst r]" "g_id (fst r) = gid" "g_user_id (fst r) = u_id user" "goal_ok (fst r)"
    "with_analysis pow user today (fst r) = Inr r"
proof -
  obtain goal where c: "goal_create pids (u_id user) body gid now rows = Inr (goal, rows')" "valid_goal_create body"
    and w: "with_analysis pow user today goal = Inr r"
    using assms by (auto simp: create_goal_def bind_r_Inr_iff split: if_splits)
  have r: "fst r = goal" using w by (rule with_analysis_goal)
  show "with_analysis pow user today (fst r) = Inr r" using w r by simp
  show "rows' = rows @ [fst r]" "g_id (fst r) = gid" "g_user_id (fst r) = u_id user" "goal_ok (fst r)"
    using c unfolding r by (auto simp: goal_create_def Let_def goal_ok_def valid_goal_create_def split: if_splits)
qed

lemma goal_step_inv:
  assumes "goals_inv rows" "goal_step user rows rows'"
  shows "goals_inv rows'"
  using assms(2,1)
proof (cases rule: goal_step.cases)
  case (1 gid pow pids body today now r)
  then show ?thesis using assms(1) create_goal_Inr [OF 1(2)] by (auto simp: goals_inv_def)
next
  case (2 pow pids gid body today now r)
  obtain goal where g: "goal_get rows (u_id user) gid = Inr goal" "rows' = save_goal (fst r) rows" "g_id (fst r) = g_id goal"
    "goal_ok goal \<Longrightarrow> goal_ok (fst r)" using update_goal_Inr [OF 2] by metis
  have "goal_ok goal" using goal_get_Inr [OF g(1)] assms(1) by (auto simp: goals_inv_def list_all_iff)
  moreover have "map g_id rows' = map g_id rows" by (simp add: g(2) save_goal_def)
  moreover have "list_all goal_ok rows'"
    using assms(1) calculation(1) g(4) by (auto simp: g(2) goals_inv_def save_goal_def list_all_iff)
  ultimately show ?thesis using assms(1) by (simp only: goals_inv_def)
next
  case (3 gid)
  then show ?thesis using assms(1) by (auto simp: delete_goal_def goal_delete_def bind_r_Inr_iff goals_inv_def distinct_map_filter list_all_iff)
qed

interpretation goal_sys: invariant_system "\<lambda>rows. rows = []" "\<lambda>rows rows'. \<exists>user. goal_step user rows rows'" goals_inv
proof
  show "goals_inv rows" if "rows = []" for rows using that by (simp add: goals_inv_def)
qed (auto intro: goal_step_inv)

text \<open>A create or an update writes one row, the one of its response.\<close>

lemma written_row:
  assumes inv: "goals_inv rows"
    and w: "gid \<notin> g_id ` set rows \<and> create_goal pow pids user body gid today now rows = Inr (r, rows')
      \<or> update_goal pow pids user gid upd today now rows = Inr (r, rows')"
  shows "goals_inv rows'" "fst r \<in> set rows'" "g_id (fst r) = gid" "g_user_id (fst r) = u_id user"
    "with_analysis pow user today (fst r) = Inr r"
    "v \<noteq> u_id user \<Longrightarrow> filter (\<lambda>g. g_user_id g = v) rows' = filter (\<lambda>g. g_user_id g = v) rows"
proof -
  have "goal_step user rows rows'" using w by (auto intro: goal_step.intros)
  then show "goals_inv rows'" by (rule goal_step_inv [OF inv])
  have "fst r \<in> set rows' \<and> g_id (fst r) = gid \<and> g_user_id (fst r) = u_id user \<and> with_analysis pow user today (fst r) = Inr r
    \<and> (\<forall>v. v \<noteq> u_id user \<longrightarrow> filter (\<lambda>g. g_user_id g = v) rows' = filter (\<lambda>g. g_user_id g = v) rows)"
    using w
  proof
    assume c: "gid \<notin> g_id ` set rows \<and> create_goal pow pids user body gid today now rows = Inr (r, rows')"
    then show ?thesis using create_goal_Inr [of pow pids user body gid today now rows r rows'] by auto
  next
    assume "update_goal pow pids user gid upd today now rows = Inr (r, rows')"
    then obtain goal where g: "goal_get rows (u_id user) gid = Inr goal" "rows' = save_goal (fst r) rows"
      "g_id (fst r) = g_id goal" "g_user_id (fst r) = u_id user" "with_analysis pow user today (fst r) = Inr r"
      by (rule update_goal_Inr)
    note goal = goal_get_Inr [OF g(1)]
    have uniq: "g_user_id h = u_id user" if "h \<in> set rows" "g_id h = g_id goal" for h
      using inv goal that by (auto simp: goals_inv_def distinct_map dest: inj_onD)
    have "fst r \<in> set rows'" using goal g(3) by (force simp: g(2) save_goal_def)
    moreover have "filter (\<lambda>g. g_user_id g = v) rows' = filter (\<lambda>g. g_user_id g = v) rows" if "v \<noteq> u_id user" for v
      using uniq that g(3,4) unfolding g(2) save_goal_def by (induction rows) auto
    ultimately show ?thesis using g goal by simp
  qed
  then show "fst r \<in> set rows'" "g_id (fst r) = gid" "g_user_id (fst r) = u_id user"
    "with_analysis pow user today (fst r) = Inr r"
    "v \<noteq> u_id user \<Longrightarrow> filter (\<lambda>g. g_user_id g = v) rows' = filter (\<lambda>g. g_user_id g = v) rows" by blast+
qed

lemma goal_get_absent: "(\<And>g. g \<in> set rows \<Longrightarrow> g_id g = gid \<Longrightarrow> g_user_id g \<noteq> uid) \<Longrightarrow> goal_get rows uid gid = Inl (GoalError ''Goal not found.'' 404)"
  by (auto simp: goal_get_def find_Some_iff in_set_conv_nth split: option.splits)

section \<open>Properties\<close>

text \<open>
  C19: goals belong to their user. On the goals that requests can have produced, a goal that was just
  created or updated reads back exactly as the response showed it, nobody else can read it, and
  after its deletion it is gone; no such request changes what another user's goals are, and
  every stored goal satisfies the validators.
\<close>

theorem goals_of_user:
  assumes reach: "reach (\<lambda>rows. rows = []) (\<lambda>rows rows'. \<exists>user. goal_step user rows rows') rows"
    and written: "gid \<notin> g_id ` set rows \<and> create_goal pow pids user body gid today now rows = Inr (r, rows')
      \<or> update_goal pow pids user gid upd today now rows = Inr (r, rows')"
    and other: "u_id other \<noteq> u_id user"
  shows "get_goal pow user gid today rows' = Inr r
    \<and> get_goal pow other gid today rows' = Inl (HTTPException 404 ''Goal not found.'')
    \<and> list_all goal_ok rows'
    \<and> goals_for_user rows' (u_id other) = goals_for_user rows (u_id other)
    \<and> (\<exists>rows''. delete_goal user gid rows' = Inr rows''
         \<and> get_goal pow user gid today rows'' = Inl (HTTPException 404 ''Goal not found.'')
         \<and> goals_for_user rows'' (u_id other) = goals_for_user rows (u_id other))"
proof -
  have inv: "goals_inv rows" using reach by (rule goal_sys.reach_inv)
  note w = written_row [OF inv written]
  have ids: "distinct (map g_id rows')" using w(1) by (simp add: goals_inv_def)
  have got: "goal_get rows' (u_id user) gid = Inr (fst r)" using goal_get_unique [OF ids w(2)] w(3,4) by simp
  have mine: "g_user_id g = u_id user" if "g \<in> set rows'" "g_id g = gid" for g
    using ids that w(2,3,4) by (auto simp: distinct_map dest: inj_onD)
  have "goal_get rows' (u_id other) gid = Inl (GoalError ''Goal not found.'' 404)"
    using mine other by (intro goal_get_absent) auto
  moreover have gone: "goal_get (filter (\<lambda>g. g_id g \<noteq> gid) rows') (u_id user) gid = Inl (GoalError ''Goal not found.'' 404)"
    by (rule goal_get_absent) simp
  moreover have "filter (\<lambda>g. g_user_id g = u_id other) (filter (\<lambda>g. g_id g \<noteq> gid) rows') = filter (\<lambda>g. g_user_id g = u_id other) rows'"
    using mine other by (auto intro!: filter_cong simp: filter_filter)
  ultimately show ?thesis
    using w(1,3,5) w(6) [OF other] got
    by (auto simp: get_goal_def delete_goal_def goal_delete_def raise_goal_def http_of_goal_def goals_for_user_def goals_inv_def)
qed

definition ex_saver :: User where "ex_saver = new_user ''u1'' ''a@x.pk'' ''h'' None 0"
definition ex_stranger :: User where "ex_stranger = new_user ''u2'' ''b@x.pk'' ''h'' None 0"

definition ex_goal_body :: GoalCreate where
  "ex_goal_body = \<lparr>gc_name = ''Hajj'', gc_goal_type = Hajj, gc_target_amount_pkr = Dec 100, gc_target_date = 738300,
     gc_current_amount_pkr = Dec 200, gc_monthly_contribution_pkr = Dec 0, gc_linked_portfolio_id = None, gc_notes = None\<rparr>"

theorem goals_of_user_witness:
  "\<exists>r rows'. create_goal exact_pow [] ex_saver ex_goal_body ''g1'' 738000 5 [] = Inr (r, rows')
     \<and> get_goal exact_pow ex_saver ''g1'' 738000 rows' = Inr r
     \<and> get_goal exact_pow ex_stranger ''g1'' 738000 rows' = Inl (HTTPException 404 ''Goal not found.'')"
proof -
  have "flt_of_dec (Dec 100) \<le> flt_of_dec (Dec 200)" by (simp add: flt_of_dec_def flt_def flt_r.mono)
  moreover have "valid_goal_create ex_goal_body" "numeric 20 2 (Dec 100)" "numeric 20 2 (Dec 200)" "numeric 20 2 (Dec 0)"
    by (simp_all add: valid_goal_create_def ex_goal_body_def valid_name_def char_len_def valid_target_def valid_amount_def
        numeric_def places_def)
  ultimately have "is_ok (create_goal exact_pow [] ex_saver ex_goal_body ''g1'' 738000 5 [])"
    by (simp add: create_goal_def goal_create_def goal_flush_def ex_goal_body_def with_analysis_def analyse_def analyze_def
        raise_goal_def Let_def)
  then obtain r rows' where c: "create_goal exact_pow [] ex_saver ex_goal_body ''g1'' 738000 5 [] = Inr (r, rows')"
    by (cases "create_goal exact_pow [] ex_saver ex_goal_body ''g1'' 738000 5 []") auto
  have "reach (\<lambda>rows. rows = []) (\<lambda>rows rows'. \<exists>user. goal_step user rows rows') []" by (rule reach_init) simp
  moreover have "u_id ex_stranger \<noteq> u_id ex_saver" by (simp add: ex_saver_def ex_stranger_def new_user_def)
  ultimately show ?thesis
    using goals_of_user [of "[]" "''g1''" exact_pow "[]" ex_saver ex_goal_body 738000 5 r rows' _ ex_stranger] c by auto
qed

end
