(* ===== verification/Backtest.thy ===== *)
theory Backtest
  imports Py_Base
begin

text \<open>
  The backtest engine \<^verbatim>\<open>psx_api/backtest/engine.py\<close> and its metrics \<^verbatim>\<open>backtest/metrics.py\<close>. A strategy is
  a function of its own state, the bars and the index that may raise; the engine threads its
  state. The float power and square root of the C library are arguments of the metrics.
\<close>

section \<open>Data\<close>

record Bar =
  b_date :: date
  b_open :: flt
  b_high :: flt
  b_low :: flt
  b_close :: flt
  b_adjusted_close :: flt
  b_volume :: flt

record Trade =
  tr_entry_date :: date
  tr_entry_price :: flt
  tr_exit_date :: date
  tr_exit_price :: flt
  tr_quantity :: flt
  tr_commission_pkr :: flt
  tr_gross_pnl_pkr :: flt
  tr_net_pnl_pkr :: flt
  tr_return_pct :: flt
  tr_holding_days :: int
  tr_reason_open :: string
  tr_reason_close :: string

record EquityPoint =
  ep_date :: date
  ep_equity_pkr :: flt
  ep_drawdown_pct :: flt
  ep_in_position :: bool

record BacktestRun =
  br_bars :: "Bar list"
  br_equity_curve :: "EquityPoint list"
  br_trades :: "Trade list"
  br_initial_capital_pkr :: flt
  br_final_equity_pkr :: flt
  br_commission_per_side_pct :: flt

datatype backtest_error =
    ValueErr string | TypeErr | KeyErr string | IndexErr | ZeroDivErr | OverflowErr | AttrErr | StrategyErr string

text \<open>A decision is a target, with or without a reason.\<close>

datatype decision = Target int | TargetReason int string

type_synonym 's strategy_fn = "'s \<Rightarrow> Bar list \<Rightarrow> nat \<Rightarrow> backtest_error + decision \<times> 's"

definition fdiv :: "flt \<Rightarrow> flt \<Rightarrow> backtest_error + flt" where
  "fdiv a b = (if fval b = 0 then Inl ZeroDivErr else Inr (a / b))"

section \<open>Engine\<close>

text \<open>The open position, and the local variables of the loop.\<close>

record entry =
  en_date :: date
  en_price :: flt
  en_commission :: flt
  en_reason :: string

record 's engine =
  cash :: flt
  quantity :: flt
  position :: "entry option"
  trades :: "Trade list"
  equity_curve :: "EquityPoint list"
  high_water :: flt
  strat :: 's

text \<open>Closing the position at a price, on a date: the trade, its proceeds and the flat state.\<close>

definition close_position ::
  "flt \<Rightarrow> flt \<Rightarrow> date \<Rightarrow> string \<Rightarrow> entry \<Rightarrow> 's engine \<Rightarrow> backtest_error + 's engine" where
  "close_position commission_rate fill_price exit_date reason en st =
     (let qty = quantity st;
          commission = fill_price * qty * commission_rate;
          proceeds = fill_price * qty - commission;
          gross = (fill_price - en_price en) * qty;
          total_commission = en_commission en + commission;
          net = gross - total_commission
      in bind_r (if 0 < en_price en then bind_r (fdiv net (en_price en * qty)) (\<lambda>q. Inr (q * flt 100)) else Inr 0) (\<lambda>return_pct.
         Inr (st\<lparr>cash := cash st + proceeds, quantity := 0, position := None,
                trades := trades st @
                  [\<lparr>tr_entry_date = en_date en, tr_entry_price = en_price en, tr_exit_date = exit_date,
                    tr_exit_price = fill_price, tr_quantity = qty, tr_commission_pkr = total_commission,
                    tr_gross_pnl_pkr = gross, tr_net_pnl_pkr = net, tr_return_pct = return_pct,
                    tr_holding_days = exit_date - en_date en, tr_reason_open = en_reason en,
                    tr_reason_close = reason\<rparr>]\<rparr>)))"

definition open_position :: "flt \<Rightarrow> Bar \<Rightarrow> string \<Rightarrow> 's engine \<Rightarrow> backtest_error + 's engine" where
  "open_position commission_rate next_bar reason st =
     (let fill_price = b_open next_bar
      in bind_r (fdiv (cash st) (fill_price * (1 + commission_rate))) (\<lambda>target_qty.
           if target_qty \<le> 0 then Inr st
           else let commission = fill_price * target_qty * commission_rate;
                    cost = fill_price * target_qty + commission
                in Inr (st\<lparr>cash := cash st - cost, quantity := target_qty,
                          position := Some \<lparr>en_date = b_date next_bar, en_price = fill_price, en_commission = commission,
                                            en_reason = (if reason = [] then ''Strategy signalled long'' else reason)\<rparr>\<rparr>)))"

text \<open>The mark to market at the start of a step.\<close>

definition mark :: "Bar \<Rightarrow> 's engine \<Rightarrow> 's engine" where
  "mark bar st =
     (let current_equity = cash st + quantity st * b_close bar;
          hw = (if high_water st < current_equity then current_equity else high_water st);
          drawdown = (if 0 < hw then (hw - current_equity) / hw * flt 100 else 0)
      in st\<lparr>high_water := hw,
           equity_curve := equity_curve st @
             [\<lparr>ep_date = b_date bar, ep_equity_pkr = current_equity, ep_drawdown_pct = drawdown,
               ep_in_position = (0 < quantity st)\<rparr>]\<rparr>)"

definition decide ::
  "'s strategy_fn \<Rightarrow> flt \<Rightarrow> Bar list \<Rightarrow> nat \<Rightarrow> 's engine \<Rightarrow> backtest_error + 's engine" where
  "decide strategy commission_rate bars i st =
     bind_r (strategy (strat st) bars i) (\<lambda>(decision, s').
       let st = st\<lparr>strat := s'\<rparr>;
           target = (case decision of Target t \<Rightarrow> t | TargetReason t _ \<Rightarrow> t);
           reason = (case decision of Target _ \<Rightarrow> [] | TargetReason _ r \<Rightarrow> r);
           next_bar = bars ! (i + 1)
       in if target = 1 \<and> quantity st = 0 then open_position commission_rate next_bar reason st
          else case position st of
                 None \<Rightarrow> Inr st
               | Some en \<Rightarrow>
                   if target = 0 \<and> 0 < quantity st
                   then close_position commission_rate (b_open next_bar) (b_date next_bar)
                          (if reason = [] then ''Strategy signalled flat'' else reason) en st
                   else Inr st)"

definition engine_step ::
  "'s strategy_fn \<Rightarrow> flt \<Rightarrow> nat \<Rightarrow> Bar list \<Rightarrow> nat \<Rightarrow> 's engine \<Rightarrow> backtest_error + 's engine" where
  "engine_step strategy commission_rate warmup_bars bars i st =
     (let bar = bars ! i; st = mark bar st
      in if i < warmup_bars then Inr st
         else if length bars \<le> i + 1
         then (case position st of
                 Some en \<Rightarrow> if 0 < quantity st
                   then close_position commission_rate (b_close bar) (b_date bar) ''End of backtest period'' en st
                   else Inr st
               | None \<Rightarrow> Inr st)
         else decide strategy commission_rate bars i st)"

fun engine_loop ::
  "'s strategy_fn \<Rightarrow> flt \<Rightarrow> nat \<Rightarrow> Bar list \<Rightarrow> nat list \<Rightarrow> 's engine \<Rightarrow> backtest_error + 's engine" where
  "engine_loop strategy rate warmup bars [] st = Inr st"
| "engine_loop strategy rate warmup bars (i # is) st =
     bind_r (engine_step strategy rate warmup bars i st) (engine_loop strategy rate warmup bars is)"

definition initial_engine :: "flt \<Rightarrow> 's \<Rightarrow> 's engine" where
  "initial_engine capital s0 =
     \<lparr>cash = capital, quantity = 0, position = None, trades = [], equity_curve = [], high_water = capital, strat = s0\<rparr>"

definition run_backtest ::
  "'s strategy_fn \<Rightarrow> 's \<Rightarrow> flt \<Rightarrow> flt \<Rightarrow> nat \<Rightarrow> Bar list \<Rightarrow> backtest_error + BacktestRun" where
  "run_backtest strategy s0 initial_capital_pkr commission_per_side_pct warmup_bars bars =
     (if bars = [] then Inl (ValueErr ''bars must be non-empty'')
      else if initial_capital_pkr \<le> 0 then Inl (ValueErr ''initial_capital_pkr must be positive'')
      else bind_r (engine_loop strategy (commission_per_side_pct / flt 100) warmup_bars bars [0..<length bars]
                    (initial_engine initial_capital_pkr s0)) (\<lambda>st.
           Inr \<lparr>br_bars = bars, br_equity_curve = equity_curve st, br_trades = trades st,
                br_initial_capital_pkr = initial_capital_pkr,
                br_final_equity_pkr = (if equity_curve st = [] then initial_capital_pkr
                                       else ep_equity_pkr (last (equity_curve st))),
                br_commission_per_side_pct = commission_per_side_pct\<rparr>))"

section \<open>Metrics\<close>

record libm =
  lm_pow :: "flt \<Rightarrow> flt \<Rightarrow> backtest_error + flt"
  lm_sqrt :: "flt \<Rightarrow> flt"

record BacktestMetrics =
  bm_final_value_pkr :: flt
  bm_total_return_pct :: flt
  bm_cagr_pct :: flt
  bm_sharpe_ratio :: flt
  bm_max_drawdown_pct :: flt
  bm_num_trades :: nat
  bm_win_rate_pct :: flt
  bm_avg_winning_trade_pct :: flt
  bm_avg_losing_trade_pct :: flt
  bm_avg_holding_days :: flt
  bm_total_commissions_pkr :: flt
  bm_benchmark_return_pct :: flt
  bm_excess_return_pct :: flt

definition flt_of_nat :: "nat \<Rightarrow> flt" where "flt_of_nat n = flt_of_int (int n)"

text \<open>The mean of a list of floats, 0 when it is empty.\<close>

definition mean_or_zero :: "flt list \<Rightarrow> flt" where
  "mean_or_zero xs = (if xs = [] then 0 else flt_sum xs / flt_of_nat (length xs))"

definition daily_returns :: "EquityPoint list \<Rightarrow> flt list" where
  "daily_returns ps =
     map (\<lambda>(prev, curr). (ep_equity_pkr curr - ep_equity_pkr prev) / ep_equity_pkr prev)
       (filter (\<lambda>(prev, curr). 0 < ep_equity_pkr prev) (zip ps (tl ps)))"

definition cagr_of :: "libm \<Rightarrow> flt \<Rightarrow> flt \<Rightarrow> EquityPoint list \<Rightarrow> backtest_error + flt" where
  "cagr_of lm capital final ps =
     (if 2 \<le> length ps \<and> 0 < capital
      then let days = flt_of_int (ep_date (last ps) - ep_date (hd ps));
               years = max (days / flt (36525 / 100)) (1 / flt (36525 / 100))
           in if 0 < final
              then bind_r (lm_pow lm (final / capital) (1 / years)) (\<lambda>g. Inr ((g - 1) * flt 100))
              else Inr (flt (- 100))
      else Inr 0)"

definition sharpe_of :: "libm \<Rightarrow> flt list \<Rightarrow> backtest_error + flt" where
  "sharpe_of lm rs =
     (if rs = [] then Inr 0
      else let mean_r = flt_sum rs / flt_of_nat (length rs);
               squares = map (\<lambda>r. lm_pow lm (r - mean_r) (flt 2)) rs
           in if list_ex (\<lambda>q. \<not> is_ok q) squares then Inl OverflowErr
              else let var = flt_sum (map projr squares) / flt_of_nat (max (length rs - 1) 1);
                       std = (if 0 < var then lm_sqrt lm var else 0)
                   in Inr (if 0 < std then mean_r / std * lm_sqrt lm (flt 252) else 0))"

definition max_drawdown :: "EquityPoint list \<Rightarrow> flt" where
  "max_drawdown ps = (if ps = [] then 0 else foldl max (ep_drawdown_pct (hd ps)) (map ep_drawdown_pct (tl ps)))"

definition wins :: "Trade list \<Rightarrow> Trade list" where "wins ts = filter (\<lambda>t. 0 < tr_net_pnl_pkr t) ts"
definition losses :: "Trade list \<Rightarrow> Trade list" where "losses ts = filter (\<lambda>t. tr_net_pnl_pkr t \<le> 0) ts"

definition compute_metrics :: "libm \<Rightarrow> flt \<Rightarrow> BacktestRun \<Rightarrow> backtest_error + BacktestMetrics" where
  "compute_metrics lm benchmark_return_pct r =
     (let capital = br_initial_capital_pkr r; final = br_final_equity_pkr r; ts = br_trades r;
          total_return = (if 0 < capital then (final - capital) / capital * flt 100 else 0)
      in bind_r (cagr_of lm capital final (br_equity_curve r)) (\<lambda>cagr.
         bind_r (sharpe_of lm (daily_returns (br_equity_curve r))) (\<lambda>sharpe.
         Inr \<lparr>bm_final_value_pkr = final, bm_total_return_pct = total_return, bm_cagr_pct = cagr,
              bm_sharpe_ratio = sharpe, bm_max_drawdown_pct = max_drawdown (br_equity_curve r),
              bm_num_trades = length ts,
              bm_win_rate_pct = (if ts = [] then 0
                 else flt (of_nat (length (wins ts)) / of_nat (length ts)) * flt 100),
              bm_avg_winning_trade_pct = mean_or_zero (map tr_return_pct (wins ts)),
              bm_avg_losing_trade_pct = mean_or_zero (map tr_return_pct (losses ts)),
              bm_avg_holding_days = (if ts = [] then 0
                 else flt (of_int (sum_list (map tr_holding_days ts)) / of_nat (length ts))),
              bm_total_commissions_pkr = flt_sum (map tr_commission_pkr ts),
              bm_benchmark_return_pct = benchmark_return_pct,
              bm_excess_return_pct = total_return - benchmark_return_pct\<rparr>)))"

definition buy_and_hold_return_pct :: "BacktestRun \<Rightarrow> flt" where
  "buy_and_hold_return_pct r =
     (if length (br_bars r) < 2 then 0
      else let first = b_adjusted_close (hd (br_bars r)); last_close = b_adjusted_close (last (br_bars r))
           in if first \<le> 0 then 0 else (last_close - first) / first * flt 100)"

section \<open>Invariants of the loop\<close>

lemma close_position_Inr:
  assumes "close_position rate price d reason en st = Inr st'"
  obtains t where "st' = st\<lparr>cash := cash st + (price * quantity st - price * quantity st * rate), quantity := 0,
      position := None, trades := trades st @ [t]\<rparr>"
    "tr_entry_date t = en_date en" "tr_exit_date t = d" "tr_quantity t = quantity st"
    "tr_entry_price t = en_price en" "tr_exit_price t = price" "tr_holding_days t = d - en_date en"
  using assms by (auto simp: close_position_def Let_def bind_r_Inr_iff)

lemma open_position_Inr:
  assumes "open_position rate bar reason st = Inr st'"
  obtains "st' = st"
  | q en where "0 < q" "en_date en = b_date bar" "st' = st\<lparr>cash := cash st', quantity := q, position := Some en\<rparr>"
proof (cases "st' = st")
  case False
  then obtain q where q: "fdiv (cash st) (b_open bar * (1 + rate)) = Inr q" "\<not> q \<le> 0"
    using assms by (auto simp: open_position_def Let_def bind_r_Inr_iff split: if_splits)
  have "st' = st\<lparr>cash := cash st - (b_open bar * q + b_open bar * q * rate), quantity := q,
      position := Some \<lparr>en_date = b_date bar, en_price = b_open bar, en_commission = b_open bar * q * rate,
        en_reason = (if reason = [] then ''Strategy signalled long'' else reason)\<rparr>\<rparr>"
    using assms q by (simp add: open_position_def Let_def)
  then show thesis using q(2) by (intro that(2) [of q "the (position st')"]) (simp_all add: not_le)
qed (rule that(1))

lemma mark_simps [simp]:
  "cash (mark b st) = cash st" "quantity (mark b st) = quantity st" "position (mark b st) = position st"
  "trades (mark b st) = trades st" "strat (mark b st) = strat st"
  by (simp_all add: mark_def Let_def)

text \<open>A step either only marks, or opens, or closes at a bar that is the next one or the last.\<close>

lemma engine_step_cases:
  assumes "engine_step strategy rate warmup bars i st = Inr st'"
  obtains (keep) s where "st' = (mark (bars ! i) st)\<lparr>strat := s\<rparr>"
  | (opened) s q en c where "i + 1 < length bars" "quantity st = 0" "0 < q" "en_date en = b_date (bars ! (i + 1))"
      "st' = (mark (bars ! i) st)\<lparr>strat := s, cash := c, quantity := q, position := Some en\<rparr>"
  | (closed) s en t c j where "position st = Some en" "0 < quantity st" "j = i + 1 \<and> i + 1 < length bars \<or> j = i \<and> length bars \<le> i + 1"
      "st' = (mark (bars ! i) st)\<lparr>strat := s, cash := c, quantity := 0, position := None, trades := trades st @ [t]\<rparr>"
      "tr_entry_date t = en_date en" "tr_exit_date t = b_date (bars ! j)" "tr_quantity t = quantity st"
proof -
  let ?m = "mark (bars ! i) st"
  have same: "?m = ?m\<lparr>strat := strat ?m\<rparr>" by simp
  consider "i < warmup" "st' = ?m"
    | "length bars \<le> i + 1" "st' = ?m"
    | en where "length bars \<le> i + 1" "position st = Some en" "0 < quantity st"
        "close_position rate (b_close (bars ! i)) (b_date (bars ! i)) ''End of backtest period'' en ?m = Inr st'"
    | "i + 1 < length bars" "decide strategy rate bars i ?m = Inr st'"
    using assms by (auto simp: engine_step_def Let_def not_le split: if_splits option.splits)
  then show thesis
  proof cases
    case 1 then show ?thesis using keep same by metis
  next
    case 2 then show ?thesis using keep same by metis
  next
    case 3
    from 3(4) obtain t where "st' = ?m\<lparr>cash := cash ?m + (b_close (bars ! i) * quantity ?m - b_close (bars ! i) * quantity ?m * rate),
        quantity := 0, position := None, trades := trades ?m @ [t]\<rparr>"
      "tr_entry_date t = en_date en" "tr_exit_date t = b_date (bars ! i)" "tr_quantity t = quantity ?m"
      by (rule close_position_Inr)
    then show ?thesis using 3 by (intro closed [where en = en and j = i and s = "strat st" and t = t and c = "cash st'"]) auto
  next
    case 4
    obtain dec s where dec: "strategy (strat ?m) bars i = Inr (dec, s)"
      using 4(2) by (auto simp: decide_def bind_r_Inr_iff)
    let ?n = "?m\<lparr>strat := s\<rparr>"
    consider reason where "quantity st = 0" "open_position rate (bars ! (i + 1)) reason ?n = Inr st'"
      | "st' = ?n"
      | reason en where "position st = Some en" "0 < quantity st"
          "close_position rate (b_open (bars ! (i + 1))) (b_date (bars ! (i + 1))) reason en ?n = Inr st'"
      using 4(2) dec by (auto simp: decide_def Let_def split: if_splits option.splits)
    then show ?thesis
    proof cases
      case (1 reason)
      from 1(2) show ?thesis
      proof (cases rule: open_position_Inr)
        case 1 then show ?thesis using keep by blast
      next
        case (2 q en)
        then show ?thesis using 4 1 by (intro opened [where q = q and en = en and s = s and c = "cash st'"]) auto
      qed
    next
      case 2 then show ?thesis using keep by blast
    next
      case (3 reason en)
      from 3(3) obtain t where "st' = ?n\<lparr>cash := cash ?n + (b_open (bars ! (i + 1)) * quantity ?n - b_open (bars ! (i + 1)) * quantity ?n * rate),
          quantity := 0, position := None, trades := trades ?n @ [t]\<rparr>"
        "tr_entry_date t = en_date en" "tr_exit_date t = b_date (bars ! (i + 1))" "tr_quantity t = quantity ?n"
        by (rule close_position_Inr)
      then show ?thesis using 3 4 by (intro closed [where en = en and j = "i + 1" and s = s and t = t and c = "cash st'"]) auto
    qed
  qed
qed

lemma engine_step_equity:
  assumes "engine_step strategy rate warmup bars i st = Inr st'"
  shows "equity_curve st' = equity_curve (mark (bars ! i) st) \<and> high_water st' = high_water (mark (bars ! i) st)"
  using assms by (cases rule: engine_step_cases) simp_all

lemma engine_loop_append:
  "engine_loop strategy rate warmup bars (xs @ ys) st =
     bind_r (engine_loop strategy rate warmup bars xs st) (engine_loop strategy rate warmup bars ys)"
proof (induction xs arbitrary: st)
  case (Cons x xs)
  then show ?case by (cases "engine_step strategy rate warmup bars x st") simp_all
qed simp

lemma engine_loop_Suc:
  "engine_loop strategy rate warmup bars [0..<Suc n] st = Inr st' \<longleftrightarrow>
     (\<exists>mid. engine_loop strategy rate warmup bars [0..<n] st = Inr mid \<and> engine_step strategy rate warmup bars n mid = Inr st')"
proof -
  have "bind_r r Inr = r" for r :: "backtest_error + 's engine" by (cases r) auto
  then show ?thesis by (simp add: engine_loop_append bind_r_Inr_iff)
qed

text \<open>The date up to which a state after \<open>n\<close> steps has filled orders.\<close>

definition filled_to :: "Bar list \<Rightarrow> nat \<Rightarrow> date" where
  "filled_to bars n = b_date (bars ! min n (length bars - 1))"

definition trades_ok :: "date \<Rightarrow> Trade list \<Rightarrow> bool" where
  "trades_ok d ts \<longleftrightarrow> sorted_wrt (\<lambda>t t'. tr_exit_date t < tr_entry_date t') ts
     \<and> (\<forall>t\<in>set ts. tr_entry_date t \<le> tr_exit_date t \<and> tr_exit_date t \<le> d \<and> 0 < tr_quantity t)"

definition position_ok :: "date \<Rightarrow> 's engine \<Rightarrow> bool" where
  "position_ok d st = (case position st of
     None \<Rightarrow> quantity st = 0
   | Some en \<Rightarrow> 0 < quantity st \<and> en_date en \<le> d \<and> (\<forall>t\<in>set (trades st). tr_exit_date t < en_date en))"

definition engine_inv :: "Bar list \<Rightarrow> nat \<Rightarrow> 's engine \<Rightarrow> bool" where
  "engine_inv bars n st \<longleftrightarrow>
     map ep_date (equity_curve st) = map b_date (take n bars)
     \<and> (\<forall>p\<in>set (equity_curve st). 0 \<le> ep_drawdown_pct p)
     \<and> trades_ok (filled_to bars n) (trades st) \<and> position_ok (filled_to bars n) st"

lemma mark_drawdown: "0 \<le> ep_drawdown_pct (last (equity_curve (mark b st)))"
proof -
  let ?eq = "cash st + quantity st * b_close b"
  let ?hw = "if high_water st < ?eq then ?eq else high_water st"
  have "?eq \<le> ?hw" by (auto simp: not_less)
  then have "0 \<le> fval (?hw - ?eq)" unfolding fval_simps flt_le_iff by (intro flt_r.nonneg) simp
  moreover have "0 \<le> fval (flt 100)" by (simp add: flt_def flt_r.nonneg)
  ultimately have "0 \<le> fval ((?hw - ?eq) / ?hw * flt 100)" if "0 < ?hw"
    unfolding fval_simps(6,7) using that
    by (intro flt_r.nonneg mult_nonneg_nonneg divide_nonneg_nonneg) (simp_all only: flt_less_iff fval_simps(1) less_imp_le)
  then show ?thesis by (auto simp: mark_def Let_def flt_le_iff)
qed

lemma mark_curve: "equity_curve (mark b st) = equity_curve st @ [last (equity_curve (mark b st))]"
    "ep_date (last (equity_curve (mark b st))) = b_date b"
  by (simp_all add: mark_def Let_def)

lemma filled_to_nth: "n < length bars \<Longrightarrow> filled_to bars n = b_date (bars ! n)"
    "length bars \<le> n \<Longrightarrow> filled_to bars n = b_date (bars ! (length bars - 1))"
  by (simp_all add: filled_to_def min_absorb1 min_absorb2)

lemma filled_to_mono:
  assumes "sorted_wrt (<) (map b_date bars)" "n < length bars"
  shows "filled_to bars n \<le> filled_to bars (Suc n)" "Suc n < length bars \<Longrightarrow> filled_to bars n < filled_to bars (Suc n)"
proof -
  have lt: "b_date (bars ! i) < b_date (bars ! j)" if "i < j" "j < length bars" for i j
    using assms(1) that by (simp add: sorted_wrt_iff_nth_less)
  show strict: "filled_to bars n < filled_to bars (Suc n)" if "Suc n < length bars"
    using that lt [of n "Suc n"] by (simp add: filled_to_nth(1))
  show "filled_to bars n \<le> filled_to bars (Suc n)"
  proof (cases "Suc n < length bars")
    case False
    then have "length bars - 1 = n" using assms(2) by simp
    then show ?thesis using False assms(2) by (simp add: filled_to_nth)
  qed (use strict in simp)
qed

lemma engine_step_inv:
  assumes dates: "sorted_wrt (<) (map b_date bars)" and n: "n < length bars" and inv: "engine_inv bars n st"
    and step: "engine_step strategy rate warmup bars n st = Inr st'"
  shows "engine_inv bars (Suc n) st'"
proof -
  let ?d = "filled_to bars n" and ?d' = "filled_to bars (Suc n)"
  note d = filled_to_mono [OF dates n]
  have "map ep_date (equity_curve st') = map b_date (take (Suc n) bars)
      \<and> (\<forall>p\<in>set (equity_curve st'). 0 \<le> ep_drawdown_pct p)"
    using inv mark_drawdown [of "bars ! n" st] n unfolding engine_step_equity [OF step, THEN conjunct1]
    by (subst (1 2) mark_curve(1)) (auto simp: engine_inv_def mark_curve(2) take_Suc_conv_app_nth)
  moreover have ts: "trades_ok ?d' (trades st)" and pos: "position_ok ?d st"
    using inv d(1) by (auto simp: engine_inv_def trades_ok_def)
  have "trades_ok ?d' (trades st') \<and> position_ok ?d' st'"
    using step
  proof (cases rule: engine_step_cases)
    case (keep s)
    then show ?thesis using ts pos d(1) by (auto simp: position_ok_def split: option.splits)
  next
    case (opened s q en c)
    then have "en_date en = ?d'" by (simp add: filled_to_nth(1))
    moreover have "\<forall>t\<in>set (trades st). tr_exit_date t \<le> ?d" using inv by (simp add: engine_inv_def trades_ok_def)
    ultimately show ?thesis using opened ts d(2) by (force simp: position_ok_def)
  next
    case (closed s en t c j)
    have "b_date (bars ! j) = ?d'"
    proof (cases "Suc n < length bars")
      case True
      then show ?thesis using closed(3) by (simp add: filled_to_nth(1))
    next
      case False
      then have "length bars - 1 = n" "j = n" using closed(3) n by auto
      then show ?thesis using False by (simp add: filled_to_nth(2))
    qed
    then show ?thesis using closed ts pos d(1)
      by (auto simp: position_ok_def trades_ok_def sorted_wrt_append)
  qed
  ultimately show ?thesis by (simp add: engine_inv_def)
qed

lemma engine_loop_inv:
  assumes dates: "sorted_wrt (<) (map b_date bars)" and "n \<le> length bars"
    and loop: "engine_loop strategy rate warmup bars [0..<n] (initial_engine capital s0) = Inr st"
  shows "engine_inv bars n st"
  using assms(2,3)
proof (induction n arbitrary: st)
  case 0
  then show ?case by (auto simp: initial_engine_def engine_inv_def trades_ok_def position_ok_def)
next
  case (Suc n)
  then obtain mid where "engine_loop strategy rate warmup bars [0..<n] (initial_engine capital s0) = Inr mid"
    "engine_step strategy rate warmup bars n mid = Inr st" by (auto simp only: engine_loop_Suc)
  with Suc.IH [of mid] Suc.prems(1) show ?case by (intro engine_step_inv [OF dates, of n mid strategy rate warmup]) simp_all
qed

section \<open>No look-ahead\<close>

text \<open>A strategy that reads the bars up to its index only.\<close>

definition causal :: "'s strategy_fn \<Rightarrow> bool" where
  "causal strategy \<longleftrightarrow> (\<forall>s bars bars' i. take (Suc i) bars = take (Suc i) bars' \<longrightarrow>
     Suc i < length bars \<longrightarrow> Suc i < length bars' \<longrightarrow> strategy s bars i = strategy s bars' i)"

lemma engine_loop_agree:
  assumes causal: "causal strategy" and same: "take k bars = take k bars'" and k: "k \<le> length bars" "k \<le> length bars'"
  shows "j < k \<Longrightarrow> engine_loop strategy rate warmup bars [0..<j] st = engine_loop strategy rate warmup bars' [0..<j] st"
proof (induction j)
  case (Suc j)
  have nth: "bars ! i = bars' ! i" if "i < k" for i using same that by (metis nth_take)
  have "take (Suc j) bars = take (Suc j) bars'" using arg_cong [OF same, of "take (Suc j)"] Suc.prems by (simp add: min_def)
  then have same_decision: "strategy s bars j = strategy s bars' j" for s
    using causal Suc.prems k unfolding causal_def by (meson Suc_lessD less_le_trans Suc_less_eq)
  have same_bars: "length bars \<le> j + 1 \<longleftrightarrow> False" "length bars' \<le> j + 1 \<longleftrightarrow> False" "bars ! j = bars' ! j" "bars ! (j + 1) = bars' ! (j + 1)"
    using Suc.prems k nth by auto
  have "engine_step strategy rate warmup bars j st = engine_step strategy rate warmup bars' j st" for st
    unfolding engine_step_def decide_def same_bars same_decision by (rule refl)
  then have "engine_loop strategy rate warmup bars [j] = engine_loop strategy rate warmup bars' [j]" by (simp add: fun_eq_iff bind_r_def split: sum.split)
  then show ?case using Suc by (simp add: engine_loop_append)
qed simp

lemma engine_loop_curve:
  "engine_loop strategy rate warmup bars is st = Inr st' \<Longrightarrow>
     \<exists>ps. equity_curve st' = equity_curve st @ ps \<and> length ps = length is"
proof (induction "is" arbitrary: st)
  case (Cons i ns)
  then obtain mid where mid: "engine_step strategy rate warmup bars i st = Inr mid"
    "engine_loop strategy rate warmup bars ns mid = Inr st'" by (auto simp: bind_r_Inr_iff)
  obtain ps where "equity_curve st' = equity_curve mid @ ps" "length ps = length ns" using Cons.IH [OF mid(2)] by blast
  then have "equity_curve st' = equity_curve st @ last (equity_curve (mark (bars ! i) st)) # ps"
    using engine_step_equity [OF mid(1)] mark_curve(1) [of "bars ! i" st] by (metis append.assoc append_Cons append_Nil)
  then show ?case using \<open>length ps = length ns\<close> by auto
qed simp

text \<open>The first \<open>k\<close> points of the curve are those after marking bar \<open>k - 1\<close>.\<close>

lemma curve_prefix:
  assumes loop: "engine_loop strategy rate warmup bars [0..<length bars] (initial_engine capital s0) = Inr st"
    and "Suc j \<le> length bars"
  obtains mid where "engine_loop strategy rate warmup bars [0..<j] (initial_engine capital s0) = Inr mid"
    "take (Suc j) (equity_curve st) = equity_curve (mark (bars ! j) mid)"
proof -
  have "[0..<length bars] = [0..<Suc j] @ [Suc j..<length bars]" using assms(2) by (metis le0 upt_add_eq_append le_add_diff_inverse)
  then obtain nxt where nxt: "engine_loop strategy rate warmup bars [0..<Suc j] (initial_engine capital s0) = Inr nxt"
    "engine_loop strategy rate warmup bars [Suc j..<length bars] nxt = Inr st"
    using loop by (auto simp only: engine_loop_append bind_r_Inr_iff)
  obtain mid where mid: "engine_loop strategy rate warmup bars [0..<j] (initial_engine capital s0) = Inr mid"
    "engine_step strategy rate warmup bars j mid = Inr nxt" using nxt(1) by (auto simp only: engine_loop_Suc)
  obtain ps where ps: "equity_curve st = equity_curve nxt @ ps" using engine_loop_curve [OF nxt(2)] by blast
  have "length (equity_curve nxt) = Suc j"
    using engine_loop_curve [OF nxt(1)] by (auto simp: initial_engine_def)
  with ps engine_step_equity [OF mid(2)] have "take (Suc j) (equity_curve st) = equity_curve (mark (bars ! j) mid)" by simp
  with mid(1) show thesis by (rule that)
qed

section \<open>Properties\<close>

text \<open>
  The engine is sound. On bars in date order, a run has one equity point per bar with its date, no
  drawdown is negative, the final equity is that of the last point, and the trades are closed
  round trips of positive size in chronological order that never overlap.
\<close>

lemma run_sound:
  assumes dates: "sorted_wrt (<) (map b_date bars)"
    and run: "run_backtest strategy s0 capital pct warmup bars = Inr r"
  shows "map ep_date (br_equity_curve r) = map b_date bars
    \<and> br_final_equity_pkr r = ep_equity_pkr (last (br_equity_curve r))
    \<and> (\<forall>p\<in>set (br_equity_curve r). 0 \<le> ep_drawdown_pct p)
    \<and> sorted_wrt (\<lambda>t t'. tr_exit_date t < tr_entry_date t') (br_trades r)
    \<and> (\<forall>t\<in>set (br_trades r). tr_entry_date t \<le> tr_exit_date t \<and> tr_exit_date t \<le> b_date (last bars) \<and> 0 < tr_quantity t)"
proof -
  obtain st where ne: "bars \<noteq> []" and loop: "engine_loop strategy (pct / flt 100) warmup bars [0..<length bars] (initial_engine capital s0) = Inr st"
    and r: "br_equity_curve r = equity_curve st" "br_trades r = trades st"
      "br_final_equity_pkr r = (if equity_curve st = [] then capital else ep_equity_pkr (last (equity_curve st)))"
    using run by (auto simp: run_backtest_def bind_r_Inr_iff split: if_splits)
  have inv: "engine_inv bars (length bars) st" using engine_loop_inv [OF dates order_refl loop] .
  then have curve: "map ep_date (equity_curve st) = map b_date bars" by (simp add: engine_inv_def)
  then have "equity_curve st \<noteq> []" using ne by (metis map_is_Nil_conv)
  moreover have "filled_to bars (length bars) = b_date (last bars)" using ne by (simp add: filled_to_nth(2) last_conv_nth)
  ultimately show ?thesis using inv curve r by (auto simp: engine_inv_def trades_ok_def)
qed

text \<open>
  No look-ahead: for a strategy that reads only the bars up to the day it decides on, the equity
  curve up to a day does not depend on later prices: two histories that agree on their first
  \<open>k\<close> bars have the same first \<open>k\<close> equity points.
\<close>

lemma no_look_ahead:
  assumes causal: "causal strategy" and same: "take k bars = take k bars'" and k: "k \<le> length bars" "k \<le> length bars'"
    and runs: "run_backtest strategy s0 capital pct warmup bars = Inr r" "run_backtest strategy s0 capital pct warmup bars' = Inr r'"
  shows "take k (br_equity_curve r) = take k (br_equity_curve r')"
proof (cases k)
  case (Suc j)
  obtain st where st: "engine_loop strategy (pct / flt 100) warmup bars [0..<length bars] (initial_engine capital s0) = Inr st"
    "br_equity_curve r = equity_curve st"
    using runs(1) by (auto simp: run_backtest_def bind_r_Inr_iff split: if_splits)
  obtain st' where st': "engine_loop strategy (pct / flt 100) warmup bars' [0..<length bars'] (initial_engine capital s0) = Inr st'"
    "br_equity_curve r' = equity_curve st'"
    using runs(2) by (auto simp: run_backtest_def bind_r_Inr_iff split: if_splits)
  obtain mid where mid: "engine_loop strategy (pct / flt 100) warmup bars [0..<j] (initial_engine capital s0) = Inr mid"
    "take (Suc j) (equity_curve st) = equity_curve (mark (bars ! j) mid)" by (rule curve_prefix [OF st(1)]) (use k Suc in auto)
  obtain mid' where mid': "engine_loop strategy (pct / flt 100) warmup bars' [0..<j] (initial_engine capital s0) = Inr mid'"
    "take (Suc j) (equity_curve st') = equity_curve (mark (bars' ! j) mid')" by (rule curve_prefix [OF st'(1)]) (use k Suc in auto)
  have "mid = mid'" using engine_loop_agree [OF causal same k, of j "pct / flt 100" warmup "initial_engine capital s0"] mid(1) mid'(1) Suc by simp
  moreover have "bars ! j = bars' ! j" using same Suc by (metis lessI nth_take)
  ultimately show ?thesis using mid(2) mid'(2) st(2) st'(2) Suc by simp
qed simp

text \<open>A strategy that buys on the first day it may and sells on the next; two bars at 100, then one more.\<close>

definition ex_strategy :: "unit strategy_fn" where
  "ex_strategy s bars i = Inr (if i = 0 then Target 1 else TargetReason 0 ''done'', s)"

definition ex_bar :: "date \<Rightarrow> rat \<Rightarrow> Bar" where
  "ex_bar d x = \<lparr>b_date = d, b_open = Flt x, b_high = Flt x, b_low = Flt x, b_close = Flt x, b_adjusted_close = Flt x, b_volume = 1\<rparr>"

text \<open>
  The final equity misses the cost of the forced exit. On two bars at the same price, with a
  commission of 25 percent per side, the position is closed at the end of the period: the trade
  records a loss of 500, but the final equity reports a loss of 250, because it is taken before
  the exit commission is paid.
\<close>

lemma final_equity_before_forced_exit:
  "\<exists>r. run_backtest ex_strategy () (Flt 1250) (Flt 25) 0 [ex_bar 1 100, ex_bar 2 100] = Inr r
     \<and> map tr_net_pnl_pkr (br_trades r) = [Flt (- 500)] \<and> map tr_reason_close (br_trades r) = [''End of backtest period'']
     \<and> br_final_equity_pkr r - br_initial_capital_pkr r = Flt (- 250)"
proof -
  have "case run_backtest ex_strategy () (Flt 1250) (Flt 25) 0 [ex_bar 1 100, ex_bar 2 100] of
      Inr r \<Rightarrow> map tr_net_pnl_pkr (br_trades r) = [Flt (- 500)] \<and> map tr_reason_close (br_trades r) = [''End of backtest period'']
        \<and> br_final_equity_pkr r - br_initial_capital_pkr r = Flt (- 250)
    | _ \<Rightarrow> False" by code_simp
  then show ?thesis by (auto split: sum.splits)
qed

lemma foldl_max: "a \<le> foldl max a xs \<and> (\<forall>x\<in>set xs. x \<le> foldl max a xs) \<and> foldl max a xs \<in> insert a (set xs)" for a :: flt
proof (induction xs arbitrary: a)
  case (Cons x xs)
  have "a \<le> max a x" "x \<le> max a x" "max a x \<in> {a, x}" by (auto simp: max_def)
  then show ?case using Cons [of "max a x"] by (auto intro: order_trans)
qed simp

lemma wins_losses: "length (wins ts) + length (losses ts) = length ts"
  by (induction ts) (auto simp: wins_def losses_def not_le)

text \<open>
  The metrics of a run count every trade as a win or a loss, the win rate is between 0 and 100
  percent, and the maximum drawdown is the largest drawdown of the curve.
\<close>

lemma metrics_bounds:
  assumes "compute_metrics lm bench r = Inr m"
  shows "bm_num_trades m = length (wins (br_trades r)) + length (losses (br_trades r))
    \<and> 0 \<le> bm_win_rate_pct m \<and> bm_win_rate_pct m \<le> Flt 100
    \<and> (\<forall>p\<in>set (br_equity_curve r). ep_drawdown_pct p \<le> bm_max_drawdown_pct m)
    \<and> (br_equity_curve r = [] \<or> (\<exists>p\<in>set (br_equity_curve r). ep_drawdown_pct p = bm_max_drawdown_pct m))"
proof -
  let ?ts = "br_trades r" and ?ps = "br_equity_curve r"
  have m: "bm_num_trades m = length ?ts" "bm_max_drawdown_pct m = max_drawdown ?ps"
    "bm_win_rate_pct m = (if ?ts = [] then 0 else flt (of_nat (length (wins ?ts)) / of_nat (length ?ts)) * flt 100)"
    using assms by (auto simp: compute_metrics_def Let_def bind_r_Inr_iff)
  have "length (wins ?ts) \<le> length ?ts" by (simp add: wins_def)
  then have "0 \<le> bm_win_rate_pct m \<and> bm_win_rate_pct m \<le> Flt 100"
    using percentage m(3) by (simp add: flt_le_iff)
  moreover have "(\<forall>p\<in>set ?ps. ep_drawdown_pct p \<le> max_drawdown ?ps)
      \<and> (?ps = [] \<or> (\<exists>p\<in>set ?ps. ep_drawdown_pct p = max_drawdown ?ps))"
  proof (cases ?ps)
    case (Cons p ps)
    have "max_drawdown ?ps \<in> insert (ep_drawdown_pct p) (ep_drawdown_pct ` set ps)" "ep_drawdown_pct p \<le> max_drawdown ?ps"
      "\<forall>q\<in>set ps. ep_drawdown_pct q \<le> max_drawdown ?ps"
      using foldl_max [of "ep_drawdown_pct p" "map ep_drawdown_pct ps"] Cons by (simp_all add: max_drawdown_def)
    then show ?thesis unfolding Cons by auto
  qed simp
  ultimately show ?thesis using m(1,2) wins_losses [of ?ts] by auto
qed

text \<open>With a power that never raises, the metrics are always computed.\<close>

lemma compute_metrics_returns:
  assumes "\<And>x y. is_ok (lm_pow lm x y)"
  shows "is_ok (compute_metrics lm b r)"
proof -
  have "is_ok (cagr_of lm c f ps)" for c f ps using assms by (simp add: cagr_of_def Let_def is_ok_bind)
  moreover have "is_ok (sharpe_of lm rs)" for rs using assms by (simp add: sharpe_of_def Let_def list_ex_iff)
  ultimately show ?thesis unfolding compute_metrics_def Let_def by (intro is_ok_bind) simp_all
qed

definition ex_libm :: libm where "ex_libm = \<lparr>lm_pow = (\<lambda>x y. Inr x), lm_sqrt = (\<lambda>x. x)\<rparr>"

end
