(* ===== verification/Indicators.thy ===== *)
theory Indicators
  imports Backtest
begin

text \<open>
  The technical indicators \<^verbatim>\<open>psx_api/indicators/compute.py\<close>. A series is a list of values with
  leading \<open>None\<close>s for the warm-up, aligned with its input. The arrays the code fills by index from
  left to right are built in that order: \<open>scan\<close> is the loop that updates a state at each index
  and stores one value.
\<close>

type_synonym series = "flt option list"

section \<open>Indicators\<close>

fun scan :: "('s \<Rightarrow> nat \<Rightarrow> 's) \<Rightarrow> ('s \<Rightarrow> 'v) \<Rightarrow> 's \<Rightarrow> nat list \<Rightarrow> 'v option list" where
  "scan step emit s [] = []"
| "scan step emit s (i # js) = (let s' = step s i in Some (emit s') # scan step emit s' js)"

definition sma :: "flt list \<Rightarrow> int \<Rightarrow> backtest_error + series" where
  "sma closes period =
     (if period \<le> 0 then Inl (ValueErr ''period must be positive'')
      else let xs = closes; n = length xs; p = nat period; d = flt_of_int period
      in if n < p then Inr (replicate n None)
         else let running = flt_sum (take p xs)
              in Inr (replicate (p - 1) None @ Some (running / d) #
                   scan (\<lambda>running i. running + (xs ! i - xs ! (i - p))) (\<lambda>running. running / d) running [p..<n]))"

definition ema :: "flt list \<Rightarrow> int \<Rightarrow> backtest_error + series" where
  "ema closes period =
     (if period \<le> 0 then Inl (ValueErr ''period must be positive'')
      else let xs = closes; n = length xs; p = nat period
      in if n < p then Inr (replicate n None)
         else let seed = flt_sum (take p xs) / flt_of_int period; k = flt (2 / of_int (period + 1))
              in Inr (replicate (p - 1) None @ Some seed #
                   scan (\<lambda>prev i. xs ! i * k + prev * (1 - k)) (\<lambda>prev. prev) seed [p..<n]))"

text \<open>The gains and losses of the first window, the smoothed averages and the index they give.\<close>

definition rsi_first :: "flt list \<Rightarrow> nat \<Rightarrow> flt \<times> flt" where
  "rsi_first xs p =
     foldl (\<lambda>(gains, losses) i.
        let delta = xs ! i - xs ! (i - 1) in if 0 \<le> delta then (gains + delta, losses) else (gains, losses - delta))
       (0, 0) [1..<p + 1]"

definition rsi_step :: "flt list \<Rightarrow> int \<Rightarrow> flt \<times> flt \<Rightarrow> nat \<Rightarrow> flt \<times> flt" where
  "rsi_step xs period = (\<lambda>(avg_gain, avg_loss) i.
     let delta = xs ! i - xs ! (i - 1); gain = max delta 0; loss = max (- delta) 0;
         m = flt_of_int (period - 1); d = flt_of_int period
     in ((avg_gain * m + gain) / d, (avg_loss * m + loss) / d))"

definition rsi_value :: "flt \<times> flt \<Rightarrow> flt" where
  "rsi_value = (\<lambda>(avg_gain, avg_loss).
     if avg_loss = 0 then flt 100 else flt 100 - flt 100 / (1 + avg_gain / avg_loss))"

definition rsi :: "flt list \<Rightarrow> int \<Rightarrow> backtest_error + series" where
  "rsi closes period =
     (if period \<le> 0 then Inl (ValueErr ''period must be positive'')
      else let xs = closes; n = length xs; p = nat period
      in if n \<le> p then Inr (replicate n None)
         else let (gains, losses) = rsi_first xs p; d = flt_of_int period; avg = (gains / d, losses / d)
              in Inr (replicate p None @ Some (rsi_value avg) # scan (rsi_step xs period) rsi_value avg [p + 1..<n]))"

text \<open>Pointwise difference of two series, and the tail of a series after its warm-up.\<close>

definition minus_series :: "'v::minus option list \<Rightarrow> 'v option list \<Rightarrow> 'v option list" where
  "minus_series = map2 (\<lambda>f s. case (f, s) of (Some a, Some b) \<Rightarrow> Some (a - b) | _ \<Rightarrow> None)"

definition populated_idx :: "'v option list \<Rightarrow> nat" where
  "populated_idx xs = length (takeWhile (\<lambda>v. v = None) xs)"

definition populated :: "'v option list \<Rightarrow> 'v list" where
  "populated xs = map the (filter (\<lambda>v. v \<noteq> None) (drop (populated_idx xs) xs))"

definition shifted :: "nat \<Rightarrow> nat \<Rightarrow> 'v option list \<Rightarrow> 'v option list" where
  "shifted n idx tail = replicate idx None @ tail @ replicate (n - (idx + length tail)) None"

text \<open>The smoothing of the populated tail of a line, back at its place: \<^verbatim>\<open>ema\<close> for the signal, \<^verbatim>\<open>sma\<close> for \<^verbatim>\<open>%D\<close>.\<close>

definition smoothed :: "('v list \<Rightarrow> backtest_error + 'v option list) \<Rightarrow> nat \<Rightarrow> 'v option list \<Rightarrow> backtest_error + 'v option list" where
  "smoothed f n line =
     bind_r (if populated line \<noteq> [] then f (populated line) else Inr []) (\<lambda>tail.
       Inr (shifted n (populated_idx line) tail))"

record macd_lines =
  macd_line :: series
  macd_signal :: series
  macd_histogram :: series

definition macd :: "flt list \<Rightarrow> int \<Rightarrow> int \<Rightarrow> int \<Rightarrow> backtest_error + macd_lines" where
  "macd closes fast slow signal_period =
     bind_r (ema closes fast) (\<lambda>fast_line.
     bind_r (ema closes slow) (\<lambda>slow_line.
       let line = minus_series fast_line slow_line
       in bind_r (smoothed (\<lambda>vs. ema vs signal_period) (length closes) line) (\<lambda>signal_line.
            Inr \<lparr>macd_line = line, macd_signal = signal_line, macd_histogram = minus_series line signal_line\<rparr>)))"

text \<open>\<^verbatim>\<open>max\<close> and \<^verbatim>\<open>min\<close> of a list that is not empty, and the window that ends at an index.\<close>

definition list_max :: "flt list \<Rightarrow> flt" where "list_max xs = foldl max (hd xs) (tl xs)"
definition list_min :: "flt list \<Rightarrow> flt" where "list_min xs = foldl min (hd xs) (tl xs)"

definition window :: "nat \<Rightarrow> nat \<Rightarrow> 'a list \<Rightarrow> 'a list" where
  "window p i xs = drop (i + 1 - p) (take (i + 1) xs)"

definition stochastic_k :: "nat \<Rightarrow> flt list \<Rightarrow> flt list \<Rightarrow> flt list \<Rightarrow> nat \<Rightarrow> flt" where
  "stochastic_k k_period highs lows closes i =
     (let window_high = list_max (window k_period i highs); window_low = list_min (window k_period i lows);
          denom = window_high - window_low
      in if denom \<noteq> 0 then flt 100 * (closes ! i - window_low) / denom else flt 50)"

text \<open>A period of 0 makes the first window empty; negative periods are not modelled.\<close>

definition stochastic ::
  "flt list \<Rightarrow> flt list \<Rightarrow> flt list \<Rightarrow> nat \<Rightarrow> int \<Rightarrow> backtest_error + series \<times> series" where
  "stochastic highs lows closes k_period d_period =
     (if \<not> (length highs = length lows \<and> length lows = length closes)
      then Inl (ValueErr ''highs/lows/closes must be same length'')
      else if k_period = 0 then Inl (ValueErr ''max() arg is an empty sequence'')
      else let n = length closes;
               k_line = replicate (min (k_period - 1) n) None @
                 map (\<lambda>i. Some (stochastic_k k_period highs lows closes i)) [k_period - 1..<n]
           in bind_r (smoothed (\<lambda>vs. sma vs d_period) n k_line) (\<lambda>d_line. Inr (k_line, d_line)))"

definition band_std :: "libm \<Rightarrow> flt list \<Rightarrow> int \<Rightarrow> flt \<Rightarrow> nat \<Rightarrow> backtest_error + flt" where
  "band_std lm xs period mean i =
     bind_r (collect_r (map (\<lambda>x. lm_pow lm (x - mean) (flt 2)) (window (nat period) i xs))) (\<lambda>squares.
       lm_pow lm (flt_sum squares / flt_of_int period) (flt (1 / 2)))"

record bands =
  upper_band :: series
  middle_band :: series
  lower_band :: series

definition bollinger_bands :: "libm \<Rightarrow> flt list \<Rightarrow> int \<Rightarrow> flt \<Rightarrow> backtest_error + bands" where
  "bollinger_bands lm closes period num_std =
     bind_r (sma closes period) (\<lambda>middle.
     let n = length closes; p = nat period; mean = (\<lambda>i. the (middle ! i));
         ixs = [p - 1..<n]; pad = replicate (min (p - 1) n) None
     in bind_r (collect_r (map (\<lambda>i. band_std lm closes period (mean i) i) ixs)) (\<lambda>stds.
          Inr \<lparr>upper_band = pad @ map2 (\<lambda>i std. Some (mean i + num_std * std)) ixs stds,
               middle_band = middle,
               lower_band = pad @ map2 (\<lambda>i std. Some (mean i - num_std * std)) ixs stds\<rparr>))"

definition true_range :: "flt list \<Rightarrow> flt list \<Rightarrow> flt list \<Rightarrow> nat \<Rightarrow> flt" where
  "true_range highs lows closes i =
     (let h = highs ! i; lo = lows ! i; prev_c = closes ! (i - 1)
      in max (max (h - lo) \<bar>h - prev_c\<bar>) \<bar>lo - prev_c\<bar>)"

text \<open>Negative periods are not modelled; a period of 0 divides by zero.\<close>

definition atr :: "flt list \<Rightarrow> flt list \<Rightarrow> flt list \<Rightarrow> nat \<Rightarrow> backtest_error + series" where
  "atr highs lows closes period =
     (if \<not> (length highs = length lows \<and> length lows = length closes)
      then Inl (ValueErr ''highs/lows/closes must be same length'')
      else let n = length closes; trs = map (true_range highs lows closes) [1..<n]; d = flt_of_nat period
      in if n < period + 1 then Inr (replicate n None)
         else if period = 0 then Inl ZeroDivErr
         else let first_atr = flt_sum (take period trs) / d
              in Inr (replicate period None @ Some first_atr #
                   scan (\<lambda>prev i. (prev * flt_of_nat (period - 1) + trs ! (i - 1)) / d) (\<lambda>prev. prev) first_atr
                     [period + 1..<n]))"

definition obv :: "flt list \<Rightarrow> flt list \<Rightarrow> backtest_error + series" where
  "obv closes volumes =
     (if length closes \<noteq> length volumes then Inl (ValueErr ''closes/volumes must be same length'')
      else if closes = [] then Inr []
      else Inr (Some 0 # scan (\<lambda>running i.
             if closes ! (i - 1) < closes ! i then running + volumes ! i
             else if closes ! i < closes ! (i - 1) then running - volumes ! i else running) (\<lambda>running. running)
           0 [1..<length closes]))"

section \<open>Warm-up and prefixes\<close>

lemma length_scan [simp]: "length (scan step emit s js) = length js"
  by (induction js arbitrary: s) (auto simp: Let_def)

lemma scan_Some: "v \<in> set (scan step emit s js) \<Longrightarrow> v \<noteq> None"
  by (induction js arbitrary: s) (auto simp: Let_def)

lemma scan_take: "scan step emit s (take k js) = take k (scan step emit s js)"
  by (induction js arbitrary: s k) (auto simp: Let_def take_Cons split: nat.splits)

lemma scan_cong: "(\<And>s i. i \<in> set js \<Longrightarrow> step s i = step' s i) \<Longrightarrow> scan step emit s js = scan step' emit s js"
  by (induction js arbitrary: s) (simp_all add: Let_def)

lemma scan_prefix:
  assumes "\<And>s i. a \<le> i \<Longrightarrow> i < k \<Longrightarrow> step' s i = step s i" and "a \<le> k" "k \<le> n"
  shows "scan step' emit s [a..<k] = take (k - a) (scan step emit s [a..<n])"
proof -
  have "[a..<k] = take (k - a) [a..<n]" using assms(2,3) by (simp add: take_upt)
  moreover have "scan step' emit s [a..<k] = scan step emit s [a..<k]" using assms(1) by (intro scan_cong) auto
  ultimately show ?thesis by (simp add: scan_take)
qed

lemma warm_up_take:
  "k \<le> w \<Longrightarrow> take k (replicate w None @ zs) = replicate k None"
  by (simp add: min_def)

text \<open>A series is warm when it never falls back to \<open>None\<close>.\<close>

definition warm :: "series \<Rightarrow> bool" where
  "warm ys \<longleftrightarrow> sorted_wrt (\<lambda>a b. a \<noteq> None \<longrightarrow> b \<noteq> None) ys"

lemma warm_replicate: "list_all (\<lambda>v. v \<noteq> None) zs \<Longrightarrow> warm (replicate w None @ zs)"
proof (induction w)
  case 0
  then show ?case by (simp add: warm_def sorted_wrt_iff_nth_less list_all_length)
qed (simp add: warm_def)

lemma warm_split:
  assumes "warm ys"
  shows "ys = replicate (populated_idx ys) None @ map Some (populated ys)"
proof -
  have head: "takeWhile (\<lambda>v. v = None) ys = replicate (populated_idx ys) None"
    unfolding populated_idx_def by (rule replicate_eqI [symmetric, THEN sym]) (auto dest: set_takeWhileD)
  have dropped: "drop (populated_idx ys) ys = dropWhile (\<lambda>v. v = None) ys"
    by (simp add: populated_idx_def dropWhile_eq_drop)
  have some: "v \<noteq> None" if "v \<in> set (dropWhile (\<lambda>v. v = None) ys)" for v
  proof (cases "dropWhile (\<lambda>v. v = None) ys")
    case (Cons z zs)
    have "z \<noteq> None" using Cons hd_dropWhile [of "\<lambda>v. v = None" ys] by simp
    moreover have "sorted_wrt (\<lambda>a b. a \<noteq> None \<longrightarrow> b \<noteq> None) (takeWhile (\<lambda>v. v = None) ys @ z # zs)"
      using assms Cons by (simp add: warm_def flip: Cons)
    ultimately show ?thesis using that Cons by (auto simp: sorted_wrt_append)
  next
    case Nil
    show ?thesis using that unfolding Nil by simp
  qed
  have "dropWhile (\<lambda>v. v = None) ys = map Some (populated ys)"
    unfolding populated_def dropped using some by (subst filter_True) (auto simp: map_idI)
  then show ?thesis using head takeWhile_dropWhile_id [of "\<lambda>v. v = None" ys] by simp
qed

lemma populated_replicate [simp]:
  "populated_idx (replicate w None @ map Some vs) = w" "populated (replicate w None @ map Some vs) = vs"
proof -
  show idx: "populated_idx (replicate w None @ map Some vs) = w"
    by (cases vs) (simp_all add: populated_idx_def takeWhile_append)
  show "populated (replicate w None @ map Some vs) = vs"
    by (simp add: populated_def idx filter_map comp_def)
qed

lemma warm_minus_series:
  assumes "warm a" "warm b"
  shows "warm (minus_series a b)"
  unfolding warm_def sorted_wrt_iff_nth_less
proof (intro allI impI)
  fix i j assume ij: "i < j" "j < length (minus_series a b)" and some: "minus_series a b ! i \<noteq> None"
  have nth: "minus_series a b ! l = (case (a ! l, b ! l) of (Some x, Some y) \<Rightarrow> Some (x - y) | _ \<Rightarrow> None)" if "l \<le> j" for l
    using that ij by (simp add: minus_series_def)
  have len: "j < length a" "j < length b" using ij by (simp_all add: minus_series_def)
  have "a ! i \<noteq> None" "b ! i \<noteq> None" using some nth [of i] ij by (auto split: option.splits)
  then have "a ! j \<noteq> None" "b ! j \<noteq> None"
    using assms ij len unfolding warm_def sorted_wrt_iff_nth_less by blast+
  then show "minus_series a b ! j \<noteq> None" using nth [of j] by (auto split: option.splits)
qed

lemma take_minus_series: "take k (minus_series a b) = minus_series (take k a) (take k b)"
  by (simp add: minus_series_def take_map take_zip)

lemma length_minus_series [simp]: "length (minus_series a b) = min (length a) (length b)"
  by (simp add: minus_series_def)

text \<open>
  The contract of an indicator of one series: its output is aligned with the input, it does not fall
  back to \<open>None\<close>, and on a prefix of the input it gives the prefix of the output.
\<close>

locale causal_series =
  fixes f :: "flt list \<Rightarrow> backtest_error + series"
  assumes prefix: "f xs = Inr ys \<Longrightarrow> f (take k xs) = Inr (take k ys)"
    and aligned: "f xs = Inr ys \<Longrightarrow> length ys = length xs"
    and warmed: "f xs = Inr ys \<Longrightarrow> warm ys"
begin

text \<open>The last value on the bars seen so far is the value of the whole series at that bar.\<close>

lemma last_of_prefix:
  assumes "f xs = Inr ys" "i < length xs"
  obtains zs where "f (take (Suc i) xs) = Inr zs" "zs \<noteq> []" "last zs = ys ! i"
proof -
  have "i < length ys" using assms aligned by simp
  then have "f (take (Suc i) xs) = Inr (take i ys @ [ys ! i])"
    using prefix [OF assms(1), of "Suc i"] by (simp add: take_Suc_conv_app_nth)
  then show thesis by (rule that) simp_all
qed

lemma smoothed_prefix:
  assumes "warm line" and "smoothed f (length line) line = Inr ys"
  shows "smoothed f (length (take k line)) (take k line) = Inr (take k ys) \<and> length ys = length line"
proof -
  define w vs where "w = populated_idx line" and "vs = populated line"
  have line: "line = replicate w None @ map Some vs" unfolding w_def vs_def by (rule warm_split [OF assms(1)])
  obtain tail where tail: "(if vs \<noteq> [] then f vs else Inr []) = Inr tail" "ys = shifted (length line) w tail"
    using assms(2) [unfolded smoothed_def, folded w_def vs_def] by (auto simp only: bind_r_Inr_iff Inr_inject)
  have len: "length tail = length vs" using tail(1) aligned by (auto split: if_splits)
  then have ys: "ys = replicate w None @ tail" using tail(2) by (simp add: shifted_def line)
  have tk: "take k line = replicate (min k w) None @ map Some (take (k - w) vs)" by (simp add: line take_map)
  have "(if take (k - w) vs \<noteq> [] then f (take (k - w) vs) else Inr []) = Inr (take (k - w) tail)"
    using tail(1) prefix [of vs tail "k - w"] len by (auto split: if_splits)
  then have "smoothed f (length (take k line)) (take k line)
      = Inr (shifted (length (take k line)) (min k w) (take (k - w) tail))"
    unfolding smoothed_def tk populated_replicate by simp
  moreover have "shifted (length (take k line)) (min k w) (take (k - w) tail) = take k ys"
    by (simp add: shifted_def ys tk len)
  ultimately show ?thesis using ys len by (simp add: line)
qed

end

text \<open>What the loops have in common: nothing up to the warm-up, then one value per index.\<close>

definition warm_scan :: "nat \<Rightarrow> 's \<Rightarrow> ('s \<Rightarrow> nat \<Rightarrow> 's) \<Rightarrow> ('s \<Rightarrow> 'v) \<Rightarrow> nat \<Rightarrow> 'v option list" where
  "warm_scan w s0 step emit n =
     (if n \<le> w then replicate n None else replicate w None @ Some (emit s0) # scan step emit s0 [Suc w..<n])"

lemma length_warm_scan [simp]: "length (warm_scan w s0 step emit n) = n"
  by (simp add: warm_scan_def)

lemma warm_warm_scan: "warm (warm_scan w s0 step emit n)"
  using warm_replicate [of "[]" n] warm_replicate [of "Some (emit s0) # scan step emit s0 [Suc w..<n]" w]
  by (auto simp: warm_scan_def list_all_iff dest: scan_Some)

lemma warm_scan_prefix:
  assumes "k \<le> n" and "w < k \<Longrightarrow> s0' = s0" and "\<And>s i. w < i \<Longrightarrow> i < k \<Longrightarrow> step' s i = step s i"
  shows "warm_scan w s0' step' emit k = take k (warm_scan w s0 step emit n)"
proof (cases "k \<le> w")
  case True
  then show ?thesis using assms(1) warm_up_take(1) [OF True] by (cases "n \<le> w") (simp_all add: warm_scan_def)
next
  case False
  then show ?thesis using assms scan_prefix [of "Suc w" k step' step n emit s0]
    by (simp add: warm_scan_def Suc_le_eq take_Cons')
qed

lemma sma_form:
  shows "sma xs period = (if 0 < period then Inr (warm_scan (nat period - 1) (flt_sum (take (nat period) xs))
    (\<lambda>r i. r + (xs ! i - xs ! (i - nat period))) (\<lambda>r. r / flt_of_int period) (length xs))
    else Inl (ValueErr ''period must be positive''))"
  by (auto simp: sma_def warm_scan_def Let_def)

lemma ema_form:
  shows "ema xs period = (if 0 < period then Inr (warm_scan (nat period - 1) (flt_sum (take (nat period) xs) / flt_of_int period)
    (\<lambda>prev i. xs ! i * flt (2 / of_int (period + 1)) + prev * (1 - flt (2 / of_int (period + 1)))) (\<lambda>prev. prev) (length xs))
    else Inl (ValueErr ''period must be positive''))"
  by (auto simp: ema_def warm_scan_def Let_def)

lemma rsi_form:
  shows "rsi xs period = (if 0 < period then Inr (warm_scan (nat period)
    (fst (rsi_first xs (nat period)) / flt_of_int period, snd (rsi_first xs (nat period)) / flt_of_int period)
    (rsi_step xs period) rsi_value (length xs))
    else Inl (ValueErr ''period must be positive''))"
  by (auto simp: rsi_def warm_scan_def Let_def case_prod_beta)

lemma rsi_first_take: "p < k \<Longrightarrow> rsi_first (take k xs) p = rsi_first xs p"
  unfolding rsi_first_def by (intro foldl_cong) (auto simp: fun_eq_iff)

text \<open>A loop of this form meets the contract when its start and its steps read only the prefix.\<close>

lemma causal_seriesI:
  assumes form: "\<And>xs. f xs = (if ok then Inr (warm_scan w (start xs) (step xs) emit (length xs)) else Inl e)"
    and start: "\<And>xs k. w < k \<Longrightarrow> start (take k xs) = start xs"
    and step: "\<And>xs k s i. w < i \<Longrightarrow> i < k \<Longrightarrow> step (take k xs) s i = step xs s i"
  shows "causal_series f"
proof (unfold_locales, goal_cases)
  case (1 xs ys k)
  show ?case
  proof (cases "k \<le> length xs")
    case True
    then have "warm_scan w (start (take k xs)) (step (take k xs)) emit k = take k (warm_scan w (start xs) (step xs) emit (length xs))"
      by (intro warm_scan_prefix start step) auto
    then show ?thesis using 1 True by (auto simp: form min_def split: if_splits)
  qed (use 1 in \<open>auto simp: form split: if_splits\<close>)
qed (auto simp: form warm_warm_scan split: if_splits)

text \<open>The contract, discharged for the averages and the relative strength index at every period.\<close>

interpretation sma: causal_series "\<lambda>xs. sma xs period" for period
  by (rule causal_seriesI [OF sma_form]) (auto simp: min_def)

interpretation ema: causal_series "\<lambda>xs. ema xs period" for period
  by (rule causal_seriesI [OF ema_form]) (auto simp: min_def)

interpretation rsi: causal_series "\<lambda>xs. rsi xs period" for period
  by (rule causal_seriesI [OF rsi_form]) (auto simp: rsi_first_take rsi_step_def)

section \<open>Indicators of several series\<close>

lemma macd_prefix:
  assumes "macd xs fast slow sig = Inr m"
  shows "macd (take k xs) fast slow sig =
    Inr \<lparr>macd_line = take k (macd_line m), macd_signal = take k (macd_signal m), macd_histogram = take k (macd_histogram m)\<rparr>"
proof -
  obtain a b where a: "ema xs fast = Inr a" and b: "ema xs slow = Inr b"
    and sm: "smoothed (\<lambda>vs. ema vs sig) (length xs) (minus_series a b) = Inr (macd_signal m)"
    and m: "macd_line m = minus_series a b" "macd_histogram m = minus_series (minus_series a b) (macd_signal m)"
    using assms by (auto simp: macd_def bind_r_Inr_iff Let_def)
  have len: "length (minus_series a b) = length xs" using ema.aligned [OF a] ema.aligned [OF b] by simp
  have "warm (minus_series a b)" using ema.warmed a b by (intro warm_minus_series)
  from ema.smoothed_prefix [OF this, of sig "macd_signal m" k] sm
  have "smoothed (\<lambda>vs. ema vs sig) (length (take k xs)) (minus_series (take k a) (take k b)) = Inr (take k (macd_signal m))"
    unfolding len length_take by (simp add: take_minus_series)
  then show ?thesis
    by (simp add: macd_def ema.prefix [OF a] ema.prefix [OF b] m take_minus_series Let_def)
qed

lemma stochastic_prefix:
  assumes "stochastic highs lows closes kp dp = Inr (ks, ds)"
  shows "stochastic (take k highs) (take k lows) (take k closes) kp dp = Inr (take k ks, take k ds)"
proof -
  let ?line = "\<lambda>hs ls cs. replicate (min (kp - 1) (length cs)) None @
    map (\<lambda>i. Some (stochastic_k kp hs ls cs i)) [kp - 1..<length cs]"
  have len: "length highs = length lows" "length lows = length closes" and pos: "kp \<noteq> 0"
    and ks: "ks = ?line highs lows closes" and sm: "smoothed (\<lambda>vs. sma vs dp) (length closes) ks = Inr ds"
    using assms by (auto simp: stochastic_def Let_def bind_r_Inr_iff split: if_splits)
  have lks: "length ks = length closes" using pos by (auto simp: ks)
  have "stochastic_k kp (take k highs) (take k lows) (take k closes) i = stochastic_k kp highs lows closes i" if "i < k" for i
    using that by (simp add: stochastic_k_def window_def min_def Let_def)
  then have line: "?line (take k highs) (take k lows) (take k closes) = take k ks"
    by (auto simp: ks take_map take_upt min_def intro!: nth_equalityI)
  have "warm ks" unfolding ks by (intro warm_replicate) (simp add: list_all_iff)
  from sma.smoothed_prefix [OF this, of dp ds k] sm
  have "smoothed (\<lambda>vs. sma vs dp) (length (take k closes)) (take k ks) = Inr (take k ds)" by (simp only: lks length_take)
  then show ?thesis using len pos unfolding stochastic_def Let_def line by simp
qed

lemma atr_prefix:
  assumes "atr highs lows closes p = Inr ys"
  shows "atr (take k highs) (take k lows) (take k closes) p = Inr (take k ys)"
proof -
  let ?trs = "\<lambda>hs ls cs. map (true_range hs ls cs) [1..<length cs]"
  let ?start = "\<lambda>ts. flt_sum (take p ts) / flt_of_nat p"
  let ?step = "\<lambda>ts prev i. (prev * flt_of_nat (p - 1) + ts ! (i - 1)) / flt_of_nat p"
  have form: "atr hs ls cs p = Inr (warm_scan p (?start (?trs hs ls cs)) (?step (?trs hs ls cs)) (\<lambda>prev. prev) (length cs))"
    if "length hs = length ls" "length ls = length cs" "p \<noteq> 0 \<or> length cs = 0" for hs ls cs
    using that by (auto simp: atr_def warm_scan_def Let_def)
  have len: "length highs = length lows" "length lows = length closes" "p \<noteq> 0 \<or> length closes = 0"
    using assms by (auto simp: atr_def Let_def neq_Nil_conv split: if_splits)
  show ?thesis
  proof (cases "k \<le> length closes")
    case True
    have tr: "true_range (take k highs) (take k lows) (take k closes) i = true_range highs lows closes i" if "i < k" for i
      using that by (simp add: true_range_def)
    have trs: "?trs (take k highs) (take k lows) (take k closes) = take (k - 1) (?trs highs lows closes)"
      using True tr by (auto simp: min_def intro!: nth_equalityI)
    have "warm_scan p (?start (take (k - 1) (?trs highs lows closes))) (?step (take (k - 1) (?trs highs lows closes))) (\<lambda>prev. prev) k
      = take k (warm_scan p (?start (?trs highs lows closes)) (?step (?trs highs lows closes)) (\<lambda>prev. prev) (length closes))"
      using True by (intro warm_scan_prefix) (auto simp: min_def)
    moreover have "atr (take k highs) (take k lows) (take k closes) p = Inr (warm_scan p (?start (take (k - 1) (?trs highs lows closes)))
        (?step (take (k - 1) (?trs highs lows closes))) (\<lambda>prev. prev) (length (take k closes)))"
      unfolding trs [symmetric] using len by (intro form) auto
    ultimately show ?thesis using assms form [OF len] True by (simp add: min_absorb2)
  qed (use assms len in \<open>auto simp: form\<close>)
qed

lemma obv_prefix:
  assumes "obv closes volumes = Inr ys"
  shows "obv (take k closes) (take k volumes) = Inr (take k ys)"
proof -
  let ?step = "\<lambda>cs vs running i. if cs ! (i - 1) < cs ! i then running + vs ! i
    else if cs ! i < cs ! (i - 1) then running - vs ! i else running"
  have form: "obv cs vs = Inr (warm_scan 0 0 (?step cs vs) (\<lambda>running. running) (length cs))" if "length cs = length vs" for cs vs
    using that by (auto simp: obv_def warm_scan_def)
  have len: "length closes = length volumes" using assms by (simp add: obv_def split: if_splits)
  show ?thesis
  proof (cases "k \<le> length closes")
    case True
    have "warm_scan 0 0 (?step (take k closes) (take k volumes)) (\<lambda>running. running) k
      = take k (warm_scan 0 0 (?step closes volumes) (\<lambda>running. running) (length closes))"
      using True by (intro warm_scan_prefix) auto
    moreover have "obv (take k closes) (take k volumes) =
        Inr (warm_scan 0 0 (?step (take k closes) (take k volumes)) (\<lambda>running. running) (length (take k closes)))"
      using len by (intro form) simp
    ultimately show ?thesis using assms form [OF len] True by (simp add: min_absorb2)
  qed (use assms len in \<open>auto simp: form\<close>)
qed

lemma bollinger_aligned:
  assumes "bollinger_bands lm xs period num_std = Inr b"
  shows "length (upper_band b) = length xs" "length (middle_band b) = length xs" "length (lower_band b) = length xs"
  using assms by (auto simp: bollinger_bands_def Let_def bind_r_Inr_iff sma.aligned dest: length_collect_r)

lemma bollinger_prefix:
  assumes "bollinger_bands lm xs period num_std = Inr b"
  shows "bollinger_bands lm (take k xs) period num_std =
    Inr \<lparr>upper_band = take k (upper_band b), middle_band = take k (middle_band b), lower_band = take k (lower_band b)\<rparr>"
proof (cases "k \<le> length xs")
  case True
  let ?ixs = "\<lambda>n. [nat period - 1..<n]" and ?pad = "\<lambda>n. replicate (min (nat period - 1) n) None"
  let ?stds = "\<lambda>cs mid. map (\<lambda>i. band_std lm cs period (the (mid ! i)) i) (?ixs (length cs))"
  obtain mid stds where mid: "sma xs period = Inr mid" and stds: "collect_r (?stds xs mid) = Inr stds"
    and b: "upper_band b = ?pad (length xs) @ map2 (\<lambda>i std. Some (the (mid ! i) + num_std * std)) (?ixs (length xs)) stds"
      "middle_band b = mid"
      "lower_band b = ?pad (length xs) @ map2 (\<lambda>i std. Some (the (mid ! i) - num_std * std)) (?ixs (length xs)) stds"
    using assms by (auto simp: bollinger_bands_def Let_def bind_r_Inr_iff)
  have std: "band_std lm (take k xs) period m i = band_std lm xs period m i" if "i < k" for m i
    using that by (simp add: band_std_def window_def min_def)
  have ixs: "take (k - (nat period - 1)) (?ixs (length xs)) = ?ixs k"
    using True by (cases "nat period - 1 \<le> k") (simp_all add: take_upt)
  have "?stds (take k xs) (take k mid) = take (k - (nat period - 1)) (?stds xs mid)"
    unfolding take_map ixs using True std by (auto simp: min_absorb2)
  then have col: "collect_r (?stds (take k xs) (take k mid)) = Inr (take (k - (nat period - 1)) stds)"
    using collect_r_prefix [OF stds] by simp
  have zipped: "take k (?pad (length xs) @ map2 (\<lambda>i std. Some (g i std)) (?ixs (length xs)) stds)
      = ?pad k @ map2 (\<lambda>i std. Some (g i std)) (?ixs k) (take (k - (nat period - 1)) stds)" for g
    unfolding take_append take_map take_zip using True by (simp add: ixs [simplified] min_def)
  have nth: "map2 (\<lambda>i std. Some (g (take k mid ! i) std)) (?ixs k) us = map2 (\<lambda>i std. Some (g (mid ! i) std)) (?ixs k) us" for g :: "flt option \<Rightarrow> flt \<Rightarrow> flt" and us
    by (auto dest: set_zip_leftD)
  have len: "length (take k xs) = k" using True by simp
  show ?thesis
    unfolding bollinger_bands_def Let_def sma.prefix [OF mid] len col [unfolded len] bind_r_simps b zipped
      nth [of "\<lambda>m std. the m + num_std * std"] nth [of "\<lambda>m std. the m - num_std * std"] by (rule refl)
qed (use assms bollinger_aligned [OF assms] in simp)

section \<open>Bounds of the relative strength index\<close>

lemma flt_nonneg:
  "0 \<le> a \<Longrightarrow> 0 \<le> b \<Longrightarrow> 0 \<le> a + b" "0 \<le> a \<Longrightarrow> 0 \<le> b \<Longrightarrow> 0 \<le> a * b" "0 \<le> a \<Longrightarrow> 0 \<le> b \<Longrightarrow> 0 \<le> a / b"
  "0 \<le> a \<Longrightarrow> b \<le> 0 \<Longrightarrow> 0 \<le> a - b" "0 \<le> n \<Longrightarrow> 0 \<le> flt_of_int n" for a b :: flt
  by (simp_all add: flt_le_iff flt_of_int_def flt_def flt_r.nonneg)

lemma scan_all:
  assumes "Some y \<in> set (scan step emit s js)" and "Q s" and "\<And>s i. Q s \<Longrightarrow> Q (step s i)"
  shows "\<exists>s. Q s \<and> y = emit s"
  using assms(1,2)
proof (induction js arbitrary: s)
  case (Cons i js)
  then show ?case using assms(3) by (auto simp: Let_def)
qed simp

definition averages_ok :: "flt \<times> flt \<Rightarrow> bool" where
  "averages_ok a \<longleftrightarrow> 0 \<le> fst a \<and> 0 \<le> snd a"

lemma rsi_first_ok: "averages_ok (rsi_first xs p)"
proof -
  have "averages_ok (foldl (\<lambda>(gains, losses) i.
      let delta = xs ! i - xs ! (i - 1) in if 0 \<le> delta then (gains + delta, losses) else (gains, losses - delta)) a js)"
    if "averages_ok a" for a js
    using that by (induction js arbitrary: a) (auto simp: averages_ok_def Let_def flt_nonneg)
  then show ?thesis by (simp add: rsi_first_def averages_ok_def)
qed

lemma rsi_step_ok: "0 < period \<Longrightarrow> averages_ok a \<Longrightarrow> averages_ok (rsi_step xs period a i)"
  by (auto simp: averages_ok_def rsi_step_def Let_def case_prod_beta intro!: flt_nonneg)

lemma rsi_value_bounds:
  assumes "averages_ok a"
  shows "0 \<le> rsi_value a \<and> rsi_value a \<le> Flt 100"
proof (cases "snd a = 0")
  case False
  define q x where "q = 1 + fst a / snd a" and "x = flt 100 / q"
  have hundred: "fl64 100 = 100" using flt_r.exact_int [of 100] by simp
  have one: "fl64 1 = 1" using flt_r.exact_int [of 1] by simp
  have ratio: "0 \<le> fval (fst a / snd a)" using assms flt_nonneg(3) [of "fst a" "snd a"] by (simp add: averages_ok_def flt_le_iff)
  have q: "1 \<le> fval q" using flt_r.ge_fixed [OF one, of "1 + fval (fst a / snd a)"] ratio by (simp add: q_def)
  have "0 \<le> 100 / fval q" "100 / fval q \<le> 100" using q by (simp_all add: field_simps)
  then have "0 \<le> fl64 (100 / fval q)" "fl64 (100 / fval q) \<le> 100" using flt_r.nonneg flt_r.le_fixed [OF hundred] by blast+
  then have "0 \<le> fval x" "fval x \<le> 100" by (simp_all add: x_def flt_def hundred)
  then have "0 \<le> fl64 (100 - fval x)" "fl64 (100 - fval x) \<le> 100" by (auto intro!: flt_r.nonneg flt_r.le_fixed [OF hundred])
  then show ?thesis using False by (simp add: rsi_value_def case_prod_beta q_def [symmetric] x_def [symmetric] flt_le_iff) (simp add: flt_def hundred)
next
  case True
  have "fl64 100 = 100" using flt_r.exact_int [of 100] by simp
  then show ?thesis using True by (simp add: rsi_value_def case_prod_beta flt_le_iff flt_def)
qed

section \<open>Properties\<close>

lemma warm_scan_nth_None: "i < n \<Longrightarrow> warm_scan w s0 step emit n ! i = None \<longleftrightarrow> i < w"
  using scan_Some [of _ step emit s0 "[Suc w..<n]"]
  by (auto simp: warm_scan_def nth_append nth_Cons' not_le simp del: scan.simps)

text \<open>
  The indicators are causal. Computed on the first \<open>k\<close> days, every indicator is the first \<open>k\<close> values
  of the indicator computed on the whole history, bit for bit: later prices never change a value
  already shown, and a strategy that recomputes on the days it has seen reads the plotted value.
\<close>

lemma indicators_causal:
  assumes "sma xs p = Inr s" "ema xs p = Inr e" "rsi xs p = Inr r" "macd xs fast slow sig = Inr m"
    "bollinger_bands lm xs p num_std = Inr b" "stochastic hs ls xs kp dp = Inr (ks, ds)"
    "atr hs ls xs kp = Inr a" "obv xs vs = Inr v"
  shows "sma (take k xs) p = Inr (take k s) \<and> ema (take k xs) p = Inr (take k e) \<and> rsi (take k xs) p = Inr (take k r)
    \<and> macd (take k xs) fast slow sig = Inr \<lparr>macd_line = take k (macd_line m), macd_signal = take k (macd_signal m),
        macd_histogram = take k (macd_histogram m)\<rparr>
    \<and> bollinger_bands lm (take k xs) p num_std = Inr \<lparr>upper_band = take k (upper_band b),
        middle_band = take k (middle_band b), lower_band = take k (lower_band b)\<rparr>
    \<and> stochastic (take k hs) (take k ls) (take k xs) kp dp = Inr (take k ks, take k ds)
    \<and> atr (take k hs) (take k ls) (take k xs) kp = Inr (take k a) \<and> obv (take k xs) (take k vs) = Inr (take k v)"
  using assms
  by (simp only: sma.prefix ema.prefix rsi.prefix macd_prefix bollinger_prefix stochastic_prefix atr_prefix obv_prefix simp_thms)

text \<open>
  The relative strength index has a value exactly from the end of its warm-up on, one per day, and
  in float arithmetic too every value is between 0 and 100.
\<close>

lemma rsi_bounds:
  assumes "rsi xs period = Inr ys"
  shows "length ys = length xs \<and> (\<forall>i < length xs. ys ! i = None \<longleftrightarrow> i < nat period)
    \<and> (\<forall>v. Some v \<in> set ys \<longrightarrow> 0 \<le> v \<and> v \<le> Flt 100)"
proof -
  have pos: "0 < period" using assms by (auto simp: rsi_form split: if_splits)
  define a0 where "a0 = (fst (rsi_first xs (nat period)) / flt_of_int period, snd (rsi_first xs (nat period)) / flt_of_int period)"
  have ys: "ys = warm_scan (nat period) a0 (rsi_step xs period) rsi_value (length xs)"
    using assms pos by (simp add: rsi_form a0_def)
  have a0: "averages_ok a0" using rsi_first_ok [of xs "nat period"] pos by (simp add: a0_def averages_ok_def flt_nonneg)
  have "0 \<le> v \<and> v \<le> Flt 100" if v: "Some v \<in> set ys" for v
  proof -
    have "v = rsi_value a0 \<or> Some v \<in> set (scan (rsi_step xs period) rsi_value a0 [Suc (nat period)..<length xs])"
      using v by (auto simp: ys warm_scan_def split: if_splits)
    then obtain a where "averages_ok a" "v = rsi_value a"
      using a0 scan_all [of v _ rsi_value a0 _ averages_ok] rsi_step_ok [OF pos] by metis
    then show ?thesis using rsi_value_bounds by simp
  qed
  then show ?thesis by (simp add: ys warm_scan_nth_None)
qed

end
