(* ===== verification/Json.thy ===== *)
theory Json
  imports Complex_Main
begin

text \<open>
  A parsed JSON value, for the request bodies the code takes as plain dictionaries. An object is
  the list of its members; \<open>json_get\<close> is \<^verbatim>\<open>d.get(k)\<close>.
\<close>

datatype json = JNull | JBool bool | JNum rat | JStr string | JList "json list" | JObj "(string \<times> json) list"

definition json_get :: "string \<Rightarrow> (string \<times> json) list \<Rightarrow> json option" where
  "json_get k d = map_of d k"

end
