(* ===== verification/Py_Conv.thy ===== *)
theory Py_Conv
  imports Json Py_Base
begin

text \<open>
  The conversions \<^verbatim>\<open>int(x)\<close> and \<^verbatim>\<open>float(x)\<close> of a parsed JSON value: \<^verbatim>\<open>TypeError\<close> on \<^verbatim>\<open>None\<close>, lists and
  objects, \<^verbatim>\<open>ValueError\<close> on a string that is no number. Digits are ASCII. The literals of infinity and
  NaN are refused, since the floats of the model are finite.
\<close>

datatype conv_error = NotANumber | NotConvertible

text \<open>Digits with single underscores between them.\<close>

definition digits_us :: "string \<Rightarrow> int option" where
  "digits_us s =
     (if s = [] \<or> hd s = CHR ''_'' \<or> last s = CHR ''_'' \<or> contains_str ''__'' s then None
      else digits_val (filter (\<lambda>c. c \<noteq> CHR ''_'') s))"

text \<open>An optional sign in front of a literal.\<close>

definition signed :: "(string \<Rightarrow> rat option) \<Rightarrow> string \<Rightarrow> rat option" where
  "signed f s =
     (case s of
        c # r \<Rightarrow> if c = CHR ''-'' then map_option uminus (f r) else if c = CHR ''+'' then f r else f s
      | [] \<Rightarrow> f s)"

definition int_literal :: "string \<Rightarrow> rat option" where
  "int_literal s = signed (\<lambda>r. map_option of_int (digits_us r)) s"

definition mantissa :: "string \<Rightarrow> rat option" where
  "mantissa s =
     (let ip = takeWhile (\<lambda>c. c \<noteq> CHR ''.'') s; fp = drop 1 (dropWhile (\<lambda>c. c \<noteq> CHR ''.'') s);
          digits = (\<lambda>d. if d = [] then Some 0 else digits_us d); n = length (filter is_digit fp)
      in if ip = [] \<and> fp = [] then None
         else Option.bind (digits ip) (\<lambda>a. Option.bind (digits fp) (\<lambda>b. Some (of_int a + of_int b / 10 ^ n))))"

definition float_literal :: "string \<Rightarrow> rat option" where
  "float_literal s =
     signed (\<lambda>r.
       let is_e = (\<lambda>c. c = CHR ''e'' \<or> c = CHR ''E'');
           m = takeWhile (\<lambda>c. \<not> is_e c) r; ex = dropWhile (\<lambda>c. \<not> is_e c) r
       in Option.bind (mantissa m) (\<lambda>q.
            if ex = [] then Some q
            else Option.bind (int_literal (tl ex)) (\<lambda>k. Some (q * 10 powi \<lfloor>k\<rfloor>)))) s"

definition truncate_rat :: "rat \<Rightarrow> int" where
  "truncate_rat q = (if 0 \<le> q then \<lfloor>q\<rfloor> else \<lceil>q\<rceil>)"

definition py_int :: "json \<Rightarrow> conv_error + int" where
  "py_int v =
     (case v of
        JNum q \<Rightarrow> Inr (truncate_rat q)
      | JBool b \<Rightarrow> Inr (if b then 1 else 0)
      | JStr s \<Rightarrow> (case int_literal (py_strip s) of Some q \<Rightarrow> Inr \<lfloor>q\<rfloor> | None \<Rightarrow> Inl NotANumber)
      | _ \<Rightarrow> Inl NotConvertible)"

definition py_float :: "json \<Rightarrow> conv_error + flt" where
  "py_float v =
     (case v of
        JNum q \<Rightarrow> Inr (flt q)
      | JBool b \<Rightarrow> Inr (if b then 1 else 0)
      | JStr s \<Rightarrow> (case float_literal (py_strip s) of Some q \<Rightarrow> Inr (flt q) | None \<Rightarrow> Inl NotANumber)
      | _ \<Rightarrow> Inl NotConvertible)"

lemma int_float_agree: "py_int (JNum (of_int n)) = Inr n" "py_float (JNum (of_int n)) = Inr (flt_of_int n)"
  by (simp_all add: py_int_def py_float_def truncate_rat_def flt_of_int_def)

section \<open>What is printed parses back\<close>

definition digits_num :: "string \<Rightarrow> int" where
  "digits_num s = foldl (\<lambda>n c. 10 * n + (of_char c - 48)) 0 s"

lemma digit_char: "d < 10 \<Longrightarrow> is_digit (digit_char d)" "d < 10 \<Longrightarrow> of_char (digit_char d) = (48 + int d)"
proof -
  assume d: "d < 10"
  then have code: "(of_char (digit_char d) :: nat) = 48 + d" by (simp add: digit_char_def)
  then have "int (of_char (digit_char d)) = 48 + int d" by simp
  then show "of_char (digit_char d) = (48 + int d)" by (simp only: of_nat_of_char)
  show "is_digit (digit_char d)" using d by (simp add: is_digit_def less_eq_char_def code)
qed

lemma str_of_nat_digits: "str_of_nat n \<noteq> [] \<and> list_all is_digit (str_of_nat n) \<and> digits_num (str_of_nat n) = int n"
proof (induction n rule: str_of_nat.induct)
  case (1 n)
  show ?case
  proof (cases "n < 10")
    case True
    then show ?thesis by (simp add: str_of_nat.simps [of n] digit_char digits_num_def)
  next
    case False
    have "n mod 10 < 10" by simp
    then show ?thesis using False 1 digit_char [of "n mod 10"]
      by (simp add: str_of_nat.simps [of n] digits_num_def zmod_int zdiv_int)
  qed
qed

lemma digits_us_digits: "s \<noteq> [] \<Longrightarrow> list_all is_digit s \<Longrightarrow> digits_us s = Some (digits_num s)"
proof -
  assume s: "s \<noteq> []" "list_all is_digit s"
  have us: "CHR ''_'' \<notin> set s" using s(2) by (auto simp: list_all_iff is_digit_def less_eq_char_def)
  then have "\<not> contains_str ''__'' s" by (auto simp: contains_str_iff)
  moreover have "hd s \<noteq> CHR ''_''" "last s \<noteq> CHR ''_''" using us s(1) by (metis hd_in_set, metis last_in_set)
  moreover have "filter (\<lambda>c. c \<noteq> CHR ''_'') s = s" using us by (auto intro!: filter_True)
  ultimately show ?thesis using s by (simp add: digits_us_def digits_val_def digits_num_def)
qed

lemma not_special: "is_digit c \<Longrightarrow> \<not> is_space c \<and> c \<noteq> CHR ''-'' \<and> c \<noteq> CHR ''+'' \<and> c \<noteq> CHR ''.'' \<and> c \<noteq> CHR ''e'' \<and> c \<noteq> CHR ''E'' \<and> c \<noteq> CHR ''_''"
  by (auto simp: is_digit_def is_space_def less_eq_char_def)

lemma py_strip_id: "list_all (\<lambda>c. \<not> is_space c) s \<Longrightarrow> py_strip s = s"
proof -
  assume "list_all (\<lambda>c. \<not> is_space c) s"
  then have "dropWhile is_space t = t" if "set t \<subseteq> set s" for t using that by (cases t) (auto simp: list_all_iff)
  from this [of s] this [of "rev s"] show ?thesis by (simp add: py_strip_def py_lstrip_def)
qed

lemma signed_digits: "s \<noteq> [] \<Longrightarrow> is_digit (hd s) \<Longrightarrow> signed f s = f s"
  using not_special [of "hd s"] by (cases s) (auto simp: signed_def)

lemma int_literal_str: "int_literal (str_of_int n) = Some (of_int n)" and strip_str_of_int: "py_strip (str_of_int n) = str_of_int n"
proof -
  note d = str_of_nat_digits
  have hd: "is_digit (hd (str_of_nat k))" for k using d [of k] by (cases "str_of_nat k") auto
  have "digits_us (str_of_nat k) = Some (int k)" for k using d [of k] by (simp add: digits_us_digits)
  then show "int_literal (str_of_int n) = Some (of_int n)"
    using d [of "nat n"] hd [of "nat n"] by (auto simp: int_literal_def str_of_int_def signed_digits) (auto simp: signed_def)
  have "list_all (\<lambda>c. \<not> is_space c) (str_of_nat k)" for k using d [of k] by (auto simp: list_all_iff dest: not_special)
  moreover have "\<not> is_space (CHR ''-'')" by (simp add: is_space_def)
  ultimately show "py_strip (str_of_int n) = str_of_int n" by (intro py_strip_id) (simp add: str_of_int_def)
qed

text \<open>A decimal literal: digits, a point and digits.\<close>

lemma float_literal_point:
  assumes "a \<noteq> []" "list_all is_digit a" "b \<noteq> []" "list_all is_digit b"
  shows "float_literal (a @ ''.'' @ b) = Some (of_int (digits_num a) + of_int (digits_num b) / 10 ^ length b)"
proof -
  have plain: "\<And>c. c \<in> set (a @ ''.'' @ b) \<Longrightarrow> \<not> (c = CHR ''e'' \<or> c = CHR ''E'')"
    using assms(2,4) by (auto simp: list_all_iff dest: not_special)
  have tw: "takeWhile (\<lambda>c. \<not> (c = CHR ''e'' \<or> c = CHR ''E'')) (a @ ''.'' @ b) = a @ ''.'' @ b"
    "dropWhile (\<lambda>c. \<not> (c = CHR ''e'' \<or> c = CHR ''E'')) (a @ ''.'' @ b) = []"
    using plain by (intro takeWhile_eq_all_conv [THEN iffD2] dropWhile_eq_Nil_conv [THEN iffD2] ballI; simp)+
  have pt: "\<forall>c\<in>set a. c \<noteq> CHR ''.''" using assms(2) by (auto simp: list_all_iff dest: not_special)
  then have "takeWhile (\<lambda>c. c \<noteq> CHR ''.'') (a @ ''.'' @ b) = a" "dropWhile (\<lambda>c. c \<noteq> CHR ''.'') (a @ ''.'' @ b) = ''.'' @ b"
    by (simp_all add: takeWhile_append2 dropWhile_append2)
  moreover have "filter is_digit b = b" using assms(4) by (simp add: list_all_iff filter_id_conv)
  ultimately have "mantissa (a @ ''.'' @ b) = Some (of_int (digits_num a) + of_int (digits_num b) / 10 ^ length b)"
    using assms by (simp add: mantissa_def Let_def digits_us_digits)
  moreover have "is_digit (hd (a @ ''.'' @ b))" using assms(1,2) by (cases a) auto
  ultimately show ?thesis using assms(1) unfolding float_literal_def Let_def
    by (subst signed_digits) (simp_all only: tw, simp_all)
qed

lemma digits_num_zeros: "digits_num (replicate m (CHR ''0'') @ s) = digits_num s"
proof -
  have "foldl (\<lambda>n c. 10 * n + (of_char c - 48)) 0 (replicate m (CHR ''0'')) = (0 :: int)" by (induction m) simp_all
  then show ?thesis by (simp add: digits_num_def)
qed

lemma length_str_of_nat_100: "n < 100 \<Longrightarrow> length (str_of_nat n) \<le> 2"
proof -
  assume "n < 100"
  then have "n div 10 < 10" by simp
  then show ?thesis by (simp add: str_of_nat.simps [of n] str_of_nat.simps [of "n div 10"])
qed

lemma plain_digits: "list_all is_digit s \<Longrightarrow> list_all (\<lambda>c. \<not> is_space c \<and> c \<noteq> CHR ''_'') s"
  using not_special by (induction s) simp_all

lemma fmt_fixed_literal:
  assumes "0 \<le> q" "places 2 q"
  shows "float_literal (fmt_fixed 2 (Flt q)) = Some q \<and> list_all (\<lambda>c. \<not> is_space c \<and> c \<noteq> CHR ''_'') (fmt_fixed 2 (Flt q))
    \<and> fmt_fixed 2 (Flt q) \<noteq> []"
proof -
  obtain j where j: "q * 100 = of_int j" using assms(2) by (auto simp: places_def elim: Ints_cases)
  then have j0: "0 \<le> j" using assms(1) by (metis mult_nonneg_nonneg of_int_0_le_iff zero_le_numeral)
  define k where "k = nat j"
  have k: "q = of_nat k / 100" using j j0 by (simp add: k_def field_simps)
  define a b where "a = str_of_nat (k div 100)" and "b = replicate (2 - length (str_of_nat (k mod 100))) (CHR ''0'') @ str_of_nat (k mod 100)"
  have "nat (round_half_even (\<bar>q\<bar> * 100)) = k" using j j0 assms(1) by (simp add: k_def)
  then have fmt: "fmt_fixed 2 (Flt q) = a @ ''.'' @ b" using assms(1) by (simp add: fmt_fixed_def Let_def a_def b_def)
  have a: "a \<noteq> []" "list_all is_digit a" "digits_num a = int (k div 100)" using str_of_nat_digits unfolding a_def by blast+
  have b: "b \<noteq> []" "list_all is_digit b" "digits_num b = int (k mod 100)" "length b = 2"
    using str_of_nat_digits [of "k mod 100"] length_str_of_nat_100 [of "k mod 100"]
    by (auto simp: b_def digits_num_zeros list_all_iff is_digit_def less_eq_char_def)
  have "(of_nat k :: rat) = 100 * of_nat (k div 100) + of_nat (k mod 100)"
    by (metis mult_div_mod_eq of_nat_add of_nat_mult of_nat_numeral)
  then have "of_nat (k div 100) + of_nat (k mod 100) / 100 = q" by (simp add: k)
  then have "float_literal (fmt_fixed 2 (Flt q)) = Some q"
    unfolding fmt using float_literal_point [OF a(1,2) b(1,2)] by (simp add: a(3) b(3,4))
  moreover have "list_all (\<lambda>c. \<not> is_space c \<and> c \<noteq> CHR ''_'') (a @ ''.'' @ b)"
    using plain_digits [OF a(2)] plain_digits [OF b(2)] by (simp add: is_space_def)
  ultimately show ?thesis using a(1) by (simp add: fmt)
qed

end
