(* ===== verification/Strategies.thy ===== *)
theory Strategies
  imports Indicators Py_Conv
begin

text \<open>
  The preset strategies \<^verbatim>\<open>psx_api/backtest/strategies.py\<close>. A strategy returns a decision for the bar it
  has reached; the state it keeps is the flag \<^verbatim>\<open>state["long"]\<close> of the two that may have no opinion.
  Parameters are parsed JSON merged into the defaults of the registry.
\<close>

type_synonym params = "(string \<times> json) list"

section \<open>Parameters\<close>

definition merge_params :: "params \<Rightarrow> params \<Rightarrow> params" where
  "merge_params d p =
     map (\<lambda>(k, v). (k, case map_of p k of Some w \<Rightarrow> w | None \<Rightarrow> v)) d @ filter (\<lambda>(k, v). map_of d k = None) p"

definition conv :: "conv_error + 'a \<Rightarrow> backtest_error + 'a" where
  "conv r = (case r of Inl NotANumber \<Rightarrow> Inl (ValueErr ''invalid literal'') | Inl NotConvertible \<Rightarrow> Inl TypeErr | Inr x \<Rightarrow> Inr x)"

definition int_param :: "params \<Rightarrow> string \<Rightarrow> backtest_error + int" where
  "int_param p k = (case map_of p k of None \<Rightarrow> Inl (KeyErr k) | Some v \<Rightarrow> conv (py_int v))"

definition float_param :: "params \<Rightarrow> string \<Rightarrow> backtest_error + flt" where
  "float_param p k = (case map_of p k of None \<Rightarrow> Inl (KeyErr k) | Some v \<Rightarrow> conv (py_float v))"

section \<open>Strategies\<close>

definition closes_of :: "Bar list \<Rightarrow> flt list" where
  "closes_of bars = map b_adjusted_close bars"

text \<open>\<^verbatim>\<open>series[-1]\<close>.\<close>

definition last_value :: "backtest_error + series \<Rightarrow> backtest_error + flt option" where
  "last_value r = bind_r r (\<lambda>xs. if xs = [] then Inl IndexErr else Inr (last xs))"

definition target_of :: "decision \<Rightarrow> int" where
  "target_of d = (case d of Target t \<Rightarrow> t | TargetReason t _ \<Rightarrow> t)"

definition cross_text :: "string \<Rightarrow> string \<Rightarrow> int \<Rightarrow> flt \<Rightarrow> int \<Rightarrow> flt \<Rightarrow> string" where
  "cross_text name side fast fast_now slow slow_now =
     name @ '' cross: SMA-'' @ str_of_int fast @ '' ('' @ fmt_fixed 1 fast_now @ '') crossed '' @ side
     @ '' SMA-'' @ str_of_int slow @ '' ('' @ fmt_fixed 1 slow_now @ '')''"

definition sma_crossover :: "int \<Rightarrow> int \<Rightarrow> bool strategy_fn" where
  "sma_crossover fast slow st bars i =
     (let closes = closes_of (take (i + 1) bars)
      in if int (length closes) < slow + 1 then Inr (Target 0, st)
         else bind_r (last_value (sma closes fast)) (\<lambda>fast_now.
              bind_r (last_value (sma closes slow)) (\<lambda>slow_now.
              bind_r (last_value (sma (butlast closes) fast)) (\<lambda>fast_prev.
              bind_r (last_value (sma (butlast closes) slow)) (\<lambda>slow_prev.
                Inr (case (fast_now, slow_now, fast_prev, slow_prev) of
                       (Some fn, Some sn, Some fp, Some sp) \<Rightarrow>
                         if sn < fn
                         then (if fp \<le> sp then TargetReason 1 (cross_text ''Golden'' ''above'' fast fn slow sn)
                               else TargetReason 1 [])
                         else if sp \<le> fp then TargetReason 0 (cross_text ''Death'' ''below'' fast fn slow sn)
                         else TargetReason 0 []
                     | _ \<Rightarrow> Target 0, st))))))"

definition sma_crossover_factory :: "params \<Rightarrow> backtest_error + bool strategy_fn" where
  "sma_crossover_factory p =
     bind_r (int_param p ''fast_period'') (\<lambda>fast. bind_r (int_param p ''slow_period'') (\<lambda>slow. Inr (sma_crossover fast slow)))"

text \<open>The wrapper that turns no opinion into holding the current state.\<close>

definition stateful :: "(Bar list \<Rightarrow> nat \<Rightarrow> backtest_error + decision option) \<Rightarrow> bool strategy_fn" where
  "stateful strategy long bars i =
     bind_r (strategy bars i) (\<lambda>d. case d of
         None \<Rightarrow> Inr (Target (if long then 1 else 0), long)
       | Some decision \<Rightarrow> Inr (decision, target_of decision = 1))"

definition rsi_oversold :: "int \<Rightarrow> flt \<Rightarrow> flt \<Rightarrow> Bar list \<Rightarrow> nat \<Rightarrow> backtest_error + decision option" where
  "rsi_oversold period oversold overbought bars i =
     (let closes = closes_of (take (i + 1) bars)
      in if int (length closes) < period + 2 then Inr (Some (Target 0))
         else bind_r (last_value (rsi closes period)) (\<lambda>rsi_now. Inr (case rsi_now of
                None \<Rightarrow> Some (Target 0)
              | Some v \<Rightarrow>
                  if v < oversold
                  then Some (TargetReason 1 (''RSI '' @ fmt_fixed 1 v @ '' below '' @ fmt_fixed 0 oversold @ '' '' @ em_dash @ '' oversold buy signal''))
                  else if overbought < v
                  then Some (TargetReason 0 (''RSI '' @ fmt_fixed 1 v @ '' above '' @ fmt_fixed 0 overbought @ '' '' @ em_dash @ '' overbought, exit''))
                  else None)))"

definition rsi_oversold_factory :: "params \<Rightarrow> backtest_error + bool strategy_fn" where
  "rsi_oversold_factory p =
     bind_r (int_param p ''period'') (\<lambda>period. bind_r (float_param p ''oversold'') (\<lambda>oversold.
     bind_r (float_param p ''overbought'') (\<lambda>overbought. Inr (stateful (rsi_oversold period oversold overbought)))))"

definition macd_text :: "string \<Rightarrow> string \<Rightarrow> flt \<Rightarrow> flt \<Rightarrow> string" where
  "macd_text side mood macd_now sig_now =
     ''MACD ('' @ fmt_fixed 2 macd_now @ '') '' @ side @ '' signal ('' @ fmt_fixed 2 sig_now @ '') '' @ em_dash @ '' momentum '' @ mood"

definition macd_cross :: "int \<Rightarrow> int \<Rightarrow> int \<Rightarrow> bool strategy_fn" where
  "macd_cross fast slow signal_period st bars i =
     (let closes = closes_of (take (i + 1) bars)
      in if int (length closes) < slow + signal_period + 5 then Inr (Target 0, st)
         else bind_r (macd closes fast slow signal_period) (\<lambda>d.
              bind_r (last_value (Inr (macd_line d))) (\<lambda>macd_now.
              bind_r (last_value (Inr (macd_signal d))) (\<lambda>sig_now.
                Inr (case (macd_now, sig_now) of
                       (Some m, Some s) \<Rightarrow> if s < m then TargetReason 1 (macd_text ''above'' ''bullish'' m s)
                                          else TargetReason 0 (macd_text ''below'' ''bearish'' m s)
                     | _ \<Rightarrow> Target 0, st)))))"

definition macd_signal_factory :: "params \<Rightarrow> backtest_error + bool strategy_fn" where
  "macd_signal_factory p =
     bind_r (int_param p ''fast'') (\<lambda>fast. bind_r (int_param p ''slow'') (\<lambda>slow.
     bind_r (int_param p ''signal'') (\<lambda>signal_period. Inr (macd_cross fast slow signal_period))))"

definition bollinger_revert :: "libm \<Rightarrow> int \<Rightarrow> flt \<Rightarrow> Bar list \<Rightarrow> nat \<Rightarrow> backtest_error + decision option" where
  "bollinger_revert lm period num_std bars i =
     (let closes = closes_of (take (i + 1) bars)
      in if int (length closes) < period + 1 then Inr (Some (Target 0))
         else bind_r (bollinger_bands lm closes period num_std) (\<lambda>d.
              bind_r (last_value (Inr (upper_band d))) (\<lambda>upper.
              bind_r (last_value (Inr (middle_band d))) (\<lambda>middle.
              bind_r (last_value (Inr (lower_band d))) (\<lambda>lower.
                Inr (case (upper, middle, lower) of
                       (Some u, Some m, Some l) \<Rightarrow>
                         let price = last closes
                         in if price \<le> l
                            then Some (TargetReason 1 (''Price ('' @ fmt_fixed 1 price @ '') at/below lower band ('' @ fmt_fixed 1 l @ '') ''
                                   @ em_dash @ '' mean-revert long''))
                            else if m \<le> price
                            then Some (TargetReason 0 (''Price ('' @ fmt_fixed 1 price @ '') reverted to middle band ('' @ fmt_fixed 1 m @ '') ''
                                   @ em_dash @ '' exit''))
                            else None
                     | _ \<Rightarrow> Some (Target 0)))))))"

definition bollinger_revert_factory :: "libm \<Rightarrow> params \<Rightarrow> backtest_error + bool strategy_fn" where
  "bollinger_revert_factory lm p =
     bind_r (int_param p ''period'') (\<lambda>period. bind_r (float_param p ''num_std'') (\<lambda>num_std.
       Inr (stateful (bollinger_revert lm period num_std))))"

definition buy_and_hold :: "bool strategy_fn" where
  "buy_and_hold st bars i =
     Inr (if i = 0 \<or> length bars < 2 then Target 0 else TargetReason 1 ''Buy and hold benchmark'', st)"

definition buy_and_hold_factory :: "params \<Rightarrow> backtest_error + bool strategy_fn" where
  "buy_and_hold_factory p = Inr buy_and_hold"

section \<open>Registry\<close>

record strategy_entry =
  se_label :: string
  se_default_params :: params
  se_factory :: "params \<Rightarrow> backtest_error + bool strategy_fn"

definition REGISTRY :: "libm \<Rightarrow> (string \<times> strategy_entry) list" where
  "REGISTRY lm =
    [(''sma_crossover'', \<lparr>se_label = ''SMA Crossover (50/200)'',
        se_default_params = [(''fast_period'', JNum 50), (''slow_period'', JNum 200)], se_factory = sma_crossover_factory\<rparr>),
     (''rsi_oversold'', \<lparr>se_label = ''RSI Oversold/Overbought (30/70)'',
        se_default_params = [(''period'', JNum 14), (''oversold'', JNum 30), (''overbought'', JNum 70)],
        se_factory = rsi_oversold_factory\<rparr>),
     (''macd_signal'', \<lparr>se_label = ''MACD Signal-Line Cross'',
        se_default_params = [(''fast'', JNum 12), (''slow'', JNum 26), (''signal'', JNum 9)],
        se_factory = macd_signal_factory\<rparr>),
     (''bollinger_revert'', \<lparr>se_label = ''Bollinger Band Mean Reversion (20, 2'' @ [CHR 0xCF, CHR 0x83] @ '')'',
        se_default_params = [(''period'', JNum 20), (''num_std'', JNum 2)], se_factory = bollinger_revert_factory lm\<rparr>),
     (''buy_and_hold'', \<lparr>se_label = ''Buy and Hold (benchmark)'', se_default_params = [], se_factory = buy_and_hold_factory\<rparr>)]"

definition unknown_strategy :: "string \<Rightarrow> string" where
  "unknown_strategy key =
     ''Unknown strategy '' @ apostrophe @ key @ apostrophe @ ''. Valid: ['' @ apostrophe @ ''bollinger_revert'' @ apostrophe
     @ '', '' @ apostrophe @ ''buy_and_hold'' @ apostrophe @ '', '' @ apostrophe @ ''macd_signal'' @ apostrophe
     @ '', '' @ apostrophe @ ''rsi_oversold'' @ apostrophe @ '', '' @ apostrophe @ ''sma_crossover'' @ apostrophe @ '']''"

definition get_strategy :: "libm \<Rightarrow> string \<Rightarrow> params \<Rightarrow> backtest_error + bool strategy_fn" where
  "get_strategy lm key params =
     (case map_of (REGISTRY lm) key of
        None \<Rightarrow> Inl (ValueErr (unknown_strategy key))
      | Some entry \<Rightarrow> se_factory entry (merge_params (se_default_params entry) params))"

definition list_strategies :: "libm \<Rightarrow> (string \<times> string \<times> params) list" where
  "list_strategies lm = map (\<lambda>(k, v). (k, se_label v, se_default_params v)) (REGISTRY lm)"

section \<open>No strategy looks ahead\<close>

lemma causalI:
  assumes "\<And>s bars bars' i. take (i + 1) bars = take (i + 1) bars' \<Longrightarrow> i + 1 < length bars \<Longrightarrow> i + 1 < length bars' \<Longrightarrow>
    strategy s bars i = strategy s bars' i"
  shows "causal strategy"
  unfolding causal_def Suc_eq_plus1 using assms by blast

lemma sma_crossover_causal: "causal (sma_crossover fast slow)"
  by (rule causalI) (simp only: sma_crossover_def)

lemma macd_cross_causal: "causal (macd_cross fast slow signal_period)"
  by (rule causalI) (simp only: macd_cross_def)

lemma stateful_causal:
  assumes "\<And>bars bars' i. take (i + 1) bars = take (i + 1) bars' \<Longrightarrow> strategy bars i = strategy bars' i"
  shows "causal (stateful strategy)"
proof (rule causalI)
  fix s and bars bars' :: "Bar list" and i :: nat
  assume "take (i + 1) bars = take (i + 1) bars'"
  then have "strategy bars i = strategy bars' i" by (rule assms)
  then show "stateful strategy s bars i = stateful strategy s bars' i" by (simp only: stateful_def)
qed

lemma rsi_oversold_causal: "causal (stateful (rsi_oversold period oversold overbought))"
  by (rule stateful_causal) (simp only: rsi_oversold_def)

lemma bollinger_revert_causal: "causal (stateful (bollinger_revert lm period num_std))"
  by (rule stateful_causal) (simp only: bollinger_revert_def)

lemma buy_and_hold_causal: "causal buy_and_hold"
  by (rule causalI) (simp add: buy_and_hold_def)

lemmas factory_defs = sma_crossover_factory_def rsi_oversold_factory_def macd_signal_factory_def
  bollinger_revert_factory_def buy_and_hold_factory_def

lemmas shipped_causal = sma_crossover_causal macd_cross_causal rsi_oversold_causal bollinger_revert_causal buy_and_hold_causal

lemma get_strategy_causal:
  assumes "get_strategy lm key params = Inr strategy"
  shows "causal strategy"
proof -
  obtain entry where "(key, entry) \<in> set (REGISTRY lm)"
    "se_factory entry (merge_params (se_default_params entry) params) = Inr strategy"
    using assms by (auto simp: get_strategy_def dest: map_of_SomeD split: option.splits)
  then show ?thesis by (auto simp: REGISTRY_def factory_defs bind_r_Inr_iff intro: shipped_causal)
qed

text \<open>The parameters a request may leave out have defaults, so no key is ever missing.\<close>

lemma merge_params_known: "k \<in> fst ` set d \<Longrightarrow> \<exists>v. map_of (merge_params d p) k = Some v"
proof -
  assume "k \<in> fst ` set d"
  then have "k \<in> fst ` set (map (\<lambda>(k, v). (k, case map_of p k of Some w \<Rightarrow> w | None \<Rightarrow> v)) d)" by force
  then show ?thesis by (auto simp: merge_params_def map_of_eq_None_iff simp flip: not_None_eq)
qed

lemma param_known:
  assumes "k \<in> fst ` set d"
  shows "int_param (merge_params d p) k \<noteq> Inl (KeyErr j)" "float_param (merge_params d p) k \<noteq> Inl (KeyErr j)"
proof -
  obtain v where "map_of (merge_params d p) k = Some v" using merge_params_known [OF assms] by blast
  then show "int_param (merge_params d p) k \<noteq> Inl (KeyErr j)" "float_param (merge_params d p) k \<noteq> Inl (KeyErr j)"
    by (simp_all add: int_param_def float_param_def conv_def split: sum.splits conv_error.splits)
qed

lemma no_key_missing: "get_strategy lm key params \<noteq> Inl (KeyErr k)"
proof
  assume err: "get_strategy lm key params = Inl (KeyErr k)"
  then obtain entry where "(key, entry) \<in> set (REGISTRY lm)"
    "se_factory entry (merge_params (se_default_params entry) params) = Inl (KeyErr k)"
    by (auto simp: get_strategy_def dest: map_of_SomeD split: option.splits)
  then show False by (auto simp: REGISTRY_def factory_defs bind_r_Inl_iff param_known)
qed

section \<open>Property\<close>

text \<open>
  No preset strategy looks ahead, whatever its parameters. If two price histories agree on their
  first \<open>k\<close> bars, the backtests on them have the same first \<open>k\<close> equity points: what a backtest
  shows for a day cannot depend on prices after that day.
\<close>

lemma presets_no_look_ahead:
  assumes "get_strategy lm key params = Inr strategy" and "take k bars = take k bars'" "k \<le> length bars" "k \<le> length bars'"
    and "run_backtest strategy s0 capital pct warmup bars = Inr r" "run_backtest strategy s0 capital pct warmup bars' = Inr r'"
  shows "take k (br_equity_curve r) = take k (br_equity_curve r')"
  using assms by (intro no_look_ahead [OF get_strategy_causal])

end
