(* ===== verification/BacktestService.thy ===== *)
theory BacktestService
  imports Strategies Market
begin

text \<open>
  The backtest endpoint: \<^verbatim>\<open>services/backtest_service.py\<close> loads the bars, runs the engine, computes the
  metrics and narrates the trades (\<^verbatim>\<open>backtest/narrate.py\<close>); \<^verbatim>\<open>routers/backtest.py\<close> maps its errors, and
  \<^verbatim>\<open>schemas/backtest.py\<close> has the request and the response.
\<close>

section \<open>Narration\<close>

definition pkr :: "flt \<Rightarrow> string" where
  "pkr amount = (if amount < 0 then ''-PKR '' @ fmt_commas \<bar>amount\<bar> else ''PKR '' @ fmt_commas amount)"

definition narrate_trade :: "Trade \<Rightarrow> string \<Rightarrow> string" where
  "narrate_trade t symb =
     (let pnl_word = (if 0 \<le> tr_net_pnl_pkr t then ''profit'' else ''loss'');
          pnl_sign = (if 0 \<le> tr_net_pnl_pkr t then ''+'' else [])
      in ''On '' @ date_isoformat (tr_entry_date t) @ '', the strategy bought '' @ fmt_fixed 0 (tr_quantity t)
         @ '' shares of '' @ symb @ '' at PKR '' @ fmt_fixed 2 (tr_entry_price t) @ '' ('' @ tr_reason_open t
         @ ''). The position was held for '' @ str_of_int (tr_holding_days t) @ '' day''
         @ (if tr_holding_days t \<noteq> 1 then ''s'' else []) @ ''. On '' @ date_isoformat (tr_exit_date t)
         @ '', the strategy sold at PKR '' @ fmt_fixed 2 (tr_exit_price t) @ '' ('' @ tr_reason_close t
         @ '') for a gross '' @ pnl_word @ '' of '' @ pkr (tr_gross_pnl_pkr t) @ '', reduced to '' @ pkr (tr_net_pnl_pkr t)
         @ '' after '' @ pkr (tr_commission_pkr t) @ '' in commissions ('' @ pnl_sign @ fmt_fixed 2 (tr_return_pct t) @ ''%).'')"

definition benchmark_lesson :: "BacktestMetrics \<Rightarrow> string \<Rightarrow> string" where
  "benchmark_lesson m label =
     (if bm_excess_return_pct m < flt (- 2)
      then ''Buy-and-hold beat **'' @ label @ ''** by '' @ fmt_fixed 1 \<bar>bm_excess_return_pct m\<bar>
        @ ''%. Active strategies need to overcome both fees AND the high bar of just holding good companies '' @ em_dash
        @ '' most of them don'' @ apostrophe @ ''t, on most stocks.''
      else if flt 2 < bm_excess_return_pct m
      then ''**'' @ label @ ''** beat buy-and-hold by '' @ fmt_fixed 1 (bm_excess_return_pct m)
        @ ''% over this period. Be careful: a single backtest is not proof a strategy '' @ apostrophe @ ''works'' @ apostrophe
        @ '' '' @ em_dash @ '' the market regime during this window may not repeat.''
      else ''Strategy and buy-and-hold finished within 2% of each other. After fees and effort, that'' @ apostrophe
        @ ''s a wash '' @ em_dash @ '' passive investing was the easier trade here.'')"

definition win_rate_lessons :: "BacktestMetrics \<Rightarrow> string list" where
  "win_rate_lessons m =
     (if 5 \<le> bm_num_trades m
      then if bm_win_rate_pct m < flt 40
        then [''Win rate was **'' @ fmt_fixed 0 (bm_win_rate_pct m)
          @ ''%**. Most active strategies have low win rates and survive only because their few wins are much bigger than their many losses. Look at average winning vs losing trade size to check that pattern.'']
        else if flt 70 < bm_win_rate_pct m
        then [''Win rate was **'' @ fmt_fixed 0 (bm_win_rate_pct m) @ ''%**. That'' @ apostrophe @ ''s high '' @ em_dash
          @ '' but if average wins are smaller than average losses, the expectation can still be negative. Check the trade sizes.'']
        else []
      else [])"

definition sharpe_lessons :: "BacktestMetrics \<Rightarrow> string list" where
  "sharpe_lessons m =
     (if flt (3 / 2) < bm_sharpe_ratio m
      then [''Sharpe ratio of '' @ fmt_fixed 2 (bm_sharpe_ratio m) @ '' on this window is high '' @ em_dash
        @ '' verify it holds out-of-sample before trusting it.'']
      else if bm_sharpe_ratio m < 0
      then [''Sharpe ratio is negative ('' @ fmt_fixed 2 (bm_sharpe_ratio m) @ '') '' @ em_dash
        @ '' the strategy returned less per unit of risk than just holding cash.'']
      else [])"

definition lessons :: "BacktestMetrics \<Rightarrow> string \<Rightarrow> string list" where
  "lessons m label =
     (if bm_num_trades m = 0
      then [''The strategy never triggered a trade in this window. The signals either weren'' @ apostrophe
        @ ''t met or the warm-up period covered the whole range.'']
      else [benchmark_lesson m label]
        @ (if flt 30 < bm_max_drawdown_pct m
           then [''Peak-to-trough drawdown was **'' @ fmt_fixed 1 (bm_max_drawdown_pct m)
             @ ''%**. Could you actually have held through that without panicking? Real-life behaviour is the silent killer of backtest results.'']
           else [])
        @ win_rate_lessons m @ sharpe_lessons m)"

section \<open>Service and endpoint\<close>

record BacktestRequest =
  rq_symbol :: string
  rq_strategy :: string
  rq_start_date :: date
  rq_end_date :: date
  rq_initial_capital_pkr :: dec
  rq_commission_per_side_pct :: flt
  rq_parameters :: params

text \<open>The response has the metrics field by field; a trade comes with its narration.\<close>

record BacktestResult =
  rs_symbol :: string
  rs_strategy :: string
  rs_start_date :: date
  rs_end_date :: date
  rs_initial_capital_pkr :: flt
  rs_metrics :: BacktestMetrics
  rs_trades :: "(Trade \<times> string) list"
  rs_equity_curve :: "EquityPoint list"
  rs_lessons :: "string list"

datatype service_error = BacktestError string int | Raised backtest_error

definition raised :: "backtest_error + 'a \<Rightarrow> service_error + 'a" where
  "raised r = map_sum Raised id r"

definition bar_of_row :: "OhlcvDaily \<Rightarrow> Bar option" where
  "bar_of_row x =
     (case (o_open x, o_high x, o_low x, o_close x) of
        (Some op, Some h, Some low, Some c) \<Rightarrow>
          Some \<lparr>b_date = o_date x, b_open = flt_of_dec op, b_high = flt_of_dec h, b_low = flt_of_dec low,
                b_close = flt_of_dec c,
                b_adjusted_close = flt_of_dec (case o_adjusted_close x of Some adj \<Rightarrow> adj | None \<Rightarrow> c),
                b_volume = flt_of_int (case o_volume x of Some v \<Rightarrow> v | None \<Rightarrow> 0)\<rparr>
      | _ \<Rightarrow> None)"

definition load_bars :: "market_db \<Rightarrow> string \<Rightarrow> date \<Rightarrow> date \<Rightarrow> service_error + Bar list" where
  "load_bars mk symb start_date end_date =
     (if find_security mk symb = None
      then Inl (BacktestError (''Unknown symbol '' @ apostrophe @ symb @ apostrophe @ ''.'') 404)
      else Inr (List.map_filter bar_of_row
             (sort_key o_date (filter (\<lambda>x. o_symbol x = symb \<and> start_date \<le> o_date x \<and> o_date x \<le> end_date) (ohlcv_rows mk)))))"

definition strategy_label :: "libm \<Rightarrow> string \<Rightarrow> string" where
  "strategy_label lm key =
     (case List.find (\<lambda>(k, label, d). k = key) (list_strategies lm) of Some (k, label, d) \<Rightarrow> label | None \<Rightarrow> key)"

definition service_run :: "libm \<Rightarrow> market_db \<Rightarrow> BacktestRequest \<Rightarrow> service_error + BacktestResult" where
  "service_run lm mk req =
     (let symb = py_strip (py_upper (rq_symbol req))
      in bind_r (load_bars mk symb (rq_start_date req) (rq_end_date req)) (\<lambda>bars.
         if length bars < 30
         then Inl (BacktestError (''Not enough OHLCV history for '' @ symb @ '' between '' @ date_isoformat (rq_start_date req)
                @ '' and '' @ date_isoformat (rq_end_date req) @ '' (got '' @ str_of_nat (length bars)
                @ '' bars). Pick a longer range or a more liquid symbol.'') 400)
         else bind_r (raised (get_strategy lm (rq_strategy req) (rq_parameters req))) (\<lambda>strategy.
              bind_r (raised (run_backtest strategy False (flt_of_dec (rq_initial_capital_pkr req))
                        (rq_commission_per_side_pct req) (min 200 (length bars div 2)) bars)) (\<lambda>bt.
              bind_r (raised (compute_metrics lm (buy_and_hold_return_pct bt) bt)) (\<lambda>m.
                Inr \<lparr>rs_symbol = symb, rs_strategy = rq_strategy req, rs_start_date = rq_start_date req,
                     rs_end_date = rq_end_date req, rs_initial_capital_pkr = br_initial_capital_pkr bt, rs_metrics = m,
                     rs_trades = map (\<lambda>t. (t, narrate_trade t symb)) (br_trades bt),
                     rs_equity_curve = br_equity_curve bt,
                     rs_lessons = lessons m (strategy_label lm (rq_strategy req))\<rparr>)))))"

definition valid_request :: "libm \<Rightarrow> BacktestRequest \<Rightarrow> bool" where
  "valid_request lm req \<longleftrightarrow> 1 \<le> char_len (rq_symbol req) \<and> char_len (rq_symbol req) \<le> 20
     \<and> rq_strategy req \<in> fst ` set (REGISTRY lm) \<and> Dec 0 < rq_initial_capital_pkr req
     \<and> 0 \<le> rq_commission_per_side_pct req \<and> rq_commission_per_side_pct req \<le> flt 5"

definition run_backtest_ep :: "libm \<Rightarrow> market_db \<Rightarrow> BacktestRequest \<Rightarrow> http_error + BacktestResult" where
  "run_backtest_ep lm mk req =
     (if \<not> valid_request lm req then Inl (HTTPException 422 [])
      else case service_run lm mk req of
             Inl (BacktestError m status) \<Rightarrow> Inl (HTTPException status m)
           | Inl (Raised _) \<Rightarrow> Inl ServerError
           | Inr res \<Rightarrow> Inr res)"

definition list_available_strategies :: "libm \<Rightarrow> (string \<times> string \<times> params) list" where
  "list_available_strategies lm = list_strategies lm"

section \<open>Bars of the table\<close>

text \<open>The primary key of the price table.\<close>

definition ohlcv_keys_ok :: "market_db \<Rightarrow> bool" where
  "ohlcv_keys_ok mk \<longleftrightarrow> distinct (map (\<lambda>x. (o_symbol x, o_date x)) (ohlcv_rows mk))"

lemma bar_of_row_date: "bar_of_row x = Some b \<Longrightarrow> b_date b = o_date x"
  by (auto simp: bar_of_row_def split: option.splits)

lemma bar_row: "b \<in> set (List.map_filter bar_of_row xs) \<Longrightarrow> \<exists>x\<in>set xs. b_date b = o_date x"
  by (induction xs) (auto simp: map_filter_simps bar_of_row_date split: option.splits)

lemma map_filter_bars:
  "sorted_wrt (<) (map o_date xs) \<Longrightarrow> sorted_wrt (<) (map b_date (List.map_filter bar_of_row xs))"
proof (induction xs)
  case (Cons x xs)
  have "o_date x < b_date b" if "b \<in> set (List.map_filter bar_of_row xs)" for b
    using that Cons.prems bar_row [OF that] by auto
  then show ?case using Cons by (auto simp: map_filter_simps bar_of_row_date split: option.split)
qed (simp add: map_filter_simps)

lemma load_bars_dates:
  assumes "ohlcv_keys_ok mk" and "load_bars mk symb d e = Inr bars"
  shows "sorted_wrt (<) (map b_date bars)" "\<And>b. b \<in> set bars \<Longrightarrow> d \<le> b_date b \<and> b_date b \<le> e"
proof -
  let ?rows = "filter (\<lambda>x. o_symbol x = symb \<and> d \<le> o_date x \<and> o_date x \<le> e) (ohlcv_rows mk)"
  have bars: "bars = List.map_filter bar_of_row (sort_key o_date ?rows)" using assms(2) by (simp add: load_bars_def split: if_splits)
  have "distinct (map o_date ?rows)"
  proof -
    have "distinct (map (\<lambda>x. (o_symbol x, o_date x)) ?rows)" using assms(1) by (simp add: ohlcv_keys_ok_def distinct_map_filter)
    then have "distinct ?rows" "inj_on (\<lambda>x. (o_symbol x, o_date x)) (set ?rows)" by (simp_all add: distinct_map)
    then show ?thesis by (auto simp: distinct_map inj_on_def)
  qed
  then have "distinct (map o_date (sort_key o_date ?rows))" by (simp add: distinct_map)
  moreover have "sorted (map o_date (sort_key o_date ?rows))" by simp
  ultimately have "sorted_wrt (<) (map o_date (sort_key o_date ?rows))" by (simp add: strict_sorted_iff del: sorted_wrt_map)
  then show "sorted_wrt (<) (map b_date bars)" unfolding bars by (rule map_filter_bars)
  show "d \<le> b_date b \<and> b_date b \<le> e" if "b \<in> set bars" for b
    using bar_row [OF that [unfolded bars]] by auto
qed

section \<open>Property\<close>

lemma compute_metrics_fields:
  assumes "compute_metrics lm b bt = Inr m"
  shows "bm_final_value_pkr m = br_final_equity_pkr bt" "bm_num_trades m = length (br_trades bt)"
  using assms by (auto simp: compute_metrics_def Let_def bind_r_Inr_iff)

lemma service_run_Inr:
  assumes "service_run lm mk req = Inr res"
  obtains bars strategy bt where
    "load_bars mk (py_strip (py_upper (rq_symbol req))) (rq_start_date req) (rq_end_date req) = Inr bars" "30 \<le> length bars"
    "run_backtest strategy False (flt_of_dec (rq_initial_capital_pkr req)) (rq_commission_per_side_pct req)
       (min 200 (length bars div 2)) bars = Inr bt"
    "compute_metrics lm (buy_and_hold_return_pct bt) bt = Inr (rs_metrics res)"
    "map fst (rs_trades res) = br_trades bt" "rs_equity_curve res = br_equity_curve bt"
  using assms
  by (auto simp: service_run_def Let_def bind_r_Inr_iff raised_def map_sum_def not_less comp_def split: if_splits sum.splits)

lemma raised_Inl: "raised r = Inl e \<Longrightarrow> \<exists>x. e = Raised x"
  by (cases r) (auto simp: raised_def)

lemma service_run_Inl:
  assumes "service_run lm mk req = Inl e"
  shows "(find_security mk (py_strip (py_upper (rq_symbol req))) = None \<and> (\<exists>m. e = BacktestError m 404))
    \<or> (find_security mk (py_strip (py_upper (rq_symbol req))) \<noteq> None \<and> ((\<exists>m. e = BacktestError m 400) \<or> (\<exists>x. e = Raised x)))"
proof -
  define symb where "symb = py_strip (py_upper (rq_symbol req))"
  show ?thesis
  proof (cases "load_bars mk symb (rq_start_date req) (rq_end_date req)")
    case (Inl x)
    then have "e = x" using assms unfolding service_run_def Let_def symb_def [symmetric] by simp
    then show ?thesis using Inl unfolding symb_def [symmetric] load_bars_def by (auto split: if_splits)
  next
    case (Inr bars)
    then have known: "find_security mk symb \<noteq> None" unfolding load_bars_def by (auto split: if_splits)
    have "(\<exists>m. e = BacktestError m 400) \<or> (\<exists>x. e = Raised x)"
    proof (cases "length bars < 30")
      case True
      then show ?thesis using assms Inr unfolding service_run_def Let_def symb_def [symmetric] by auto
    next
      case False
      then show ?thesis using assms Inr unfolding service_run_def Let_def symb_def [symmetric]
        by (auto simp: bind_r_Inl_iff dest: raised_Inl)
    qed
    with known show ?thesis unfolding symb_def [symmetric] by blast
  qed
qed


definition ex_ohlcv :: "date \<Rightarrow> OhlcvDaily" where
  "ex_ohlcv d = \<lparr>o_symbol = ''A'', o_date = d, o_open = Some (Dec 100), o_high = Some (Dec 100), o_low = Some (Dec 100),
     o_close = Some (Dec 100), o_volume = Some 1, o_value_pkr = None, o_adjusted_close = None\<rparr>"

definition ex_market30 :: market_db where
  "ex_market30 = \<lparr>security_rows = [\<lparr>sec_symbol = ''A'', company_name = ''A'', sector = ''S'', is_kmi_compliant = True,
      is_kse100 = True, is_kse30 = True, market_cap_pkr = None, shares_outstanding = None, listed_at = None,
      delisted_at = None, is_active = True\<rparr>], ohlcv_rows = map ex_ohlcv [1..30]\<rparr>"

definition ex_request :: BacktestRequest where
  "ex_request = \<lparr>rq_symbol = ''a'', rq_strategy = ''buy_and_hold'', rq_start_date = 1, rq_end_date = 60,
     rq_initial_capital_pkr = Dec 1000, rq_commission_per_side_pct = 0, rq_parameters = []\<rparr>"

lemma ex_load: "load_bars ex_market30 ''A'' 1 60 = Inr (map (\<lambda>d. ex_bar d 100) [1..30])"
  by code_simp

lemma ex_run30: "is_ok (run_backtest buy_and_hold False (Flt 1000) 0 15 (map (\<lambda>d. ex_bar d 100) [1..30]))"
  by code_simp

lemma ex_service: "\<exists>res. run_backtest_ep ex_libm ex_market30 ex_request = Inr res"
proof -
  let ?bars = "map (\<lambda>d. ex_bar d 100) [1..30]"
  have len: "length ?bars = 30" by simp
  obtain bt where bt: "run_backtest buy_and_hold False (Flt 1000) 0 15 ?bars = Inr bt"
    using ex_run30 by (auto simp only: is_ok_ex)
  obtain m where m: "compute_metrics ex_libm (buy_and_hold_return_pct bt) bt = Inr m"
    using compute_metrics_returns [of ex_libm] by (auto simp: ex_libm_def is_ok_ex)
  have strat: "get_strategy ex_libm ''buy_and_hold'' [] = Inr buy_and_hold"
    by (simp add: get_strategy_def REGISTRY_def buy_and_hold_factory_def)
  have sy: "py_strip (py_upper ''a'') = ''A''" and cap: "flt_of_dec (Dec 1000) = Flt 1000" by code_simp+
  have "\<exists>res. service_run ex_libm ex_market30 ex_request = Inr res"
    unfolding service_run_def Let_def ex_request_def BacktestRequest.select_convs sy ex_load bind_r_simps len strat cap raised_def
    by (simp add: bt m del: upto_rec_numeral)
  moreover have "valid_request ex_libm ex_request" by code_simp
  ultimately show ?thesis by (auto simp: run_backtest_ep_def)
qed


end
