(* ===== verification/Payments.thy ===== *)
theory Payments
  imports Py_Conv
begin

text \<open>
  The payment gateways \<^verbatim>\<open>psx_api/services/payments/*.py\<close>: what a checkout sends and how a callback is
  verified and normalised. Keyed hashes, the printing of floats and containers, \<^verbatim>\<open>json.dumps\<close>
  and \<^verbatim>\<open>json.loads\<close> are arguments (\<open>pay_env\<close>); the settings are a record.
\<close>

section \<open>Payloads\<close>

text \<open>A value of a callback: what \<^verbatim>\<open>json.loads\<close> gives, or the raw body the router attaches.\<close>

datatype pv = PNone | PBool bool | PInt int | PFloat flt | PStr string | PBytes string
  | PList "pv list" | PObj "(string \<times> pv) list"

type_synonym payload = "(string \<times> pv) list"

record pay_env =
  hmac_sha256_hex :: "string \<Rightarrow> string \<Rightarrow> string"
  hmac_sha256_b64 :: "string \<Rightarrow> string \<Rightarrow> string"
  sha256_hex :: "string \<Rightarrow> string"
  json_dumps :: "payload \<Rightarrow> string"
  json_loads :: "string \<Rightarrow> pv option"
  str_of_value :: "pv \<Rightarrow> string"

record settings =
  environment :: string
  payments_base_url :: string
  payments_return_url :: string
  jazzcash_merchant_id :: string
  jazzcash_password :: string
  jazzcash_integrity_salt :: string
  jazzcash_environment :: string
  easypaisa_store_id :: string
  easypaisa_hash_key :: string
  easypaisa_environment :: string
  meezan_merchant_id :: string
  meezan_secret_key :: string
  meezan_environment :: string
  payfast_merchant_id :: string
  payfast_secret_key :: string
  payfast_environment :: string
  safepay_api_key :: string
  safepay_webhook_secret :: string
  safepay_environment :: string
  nayapay_api_key :: string
  nayapay_webhook_secret :: string
  nayapay_environment :: string

text \<open>The errors of a gateway, and exceptions nothing handles.\<close>

datatype gw_error = GatewayError string int | PyRaised

fun truthy :: "pv \<Rightarrow> bool" where
  "truthy PNone = False"
| "truthy (PBool b) = b"
| "truthy (PInt n) = (n \<noteq> 0)"
| "truthy (PFloat x) = (x \<noteq> 0)"
| "truthy (PStr s) = (s \<noteq> [])"
| "truthy (PBytes s) = (s \<noteq> [])"
| "truthy (PList xs) = (xs \<noteq> [])"
| "truthy (PObj xs) = (xs \<noteq> [])"

fun py_str :: "pay_env \<Rightarrow> pv \<Rightarrow> string" where
  "py_str env PNone = ''None''"
| "py_str env (PBool b) = (if b then ''True'' else ''False'')"
| "py_str env (PInt n) = str_of_int n"
| "py_str env (PStr s) = s"
| "py_str env v = str_of_value env v"

text \<open>\<^verbatim>\<open>d.get(k)\<close>, and \<^verbatim>\<open>str(d.get(k) or "")\<close>.\<close>

definition get_field :: "payload \<Rightarrow> string \<Rightarrow> pv" where
  "get_field p k = (case map_of p k of Some v \<Rightarrow> v | None \<Rightarrow> PNone)"

definition or_else :: "pv \<Rightarrow> pv \<Rightarrow> pv" where
  "or_else a b = (if truthy a then a else b)"

definition text_of :: "pay_env \<Rightarrow> pv \<Rightarrow> string" where
  "text_of env v = py_str env (or_else v (PStr []))"

definition some_text :: "string \<Rightarrow> string option" where
  "some_text s = (if s = [] then None else Some s)"

definition int_of :: "pv \<Rightarrow> gw_error + int" where
  "int_of v =
     (case v of
        PInt n \<Rightarrow> Inr n | PBool b \<Rightarrow> Inr (if b then 1 else 0) | PFloat x \<Rightarrow> Inr (truncate_rat (fval x))
      | PStr s \<Rightarrow> (case int_literal (py_strip s) of Some q \<Rightarrow> Inr \<lfloor>q\<rfloor> | None \<Rightarrow> Inl PyRaised)
      | PBytes s \<Rightarrow> (case int_literal (py_strip s) of Some q \<Rightarrow> Inr \<lfloor>q\<rfloor> | None \<Rightarrow> Inl PyRaised)
      | _ \<Rightarrow> Inl PyRaised)"

text \<open>\<^verbatim>\<open>Decimal(s)\<close>: underscores are dropped; infinities and NaN are not values of the model.\<close>

definition decimal_of :: "string \<Rightarrow> gw_error + dec" where
  "decimal_of s =
     (case float_literal (filter (\<lambda>c. c \<noteq> CHR ''_'') (py_strip s)) of Some q \<Rightarrow> Inr (Dec q) | None \<Rightarrow> Inl PyRaised)"

definition optional :: "bool \<Rightarrow> gw_error + dec \<Rightarrow> gw_error + dec option" where
  "optional c r = (if c then bind_r r (\<lambda>d. Inr (Some d)) else Inr None)"

definition paisas :: "pv \<Rightarrow> gw_error + dec option" where
  "paisas v = optional (v \<noteq> PNone) (bind_r (int_of v) (\<lambda>n. Inr (Dec (of_int n) / Dec 100)))"

text \<open>\<^verbatim>\<open>hmac.compare_digest\<close> refuses text that is not ASCII.\<close>

definition compare_digest :: "string \<Rightarrow> string \<Rightarrow> gw_error + bool" where
  "compare_digest a b =
     (if list_ex (\<lambda>c. 128 \<le> (of_char c :: nat)) (a @ b) then Inl PyRaised else Inr (a = b))"

definition check_signature :: "bool \<Rightarrow> string \<Rightarrow> string \<Rightarrow> string \<Rightarrow> gw_error + unit" where
  "check_signature is_configured sent expected message =
     (if is_configured
      then bind_r (compare_digest sent expected) (\<lambda>ok. if ok then Inr () else Inl (GatewayError message 400))
      else Inr ())"

section \<open>Text\<close>

fun take_chars :: "nat \<Rightarrow> string \<Rightarrow> string" where
  "take_chars n [] = []"
| "take_chars n (c # s) =
     (if 128 \<le> (of_char c :: nat) \<and> (of_char c :: nat) < 192 then c # take_chars n s
      else case n of 0 \<Rightarrow> [] | Suc m \<Rightarrow> c # take_chars m s)"

definition rstrip_slash :: "string \<Rightarrow> string" where
  "rstrip_slash s = rev (dropWhile (\<lambda>c. c = CHR ''/'') (rev s))"

fun joined :: "string \<Rightarrow> string list \<Rightarrow> string" where
  "joined sep [] = []"
| "joined sep [x] = x"
| "joined sep (x # y # xs) = x @ sep @ joined sep (y # xs)"

text \<open>An amount of a \<^verbatim>\<open>Numeric(10, 2)\<close> column, printed: \<^verbatim>\<open>str(d)\<close> and \<^verbatim>\<open>f"{d:.2f}"\<close> are the same text.\<close>

definition fmt_amount :: "dec \<Rightarrow> string" where
  "fmt_amount d = fmt_fixed 2 (Flt (dval d))"

text \<open>Date and time in Pakistan of a time in seconds since 1970.\<close>

definition pkt_date :: "int \<Rightarrow> date" where
  "pkt_date now = (now + 18000) div 86400 + 719163"

definition pkt_clock :: "int \<Rightarrow> int \<times> int \<times> int" where
  "pkt_clock now = (let s = (now + 18000) mod 86400 in (s div 3600, s div 60 mod 60, s mod 60))"

definition stamp_compact :: "int \<Rightarrow> string" where
  "stamp_compact now =
     (let d = pkt_date now; (h, m, s) = pkt_clock now
      in zero_padded 4 (year_of d) @ zero_padded 2 (month_of d) @ zero_padded 2 (day_of d)
         @ zero_padded 2 h @ zero_padded 2 m @ zero_padded 2 s)"

definition stamp_easypaisa :: "int \<Rightarrow> string" where
  "stamp_easypaisa now =
     (let d = pkt_date now; (h, m, s) = pkt_clock now
      in zero_padded 2 (day_of d) @ ''-'' @ zero_padded 2 (month_of d) @ ''-'' @ zero_padded 4 (year_of d)
         @ '' '' @ zero_padded 2 h @ '':'' @ zero_padded 2 m @ '':'' @ zero_padded 2 s)"

section \<open>The contract of a gateway\<close>

record CheckoutContext =
  cx_merchant_txn_ref :: string
  cx_amount_pkr :: dec
  cx_description :: string
  cx_customer_email :: string
  cx_customer_name :: "string option"
  cx_customer_phone :: "string option"
  cx_return_url :: string
  cx_callback_url :: string

record CheckoutResult =
  cr_checkout_url :: string
  cr_is_sandbox :: bool
  cr_request_payload :: payload
  cr_gateway_txn_id :: "string option"
  cr_instructions :: "string option"

datatype callback_status = CbPaid | CbFailed | CbCanceled | CbPending

record CallbackResult =
  cb_merchant_txn_ref :: string
  cb_status :: callback_status
  cb_gateway_txn_id :: "string option"
  cb_amount_pkr :: "dec option"
  cb_failure_reason :: "string option"
  cb_raw_payload :: payload

definition or_default :: "string \<Rightarrow> string \<Rightarrow> string" where
  "or_default s d = (if s = [] then d else s)"

definition phone_text :: "CheckoutContext \<Rightarrow> string" where
  "phone_text ctx = (case cx_customer_phone ctx of Some p \<Rightarrow> p | None \<Rightarrow> [])"

definition str_payload :: "(string \<times> string) list \<Rightarrow> payload" where
  "str_payload = map (\<lambda>(k, v). (k, PStr v))"

definition local_sandbox_url :: "settings \<Rightarrow> CheckoutContext \<Rightarrow> string \<Rightarrow> string" where
  "local_sandbox_url cfg ctx provider =
     rstrip_slash (payments_return_url cfg) @ ''/sandbox?provider='' @ provider @ ''&ref='' @ cx_merchant_txn_ref ctx
     @ ''&amount='' @ fmt_amount (cx_amount_pkr ctx)"

text \<open>A checkout of a redirect gateway: the local page without credentials, else the gateway's page.\<close>

definition hosted :: "settings \<Rightarrow> CheckoutContext \<Rightarrow> string \<Rightarrow> bool \<Rightarrow> bool \<Rightarrow> string \<Rightarrow> string \<Rightarrow> payload \<Rightarrow> CheckoutResult" where
  "hosted cfg ctx slug is_configured live live_url sandbox_url p =
     \<lparr>cr_checkout_url = (if \<not> is_configured then local_sandbox_url cfg ctx slug else if live then live_url else sandbox_url),
      cr_is_sandbox = (\<not> is_configured \<or> \<not> live), cr_request_payload = p, cr_gateway_txn_id = None, cr_instructions = None\<rparr>"

text \<open>The fields of a callback without its hash, as text.\<close>

definition flat :: "pay_env \<Rightarrow> string \<Rightarrow> payload \<Rightarrow> (string \<times> string) list" where
  "flat env hash_key p =
     map (\<lambda>(k, v). (k, if v = PNone then [] else py_str env v)) (filter (\<lambda>(k, v). k \<noteq> hash_key) p)"

definition sorted_fields :: "(string \<times> string) list \<Rightarrow> (string \<times> string) list" where
  "sorted_fields fs = sort_key fst fs"

section \<open>JazzCash\<close>

definition jazzcash_configured :: "settings \<Rightarrow> bool" where
  "jazzcash_configured cfg \<longleftrightarrow> jazzcash_merchant_id cfg \<noteq> [] \<and> jazzcash_password cfg \<noteq> [] \<and> jazzcash_integrity_salt cfg \<noteq> []"

definition jazzcash_hash :: "settings \<Rightarrow> pay_env \<Rightarrow> (string \<times> string) list \<Rightarrow> string" where
  "jazzcash_hash cfg env fs =
     (let ordered = filter (\<lambda>v. v \<noteq> []) (map snd (sorted_fields fs));
          salt = jazzcash_integrity_salt cfg;
          message = (if ordered \<noteq> [] then salt @ ''&'' @ joined ''&'' ordered else salt)
      in py_upper (hmac_sha256_hex env salt message))"

definition truncate_ref :: "string \<Rightarrow> string" where
  "truncate_ref ref = take_chars 20 (if startswith ''T'' ref then ref else ''T'' @ ref)"

definition jazzcash_create :: "settings \<Rightarrow> pay_env \<Rightarrow> int \<Rightarrow> CheckoutContext \<Rightarrow> CheckoutResult" where
  "jazzcash_create cfg env now ctx =
     (let amount_paisas = round_half_even (dval (cx_amount_pkr ctx * Dec 100));
          fs =
            [(''pp_Version'', ''1.1''), (''pp_TxnType'', ''MWALLET''), (''pp_Language'', ''EN''),
             (''pp_MerchantID'', or_default (jazzcash_merchant_id cfg) ''MC00000''),
             (''pp_Password'', or_default (jazzcash_password cfg) ''sandbox''),
             (''pp_TxnRefNo'', truncate_ref (cx_merchant_txn_ref ctx)), (''pp_Amount'', str_of_int amount_paisas),
             (''pp_TxnCurrency'', ''PKR''), (''pp_TxnDateTime'', stamp_compact now),
             (''pp_BillReference'', ''psxai_subscription''), (''pp_Description'', take_chars 60 (cx_description ctx)),
             (''pp_TxnExpiryDateTime'', stamp_compact (now + 3600)), (''pp_ReturnURL'', cx_callback_url ctx),
             (''ppmpf_1'', cx_customer_email ctx), (''ppmpf_2'', phone_text ctx)]
      in hosted cfg ctx ''jazzcash'' (jazzcash_configured cfg) (jazzcash_environment cfg = ''live'')
           ''https://payments.jazzcash.com.pk/CustomerPortal/transactionmanagement/merchantform''
           ''https://sandbox.jazzcash.com.pk/CustomerPortal/transactionmanagement/merchantform''
           (str_payload (fs @ [(''pp_SecureHash'', jazzcash_hash cfg env fs)])))"

definition jazzcash_verify :: "settings \<Rightarrow> pay_env \<Rightarrow> payload \<Rightarrow> gw_error + CallbackResult" where
  "jazzcash_verify cfg env p =
     (let sent_hash = text_of env (get_field p ''pp_SecureHash'');
          expected = jazzcash_hash cfg env (flat env ''pp_SecureHash'' p)
      in bind_r (check_signature (jazzcash_configured cfg) (py_lower sent_hash) (py_lower expected)
                   ''JazzCash callback signature mismatch.'') (\<lambda>_.
         let is_paid = (text_of env (get_field p ''pp_ResponseCode'') = ''000'')
         in bind_r (paisas (get_field p ''pp_Amount'')) (\<lambda>amount_pkr.
            Inr \<lparr>cb_merchant_txn_ref = text_of env (get_field p ''pp_TxnRefNo''),
                 cb_status = (if is_paid then CbPaid else CbFailed),
                 cb_gateway_txn_id = some_text (text_of env (get_field p ''pp_RetreivalReferenceNo'')),
                 cb_amount_pkr = amount_pkr,
                 cb_failure_reason = (if is_paid then None else Some (text_of env (get_field p ''pp_ResponseMessage''))),
                 cb_raw_payload = p\<rparr>)))"

section \<open>Easypaisa\<close>

definition easypaisa_configured :: "settings \<Rightarrow> bool" where
  "easypaisa_configured cfg \<longleftrightarrow> easypaisa_store_id cfg \<noteq> [] \<and> easypaisa_hash_key cfg \<noteq> []"

definition REQUEST_HASH_ORDER :: "string list" where
  "REQUEST_HASH_ORDER = [''amount'', ''autoRedirect'', ''emailAddr'', ''expiryDate'', ''mobileNum'', ''orderRefNum'',
     ''paymentMethod'', ''postBackURL'', ''storeId'', ''merchantPaymentMethod'']"

definition key_values :: "(string \<times> string) list \<Rightarrow> string list \<Rightarrow> string" where
  "key_values fs order =
     joined ''&'' (map (\<lambda>k. k @ ''='' @ the (map_of fs k)) (filter (\<lambda>k. map_of fs k \<notin> {None, Some []}) order))"

definition easypaisa_hash :: "settings \<Rightarrow> pay_env \<Rightarrow> (string \<times> string) list \<Rightarrow> string list \<Rightarrow> string" where
  "easypaisa_hash cfg env fs order = hmac_sha256_b64 env (easypaisa_hash_key cfg) (key_values fs order)"

definition easypaisa_create :: "settings \<Rightarrow> pay_env \<Rightarrow> int \<Rightarrow> CheckoutContext \<Rightarrow> CheckoutResult" where
  "easypaisa_create cfg env now ctx =
     (let fs =
            [(''storeId'', or_default (easypaisa_store_id cfg) ''12345''), (''orderRefNum'', cx_merchant_txn_ref ctx),
             (''amount'', fmt_amount (cx_amount_pkr ctx)), (''paymentMethod'', ''CC_PAYMENT_METHOD''),
             (''merchantPaymentMethod'', ''OTC_PAYMENT_METHOD''), (''emailAddr'', cx_customer_email ctx),
             (''mobileNum'', phone_text ctx), (''postBackURL'', cx_callback_url ctx), (''autoRedirect'', ''1''),
             (''expiryDate'', stamp_easypaisa (now + 3600))]
      in hosted cfg ctx ''easypaisa'' (easypaisa_configured cfg) (easypaisa_environment cfg = ''live'')
           ''https://easypay.easypaisa.com.pk/easypay/Index.jsf'' ''https://easypaystg.easypaisa.com.pk/easypay/Index.jsf''
           (str_payload (fs @ [(''merchantHashedReq'', easypaisa_hash cfg env fs REQUEST_HASH_ORDER)])))"

definition easypaisa_verify :: "settings \<Rightarrow> pay_env \<Rightarrow> payload \<Rightarrow> gw_error + CallbackResult" where
  "easypaisa_verify cfg env p =
     (let fs = flat env ''merchantHashedReq'' p;
          sent_hash = text_of env (get_field p ''merchantHashedReq'');
          expected = easypaisa_hash cfg env fs (sort (map fst fs))
      in bind_r (check_signature (easypaisa_configured cfg) sent_hash expected ''Easypaisa callback signature mismatch.'') (\<lambda>_.
         let is_paid = (text_of env (or_else (get_field p ''status'') (get_field p ''responseCode'')) = ''0000'');
             amount = or_else (get_field p ''amount'') (get_field p ''transactionAmount'')
         in bind_r (optional (amount \<noteq> PNone) (decimal_of (py_str env amount))) (\<lambda>amount_pkr.
            Inr \<lparr>cb_merchant_txn_ref = text_of env (get_field p ''orderRefNum''),
                 cb_status = (if is_paid then CbPaid else CbFailed),
                 cb_gateway_txn_id = some_text (text_of env (get_field p ''paymentToken'')),
                 cb_amount_pkr = amount_pkr,
                 cb_failure_reason = (if is_paid then None else Some (text_of env (get_field p ''responseDesc''))),
                 cb_raw_payload = p\<rparr>)))"

section \<open>Meezan\<close>

definition meezan_configured :: "settings \<Rightarrow> bool" where
  "meezan_configured cfg \<longleftrightarrow> meezan_merchant_id cfg \<noteq> [] \<and> meezan_secret_key cfg \<noteq> []"

definition meezan_create :: "settings \<Rightarrow> pay_env \<Rightarrow> CheckoutContext \<Rightarrow> CheckoutResult" where
  "meezan_create cfg env ctx =
     (let amount = fmt_amount (cx_amount_pkr ctx);
          request_hash = sha256_hex env (joined ''|'' [meezan_secret_key cfg, meezan_merchant_id cfg, cx_merchant_txn_ref ctx,
            amount, ''PKR'', cx_callback_url ctx])
      in hosted cfg ctx ''meezan'' (meezan_configured cfg) (meezan_environment cfg = ''live'')
           ''https://ipg.meezanbank.com/IPGGenericIntegration/Index.jsf'' ''https://ipgtest.meezanbank.com/IPGGenericIntegration/Index.jsf''
           (str_payload
             [(''MerchantID'', or_default (meezan_merchant_id cfg) ''TEST_MEEZAN''), (''OrderId'', cx_merchant_txn_ref ctx),
              (''Amount'', amount), (''Currency'', ''PKR''), (''CustomerEmail'', cx_customer_email ctx),
              (''CustomerMobile'', phone_text ctx), (''Description'', take_chars 100 (cx_description ctx)),
              (''ReturnURL'', cx_callback_url ctx), (''Hash'', request_hash)]))"

definition meezan_verify :: "settings \<Rightarrow> pay_env \<Rightarrow> payload \<Rightarrow> gw_error + CallbackResult" where
  "meezan_verify cfg env p =
     (let order_id = text_of env (get_field p ''OrderId''); amount = text_of env (get_field p ''Amount'');
          rc = text_of env (get_field p ''RC''); tid = text_of env (get_field p ''TID'');
          sent_hash = text_of env (get_field p ''Hash'');
          expected = sha256_hex env (joined ''|'' [meezan_secret_key cfg, meezan_merchant_id cfg, order_id, amount, rc, tid])
      in bind_r (check_signature (meezan_configured cfg) (py_lower sent_hash) (py_lower expected) ''Meezan callback hash mismatch.'') (\<lambda>_.
         let is_paid = (rc = ''00'')
         in bind_r (optional (amount \<noteq> []) (decimal_of amount)) (\<lambda>amount_pkr.
            Inr \<lparr>cb_merchant_txn_ref = order_id, cb_status = (if is_paid then CbPaid else CbFailed),
                 cb_gateway_txn_id = some_text tid, cb_amount_pkr = amount_pkr,
                 cb_failure_reason = (if is_paid then None
                   else Some (py_str env (or_else (get_field p ''ResponseDescription'') (PStr rc)))),
                 cb_raw_payload = p\<rparr>)))"

section \<open>PayFast\<close>

definition payfast_configured :: "settings \<Rightarrow> bool" where
  "payfast_configured cfg \<longleftrightarrow> payfast_merchant_id cfg \<noteq> [] \<and> payfast_secret_key cfg \<noteq> []"

definition payfast_sign :: "settings \<Rightarrow> pay_env \<Rightarrow> (string \<times> string) list \<Rightarrow> string" where
  "payfast_sign cfg env fs = py_upper (hmac_sha256_hex env (payfast_secret_key cfg) (key_values fs (sort (map fst fs))))"

definition payfast_create :: "settings \<Rightarrow> pay_env \<Rightarrow> int \<Rightarrow> CheckoutContext \<Rightarrow> CheckoutResult" where
  "payfast_create cfg env now ctx =
     (let fs =
            [(''MERCHANT_ID'', or_default (payfast_merchant_id cfg) ''MERCHANT123''), (''TRANSACTION_ID'', cx_merchant_txn_ref ctx),
             (''TRANSACTION_AMOUNT'', fmt_amount (cx_amount_pkr ctx)), (''TRANSACTION_CURRENCY'', ''PKR''),
             (''TRANSACTION_DATETIME'', stamp_compact now), (''PRODUCT_DESCRIPTION'', take_chars 100 (cx_description ctx)),
             (''CUSTOMER_EMAIL_ADDRESS'', cx_customer_email ctx), (''CUSTOMER_MOBILE_NO'', phone_text ctx),
             (''RESPONSE_URL'', cx_callback_url ctx), (''VERSION'', ''1.0'')]
      in hosted cfg ctx ''allied_payfast'' (payfast_configured cfg) (payfast_environment cfg = ''live'')
           ''https://payfast.1link.net.pk/PayFast/Checkout'' ''https://payfaststg.1link.net.pk/PayFast/Checkout''
           (str_payload (fs @ [(''SIGNATURE'', payfast_sign cfg env fs)])))"

definition payfast_verify :: "settings \<Rightarrow> pay_env \<Rightarrow> payload \<Rightarrow> gw_error + CallbackResult" where
  "payfast_verify cfg env p =
     (let sent = text_of env (get_field p ''SIGNATURE''); expected = payfast_sign cfg env (flat env ''SIGNATURE'' p)
      in bind_r (check_signature (payfast_configured cfg) (py_lower sent) (py_lower expected) ''PayFast callback signature mismatch.'') (\<lambda>_.
         let rc = text_of env (get_field p ''RESPONSE_CODE''); is_paid = (rc = ''00''); amount = get_field p ''TRANSACTION_AMOUNT''
         in bind_r (optional (truthy amount) (decimal_of (py_str env amount))) (\<lambda>amount_pkr.
            Inr \<lparr>cb_merchant_txn_ref = text_of env (get_field p ''TRANSACTION_ID''),
                 cb_status = (if is_paid then CbPaid else CbFailed),
                 cb_gateway_txn_id = some_text (text_of env (get_field p ''REFERENCE_NUMBER'')),
                 cb_amount_pkr = amount_pkr,
                 cb_failure_reason = (if is_paid then None
                   else Some (py_str env (or_else (get_field p ''RESPONSE_MESSAGE'') (PStr rc)))),
                 cb_raw_payload = p\<rparr>)))"

section \<open>SafePay and NayaPay\<close>

text \<open>The webhooks of the REST gateways are signed over the raw body, which the router attaches.\<close>

definition popped :: "payload \<Rightarrow> payload" where
  "popped p = filter (\<lambda>(k, v). k \<noteq> ''_signature'' \<and> k \<noteq> ''_raw_body'') p"

definition webhook_digest :: "pay_env \<Rightarrow> string \<Rightarrow> payload \<Rightarrow> string" where
  "webhook_digest env secret p =
     hmac_sha256_hex env secret (case get_field p ''_raw_body'' of PBytes b \<Rightarrow> b | _ \<Rightarrow> json_dumps env (popped p))"

definition safepay_configured :: "settings \<Rightarrow> bool" where
  "safepay_configured cfg \<longleftrightarrow> safepay_api_key cfg \<noteq> [] \<and> safepay_webhook_secret cfg \<noteq> []"

definition safepay_create :: "settings \<Rightarrow> CheckoutContext \<Rightarrow> CheckoutResult" where
  "safepay_create cfg ctx =
     (let live = (safepay_environment cfg = ''live'');
          page = (\<lambda>base env_param. base @ ''?env='' @ env_param @ ''&order_id='' @ cx_merchant_txn_ref ctx @ ''&source=custom'')
      in hosted cfg ctx ''safepay'' (safepay_configured cfg) live
           (page ''https://getsafepay.com/checkout/pay'' ''production'') (page ''https://sandbox.api.getsafepay.com/checkout/pay'' ''sandbox'')
           [(''amount'', PInt (truncate_rat (dval (cx_amount_pkr ctx * Dec 100)))), (''currency'', PStr ''PKR''),
            (''order_id'', PStr (cx_merchant_txn_ref ctx)), (''customer_email'', PStr (cx_customer_email ctx)),
            (''customer_phone'', PStr (phone_text ctx)), (''redirect_url'', PStr (cx_return_url ctx)),
            (''cancel_url'', PStr (cx_return_url ctx @ ''?canceled=1'')), (''webhook_url'', PStr (cx_callback_url ctx)),
            (''description'', PStr (cx_description ctx))])"

definition safepay_status :: "string \<Rightarrow> callback_status" where
  "safepay_status s =
     (if s \<in> {''paid'', ''succeeded'', ''tracker_paid''} then CbPaid
      else if s \<in> {''canceled'', ''cancelled'', ''tracker_canceled''} then CbCanceled
      else if s \<in> {''pending'', ''tracker_pending''} then CbPending
      else CbFailed)"

definition all_digits :: "string \<Rightarrow> bool" where
  "all_digits s \<longleftrightarrow> s \<noteq> [] \<and> list_all is_digit s"

definition safepay_amount :: "pay_env \<Rightarrow> pv \<Rightarrow> gw_error + dec option" where
  "safepay_amount env v =
     (let scalar = (case v of PBool _ \<Rightarrow> True | PInt _ \<Rightarrow> True | PFloat _ \<Rightarrow> True | PStr _ \<Rightarrow> True | _ \<Rightarrow> False)
      in if scalar \<and> all_digits (py_str env v) then bind_r (int_of v) (\<lambda>n. Inr (Some (Dec (of_int n) / Dec 100)))
         else optional (truthy v) (decimal_of (py_str env v)))"

definition safepay_verify :: "settings \<Rightarrow> pay_env \<Rightarrow> payload \<Rightarrow> gw_error + CallbackResult" where
  "safepay_verify cfg env p =
     (let signature = text_of env (get_field p ''_signature''); expected = webhook_digest env (safepay_webhook_secret cfg) p;
          p = popped p
      in bind_r (check_signature (safepay_configured cfg) (py_lower signature) (py_lower expected) ''SafePay webhook signature mismatch.'') (\<lambda>_.
         case or_else (get_field p ''data'') (PObj p) of
           PObj data \<Rightarrow>
             let status = safepay_status (py_lower (text_of env (or_else (get_field data ''state'') (get_field data ''status''))))
             in bind_r (safepay_amount env (or_else (get_field data ''amount'') (get_field data ''amount_paid''))) (\<lambda>amount_pkr.
                Inr \<lparr>cb_merchant_txn_ref = text_of env (get_field data ''order_id''), cb_status = status,
                     cb_gateway_txn_id = some_text (text_of env (or_else (get_field data ''token'') (get_field data ''tracker''))),
                     cb_amount_pkr = amount_pkr,
                     cb_failure_reason = (if status = CbFailed then Some (text_of env (get_field data ''error'')) else None),
                     cb_raw_payload = p\<rparr>)
         | _ \<Rightarrow> Inl PyRaised))"

definition nayapay_configured :: "settings \<Rightarrow> bool" where
  "nayapay_configured cfg \<longleftrightarrow> nayapay_api_key cfg \<noteq> [] \<and> nayapay_webhook_secret cfg \<noteq> []"

definition nayapay_create :: "settings \<Rightarrow> CheckoutContext \<Rightarrow> CheckoutResult" where
  "nayapay_create cfg ctx =
     (let page = (\<lambda>base. base @ ''?ref='' @ cx_merchant_txn_ref ctx);
          name = (case cx_customer_name ctx of Some n \<Rightarrow> or_default n (cx_customer_email ctx) | None \<Rightarrow> cx_customer_email ctx)
      in hosted cfg ctx ''nayapay'' (nayapay_configured cfg) (nayapay_environment cfg = ''live'')
           (page ''https://api.nayapay.com/checkout/v1/pay'') (page ''https://sandbox.nayapay.com/checkout/v1/pay'')
           [(''amount_paisas'', PInt (truncate_rat (dval (cx_amount_pkr ctx * Dec 100)))), (''currency'', PStr ''PKR''),
            (''merchant_reference'', PStr (cx_merchant_txn_ref ctx)),
            (''customer'', PObj [(''email'', PStr (cx_customer_email ctx)), (''phone'', PStr (phone_text ctx)), (''name'', PStr name)]),
            (''callbacks'', PObj [(''success_url'', PStr (cx_return_url ctx)), (''cancel_url'', PStr (cx_return_url ctx @ ''?canceled=1'')),
               (''webhook_url'', PStr (cx_callback_url ctx))]),
            (''description'', PStr (cx_description ctx))])"

definition nayapay_verify :: "settings \<Rightarrow> pay_env \<Rightarrow> payload \<Rightarrow> gw_error + CallbackResult" where
  "nayapay_verify cfg env p =
     (let signature = text_of env (get_field p ''_signature''); expected = webhook_digest env (nayapay_webhook_secret cfg) p;
          p = popped p
      in bind_r (check_signature (nayapay_configured cfg) (py_lower signature) (py_lower expected) ''NayaPay webhook signature mismatch.'') (\<lambda>_.
         let status_raw = py_lower (text_of env (get_field p ''status''));
             status = (if status_raw = ''completed'' then CbPaid else if status_raw = ''cancelled'' then CbCanceled
                       else if status_raw = ''pending'' then CbPending else CbFailed)
         in bind_r (paisas (get_field p ''amount_paisas'')) (\<lambda>amount_pkr.
            Inr \<lparr>cb_merchant_txn_ref = text_of env (get_field p ''merchant_reference''), cb_status = status,
                 cb_gateway_txn_id = some_text (text_of env (get_field p ''transaction_id'')), cb_amount_pkr = amount_pkr,
                 cb_failure_reason = (if status = CbFailed then Some (text_of env (get_field p ''error_message'')) else None),
                 cb_raw_payload = p\<rparr>)))"

section \<open>Manual bank transfer\<close>

definition manual_instructions :: "string \<Rightarrow> string \<Rightarrow> string" where
  "manual_instructions amount ref =
     ''Please transfer **PKR '' @ amount @ ''** to the following account and email'' @ [CHR 0x0A]
     @ ''your receipt + this reference number to **hello@psxai.example**:'' @ [CHR 0x0A, CHR 0x0A]
     @ ''    Bank: Meezan Bank Limited'' @ [CHR 0x0A] @ ''    Account title: PSX AI (Pvt) Ltd'' @ [CHR 0x0A]
     @ ''    Account #: [PLACEHOLDER '' @ em_dash @ '' to be filled by ops]'' @ [CHR 0x0A] @ ''    IBAN: [PLACEHOLDER]'' @ [CHR 0x0A, CHR 0x0A]
     @ ''    Reference: '' @ ref @ [CHR 0x0A, CHR 0x0A] @ ''We typically activate accounts within 4 business hours after receipt.''"

definition manual_create :: "CheckoutContext \<Rightarrow> CheckoutResult" where
  "manual_create ctx =
     \<lparr>cr_checkout_url = cx_return_url ctx @ ''?manual=1&ref='' @ cx_merchant_txn_ref ctx, cr_is_sandbox = False,
      cr_request_payload = [(''amount_pkr'', PStr (fmt_amount (cx_amount_pkr ctx))), (''merchant_txn_ref'', PStr (cx_merchant_txn_ref ctx))],
      cr_gateway_txn_id = None,
      cr_instructions = Some (manual_instructions (fmt_amount (cx_amount_pkr ctx)) (cx_merchant_txn_ref ctx))\<rparr>"

definition manual_verify :: "pay_env \<Rightarrow> payload \<Rightarrow> gw_error + CallbackResult" where
  "manual_verify env p =
     (let amount = get_field p ''amount_pkr''
      in bind_r (optional (truthy amount) (decimal_of (py_str env amount))) (\<lambda>amount_pkr.
         Inr \<lparr>cb_merchant_txn_ref = text_of env (get_field p ''merchant_txn_ref''), cb_status = CbPaid,
              cb_gateway_txn_id = some_text (text_of env (get_field p ''bank_ref'')), cb_amount_pkr = amount_pkr,
              cb_failure_reason = None, cb_raw_payload = p\<rparr>))"

section \<open>Registry\<close>

datatype provider = JazzCash | Easypaisa | Meezan | AlliedPayFast | SafePay | NayaPay | Manual

definition PROVIDERS :: "(string \<times> provider) list" where
  "PROVIDERS = [(''jazzcash'', JazzCash), (''easypaisa'', Easypaisa), (''meezan'', Meezan), (''allied_payfast'', AlliedPayFast),
     (''safepay'', SafePay), (''nayapay'', NayaPay), (''manual'', Manual)]"

definition unknown_provider :: "string \<Rightarrow> string" where
  "unknown_provider slug =
     ''Unknown payment provider '' @ apostrophe @ slug @ apostrophe @ ''. Supported: [''
     @ joined '', '' (map (\<lambda>s. apostrophe @ s @ apostrophe) (sort (map fst PROVIDERS))) @ '']''"

definition get_gateway :: "string \<Rightarrow> gw_error + provider" where
  "get_gateway slug = (case map_of PROVIDERS slug of None \<Rightarrow> Inl (GatewayError (unknown_provider slug) 400) | Some g \<Rightarrow> Inr g)"

primrec create_intent :: "settings \<Rightarrow> pay_env \<Rightarrow> int \<Rightarrow> provider \<Rightarrow> CheckoutContext \<Rightarrow> CheckoutResult" where
  "create_intent cfg env now JazzCash ctx = jazzcash_create cfg env now ctx"
| "create_intent cfg env now Easypaisa ctx = easypaisa_create cfg env now ctx"
| "create_intent cfg env now Meezan ctx = meezan_create cfg env ctx"
| "create_intent cfg env now AlliedPayFast ctx = payfast_create cfg env now ctx"
| "create_intent cfg env now SafePay ctx = safepay_create cfg ctx"
| "create_intent cfg env now NayaPay ctx = nayapay_create cfg ctx"
| "create_intent cfg env now Manual ctx = manual_create ctx"

primrec verify_callback :: "settings \<Rightarrow> pay_env \<Rightarrow> provider \<Rightarrow> payload \<Rightarrow> gw_error + CallbackResult" where
  "verify_callback cfg env JazzCash p = jazzcash_verify cfg env p"
| "verify_callback cfg env Easypaisa p = easypaisa_verify cfg env p"
| "verify_callback cfg env Meezan p = meezan_verify cfg env p"
| "verify_callback cfg env AlliedPayFast p = payfast_verify cfg env p"
| "verify_callback cfg env SafePay p = safepay_verify cfg env p"
| "verify_callback cfg env NayaPay p = nayapay_verify cfg env p"
| "verify_callback cfg env Manual p = manual_verify env p"

text \<open>The options of the checkout page: slug, name, category, description and logo.\<close>

definition supported_providers :: "(string \<times> string \<times> string \<times> string \<times> string) list" where
  "supported_providers =
    [(''jazzcash'', ''JazzCash'', ''wallet'', ''Pay with your JazzCash mobile wallet or linked card.'', ''jazzcash''),
     (''easypaisa'', ''Easypaisa'', ''wallet'', ''Pay with your Easypaisa account or OTC at any agent.'', ''easypaisa''),
     (''meezan'', ''Meezan Bank'', ''bank'', ''Direct bank checkout via Meezan IPG (Islamic banking).'', ''meezan''),
     (''allied_payfast'', ''Allied / HBL / UBL / Alfalah (via 1LINK)'', ''bank'',
        ''Pay with any 1LINK-enabled Pakistani bank card via PayFast.'', ''1link''),
     (''safepay'', ''SafePay (Card)'', ''card'', ''Visa / Mastercard processing via SafePay.'', ''safepay''),
     (''nayapay'', ''NayaPay'', ''wallet'', ''Pay with your NayaPay wallet.'', ''nayapay''),
     (''manual'', ''Bank transfer (manual)'', ''manual'', ''Email-based bank transfer. Activation within 24h on confirmation.'', ''bank'')]"

lemma providers_offered: "map fst supported_providers = map fst PROVIDERS"
  by (simp add: supported_providers_def PROVIDERS_def)

end
