(* ===== verification/Billing.thy ===== *)
theory Billing
  imports Payments Auth
begin

text \<open>
  Plans, subscriptions and payment intents: \<^verbatim>\<open>services/billing_service.py\<close>, \<^verbatim>\<open>routers/billing.py\<close> and the
  tables of \<^verbatim>\<open>models/billing.py\<close> and \<^verbatim>\<open>models/payments.py\<close> with the constraints their migrations create.
  Ids, the random reference, the time and the date of today are arguments.
\<close>

section \<open>Tables\<close>

record SubscriptionPlan =
  pl_id :: int
  pl_slug :: string
  pl_name :: string
  pl_tagline :: string
  pl_price_pkr_monthly :: dec
  pl_price_pkr_annual :: "dec option"
  pl_features :: "string list"
  pl_display_order :: int
  pl_is_active :: bool

datatype sub_status = SubActive | SubPastDue | SubCanceled | SubTrialing | SubIncomplete

record UserSubscription =
  sb_id :: string
  sb_user_id :: string
  sb_plan_id :: int
  sb_status :: sub_status
  sb_provider :: "string option"
  sb_provider_subscription_id :: "string option"
  sb_period_start :: date
  sb_period_end :: date
  sb_cancel_at_period_end :: bool
  sb_created_at :: int

datatype intent_status = IntPending | IntRedirected | IntPaid | IntFailed | IntCanceled | IntExpired

text \<open>The reason of a failure: the text of the gateway, or the two amounts that differ.\<close>

datatype failure_reason = GatewayText string | AmountMismatch dec dec

record PaymentIntent =
  pi_id :: string
  pi_user_id :: string
  pi_plan_id :: int
  pi_provider :: string
  pi_billing_cycle :: string
  pi_amount_pkr :: dec
  pi_status :: intent_status
  pi_merchant_txn_ref :: string
  pi_gateway_txn_id :: "string option"
  pi_request_payload :: payload
  pi_response_payload :: "payload option"
  pi_checkout_url :: string
  pi_failure_reason :: "failure_reason option"
  pi_returned_at :: "int option"
  pi_expires_at :: int
  pi_created_at :: int

record billing_db =
  plans :: "SubscriptionPlan list"
  subs :: "UserSubscription list"
  intents :: "PaymentIntent list"

definition live :: "UserSubscription \<Rightarrow> bool" where
  "live s \<longleftrightarrow> sb_status s = SubActive \<or> sb_status s = SubTrialing"

text \<open>The unique index on live subscriptions and the columns of an intent; bytes do not go into a JSON column.\<close>

definition one_live_per_user :: "UserSubscription list \<Rightarrow> bool" where
  "one_live_per_user ss \<longleftrightarrow> distinct (map sb_user_id (filter live ss))"

definition intent_fits :: "PaymentIntent \<Rightarrow> bool" where
  "intent_fits i \<longleftrightarrow> numeric 10 2 (pi_amount_pkr i) \<and> char_len (pi_merchant_txn_ref i) \<le> 60
     \<and> pi_provider i \<in> fst ` set PROVIDERS \<and> (case pi_gateway_txn_id i of Some t \<Rightarrow> char_len t \<le> 120 | None \<Rightarrow> True)
     \<and> (case pi_response_payload i of
          Some p \<Rightarrow> list_all (\<lambda>(k, v). case v of PBytes _ \<Rightarrow> False | _ \<Rightarrow> True) p | None \<Rightarrow> True)"

definition constraints_ok :: "billing_db \<Rightarrow> bool" where
  "constraints_ok db \<longleftrightarrow> one_live_per_user (subs db) \<and> distinct (map sb_id (subs db))
     \<and> distinct (map pi_id (intents db)) \<and> distinct (map pi_merchant_txn_ref (intents db)) \<and> list_all intent_fits (intents db)"

section \<open>Service\<close>

datatype billing_error = BillingError string int | BillingRaised

definition flush_db :: "billing_db \<Rightarrow> billing_error + billing_db" where
  "flush_db db = (if constraints_ok db then Inr db else Inl BillingRaised)"

definition list_plans :: "billing_db \<Rightarrow> SubscriptionPlan list" where
  "list_plans db = sort_key pl_display_order (filter pl_is_active (plans db))"

definition get_plan_by_slug :: "billing_db \<Rightarrow> string \<Rightarrow> SubscriptionPlan option" where
  "get_plan_by_slug db slug = List.find (\<lambda>p. pl_slug p = slug) (plans db)"

definition find_plan :: "billing_db \<Rightarrow> int \<Rightarrow> SubscriptionPlan option" where
  "find_plan db i = List.find (\<lambda>p. pl_id p = i) (plans db)"

definition current_subscription :: "billing_db \<Rightarrow> string \<Rightarrow> UserSubscription option \<times> SubscriptionPlan option" where
  "current_subscription db uid =
     (case sort_key_desc sb_created_at (filter (\<lambda>s. sb_user_id s = uid \<and> live s \<and> find_plan db (sb_plan_id s) \<noteq> None) (subs db)) of
        [] \<Rightarrow> (None, get_plan_by_slug db ''free'')
      | s # _ \<Rightarrow> (Some s, find_plan db (sb_plan_id s)))"

definition cancel_live :: "string \<Rightarrow> UserSubscription list \<Rightarrow> UserSubscription list" where
  "cancel_live uid =
     map (\<lambda>s. if sb_user_id s = uid \<and> live s then s\<lparr>sb_status := SubCanceled, sb_cancel_at_period_end := True\<rparr> else s)"

definition subscribe_free :: "date \<Rightarrow> int \<Rightarrow> string \<Rightarrow> string \<Rightarrow> billing_db \<Rightarrow> billing_error + UserSubscription \<times> billing_db" where
  "subscribe_free today now new_id uid db =
     (case get_plan_by_slug db ''free'' of
        None \<Rightarrow> Inl (BillingError ''Free plan not configured.'' 500)
      | Some plan \<Rightarrow>
          let sub = \<lparr>sb_id = new_id, sb_user_id = uid, sb_plan_id = pl_id plan, sb_status = SubActive, sb_provider = None,
                sb_provider_subscription_id = None, sb_period_start = today, sb_period_end = today + 3650,
                sb_cancel_at_period_end = False, sb_created_at = now\<rparr>
          in bind_r (flush_db (db\<lparr>subs := cancel_live uid (subs db) @ [sub]\<rparr>)) (\<lambda>db. Inr (sub, db)))"

text \<open>The price of a cycle; an annual price of 0 counts as missing.\<close>

definition cycle_amount :: "SubscriptionPlan \<Rightarrow> string \<Rightarrow> dec" where
  "cycle_amount plan cycle =
     (if cycle = ''annual''
      then case pl_price_pkr_annual plan of
             Some a \<Rightarrow> if a \<noteq> Dec 0 then a else pl_price_pkr_monthly plan * Dec 12
           | None \<Rightarrow> pl_price_pkr_monthly plan * Dec 12
      else pl_price_pkr_monthly plan)"

definition gateway_error :: "gw_error \<Rightarrow> billing_error" where
  "gateway_error e = (case e of GatewayError m status \<Rightarrow> BillingError m status | PyRaised \<Rightarrow> BillingRaised)"

definition lift_gw :: "gw_error + 'a \<Rightarrow> billing_error + 'a" where
  "lift_gw r = map_sum gateway_error id r"

definition begin_paid_subscription ::
  "settings \<Rightarrow> pay_env \<Rightarrow> int \<Rightarrow> string \<Rightarrow> string \<Rightarrow> User \<Rightarrow> string \<Rightarrow> string \<Rightarrow> string \<Rightarrow> billing_db
     \<Rightarrow> billing_error + (PaymentIntent \<times> CheckoutResult) \<times> billing_db" where
  "begin_paid_subscription cfg env now token new_id user plan_slug provider cycle db =
     (if cycle \<notin> {''monthly'', ''annual''}
      then Inl (BillingError (''Unknown billing_cycle '' @ apostrophe @ cycle @ apostrophe @ '' '' @ em_dash @ '' expected monthly or annual.'') 400)
      else case get_plan_by_slug db plan_slug of
        None \<Rightarrow> Inl (BillingError (''Unknown plan '' @ apostrophe @ plan_slug @ apostrophe @ ''.'') 404)
      | Some plan \<Rightarrow>
          if pl_slug plan = ''free''
          then Inl (BillingError (''Free plan doesn'' @ apostrophe @ ''t go through checkout '' @ em_dash
                 @ '' use /api/v1/billing/subscribe-free.'') 400)
          else let amount = cycle_amount plan cycle
          in if amount \<le> Dec 0 then Inl (BillingError ''Plan has no price configured.'' 500)
             else bind_r (lift_gw (get_gateway provider)) (\<lambda>gateway.
               let merchant_ref = ''T'' @ py_upper token;
                   ctx = \<lparr>cx_merchant_txn_ref = merchant_ref, cx_amount_pkr = amount,
                     cx_description = ''PSX AI '' @ pl_name plan @ '' ('' @ cycle @ '')'',
                     cx_customer_email = u_email user, cx_customer_name = u_full_name user, cx_customer_phone = u_phone user,
                     cx_return_url = rstrip_slash (payments_return_url cfg) @ ''?ref='' @ merchant_ref,
                     cx_callback_url = rstrip_slash (payments_base_url cfg) @ ''/api/v1/billing/callback/'' @ provider\<rparr>;
                   result = create_intent cfg env now gateway ctx;
                   intent = \<lparr>pi_id = new_id, pi_user_id = u_id user, pi_plan_id = pl_id plan, pi_provider = provider,
                     pi_billing_cycle = cycle, pi_amount_pkr = amount,
                     pi_status = (if gateway = Manual then IntPending else IntRedirected),
                     pi_merchant_txn_ref = merchant_ref, pi_gateway_txn_id = cr_gateway_txn_id result,
                     pi_request_payload = cr_request_payload result, pi_response_payload = None,
                     pi_checkout_url = cr_checkout_url result, pi_failure_reason = None, pi_returned_at = None,
                     pi_expires_at = now + 3600, pi_created_at = now\<rparr>
               in bind_r (flush_db (db\<lparr>intents := intents db @ [intent]\<rparr>)) (\<lambda>db. Inr ((intent, result), db))))"

definition activate_subscription :: "date \<Rightarrow> int \<Rightarrow> string \<Rightarrow> PaymentIntent \<Rightarrow> UserSubscription list \<Rightarrow> UserSubscription list" where
  "activate_subscription today now new_id intent ss =
     cancel_live (pi_user_id intent) ss @
       [\<lparr>sb_id = new_id, sb_user_id = pi_user_id intent, sb_plan_id = pi_plan_id intent, sb_status = SubActive,
         sb_provider = Some (pi_provider intent),
         sb_provider_subscription_id = (case pi_gateway_txn_id intent of
             Some t \<Rightarrow> Some (if t = [] then pi_merchant_txn_ref intent else t) | None \<Rightarrow> Some (pi_merchant_txn_ref intent)),
         sb_period_start = today, sb_period_end = today + (if pi_billing_cycle intent = ''annual'' then 365 else 30),
         sb_cancel_at_period_end = False, sb_created_at = now\<rparr>]"

text \<open>What a callback does to its intent, and whether it activates a subscription.\<close>

definition amount_mismatch :: "CallbackResult \<Rightarrow> PaymentIntent \<Rightarrow> dec option" where
  "amount_mismatch r i =
     (case cb_amount_pkr r of
        Some a \<Rightarrow> if 1 / 100 < \<bar>dval (a - pi_amount_pkr i)\<bar> then Some a else None
      | None \<Rightarrow> None)"

definition settle :: "int \<Rightarrow> CallbackResult \<Rightarrow> PaymentIntent \<Rightarrow> PaymentIntent \<times> bool" where
  "settle now r intent =
     (let i = intent\<lparr>pi_response_payload := Some (cb_raw_payload r), pi_returned_at := Some now,
                pi_gateway_txn_id := (case cb_gateway_txn_id r of Some t \<Rightarrow> Some t | None \<Rightarrow> pi_gateway_txn_id intent)\<rparr>
      in if pi_status intent = IntPaid then (i, False)
         else case cb_status r of
           CbPaid \<Rightarrow>
             (case amount_mismatch r intent of
                Some a \<Rightarrow> (i\<lparr>pi_status := IntFailed, pi_failure_reason := Some (AmountMismatch (pi_amount_pkr intent) a)\<rparr>, False)
              | None \<Rightarrow> (i\<lparr>pi_status := IntPaid\<rparr>, True))
         | CbCanceled \<Rightarrow> (i\<lparr>pi_status := IntCanceled, pi_failure_reason := map_option GatewayText (cb_failure_reason r)\<rparr>, False)
         | CbPending \<Rightarrow> (i\<lparr>pi_status := IntRedirected\<rparr>, False)
         | CbFailed \<Rightarrow> (i\<lparr>pi_status := IntFailed, pi_failure_reason := map_option GatewayText (cb_failure_reason r)\<rparr>, False))"

definition replace_intent :: "PaymentIntent \<Rightarrow> PaymentIntent list \<Rightarrow> PaymentIntent list" where
  "replace_intent i xs = map (\<lambda>x. if pi_id x = pi_id i then i else x) xs"

definition confirm_payment ::
  "settings \<Rightarrow> pay_env \<Rightarrow> date \<Rightarrow> int \<Rightarrow> string \<Rightarrow> string \<Rightarrow> payload \<Rightarrow> billing_db \<Rightarrow> billing_error + PaymentIntent \<times> billing_db" where
  "confirm_payment cfg env today now new_id provider p db =
     bind_r (lift_gw (get_gateway provider)) (\<lambda>gateway.
     bind_r (lift_gw (verify_callback cfg env gateway p)) (\<lambda>result.
       case List.find (\<lambda>i. pi_merchant_txn_ref i = cb_merchant_txn_ref result \<and> pi_provider i = provider) (intents db) of
         None \<Rightarrow> Inl (BillingError (''No matching payment intent for ref '' @ cb_merchant_txn_ref result @ ''.'') 404)
       | Some intent \<Rightarrow>
           let (i, activate) = settle now result intent;
               db' = db\<lparr>intents := replace_intent i (intents db),
                        subs := (if activate then activate_subscription today now new_id i (subs db) else subs db)\<rparr>
           in bind_r (flush_db db') (\<lambda>db'. Inr (i, db'))))"

section \<open>Endpoints\<close>

definition raise_billing :: "billing_error + 'a \<Rightarrow> http_error + 'a" where
  "raise_billing r =
     (case r of Inr x \<Rightarrow> Inr x | Inl (BillingError m status) \<Rightarrow> Inl (HTTPException status m) | Inl BillingRaised \<Rightarrow> Inl ServerError)"

definition list_plans_ep :: "billing_db \<Rightarrow> SubscriptionPlan list" where
  "list_plans_ep db = list_plans db"

definition list_payment_methods :: "(string \<times> string \<times> string \<times> string \<times> string) list" where
  "list_payment_methods = supported_providers"

record CurrentSubscriptionResponse =
  cs_plan :: SubscriptionPlan
  cs_status :: "sub_status option"
  cs_period_start :: "date option"
  cs_period_end :: "date option"
  cs_cancel_at_period_end :: bool

text \<open>No status stands for \<^verbatim>\<open>implicit_free\<close>.\<close>

definition my_subscription :: "User \<Rightarrow> billing_db \<Rightarrow> http_error + CurrentSubscriptionResponse" where
  "my_subscription user db =
     (case current_subscription db (u_id user) of
        (_, None) \<Rightarrow> Inl (HTTPException 500 ''No plans configured.'')
      | (sub, Some plan) \<Rightarrow>
          Inr \<lparr>cs_plan = plan, cs_status = map_option sb_status sub, cs_period_start = map_option sb_period_start sub,
               cs_period_end = map_option sb_period_end sub,
               cs_cancel_at_period_end = (case sub of Some s \<Rightarrow> sb_cancel_at_period_end s | None \<Rightarrow> False)\<rparr>)"

definition subscribe_free_ep :: "date \<Rightarrow> int \<Rightarrow> string \<Rightarrow> User \<Rightarrow> billing_db \<Rightarrow> http_error + UserSubscription \<times> billing_db" where
  "subscribe_free_ep today now new_id user db = raise_billing (subscribe_free today now new_id (u_id user) db)"

definition begin_checkout ::
  "settings \<Rightarrow> pay_env \<Rightarrow> int \<Rightarrow> string \<Rightarrow> string \<Rightarrow> User \<Rightarrow> string \<Rightarrow> string \<Rightarrow> string \<Rightarrow> billing_db
     \<Rightarrow> http_error + (PaymentIntent \<times> CheckoutResult) \<times> billing_db" where
  "begin_checkout cfg env now token new_id user plan_slug provider cycle db =
     (if provider \<notin> fst ` set PROVIDERS \<or> cycle \<notin> {''monthly'', ''annual''} then Inl (HTTPException 422 [])
      else raise_billing (begin_paid_subscription cfg env now token new_id user plan_slug provider cycle db))"

definition get_intent_status :: "User \<Rightarrow> string \<Rightarrow> billing_db \<Rightarrow> http_error + PaymentIntent \<times> string" where
  "get_intent_status user intent_id db =
     (case List.find (\<lambda>i. pi_id i = intent_id) (intents db) of
        None \<Rightarrow> Inl (HTTPException 404 ''Intent not found.'')
      | Some i \<Rightarrow>
          (case find_plan db (pi_plan_id i) of
             None \<Rightarrow> Inl (HTTPException 404 ''Intent not found.'')
           | Some plan \<Rightarrow> if pi_user_id i \<noteq> u_id user then Inl (HTTPException 404 ''Intent not found.'') else Inr (i, pl_slug plan)))"

text \<open>A callback as the gateway posts it.\<close>

record callback_request =
  rq_content_type :: string
  rq_body :: string
  rq_form :: "(string \<times> string) list"
  rq_sfpy_signature :: "string option"
  rq_np_signature :: "string option"

definition header_signature :: "callback_request \<Rightarrow> string" where
  "header_signature rq =
     (case rq_sfpy_signature rq of
        Some (c # s) \<Rightarrow> c # s
      | _ \<Rightarrow> (case rq_np_signature rq of Some s \<Rightarrow> s | None \<Rightarrow> []))"

definition callback_payload :: "pay_env \<Rightarrow> callback_request \<Rightarrow> http_error + payload" where
  "callback_payload env rq =
     (if contains_str ''application/json'' (rq_content_type rq)
      then case json_loads env (if rq_body rq = [] then ''{}'' else rq_body rq) of
             None \<Rightarrow> Inl (HTTPException 400 ''Invalid JSON body.'')
           | Some (PObj p) \<Rightarrow> Inr (upsert ''_raw_body'' (\<lambda>_. PBytes (rq_body rq))
                                (upsert ''_signature'' (\<lambda>_. PStr (header_signature rq)) p))
           | Some _ \<Rightarrow> Inl ServerError
      else Inr (str_payload (rq_form rq)))"

definition gateway_callback ::
  "settings \<Rightarrow> pay_env \<Rightarrow> date \<Rightarrow> int \<Rightarrow> string \<Rightarrow> string \<Rightarrow> callback_request \<Rightarrow> billing_db \<Rightarrow> http_error + PaymentIntent \<times> billing_db" where
  "gateway_callback cfg env today now new_id provider rq db =
     bind_r (callback_payload env rq) (\<lambda>p. raise_billing (confirm_payment cfg env today now new_id provider p db))"

text \<open>The synthetic callback of the sandbox page, one form per gateway.\<close>

definition sandbox_payload :: "PaymentIntent \<Rightarrow> payload" where
  "sandbox_payload i =
     (let ref = pi_merchant_txn_ref i; amount = fmt_amount (pi_amount_pkr i);
          whole = truncate_rat (dval (pi_amount_pkr i * Dec 100)); mark = ''SANDBOX_'' @ ref;
          base = [(''merchant_txn_ref'', PStr ref), (''amount_pkr'', PStr amount)]
      in if pi_provider i = ''jazzcash'' then base @ [(''pp_TxnRefNo'', PStr ref), (''pp_ResponseCode'', PStr ''000''),
           (''pp_Amount'', PStr (str_of_int whole)), (''pp_RetreivalReferenceNo'', PStr mark)]
         else if pi_provider i = ''easypaisa'' then base @ [(''orderRefNum'', PStr ref), (''status'', PStr ''0000''),
           (''paymentToken'', PStr mark), (''amount'', PStr amount)]
         else if pi_provider i = ''meezan'' then base @ [(''OrderId'', PStr ref), (''RC'', PStr ''00''), (''TID'', PStr mark),
           (''Amount'', PStr amount)]
         else if pi_provider i = ''allied_payfast'' then base @ [(''TRANSACTION_ID'', PStr ref), (''RESPONSE_CODE'', PStr ''00''),
           (''TRANSACTION_AMOUNT'', PStr amount), (''REFERENCE_NUMBER'', PStr mark)]
         else if pi_provider i = ''safepay'' then [(''data'', PObj [(''order_id'', PStr ref), (''state'', PStr ''paid''),
           (''amount'', PInt whole), (''tracker'', PStr mark)])]
         else if pi_provider i = ''nayapay'' then [(''merchant_reference'', PStr ref), (''status'', PStr ''completed''),
           (''amount_paisas'', PInt whole), (''transaction_id'', PStr mark)]
         else base)"

definition sandbox_confirm ::
  "settings \<Rightarrow> pay_env \<Rightarrow> date \<Rightarrow> int \<Rightarrow> string \<Rightarrow> User \<Rightarrow> string \<Rightarrow> billing_db \<Rightarrow> http_error + PaymentIntent \<times> billing_db" where
  "sandbox_confirm cfg env today now new_id user intent_id db =
     (case List.find (\<lambda>i. pi_id i = intent_id) (intents db) of
        None \<Rightarrow> Inl (HTTPException 404 ''Intent not found.'')
      | Some intent \<Rightarrow>
          if pi_user_id intent \<noteq> u_id user then Inl (HTTPException 404 ''Intent not found.'')
          else if environment cfg = ''production'' then Inl (HTTPException 403 ''Sandbox confirmation disabled in production.'')
          else raise_billing (confirm_payment cfg env today now new_id (pi_provider intent) (sandbox_payload intent) db))"

section \<open>Requests\<close>

inductive billing_step :: "settings \<Rightarrow> pay_env \<Rightarrow> billing_db \<Rightarrow> billing_db \<Rightarrow> bool" for cfg env where
  free_step: "subscribe_free_ep today now new_id user db = Inr (s, db') \<Longrightarrow> billing_step cfg env db db'"
| checkout_step: "begin_checkout cfg env now token new_id user slug provider cycle db = Inr (r, db') \<Longrightarrow> billing_step cfg env db db'"
| callback_step: "gateway_callback cfg env today now new_id provider rq db = Inr (i, db') \<Longrightarrow> billing_step cfg env db db'"
| sandbox_step: "sandbox_confirm cfg env today now new_id user intent_id db = Inr (i, db') \<Longrightarrow> billing_step cfg env db db'"

definition billing_init :: "billing_db \<Rightarrow> bool" where
  "billing_init db \<longleftrightarrow> subs db = [] \<and> intents db = []"

section \<open>Invariant\<close>

text \<open>The subscriptions a user bought from a provider for a plan, and the payments made for them.\<close>

definition bought :: "billing_db \<Rightarrow> string \<Rightarrow> string \<Rightarrow> int \<Rightarrow> nat" where
  "bought db u p pl = length (filter (\<lambda>s. sb_user_id s = u \<and> sb_provider s = Some p \<and> sb_plan_id s = pl) (subs db))"

definition paid_for :: "billing_db \<Rightarrow> string \<Rightarrow> string \<Rightarrow> int \<Rightarrow> nat" where
  "paid_for db u p pl =
     length (filter (\<lambda>i. pi_user_id i = u \<and> pi_provider i = p \<and> pi_plan_id i = pl \<and> pi_status i = IntPaid) (intents db))"

definition billing_inv :: "billing_db \<Rightarrow> bool" where
  "billing_inv db \<longleftrightarrow> constraints_ok db \<and> (\<forall>u p pl. bought db u p pl = paid_for db u p pl)"

lemma flush_db_Inr: "flush_db db = Inr db' \<longleftrightarrow> db' = db \<and> constraints_ok db"
  by (auto simp: flush_db_def)

lemma raise_billing_Inr [simp]: "raise_billing r = Inr x \<longleftrightarrow> r = Inr x"
  by (auto simp: raise_billing_def split: sum.splits billing_error.splits)

lemma lift_gw_Inr [simp]: "lift_gw r = Inr x \<longleftrightarrow> r = Inr x"
  by (cases r) (simp_all add: lift_gw_def)

lemma filter_cancel_live:
  assumes "\<And>s b c. P (s\<lparr>sb_status := b, sb_cancel_at_period_end := c\<rparr>) = P s"
  shows "length (filter P (cancel_live uid ss)) = length (filter P ss)"
  using assms by (induction ss) (auto simp: cancel_live_def)

lemma bought_cancel_live:
  "length (filter (\<lambda>s. sb_user_id s = u \<and> sb_provider s = Some p \<and> sb_plan_id s = pl) (cancel_live uid ss))
     = length (filter (\<lambda>s. sb_user_id s = u \<and> sb_provider s = Some p \<and> sb_plan_id s = pl) ss)"
  by (rule filter_cancel_live) simp

lemma settle_frame:
  assumes "settle now r x = (i, a)"
  shows "pi_id i = pi_id x" "pi_user_id i = pi_user_id x" "pi_provider i = pi_provider x" "pi_plan_id i = pi_plan_id x"
    "pi_merchant_txn_ref i = pi_merchant_txn_ref x" "pi_amount_pkr i = pi_amount_pkr x" "pi_billing_cycle i = pi_billing_cycle x"
    "pi_status x = IntPaid \<Longrightarrow> pi_status i = IntPaid \<and> \<not> a" "pi_status x \<noteq> IntPaid \<Longrightarrow> a \<longleftrightarrow> pi_status i = IntPaid"
  using assms by (auto simp: settle_def Let_def split: if_splits callback_status.splits option.splits)

text \<open>A confirmation that succeeds: who verified it, which intent it settled and what it left.\<close>

lemma confirm_payment_Inr:
  assumes "confirm_payment cfg env today now new_id provider p db = Inr (i, db')"
  obtains gateway r x a where
    "get_gateway provider = Inr gateway" "verify_callback cfg env gateway p = Inr r" "x \<in> set (intents db)"
    "pi_merchant_txn_ref x = cb_merchant_txn_ref r" "pi_provider x = provider" "settle now r x = (i, a)"
    "db' = db\<lparr>intents := replace_intent i (intents db),
              subs := (if a then activate_subscription today now new_id i (subs db) else subs db)\<rparr>" "constraints_ok db'"
  using assms
  by (auto simp: confirm_payment_def bind_r_Inr_iff flush_db_Inr case_prod_beta find_Some_iff Let_def prod_eq_iff
      split: option.splits) (metis nth_mem prod.collapse)

lemma replace_intent_split:
  assumes "x \<in> set xs" "distinct (map pi_id xs)" "pi_id i = pi_id x"
  obtains as bs where "xs = as @ x # bs" "replace_intent i xs = as @ i # bs"
proof -
  obtain as bs where xs: "xs = as @ x # bs" using assms(1) by (meson split_list)
  have keep: "replace_intent i ys = ys" if "pi_id i \<notin> pi_id ` set ys" for ys
    unfolding replace_intent_def using that by (intro map_idI) (metis image_eqI)
  have "replace_intent i xs = replace_intent i as @ i # replace_intent i bs"
    using assms(3) by (simp add: xs replace_intent_def)
  moreover have "pi_id i \<notin> pi_id ` set as" "pi_id i \<notin> pi_id ` set bs" using assms(2,3) by (auto simp: xs)
  ultimately show thesis using that [OF xs] keep by simp
qed

lemma confirm_payment_inv:
  assumes inv: "billing_inv db" and conf: "confirm_payment cfg env today now new_id provider p db = Inr (i, db')"
  shows "billing_inv db'"
proof (rule confirm_payment_Inr [OF conf])
  fix gateway r x a
  assume x: "x \<in> set (intents db)" and st: "settle now r x = (i, a)"
    and db': "db' = db\<lparr>intents := replace_intent i (intents db),
      subs := (if a then activate_subscription today now new_id i (subs db) else subs db)\<rparr>" and ok: "constraints_ok db'"
  note frame = settle_frame [OF st]
  have ids: "distinct (map pi_id (intents db))" using inv by (simp add: billing_inv_def constraints_ok_def)
  obtain as bs where split: "intents db = as @ x # bs" "replace_intent i (intents db) = as @ i # bs"
    by (rule replace_intent_split [OF x ids frame(1)])
  have new: "intents db' = as @ i # bs" by (simp add: db' split(2))
  have "bought db' u q pl = paid_for db' u q pl" for u q pl
  proof -
    have old: "bought db u q pl = paid_for db u q pl" using inv by (simp add: billing_inv_def)
    have "bought db' u q pl = bought db u q pl + (if a \<and> pi_user_id x = u \<and> pi_provider x = q \<and> pi_plan_id x = pl then 1 else 0)"
      by (simp add: db' bought_def activate_subscription_def bought_cancel_live frame)
    moreover have "paid_for db' u q pl = paid_for db u q pl + (if a \<and> pi_user_id x = u \<and> pi_provider x = q \<and> pi_plan_id x = pl then 1 else 0)"
      using frame by (cases "pi_status x = IntPaid") (simp_all add: paid_for_def new split(1))
    ultimately show ?thesis using old by simp
  qed
  with ok show ?thesis by (simp add: billing_inv_def)
qed

lemma billing_step_inv:
  assumes "billing_step cfg env db db'" and "billing_inv db"
  shows "billing_inv db'"
  using assms(1)
proof cases
  case (free_step today now new_id user s)
  then show ?thesis using assms(2)
    by (auto simp: subscribe_free_ep_def subscribe_free_def Let_def bind_r_Inr_iff flush_db_Inr billing_inv_def bought_def
        paid_for_def bought_cancel_live split: option.splits)
next
  case (checkout_step now token new_id user slug provider cycle r)
  then show ?thesis using assms(2)
    by (auto simp: begin_checkout_def begin_paid_subscription_def Let_def bind_r_Inr_iff flush_db_Inr billing_inv_def bought_def
        paid_for_def split: option.splits if_splits)
next
  case (callback_step today now new_id provider rq i)
  then show ?thesis using assms(2) by (auto simp: gateway_callback_def bind_r_Inr_iff intro: confirm_payment_inv)
next
  case (sandbox_step today now new_id user intent_id i)
  then show ?thesis using assms(2) by (auto simp: sandbox_confirm_def split: option.splits if_splits intro: confirm_payment_inv)
qed

lemma billing_init_inv: "billing_init db \<Longrightarrow> billing_inv db"
  by (simp add: billing_init_def billing_inv_def constraints_ok_def one_live_per_user_def bought_def paid_for_def)

interpretation billing: invariant_system billing_init "billing_step cfg env" billing_inv for cfg env
  by unfold_locales (fact billing_init_inv, rule billing_step_inv)

section \<open>Signatures\<close>

text \<open>The gateways that check a signature, and what they compare.\<close>

primrec configured :: "settings \<Rightarrow> provider \<Rightarrow> bool" where
  "configured cfg JazzCash = jazzcash_configured cfg"
| "configured cfg Easypaisa = easypaisa_configured cfg"
| "configured cfg Meezan = meezan_configured cfg"
| "configured cfg AlliedPayFast = payfast_configured cfg"
| "configured cfg SafePay = safepay_configured cfg"
| "configured cfg NayaPay = nayapay_configured cfg"
| "configured cfg Manual = False"

primrec genuine :: "settings \<Rightarrow> pay_env \<Rightarrow> provider \<Rightarrow> payload \<Rightarrow> bool" where
  "genuine cfg env JazzCash p \<longleftrightarrow>
     py_lower (text_of env (get_field p ''pp_SecureHash'')) = py_lower (jazzcash_hash cfg env (flat env ''pp_SecureHash'' p))"
| "genuine cfg env Easypaisa p \<longleftrightarrow> text_of env (get_field p ''merchantHashedReq'') =
     easypaisa_hash cfg env (flat env ''merchantHashedReq'' p) (sort (map fst (flat env ''merchantHashedReq'' p)))"
| "genuine cfg env Meezan p \<longleftrightarrow> py_lower (text_of env (get_field p ''Hash'')) = py_lower (sha256_hex env (joined ''|''
     [meezan_secret_key cfg, meezan_merchant_id cfg, text_of env (get_field p ''OrderId''), text_of env (get_field p ''Amount''),
      text_of env (get_field p ''RC''), text_of env (get_field p ''TID'')]))"
| "genuine cfg env AlliedPayFast p \<longleftrightarrow>
     py_lower (text_of env (get_field p ''SIGNATURE'')) = py_lower (payfast_sign cfg env (flat env ''SIGNATURE'' p))"
| "genuine cfg env SafePay p \<longleftrightarrow>
     py_lower (text_of env (get_field p ''_signature'')) = py_lower (webhook_digest env (safepay_webhook_secret cfg) p)"
| "genuine cfg env NayaPay p \<longleftrightarrow>
     py_lower (text_of env (get_field p ''_signature'')) = py_lower (webhook_digest env (nayapay_webhook_secret cfg) p)"
| "genuine cfg env Manual p \<longleftrightarrow> False"

lemma check_signature_Inr: "check_signature c a b m = Inr u \<Longrightarrow> c \<Longrightarrow> a = b"
  by (auto simp: check_signature_def compare_digest_def bind_r_Inr_iff split: if_splits)

lemma verified_genuine:
  assumes "verify_callback cfg env g p = Inr r" "configured cfg g"
  shows "genuine cfg env g p"
  using assms
  by (cases g) (auto simp: jazzcash_verify_def easypaisa_verify_def meezan_verify_def payfast_verify_def safepay_verify_def
      nayapay_verify_def Let_def bind_r_Inr_iff dest: check_signature_Inr)

section \<open>Properties\<close>

lemma distinct_map_at_most_one: "distinct (map f xs) \<Longrightarrow> length (filter (\<lambda>x. f x = u) xs) \<le> 1"
proof (induction xs)
  case (Cons x xs)
  have "filter (\<lambda>y. f y = f x) xs = []" using Cons.prems by (simp add: filter_empty_conv) (metis image_eqI)
  then show ?case using Cons by auto
qed simp

text \<open>A verified payment of an intent that is not yet paid goes through: the tables accept it.\<close>

lemma filter_live_cancel: "filter live (cancel_live uid ss) = filter (\<lambda>s. sb_user_id s \<noteq> uid) (filter live ss)"
  by (induction ss) (auto simp: cancel_live_def live_def)

lemma activate_one_live:
  assumes "one_live_per_user ss"
  shows "one_live_per_user (activate_subscription today now new_id i ss)"
proof -
  have "distinct (map sb_user_id (filter (\<lambda>s. sb_user_id s \<noteq> pi_user_id i) (filter live ss)))"
    using assms unfolding one_live_per_user_def by (rule distinct_map_filter)
  then show ?thesis by (auto simp: one_live_per_user_def activate_subscription_def filter_live_cancel live_def)
qed

lemma confirm_pays:
  assumes inv: "billing_inv db" and x: "x \<in> set (intents db)" "pi_status x \<noteq> IntPaid" and g: "get_gateway (pi_provider x) = Inr g"
    and v: "verify_callback cfg env g p = Inr r" "cb_merchant_txn_ref r = pi_merchant_txn_ref x" "cb_status r = CbPaid"
      "amount_mismatch r x = None"
    and fits: "list_all (\<lambda>(k, v). case v of PBytes _ \<Rightarrow> False | _ \<Rightarrow> True) (cb_raw_payload r)"
      "case cb_gateway_txn_id r of Some t \<Rightarrow> char_len t \<le> 120 | None \<Rightarrow> True"
    and fresh: "new_id \<notin> sb_id ` set (subs db)"
  shows "\<exists>i db'. confirm_payment cfg env today now new_id (pi_provider x) p db = Inr (i, db') \<and> pi_id i = pi_id x \<and> pi_status i = IntPaid
    \<and> (\<exists>s\<in>set (subs db'). sb_user_id s = pi_user_id x \<and> sb_plan_id s = pi_plan_id x \<and> live s)"
proof -
  have ok: "constraints_ok db" using inv by (simp add: billing_inv_def)
  obtain i where st: "settle now r x = (i, True)" using x(2) v(3,4) by (simp add: settle_def Let_def)
  note frame = settle_frame [OF st]
  have ids: "distinct (map pi_id (intents db))" and refs: "distinct (map pi_merchant_txn_ref (intents db))"
    using ok by (simp_all add: constraints_ok_def)
  have found: "List.find (\<lambda>y. pi_merchant_txn_ref y = cb_merchant_txn_ref r \<and> pi_provider y = pi_provider x) (intents db) = Some x"
  proof (cases "List.find (\<lambda>y. pi_merchant_txn_ref y = cb_merchant_txn_ref r \<and> pi_provider y = pi_provider x) (intents db)")
    case None
    then have "\<not> (pi_merchant_txn_ref x = cb_merchant_txn_ref r \<and> pi_provider x = pi_provider x)" using x(1) by (auto simp: find_None_iff)
    then show ?thesis using v(2) by simp
  next
    case (Some y)
    then have "y \<in> set (intents db)" "pi_merchant_txn_ref y = pi_merchant_txn_ref x"
      using v(2) by (auto simp: find_Some_iff)
    then have "y = x" using refs x(1) by (metis distinct_map inj_onD)
    then show ?thesis using Some by simp
  qed
  obtain as bs where split: "intents db = as @ x # bs" "replace_intent i (intents db) = as @ i # bs"
    by (rule replace_intent_split [OF x(1) ids frame(1)])
  have "intent_fits x" using ok x(1) by (simp add: constraints_ok_def list_all_iff)
  then have "intent_fits i" using st fits x(2) v(3,4)
    by (auto simp: intent_fits_def settle_def Let_def split: option.splits intro: rev_image_eqI)
  moreover have "map sb_id (activate_subscription today now new_id i (subs db)) = map sb_id (subs db) @ [new_id]"
    by (simp add: activate_subscription_def cancel_live_def)
  ultimately have "constraints_ok (db\<lparr>intents := replace_intent i (intents db), subs := activate_subscription today now new_id i (subs db)\<rparr>)"
    using ok fresh activate_one_live frame(1,5) split(2) [unfolded split(1)] unfolding constraints_ok_def split(1) by simp
  then have "confirm_payment cfg env today now new_id (pi_provider x) p db
    = Inr (i, db\<lparr>intents := replace_intent i (intents db), subs := activate_subscription today now new_id i (subs db)\<rparr>)"
    by (simp add: confirm_payment_def lift_gw_def g v(1) found st flush_db_def Let_def)
  then show ?thesis using frame st by (auto simp: activate_subscription_def live_def)
qed

text \<open>Amounts are printed and read back exactly.\<close>

lemma decimal_of_amount:
  assumes "0 \<le> dval d" "places 2 (dval d)"
  shows "decimal_of (fmt_amount d) = Inr d" "fmt_amount d \<noteq> []"
proof -
  note lit = fmt_fixed_literal [OF assms]
  have "py_strip (fmt_amount d) = fmt_amount d" using lit by (intro py_strip_id) (simp add: fmt_amount_def list_all_iff)
  moreover have "filter (\<lambda>c. c \<noteq> CHR ''_'') (fmt_amount d) = fmt_amount d"
    using lit by (auto simp: fmt_amount_def list_all_iff intro: filter_True)
  ultimately show "decimal_of (fmt_amount d) = Inr d" using lit by (simp add: decimal_of_def fmt_amount_def)
  show "fmt_amount d \<noteq> []" using lit by (simp add: fmt_amount_def)
qed

lemma whole_paisas:
  assumes "numeric 10 2 d"
  shows "Dec (of_int (truncate_rat (dval (d * Dec 100)))) / Dec 100 = d"
proof -
  obtain j where j: "dval d * 100 = of_int j" using assms by (auto simp: numeric_def places_def elim: Ints_cases)
  have "\<bar>(of_int j :: rat)\<bar> < 10 ^ 10" using assms j by (simp add: numeric_def abs_mult flip: j)
  then have small: "\<bar>j\<bar> < 10 ^ 10" by (metis of_int_abs of_int_less_numeral_power_cancel_iff)
  then have "dec28 (of_int j) = of_int j" using dec_r.exact_int [of j] by simp
  then have "truncate_rat (dval (d * Dec 100)) = j" by (simp add: j truncate_rat_def)
  moreover have "dec28 (of_int j / 100) = of_int j / 100"
    using dec28_places [of 2 "of_int j / 100"] small by (simp add: places_def)
  ultimately show ?thesis using j by (simp add: dec_eq_iff field_simps)
qed

text \<open>
  C23: in every state the endpoints can reach, a user has at most one live subscription, and every payment
  bought exactly one subscription: for each user, provider and plan the subscriptions bought are as
  many as the intents marked paid, however often callbacks are repeated.
\<close>

theorem billing_reachable:
  assumes "reach billing_init (billing_step cfg env) db"
  shows "length (filter (\<lambda>s. sb_user_id s = u \<and> live s) (subs db)) \<le> 1 \<and> bought db u p pl = paid_for db u p pl"
proof -
  have inv: "billing_inv db" using assms by (rule billing.reach_inv)
  then have "distinct (map sb_user_id (filter live (subs db)))"
    by (simp add: billing_inv_def constraints_ok_def one_live_per_user_def)
  from distinct_map_at_most_one [OF this, of u] inv show ?thesis
    by (simp add: billing_inv_def conj_commute)
qed


text \<open>
  The callback of the manual gateway needs no secret. Whatever the settings, an unauthenticated form
  post with nothing but the reference the checkout has shown to the payer marks a pending manual
  intent paid and gives its user a live subscription to the plan.
\<close>

lemma manual_callback_unauthenticated:
  assumes inv: "billing_inv db" and x: "x \<in> set (intents db)" "pi_status x \<noteq> IntPaid" "pi_provider x = ''manual''"
    and ref: "pi_merchant_txn_ref x \<noteq> []" and fresh: "new_id \<notin> sb_id ` set (subs db)"
  shows "\<exists>i db'. gateway_callback cfg env today now new_id ''manual''
      \<lparr>rq_content_type = [], rq_body = [], rq_form = [(''merchant_txn_ref'', pi_merchant_txn_ref x)],
       rq_sfpy_signature = None, rq_np_signature = None\<rparr> db = Inr (i, db')
    \<and> pi_id i = pi_id x \<and> pi_status i = IntPaid
    \<and> (\<exists>s\<in>set (subs db'). sb_user_id s = pi_user_id x \<and> sb_plan_id s = pi_plan_id x \<and> live s)"
proof -
  let ?p = "[(''merchant_txn_ref'', PStr (pi_merchant_txn_ref x))]"
  define r where "r = \<lparr>cb_merchant_txn_ref = pi_merchant_txn_ref x, cb_status = CbPaid, cb_gateway_txn_id = None, cb_amount_pkr = None,
    cb_failure_reason = None, cb_raw_payload = ?p\<rparr>"
  have g: "get_gateway (pi_provider x) = Inr Manual" by (simp add: x(3) get_gateway_def PROVIDERS_def)
  have "verify_callback cfg env Manual ?p = Inr r" using ref
    by (simp add: manual_verify_def get_field_def optional_def text_of_def or_else_def some_text_def r_def)
  from confirm_pays [OF inv x(1,2) g this, of new_id today now] fresh show ?thesis
    by (simp add: r_def amount_mismatch_def gateway_callback_def callback_payload_def str_payload_def x(3))
qed

lemma get_gateway_slug: "get_gateway slug = Inr g \<longleftrightarrow> slug = (case g of JazzCash \<Rightarrow> ''jazzcash'' | Easypaisa \<Rightarrow> ''easypaisa''
    | Meezan \<Rightarrow> ''meezan'' | AlliedPayFast \<Rightarrow> ''allied_payfast'' | SafePay \<Rightarrow> ''safepay'' | NayaPay \<Rightarrow> ''nayapay'' | Manual \<Rightarrow> ''manual'')"
  by (cases g) (auto simp: get_gateway_def PROVIDERS_def)

lemmas callback_defs = sandbox_payload_def Let_def get_field_def text_of_def or_else_def some_text_def optional_def check_signature_def
  popped_def paisas_def jazzcash_verify_def easypaisa_verify_def meezan_verify_def payfast_verify_def safepay_verify_def
  nayapay_verify_def manual_verify_def safepay_amount_def

lemma sandbox_verified:
  assumes fits: "intent_fits x" and pos: "0 < dval (pi_amount_pkr x)" and ref: "pi_merchant_txn_ref x \<noteq> []"
    and g: "get_gateway (pi_provider x) = Inr g" "\<not> configured cfg g"
  shows "\<exists>r. verify_callback cfg env g (sandbox_payload x) = Inr r \<and> cb_merchant_txn_ref r = pi_merchant_txn_ref x \<and> cb_status r = CbPaid
    \<and> cb_amount_pkr r = Some (pi_amount_pkr x) \<and> list_all (\<lambda>(k, v). case v of PBytes _ \<Rightarrow> False | _ \<Rightarrow> True) (cb_raw_payload r)
    \<and> cb_gateway_txn_id r \<in> {None, Some (''SANDBOX_'' @ pi_merchant_txn_ref x)}"
proof -
  have num: "numeric 10 2 (pi_amount_pkr x)" using fits by (simp add: intent_fits_def)
  then have amount: "decimal_of (fmt_amount (pi_amount_pkr x)) = Inr (pi_amount_pkr x)" "fmt_amount (pi_amount_pkr x) \<noteq> []"
    using pos decimal_of_amount by (simp_all add: numeric_def)
  define w where "w = truncate_rat (dec28 (dval (pi_amount_pkr x) * 100))"
  have whole: "Dec (of_int w) / Dec 100 = pi_amount_pkr x" using whole_paisas [OF num] by (simp add: w_def)
  have "0 \<le> dec28 (dval (pi_amount_pkr x) * 100)" using pos by (simp add: dec_r.nonneg)
  then have "0 \<le> w" by (simp add: w_def truncate_rat_def)
  moreover have "w \<noteq> 0" using whole pos by (auto simp: dec_eq_iff)
  ultimately have digits: "all_digits (str_of_int w)" "w \<noteq> 0" using str_of_nat_digits [of "nat w"] by (simp_all add: all_digits_def str_of_int_def)
  have int: "int_of (PStr (str_of_int w)) = Inr w" "int_of (PInt w) = Inr w"
    by (simp_all add: int_of_def strip_str_of_int int_literal_str)
  note slug = g(1) [unfolded get_gateway_slug]
  note facts = w_def [symmetric] whole int digits amount ref
  show ?thesis
  proof (cases g)
    case JazzCash
    then show ?thesis using slug g(2) by (simp add: callback_defs facts)
  next
    case Easypaisa
    then show ?thesis using slug g(2) by (simp add: callback_defs facts)
  next
    case Meezan
    then show ?thesis using slug g(2) by (simp add: callback_defs facts)
  next
    case AlliedPayFast
    then show ?thesis using slug g(2) by (simp add: callback_defs facts)
  next
    case SafePay
    have "safepay_status ''paid'' = CbPaid" "py_lower ''paid'' = ''paid''" by code_simp+
    then show ?thesis using slug g(2) SafePay by (simp add: callback_defs facts)
  next
    case NayaPay
    have "py_lower ''completed'' = ''completed''" by code_simp
    then show ?thesis using slug g(2) NayaPay by (simp add: callback_defs facts)
  next
    case Manual
    then show ?thesis using slug g(2) by (simp add: callback_defs facts)
  qed
qed


section \<open>Examples\<close>

definition ex_pay_env :: pay_env where
  "ex_pay_env = \<lparr>hmac_sha256_hex = (\<lambda>k m. k @ m), hmac_sha256_b64 = (\<lambda>k m. k @ m), sha256_hex = (\<lambda>m. m),
     json_dumps = (\<lambda>p. []), json_loads = (\<lambda>s. None), str_of_value = (\<lambda>v. [])\<rparr>"

definition ex_settings :: settings where
  "ex_settings = \<lparr>environment = ''development'', payments_base_url = [], payments_return_url = [], jazzcash_merchant_id = [],
     jazzcash_password = [], jazzcash_integrity_salt = [], jazzcash_environment = [], easypaisa_store_id = [], easypaisa_hash_key = [],
     easypaisa_environment = [], meezan_merchant_id = [], meezan_secret_key = [], meezan_environment = [], payfast_merchant_id = [],
     payfast_secret_key = [], payfast_environment = [], safepay_api_key = [], safepay_webhook_secret = [], safepay_environment = [],
     nayapay_api_key = [], nayapay_webhook_secret = [], nayapay_environment = []\<rparr>"

definition ex_payer :: User where "ex_payer = new_user ''u1'' ''a'' [] None 0"

definition ex_intent :: "string \<Rightarrow> PaymentIntent" where
  "ex_intent provider = \<lparr>pi_id = ''i1'', pi_user_id = ''u1'', pi_plan_id = 2, pi_provider = provider, pi_billing_cycle = ''monthly'',
     pi_amount_pkr = Dec 900, pi_status = IntPending, pi_merchant_txn_ref = ''T1'', pi_gateway_txn_id = None, pi_request_payload = [],
     pi_response_payload = None, pi_checkout_url = [], pi_failure_reason = None, pi_returned_at = None, pi_expires_at = 3600,
     pi_created_at = 0\<rparr>"

definition ex_billing :: "string \<Rightarrow> billing_db" where
  "ex_billing provider = \<lparr>plans = [], subs = [], intents = [ex_intent provider]\<rparr>"

lemma ex_billing_inv: "provider \<in> {''manual'', ''meezan''} \<Longrightarrow> billing_inv (ex_billing provider)"
proof -
  assume "provider \<in> {''manual'', ''meezan''}"
  then have "provider \<in> fst ` set PROVIDERS" by (auto simp: PROVIDERS_def)
  then show ?thesis
    by (simp add: billing_inv_def constraints_ok_def one_live_per_user_def intent_fits_def ex_billing_def ex_intent_def bought_def
        paid_for_def numeric_def places_def char_len_def)
qed

lemma ex_manual_confirmed:
  "\<exists>i db'. gateway_callback ex_settings ex_pay_env 738000 100 ''s1'' ''manual''
      \<lparr>rq_content_type = [], rq_body = [], rq_form = [(''merchant_txn_ref'', ''T1'')], rq_sfpy_signature = None, rq_np_signature = None\<rparr>
      (ex_billing ''manual'') = Inr (i, db')"
proof -
  have "is_ok (gateway_callback ex_settings ex_pay_env 738000 100 ''s1'' ''manual''
      \<lparr>rq_content_type = [], rq_body = [], rq_form = [(''merchant_txn_ref'', ''T1'')], rq_sfpy_signature = None, rq_np_signature = None\<rparr>
      (ex_billing ''manual''))" by code_simp
  then show ?thesis by (auto simp only: is_ok_ex split_paired_Ex)
qed



theorem billing_reachable_witness:
  "\<exists>db. reach billing_init (billing_step ex_settings ex_pay_env) db \<and> length (filter (\<lambda>s. sb_user_id s = ''u1'' \<and> live s) (subs db)) = 1
     \<and> bought db ''u1'' ''manual'' 2 = paid_for db ''u1'' ''manual'' 2"
proof -
  let ?db = "\<lparr>plans = [\<lparr>pl_id = 1, pl_slug = ''free'', pl_name = [], pl_tagline = [], pl_price_pkr_monthly = Dec 0,
    pl_price_pkr_annual = None, pl_features = [], pl_display_order = 1, pl_is_active = True\<rparr>], subs = [], intents = []\<rparr>"
  obtain s db' where step: "subscribe_free_ep 738000 100 ''s1'' ex_payer ?db = Inr (s, db')" and one: "subs db' = [s]" "sb_user_id s = ''u1''" "live s"
    by (simp add: subscribe_free_ep_def subscribe_free_def get_plan_by_slug_def flush_db_def constraints_ok_def one_live_per_user_def
        cancel_live_def ex_payer_def new_user_def live_def Let_def)
  have "reach billing_init (billing_step ex_settings ex_pay_env) ?db" by (rule reach_init) (simp add: billing_init_def)
  then have reach: "reach billing_init (billing_step ex_settings ex_pay_env) db'" using free_step [OF step] by (rule reach_step)
  show ?thesis using billing_reachable [OF reach, of "''u1''" "''manual''" 2] reach one by (intro exI [of _ db']) simp
qed

end
