(* ===== verification/StrategyBuilder.thy ===== *)
theory StrategyBuilder
  imports Strategies
begin

text \<open>
  Rule chains written by users, \<^verbatim>\<open>psx_api/strategy_builder/parse.py\<close>: a parsed JSON value is validated by
  evaluating it on synthetic bars and turned into a strategy for the backtest engine. \<^verbatim>\<open>InvalidStrategyError\<close>
  is \<open>StrategyErr\<close>; the text of a printed value or of another exception is an argument.
\<close>

record printer =
  pr_value :: "json \<Rightarrow> string"
  pr_error :: "backtest_error \<Rightarrow> string"

section \<open>Python on parsed JSON\<close>

text \<open>\<^verbatim>\<open>d.get(k, v)\<close>, \<^verbatim>\<open>k in d\<close>, \<^verbatim>\<open>d[k]\<close> for a string \<^verbatim>\<open>k\<close>, iteration and truth, with the exceptions they raise.\<close>

definition obj_get :: "json \<Rightarrow> string \<Rightarrow> json \<Rightarrow> backtest_error + json" where
  "obj_get d k v = (case d of JObj m \<Rightarrow> Inr (case map_of m k of Some w \<Rightarrow> w | None \<Rightarrow> v) | _ \<Rightarrow> Inl AttrErr)"

definition has_key :: "json \<Rightarrow> string \<Rightarrow> backtest_error + bool" where
  "has_key d k =
     (case d of
        JObj m \<Rightarrow> Inr (map_of m k \<noteq> None) | JList xs \<Rightarrow> Inr (JStr k \<in> set xs) | JStr s \<Rightarrow> Inr (contains_str k s) | _ \<Rightarrow> Inl TypeErr)"

definition item :: "json \<Rightarrow> string \<Rightarrow> backtest_error + json" where
  "item d k =
     (case d of JObj m \<Rightarrow> (case map_of m k of Some w \<Rightarrow> Inr w | None \<Rightarrow> Inl (KeyErr k)) | _ \<Rightarrow> Inl TypeErr)"

definition py_iter :: "json \<Rightarrow> backtest_error + json list" where
  "py_iter v =
     (case v of
        JList xs \<Rightarrow> Inr xs | JObj m \<Rightarrow> Inr (map (\<lambda>(k, w). JStr k) m) | JStr s \<Rightarrow> Inr (map (\<lambda>c. JStr [c]) s) | _ \<Rightarrow> Inl TypeErr)"

fun json_truthy :: "json \<Rightarrow> bool" where
  "json_truthy JNull = False"
| "json_truthy (JBool b) = b"
| "json_truthy (JNum q) = (q \<noteq> 0)"
| "json_truthy (JStr s) = (s \<noteq> [])"
| "json_truthy (JList xs) = (xs \<noteq> [])"
| "json_truthy (JObj m) = (m \<noteq> [])"

text \<open>\<^verbatim>\<open>all\<close> and \<^verbatim>\<open>any\<close> stop at the first element that decides; a comprehension visits every element.\<close>

fun all_r :: "('a \<Rightarrow> 'e + bool) \<Rightarrow> 'a list \<Rightarrow> 'e + bool" where
  "all_r f [] = Inr True"
| "all_r f (x # xs) = bind_r (f x) (\<lambda>b. if b then all_r f xs else Inr False)"

fun any_r :: "('a \<Rightarrow> 'e + bool) \<Rightarrow> 'a list \<Rightarrow> 'e + bool" where
  "any_r f [] = Inr False"
| "any_r f (x # xs) = bind_r (f x) (\<lambda>b. if b then Inr True else any_r f xs)"

fun filter_r :: "('a \<Rightarrow> 'e + bool) \<Rightarrow> 'a list \<Rightarrow> 'e + 'a list" where
  "filter_r f [] = Inr []"
| "filter_r f (x # xs) = bind_r (f x) (\<lambda>b. bind_r (filter_r f xs) (\<lambda>ys. Inr (if b then x # ys else ys)))"

section \<open>Operands\<close>

text \<open>
  The last value of \<^verbatim>\<open>compute.atr\<close> for any integer. A negative period is not refused: \<^verbatim>\<open>trs[:period]\<close> drops
  values from the end, \<^verbatim>\<open>out[period]\<close> and \<^verbatim>\<open>trs[i - 1]\<close> count from the end where the index is negative.
\<close>

definition py_nth :: "'a list \<Rightarrow> int \<Rightarrow> 'a" where
  "py_nth xs j = xs ! nat (if j < 0 then int (length xs) + j else j)"

definition atr_last :: "flt list \<Rightarrow> flt list \<Rightarrow> flt list \<Rightarrow> int \<Rightarrow> backtest_error + flt option" where
  "atr_last highs lows closes period =
     (if 0 \<le> period then last_value (atr highs lows closes (nat period))
      else let n = length closes; m = nat (- period); trs = map (true_range highs lows closes) [1..<n];
               d = flt_of_int period
           in if n \<le> m then Inl IndexErr
              else Inr (Some (foldl (\<lambda>prev i. (prev * flt_of_int (period - 1) + py_nth trs (i - 1)) / d)
                     (flt_sum (take (n - 1 - m) trs) / d) [period + 1..int n - 1])))"

definition constant_value :: "printer \<Rightarrow> json \<Rightarrow> backtest_error + flt option" where
  "constant_value pr operand =
     (case bind_r (item operand ''value'') (\<lambda>v. conv (py_float v)) of
        Inr x \<Rightarrow> Inr (Some x) | Inl e \<Rightarrow> Inl (StrategyErr (''Bad constant: '' @ pr_value pr operand)))"

definition indicator_value :: "string \<Rightarrow> int \<Rightarrow> Bar list \<Rightarrow> nat \<Rightarrow> backtest_error + flt option" where
  "indicator_value name period bars i =
     (let bs = take (i + 1) bars; closes = map b_close bs; highs = map b_high bs; lows = map b_low bs
      in if name = ''rsi'' then last_value (rsi closes period)
         else if name = ''sma'' then last_value (sma closes period)
         else if name = ''ema'' then last_value (ema closes period)
         else if name = ''macd_histogram'' then bind_r (macd closes 12 26 9) (\<lambda>d. last_value (Inr (macd_histogram d)))
         else if name = ''stochastic_k'' then bind_r (stochastic highs lows closes (nat period) 3) (\<lambda>(k, d). last_value (Inr k))
         else if name = ''atr'' then atr_last highs lows closes period
         else if name = ''volume'' then Inr (if i < length bars then Some (b_volume (bars ! i)) else None)
         else Inl (StrategyErr (''Unknown indicator '' @ apostrophe @ name @ apostrophe)))"

definition eval_operand :: "printer \<Rightarrow> json \<Rightarrow> Bar list \<Rightarrow> nat \<Rightarrow> backtest_error + flt option" where
  "eval_operand pr operand bars i =
     bind_r (obj_get operand ''kind'' JNull) (\<lambda>kind.
       if kind = JStr ''constant'' then constant_value pr operand
       else if kind = JStr ''price''
       then Inr (if take (i + 1) bars = [] then None else Some (last (map b_close (take (i + 1) bars))))
       else if kind = JStr ''indicator''
       then bind_r (obj_get operand ''name'' (JStr [])) (\<lambda>nm.
              case nm of
                JStr s \<Rightarrow>
                  bind_r (obj_get operand ''period'' (JNum 14)) (\<lambda>p.
                  bind_r (conv (py_int p)) (\<lambda>period. indicator_value (py_lower s) period bars i))
              | _ \<Rightarrow> Inl AttrErr)
       else Inl (StrategyErr (''Unknown operand kind '' @ apostrophe @ pr_value pr kind @ apostrophe)))"

section \<open>Conditions and groups\<close>

definition OPS :: "(string \<times> (flt \<Rightarrow> flt \<Rightarrow> bool)) list" where
  "OPS = [(''<'', \<lambda>a b. a < b), (''<='', \<lambda>a b. a \<le> b), (''>'', \<lambda>a b. b < a), (''>='', \<lambda>a b. b \<le> a), (''=='', \<lambda>a b. a = b)]"

text \<open>An operator that is a list or an object cannot be looked up.\<close>

definition find_op :: "printer \<Rightarrow> json \<Rightarrow> backtest_error + (flt \<Rightarrow> flt \<Rightarrow> bool)" where
  "find_op pr op =
     (let unknown = Inl (StrategyErr (''Unknown operator '' @ apostrophe @ pr_value pr op @ apostrophe))
      in case op of
           JStr s \<Rightarrow> (case map_of OPS s of Some f \<Rightarrow> Inr f | None \<Rightarrow> unknown)
         | JList _ \<Rightarrow> Inl TypeErr | JObj _ \<Rightarrow> Inl TypeErr | _ \<Rightarrow> unknown)"

definition is_time_stop :: "json \<Rightarrow> backtest_error + bool" where
  "is_time_stop c = bind_r (obj_get c ''kind'' JNull) (\<lambda>k. Inr (k = JStr ''holding_days_gt''))"

definition eval_condition :: "printer \<Rightarrow> Bar list \<Rightarrow> nat \<Rightarrow> json \<Rightarrow> backtest_error + bool" where
  "eval_condition pr bars i cond =
     bind_r (is_time_stop cond) (\<lambda>stop.
       if stop then Inr False
       else bind_r (obj_get cond ''operator'' JNull) (\<lambda>op.
            bind_r (find_op pr op) (\<lambda>f.
            bind_r (obj_get cond ''left'' (JObj [])) (\<lambda>l.
            bind_r (eval_operand pr l bars i) (\<lambda>left.
            bind_r (obj_get cond ''right'' (JObj [])) (\<lambda>r.
            bind_r (eval_operand pr r bars i) (\<lambda>right.
              Inr (case (left, right) of (Some a, Some b) \<Rightarrow> f a b | _ \<Rightarrow> False))))))))"

definition eval_group :: "printer \<Rightarrow> json \<Rightarrow> Bar list \<Rightarrow> nat \<Rightarrow> backtest_error + bool" where
  "eval_group pr grp bars i =
     bind_r (has_key grp ''all_of'') (\<lambda>a.
       if a then bind_r (item grp ''all_of'') (\<lambda>xs. bind_r (py_iter xs) (all_r (eval_condition pr bars i)))
       else bind_r (has_key grp ''any_of'') (\<lambda>b.
         if b then bind_r (item grp ''any_of'') (\<lambda>xs. bind_r (py_iter xs) (any_r (eval_condition pr bars i)))
         else bind_r (has_key grp ''operator'') (\<lambda>c. bind_r (if c then Inr True else has_key grp ''kind'') (\<lambda>d.
           if d then eval_condition pr bars i grp
           else Inl (StrategyErr (''Group must have all_of or any_of: '' @ pr_value pr grp))))))"

text \<open>Without the time stops; \<open>None\<close> when nothing is left.\<close>

definition strip_meta :: "json \<Rightarrow> backtest_error + json option" where
  "strip_meta grp =
     bind_r (has_key grp ''all_of'') (\<lambda>a.
     bind_r (if a then Inr True else has_key grp ''any_of'') (\<lambda>b.
       if b
       then let key = (if a then ''all_of'' else ''any_of'')
            in bind_r (item grp key) (\<lambda>xs. bind_r (py_iter xs) (\<lambda>cs.
               bind_r (filter_r (\<lambda>c. bind_r (is_time_stop c) (\<lambda>stop. Inr (\<not> stop))) cs) (\<lambda>kept.
                 Inr (if kept = [] then None else Some (JObj [(key, JList kept)])))))
       else bind_r (is_time_stop grp) (\<lambda>stop. Inr (if stop then None else Some grp))))"

section \<open>Validation\<close>

definition synthetic :: "Bar list" where
  "synthetic = map (\<lambda>i. \<lparr>b_date = 738886 + int i, b_open = flt 100, b_high = flt 101, b_low = flt 99, b_close = flt 100,
     b_adjusted_close = flt 100, b_volume = flt 1000\<rparr>) [0..<20]"

text \<open>Any other exception becomes an \<^verbatim>\<open>InvalidStrategyError\<close> with its text.\<close>

definition as_invalid :: "printer \<Rightarrow> string \<Rightarrow> backtest_error + 'a \<Rightarrow> backtest_error + unit" where
  "as_invalid pr what r =
     (case r of
        Inr _ \<Rightarrow> Inr () | Inl (StrategyErr m) \<Rightarrow> Inl (StrategyErr m)
      | Inl e \<Rightarrow> Inl (StrategyErr (what @ '' rule failed validation: '' @ pr_error pr e)))"

text \<open>The rules of an exit clause other than time stops, evaluated; nothing left means no exit.\<close>

definition eval_exit :: "printer \<Rightarrow> json \<Rightarrow> Bar list \<Rightarrow> nat \<Rightarrow> backtest_error + bool" where
  "eval_exit pr grp bars i =
     bind_r (strip_meta grp) (\<lambda>clean. case clean of
         Some g \<Rightarrow> if json_truthy g then eval_group pr g bars i else Inr False
       | None \<Rightarrow> Inr False)"

definition validate :: "printer \<Rightarrow> json \<Rightarrow> backtest_error + unit" where
  "validate pr rules =
     (case rules of
        JObj m \<Rightarrow>
          (case map_of m ''entry'' of
             None \<Rightarrow> Inl (StrategyErr ''Rules must include an `entry` clause.'')
           | Some entry \<Rightarrow>
               bind_r (as_invalid pr ''Entry'' (eval_group pr entry synthetic (length synthetic - 1))) (\<lambda>_.
               case map_of m ''exit'' of
                 None \<Rightarrow> Inr ()
               | Some ex \<Rightarrow> as_invalid pr ''Exit'' (eval_exit pr ex synthetic (length synthetic - 1))))
      | _ \<Rightarrow> Inl (StrategyErr ''Rules must be an object.''))"

section \<open>Strategies from rules\<close>

definition days_value :: "json \<Rightarrow> int option" where
  "days_value n = (case bind_r (item n ''value'') (\<lambda>v. conv (py_int v)) of Inr d \<Rightarrow> Some d | Inl _ \<Rightarrow> None)"

fun first_days :: "json list \<Rightarrow> backtest_error + int option" where
  "first_days [] = Inr None"
| "first_days (n # ns) =
     bind_r (is_time_stop n) (\<lambda>stop.
       if stop then (case days_value n of Some d \<Rightarrow> Inr (Some d) | None \<Rightarrow> first_days ns) else first_days ns)"

definition holding_days_max :: "json \<Rightarrow> backtest_error + int option" where
  "holding_days_max grp =
     (if \<not> json_truthy grp then Inr None
      else bind_r (has_key grp ''all_of'') (\<lambda>a.
        if a then bind_r (item grp ''all_of'') (\<lambda>xs. bind_r (py_iter xs) first_days)
        else bind_r (has_key grp ''any_of'') (\<lambda>b.
          if b then bind_r (item grp ''any_of'') (\<lambda>xs. bind_r (py_iter xs) first_days)
          else bind_r (is_time_stop grp) (\<lambda>stop. Inr (if stop then days_value grp else None)))))"

record rule_state =
  rs_long :: bool
  rs_entry_index :: int

definition rule_init :: rule_state where
  "rule_init = \<lparr>rs_long = False, rs_entry_index = -1\<rparr>"

definition rule_strategy :: "printer \<Rightarrow> json \<Rightarrow> json option \<Rightarrow> int option \<Rightarrow> rule_state strategy_fn" where
  "rule_strategy pr entry ex days st bars i =
     (if \<not> rs_long st
      then bind_r (eval_group pr entry bars i) (\<lambda>b.
             Inr (if b then (TargetReason 1 ''Custom rules: entry conditions met'', \<lparr>rs_long = True, rs_entry_index = int i + 1\<rparr>)
                  else (Target 0, st)))
      else bind_r (case ex of Some g \<Rightarrow> eval_exit pr g bars i | None \<Rightarrow> Inr False) (\<lambda>out.
             Inr (if out then (TargetReason 0 ''Custom rules: exit conditions met'', st\<lparr>rs_long := False\<rparr>)
                  else case days of
                    Some d \<Rightarrow>
                      if 0 \<le> rs_entry_index st \<and> d \<le> int i - rs_entry_index st
                      then (TargetReason 0 (''Custom rules: max holding period '' @ str_of_int d @ '' reached''), st\<lparr>rs_long := False\<rparr>)
                      else (Target 1, st)
                  | None \<Rightarrow> (Target 1, st))))"

definition rule_clause :: "json \<Rightarrow> string \<Rightarrow> json option" where
  "rule_clause rules k = (case rules of JObj m \<Rightarrow> map_of m k | _ \<Rightarrow> None)"

definition build_strategy :: "printer \<Rightarrow> json \<Rightarrow> backtest_error + rule_state strategy_fn" where
  "build_strategy pr rules =
     bind_r (validate pr rules) (\<lambda>_.
     bind_r (holding_days_max (case rule_clause rules ''exit'' of Some g \<Rightarrow> g | None \<Rightarrow> JNull)) (\<lambda>days.
       Inr (rule_strategy pr (the (rule_clause rules ''entry'')) (rule_clause rules ''exit'') days)))"

section \<open>Errors\<close>

lemma as_invalid_Inl: "as_invalid pr what r = Inl e \<Longrightarrow> \<exists>m. e = StrategyErr m"
  by (auto simp: as_invalid_def split: sum.splits backtest_error.splits)

lemma as_invalid_Inr: "as_invalid pr what r = Inr () \<longleftrightarrow> is_ok r"
  by (auto simp: as_invalid_def split: sum.splits backtest_error.splits)

lemma validate_Inl:
  assumes "validate pr rules = Inl e"
  shows "\<exists>m. e = StrategyErr m"
  using assms by (auto simp: validate_def bind_r_Inl_iff dest: as_invalid_Inl split: json.splits option.splits)

lemma filter_r_Inr: "filter_r f xs = Inr ys \<Longrightarrow> \<exists>b. f x = Inr b" if "x \<in> set xs"
  using that by (induction xs arbitrary: ys) (auto simp: bind_r_Inr_iff)

lemma first_days_Inr: "(\<And>n. n \<in> set ns \<Longrightarrow> \<exists>b. is_time_stop n = Inr b) \<Longrightarrow> \<exists>d. first_days ns = Inr d"
proof (induction ns)
  case (Cons n ns)
  then obtain b where "is_time_stop n = Inr b" by auto
  then show ?case using Cons by (cases b; cases "days_value n") auto
qed simp

text \<open>Where the time stops can be stripped, the holding period can be read.\<close>

lemma strip_meta_days:
  assumes "strip_meta grp = Inr r"
  shows "\<exists>d. holding_days_max grp = Inr d"
proof -
  have stops: "\<exists>d. first_days cs = Inr d"
    if "filter_r (\<lambda>c. bind_r (is_time_stop c) (\<lambda>stop. Inr (\<not> stop))) cs = Inr kept" for cs kept
    using filter_r_Inr [OF _ that] by (intro first_days_Inr) (auto simp: bind_r_Inr_iff)
  show ?thesis
  proof (cases "json_truthy grp")
    case True
    obtain a b where a: "has_key grp ''all_of'' = Inr a" and b: "(if a then Inr True else has_key grp ''any_of'') = Inr b"
      using assms by (auto simp: strip_meta_def bind_r_Inr_iff)
    show ?thesis
    proof (cases b)
      case True
      define key where "key = (if a then ''all_of'' else ''any_of'')"
      obtain xs cs kept where "item grp key = Inr xs" "py_iter xs = Inr cs"
        "filter_r (\<lambda>c. bind_r (is_time_stop c) (\<lambda>stop. Inr (\<not> stop))) cs = Inr kept"
        using assms by (simp only: strip_meta_def a b True bind_r_simps if_True Let_def key_def [symmetric] bind_r_Inr_iff) blast
      with stops a b True \<open>json_truthy grp\<close> show ?thesis by (cases a) (simp_all add: holding_days_max_def key_def)
    next
      case False
      with b have ab: "\<not> a" "has_key grp ''any_of'' = Inr False" by (cases a; simp)+
      obtain stop where "is_time_stop grp = Inr stop"
        using assms by (cases "is_time_stop grp") (simp_all add: strip_meta_def a ab)
      with a ab \<open>json_truthy grp\<close> show ?thesis by (simp add: holding_days_max_def)
    qed
  qed (simp add: holding_days_max_def)
qed

lemma validate_Inr:
  assumes "validate pr rules = Inr ()"
  obtains m entry where "rules = JObj m" "map_of m ''entry'' = Some entry"
    "is_ok (eval_group pr entry synthetic (length synthetic - 1))"
    "\<And>ex. map_of m ''exit'' = Some ex \<Longrightarrow> is_ok (eval_exit pr ex synthetic (length synthetic - 1))"
proof -
  obtain m where m: "rules = JObj m" using assms by (cases rules) (auto simp: validate_def)
  obtain entry where e: "map_of m ''entry'' = Some entry" using assms by (cases "map_of m ''entry''") (auto simp: validate_def m)
  have ex: "is_ok (eval_exit pr ex synthetic (length synthetic - 1))" if "map_of m ''exit'' = Some ex" for ex
    using assms that by (simp add: validate_def m e bind_r_Inr_iff as_invalid_Inr)
  show thesis
  proof (rule that [OF m e])
    show "is_ok (eval_group pr entry synthetic (length synthetic - 1))"
      using assms by (simp add: validate_def m e bind_r_Inr_iff as_invalid_Inr)
  qed (rule ex)
qed

lemma validate_days:
  assumes "validate pr rules = Inr ()"
  shows "\<exists>d. holding_days_max (case rule_clause rules ''exit'' of Some g \<Rightarrow> g | None \<Rightarrow> JNull) = Inr d"
proof (rule validate_Inr [OF assms], goal_cases)
  case (1 m entry)
  show ?case
  proof (cases "map_of m ''exit''")
    case None
    then show ?thesis by (simp add: 1(1) rule_clause_def holding_days_max_def)
  next
    case (Some ex)
    then have "is_ok (eval_exit pr ex synthetic (length synthetic - 1))" by (rule 1(4))
    then obtain c where "strip_meta ex = Inr c" by (cases "strip_meta ex") (simp_all add: eval_exit_def)
    then show ?thesis using Some strip_meta_days by (simp add: 1(1) rule_clause_def)
  qed
qed

lemma validated_builds: "validate pr rules = Inr () \<Longrightarrow> is_ok (build_strategy pr rules)"
  using validate_days [of pr rules] by (auto simp: build_strategy_def)

section \<open>No look-ahead\<close>

lemma indicator_value_prefix:
  assumes "take (i + 1) bars = take (i + 1) bars'" "i < length bars" "i < length bars'"
  shows "indicator_value name period bars i = indicator_value name period bars' i"
proof -
  have "bars ! i = bars' ! i" using assms(1) by (metis less_add_one nth_take)
  then show ?thesis using assms(2,3) by (simp only: indicator_value_def assms(1) if_True)
qed

lemma eval_operand_prefix:
  assumes "take (i + 1) bars = take (i + 1) bars'" "i < length bars" "i < length bars'"
  shows "eval_operand pr operand bars i = eval_operand pr operand bars' i"
  unfolding eval_operand_def assms(1) indicator_value_prefix [OF assms] by (rule refl)

lemma eval_condition_prefix:
  assumes "take (i + 1) bars = take (i + 1) bars'" "i < length bars" "i < length bars'"
  shows "eval_condition pr bars i = eval_condition pr bars' i"
  unfolding eval_condition_def eval_operand_prefix [OF assms] by (rule refl)

lemma eval_group_prefix:
  assumes "take (i + 1) bars = take (i + 1) bars'" "i < length bars" "i < length bars'"
  shows "eval_group pr grp bars i = eval_group pr grp bars' i" "eval_exit pr grp bars i = eval_exit pr grp bars' i"
proof -
  have eq: "eval_group pr g bars i = eval_group pr g bars' i" for g
    unfolding eval_group_def eval_condition_prefix [OF assms] by (rule refl)
  show "eval_group pr grp bars i = eval_group pr grp bars' i" by (rule eq)
  show "eval_exit pr grp bars i = eval_exit pr grp bars' i" unfolding eval_exit_def eq by (rule refl)
qed

lemma rule_strategy_causal: "causal (rule_strategy pr entry ex days)"
proof (rule causalI)
  fix s and bars bars' :: "Bar list" and i :: nat
  assume pre: "take (i + 1) bars = take (i + 1) bars'" and len: "i + 1 < length bars" "i + 1 < length bars'"
  from len have "i < length bars" "i < length bars'" by simp_all
  note eq = eval_group_prefix [OF pre this]
  show "rule_strategy pr entry ex days s bars i = rule_strategy pr entry ex days s bars' i"
    unfolding rule_strategy_def eq by (rule refl)
qed

lemma build_strategy_Inr:
  assumes "build_strategy pr rules = Inr s"
  obtains entry ex days where "rule_clause rules ''entry'' = Some entry" "ex = rule_clause rules ''exit''"
    "holding_days_max (case ex of Some g \<Rightarrow> g | None \<Rightarrow> JNull) = Inr days" "s = rule_strategy pr entry ex days"
proof -
  from assms have ok: "validate pr rules = Inr ()" by (auto simp: build_strategy_def bind_r_Inr_iff)
  then obtain entry where "rule_clause rules ''entry'' = Some entry" by (rule validate_Inr) (simp add: rule_clause_def)
  moreover obtain days where "holding_days_max (case rule_clause rules ''exit'' of Some g \<Rightarrow> g | None \<Rightarrow> JNull) = Inr days"
    "s = rule_strategy pr (the (rule_clause rules ''entry'')) (rule_clause rules ''exit'') days"
    using assms by (auto simp: build_strategy_def bind_r_Inr_iff)
  ultimately show thesis using that by simp
qed

section \<open>The time stop\<close>

text \<open>The targets a strategy answers when it is called on consecutive bars.\<close>

fun answers_on :: "'s strategy_fn \<Rightarrow> 's \<Rightarrow> Bar list \<Rightarrow> nat list \<Rightarrow> backtest_error + int list" where
  "answers_on strategy st bars [] = Inr []"
| "answers_on strategy st bars (i # is) =
     bind_r (strategy st bars i) (\<lambda>(d, st'). bind_r (answers_on strategy st' bars is) (\<lambda>ts. Inr (target_of d # ts)))"

text \<open>The state before bar \<open>i\<close>, and how long it can stay in the market from there.\<close>

definition entered :: "nat \<Rightarrow> rule_state \<Rightarrow> bool" where
  "entered i st \<longleftrightarrow> rs_long st \<longrightarrow> 0 \<le> rs_entry_index st \<and> rs_entry_index st \<le> int i"

definition time_left :: "int \<Rightarrow> nat \<Rightarrow> rule_state \<Rightarrow> nat" where
  "time_left m i st = (if rs_long st then nat (rs_entry_index st + m - int i) else nat m + 1)"

lemma rule_strategy_step:
  assumes "rule_strategy pr entry ex (Some m) st bars i = Inr (d, st')" "entered i st" "0 \<le> m"
  shows "entered (Suc i) st'" and "target_of d = 1 \<Longrightarrow> Suc (time_left m (Suc i) st') \<le> time_left m i st"
  using assms by (auto simp: rule_strategy_def bind_r_Inr_iff entered_def time_left_def target_of_def split: if_splits)

lemma answers_bounded:
  assumes "answers_on (rule_strategy pr entry ex (Some m)) st bars [a..<b] = Inr ts" "entered a st" "0 \<le> m"
  shows "length (takeWhile (\<lambda>t. t = 1) ts) \<le> time_left m a st \<and> length (takeWhile (\<lambda>t. t = 1) (drop j ts)) \<le> nat m + 1"
  using assms
proof (induction "b - a" arbitrary: a st ts j)
  case 0
  then show ?case by simp
next
  case (Suc k)
  then have "[a..<b] = a # [Suc a..<b]" by (intro upt_conv_Cons) simp
  with Suc.prems(1) obtain d st' us where step: "rule_strategy pr entry ex (Some m) st bars a = Inr (d, st')"
    and us: "answers_on (rule_strategy pr entry ex (Some m)) st' bars [Suc a..<b] = Inr us" and ts: "ts = target_of d # us"
    by (auto simp: bind_r_Inr_iff)
  note st' = rule_strategy_step [OF step Suc.prems(2,3)]
  have k: "k = b - Suc a" using Suc.hyps(2) by simp
  have IH: "length (takeWhile (\<lambda>t. t = 1) us) \<le> time_left m (Suc a) st'" "length (takeWhile (\<lambda>t. t = 1) (drop j us)) \<le> nat m + 1" for j
    using Suc.hyps(1) [OF k us st'(1) Suc.prems(3)] by blast+
  have lead: "length (takeWhile (\<lambda>t. t = 1) ts) \<le> time_left m a st" using st'(2) IH(1) by (auto simp: ts)
  moreover have "time_left m a st \<le> nat m + 1" using Suc.prems(2,3) by (auto simp: time_left_def entered_def)
  ultimately show ?case using IH(2) by (cases j) (auto simp: ts)
qed

section \<open>Properties\<close>

definition ex_printer :: printer where
  "ex_printer = \<lparr>pr_value = \<lambda>_. ''value'', pr_error = \<lambda>_. ''error''\<rparr>"

definition ex_cond :: "json \<Rightarrow> string \<Rightarrow> json \<Rightarrow> json" where
  "ex_cond l op r = JObj [(''left'', l), (''operator'', JStr op), (''right'', r)]"

definition ex_price :: json where "ex_price = JObj [(''kind'', JStr ''price'')]"

definition ex_const :: "rat \<Rightarrow> json" where "ex_const q = JObj [(''kind'', JStr ''constant''), (''value'', JNum q)]"

definition ex_indicator :: "string \<Rightarrow> json" where
  "ex_indicator name = JObj [(''kind'', JStr ''indicator''), (''name'', JStr name)]"

text \<open>Buy below 50, sell above 60 or after one day.\<close>

definition ex_exit :: json where
  "ex_exit = JObj [(''any_of'', JList [ex_cond ex_price ''>'' (ex_const 60),
     JObj [(''kind'', JStr ''holding_days_gt''), (''value'', JNum 1)]])]"

definition ex_rules :: json where
  "ex_rules = JObj [(''entry'', ex_cond ex_price ''<'' (ex_const 50)), (''exit'', ex_exit)]"

definition ex_bad_rules :: json where
  "ex_bad_rules = JObj [(''entry'', JObj [(''all_of'', JList [ex_cond ex_price ''<'' (ex_const 50),
     ex_cond (ex_indicator ''foo'') ''<'' (ex_const 1)])])]"

lemma ex_rules_days: "rule_clause ex_rules ''exit'' = Some ex_exit" "holding_days_max ex_exit = Inr (Some 1)"
  by (simp add: ex_rules_def rule_clause_def) code_simp

lemma ex_rules_build:
  "build_strategy ex_printer ex_rules = Inr (rule_strategy ex_printer (ex_cond ex_price ''<'' (ex_const 50)) (Some ex_exit) (Some 1))"
proof -
  have "validate ex_printer ex_rules = Inr ()" by code_simp
  then show ?thesis by (simp add: build_strategy_def ex_rules_days) (simp add: ex_rules_def rule_clause_def)
qed

text \<open>
  The conditions of a clause are evaluated only until one decides it, on bars whose price is always
  100: an indicator that does not exist is not noticed behind a condition that fails at that price.
\<close>

lemma validation_misses_unknown_indicator:
  "validate ex_printer ex_bad_rules = Inr ()
   \<and> (\<exists>strategy. build_strategy ex_printer ex_bad_rules = Inr strategy
        \<and> run_backtest strategy rule_init (Flt 1000) 0 0 [ex_bar 1 40, ex_bar 2 40]
            = Inl (StrategyErr (''Unknown indicator '' @ apostrophe @ ''foo'' @ apostrophe)))"
proof -
  define entry where "entry = the (rule_clause ex_bad_rules ''entry'')"
  have valid: "validate ex_printer ex_bad_rules = Inr ()" by code_simp
  moreover have "build_strategy ex_printer ex_bad_rules = Inr (rule_strategy ex_printer entry None None)"
    by (simp add: build_strategy_def valid entry_def) (simp add: ex_bad_rules_def rule_clause_def holding_days_max_def)
  moreover have "run_backtest (rule_strategy ex_printer entry None None) rule_init (Flt 1000) 0 0 [ex_bar 1 40, ex_bar 2 40]
      = Inl (StrategyErr (''Unknown indicator '' @ apostrophe @ ''foo'' @ apostrophe))"
    unfolding entry_def by code_simp
  ultimately show ?thesis by blast
qed

text \<open>
  C26: validation decides whether rules become a strategy, but not whether it runs. Rules that pass
  always build, whatever they hold; rules that do not pass are refused with \<^verbatim>\<open>InvalidStrategyError\<close> by
  both, so a malformed clause of any shape (no object, a missing key, a value of the wrong type)
  never raises another exception. Some rules that pass raise in the middle of a backtest.
\<close>

theorem rules_validated:
  "(case validate pr rules of
      Inr _ \<Rightarrow> is_ok (build_strategy pr rules)
    | Inl e \<Rightarrow> build_strategy pr rules = Inl e \<and> (\<exists>m. e = StrategyErr m))
   \<and> (\<exists>pr' rules' strategy bars m. validate pr' rules' = Inr () \<and> build_strategy pr' rules' = Inr strategy
        \<and> run_backtest strategy rule_init (Flt 1000) 0 0 bars = Inl (StrategyErr m))"
proof
  show "case validate pr rules of
      Inr _ \<Rightarrow> is_ok (build_strategy pr rules)
    | Inl e \<Rightarrow> build_strategy pr rules = Inl e \<and> (\<exists>m. e = StrategyErr m)"
    using validate_Inl [of pr rules] validated_builds [of pr rules]
    by (cases "validate pr rules") (auto simp: build_strategy_def)
qed (use validation_misses_unknown_indicator in blast)

text \<open>
  C27: no strategy a user writes looks ahead. If two price histories agree on their first \<open>k\<close> bars,
  the backtests of the rules on them have the same first \<open>k\<close> equity points.
\<close>

theorem custom_no_look_ahead:
  assumes "build_strategy pr rules = Inr strategy" and "take k bars = take k bars'" "k \<le> length bars" "k \<le> length bars'"
    and "run_backtest strategy rule_init capital pct warmup bars = Inr r"
    and "run_backtest strategy rule_init capital pct warmup bars' = Inr r'"
  shows "take k (br_equity_curve r) = take k (br_equity_curve r')"
proof -
  from assms(1) have "causal strategy" by (rule build_strategy_Inr) (simp add: rule_strategy_causal)
  then show ?thesis by (rule no_look_ahead [OF _ assms(2-)])
qed

theorem custom_no_look_ahead_witness:
  "\<exists>strategy r r'. build_strategy ex_printer ex_rules = Inr strategy
     \<and> run_backtest strategy rule_init (Flt 1000) 0 0 [ex_bar 1 40, ex_bar 2 45, ex_bar 3 70, ex_bar 4 80] = Inr r
     \<and> run_backtest strategy rule_init (Flt 1000) 0 0 [ex_bar 1 40, ex_bar 2 45, ex_bar 3 70, ex_bar 4 20] = Inr r'
     \<and> take 3 (br_equity_curve r) = take 3 (br_equity_curve r')"
proof -
  define s where "s = rule_strategy ex_printer (ex_cond ex_price ''<'' (ex_const 50)) (Some ex_exit) (Some 1)"
  have "is_ok (run_backtest s rule_init (Flt 1000) 0 0 [ex_bar 1 40, ex_bar 2 45, ex_bar 3 70, ex_bar 4 80])"
    "is_ok (run_backtest s rule_init (Flt 1000) 0 0 [ex_bar 1 40, ex_bar 2 45, ex_bar 3 70, ex_bar 4 20])"
    unfolding s_def by code_simp+
  then obtain r r' where r: "run_backtest s rule_init (Flt 1000) 0 0 [ex_bar 1 40, ex_bar 2 45, ex_bar 3 70, ex_bar 4 80] = Inr r"
    "run_backtest s rule_init (Flt 1000) 0 0 [ex_bar 1 40, ex_bar 2 45, ex_bar 3 70, ex_bar 4 20] = Inr r'"
    by (auto simp only: is_ok_ex)
  have b: "build_strategy ex_printer ex_rules = Inr s" unfolding s_def by (rule ex_rules_build)
  from custom_no_look_ahead [OF b _ _ _ r, of 3] b r show ?thesis by auto
qed

text \<open>
  The time stop works. A strategy whose exit clause holds a limit of \<open>m\<close> days never answers long on
  more than \<open>m + 1\<close> consecutive bars, from whatever bar it is started.
\<close>

lemma time_stop:
  assumes "build_strategy pr rules = Inr strategy" and "rule_clause rules ''exit'' = Some g"
    and "holding_days_max g = Inr (Some m)" "0 \<le> m" and "answers_on strategy rule_init bars [a..<b] = Inr ts"
  shows "length (takeWhile (\<lambda>t. t = 1) (drop j ts)) \<le> nat m + 1"
proof -
  obtain entry ex where "strategy = rule_strategy pr entry ex (Some m)"
    using assms(1) by (rule build_strategy_Inr) (use assms(2,3) in auto)
  then show ?thesis using answers_bounded [of pr entry ex m rule_init bars a b ts j] assms(4,5) by (simp add: entered_def rule_init_def)
qed

end
