(* ===== verification/CustomStrategies.thy ===== *)
theory CustomStrategies
  imports StrategyBuilder Auth
begin

text \<open>
  The strategies users store, publish and fork: \<^verbatim>\<open>services/custom_strategy_service.py\<close>, its endpoints in
  \<^verbatim>\<open>routers/community.py\<close> and the table of \<^verbatim>\<open>models/community.py\<close>. New ids and the time are arguments.
\<close>

section \<open>Table\<close>

record UserStrategy =
  us_id :: string
  us_user_id :: string
  us_name :: string
  us_description :: "string option"
  us_rules :: json
  us_is_public :: bool
  us_forked_from :: "string option"
  us_created_at :: int
  us_updated_at :: int

datatype strategy_error = StrategyError string int | StrategyRaised

text \<open>A name too long for its column is an error of the database the service does not catch; a duplicate is caught.\<close>

definition strategy_unique :: "UserStrategy list \<Rightarrow> bool" where
  "strategy_unique rows \<longleftrightarrow> distinct (map us_id rows) \<and> distinct (map (\<lambda>s. (us_user_id s, us_name s)) rows)"

definition strategy_flush :: "string \<Rightarrow> UserStrategy list \<Rightarrow> strategy_error + UserStrategy list" where
  "strategy_flush conflict rows =
     (if list_ex (\<lambda>s. 100 < char_len (us_name s)) rows then Inl StrategyRaised
      else if strategy_unique rows then Inr rows
      else Inl (StrategyError conflict 409))"

section \<open>Service\<close>

record StrategyCreate =
  sc_name :: string
  sc_description :: "string option"
  sc_rules :: "(string \<times> json) list"
  sc_is_public :: bool

record StrategyUpdate =
  su_name :: "string option"
  su_description :: "string option"
  su_rules :: "(string \<times> json) list option"
  su_is_public :: "bool option"

definition strategies_for_user :: "string \<Rightarrow> UserStrategy list \<Rightarrow> UserStrategy list" where
  "strategies_for_user uid rows = sort_key_desc us_updated_at (filter (\<lambda>s. us_user_id s = uid) rows)"

definition public_strategies :: "UserStrategy list \<Rightarrow> UserStrategy list" where
  "public_strategies rows = take 50 (sort_key_desc us_created_at (filter us_is_public rows))"

definition strategy_get :: "string \<Rightarrow> UserStrategy list \<Rightarrow> UserStrategy option" where
  "strategy_get sid rows = List.find (\<lambda>s. us_id s = sid) rows"

definition checked_rules :: "printer \<Rightarrow> json \<Rightarrow> strategy_error + unit" where
  "checked_rules pr rules =
     (case validate pr rules of
        Inr _ \<Rightarrow> Inr () | Inl (StrategyErr m) \<Rightarrow> Inl (StrategyError m 400) | Inl _ \<Rightarrow> Inl StrategyRaised)"

definition name_taken :: "string \<Rightarrow> string" where
  "name_taken name = ''You already have a strategy named '' @ apostrophe @ name @ apostrophe @ ''.''"

definition strategy_create ::
  "printer \<Rightarrow> string \<Rightarrow> int \<Rightarrow> string \<Rightarrow> StrategyCreate \<Rightarrow> UserStrategy list \<Rightarrow> strategy_error + UserStrategy \<times> UserStrategy list" where
  "strategy_create pr new_id now uid body rows =
     bind_r (checked_rules pr (JObj (sc_rules body))) (\<lambda>_.
       let s = \<lparr>us_id = new_id, us_user_id = uid, us_name = sc_name body, us_description = sc_description body,
                us_rules = JObj (sc_rules body), us_is_public = sc_is_public body, us_forked_from = None,
                us_created_at = now, us_updated_at = now\<rparr>
       in bind_r (strategy_flush (name_taken (sc_name body)) (rows @ [s])) (\<lambda>rows. Inr (s, rows)))"

text \<open>The attributes a body sets; \<open>None\<close> leaves one as it is.\<close>

definition apply_strategy_update :: "StrategyUpdate \<Rightarrow> UserStrategy \<Rightarrow> UserStrategy" where
  "apply_strategy_update body s =
     s\<lparr>us_rules := (case su_rules body of Some r \<Rightarrow> JObj r | None \<Rightarrow> us_rules s),
       us_name := (case su_name body of Some n \<Rightarrow> n | None \<Rightarrow> us_name s),
       us_description := (case su_description body of Some d \<Rightarrow> Some d | None \<Rightarrow> us_description s),
       us_is_public := (case su_is_public body of Some b \<Rightarrow> b | None \<Rightarrow> us_is_public s)\<rparr>"

definition save_strategy :: "UserStrategy \<Rightarrow> UserStrategy list \<Rightarrow> UserStrategy list" where
  "save_strategy s rows = map (\<lambda>x. if us_id x = us_id s then s else x) rows"

definition strategy_update ::
  "printer \<Rightarrow> int \<Rightarrow> string \<Rightarrow> string \<Rightarrow> StrategyUpdate \<Rightarrow> UserStrategy list \<Rightarrow> strategy_error + UserStrategy \<times> UserStrategy list" where
  "strategy_update pr now uid sid body rows =
     (case strategy_get sid rows of
        None \<Rightarrow> Inl (StrategyError ''Strategy not found.'' 404)
      | Some s \<Rightarrow>
          if us_user_id s \<noteq> uid then Inl (StrategyError ''Strategy not found.'' 404)
          else bind_r (case su_rules body of Some r \<Rightarrow> checked_rules pr (JObj r) | None \<Rightarrow> Inr ()) (\<lambda>_.
            let t = apply_strategy_update body s; t = (if t = s then s else t\<lparr>us_updated_at := now\<rparr>)
            in bind_r (strategy_flush (name_taken (case su_name body of Some n \<Rightarrow> n | None \<Rightarrow> ''None'')) (save_strategy t rows))
                 (\<lambda>rows. Inr (t, rows))))"

text \<open>Deleting a strategy clears the reference of its forks.\<close>

definition strategy_delete :: "string \<Rightarrow> string \<Rightarrow> UserStrategy list \<Rightarrow> strategy_error + UserStrategy list" where
  "strategy_delete uid sid rows =
     (case strategy_get sid rows of
        None \<Rightarrow> Inl (StrategyError ''Strategy not found.'' 404)
      | Some s \<Rightarrow>
          if us_user_id s \<noteq> uid then Inl (StrategyError ''Strategy not found.'' 404)
          else Inr (map (\<lambda>x. if us_forked_from x = Some sid then x\<lparr>us_forked_from := None\<rparr> else x)
                 (filter (\<lambda>x. us_id x \<noteq> sid) rows)))"

definition fork_conflict :: string where
  "fork_conflict = ''You'' @ apostrophe @ ''ve already forked this strategy. Rename your existing copy first.''"

definition strategy_fork :: "string \<Rightarrow> int \<Rightarrow> string \<Rightarrow> string \<Rightarrow> UserStrategy list \<Rightarrow> strategy_error + UserStrategy \<times> UserStrategy list" where
  "strategy_fork new_id now uid sid rows =
     (case strategy_get sid rows of
        None \<Rightarrow> Inl (StrategyError ''Strategy not available to fork.'' 404)
      | Some source \<Rightarrow>
          if \<not> us_is_public source then Inl (StrategyError ''Strategy not available to fork.'' 404)
          else let s = \<lparr>us_id = new_id, us_user_id = uid, us_name = us_name source @ '' (forked)'',
                     us_description = us_description source, us_rules = us_rules source, us_is_public = False,
                     us_forked_from = Some (us_id source), us_created_at = now, us_updated_at = now\<rparr>
               in bind_r (strategy_flush fork_conflict (rows @ [s])) (\<lambda>rows. Inr (s, rows)))"

section \<open>Endpoints\<close>

definition raise_strategy :: "strategy_error + 'a \<Rightarrow> http_error + 'a" where
  "raise_strategy r =
     (case r of Inr x \<Rightarrow> Inr x | Inl (StrategyError m status) \<Rightarrow> Inl (HTTPException status m) | Inl StrategyRaised \<Rightarrow> Inl ServerError)"

definition valid_strategy_name :: "string \<Rightarrow> bool" where
  "valid_strategy_name n \<longleftrightarrow> 1 \<le> char_len n \<and> char_len n \<le> 100"

definition list_my_strategies :: "User \<Rightarrow> UserStrategy list \<Rightarrow> UserStrategy list" where
  "list_my_strategies user rows = strategies_for_user (u_id user) rows"

definition list_public_strategies :: "UserStrategy list \<Rightarrow> UserStrategy list" where
  "list_public_strategies rows = public_strategies rows"

definition create_strategy ::
  "printer \<Rightarrow> string \<Rightarrow> int \<Rightarrow> User \<Rightarrow> StrategyCreate \<Rightarrow> UserStrategy list \<Rightarrow> http_error + UserStrategy \<times> UserStrategy list" where
  "create_strategy pr new_id now user body rows =
     (if \<not> valid_strategy_name (sc_name body) then Inl (HTTPException 422 [])
      else raise_strategy (strategy_create pr new_id now (u_id user) body rows))"

definition update_strategy ::
  "printer \<Rightarrow> int \<Rightarrow> User \<Rightarrow> string \<Rightarrow> StrategyUpdate \<Rightarrow> UserStrategy list \<Rightarrow> http_error + UserStrategy \<times> UserStrategy list" where
  "update_strategy pr now user sid body rows =
     (if (case su_name body of Some n \<Rightarrow> \<not> valid_strategy_name n | None \<Rightarrow> False) then Inl (HTTPException 422 [])
      else raise_strategy (strategy_update pr now (u_id user) sid body rows))"

definition delete_strategy :: "User \<Rightarrow> string \<Rightarrow> UserStrategy list \<Rightarrow> http_error + UserStrategy list" where
  "delete_strategy user sid rows = raise_strategy (strategy_delete (u_id user) sid rows)"

definition fork_strategy :: "string \<Rightarrow> int \<Rightarrow> User \<Rightarrow> string \<Rightarrow> UserStrategy list \<Rightarrow> http_error + UserStrategy \<times> UserStrategy list" where
  "fork_strategy new_id now user sid rows = raise_strategy (strategy_fork new_id now (u_id user) sid rows)"

inductive strategy_step :: "printer \<Rightarrow> User \<Rightarrow> UserStrategy list \<Rightarrow> UserStrategy list \<Rightarrow> bool" for pr user where
  create_step: "create_strategy pr new_id now user body rows = Inr (s, rows') \<Longrightarrow> strategy_step pr user rows rows'"
| update_step: "update_strategy pr now user sid body rows = Inr (s, rows') \<Longrightarrow> strategy_step pr user rows rows'"
| delete_step: "delete_strategy user sid rows = Inr rows' \<Longrightarrow> strategy_step pr user rows rows'"
| fork_step: "fork_strategy new_id now user sid rows = Inr (s, rows') \<Longrightarrow> strategy_step pr user rows rows'"

section \<open>Invariant\<close>

text \<open>What every row keeps: a name that fits and rules that were accepted; and a fork's source, while it exists.\<close>

definition strategy_ok :: "printer \<Rightarrow> UserStrategy \<Rightarrow> bool" where
  "strategy_ok pr s \<longleftrightarrow> valid_strategy_name (us_name s) \<and> validate pr (us_rules s) = Inr ()"

definition strategies_inv :: "printer \<Rightarrow> UserStrategy list \<Rightarrow> bool" where
  "strategies_inv pr rows \<longleftrightarrow> strategy_unique rows \<and> list_all (strategy_ok pr) rows
     \<and> (\<forall>s \<in> set rows. \<forall>f. us_forked_from s = Some f \<longrightarrow> f \<in> us_id ` set rows)"

lemma raise_strategy_Inr [simp]: "raise_strategy r = Inr x \<longleftrightarrow> r = Inr x"
  by (auto simp: raise_strategy_def split: sum.splits strategy_error.splits)

lemma strategy_flush_Inr:
  "strategy_flush m rows = Inr rows' \<longleftrightarrow> rows' = rows \<and> strategy_unique rows \<and> (\<forall>s \<in> set rows. char_len (us_name s) \<le> 100)"
  by (auto simp: strategy_flush_def list_ex_iff not_le [symmetric])

lemma checked_rules_Inr: "checked_rules pr rules = Inr u \<longleftrightarrow> validate pr rules = Inr ()"
  by (auto simp: checked_rules_def split: sum.splits backtest_error.splits)

lemma strategy_get_Some: "strategy_get sid rows = Some s \<Longrightarrow> s \<in> set rows \<and> us_id s = sid"
  by (auto simp: strategy_get_def find_Some_iff)

lemma char_len_append [simp]: "char_len (a @ b) = char_len a + char_len b"
  by (simp add: char_len_def)

lemma create_strategy_Inr:
  assumes "create_strategy pr new_id now user body rows = Inr (s, rows')"
  shows "rows' = rows @ [s]" "us_user_id s = u_id user" "us_id s = new_id" "strategy_unique rows'" "strategy_ok pr s"
    "us_forked_from s = None"
  using assms by (auto simp: create_strategy_def strategy_create_def bind_r_Inr_iff Let_def strategy_flush_Inr checked_rules_Inr
      strategy_ok_def split: if_splits)

lemma fork_strategy_Inr:
  assumes "fork_strategy new_id now user sid rows = Inr (s, rows')"
  obtains source where "strategy_get sid rows = Some source" "us_is_public source" "rows' = rows @ [s]" "us_user_id s = u_id user"
    "us_id s = new_id" "us_forked_from s = Some sid" "\<not> us_is_public s" "us_rules s = us_rules source"
    "us_name s = us_name source @ '' (forked)''" "strategy_unique rows'" "char_len (us_name s) \<le> 100"
  using assms
  by (auto simp: fork_strategy_def strategy_fork_def bind_r_Inr_iff Let_def strategy_flush_Inr split: if_splits option.splits
      dest: strategy_get_Some)

text \<open>A successful update writes the row of its response, in place.\<close>

lemma update_strategy_Inr:
  assumes upd: "update_strategy pr now user sid body rows = Inr (t, rows')"
  obtains s where "strategy_get sid rows = Some s" "us_user_id s = u_id user" "rows' = save_strategy t rows" "us_id t = sid"
    "us_user_id t = u_id user" "us_forked_from t = us_forked_from s" "strategy_unique rows'" "strategy_ok pr s \<Longrightarrow> strategy_ok pr t"
proof -
  obtain s where s: "strategy_get sid rows = Some s" "us_user_id s = u_id user"
    using upd by (auto simp: update_strategy_def strategy_update_def split: if_splits option.splits)
  define h where "h = apply_strategy_update body s"
  have name: "(case su_name body of Some n \<Rightarrow> \<not> valid_strategy_name n | None \<Rightarrow> False) = False"
    using upd by (simp add: update_strategy_def split: if_splits)
  have rules: "(case su_rules body of Some r \<Rightarrow> checked_rules pr (JObj r) | None \<Rightarrow> Inr ()) = Inr ()"
    and t: "t = (if h = s then s else h\<lparr>us_updated_at := now\<rparr>)" and rows': "rows' = save_strategy t rows" "strategy_unique rows'"
    using upd s by (auto simp: update_strategy_def strategy_update_def name bind_r_Inr_iff Let_def strategy_flush_Inr h_def)
  have "strategy_ok pr s \<Longrightarrow> strategy_ok pr h"
    using name rules by (auto simp: strategy_ok_def h_def apply_strategy_update_def checked_rules_Inr split: option.splits)
  then have "strategy_ok pr s \<Longrightarrow> strategy_ok pr t" by (simp add: t strategy_ok_def)
  moreover have "us_id t = us_id s" "us_user_id t = us_user_id s" "us_forked_from t = us_forked_from s"
    by (simp_all add: t h_def apply_strategy_update_def)
  ultimately show thesis using that s rows' strategy_get_Some [OF s(1)] by auto
qed

lemma save_strategy_ids [simp]: "us_id ` set (save_strategy t rows) = us_id ` set rows"
proof -
  have "map us_id (save_strategy t rows) = map us_id rows" by (simp add: save_strategy_def)
  then show ?thesis by (metis set_map)
qed

lemma strategy_step_inv:
  assumes inv: "strategies_inv pr rows" and step: "strategy_step pr user rows rows'"
  shows "strategies_inv pr rows'"
  using step
proof cases
  case (create_step new_id now body s)
  note c = create_strategy_Inr [OF create_step]
  show ?thesis using inv c(4,5,6) by (auto simp: strategies_inv_def c(1))
next
  case (update_step now sid body t)
  then obtain s where s: "strategy_get sid rows = Some s" "rows' = save_strategy t rows" "us_id t = sid"
    "us_forked_from t = us_forked_from s" "strategy_unique rows'" "strategy_ok pr s \<Longrightarrow> strategy_ok pr t"
    by (rule update_strategy_Inr) blast
  have mem: "s \<in> set rows" using strategy_get_Some [OF s(1)] by simp
  then have "strategy_ok pr t" using inv s(6) by (auto simp: strategies_inv_def list_all_iff)
  then have "list_all (strategy_ok pr) rows'" using inv by (auto simp: s(2) save_strategy_def strategies_inv_def list_all_iff)
  moreover have "f \<in> us_id ` set rows'" if "x \<in> set rows'" "us_forked_from x = Some f" for x f
  proof -
    have "x = t \<or> x \<in> set rows" using that(1) by (auto simp: s(2) save_strategy_def split: if_splits)
    then show ?thesis using that(2) inv mem s(4) unfolding s(2) by (auto simp: strategies_inv_def)
  qed
  ultimately show ?thesis using s(5) by (auto simp: strategies_inv_def)
next
  case (delete_step sid)
  define clear where "clear x = (if us_forked_from x = Some sid then x\<lparr>us_forked_from := None\<rparr> else x)" for x :: UserStrategy
  have rows': "rows' = map clear (filter (\<lambda>x. us_id x \<noteq> sid) rows)"
    using delete_step by (auto simp: delete_strategy_def strategy_delete_def clear_def [abs_def] split: option.splits if_splits)
  have keep: "us_id (clear x) = us_id x" "us_user_id (clear x) = us_user_id x" "us_name (clear x) = us_name x"
    "us_rules (clear x) = us_rules x" for x by (simp_all add: clear_def)
  have forks: "us_forked_from (clear x) = Some f \<Longrightarrow> us_forked_from x = Some f \<and> f \<noteq> sid" for x f
    by (auto simp: clear_def split: if_splits)
  have "strategy_unique rows'" using inv
    by (auto simp: strategies_inv_def strategy_unique_def rows' comp_def keep intro: distinct_map_filter)
  moreover have "list_all (strategy_ok pr) rows'" using inv
    by (auto simp: strategies_inv_def list_all_iff rows' strategy_ok_def keep)
  moreover have "f \<in> us_id ` set rows'" if y: "y \<in> set rows'" "us_forked_from y = Some f" for y f
  proof -
    obtain x where x: "x \<in> set rows" "y = clear x" using y(1) unfolding rows' by auto
    then have src: "us_forked_from x = Some f" "f \<noteq> sid" using forks [of x f] y(2) by simp_all
    then have "f \<in> us_id ` set rows" using inv x(1) unfolding strategies_inv_def by blast
    then obtain z where "z \<in> set rows" "us_id z = f" "f \<noteq> sid" using src(2) by blast
    then show ?thesis unfolding rows' set_map image_image keep by auto
  qed
  ultimately show ?thesis by (auto simp: strategies_inv_def)
next
  case (fork_step new_id now sid s)
  then obtain source where f: "strategy_get sid rows = Some source" "rows' = rows @ [s]" "us_forked_from s = Some sid"
    "us_rules s = us_rules source" "us_name s = us_name source @ '' (forked)''" "strategy_unique rows'" "char_len (us_name s) \<le> 100"
    by (rule fork_strategy_Inr)
  have mem: "source \<in> set rows" "us_id source = sid" using strategy_get_Some [OF f(1)] by simp_all
  then have "strategy_ok pr source" using inv by (auto simp: strategies_inv_def list_all_iff)
  then have "strategy_ok pr s" using f(4,5,7) by (simp add: strategy_ok_def valid_strategy_name_def)
  then show ?thesis using inv f(3,6) mem by (auto simp: strategies_inv_def f(2))
qed

interpretation custom: invariant_system "\<lambda>rows. rows = []" "\<lambda>rows rows'. \<exists>user. strategy_step pr user rows rows'" "strategies_inv pr" for pr
proof
  show "strategies_inv pr rows" if "rows = []" for rows using that by (simp add: strategies_inv_def strategy_unique_def)
qed (auto intro: strategy_step_inv)

section \<open>Properties\<close>

text \<open>
  C28: stored strategies always build. In every state the endpoints can reach, each strategy has rules
  that still pass validation and build a strategy for the backtest engine, whoever wrote or forked
  it; names are unique per user and a fork names a strategy that exists.
\<close>

theorem stored_strategies_build:
  assumes "reach (\<lambda>rows. rows = []) (\<lambda>rows rows'. \<exists>user. strategy_step pr user rows rows') rows"
  shows "list_all (\<lambda>s. is_ok (build_strategy pr (us_rules s))) rows
    \<and> distinct (map (\<lambda>s. (us_user_id s, us_name s)) rows)
    \<and> list_all (\<lambda>s. us_forked_from s \<in> insert None (Some ` us_id ` set rows)) rows"
proof -
  have inv: "strategies_inv pr rows" using assms by (rule custom.reach_inv)
  have "is_ok (build_strategy pr (us_rules s))" if "s \<in> set rows" for s
  proof -
    have "validate pr (us_rules s) = Inr ()" using inv that by (auto simp: strategies_inv_def list_all_iff strategy_ok_def)
    then show ?thesis by (rule validated_builds)
  qed
  moreover have "us_forked_from s \<in> insert None (Some ` us_id ` set rows)" if "s \<in> set rows" for s
    using inv that by (cases "us_forked_from s") (auto simp: strategies_inv_def)
  ultimately show ?thesis using inv by (auto simp: strategies_inv_def strategy_unique_def list_all_iff)
qed

text \<open>
  What a fork does, on every branch. A strategy that is missing or private cannot be forked (404);
  a copy the user already has is a conflict (409); a name of more than 91 characters makes the
  copy's name too long for its column, which nothing catches (500); otherwise the copy is private,
  belongs to the user, has the same rules and changes no other row.
\<close>

lemma fork_outcome:
  assumes "strategies_inv pr rows" "new_id \<notin> us_id ` set rows"
  shows "fork_strategy new_id now user sid rows =
    (case strategy_get sid rows of
       None \<Rightarrow> Inl (HTTPException 404 ''Strategy not available to fork.'')
     | Some source \<Rightarrow>
         if \<not> us_is_public source then Inl (HTTPException 404 ''Strategy not available to fork.'')
         else if 91 < char_len (us_name source) then Inl ServerError
         else if (u_id user, us_name source @ '' (forked)'') \<in> (\<lambda>s. (us_user_id s, us_name s)) ` set rows
         then Inl (HTTPException 409 fork_conflict)
         else let s = source\<lparr>us_id := new_id, us_user_id := u_id user, us_name := us_name source @ '' (forked)'', us_is_public := False,
                        us_forked_from := Some sid, us_created_at := now, us_updated_at := now\<rparr>
              in Inr (s, rows @ [s]))"
proof (cases "strategy_get sid rows")
  case None
  then show ?thesis by (simp add: fork_strategy_def strategy_fork_def raise_strategy_def)
next
  case (Some source)
  define s where "s = \<lparr>us_id = new_id, us_user_id = u_id user, us_name = us_name source @ '' (forked)'',
    us_description = us_description source, us_rules = us_rules source, us_is_public = False,
    us_forked_from = Some (us_id source), us_created_at = now, us_updated_at = now\<rparr>"
  have copy: "s = source\<lparr>us_id := new_id, us_user_id := u_id user, us_name := us_name source @ '' (forked)'', us_is_public := False,
    us_forked_from := Some sid, us_created_at := now, us_updated_at := now\<rparr>"
    using strategy_get_Some [OF Some] by (cases source) (simp add: s_def)
  have fork: "fork_strategy new_id now user sid rows =
    (if \<not> us_is_public source then Inl (HTTPException 404 ''Strategy not available to fork.'')
     else raise_strategy (bind_r (strategy_flush fork_conflict (rows @ [s])) (\<lambda>rows. Inr (s, rows))))"
    by (simp add: fork_strategy_def strategy_fork_def Some Let_def raise_strategy_def flip: s_def)
  have "char_len '' (forked)'' = 9" by (simp add: char_len_def)
  then have long: "100 < char_len (us_name s) \<longleftrightarrow> 91 < char_len (us_name source)" by (simp add: s_def)
  have short: "\<not> list_ex (\<lambda>x. 100 < char_len (us_name x)) rows"
    using assms(1) by (auto simp: strategies_inv_def strategy_ok_def valid_strategy_name_def list_all_iff list_ex_iff not_le [symmetric])
  have unique: "strategy_unique (rows @ [s]) \<longleftrightarrow>
      (u_id user, us_name source @ '' (forked)'') \<notin> (\<lambda>s. (us_user_id s, us_name s)) ` set rows"
    using assms by (auto simp: strategies_inv_def strategy_unique_def s_def)
  show ?thesis unfolding fork Some option.case copy [symmetric] Let_def
    by (simp add: strategy_flush_def short long unique raise_strategy_def)
qed

definition ex_author :: User where "ex_author = new_user ''u1'' ''a'' [] None 0"

definition ex_reader :: User where "ex_reader = new_user ''u2'' ''b'' [] None 0"

definition ex_body :: StrategyCreate where
  "ex_body = \<lparr>sc_name = ''Dip'', sc_description = None,
     sc_rules = [(''entry'', ex_cond ex_price ''<'' (ex_const 50)), (''exit'', ex_exit)], sc_is_public = True\<rparr>"

definition ex_stored :: UserStrategy where
  "ex_stored = \<lparr>us_id = ''s1'', us_user_id = ''u1'', us_name = ''Dip'', us_description = None, us_rules = ex_rules,
     us_is_public = True, us_forked_from = None, us_created_at = 5, us_updated_at = 5\<rparr>"

lemma ex_stored_step: "strategy_step ex_printer ex_author [] [ex_stored]"
proof (rule create_step)
  have "validate ex_printer ex_rules = Inr ()" by code_simp
  then show "create_strategy ex_printer ''s1'' 5 ex_author ex_body [] = Inr (ex_stored, [ex_stored])"
    by (simp add: create_strategy_def ex_body_def valid_strategy_name_def char_len_def strategy_create_def checked_rules_def Let_def
        strategy_flush_def strategy_unique_def ex_stored_def ex_author_def new_user_def flip: ex_rules_def)
qed

lemma ex_stored_inv: "strategies_inv ex_printer [ex_stored]"
  by (rule strategy_step_inv [OF _ ex_stored_step]) (simp add: strategies_inv_def strategy_unique_def)

theorem stored_strategies_build_witness:
  "\<exists>rows :: UserStrategy list. length rows = 2 \<and> list_all (\<lambda>s. is_ok (build_strategy ex_printer (us_rules s))) rows"
proof -
  obtain s where s: "fork_strategy ''s2'' 9 ex_reader ''s1'' [ex_stored] = Inr (s, [ex_stored, s])"
    by (simp add: fork_strategy_def strategy_fork_def strategy_get_def ex_stored_def Let_def strategy_flush_def strategy_unique_def
        char_len_def)
  have "reach (\<lambda>rows. rows = []) (\<lambda>rows rows'. \<exists>user. strategy_step ex_printer user rows rows') [ex_stored]"
    using ex_stored_step by (blast intro: reach.intros)
  then have "reach (\<lambda>rows. rows = []) (\<lambda>rows rows'. \<exists>user. strategy_step ex_printer user rows rows') [ex_stored, s]"
    using fork_step [OF s] by (blast intro: reach.intros)
  from stored_strategies_build [OF this] have "list_all (\<lambda>s. is_ok (build_strategy ex_printer (us_rules s))) [ex_stored, s]" by blast
  moreover have "length [ex_stored, s] = 2" by simp
  ultimately show ?thesis by blast
qed

end
