(* ===== verification/Curriculum.thy ===== *)
theory Curriculum
  imports Py_Base
begin

text \<open>
  The lessons shipped with the service, \<^verbatim>\<open>psx_api/learning/curriculum.py\<close>, and the grading of a quiz.
  An option of a question is its text and whether it is correct.
\<close>

record QuizQuestion =
  qq_question :: string
  qq_options :: "(string \<times> bool) list"

record LessonContent =
  lc_slug :: string
  lc_title :: string
  lc_category :: string
  lc_difficulty :: int
  lc_body_md :: string
  lc_quiz :: "QuizQuestion list"

definition quiz_question :: "string \<Rightarrow> (string \<times> bool) list \<Rightarrow> QuizQuestion" where
  "quiz_question q opts = \<lparr>qq_question = q, qq_options = opts\<rparr>"

section \<open>Lessons\<close>

definition lesson_what_is_a_stock :: LessonContent where
  "lesson_what_is_a_stock =
     \<lparr>lc_slug = ''what-is-a-stock'', lc_title = ''What is a stock?'', lc_category = ''basics'', lc_difficulty = 1,
      lc_body_md =
        ''A stock represents partial ownership of a company. When you buy 100 shares of **ENGRO**, you own a tiny slice '' @
        ''of Engro Corporation '' @ [CHR 0xE2, CHR 0x80, CHR 0x94] @
        '' entitled to your share of its future profits (via dividends), your share of any sale of the company, and '' @
        ''your share of votes at the AGM.'' @ [CHR 0x0A, CHR 0x0A] @ ''**Why companies issue stock**: it'' @ [CHR 0x27] @
        ''s a way to raise long-term capital without taking on debt. Instead of borrowing PKR 5 billion at 18% KIBOR, a '' @
        ''company can sell shares to investors and grow without interest payments.'' @ [CHR 0x0A, CHR 0x0A] @
        ''**Why people buy stock**: two return streams '' @ [CHR 0xE2, CHR 0x80, CHR 0x94] @
        '' capital gains (price goes up, you sell higher) and dividends (cash payouts from profits). Over the long run, '' @
        ''equities historically beat fixed deposits and even gold in PKR terms '' @ [CHR 0xE2, CHR 0x80, CHR 0x94] @
        '' but with much more volatility along the way.'',
      lc_quiz =
       [quiz_question (''When you buy a share of stock, what do you own?'')
          [(''A loan to the company that pays interest'', False),
           (''A small piece of the company itself'', True),
           (''A guaranteed monthly payment'', False),
           (''Insurance against the company failing'', False)],
        quiz_question (''What are the two main return streams from owning stock?'')
          [(''Interest and principal'', False),
           (''Dividends and capital gains'', True),
           (''Rent and resale value'', False),
           (''KIBOR and inflation'', False)],
        quiz_question (''Why do companies issue stock?'')
          [(''To take on more debt'', False),
           (''To raise long-term capital without interest payments'', True),
           (''To force employees to invest'', False),
           (''Because SECP requires it'', False)]]\<rparr>"

definition lesson_how_psx_trading_works :: LessonContent where
  "lesson_how_psx_trading_works =
     \<lparr>lc_slug = ''how-psx-trading-works'', lc_title = ''How PSX trading works'', lc_category = ''basics'', lc_difficulty = 1,
      lc_body_md =
        ''Pakistan Stock Exchange runs **two trading sessions** Monday to Friday: pre-open (09:15-09:30) and continuous '' @
        ''(09:32-15:30, with a half-hour lunch on Friday). Orders flow through a broker '' @ [CHR 0xE2, CHR 0x80, CHR 0x94] @
        '' there is no direct market access for retail.'' @ [CHR 0x0A, CHR 0x0A] @
        ''**T+2 settlement**: when you sell on Monday, cash hits your broker account on Wednesday. When you buy on '' @
        ''Monday, the shares show up Wednesday. This matters when you'' @ [CHR 0x27] @ ''re calculating your available buying power.'' @
        [CHR 0x0A, CHR 0x0A] @
        ''**Circuit breakers**: each stock has a 5%/7.5% intraday price limit (depending on category). The KSE-100 '' @
        ''itself triggers a market halt on big swings.'',
      lc_quiz =
       [quiz_question (''What does T+2 settlement mean on PSX?'')
          [(''Trades execute in 2 seconds'', False),
           (''Cash and shares settle 2 trading days after the trade'', True),
           (''You pay 2% commission'', False),
           (''You can hold for max 2 days'', False)],
        quiz_question (''Can retail investors trade directly on PSX without a broker?'')
          [(''Yes'', False),
           (''No '' @ [CHR 0xE2, CHR 0x80, CHR 0x94] @ '' you must go through a registered broker'', True),
           (''Only with PKR > 10M'', False),
           (''Only during pre-open'', False)],
        quiz_question (''What'' @ [CHR 0x27] @ ''s a circuit breaker?'')
          [(''A daily commission cap'', False),
           (''Price limit that pauses trading on extreme moves'', True),
           (''The opening auction'', False),
           (''A rule that closes the market on Eid'', False)]]\<rparr>"

definition lesson_reading_pe_ratio :: LessonContent where
  "lesson_reading_pe_ratio =
     \<lparr>lc_slug = ''reading-pe-ratio'', lc_title = ''Reading the P/E ratio'', lc_category = ''analysis'', lc_difficulty = 2,
      lc_body_md =
        ''**P/E (price-to-earnings)** is the most-watched valuation metric in equities. It'' @ [CHR 0x27] @
        ''s just price per share divided by earnings per share. A stock at PKR 200 with EPS of PKR 20 has a P/E of 10.'' @
        [CHR 0x0A, CHR 0x0A] @ ''**What it tells you**: how many years of current earnings would be needed to '' @ [CHR 0x27] @
        ''pay back'' @ [CHR 0x27] @ '' the stock'' @ [CHR 0x27] @
        ''s price. A P/E of 10 means 10 years; a P/E of 30 means the market is paying 30 years of current profits, '' @
        ''betting earnings will grow.'' @ [CHR 0x0A, CHR 0x0A] @ ''**On PSX**: the index has historically averaged a P/E of 7-9 '' @
        [CHR 0xE2, CHR 0x80, CHR 0x94] @ '' much lower than developed markets '' @ [CHR 0xE2, CHR 0x80, CHR 0x94] @
        '' partly because of higher KIBOR (more attractive bond yields compete with equities) and partly political risk '' @
        ''discounts.'' @ [CHR 0x0A, CHR 0x0A] @
        ''**Caveat**: P/E ignores debt. A company with high debt and a low P/E may look cheap on this metric but be '' @
        ''carrying real leverage risk.'',
      lc_quiz =
       [quiz_question (''If a stock has a P/E of 15 and EPS of PKR 10, what'' @ [CHR 0x27] @ ''s the price?'')
          [(''PKR 15'', False),
           (''PKR 150'', True),
           (''PKR 25'', False),
           (''PKR 1.5'', False)],
        quiz_question (''A higher P/E typically means'' @ [CHR 0xE2, CHR 0x80, CHR 0xA6])
          [(''The stock is safer'', False),
           (''The market expects higher future earnings growth (or it'' @ [CHR 0x27] @ ''s overvalued)'', True),
           (''The stock pays a higher dividend'', False),
           (''The company has less debt'', False)],
        quiz_question (''What does P/E NOT account for?'')
          [(''Debt levels'', True),
           (''Earnings'', False),
           (''Stock price'', False),
           (''Number of shares outstanding'', False)]]\<rparr>"

definition lesson_diversification :: LessonContent where
  "lesson_diversification =
     \<lparr>lc_slug = ''diversification'', lc_title = ''Why diversification matters'', lc_category = ''discipline'', lc_difficulty = 1,
      lc_body_md =
        ''Putting all your money in one stock is gambling, not investing. The math is simple: if any single stock has a '' @
        ''5% chance of going to zero in any given decade (a generous estimate for a well-known PSX name), your wealth '' @
        ''has the same 5% chance.'' @ [CHR 0x0A, CHR 0x0A] @
        ''Spread that across **10 uncorrelated stocks** and the chance that all 10 go to zero is 0.05'' @
        [CHR 0xC2, CHR 0xB9, CHR 0xE2, CHR 0x81, CHR 0xB0] @ '' = essentially zero. This is called *idiosyncratic risk reduction* '' @
        [CHR 0xE2, CHR 0x80, CHR 0x94] @ '' the kind of risk diversification can eliminate.'' @ [CHR 0x0A, CHR 0x0A] @
        ''**The catch**: diversification only reduces *single-stock* risk. It doesn'' @ [CHR 0x27] @
        ''t help against a market-wide crash, currency devaluation, or a regulatory shock that hits everyone. For those '' @
        ''you need to diversify across asset classes (bonds, gold, real estate), not just stocks.'',
      lc_quiz =
       [quiz_question (''What kind of risk does diversification primarily reduce?'')
          [(''Stock-specific (idiosyncratic) risk'', True),
           (''Inflation risk'', False),
           (''Currency risk'', False),
           (''All risk equally'', False)],
        quiz_question (''Holding 10 uncorrelated stocks vs 1 stock means'' @ [CHR 0xE2, CHR 0x80, CHR 0xA6])
          [(''Same risk'', False),
           (''Much lower chance of losing everything to a single-name failure'', True),
           (''Higher fees'', False),
           (''Lower expected returns'', False)],
        quiz_question (''Diversification does NOT protect against'' @ [CHR 0xE2, CHR 0x80, CHR 0xA6])
          [(''A single company going bankrupt'', False),
           (''A market-wide crash'', True),
           (''A wrong stock pick'', False),
           (''Sector rotation'', False)]]\<rparr>"

definition lesson_rsi_explained :: LessonContent where
  "lesson_rsi_explained =
     \<lparr>lc_slug = ''rsi-explained'', lc_title = ''What RSI actually measures'', lc_category = ''analysis'', lc_difficulty = 2,
      lc_body_md =
        ''**RSI** (Relative Strength Index) is a 0-100 momentum gauge. It compares the size of recent up-day moves to '' @
        ''recent down-day moves over a window (default 14 days).'' @ [CHR 0x0A, CHR 0x0A] @ ''**Above 70**: '' @ [CHR 0x27] @
        ''overbought.'' @ [CHR 0x27] @
        '' Recent gains have been sharp; historically a pullback or sideways move follows more often than continued gains.'' @
        [CHR 0x0A, CHR 0x0A] @ ''**Below 30**: '' @ [CHR 0x27] @ ''oversold.'' @ [CHR 0x27] @
        '' Recent losses have been sharp; a bounce becomes more likely.'' @ [CHR 0x0A, CHR 0x0A] @
        ''**The trap**: RSI can stay overbought (>70) for weeks during a strong trend. Selling just because RSI is 75 '' @
        ''in the middle of a sustained rally has cost many traders enormous gains. RSI is a *contributing* signal, '' @
        ''never a standalone trade rule.'',
      lc_quiz =
       [quiz_question (''RSI runs on what scale?'')
          [(''0-100'', True),
           (''-100 to +100'', False),
           (''0-1'', False),
           (''0-50'', False)],
        quiz_question (''An RSI reading of 78 traditionally suggests'' @ [CHR 0xE2, CHR 0x80, CHR 0xA6])
          [(''Strong buy'', False),
           (''Overbought '' @ [CHR 0xE2, CHR 0x80, CHR 0x94] @ '' pullback risk has increased'', True),
           (''The stock will crash tomorrow'', False),
           (''RSI can never be that high'', False)],
        quiz_question (''Should you sell automatically when RSI > 70?'')
          [(''Yes, always'', False),
           (''No '' @ [CHR 0xE2, CHR 0x80, CHR 0x94] @ '' RSI can stay overbought for weeks in strong trends'', True),
           (''Only on Mondays'', False),
           (''Only if you'' @ [CHR 0x27] @ ''re a non-filer'', False)]]\<rparr>"

definition lesson_psx_tax_basics :: LessonContent where
  "lesson_psx_tax_basics =
     \<lparr>lc_slug = ''psx-tax-basics'', lc_title = ''How taxes work on PSX gains'', lc_category = ''tax'', lc_difficulty = 2,
      lc_body_md =
        ''Two main taxes hit your trades: **CGT (Capital Gains Tax)** and minor charges (FED, CVT, brokerage).'' @ [CHR 0x0A, CHR 0x0A] @
        ''**CGT after the Finance Act 2024** (effective 1 July 2024 for newly-acquired securities): a flat **15% for '' @
        ''filers** and **45% for non-filers**, regardless of holding period. Older securities follow the pre-2024 '' @
        ''progressive holding-period schedule.'' @ [CHR 0x0A, CHR 0x0A] @ ''**NCCPL deducts CGT at source** '' @
        [CHR 0xE2, CHR 0x80, CHR 0x94] @ '' your broker hands NCCPL the tax money before you ever see it. You don'' @ [CHR 0x27] @
        ''t write a separate cheque. You will see it on your account statement.'' @ [CHR 0x0A, CHR 0x0A] @
        ''**Filer status is huge**: the rate jumps from 15% '' @ [CHR 0xE2, CHR 0x86, CHR 0x92] @ '' 45% if you'' @ [CHR 0x27] @
        ''re not on the FBR Active Taxpayer List. For an active trader this can be the difference between a profitable '' @
        ''year and a break-even one. Filing your annual return is free; do it.'',
      lc_quiz =
       [quiz_question (''Under Finance Act 2024, what'' @ [CHR 0x27] @ ''s the flat CGT rate for filers?'')
          [(''10%'', False),
           (''15%'', True),
           (''25%'', False),
           (''0% if held > 6 years'', False)],
        quiz_question (''Who deducts your CGT before it reaches you?'')
          [(''FBR directly'', False),
           (''NCCPL (the central counterparty)'', True),
           (''Your bank'', False),
           (''You file it manually each quarter'', False)],
        quiz_question (''Approximately how much higher is non-filer CGT vs filer under FA-2024?'')
          [(''2'' @ [CHR 0xC3, CHR 0x97] @ '' higher'', False),
           (''3'' @ [CHR 0xC3, CHR 0x97] @ '' higher (15% vs 45%)'', True),
           (''Same'', False),
           (''0.5'' @ [CHR 0xC3, CHR 0x97] @ '' lower'', False)]]\<rparr>"

definition lesson_shariah_investing_basics :: LessonContent where
  "lesson_shariah_investing_basics =
     \<lparr>lc_slug = ''shariah-investing-basics'', lc_title = ''Shariah-compliant investing on PSX'', lc_category = ''shariah'', lc_difficulty = 2,
      lc_body_md =
        ''**Shariah-compliant equities** exclude companies with revenue from interest-based banking, alcohol, gambling, '' @
        ''conventional insurance, and certain prohibited industries. Companies must also pass financial-ratio screens '' @
        ''(debt/total assets < 37%, interest income < 5% of revenue).'' @ [CHR 0x0A, CHR 0x0A] @
        ''**On PSX**: Meezan Bank publishes the **KMI All-Share Index** and **KMI-30** based on these criteria, '' @
        ''reviewed every 6 months. Stocks can be added or removed.'' @ [CHR 0x0A, CHR 0x0A] @
        ''**Purification**: even compliant companies sometimes earn a small amount of interest on cash deposits. The '' @
        ''standard practice is to **donate 5% of cash dividends** received from compliant stocks as purification. The '' @
        ''capital gain itself is permissible without purification '' @ [CHR 0xE2, CHR 0x80, CHR 0x94] @ '' only the dividend portion.'',
      lc_quiz =
       [quiz_question (''Which index lists Shariah-compliant PSX stocks?'')
          [(''KSE-100'', False),
           (''KMI-30 / KMI All-Share'', True),
           (''PSX-30'', False),
           (''Banks-100'', False)],
        quiz_question (''What'' @ [CHR 0x27] @ ''s the typical purification rate on KMI dividends?'')
          [(''0%'', False),
           (''5% of cash dividends'', True),
           (''100%'', False),
           (''Same as CGT'', False)],
        quiz_question (''Does purification apply to capital gains too?'')
          [(''Yes, on the full sale price'', False),
           (''No '' @ [CHR 0xE2, CHR 0x80, CHR 0x94] @ '' the price-gain itself is permissible without purification'', True),
           (''Only on bonus shares'', False),
           (''Only for non-filers'', False)]]\<rparr>"

definition lesson_position_sizing :: LessonContent where
  "lesson_position_sizing =
     \<lparr>lc_slug = ''position-sizing'', lc_title = ''Position sizing '' @ [CHR 0xE2, CHR 0x80, CHR 0x94] @ '' how much to put in one trade'', lc_category = ''discipline'', lc_difficulty = 2,
      lc_body_md =
        ''**The single most important rule**: never bet so much on one trade that being wrong wipes out your account.'' @
        [CHR 0x0A, CHR 0x0A] @
        ''A simple framework: **risk 1-2% of total capital per trade**. If your portfolio is PKR 500,000 and you set a '' @
        ''stop-loss 10% below entry, your position size is:'' @ [CHR 0x0A, CHR 0x0A] @ ''  - 1% of 500,000 = 5,000 PKR risk budget'' @
        [CHR 0x0A] @ ''  - 5,000 / (10% stop) = PKR 50,000 position size'' @ [CHR 0x0A, CHR 0x0A] @ ''That'' @ [CHR 0x27] @
        ''s 10% of capital in the trade. Doesn'' @ [CHR 0x27] @ ''t feel like much? That'' @ [CHR 0x27] @
        ''s the point. Survivable losses keep you in the game long enough to learn. Account-killers end careers in week one.'',
      lc_quiz =
       [quiz_question (''A common rule for max risk per trade?'')
          [(''50% of capital'', False),
           (''1-2% of capital'', True),
           (''100% of capital'', False),
           (''Whatever your gut says'', False)],
        quiz_question (''If you risk 2% of a PKR 1M portfolio with a 5% stop, what'' @ [CHR 0x27] @ ''s the position size?'')
          [(''PKR 100,000'', False),
           (''PKR 400,000'', True),
           (''PKR 1,000,000'', False),
           (''PKR 50,000'', False)],
        quiz_question (''Why does small position sizing matter?'')
          [(''Brokers reward it'', False),
           (''It keeps individual losses survivable so you stay in the game long enough to learn'', True),
           (''It minimises taxes'', False),
           (''It'' @ [CHR 0x27] @ ''s required by SECP'', False)]]\<rparr>"

definition lesson_bonus_vs_rights_vs_dividend :: LessonContent where
  "lesson_bonus_vs_rights_vs_dividend =
     \<lparr>lc_slug = ''bonus-vs-rights-vs-dividend'', lc_title = ''Bonus shares, rights issues, and dividends'', lc_category = ''basics'', lc_difficulty = 2,
      lc_body_md =
        ''Three forms of corporate distribution you'' @ [CHR 0x27] @ ''ll see on PSX:'' @ [CHR 0x0A, CHR 0x0A] @
        ''**Cash dividend**: company pays you PKR per share owned. Cash hits your account on the payment date. Taxed at '' @ ''source.'' @
        [CHR 0x0A, CHR 0x0A] @
        ''**Bonus shares**: company issues new shares from retained earnings, distributed pro-rata. Your share count '' @
        ''goes up but the price-per-share drops proportionally '' @ [CHR 0xE2, CHR 0x80, CHR 0x94] @
        '' your total ownership value is unchanged on day one. **Buying bonus shares before the ex-date** is a common '' @
        ''misconception that doesn'' @ [CHR 0x27] @ ''t actually create wealth.'' @ [CHR 0x0A, CHR 0x0A] @
        ''**Rights issue**: company offers existing shareholders the right to buy *more* shares at a discounted price. '' @
        ''You can subscribe (commit cash) or sell the rights letter. Ignoring rights you'' @ [CHR 0x27] @
        ''ve been allotted is throwing away free option value.'',
      lc_quiz =
       [quiz_question (''Bonus shares '' @ [CHR 0xE2, CHR 0x80, CHR 0x94] @ '' does receiving them increase the value of your holding immediately?'')
          [(''Yes, free shares = free money'', False),
           (''No '' @ [CHR 0xE2, CHR 0x80, CHR 0x94] @ '' share count goes up but price drops proportionally; total value unchanged on day 1'', True),
           (''Only for filers'', False),
           (''Only if you sell within 24 hours'', False)],
        quiz_question (''What is a rights issue?'')
          [(''A free distribution of new shares'', False),
           (''An offer to buy MORE shares at a discounted price'', True),
           (''A vote on board members'', False),
           (''A tax refund'', False)],
        quiz_question (''Cash dividends are typically'' @ [CHR 0xE2, CHR 0x80, CHR 0xA6])
          [(''Tax-free in Pakistan'', False),
           (''Taxed at source (withholding tax applied by the company)'', True),
           (''Paid in shares only'', False),
           (''Available only to non-filers'', False)]]\<rparr>"

definition lesson_when_not_to_invest :: LessonContent where
  "lesson_when_not_to_invest =
     \<lparr>lc_slug = ''when-not-to-invest'', lc_title = ''When NOT to be in the market'', lc_category = ''discipline'', lc_difficulty = 1,
      lc_body_md =
        ''Equity investing assumes you can leave money invested for **at least 5 years** without needing to liquidate '' @
        ''during a drawdown. If you don'' @ [CHR 0x27] @ ''t have that runway, equities aren'' @ [CHR 0x27] @ ''t the right vehicle.'' @
        [CHR 0x0A, CHR 0x0A] @ ''**Don'' @ [CHR 0x27] @ ''t invest money you'' @ [CHR 0x27] @
        ''ll need within 2 years.** Down payments, wedding expenses, planned tuition, business capital '' @
        [CHR 0xE2, CHR 0x80, CHR 0x94] @ '' all of this belongs in T-Bills or savings, not equities.'' @ [CHR 0x0A, CHR 0x0A] @ ''**Don'' @
        [CHR 0x27] @ ''t invest borrowed money.** A loss combined with debt service charges compounds the damage.'' @
        [CHR 0x0A, CHR 0x0A] @ ''**Don'' @ [CHR 0x27] @
        ''t invest without an emergency fund.** 3-6 months of expenses in cash protects you from being forced to sell '' @
        ''stock at the worst possible time.'',
      lc_quiz =
       [quiz_question (''What'' @ [CHR 0x27] @ ''s the minimum reasonable horizon for equity investing?'')
          [(''3 weeks'', False),
           (''3 months'', False),
           (''5+ years'', True),
           (''It doesn'' @ [CHR 0x27] @ ''t matter'', False)],
        quiz_question (''How much emergency fund should you have BEFORE investing in equities?'')
          [(''None '' @ [CHR 0xE2, CHR 0x80, CHR 0x94] @ '' invest first'', False),
           (''3-6 months of expenses in cash'', True),
           (''Equal to your portfolio'', False),
           (''Enough to buy one Bitcoin'', False)],
        quiz_question (''Should you invest borrowed money in stocks?'')
          [(''Yes, leverage is great'', False),
           (''No '' @ [CHR 0xE2, CHR 0x80, CHR 0x94] @ '' losses combined with debt service can compound the damage'', True),
           (''Only on Tuesdays'', False),
           (''Only if you'' @ [CHR 0x27] @ ''re a filer'', False)]]\<rparr>"

definition CURRICULUM :: "LessonContent list" where
  "CURRICULUM =
    [lesson_what_is_a_stock, lesson_how_psx_trading_works, lesson_reading_pe_ratio,
     lesson_diversification, lesson_rsi_explained, lesson_psx_tax_basics,
     lesson_shariah_investing_basics, lesson_position_sizing, lesson_bonus_vs_rights_vs_dividend,
     lesson_when_not_to_invest]"

section \<open>Grading\<close>

text \<open>An answer is right when it is the index of a correct option.\<close>

definition right_answer :: "QuizQuestion \<Rightarrow> int \<Rightarrow> bool" where
  "right_answer q idx \<longleftrightarrow> 0 \<le> idx \<and> idx < int (length (qq_options q)) \<and> snd (qq_options q ! nat idx)"

definition grade_attempt :: "QuizQuestion list \<Rightarrow> int list \<Rightarrow> int" where
  "grade_attempt quiz answer_indices =
     (if quiz = [] then 0
      else if length answer_indices \<noteq> length quiz then 0
      else let correct = length (filter (\<lambda>(q, idx). right_answer q idx) (zip quiz answer_indices))
           in round_half_even (fval (flt (of_nat correct / of_nat (length quiz)) * flt 100)))"

lemma grade_attempt_bounds: "0 \<le> grade_attempt quiz ans \<and> grade_attempt quiz ans \<le> 100"
proof -
  define k where "k = length (filter (\<lambda>(q, idx). right_answer q idx) (zip quiz ans))"
  have "0 \<le> round_half_even (fval (flt (of_nat k / of_nat (length quiz)) * flt 100))
    \<and> round_half_even (fval (flt (of_nat k / of_nat (length quiz)) * flt 100)) \<le> 100" if "length ans = length quiz"
  proof -
    have "k \<le> length quiz" using that length_filter_le [of "\<lambda>(q, idx). right_answer q idx" "zip quiz ans"] by (simp add: k_def)
    then have "0 \<le> fval (flt (of_nat k / of_nat (length quiz)) * flt 100)" "fval (flt (of_nat k / of_nat (length quiz)) * flt 100) \<le> 100"
      using percentage [of k "length quiz"] by (simp_all only: flt_le_iff) simp_all
    then show ?thesis
      using round_half_even_mono [of 0] round_half_even_mono [of _ 100] round_half_even_of_int [of 0] round_half_even_of_int [of 100] by fastforce
  qed
  then show ?thesis by (simp add: grade_attempt_def Let_def flip: k_def)
qed

lemma grade_attempt_perfect:
  assumes "quiz \<noteq> []" "list_all2 right_answer quiz ans"
  shows "grade_attempt quiz ans = 100"
proof -
  have len: "length ans = length quiz" using assms(2) by (simp add: list_all2_lengthD)
  have "filter (\<lambda>(q, idx). right_answer q idx) (zip quiz ans) = zip quiz ans"
    using assms(2) by (auto simp: list_all2_iff intro!: filter_True)
  moreover have "fl64 1 = 1" "fl64 100 = 100" using flt_r.exact_int [of 1] flt_r.exact_int [of 100] by simp_all
  ultimately show ?thesis
    using assms(1) len round_half_even_of_int [of 100] by (simp add: grade_attempt_def Let_def flt_def)
qed

text \<open>Every question of the curriculum has exactly one correct option, so each quiz can be passed.\<close>

definition answerable :: "QuizQuestion list \<Rightarrow> bool" where
  "answerable quiz \<longleftrightarrow> quiz \<noteq> [] \<and> length quiz \<le> 20 \<and> list_all (\<lambda>q. list_ex snd (qq_options q)) quiz"

lemmas lesson_defs = lesson_what_is_a_stock_def
  lesson_how_psx_trading_works_def
  lesson_reading_pe_ratio_def
  lesson_diversification_def
  lesson_rsi_explained_def
  lesson_psx_tax_basics_def
  lesson_shariah_investing_basics_def
  lesson_position_sizing_def
  lesson_bonus_vs_rights_vs_dividend_def
  lesson_when_not_to_invest_def

lemma curriculum_answerable: "list_all (\<lambda>lc. answerable (lc_quiz lc)) CURRICULUM"
  by (simp add: CURRICULUM_def lesson_defs answerable_def quiz_question_def)

lemma curriculum_slugs: "distinct (map lc_slug CURRICULUM)" "length CURRICULUM = 10"
  by (simp_all add: CURRICULUM_def lesson_defs)

end
