(* ===== verification/Lessons.thy ===== *)
theory Lessons
  imports Curriculum Auth
begin

text \<open>
  Lessons and the progress of users: \<^verbatim>\<open>services/lesson_service.py\<close>, its endpoints in \<^verbatim>\<open>routers/community.py\<close>
  and the tables of \<^verbatim>\<open>models/community.py\<close>. The column \<^verbatim>\<open>quiz\<close> holds what \<^verbatim>\<open>quiz_to_jsonable\<close> writes.
\<close>

section \<open>Tables\<close>

record Lesson =
  le_id :: int
  le_slug :: string
  le_title :: string
  le_category :: string
  le_difficulty :: int
  le_body_md :: string
  le_quiz :: "QuizQuestion list"
  le_display_order :: nat

record UserLessonProgress =
  lp_user_id :: string
  lp_lesson_id :: int
  lp_started_at :: "int option"
  lp_completed_at :: "int option"
  lp_quiz_score :: "int option"
  lp_last_seen_at :: int

record lesson_db =
  lesson_rows :: "Lesson list"
  progress_rows :: "UserLessonProgress list"

section \<open>Service\<close>

definition lesson_of :: "int \<Rightarrow> nat \<Rightarrow> LessonContent \<Rightarrow> Lesson" where
  "lesson_of new_id i lc =
     \<lparr>le_id = new_id, le_slug = lc_slug lc, le_title = lc_title lc, le_category = lc_category lc,
      le_difficulty = lc_difficulty lc, le_body_md = lc_body_md lc, le_quiz = lc_quiz lc, le_display_order = i\<rparr>"

text \<open>The ids are those the sequence of the table gives; slugs and ids are unique.\<close>

definition new_lessons :: "(nat \<Rightarrow> int) \<Rightarrow> lesson_db \<Rightarrow> Lesson list" where
  "new_lessons ids db =
     (let existing = le_slug ` set (lesson_rows db)
      in map (\<lambda>(i, lc). lesson_of (ids i) i lc) (filter (\<lambda>(i, lc). lc_slug lc \<notin> existing) (enumerate 0 CURRICULUM)))"

definition seed_curriculum :: "(nat \<Rightarrow> int) \<Rightarrow> lesson_db \<Rightarrow> http_error + nat \<times> lesson_db" where
  "seed_curriculum ids db =
     (let rows = lesson_rows db @ new_lessons ids db
      in if distinct (map le_id rows) \<and> distinct (map le_slug rows)
         then Inr (length (new_lessons ids db), db\<lparr>lesson_rows := rows\<rparr>) else Inl ServerError)"

definition find_lesson :: "lesson_db \<Rightarrow> string \<Rightarrow> Lesson option" where
  "find_lesson db slug = List.find (\<lambda>l. le_slug l = slug) (lesson_rows db)"

definition find_progress :: "lesson_db \<Rightarrow> string \<Rightarrow> int \<Rightarrow> UserLessonProgress option" where
  "find_progress db uid lid = List.find (\<lambda>p. lp_user_id p = uid \<and> lp_lesson_id p = lid) (progress_rows db)"

definition save_progress :: "UserLessonProgress \<Rightarrow> lesson_db \<Rightarrow> lesson_db" where
  "save_progress p db =
     db\<lparr>progress_rows :=
       (if find_progress db (lp_user_id p) (lp_lesson_id p) = None then progress_rows db @ [p]
        else map (\<lambda>x. if lp_user_id x = lp_user_id p \<and> lp_lesson_id x = lp_lesson_id p then p else x) (progress_rows db))\<rparr>"

record LessonSummary =
  ls_lesson :: Lesson
  ls_started :: bool
  ls_completed :: bool
  ls_quiz_score :: "int option"

definition list_with_progress :: "string \<Rightarrow> lesson_db \<Rightarrow> LessonSummary list" where
  "list_with_progress uid db =
     map (\<lambda>l. let p = find_progress db uid (le_id l)
              in \<lparr>ls_lesson = l, ls_started = (Option.bind p lp_started_at \<noteq> None),
                  ls_completed = (Option.bind p lp_completed_at \<noteq> None), ls_quiz_score = Option.bind p lp_quiz_score\<rparr>)
       (sort_key (\<lambda>l. (le_display_order l, le_id l)) (lesson_rows db))"

text \<open>The quiz as shown: questions and the texts of their options, without the answers.\<close>

definition scrubbed_quiz :: "QuizQuestion list \<Rightarrow> (string \<times> string list) list" where
  "scrubbed_quiz quiz = map (\<lambda>q. (qq_question q, map fst (qq_options q))) quiz"

record LessonDetail =
  ld_lesson :: Lesson
  ld_quiz :: "(string \<times> string list) list"
  ld_progress :: UserLessonProgress

definition get_with_progress :: "int \<Rightarrow> string \<Rightarrow> string \<Rightarrow> lesson_db \<Rightarrow> (LessonDetail \<times> lesson_db) option" where
  "get_with_progress now uid slug db =
     (case find_lesson db slug of
        None \<Rightarrow> None
      | Some lesson \<Rightarrow>
          let p = (case find_progress db uid (le_id lesson) of
                None \<Rightarrow> \<lparr>lp_user_id = uid, lp_lesson_id = le_id lesson, lp_started_at = Some now, lp_completed_at = None,
                          lp_quiz_score = None, lp_last_seen_at = now\<rparr>
              | Some p \<Rightarrow> p\<lparr>lp_last_seen_at := now\<rparr>)
          in Some (\<lparr>ld_lesson = lesson, ld_quiz = scrubbed_quiz (le_quiz lesson), ld_progress = p\<rparr>, save_progress p db))"

text \<open>The first correct option of every question that has one.\<close>

definition first_correct :: "QuizQuestion \<Rightarrow> int list" where
  "first_correct q = take 1 (map (\<lambda>(i, opt). int i) (filter (\<lambda>(i, opt). snd opt) (enumerate 0 (qq_options q))))"

record QuizResult =
  qr_score :: int
  qr_completed :: bool
  qr_correct_indices :: "int list"

definition graded :: "int \<Rightarrow> int \<Rightarrow> UserLessonProgress \<Rightarrow> UserLessonProgress" where
  "graded now score p =
     p\<lparr>lp_quiz_score := (case lp_quiz_score p of None \<Rightarrow> Some score | Some s \<Rightarrow> if s < score then Some score else Some s),
       lp_completed_at := (if 70 \<le> score \<and> lp_completed_at p = None then Some now else lp_completed_at p),
       lp_last_seen_at := now\<rparr>"

definition submit_quiz :: "int \<Rightarrow> string \<Rightarrow> string \<Rightarrow> int list \<Rightarrow> lesson_db \<Rightarrow> (QuizResult \<times> lesson_db) option" where
  "submit_quiz now uid slug answers db =
     (case find_lesson db slug of
        None \<Rightarrow> None
      | Some lesson \<Rightarrow>
          let score = grade_attempt (le_quiz lesson) answers; completed = (70 \<le> score);
              p = (case find_progress db uid (le_id lesson) of
                None \<Rightarrow> \<lparr>lp_user_id = uid, lp_lesson_id = le_id lesson, lp_started_at = Some now,
                          lp_completed_at = (if completed then Some now else None), lp_quiz_score = Some score, lp_last_seen_at = now\<rparr>
              | Some p \<Rightarrow> graded now score p)
          in Some (\<lparr>qr_score = score, qr_completed = completed, qr_correct_indices = concat (map first_correct (le_quiz lesson))\<rparr>,
                   save_progress p db))"

section \<open>Endpoints\<close>

definition seed_lessons :: "(nat \<Rightarrow> int) \<Rightarrow> lesson_db \<Rightarrow> http_error + nat \<times> lesson_db" where
  "seed_lessons ids db = seed_curriculum ids db"

definition list_lessons :: "User \<Rightarrow> lesson_db \<Rightarrow> LessonSummary list" where
  "list_lessons user db = list_with_progress (u_id user) db"

definition get_lesson :: "int \<Rightarrow> User \<Rightarrow> string \<Rightarrow> lesson_db \<Rightarrow> http_error + LessonDetail \<times> lesson_db" where
  "get_lesson now user slug db =
     (case get_with_progress now (u_id user) slug db of None \<Rightarrow> Inl (HTTPException 404 ''Lesson not found.'') | Some r \<Rightarrow> Inr r)"

definition submit_quiz_ep :: "int \<Rightarrow> User \<Rightarrow> string \<Rightarrow> int list \<Rightarrow> lesson_db \<Rightarrow> http_error + QuizResult \<times> lesson_db" where
  "submit_quiz_ep now user slug answers db =
     (if length answers < 1 \<or> 20 < length answers then Inl (HTTPException 422 [])
      else case submit_quiz now (u_id user) slug answers db of
             None \<Rightarrow> Inl (HTTPException 404 ''Lesson not found'') | Some r \<Rightarrow> Inr r)"

inductive lesson_step :: "lesson_db \<Rightarrow> lesson_db \<Rightarrow> bool" where
  seed_step: "seed_lessons ids db = Inr (n, db') \<Longrightarrow> lesson_step db db'"
| read_step: "get_lesson now user slug db = Inr (d, db') \<Longrightarrow> lesson_step db db'"
| quiz_step: "submit_quiz_ep now user slug answers db = Inr (r, db') \<Longrightarrow> lesson_step db db'"

section \<open>Invariant\<close>

text \<open>A lesson is completed exactly when its best score passes.\<close>

definition progress_ok :: "UserLessonProgress \<Rightarrow> bool" where
  "progress_ok p \<longleftrightarrow> lp_started_at p \<noteq> None
     \<and> (case lp_quiz_score p of None \<Rightarrow> lp_completed_at p = None
        | Some s \<Rightarrow> 0 \<le> s \<and> s \<le> 100 \<and> (lp_completed_at p \<noteq> None \<longleftrightarrow> 70 \<le> s))"

definition lessons_inv :: "lesson_db \<Rightarrow> bool" where
  "lessons_inv db \<longleftrightarrow> distinct (map le_id (lesson_rows db)) \<and> distinct (map le_slug (lesson_rows db))
     \<and> distinct (map (\<lambda>p. (lp_user_id p, lp_lesson_id p)) (progress_rows db)) \<and> list_all progress_ok (progress_rows db)
     \<and> lp_lesson_id ` set (progress_rows db) \<subseteq> le_id ` set (lesson_rows db)"

lemma find_progress_Some:
  "find_progress db uid lid = Some p \<Longrightarrow> p \<in> set (progress_rows db) \<and> lp_user_id p = uid \<and> lp_lesson_id p = lid"
  by (auto simp: find_progress_def find_Some_iff)

lemma find_lesson_Some: "find_lesson db slug = Some l \<Longrightarrow> l \<in> set (lesson_rows db) \<and> le_slug l = slug"
  by (auto simp: find_lesson_def find_Some_iff)

lemma save_progress_lessons [simp]: "lesson_rows (save_progress p db) = lesson_rows db" "find_lesson (save_progress p db) slug = find_lesson db slug"
  by (simp_all add: save_progress_def find_lesson_def)

lemma save_progress_keys:
  "map (\<lambda>p. (lp_user_id p, lp_lesson_id p)) (progress_rows (save_progress p db)) =
     map (\<lambda>p. (lp_user_id p, lp_lesson_id p)) (progress_rows db)
       @ (if find_progress db (lp_user_id p) (lp_lesson_id p) = None then [(lp_user_id p, lp_lesson_id p)] else [])"
  by (auto simp: save_progress_def)

lemma save_progress_set: "set (progress_rows (save_progress p db)) \<subseteq> insert p (set (progress_rows db))"
  by (auto simp: save_progress_def)

text \<open>Reading back: the row saved, and the rows of other users and lessons as before.\<close>

lemma find_progress_save:
  "find_progress (save_progress p db) uid lid =
     (if uid = lp_user_id p \<and> lid = lp_lesson_id p then Some p else find_progress db uid lid)"
proof -
  have map: "List.find (\<lambda>x. lp_user_id x = uid \<and> lp_lesson_id x = lid)
      (map (\<lambda>x. if lp_user_id x = lp_user_id p \<and> lp_lesson_id x = lp_lesson_id p then p else x) xs)
    = (if uid = lp_user_id p \<and> lid = lp_lesson_id p \<and> (\<exists>x \<in> set xs. lp_user_id x = uid \<and> lp_lesson_id x = lid) then Some p
       else List.find (\<lambda>x. lp_user_id x = uid \<and> lp_lesson_id x = lid) xs)" for xs
    by (induction xs) auto
  have app: "List.find P (xs @ [p]) = (case List.find P xs of None \<Rightarrow> if P p then Some p else None | Some y \<Rightarrow> Some y)" for P xs
    by (induction xs) auto
  show ?thesis
  proof (cases "find_progress db (lp_user_id p) (lp_lesson_id p)")
    case None
    then show ?thesis by (auto simp: save_progress_def find_progress_def app split: option.splits)
  next
    case (Some q)
    then have "\<exists>x \<in> set (progress_rows db). lp_user_id x = lp_user_id p \<and> lp_lesson_id x = lp_lesson_id p"
      using find_progress_Some by blast
    with Some show ?thesis by (simp add: save_progress_def find_progress_def map)
  qed
qed

lemma save_progress_inv:
  assumes inv: "lessons_inv db" and ok: "progress_ok p" and lesson: "lp_lesson_id p \<in> le_id ` set (lesson_rows db)"
  shows "lessons_inv (save_progress p db)"
proof -
  have "distinct (map (\<lambda>p. (lp_user_id p, lp_lesson_id p)) (progress_rows (save_progress p db)))"
    using inv by (auto simp: save_progress_keys lessons_inv_def find_progress_def find_None_iff)
  moreover have "list_all progress_ok (progress_rows (save_progress p db))"
    using inv ok save_progress_set [of p db] by (auto simp: lessons_inv_def list_all_iff)
  moreover have "lp_lesson_id ` set (progress_rows (save_progress p db)) \<subseteq> le_id ` set (lesson_rows db)"
    using inv lesson save_progress_set [of p db] unfolding lessons_inv_def by blast
  ultimately show ?thesis using inv by (simp add: lessons_inv_def)
qed

lemma progress_ok_seen [simp]: "progress_ok (p\<lparr>lp_last_seen_at := t\<rparr>) = progress_ok p"
  by (cases "lp_quiz_score p") (simp_all add: progress_ok_def)

lemma graded_ok: "progress_ok p \<Longrightarrow> 0 \<le> s \<Longrightarrow> s \<le> 100 \<Longrightarrow> progress_ok (graded now s p)"
  by (auto simp: progress_ok_def graded_def split: option.splits if_splits)

text \<open>What an attempt writes.\<close>

lemma submit_quiz_Some:
  assumes "submit_quiz now uid slug answers db = Some (r, db')"
  obtains lesson p where "find_lesson db slug = Some lesson" "qr_score r = grade_attempt (le_quiz lesson) answers"
    "qr_completed r \<longleftrightarrow> 70 \<le> qr_score r" "qr_correct_indices r = concat (map first_correct (le_quiz lesson))"
    "db' = save_progress p db" "lp_user_id p = uid" "lp_lesson_id p = le_id lesson"
    "lp_quiz_score p = Some (case Option.bind (find_progress db uid (le_id lesson)) lp_quiz_score of None \<Rightarrow> qr_score r | Some s \<Rightarrow> max s (qr_score r))"
    "lessons_inv db \<Longrightarrow> progress_ok p"
proof -
  obtain lesson where l: "find_lesson db slug = Some lesson" using assms by (auto simp: submit_quiz_def split: option.splits)
  define score where "score = grade_attempt (le_quiz lesson) answers"
  have bounds: "0 \<le> score" "score \<le> 100" using grade_attempt_bounds by (simp_all add: score_def)
  define p where "p = (case find_progress db uid (le_id lesson) of
                None \<Rightarrow> \<lparr>lp_user_id = uid, lp_lesson_id = le_id lesson, lp_started_at = Some now,
                          lp_completed_at = (if 70 \<le> score then Some now else None), lp_quiz_score = Some score, lp_last_seen_at = now\<rparr>
              | Some p \<Rightarrow> graded now score p)"
  have r: "r = \<lparr>qr_score = score, qr_completed = (70 \<le> score), qr_correct_indices = concat (map first_correct (le_quiz lesson))\<rparr>"
    "db' = save_progress p db"
    using assms by (simp_all add: submit_quiz_def l Let_def p_def flip: score_def)
  have key: "lp_user_id p = uid" "lp_lesson_id p = le_id lesson"
    by (auto simp: p_def graded_def split: option.splits dest: find_progress_Some)
  have best: "lp_quiz_score p = Some (case Option.bind (find_progress db uid (le_id lesson)) lp_quiz_score of None \<Rightarrow> score | Some s \<Rightarrow> max s score)"
    by (auto simp: p_def graded_def max_def split: option.splits)
  have "progress_ok p" if inv: "lessons_inv db"
  proof (cases "find_progress db uid (le_id lesson)")
    case None
    then show ?thesis using bounds by (simp add: p_def progress_ok_def)
  next
    case (Some q)
    then have "progress_ok q" using inv find_progress_Some [OF Some] by (auto simp: lessons_inv_def list_all_iff)
    then show ?thesis using graded_ok bounds by (simp add: p_def Some)
  qed
  moreover have res: "qr_score r = score" "qr_completed r \<longleftrightarrow> 70 \<le> score"
    "qr_correct_indices r = concat (map first_correct (le_quiz lesson))" by (simp_all add: r(1))
  ultimately show thesis
    using that [of lesson p] l r(2) key best unfolding res(1) by (simp add: score_def [symmetric])
qed

lemma seed_curriculum_Inr:
  assumes "seed_curriculum ids db = Inr (n, db')"
  obtains "db' = db\<lparr>lesson_rows := lesson_rows db @ new_lessons ids db\<rparr>" "distinct (map le_id (lesson_rows db @ new_lessons ids db))"
    "distinct (map le_slug (lesson_rows db @ new_lessons ids db))" "n = length (new_lessons ids db)"
  using assms by (simp add: seed_curriculum_def Let_def split: if_splits)

lemma new_lessons_empty: "lesson_rows db = [] \<Longrightarrow> new_lessons ids db = map (\<lambda>(i, lc). lesson_of (ids i) i lc) (enumerate 0 CURRICULUM)"
  by (simp add: new_lessons_def case_prod_beta)

lemma lesson_step_inv:
  assumes "lessons_inv db" "lesson_step db db'"
  shows "lessons_inv db'"
  using assms(2)
proof cases
  case (seed_step ids n)
  then obtain db': "db' = db\<lparr>lesson_rows := lesson_rows db @ new_lessons ids db\<rparr>" "distinct (map le_id (lesson_rows db @ new_lessons ids db))"
    "distinct (map le_slug (lesson_rows db @ new_lessons ids db))" unfolding seed_lessons_def by (rule seed_curriculum_Inr)
  have "lp_lesson_id ` set (progress_rows db) \<subseteq> le_id ` set (lesson_rows db @ new_lessons ids db)"
    using assms(1) unfolding lessons_inv_def set_append image_Un by blast
  with assms(1) db'(2,3) show ?thesis unfolding db'(1) lessons_inv_def by simp
next
  case (read_step now user slug d)
  then obtain lesson where l: "find_lesson db slug = Some lesson"
    by (auto simp: get_lesson_def get_with_progress_def split: option.splits)
  have mem: "le_id lesson \<in> le_id ` set (lesson_rows db)" using find_lesson_Some [OF l] by simp
  show ?thesis
  proof (cases "find_progress db (u_id user) (le_id lesson)")
    case None
    then have "db' = save_progress \<lparr>lp_user_id = u_id user, lp_lesson_id = le_id lesson, lp_started_at = Some now,
        lp_completed_at = None, lp_quiz_score = None, lp_last_seen_at = now\<rparr> db"
      using read_step by (simp add: get_lesson_def get_with_progress_def l Let_def)
    then show ?thesis using save_progress_inv [OF assms(1)] mem by (simp add: progress_ok_def)
  next
    case (Some p)
    then have "db' = save_progress (p\<lparr>lp_last_seen_at := now\<rparr>) db"
      using read_step by (simp add: get_lesson_def get_with_progress_def l Let_def)
    moreover have "progress_ok p" "lp_lesson_id p = le_id lesson"
      using assms(1) find_progress_Some [OF Some] by (auto simp: lessons_inv_def list_all_iff)
    ultimately show ?thesis using save_progress_inv [OF assms(1), of "p\<lparr>lp_last_seen_at := now\<rparr>"] mem by simp
  qed
next
  case (quiz_step now user slug answers r)
  then have "submit_quiz now (u_id user) slug answers db = Some (r, db')"
    by (auto simp: submit_quiz_ep_def split: if_splits option.splits)
  then obtain lesson p where "find_lesson db slug = Some lesson" "db' = save_progress p db" "lp_lesson_id p = le_id lesson"
    "lessons_inv db \<Longrightarrow> progress_ok p" by (rule submit_quiz_Some) blast
  then show ?thesis using save_progress_inv [OF assms(1), of p] find_lesson_Some assms(1) by simp
qed

definition lessons_init :: "lesson_db \<Rightarrow> bool" where
  "lessons_init db \<longleftrightarrow> db = \<lparr>lesson_rows = [], progress_rows = []\<rparr>"

interpretation lesson_sys: invariant_system lessons_init lesson_step lessons_inv
proof
  show "lessons_inv db" if "lessons_init db" for db using that by (simp add: lessons_init_def lessons_inv_def)
qed (rule lesson_step_inv)

section \<open>The answers that are shown\<close>

lemma first_correct_right:
  assumes "list_ex snd (qq_options q)"
  shows "\<exists>i. first_correct q = [i] \<and> right_answer q i"
proof -
  let ?xs = "filter (\<lambda>(i, opt). snd opt) (enumerate 0 (qq_options q))"
  obtain k where "k < length (qq_options q)" "snd (qq_options q ! k)" using assms by (auto simp: list_ex_iff in_set_conv_nth)
  then have "(k, qq_options q ! k) \<in> set ?xs" by (auto simp: in_set_enumerate_eq)
  then obtain x xs where xs: "?xs = x # xs" by (cases ?xs) auto
  then have "x \<in> set ?xs" by simp
  then have "fst x < length (qq_options q)" "snd (qq_options q ! fst x)" by (auto simp: in_set_enumerate_eq)
  then show ?thesis using xs by (auto simp: first_correct_def right_answer_def case_prod_beta)
qed

lemma answers_shown_are_right:
  "list_all (\<lambda>q. list_ex snd (qq_options q)) quiz \<Longrightarrow> list_all2 right_answer quiz (concat (map first_correct quiz))"
proof (induction quiz)
  case (Cons q quiz)
  obtain i where "first_correct q = [i]" "right_answer q i" using first_correct_right [of q] Cons.prems by auto
  then show ?case using Cons by simp
qed simp

section \<open>Properties\<close>

text \<open>
  Progress is consistent. In every state the endpoints can reach there is one row per user and
  lesson, scores are between 0 and 100, and a lesson counts as completed exactly when the best
  score of the user is at least 70.
\<close>

lemma progress_consistent:
  assumes "reach lessons_init lesson_step db"
  shows "distinct (map (\<lambda>p. (lp_user_id p, lp_lesson_id p)) (progress_rows db))
    \<and> list_all (\<lambda>p. case lp_quiz_score p of None \<Rightarrow> lp_completed_at p = None
         | Some s \<Rightarrow> 0 \<le> s \<and> s \<le> 100 \<and> (lp_completed_at p \<noteq> None \<longleftrightarrow> 70 \<le> s)) (progress_rows db)"
  using lesson_sys.reach_inv [OF assms] by (auto simp: lessons_inv_def progress_ok_def list_all_iff)

text \<open>Lessons that are there stay, with their quiz.\<close>

lemma lesson_step_rows:
  assumes "lesson_step db db'" "find_lesson db slug = Some l"
  shows "find_lesson db' slug = Some l"
  using assms(1)
proof cases
  case (seed_step ids n)
  then have "db' = db\<lparr>lesson_rows := lesson_rows db @ new_lessons ids db\<rparr>" unfolding seed_lessons_def by (rule seed_curriculum_Inr)
  moreover have "List.find P (xs @ ys) = Some l" if "List.find P xs = Some l" for P xs ys using that by (induction xs) (auto split: if_splits)
  ultimately show ?thesis using assms(2) by (simp add: find_lesson_def)
next
  case (read_step now user slug d)
  then obtain p where "db' = save_progress p db" by (auto simp: get_lesson_def get_with_progress_def Let_def split: option.splits)
  then show ?thesis using assms(2) by simp
next
  case (quiz_step now user slug answers r)
  then have "submit_quiz now (u_id user) slug answers db = Some (r, db')"
    by (auto simp: submit_quiz_ep_def split: if_splits option.splits)
  then obtain p where "db' = save_progress p db" by (rule submit_quiz_Some) blast
  then show ?thesis using assms(2) by simp
qed

lemma seeded_lesson:
  assumes "seed_lessons ids \<lparr>lesson_rows = [], progress_rows = []\<rparr> = Inr (n, db)" and "lc \<in> set CURRICULUM"
  shows "\<exists>l. find_lesson db (lc_slug lc) = Some l \<and> le_quiz l = lc_quiz lc"
proof -
  have "db = \<lparr>lesson_rows = [], progress_rows = []\<rparr>\<lparr>lesson_rows := [] @ new_lessons ids \<lparr>lesson_rows = [], progress_rows = []\<rparr>\<rparr>"
    using assms(1) unfolding seed_lessons_def by (rule seed_curriculum_Inr) simp
  then have new: "lesson_rows db = map (\<lambda>(i, lc). lesson_of (ids i) i lc) (enumerate 0 CURRICULUM)" by (simp add: new_lessons_empty)
  have "\<exists>l. List.find (\<lambda>l. le_slug l = lc_slug lc) (map (\<lambda>(i, lc). lesson_of (ids i) i lc) (enumerate k cs)) = Some l \<and> le_quiz l = lc_quiz lc"
    if "lc \<in> set cs" "distinct (map lc_slug cs)" for k cs
    using that
  proof (induction cs arbitrary: k)
    case (Cons c cs)
    then show ?case by (cases "c = lc") (auto simp: lesson_of_def image_iff)
  qed simp
  from this [OF assms(2) curriculum_slugs(1), of 0] show ?thesis by (simp add: find_lesson_def new)
qed

text \<open>Sending the answers that were shown completes a lesson whose questions all have one.\<close>

lemma perfect_attempt:
  assumes inv: "lessons_inv db" and l: "find_lesson db slug = Some l" and quiz: "answerable (le_quiz l)"
  shows "\<exists>r db'. submit_quiz_ep now user slug (concat (map first_correct (le_quiz l))) db = Inr (r, db')
    \<and> qr_score r = 100 \<and> qr_completed r
    \<and> (\<exists>s \<in> set (list_lessons user db'). le_slug (ls_lesson s) = slug \<and> ls_completed s \<and> ls_quiz_score s = Some 100)"
proof -
  define ans where "ans = concat (map first_correct (le_quiz l))"
  have right: "list_all2 right_answer (le_quiz l) ans"
    unfolding ans_def using quiz by (intro answers_shown_are_right) (simp add: answerable_def)
  obtain r db' where s: "submit_quiz now (u_id user) slug ans db = Some (r, db')" by (simp add: submit_quiz_def l Let_def)
  then obtain p where p: "qr_score r = grade_attempt (le_quiz l) ans" "qr_completed r \<longleftrightarrow> 70 \<le> qr_score r"
    "db' = save_progress p db" "lp_user_id p = u_id user" "lp_lesson_id p = le_id l"
    "lp_quiz_score p = Some (case Option.bind (find_progress db (u_id user) (le_id l)) lp_quiz_score of None \<Rightarrow> qr_score r | Some s \<Rightarrow> max s (qr_score r))"
    "progress_ok p"
    by (rule submit_quiz_Some) (use l inv in auto)
  have full: "qr_score r = 100" using grade_attempt_perfect [OF _ right] quiz by (simp add: p(1) answerable_def)
  have "lp_quiz_score p = Some 100" using p(6,7) by (auto simp: full progress_ok_def split: option.splits)
  moreover from this have "lp_completed_at p \<noteq> None" using p(7) by (simp add: progress_ok_def)
  ultimately have "\<exists>s \<in> set (list_lessons user db'). le_slug (ls_lesson s) = slug \<and> ls_completed s \<and> ls_quiz_score s = Some 100"
    using find_lesson_Some [OF l] find_progress_save [of p db "u_id user" "le_id l"]
    by (intro bexI [of _ "\<lparr>ls_lesson = l, ls_started = (lp_started_at p \<noteq> None), ls_completed = True, ls_quiz_score = Some 100\<rparr>"])
      (auto simp: list_lessons_def list_with_progress_def p Let_def image_iff intro!: bexI [of _ l])
  moreover have "submit_quiz_ep now user slug ans db = Inr (r, db')"
    using s quiz list_all2_lengthD [OF right] by (cases "le_quiz l") (auto simp: submit_quiz_ep_def answerable_def)
  ultimately show ?thesis using full p(2) by (auto simp: ans_def)
qed

text \<open>
  C29: every lesson can be completed. Once the curriculum is in the table, and whatever requests follow,
  a user who sends any answers to a lesson's quiz is shown its correct answers; sending those scores
  100, and the lesson is listed as completed. Seeding again adds nothing.
\<close>

theorem curriculum_completable:
  assumes seed: "seed_lessons ids \<lparr>lesson_rows = [], progress_rows = []\<rparr> = Inr (n, db)"
    and later: "reach (\<lambda>d. d = db) lesson_step db1" and lc: "lc \<in> set CURRICULUM" and len: "answers \<noteq> []" "length answers \<le> 20"
  shows "n = 10 \<and> seed_lessons ids' db1 = Inr (0, db1) \<and>
    (\<exists>r1 db2 r2 db3. submit_quiz_ep now user (lc_slug lc) answers db1 = Inr (r1, db2)
      \<and> submit_quiz_ep now' user (lc_slug lc) (qr_correct_indices r1) db2 = Inr (r2, db3)
      \<and> qr_score r2 = 100 \<and> qr_completed r2
      \<and> (\<exists>s \<in> set (list_lessons user db3). le_slug (ls_lesson s) = lc_slug lc \<and> ls_completed s \<and> ls_quiz_score s = Some 100))"
proof -
  have init: "reach lessons_init lesson_step db"
  proof -
    have "lessons_init \<lparr>lesson_rows = [], progress_rows = []\<rparr>" by (simp add: lessons_init_def)
    moreover have "lesson_step \<lparr>lesson_rows = [], progress_rows = []\<rparr> db" using seed by (rule seed_step)
    ultimately show ?thesis by (blast intro: reach.intros)
  qed
  have "reach lessons_init lesson_step db1" using later init by (induction rule: reach.induct) (auto intro: reach.intros)
  then have inv: "lessons_inv db1" by (rule lesson_sys.reach_inv)
  have stays: "\<exists>l. find_lesson db1 (lc_slug c) = Some l \<and> le_quiz l = lc_quiz c" if "c \<in> set CURRICULUM" for c
    using later seeded_lesson [OF seed that]
  proof (induction rule: reach.induct)
    case (reach_step s t)
    then show ?case using lesson_step_rows by blast
  qed simp
  obtain l where l: "find_lesson db1 (lc_slug lc) = Some l" "le_quiz l = lc_quiz lc" using stays [OF lc] by blast
  have quiz: "answerable (le_quiz l)" using curriculum_answerable lc by (auto simp: list_all_iff l(2))
  obtain r1 db2 where s1: "submit_quiz now (u_id user) (lc_slug lc) answers db1 = Some (r1, db2)" by (simp add: submit_quiz_def l Let_def)
  then obtain p1 where p1: "db2 = save_progress p1 db1" "qr_correct_indices r1 = concat (map first_correct (le_quiz l))"
    by (rule submit_quiz_Some) (use l in auto)
  have sub1: "submit_quiz_ep now user (lc_slug lc) answers db1 = Inr (r1, db2)" using s1 len by (cases answers) (simp_all add: submit_quiz_ep_def)
  then have inv2: "lessons_inv db2" by (rule lesson_step_inv [OF inv quiz_step])
  note sub2 = perfect_attempt [OF inv2 _ quiz, of "lc_slug lc" now' user, folded p1(2)]
  have "n = 10" using seed unfolding seed_lessons_def by (rule seed_curriculum_Inr) (simp add: curriculum_slugs new_lessons_empty)
  moreover have "seed_lessons ids' db1 = Inr (0, db1)"
  proof -
    have "lc_slug c \<in> le_slug ` set (lesson_rows db1)" if "c \<in> set CURRICULUM" for c
      using stays [OF that] find_lesson_Some by (metis image_eqI)
    then have "new_lessons ids' db1 = []"
      by (auto simp: new_lessons_def filter_empty_conv in_set_enumerate_eq)
    then show ?thesis using inv by (simp add: seed_lessons_def seed_curriculum_def lessons_inv_def Let_def)
  qed
  ultimately show ?thesis using sub1 sub2 l(1) p1(1) by fastforce
qed

definition ex_student :: User where "ex_student = new_user ''u1'' ''a'' [] None 0"

lemma ex_seed: "\<exists>db. seed_lessons int \<lparr>lesson_rows = [], progress_rows = []\<rparr> = Inr (10, db)"
proof -
  define new where "new = map (\<lambda>(i, lc). lesson_of (int i) i lc) (enumerate 0 CURRICULUM)"
  have "map le_slug new = map lc_slug (map snd (enumerate 0 CURRICULUM))"
    unfolding new_def map_map by (rule map_cong [OF refl]) (simp add: lesson_of_def case_prod_beta)
  then have "distinct (map le_slug new)" using curriculum_slugs(1) by (simp only: map_snd_enumerate)
  moreover have "map le_id new = map int (map fst (enumerate 0 CURRICULUM))"
    unfolding new_def map_map by (rule map_cong [OF refl]) (simp add: lesson_of_def case_prod_beta)
  then have "distinct (map le_id new)" by (simp only: map_fst_enumerate) (simp add: distinct_map)
  moreover have "length new = 10" by (simp add: new_def curriculum_slugs(2))
  ultimately show ?thesis by (simp add: seed_lessons_def seed_curriculum_def Let_def new_lessons_empty flip: new_def)
qed

theorem curriculum_completable_witness:
  "\<exists>db r1 db2 r2 db3. seed_lessons int \<lparr>lesson_rows = [], progress_rows = []\<rparr> = Inr (10, db)
     \<and> submit_quiz_ep 5 ex_student (lc_slug (hd CURRICULUM)) [0] db = Inr (r1, db2)
     \<and> submit_quiz_ep 6 ex_student (lc_slug (hd CURRICULUM)) (qr_correct_indices r1) db2 = Inr (r2, db3) \<and> qr_score r2 = 100"
proof -
  obtain db where db: "seed_lessons int \<lparr>lesson_rows = [], progress_rows = []\<rparr> = Inr (10, db)" using ex_seed by blast
  have "hd CURRICULUM \<in> set CURRICULUM" by (simp add: CURRICULUM_def)
  from curriculum_completable [where answers = "[0]" and ids' = int and now = 5 and user = ex_student and now' = 6,
      OF db reach_init [of "\<lambda>d. d = db"] this] db show ?thesis by auto
qed

end
