(* ===== verification/Notifications.thy ===== *)
theory Notifications
  imports Auth
begin

text \<open>
  The inbox of a user: \<^verbatim>\<open>services/notification_service.py\<close>, its endpoints in \<^verbatim>\<open>routers/community.py\<close> and the
  table of \<^verbatim>\<open>models/community.py\<close>. The preferences of the account decide which kinds are delivered.
\<close>

record Notification =
  n_id :: string
  n_user_id :: string
  n_kind :: string
  n_title :: string
  n_body :: string
  n_link_path :: "string option"
  n_read_at :: "int option"
  n_created_at :: int

definition VALID_KINDS :: "string list" where
  "VALID_KINDS = [''kmi_delisting'', ''pump_dump'', ''goal_milestone'', ''system'']"

datatype send_error = UnknownKind string | SendRaised

section \<open>Service\<close>

definition prefs_of :: "auth_db \<Rightarrow> string \<Rightarrow> (string \<times> bool) list" where
  "prefs_of accounts uid = (case List.find (\<lambda>u. u_id u = uid) (users accounts) of Some u \<Rightarrow> u_notification_prefs u | None \<Rightarrow> [])"

text \<open>The columns, the reference to the user and the id are checked at the flush.\<close>

definition notification_fits :: "auth_db \<Rightarrow> Notification list \<Rightarrow> Notification \<Rightarrow> bool" where
  "notification_fits accounts rows n \<longleftrightarrow> n_user_id n \<in> u_id ` set (users accounts) \<and> n_id n \<notin> n_id ` set rows
     \<and> char_len (n_title n) \<le> 200 \<and> (case n_link_path n of Some p \<Rightarrow> char_len p \<le> 500 | None \<Rightarrow> True)"

definition send_notification ::
  "auth_db \<Rightarrow> string \<Rightarrow> int \<Rightarrow> string \<Rightarrow> string \<Rightarrow> string \<Rightarrow> string \<Rightarrow> string option \<Rightarrow> Notification list
     \<Rightarrow> send_error + Notification option \<times> Notification list" where
  "send_notification accounts new_id now uid kind title body link_path rows =
     (if kind \<notin> set VALID_KINDS then Inl (UnknownKind kind)
      else if map_of (prefs_of accounts uid) kind = Some False then Inr (None, rows)
      else let n = \<lparr>n_id = new_id, n_user_id = uid, n_kind = kind, n_title = title, n_body = body, n_link_path = link_path,
                    n_read_at = None, n_created_at = now\<rparr>
           in if notification_fits accounts rows n then Inr (Some n, rows @ [n]) else Inl SendRaised)"

text \<open>The limit goes to the database as it is: a negative one, or one beyond 64 bits, is refused there.\<close>

definition inbox :: "string \<Rightarrow> int \<Rightarrow> Notification list \<Rightarrow> http_error + Notification list" where
  "inbox uid limit rows =
     (if limit < 0 \<or> 2 ^ 63 \<le> limit then Inl ServerError
      else Inr (take (nat limit) (sort_key_desc n_created_at (filter (\<lambda>n. n_user_id n = uid) rows))))"

definition is_unread :: "string \<Rightarrow> Notification \<Rightarrow> bool" where
  "is_unread uid n \<longleftrightarrow> n_user_id n = uid \<and> n_read_at n = None"

definition count_unread :: "string \<Rightarrow> Notification list \<Rightarrow> nat" where
  "count_unread uid rows = length (filter (is_unread uid) rows)"

definition mark_one :: "int \<Rightarrow> string \<Rightarrow> string \<Rightarrow> Notification list \<Rightarrow> Notification list" where
  "mark_one now uid nid rows = map (\<lambda>n. if n_id n = nid \<and> is_unread uid n then n\<lparr>n_read_at := Some now\<rparr> else n) rows"

definition mark_every :: "int \<Rightarrow> string \<Rightarrow> Notification list \<Rightarrow> nat \<times> Notification list" where
  "mark_every now uid rows =
     (count_unread uid rows, map (\<lambda>n. if is_unread uid n then n\<lparr>n_read_at := Some now\<rparr> else n) rows)"

section \<open>Endpoints\<close>

definition list_notifications :: "User \<Rightarrow> int \<Rightarrow> Notification list \<Rightarrow> http_error + Notification list" where
  "list_notifications user limit rows = inbox (u_id user) limit rows"

definition unread_count :: "User \<Rightarrow> Notification list \<Rightarrow> nat" where
  "unread_count user rows = count_unread (u_id user) rows"

definition mark_read :: "int \<Rightarrow> User \<Rightarrow> string \<Rightarrow> Notification list \<Rightarrow> Notification list" where
  "mark_read now user nid rows = mark_one now (u_id user) nid rows"

definition mark_all_read :: "int \<Rightarrow> User \<Rightarrow> Notification list \<Rightarrow> nat \<times> Notification list" where
  "mark_all_read now user rows = mark_every now (u_id user) rows"

section \<open>Properties\<close>

definition inbox_ok :: "Notification list \<Rightarrow> bool" where
  "inbox_ok rows \<longleftrightarrow> distinct (map n_id rows) \<and> list_all (\<lambda>n. n_kind n \<in> set VALID_KINDS) rows"

inductive notification_step :: "Notification list \<Rightarrow> Notification list \<Rightarrow> bool" where
  send_step: "send_notification accounts new_id now uid kind title body link_path rows = Inr (r, rows') \<Longrightarrow> notification_step rows rows'"
| read_step: "notification_step rows (mark_read now user nid rows)"
| read_all_step: "mark_all_read now user rows = (k, rows') \<Longrightarrow> notification_step rows rows'"

lemma mark_one_frame: "map n_id (mark_one now uid nid rows) = map n_id rows" "map n_kind (mark_one now uid nid rows) = map n_kind rows"
  by (simp_all add: mark_one_def)

lemma mark_every_frame: "map n_id (snd (mark_every now uid rows)) = map n_id rows" "map n_kind (snd (mark_every now uid rows)) = map n_kind rows"
  by (simp_all add: mark_every_def)

lemma inbox_ok_cong: "map n_id rows = map n_id rows' \<Longrightarrow> map n_kind rows = map n_kind rows' \<Longrightarrow> inbox_ok rows = inbox_ok rows'"
proof -
  assume eq: "map n_id rows = map n_id rows'" "map n_kind rows = map n_kind rows'"
  have "list_all (\<lambda>n. n_kind n \<in> A) xs \<longleftrightarrow> list_all (\<lambda>k. k \<in> A) (map n_kind xs)" for A and xs :: "Notification list"
    by (simp add: list_all_iff)
  then show ?thesis unfolding inbox_ok_def using eq by metis
qed

lemma notification_step_ok:
  assumes "inbox_ok rows" "notification_step rows rows'"
  shows "inbox_ok rows'"
  using assms(2)
proof cases
  case (send_step accounts new_id now uid kind title body link_path r)
  then show ?thesis using assms(1) by (auto simp: send_notification_def Let_def inbox_ok_def notification_fits_def split: if_splits)
next
  case (read_step now user nid)
  then show ?thesis using assms(1) inbox_ok_cong [OF mark_one_frame] by (simp add: mark_read_def)
next
  case (read_all_step now user k)
  then have "rows' = snd (mark_every now (u_id user) rows)" by (simp add: mark_all_read_def)
  then show ?thesis using assms(1) inbox_ok_cong [OF mark_every_frame] by simp
qed

interpretation notifications: invariant_system "\<lambda>rows. rows = []" notification_step inbox_ok
proof
  show "inbox_ok rows" if "rows = []" for rows using that by (simp add: inbox_ok_def)
qed (rule notification_step_ok)

lemma mark_one_absent: "nid \<notin> n_id ` set rows \<Longrightarrow> mark_one now uid nid rows = rows"
  by (auto simp: mark_one_def intro!: map_idI)

lemma mark_one_split:
  "mark_one now uid nid (as @ n # bs) = mark_one now uid nid as @ (if n_id n = nid \<and> is_unread uid n then n\<lparr>n_read_at := Some now\<rparr> else n) # mark_one now uid nid bs"
  by (simp add: mark_one_def)

text \<open>
  A notification is delivered exactly when its kind is known and not muted. In every state the
  service can reach, a delivered one is unread, raises the count of its user by one, and opening it
  lowers the count again, once; a muted one changes nothing, an unknown kind raises.
\<close>

lemma notification_delivery:
  assumes "reach (\<lambda>rows. rows = []) notification_step rows" and "uid \<in> u_id ` set (users accounts)" "new_id \<notin> n_id ` set rows"
    and "char_len title \<le> 200" "u_id user = uid"
  shows "case send_notification accounts new_id now uid kind title body None rows of
      Inl e \<Rightarrow> e = UnknownKind kind \<and> kind \<notin> set VALID_KINDS
    | Inr (None, rows') \<Rightarrow> rows' = rows \<and> map_of (prefs_of accounts uid) kind = Some False
    | Inr (Some n, rows') \<Rightarrow> map_of (prefs_of accounts uid) kind \<noteq> Some False \<and> kind \<in> set VALID_KINDS
        \<and> unread_count user rows' = unread_count user rows + 1
        \<and> unread_count user (mark_read later user new_id rows') = unread_count user rows
        \<and> mark_read later' user new_id (mark_read later user new_id rows') = mark_read later user new_id rows'"
proof -
  define n where "n = \<lparr>n_id = new_id, n_user_id = uid, n_kind = kind, n_title = title, n_body = body, n_link_path = None,
      n_read_at = None, n_created_at = now\<rparr>"
  have fits: "notification_fits accounts rows n" using assms(2-4) by (simp add: notification_fits_def n_def)
  have n: "n_id n = new_id" "is_unread uid n" by (simp_all add: n_def is_unread_def)
  let ?m = "n\<lparr>n_read_at := Some later\<rparr>"
  have m: "mark_one t uid new_id (rows @ [x]) = rows @ [if n_id x = new_id \<and> is_unread uid x then x\<lparr>n_read_at := Some t\<rparr> else x]" for t x
    using mark_one_split [of t uid new_id rows x "[]"] mark_one_absent [OF assms(3)] by (simp add: mark_one_def)
  have "unread_count user (rows @ [n]) = unread_count user rows + 1"
    "unread_count user (mark_read later user new_id (rows @ [n])) = unread_count user rows"
    "mark_read later' user new_id (mark_read later user new_id (rows @ [n])) = mark_read later user new_id (rows @ [n])"
    using n by (simp_all add: unread_count_def count_unread_def mark_read_def assms(5) m) (simp_all add: is_unread_def)
  then show ?thesis using fits by (simp add: send_notification_def Let_def flip: n_def)
qed

text \<open>
  Marking everything read reports how many were unread, leaves none unread and touches no other
  inbox; listing with a limit shows the newest first, and a negative limit answers 500.
\<close>

lemma inbox_of_user:
  "(case mark_all_read now user rows of (k, rows') \<Rightarrow>
      k = unread_count user rows \<and> unread_count user rows' = 0
      \<and> filter (\<lambda>n. n_user_id n \<noteq> u_id user) rows' = filter (\<lambda>n. n_user_id n \<noteq> u_id user) rows)
   \<and> (case list_notifications user limit rows of
        Inl e \<Rightarrow> limit < 0 \<or> 2 ^ 63 \<le> limit
      | Inr shown \<Rightarrow> length shown = min (nat limit) (length (filter (\<lambda>n. n_user_id n = u_id user) rows))
          \<and> set shown \<subseteq> {n \<in> set rows. n_user_id n = u_id user} \<and> sorted_wrt (\<lambda>x y. n_created_at y \<le> n_created_at x) shown)"
proof -
  have "filter (is_unread uid) (map (\<lambda>n. if is_unread uid n then n\<lparr>n_read_at := Some now\<rparr> else n) rows) = []" for uid
    by (induction rows) (auto simp: is_unread_def)
  moreover have "filter (\<lambda>n. n_user_id n \<noteq> uid) (map (\<lambda>n. if is_unread uid n then n\<lparr>n_read_at := Some now\<rparr> else n) rows)
      = filter (\<lambda>n. n_user_id n \<noteq> uid) rows" for uid
    by (induction rows) (auto simp: is_unread_def)
  moreover have "sorted_wrt R (take k xs)" if "sorted_wrt R xs" for R k and xs :: "Notification list"
    using that by (metis append_take_drop_id sorted_wrt_append)
  moreover have "set (take k (sort_key_desc n_created_at xs)) \<subseteq> set xs" for k xs
    using set_take_subset [of k "sort_key_desc n_created_at xs"] by simp
  ultimately show ?thesis
    by (auto simp: mark_all_read_def mark_every_def unread_count_def count_unread_def list_notifications_def inbox_def
        sort_key_desc_sorted dest: in_set_takeD)
qed

end
