(* ===== verification/Watchlist.thy ===== *)
theory Watchlist
  imports Market Auth Json
begin

text \<open>
  The watchlist: its table \<^verbatim>\<open>models/watchlist.py\<close>, the service \<^verbatim>\<open>services/watchlist_service.py\<close> and
  the endpoints \<^verbatim>\<open>routers/watchlist.py\<close>. The state is the table; the new row's id and time are
  arguments. Rows that a query does not order keep the order of the table.
\<close>

section \<open>Table\<close>

record WatchlistItem =
  w_id :: int
  w_user_id :: string
  w_symbol :: string
  w_note :: "string option"
  w_sort_order :: int
  w_added_at :: int

definition uq_watchlist_user_symbol :: "WatchlistItem list \<Rightarrow> bool" where
  "uq_watchlist_user_symbol rows \<longleftrightarrow> distinct (map (\<lambda>i. (w_user_id i, w_symbol i)) rows)"

text \<open>The column of the note holds 500 characters.\<close>

definition note_fits :: "string option \<Rightarrow> bool" where
  "note_fits note = (case note of None \<Rightarrow> True | Some s \<Rightarrow> char_len s \<le> 500)"

record WatchlistItemResponse =
  wr_symbol :: string
  wr_company_name :: string
  wr_sector :: string
  wr_is_kmi_compliant :: bool
  wr_note :: "string option"
  wr_sort_order :: int
  wr_added_at :: int

datatype watchlist_error = WatchlistError string int | UncaughtDataError

definition quoted :: "string \<Rightarrow> string" where "quoted s = apostrophe @ s @ apostrophe"

section \<open>Service\<close>

definition item_response :: "WatchlistItem \<times> Security \<Rightarrow> WatchlistItemResponse" where
  "item_response e = (case e of (item, sec) \<Rightarrow>
     \<lparr>wr_symbol = w_symbol item, wr_company_name = company_name sec, wr_sector = sector sec,
      wr_is_kmi_compliant = is_kmi_compliant sec, wr_note = w_note item,
      wr_sort_order = w_sort_order item, wr_added_at = w_added_at item\<rparr>)"

definition items_of :: "string \<Rightarrow> WatchlistItem list \<Rightarrow> WatchlistItem list" where
  "items_of uid rows = filter (\<lambda>i. w_user_id i = uid) rows"

definition get_watchlist :: "market_db \<Rightarrow> WatchlistItem list \<Rightarrow> string \<Rightarrow> WatchlistItemResponse list" where
  "get_watchlist mk rows uid =
     map item_response (sort_key (\<lambda>(item, sec). (w_sort_order item, w_added_at item))
       (List.map_filter (\<lambda>i. map_option (Pair i) (find_security mk (w_symbol i))) (items_of uid rows)))"

definition max_order :: "string \<Rightarrow> WatchlistItem list \<Rightarrow> int" where
  "max_order uid rows =
     (let orders = map w_sort_order (items_of uid rows) in if orders = [] then 0 else Max (set orders))"

definition watchlist_add ::
  "market_db \<Rightarrow> string \<Rightarrow> string \<Rightarrow> string option \<Rightarrow> int \<Rightarrow> int \<Rightarrow> WatchlistItem list
    \<Rightarrow> watchlist_error + WatchlistItemResponse \<times> WatchlistItem list" where
  "watchlist_add mk uid symbol note wid now rows =
     (let symb = py_upper symbol
      in case find_security mk symb of
           None \<Rightarrow> Inl (WatchlistError (''Security '' @ quoted symb @ '' not found.'') 404)
         | Some security \<Rightarrow>
             let item = \<lparr>w_id = wid, w_user_id = uid, w_symbol = symb, w_note = note,
                         w_sort_order = max_order uid rows + 1, w_added_at = now\<rparr>
             in if \<not> note_fits note then Inl UncaughtDataError
                else if \<not> uq_watchlist_user_symbol (rows @ [item])
                then Inl (WatchlistError (quoted symb @ '' is already in your watchlist.'') 409)
                else Inr (item_response (item, security), rows @ [item]))"

definition watchlist_remove ::
  "string \<Rightarrow> string \<Rightarrow> WatchlistItem list \<Rightarrow> watchlist_error + WatchlistItem list" where
  "watchlist_remove uid symbol rows =
     (let symb = py_upper symbol; hit = (\<lambda>i. w_user_id i = uid \<and> w_symbol i = symb)
      in if \<not> list_ex hit rows
         then Inl (WatchlistError (quoted symb @ '' is not in your watchlist.'') 404)
         else Inr (filter (\<lambda>i. \<not> hit i) rows))"

text \<open>\<^verbatim>\<open>by_symbol[sym].sort_order = n\<close>\<close>

definition set_order :: "string \<Rightarrow> string \<Rightarrow> int \<Rightarrow> WatchlistItem list \<Rightarrow> WatchlistItem list" where
  "set_order uid symb n rows =
     map (\<lambda>i. if w_user_id i = uid \<and> w_symbol i = symb then i\<lparr>w_sort_order := n\<rparr> else i) rows"

definition number_from :: "string \<Rightarrow> nat \<Rightarrow> string list \<Rightarrow> WatchlistItem list \<Rightarrow> WatchlistItem list" where
  "number_from uid k syms rows = foldl (\<lambda>rs (n, s). set_order uid s (int n) rs) rows (enumerate k syms)"

definition normalise :: "string list \<Rightarrow> string list" where
  "normalise symbols = map (\<lambda>s. py_strip (py_upper s)) (filter (\<lambda>s. py_strip s \<noteq> []) symbols)"

fun comma_joined :: "string list \<Rightarrow> string" where
  "comma_joined [] = []"
| "comma_joined [s] = s"
| "comma_joined (s # t # ss) = s @ '', '' @ comma_joined (t # ss)"

definition watchlist_reorder ::
  "market_db \<Rightarrow> string \<Rightarrow> string list \<Rightarrow> WatchlistItem list
    \<Rightarrow> watchlist_error + WatchlistItemResponse list \<times> WatchlistItem list" where
  "watchlist_reorder mk uid symbols rows =
     (let normalised = normalise symbols;
          unknown = filter (\<lambda>s. s \<notin> set (map w_symbol (items_of uid rows))) normalised
      in if unknown \<noteq> []
         then Inl (WatchlistError (''Symbols not in watchlist: '' @ comma_joined unknown) 400)
         else let rows1 = number_from uid 1 normalised rows;
                  rest = filter (\<lambda>i. w_symbol i \<notin> set normalised) (sort_key w_sort_order (items_of uid rows1));
                  rows2 = number_from uid (length normalised + 1) (map w_symbol rest) rows1
              in Inr (get_watchlist mk rows2 uid, rows2))"

definition is_watching :: "string \<Rightarrow> string \<Rightarrow> WatchlistItem list \<Rightarrow> bool" where
  "is_watching uid symbol rows = list_ex (\<lambda>i. w_user_id i = uid \<and> w_symbol i = py_upper symbol) rows"

section \<open>Endpoints\<close>

definition http_of_watchlist :: "watchlist_error \<Rightarrow> http_error" where
  "http_of_watchlist e = (case e of WatchlistError m n \<Rightarrow> HTTPException n m | UncaughtDataError \<Rightarrow> ServerError)"

definition raise_watchlist :: "watchlist_error + 'a \<Rightarrow> http_error + 'a" where
  "raise_watchlist r = (case r of Inl e \<Rightarrow> Inl (http_of_watchlist e) | Inr x \<Rightarrow> Inr x)"

definition get_watchlist_ep :: "market_db \<Rightarrow> User \<Rightarrow> WatchlistItem list \<Rightarrow> WatchlistItemResponse list" where
  "get_watchlist_ep mk user rows = get_watchlist mk rows (u_id user)"

text \<open>
  The body is validated inside the handler, so a \<^verbatim>\<open>ValidationError\<close> is not a 422: nothing handles it.
\<close>

definition add_body :: "(string \<times> json) list \<Rightarrow> (string \<times> string option) option" where
  "add_body body =
     (case (json_get ''symbol'' body, json_get ''note'' body) of
        (Some (JStr s), None) \<Rightarrow> Some (s, None)
      | (Some (JStr s), Some JNull) \<Rightarrow> Some (s, None)
      | (Some (JStr s), Some (JStr note)) \<Rightarrow> Some (s, Some note)
      | _ \<Rightarrow> None)"

definition add_to_watchlist ::
  "market_db \<Rightarrow> User \<Rightarrow> (string \<times> json) list \<Rightarrow> int \<Rightarrow> int \<Rightarrow> WatchlistItem list
    \<Rightarrow> http_error + WatchlistItemResponse \<times> WatchlistItem list" where
  "add_to_watchlist mk user body wid now rows =
     (case add_body body of
        None \<Rightarrow> Inl ServerError
      | Some (symbol, note) \<Rightarrow> raise_watchlist (watchlist_add mk (u_id user) symbol note wid now rows))"

definition reorder_watchlist ::
  "market_db \<Rightarrow> User \<Rightarrow> string list \<Rightarrow> WatchlistItem list
    \<Rightarrow> http_error + WatchlistItemResponse list \<times> WatchlistItem list" where
  "reorder_watchlist mk user symbols rows =
     (if 500 < length symbols then Inl (HTTPException 422 [])
      else raise_watchlist (watchlist_reorder mk (u_id user) symbols rows))"

definition remove_from_watchlist ::
  "User \<Rightarrow> string \<Rightarrow> WatchlistItem list \<Rightarrow> http_error + WatchlistItem list" where
  "remove_from_watchlist user symbol rows = raise_watchlist (watchlist_remove (u_id user) symbol rows)"

section \<open>Numbering\<close>

lemma set_order_keys [simp]: "map (\<lambda>i. (w_user_id i, w_symbol i)) (set_order u s n rows) = map (\<lambda>i. (w_user_id i, w_symbol i)) rows"
  by (auto simp: set_order_def)

lemma number_from_Nil [simp]: "number_from u k [] rows = rows"
  and number_from_Cons: "number_from u k (s # ss) rows = number_from u (Suc k) ss (set_order u s (int k) rows)"
  and number_from_snoc: "number_from u k (ss @ [s]) rows = set_order u s (int (k + length ss)) (number_from u k ss rows)"
  by (simp_all add: number_from_def enumerate_append_eq)

lemma number_from_append:
  "number_from u k (xs @ ys) rows = number_from u (k + length xs) ys (number_from u k xs rows)"
  by (simp add: number_from_def enumerate_append_eq)

text \<open>A row is renumbered, or as it was.\<close>

lemma number_from_row:
  assumes "j \<in> set (number_from u k ss rows)"
  shows "\<exists>i\<in>set rows. w_user_id j = w_user_id i \<and> w_symbol j = w_symbol i \<and> (w_user_id i = u \<and> w_symbol i \<in> set ss \<or> j = i)"
  using assms
proof (induction ss arbitrary: j rule: rev_induct)
  case (snoc s ss)
  obtain i where i: "i \<in> set (number_from u k ss rows)"
    "j = (if w_user_id i = u \<and> w_symbol i = s then i\<lparr>w_sort_order := int (k + length ss)\<rparr> else i)"
    using snoc.prems by (auto simp: number_from_snoc set_order_def)
  obtain h where "h \<in> set rows" "w_user_id i = w_user_id h" "w_symbol i = w_symbol h"
    "w_user_id h = u \<and> w_symbol h \<in> set ss \<or> i = h"
    using snoc.IH [OF i(1)] by blast
  then show ?case using i(2) by (intro bexI [of _ h]) auto
qed auto

lemma number_from_keys [simp]:
  "map (\<lambda>i. (w_user_id i, w_symbol i)) (number_from u k ss rows) = map (\<lambda>i. (w_user_id i, w_symbol i)) rows"
  by (induction ss rule: rev_induct) (simp_all add: number_from_snoc)

text \<open>Without repetition, the row of the symbol at position \<open>j\<close> gets number \<open>k + j\<close>.\<close>

definition pos_in :: "string list \<Rightarrow> string \<Rightarrow> nat" where
  "pos_in L s = length (takeWhile (\<lambda>t. t \<noteq> s) L)"

lemma number_from_position:
  assumes "distinct ss" "i \<in> set (number_from u k ss rows)" "w_user_id i = u" "w_symbol i \<in> set ss"
  shows "w_sort_order i = int (k + pos_in ss (w_symbol i))"
  using assms
proof (induction ss rule: rev_induct)
  case (snoc s ss)
  obtain j where j: "j \<in> set (number_from u k ss rows)"
    "i = (if w_user_id j = u \<and> w_symbol j = s then j\<lparr>w_sort_order := int (k + length ss)\<rparr> else j)"
    using snoc.prems(2) by (auto simp: number_from_snoc set_order_def)
  show ?case
  proof (cases "w_symbol i = s")
    case True
    then have "takeWhile (\<lambda>t. t \<noteq> w_symbol i) (ss @ [s]) = ss"
      using snoc.prems(1) by (subst takeWhile_append2) auto
    then show ?thesis using True j snoc.prems by (auto simp: pos_in_def split: if_splits)
  next
    case False
    then have "i = j" using j by (auto split: if_splits)
    moreover have "pos_in (ss @ [s]) (w_symbol i) = pos_in ss (w_symbol i)"
      using False snoc.prems(4) by (auto simp: pos_in_def takeWhile_append)
    ultimately show ?thesis using snoc j False by simp
  qed
qed simp

text \<open>In any case the numbers given lie in the range and differ between symbols.\<close>

lemma number_from_range:
  assumes "i \<in> set (number_from u k ss rows)" "w_user_id i = u" "w_symbol i \<in> set ss"
  shows "int k \<le> w_sort_order i \<and> w_sort_order i < int (k + length ss)"
  using assms
proof (induction ss arbitrary: i rule: rev_induct)
  case (snoc s ss)
  obtain j where j: "j \<in> set (number_from u k ss rows)"
    "i = (if w_user_id j = u \<and> w_symbol j = s then j\<lparr>w_sort_order := int (k + length ss)\<rparr> else j)"
    using snoc.prems(1) by (auto simp: number_from_snoc set_order_def)
  then show ?case using snoc.IH [OF j(1)] snoc.prems(2,3) by (auto split: if_splits)
qed simp

lemma number_from_inj:
  assumes "i \<in> set (number_from u k ss rows)" "j \<in> set (number_from u k ss rows)"
    "w_user_id i = u" "w_user_id j = u" "w_symbol i \<in> set ss" "w_symbol j \<in> set ss"
    "w_sort_order i = w_sort_order j"
  shows "w_symbol i = w_symbol j"
  using assms
proof (induction ss arbitrary: i j rule: rev_induct)
  case (snoc s ss)
  let ?f = "\<lambda>j. if w_user_id j = u \<and> w_symbol j = s then j\<lparr>w_sort_order := int (k + length ss)\<rparr> else j"
  obtain i' j' where ij: "i' \<in> set (number_from u k ss rows)" "i = ?f i'"
    "j' \<in> set (number_from u k ss rows)" "j = ?f j'"
    using snoc.prems(1,2) by (auto simp: number_from_snoc set_order_def)
  have users: "w_user_id i' = u" "w_user_id j' = u" using ij(2,4) snoc.prems(3,4) by (auto split: if_splits)
  have syms: "w_symbol i' = w_symbol i" "w_symbol j' = w_symbol j" using ij(2,4) by simp_all
  have orders: "w_sort_order i = (if w_symbol i = s then int (k + length ss) else w_sort_order i')"
    "w_sort_order j = (if w_symbol j = s then int (k + length ss) else w_sort_order j')"
    using ij(2,4) users by simp_all
  have "w_symbol i = s \<longleftrightarrow> w_symbol j = s"
    using number_from_range [OF ij(1) users(1)] number_from_range [OF ij(3) users(2)] snoc.prems(5-) orders syms
    by (auto split: if_splits)
  then show ?case
    using snoc.IH [OF ij(1,3) users] snoc.prems(5-) orders syms by (cases "w_symbol i = s") auto
qed simp

section \<open>Invariant\<close>

text \<open>
  No symbol twice for a user, every symbol a listed security, and the numbers of a user's rows
  positive and pairwise different, so that their order is determined.
\<close>

definition watchlist_inv :: "market_db \<Rightarrow> WatchlistItem list \<Rightarrow> bool" where
  "watchlist_inv mk rows \<longleftrightarrow>
     uq_watchlist_user_symbol rows \<and> distinct (map (\<lambda>i. (w_user_id i, w_sort_order i)) rows)
     \<and> (\<forall>i\<in>set rows. 0 < w_sort_order i \<and> find_security mk (w_symbol i) \<noteq> None)"

inductive watchlist_step :: "market_db \<Rightarrow> WatchlistItem list \<Rightarrow> WatchlistItem list \<Rightarrow> bool" for mk where
  "add_to_watchlist mk user body wid now rows = Inr (resp, rows') \<Longrightarrow> watchlist_step mk rows rows'"
| "remove_from_watchlist user symbol rows = Inr rows' \<Longrightarrow> watchlist_step mk rows rows'"
| "reorder_watchlist mk user symbols rows = Inr (resps, rows') \<Longrightarrow> watchlist_step mk rows rows'"

lemma raise_watchlist_Inr [simp]: "raise_watchlist r = Inr x \<longleftrightarrow> r = Inr x"
  by (cases r) (auto simp: raise_watchlist_def)

lemma distinct_orders_iff:
  assumes "uq_watchlist_user_symbol rows"
  shows "distinct (map (\<lambda>i. (w_user_id i, w_sort_order i)) rows) \<longleftrightarrow>
    (\<forall>i\<in>set rows. \<forall>j\<in>set rows. w_user_id i = w_user_id j \<longrightarrow> w_sort_order i = w_sort_order j \<longrightarrow> w_symbol i = w_symbol j)"
proof -
  have d: "distinct rows" and inj: "inj_on (\<lambda>i. (w_user_id i, w_symbol i)) (set rows)"
    using assms by (simp_all add: uq_watchlist_user_symbol_def distinct_map)
  then have "i = j \<longleftrightarrow> w_symbol i = w_symbol j"
    if "i \<in> set rows" "j \<in> set rows" "w_user_id i = w_user_id j" for i j
    using that by (auto dest: inj_onD)
  then show ?thesis using d unfolding distinct_map inj_on_def by auto
qed

lemma max_order_bound: "i \<in> set (items_of u rows) \<Longrightarrow> w_sort_order i \<le> max_order u rows"
  by (auto simp: max_order_def Let_def)

lemma max_order_nonneg: "watchlist_inv mk rows \<Longrightarrow> 0 \<le> max_order u rows"
proof (cases "items_of u rows")
  case (Cons i js)
  assume inv: "watchlist_inv mk rows"
  have i: "i \<in> set (items_of u rows)" using Cons by simp
  then have "i \<in> set rows" by (simp add: items_of_def)
  with inv have "0 < w_sort_order i" by (simp add: watchlist_inv_def)
  with max_order_bound [OF i] show ?thesis by linarith
qed (simp add: max_order_def)

lemma add_inv:
  assumes inv: "watchlist_inv mk rows" and ok: "watchlist_add mk u symbol note wid now rows = Inr (resp, rows')"
  shows "watchlist_inv mk rows'"
proof -
  let ?item = "\<lparr>w_id = wid, w_user_id = u, w_symbol = py_upper symbol, w_note = note,
                 w_sort_order = max_order u rows + 1, w_added_at = now\<rparr>"
  have r: "rows' = rows @ [?item]" "uq_watchlist_user_symbol (rows @ [?item])" "find_security mk (py_upper symbol) \<noteq> None"
    using ok by (auto simp: watchlist_add_def Let_def split: option.splits if_splits)
  have "w_sort_order i \<noteq> max_order u rows + 1" if "i \<in> set rows" "w_user_id i = u" for i
    using max_order_bound [of i u rows] that by (auto simp: items_of_def)
  then have "(u, max_order u rows + 1) \<notin> (\<lambda>i. (w_user_id i, w_sort_order i)) ` set rows" by fastforce
  then show ?thesis
    using inv r max_order_nonneg [OF inv, of u] by (simp add: watchlist_inv_def)
qed

lemma filter_inv: "watchlist_inv mk rows \<Longrightarrow> watchlist_inv mk (filter P rows)"
  by (auto simp: watchlist_inv_def uq_watchlist_user_symbol_def distinct_map inj_on_subset)

text \<open>Numbering all the symbols of a user keeps the invariant, whatever the repetitions.\<close>

lemma number_all_inv:
  assumes inv: "watchlist_inv mk rows" and all: "w_symbol ` set (items_of u rows) \<subseteq> set ss"
  shows "watchlist_inv mk (number_from u 1 ss rows)"
proof -
  let ?rows = "number_from u 1 ss rows"
  have uq: "uq_watchlist_user_symbol rows" "uq_watchlist_user_symbol ?rows"
    using inv by (simp_all add: watchlist_inv_def uq_watchlist_user_symbol_def)
  have mine: "w_symbol j \<in> set ss" if j: "j \<in> set ?rows" "w_user_id j = u" for j
  proof -
    obtain i where "i \<in> set rows" "w_user_id j = w_user_id i" "w_symbol j = w_symbol i"
      using number_from_row [OF j(1)] by blast
    then have "i \<in> set (items_of u rows)" using j(2) by (simp add: items_of_def)
    with all \<open>w_symbol j = w_symbol i\<close> show ?thesis by auto
  qed
  have other: "j \<in> set rows" if "j \<in> set ?rows" "w_user_id j \<noteq> u" for j
    using number_from_row [OF that(1)] that(2) by metis
  have old: "w_symbol i = w_symbol j"
    if "i \<in> set rows" "j \<in> set rows" "w_user_id i = w_user_id j" "w_sort_order i = w_sort_order j" for i j
  proof -
    have "distinct (map (\<lambda>i. (w_user_id i, w_sort_order i)) rows)" using inv by (simp add: watchlist_inv_def)
    from this [unfolded distinct_orders_iff [OF uq(1)]] that show ?thesis by blast
  qed
  have "w_symbol i = w_symbol j"
    if ij: "i \<in> set ?rows" "j \<in> set ?rows" "w_user_id i = w_user_id j" "w_sort_order i = w_sort_order j" for i j
  proof (cases "w_user_id i = u")
    case True
    then have "w_user_id j = u" using ij(3) by simp
    from number_from_inj [OF ij(1,2) True this mine [OF ij(1) True] mine [OF ij(2) this] ij(4)] show ?thesis .
  next
    case False
    then have "w_user_id j \<noteq> u" using ij(3) by simp
    from old [OF other [OF ij(1) False] other [OF ij(2) this] ij(3,4)] show ?thesis .
  qed
  then have orders: "distinct (map (\<lambda>i. (w_user_id i, w_sort_order i)) ?rows)"
    unfolding distinct_orders_iff [OF uq(2)] by blast
  have "0 < w_sort_order j \<and> find_security mk (w_symbol j) \<noteq> None" if j: "j \<in> set ?rows" for j
  proof -
    obtain i where i: "i \<in> set rows" "w_user_id j = w_user_id i" "w_symbol j = w_symbol i" "w_user_id j = u \<or> j = i"
      using number_from_row [OF j] by metis
    have "0 < w_sort_order j" if "w_user_id j = u"
      using number_from_range [OF \<open>j \<in> set ?rows\<close> that mine] \<open>j \<in> set ?rows\<close> that by simp
    then show ?thesis using i inv by (auto simp: watchlist_inv_def)
  qed
  then show ?thesis using uq(2) orders unfolding watchlist_inv_def by blast
qed

text \<open>
  A reordering numbers one list from 1: the requested symbols, then the user's other symbols in
  their present order.
\<close>

definition new_order :: "string \<Rightarrow> string list \<Rightarrow> WatchlistItem list \<Rightarrow> string list" where
  "new_order u symbols rows = normalise symbols @
     map w_symbol (filter (\<lambda>i. w_symbol i \<notin> set (normalise symbols)) (sort_key w_sort_order (items_of u rows)))"

lemma items_number_from:
  "filter (\<lambda>i. w_symbol i \<notin> set ss) (items_of u (number_from u k ss rows)) = filter (\<lambda>i. w_symbol i \<notin> set ss) (items_of u rows)"
proof (induction ss rule: rev_induct)
  case (snoc s ss)
  let ?f = "\<lambda>i. if w_user_id i = u \<and> w_symbol i = s then i\<lparr>w_sort_order := int (k + length ss)\<rparr> else i"
  have "filter (\<lambda>i. w_symbol i \<notin> set (ss @ [s])) (items_of u (map ?f xs))
      = filter (\<lambda>i. w_symbol i \<noteq> s) (filter (\<lambda>i. w_symbol i \<notin> set ss) (items_of u xs))" for xs
    by (induction xs) (auto simp: items_of_def)
  then show ?case by (simp only: number_from_snoc set_order_def snoc.IH) (auto simp: items_of_def intro!: filter_cong)
qed simp

lemma reorder_numbers:
  assumes "watchlist_reorder mk u symbols rows = Inr (resps, rows')"
  shows "rows' = number_from u 1 (new_order u symbols rows) rows" "resps = get_watchlist mk rows' u"
    "set (normalise symbols) \<subseteq> w_symbol ` set (items_of u rows)"
proof -
  let ?n = "normalise symbols"
  have "filter (\<lambda>i. w_symbol i \<notin> set ?n) (sort_key w_sort_order (items_of u (number_from u 1 ?n rows)))
      = filter (\<lambda>i. w_symbol i \<notin> set ?n) (sort_key w_sort_order (items_of u rows))"
    by (simp add: filter_sort items_number_from)
  then show "rows' = number_from u 1 (new_order u symbols rows) rows" "resps = get_watchlist mk rows' u"
    "set (normalise symbols) \<subseteq> w_symbol ` set (items_of u rows)"
    using assms by (auto simp: watchlist_reorder_def Let_def new_order_def number_from_append filter_empty_conv split: if_splits)
qed

lemma new_order_covers: "w_symbol ` set (items_of u rows) \<subseteq> set (new_order u symbols rows)"
  by (auto simp: new_order_def)

lemma watchlist_step_inv: "watchlist_inv mk rows \<Longrightarrow> watchlist_step mk rows rows' \<Longrightarrow> watchlist_inv mk rows'"
proof (erule watchlist_step.cases)
  fix user body wid now rs resp rs'
  assume "watchlist_inv mk rows" "rows = rs" "rows' = rs'" "add_to_watchlist mk user body wid now rs = Inr (resp, rs')"
  then show ?thesis by (auto simp: add_to_watchlist_def intro: add_inv split: option.splits)
next
  fix user symbol rs rs'
  assume "watchlist_inv mk rows" "rows = rs" "rows' = rs'" "remove_from_watchlist user symbol rs = Inr rs'"
  then show ?thesis by (auto simp: remove_from_watchlist_def watchlist_remove_def Let_def intro: filter_inv split: if_splits)
next
  fix user symbols rs resps rs'
  assume inv: "watchlist_inv mk rows" and rs: "rows = rs" "rows' = rs'"
    and r: "reorder_watchlist mk user symbols rs = Inr (resps, rs')"
  from r have "watchlist_reorder mk (u_id user) symbols rs = Inr (resps, rs')"
    by (simp add: reorder_watchlist_def split: if_splits)
  from number_all_inv [OF inv new_order_covers] reorder_numbers(1) [OF this] rs show ?thesis by simp
qed

interpretation watchlist_sys: invariant_system "\<lambda>rows. rows = []" "watchlist_step mk" "watchlist_inv mk" for mk
proof
  show "watchlist_inv mk rows" if "rows = []" for rows
    using that by (simp add: watchlist_inv_def uq_watchlist_user_symbol_def)
qed (rule watchlist_step_inv)

section \<open>Reading the list\<close>

lemma distinct_items: "distinct (map (\<lambda>i. (w_user_id i, f i)) rows) \<Longrightarrow> distinct (map f (items_of u rows))"
  by (auto simp: items_of_def distinct_map inj_on_def)

lemma inv_items:
  assumes "watchlist_inv mk rows"
  shows "distinct (map w_symbol (items_of u rows))" "distinct (map w_sort_order (items_of u rows))"
  using assms by (simp_all add: watchlist_inv_def uq_watchlist_user_symbol_def distinct_items)

lemma get_watchlist_items:
  assumes inv: "watchlist_inv mk rows"
  shows "get_watchlist mk rows u =
    map (\<lambda>i. item_response (i, the (find_security mk (w_symbol i)))) (sort_key w_sort_order (items_of u rows))"
proof -
  let ?g = "\<lambda>i. (i, the (find_security mk (w_symbol i)))"
  let ?items = "items_of u rows"
  have "\<forall>i\<in>set ?items. find_security mk (w_symbol i) \<noteq> None" using inv by (simp add: watchlist_inv_def items_of_def)
  then have mf: "List.map_filter (\<lambda>i. map_option (Pair i) (find_security mk (w_symbol i))) ?items = map ?g ?items"
    by (induction ?items) (auto simp: List.map_filter_def)
  let ?s = "sort_key (\<lambda>i. (w_sort_order i, w_added_at i)) ?items"
  have d: "distinct (map w_sort_order ?items)" using inv by (rule inv_items)
  have "sorted (map (\<lambda>i. (w_sort_order i, w_added_at i)) ?s)" by simp
  then have "sorted (map w_sort_order ?s)" unfolding sorted_map by (rule sorted_wrt_mono_rel [rotated]) auto
  moreover have "distinct (map w_sort_order ?s)" "distinct (map w_sort_order (sort_key w_sort_order ?items))"
    using d by (simp_all add: distinct_map)
  moreover have "inj_on w_sort_order (set ?s \<union> set (sort_key w_sort_order ?items))" using d by (simp add: distinct_map)
  ultimately have "?s = sort_key w_sort_order ?items" by (intro map_sorted_distinct_set_unique) simp_all
  then show ?thesis by (simp add: get_watchlist_def mf sort_key_map)
qed

lemma get_symbols:
  assumes "watchlist_inv mk rows"
  shows "map wr_symbol (get_watchlist mk rows u) = map w_symbol (sort_key w_sort_order (items_of u rows))"
    "map wr_sort_order (get_watchlist mk rows u) = map w_sort_order (sort_key w_sort_order (items_of u rows))"
  by (simp_all add: get_watchlist_items [OF assms] item_response_def)

lemma sorted_by_position:
  assumes "distinct L" shows "map (pos_in L) L = [0..<length L]"
  using assms
proof (induction L rule: rev_induct)
  case (snoc s L)
  have "pos_in (L @ [s]) t = pos_in L t" if "t \<in> set L" for t using that by (auto simp: pos_in_def takeWhile_append)
  moreover have "takeWhile (\<lambda>t. t \<noteq> s) (L @ [s]) = L" using snoc.prems by (subst takeWhile_append2) auto
  ultimately have "map (pos_in (L @ [s])) (L @ [s]) = map (pos_in L) L @ [length L]" by (simp add: pos_in_def [of "L @ [s]" s])
  then show ?case using snoc by (simp del: map_append map_eq_conv)
qed simp

lemma pos_in_inj: "distinct L \<Longrightarrow> inj_on (pos_in L) (set L)"
  using sorted_by_position [of L] distinct_map [of "pos_in L" L] by simp

text \<open>After numbering a list of all the user's symbols from 1, the watchlist is in the order of that list.\<close>

lemma numbered_symbols:
  assumes inv: "watchlist_inv mk rows" and d: "distinct L" and L: "set L = w_symbol ` set (items_of u rows)"
  shows "map w_symbol (sort_key w_sort_order (items_of u (number_from u 1 L rows))) = L"
    "map w_sort_order (sort_key w_sort_order (items_of u (number_from u 1 L rows))) = map int [1..<length L + 1]"
proof -
  let ?new = "number_from u 1 L rows"
  let ?s = "sort_key w_sort_order (items_of u ?new)"
  have inv': "watchlist_inv mk ?new" using inv L by (intro number_all_inv) simp_all
  have "w_symbol ` set (items_of u rs) = snd ` {k \<in> set (map (\<lambda>i. (w_user_id i, w_symbol i)) rs). fst k = u}" for rs
    by (force simp: items_of_def)
  then have "w_symbol ` set (items_of u ?new) = w_symbol ` set (items_of u rows)" by (simp only: number_from_keys)
  then have syms: "w_symbol ` set ?s = set L" using L by simp
  have ord: "w_sort_order i = int (1 + pos_in L (w_symbol i))" if "i \<in> set ?s" for i
    using that syms by (intro number_from_position [OF d, of i u 1 rows]) (auto simp: items_of_def)
  then have o: "map w_sort_order ?s = map (\<lambda>s. int (1 + pos_in L s)) (map w_symbol ?s)" by simp
  have "sorted (map w_sort_order ?s)" by simp
  then have "sorted (map (pos_in L) (map w_symbol ?s))"
    unfolding o by (simp add: sorted_map)
  moreover have ds: "distinct (map w_symbol ?s)" using inv_items(1) [OF inv', of u] by (simp add: distinct_map)
  then have "distinct (map (pos_in L) (map w_symbol ?s))"
    using pos_in_inj [OF d] syms unfolding distinct_map [of "pos_in L"] by simp
  ultimately show *: "map w_symbol ?s = L"
    using d syms pos_in_inj [OF d] by (intro map_sorted_distinct_set_unique [of "pos_in L"])
      (simp_all add: sorted_by_position)
  have "map (\<lambda>s. int (1 + pos_in L s)) L = map (\<lambda>n. int (1 + n)) (map (pos_in L) L)" by simp
  then show "map w_sort_order ?s = map int [1..<length L + 1]"
    unfolding o * by (simp add: sorted_by_position [OF d] map_Suc_upt [symmetric] del: map_Suc_upt upt_Suc)
qed

section \<open>Properties\<close>

text \<open>
  In every state the endpoints can reach, a user's watchlist shows each symbol the user watches
  exactly once and no other, with the full data of its security, in strictly increasing order.
\<close>

lemma watchlist_complete:
  assumes "reach (\<lambda>rows. rows = []) (watchlist_step mk) rows"
  shows "distinct (map wr_symbol (get_watchlist mk rows uid))
    \<and> set (map wr_symbol (get_watchlist mk rows uid)) = {s. \<exists>i\<in>set rows. w_user_id i = uid \<and> w_symbol i = s}
    \<and> sorted_wrt (<) (map wr_sort_order (get_watchlist mk rows uid))"
proof -
  have inv: "watchlist_inv mk rows" using assms by (rule watchlist_sys.reach_inv)
  have "distinct (map w_symbol (sort_key w_sort_order (items_of uid rows)))"
    "distinct (map w_sort_order (sort_key w_sort_order (items_of uid rows)))"
    using inv_items [OF inv, of uid] by (simp_all add: distinct_map)
  then show ?thesis by (auto simp: get_symbols [OF inv] strict_sorted_iff items_of_def simp del: set_map) auto
qed

definition ex_sec :: "string \<Rightarrow> Security" where
  "ex_sec s = \<lparr>sec_symbol = s, company_name = s, sector = ''Oil'', is_kmi_compliant = True, is_kse100 = True, is_kse30 = True,
     market_cap_pkr = None, shares_outstanding = None, listed_at = None, delisted_at = None, is_active = True\<rparr>"

definition ex_listed :: market_db where
  "ex_listed = \<lparr>security_rows = [ex_sec ''OGDC'', ex_sec ''PPL''], ohlcv_rows = []\<rparr>"

definition ex_watcher :: User where "ex_watcher = new_user ''u1'' ''a@x.pk'' ''h'' None 0"

definition ex_watched :: "WatchlistItem list" where
  "ex_watched = [\<lparr>w_id = 1, w_user_id = ''u1'', w_symbol = ''OGDC'', w_note = None, w_sort_order = 1, w_added_at = 5\<rparr>,
              \<lparr>w_id = 2, w_user_id = ''u1'', w_symbol = ''PPL'', w_note = None, w_sort_order = 2, w_added_at = 6\<rparr>]"

lemma ex_watchlist_reach: "reach (\<lambda>rows. rows = []) (watchlist_step ex_listed) ex_watched"
proof -
  have "add_to_watchlist ex_listed ex_watcher [(''symbol'', JStr ''ogdc'')] 1 5 [] = Inr (item_response (hd ex_watched, ex_sec ''OGDC''), [hd ex_watched])"
    by code_simp
  then have "watchlist_step ex_listed [] [hd ex_watched]" by (rule watchlist_step.intros)
  moreover have "add_to_watchlist ex_listed ex_watcher [(''symbol'', JStr ''ppl'')] 2 6 [hd ex_watched] = Inr (item_response (ex_watched ! 1, ex_sec ''PPL''), ex_watched)"
    by code_simp
  then have "watchlist_step ex_listed [hd ex_watched] ex_watched" by (rule watchlist_step.intros)
  ultimately show ?thesis by (intro reach_step [OF reach_step [OF reach_init]]) simp_all
qed

text \<open>
  C15: reordering. A request that lists symbols of the watchlist, none twice, succeeds: the response
  shows them first, in the order of the request, then the others in their former order, numbered
  from 1, and the watchlists of other users are unchanged. A request with an unknown symbol is
  refused with status 400.
\<close>

theorem reorder_as_requested:
  assumes inv: "watchlist_inv mk rows" and d: "distinct (normalise symbols)" and len: "length symbols \<le> 500"
  shows "if set (normalise symbols) \<subseteq> set (map wr_symbol (get_watchlist_ep mk user rows))
    then \<exists>resps rows'. reorder_watchlist mk user symbols rows = Inr (resps, rows')
      \<and> map wr_symbol resps = normalise symbols @
          filter (\<lambda>s. s \<notin> set (normalise symbols)) (map wr_symbol (get_watchlist_ep mk user rows))
      \<and> map wr_sort_order resps = map int [1..<length resps + 1]
      \<and> (\<forall>v. u_id v = u_id user \<or> get_watchlist_ep mk v rows' = get_watchlist_ep mk v rows)
    else \<exists>msg. reorder_watchlist mk user symbols rows = Inl (HTTPException 400 msg)"
proof (cases "set (normalise symbols) \<subseteq> set (map wr_symbol (get_watchlist_ep mk user rows))")
  case True
  let ?u = "u_id user"
  let ?L = "new_order ?u symbols rows"
  have sub: "set (normalise symbols) \<subseteq> w_symbol ` set (items_of ?u rows)"
    using True by (simp add: get_watchlist_ep_def get_symbols [OF inv] del: set_map) simp
  then have "filter (\<lambda>s. s \<notin> set (map w_symbol (items_of ?u rows))) (normalise symbols) = []"
    by (auto simp: filter_empty_conv)
  then obtain resps rows' where r: "watchlist_reorder mk ?u symbols rows = Inr (resps, rows')"
    by (simp add: watchlist_reorder_def Let_def)
  note n = reorder_numbers [OF r]
  have inv': "watchlist_inv mk rows'" unfolding n(1) by (rule number_all_inv [OF inv new_order_covers])
  have L: "?L = normalise symbols @ filter (\<lambda>s. s \<notin> set (normalise symbols)) (map wr_symbol (get_watchlist_ep mk user rows))"
    by (simp add: new_order_def get_watchlist_ep_def get_symbols [OF inv] filter_map o_def)
  have "distinct (map w_symbol (sort_key w_sort_order (items_of ?u rows)))"
    using inv_items(1) [OF inv, of ?u] by (simp add: distinct_map)
  then have dL: "distinct ?L" using d by (auto simp: L get_watchlist_ep_def get_symbols [OF inv] simp del: set_map)
  have "set ?L = w_symbol ` set (items_of ?u rows)" using sub by (auto simp: new_order_def)
  from numbered_symbols [OF inv dL this]
  have "map wr_symbol resps = ?L" "map wr_sort_order resps = map int [1..<length ?L + 1]"
    unfolding n(2) get_symbols [OF inv'] unfolding n(1) by blast+
  moreover have "get_watchlist mk rows' v = get_watchlist mk rows v" if "v \<noteq> ?u" for v
  proof -
    have "items_of v (set_order ?u x n rs) = items_of v rs" for x n rs
      using that by (induction rs) (auto simp: set_order_def items_of_def)
    then have "items_of v (number_from ?u k ss rs) = items_of v rs" for k ss rs
      by (induction ss rule: rev_induct) (simp_all add: number_from_snoc)
    then show ?thesis by (simp add: get_watchlist_def n(1))
  qed
  moreover have "length resps = length ?L" using calculation(1) by (metis length_map)
  ultimately show ?thesis using True r len
    by (auto simp: reorder_watchlist_def raise_watchlist_def get_watchlist_ep_def L [unfolded get_watchlist_ep_def])
next
  case False
  then have "filter (\<lambda>s. s \<notin> set (map w_symbol (items_of (u_id user) rows))) (normalise symbols) \<noteq> []"
    by (auto simp: get_watchlist_ep_def get_symbols [OF inv] filter_empty_conv simp del: set_map) auto
  then show ?thesis using False len
    by (simp add: reorder_watchlist_def watchlist_reorder_def raise_watchlist_def http_of_watchlist_def Let_def)
qed

theorem reorder_as_requested_witness:
  "watchlist_inv ex_listed ex_watched
   \<and> (\<exists>resps rows'. reorder_watchlist ex_listed ex_watcher ['' ppl''] ex_watched = Inr (resps, rows')
        \<and> map wr_symbol resps = [''PPL'', ''OGDC''])"
proof -
  have inv: "watchlist_inv ex_listed ex_watched" using ex_watchlist_reach by (rule watchlist_sys.reach_inv)
  have n: "normalise ['' ppl''] = [''PPL'']" by code_simp
  have syms: "map wr_symbol (get_watchlist_ep ex_listed ex_watcher ex_watched) = [''OGDC'', ''PPL'']" by code_simp
  have "\<exists>resps rows'. reorder_watchlist ex_listed ex_watcher ['' ppl''] ex_watched = Inr (resps, rows')
      \<and> map wr_symbol resps = [''PPL''] @ filter (\<lambda>s. s \<notin> set [''PPL'']) [''OGDC'', ''PPL'']"
    using reorder_as_requested [OF inv, of "['' ppl'']" ex_watcher] unfolding n syms by (auto split: if_splits)
  then show ?thesis using inv by simp
qed

end
