(* ===== verification/Alerts.thy ===== *)
theory Alerts
  imports Indicators Watchlist Portfolios
begin

text \<open>
  The pump-and-dump detector \<^verbatim>\<open>psx_api/alerts/pump_dump.py\<close>, the service around it
  (\<^verbatim>\<open>services/alert_service.py\<close>) and its endpoints (\<^verbatim>\<open>routers/alerts.py\<close>). The float power and square root
  of the C library are the arguments \<open>libm\<close> of the backtest metrics.
\<close>

section \<open>Layer 1: the rule\<close>

record DailyBar =
  d_open :: flt
  d_high :: flt
  d_low :: flt
  d_close :: flt
  d_volume :: flt
  d_prev_close :: "flt option"

record RuleResult =
  rr_triggered :: bool
  rr_alert_type :: "string option"
  rr_vol_spike :: flt
  rr_price_change_pct :: flt
  rr_explanation :: string

text \<open>\<^verbatim>\<open>round(x, n)\<close>: the decimal with \<open>n\<close> places nearest to the float, as a float.\<close>

definition round_flt :: "nat \<Rightarrow> flt \<Rightarrow> flt" where
  "round_flt n x = flt (qz_even n (fval x))"

definition times_sign :: string where "times_sign = [CHR 0xC3, CHR 0x97]"

definition rule_text :: "flt \<Rightarrow> flt \<Rightarrow> string \<Rightarrow> string \<Rightarrow> string" where
  "rule_text vol_spike pct what name =
     ''Volume today is '' @ fmt_fixed 1 vol_spike @ times_sign @ '' the 20-day average with a '' @ fmt_fixed 1 pct @ ''% '' @ what
     @ '' '' @ em_dash @ '' the textbook '' @ name @ '' pattern.''"

definition detect_rule :: "DailyBar \<Rightarrow> flt \<Rightarrow> RuleResult" where
  "detect_rule today vol_ma_20 =
     (let vol_spike = (if 0 < vol_ma_20 then d_volume today / vol_ma_20 else 0);
          price_change = (if 0 < d_open today then (d_close today - d_open today) / d_open today else 0);
          result = (\<lambda>triggered alert_type explanation.
            \<lparr>rr_triggered = triggered, rr_alert_type = alert_type, rr_vol_spike = round_flt 2 vol_spike,
             rr_price_change_pct = round_flt 2 (price_change * flt 100), rr_explanation = explanation\<rparr>)
      in if flt 4 \<le> vol_spike \<and> flt (3 / 100) \<le> price_change
         then result True (Some ''pump'') (rule_text vol_spike (price_change * flt 100) ''price increase'' ''pump'')
         else if flt 4 \<le> vol_spike \<and> price_change \<le> - flt (3 / 100)
         then result True (Some ''dump'') (rule_text vol_spike (\<bar>price_change\<bar> * flt 100) ''drop'' ''dump'')
         else result False None ''No rule-based pump/dump signal.'')"

section \<open>Layer 2: the anomaly score\<close>

record AnomalyFeatures =
  f_close :: flt
  f_volume :: flt
  f_vol_spike :: flt
  f_price_change_pct :: flt
  f_intraday_range_pct :: flt
  f_gap_pct :: flt

definition features_from :: "DailyBar \<Rightarrow> flt \<Rightarrow> AnomalyFeatures" where
  "features_from bar vol_ma_20 =
     \<lparr>f_close = d_close bar, f_volume = d_volume bar,
      f_vol_spike = (if 0 < vol_ma_20 then d_volume bar / vol_ma_20 else 0),
      f_price_change_pct = (if 0 < d_open bar then (d_close bar - d_open bar) / d_open bar * flt 100 else 0),
      f_intraday_range_pct = (if 0 < d_open bar then (d_high bar - d_low bar) / d_open bar * flt 100 else 0),
      f_gap_pct = (case d_prev_close bar of
           Some c \<Rightarrow> if c \<noteq> 0 then (d_open bar - c) / c * flt 100 else 0 | None \<Rightarrow> 0)\<rparr>"

text \<open>The squared standardised distance of one feature; a feature that does not vary is left out.\<close>

definition z_square :: "libm \<Rightarrow> flt \<Rightarrow> flt list \<Rightarrow> backtest_error + flt option" where
  "z_square lm x values =
     (let mean = flt_sum values / flt_of_nat (length values)
      in bind_r (collect_r (map (\<lambda>v. lm_pow lm (v - mean) (flt 2)) values)) (\<lambda>squares.
         let var = flt_sum squares / flt_of_nat (max (length values - 1) 1);
             std = (if 0 < var then lm_sqrt lm var else 0);
             z = (x - mean) / std
         in Inr (if std = 0 then None else Some (z * z))))"

definition FEATURES :: "(AnomalyFeatures \<Rightarrow> flt) list" where
  "FEATURES = [f_close, f_volume, f_vol_spike, f_price_change_pct, f_intraday_range_pct, f_gap_pct]"

definition anomaly_score :: "libm \<Rightarrow> AnomalyFeatures \<Rightarrow> AnomalyFeatures list \<Rightarrow> backtest_error + flt" where
  "anomaly_score lm today history =
     (if length history < 5 then Inr 0
      else bind_r (collect_r (map (\<lambda>f. z_square lm (f today) (map f history)) FEATURES)) (\<lambda>zs.
           let sq_sum = foldl (\<lambda>acc z. case z of Some q \<Rightarrow> acc + q | None \<Rightarrow> acc) 0 zs
           in Inr (round_flt 4 (lm_sqrt lm sq_sum))))"

section \<open>Layer 3: the news context\<close>

datatype severity = Low | Medium | High

definition escalate_severity :: "bool \<Rightarrow> flt \<Rightarrow> bool \<Rightarrow> bool \<Rightarrow> flt \<Rightarrow> severity" where
  "escalate_severity rule_triggered score has_announcement_today has_high_impact_news_today sentiment_pulse =
     (let news_context = (has_announcement_today \<or> has_high_impact_news_today)
      in if rule_triggered \<and> \<not> news_context
         then (if flt 4 \<le> score then High else if flt (5 / 2) \<le> score then High else Medium)
         else if rule_triggered \<and> news_context
         then (if flt 50 < \<bar>sentiment_pulse\<bar> then Low else Medium)
         else if flt 5 \<le> score \<and> \<not> news_context then Medium
         else Low)"

section \<open>Tables\<close>

record SuspiciousDay =
  sd_id :: string
  sd_symbol :: string
  sd_alert_date :: date
  sd_alert_type :: string
  sd_severity :: severity
  sd_vol_spike :: dec
  sd_price_change_pct :: dec
  sd_anomaly_score :: dec
  sd_has_news_context :: bool
  sd_explanation :: string
  sd_created_at :: int

text \<open>What the detector reads about announcements and news. Times are in microseconds since 1970.\<close>

record NewsArticle =
  na_id :: string
  na_source :: string
  na_url :: string
  na_headline :: string
  na_body :: string
  na_published_at :: int
  na_scraped_at :: int
  na_language :: string

record ArticleMention =
  am_article_id :: string
  am_symbol :: string
  am_match_count :: nat

record ArticleSentiment =
  as_article_id :: string
  as_symbol :: string
  as_polarity :: dec
  as_event_type :: "string option"
  as_model_version :: string
  as_scored_at :: int

record news_db =
  actions :: "CorporateAction list"
  articles :: "NewsArticle list"
  mentions :: "ArticleMention list"
  sentiments :: "ArticleSentiment list"

section \<open>Service\<close>

definition latest_for_symbol :: "string \<Rightarrow> SuspiciousDay list \<Rightarrow> SuspiciousDay option" where
  "latest_for_symbol symb rows =
     (case sort_key_desc sd_alert_date (filter (\<lambda>a. sd_symbol a = py_upper symb) rows) of [] \<Rightarrow> None | a # _ \<Rightarrow> Some a)"

text \<open>Every snapshot counts as a holding, also one whose shares were all sold.\<close>

definition followed :: "string \<Rightarrow> WatchlistItem list \<Rightarrow> portfolio_db \<Rightarrow> string set" where
  "followed uid watch pdb =
     w_symbol ` {w \<in> set watch. w_user_id w = uid}
     \<union> h_symbol ` {h \<in> set (holdings (ledger pdb)). h_portfolio_id h \<in> pf_id ` {p \<in> set (portfolios pdb). pf_user_id p = uid}}"

definition alerts_for_user ::
  "string \<Rightarrow> int \<Rightarrow> WatchlistItem list \<Rightarrow> portfolio_db \<Rightarrow> SuspiciousDay list \<Rightarrow> http_error + SuspiciousDay list" where
  "alerts_for_user uid limit watch pdb rows =
     (if limit < 0 \<or> 2 ^ 63 \<le> limit then Inl ServerError
      else Inr (take (nat limit) (sort_key_desc (\<lambda>a. (sd_alert_date a, sd_created_at a))
             (filter (\<lambda>a. sd_symbol a \<in> followed uid watch pdb) rows))))"

definition has_recent_announcement :: "news_db \<Rightarrow> string \<Rightarrow> date \<Rightarrow> bool" where
  "has_recent_announcement news symb on \<longleftrightarrow>
     list_ex (\<lambda>c. ca_symbol c = symb \<and> on - 3 \<le> ca_announcement_date c \<and> ca_announcement_date c \<le> on) (actions news)"

text \<open>The join goes from sentiments to mentions through the article only: the symbol of a sentiment is not compared.\<close>

definition news_rows :: "news_db \<Rightarrow> string \<Rightarrow> date \<Rightarrow> (dec \<times> string option) list" where
  "news_rows news symb on =
     (let start = (on - 719163) * 86400 * 10 ^ 6; finish = start + 86400 * 10 ^ 6 - 1
      in concat (map (\<lambda>s. concat (map (\<lambda>a. map (\<lambda>m. (as_polarity s, as_event_type s))
                (filter (\<lambda>m. am_article_id m = na_id a \<and> am_symbol m = symb) (mentions news)))
              (filter (\<lambda>a. na_id a = as_article_id s \<and> start \<le> na_published_at a \<and> na_published_at a \<le> finish) (articles news))))
            (sentiments news)))"

definition news_context :: "news_db \<Rightarrow> string \<Rightarrow> date \<Rightarrow> bool \<times> flt" where
  "news_context news symb on =
     (let rows = news_rows news symb on
      in (list_ex (\<lambda>(polarity, event). event \<in> Some ` {''earnings'', ''regulatory'', ''mna'', ''scandal''}) rows,
          if rows \<noteq> [] then flt_sum (map (\<lambda>(polarity, event). flt_of_dec polarity) rows) / flt_of_nat (length rows) * flt 100 else 0))"

text \<open>The bars of the rows whose prices are all there; the previous close is that of the row before.\<close>

definition daily_bar :: "OhlcvDaily list \<Rightarrow> nat \<Rightarrow> DailyBar option" where
  "daily_bar rows i =
     (case (o_open (rows ! i), o_high (rows ! i), o_low (rows ! i), o_close (rows ! i)) of
        (Some op, Some h, Some low, Some c) \<Rightarrow>
          Some \<lparr>d_open = flt_of_dec op, d_high = flt_of_dec h, d_low = flt_of_dec low, d_close = flt_of_dec c,
                d_volume = flt_of_int (case o_volume (rows ! i) of Some v \<Rightarrow> v | None \<Rightarrow> 0),
                d_prev_close = (if 0 < i then map_option flt_of_dec (o_close (rows ! (i - 1))) else None)\<rparr>
      | _ \<Rightarrow> None)"

definition daily_bars :: "OhlcvDaily list \<Rightarrow> DailyBar list" where
  "daily_bars rows = List.map_filter (daily_bar rows) [0..<length rows]"

record verdict =
  vd_rule :: RuleResult
  vd_score :: flt

text \<open>Layers 1 and 2 on the last bar: the mean volume of the twenty before it, and at most sixty for the score.\<close>

definition judge :: "libm \<Rightarrow> DailyBar list \<Rightarrow> backtest_error + verdict" where
  "judge lm bars =
     (let n = length bars; today_bar = last bars; prior_bars = butlast (drop (n - 21) bars);
          vol_ma_20 = flt_sum (map d_volume prior_bars) / flt 20;
          feat_history = map (\<lambda>b. features_from b vol_ma_20) (butlast (drop (n - 61) bars))
      in bind_r (anomaly_score lm (features_from today_bar vol_ma_20) feat_history) (\<lambda>score.
           Inr \<lparr>vd_rule = detect_rule today_bar vol_ma_20, vd_score = score\<rparr>))"

definition alert_text :: "verdict \<Rightarrow> bool \<Rightarrow> string" where
  "alert_text v context_known =
     (if rr_triggered (vd_rule v) then rr_explanation (vd_rule v)
      else ''Statistical anomaly score '' @ fmt_fixed 1 (vd_score v) @ '' ('' @ [CHR 0xE2, CHR 0x89, CHR 0xA5] @ ''5 sigma).'')
     @ (if context_known then '' Context: announced news today reduced severity.''
        else '' No announced news context '' @ em_dash @ '' extra caution.'')"

text \<open>\<^verbatim>\<open>Decimal(str(x))\<close> of a float rounded to as many places as its column has.\<close>

definition column_dec :: "nat \<Rightarrow> flt \<Rightarrow> dec" where
  "column_dec n x = Dec (qz_even n (fval x))"

definition alert_row :: "string \<Rightarrow> int \<Rightarrow> string \<Rightarrow> date \<Rightarrow> verdict \<Rightarrow> severity \<Rightarrow> bool \<Rightarrow> SuspiciousDay" where
  "alert_row new_id now symb today_date v sev context_known =
     (let rule = vd_rule v
      in \<lparr>sd_id = new_id, sd_symbol = symb, sd_alert_date = today_date,
          sd_alert_type = (case rr_alert_type rule of Some t \<Rightarrow> t | None \<Rightarrow> if 0 \<le> rr_price_change_pct rule then ''pump'' else ''dump''),
          sd_severity = sev, sd_vol_spike = column_dec 2 (rr_vol_spike rule),
          sd_price_change_pct = column_dec 2 (rr_price_change_pct rule), sd_anomaly_score = column_dec 4 (vd_score v),
          sd_has_news_context = context_known, sd_explanation = alert_text v context_known, sd_created_at = now\<rparr>)"

text \<open>The columns; a number too large for its column is an error nothing handles.\<close>

definition alert_fits :: "SuspiciousDay \<Rightarrow> bool" where
  "alert_fits a \<longleftrightarrow> numeric 10 2 (sd_vol_spike a) \<and> numeric 10 2 (sd_price_change_pct a) \<and> numeric 10 4 (sd_anomaly_score a)"

definition find_alert :: "string \<Rightarrow> date \<Rightarrow> SuspiciousDay list \<Rightarrow> SuspiciousDay option" where
  "find_alert symb d rows = List.find (\<lambda>a. sd_symbol a = symb \<and> sd_alert_date a = d) rows"

definition flush_alert :: "SuspiciousDay \<Rightarrow> SuspiciousDay list \<Rightarrow> backtest_error + SuspiciousDay \<times> SuspiciousDay list" where
  "flush_alert a rows =
     (if \<not> alert_fits a then Inl OverflowErr
      else case find_alert (sd_symbol a) (sd_alert_date a) rows of Some e \<Rightarrow> Inr (e, rows) | None \<Rightarrow> Inr (a, rows @ [a]))"

text \<open>The rows of the last seventy days, oldest first.\<close>

definition recent_rows :: "market_db \<Rightarrow> string \<Rightarrow> OhlcvDaily list" where
  "recent_rows mk symb = rev (take 70 (newest_first mk symb))"

definition evaluate_symbol ::
  "libm \<Rightarrow> market_db \<Rightarrow> news_db \<Rightarrow> string \<Rightarrow> int \<Rightarrow> string \<Rightarrow> SuspiciousDay list \<Rightarrow> backtest_error + SuspiciousDay option \<times> SuspiciousDay list" where
  "evaluate_symbol lm mk news new_id now symb0 rows =
     (let symb = py_upper symb0; os = recent_rows mk symb; bars = daily_bars os
      in if length os < 22 \<or> length bars < 22 then Inr (None, rows)
         else bind_r (judge lm bars) (\<lambda>v.
           let today_date = o_date (last os); triggered = rr_triggered (vd_rule v);
               announced = has_recent_announcement news symb today_date;
               (high_impact, pulse) = news_context news symb today_date;
               sev = escalate_severity triggered (vd_score v) announced high_impact pulse
           in if \<not> triggered \<and> (vd_score v < flt 5 \<or> sev = Low) then Inr (None, rows)
              else bind_r (flush_alert (alert_row new_id now symb today_date v sev (announced \<or> high_impact)) rows)
                     (\<lambda>(a, rows). Inr (Some a, rows))))"

section \<open>Endpoints\<close>

definition get_suspicious_state :: "string \<Rightarrow> SuspiciousDay list \<Rightarrow> SuspiciousDay option" where
  "get_suspicious_state symb rows = latest_for_symbol (py_upper symb) rows"

definition list_alerts_for_user ::
  "User \<Rightarrow> int \<Rightarrow> WatchlistItem list \<Rightarrow> portfolio_db \<Rightarrow> SuspiciousDay list \<Rightarrow> http_error + SuspiciousDay list" where
  "list_alerts_for_user user limit watch pdb rows = alerts_for_user (u_id user) limit watch pdb rows"

definition evaluate_today ::
  "libm \<Rightarrow> market_db \<Rightarrow> news_db \<Rightarrow> string \<Rightarrow> int \<Rightarrow> string \<Rightarrow> SuspiciousDay list \<Rightarrow> http_error + SuspiciousDay option \<times> SuspiciousDay list" where
  "evaluate_today lm mk news new_id now symb rows =
     (case evaluate_symbol lm mk news new_id now (py_upper symb) rows of Inr r \<Rightarrow> Inr r | Inl _ \<Rightarrow> Inl ServerError)"

section \<open>One alert per day\<close>

inductive alert_step :: "SuspiciousDay list \<Rightarrow> SuspiciousDay list \<Rightarrow> bool" where
  evaluate_step: "evaluate_today lm mk news new_id now symb rows = Inr (r, rows') \<Longrightarrow> alert_step rows rows'"

definition alerts_inv :: "SuspiciousDay list \<Rightarrow> bool" where
  "alerts_inv rows \<longleftrightarrow> distinct (map (\<lambda>a. (sd_symbol a, sd_alert_date a)) rows) \<and> list_all alert_fits rows"

text \<open>What an evaluation that shows an alert did: it found the alert of the day or stored a new one.\<close>

lemma flush_alert_Inr:
  assumes "flush_alert c rows = Inr (a, rows')"
  shows "alert_fits c" "find_alert (sd_symbol c) (sd_alert_date c) rows' = Some a"
    "rows' = rows \<or> a = c \<and> rows' = rows @ [c] \<and> find_alert (sd_symbol c) (sd_alert_date c) rows = None"
proof -
  have app: "List.find P xs = None \<Longrightarrow> P c \<Longrightarrow> List.find P (xs @ [c]) = Some c" for P xs by (induction xs) (auto split: if_splits)
  show "alert_fits c" using assms by (auto simp: flush_alert_def split: if_splits)
  show "find_alert (sd_symbol c) (sd_alert_date c) rows' = Some a"
    using assms app by (auto simp: flush_alert_def find_alert_def split: if_splits option.splits)
  show "rows' = rows \<or> a = c \<and> rows' = rows @ [c] \<and> find_alert (sd_symbol c) (sd_alert_date c) rows = None"
    using assms by (auto simp: flush_alert_def split: if_splits option.splits)
qed

lemma flush_alert_inv:
  assumes "alerts_inv rows" "flush_alert c rows = Inr (a, rows')"
  shows "alerts_inv rows'"
  using flush_alert_Inr(3) [OF assms(2)]
proof
  assume new: "a = c \<and> rows' = rows @ [c] \<and> find_alert (sd_symbol c) (sd_alert_date c) rows = None"
  then have "(sd_symbol c, sd_alert_date c) \<notin> (\<lambda>a. (sd_symbol a, sd_alert_date a)) ` set rows"
    by (auto simp: find_alert_def find_None_iff)
  then show ?thesis using new flush_alert_Inr(1) [OF assms(2)] assms(1) by (simp add: alerts_inv_def)
qed (use assms(1) in simp)

text \<open>The alert an evaluation would store, for every id and time alike, or none.\<close>

lemma evaluate_symbol_cases:
  obtains (raised) e where "\<And>i t rows. evaluate_symbol lm mk news i t symb rows = Inl e"
  | (quiet) "\<And>i t rows. evaluate_symbol lm mk news i t symb rows = Inr (None, rows)"
  | (alert) v d sev ctx where "\<And>i t rows. evaluate_symbol lm mk news i t symb rows =
      bind_r (flush_alert (alert_row i t (py_upper symb) d v sev ctx) rows) (\<lambda>(a, rows). Inr (Some a, rows))"
proof -
  define os where "os = recent_rows mk (py_upper symb)"
  consider "length os < 22 \<or> length (daily_bars os) < 22"
    | e where "\<not> (length os < 22 \<or> length (daily_bars os) < 22)" "judge lm (daily_bars os) = Inl e"
    | v where "\<not> (length os < 22 \<or> length (daily_bars os) < 22)" "judge lm (daily_bars os) = Inr v"
    by (cases "judge lm (daily_bars os)") auto
  then show thesis
  proof cases
    case 1
    then show ?thesis by (intro quiet) (simp add: evaluate_symbol_def Let_def flip: os_def)
  next
    case (2 e)
    then show ?thesis by (intro raised) (simp add: evaluate_symbol_def Let_def flip: os_def)
  next
    case (3 v)
    obtain hi pulse where news: "news_context news (py_upper symb) (o_date (last os)) = (hi, pulse)" by fastforce
    define sev where "sev = escalate_severity (rr_triggered (vd_rule v)) (vd_score v)
      (has_recent_announcement news (py_upper symb) (o_date (last os))) hi pulse"
    have ev: "evaluate_symbol lm mk news i t symb rows =
      (if \<not> rr_triggered (vd_rule v) \<and> (vd_score v < flt 5 \<or> sev = Low) then Inr (None, rows)
       else bind_r (flush_alert (alert_row i t (py_upper symb) (o_date (last os)) v sev
              (has_recent_announcement news (py_upper symb) (o_date (last os)) \<or> hi)) rows) (\<lambda>(a, rows). Inr (Some a, rows)))" for i t rows
      using 3(1) by (simp only: evaluate_symbol_def Let_def os_def [symmetric] 3(2) if_False bind_r_simps news prod.case sev_def [symmetric])
    show ?thesis
    proof (cases "\<not> rr_triggered (vd_rule v) \<and> (vd_score v < flt 5 \<or> sev = Low)")
      case True
      then show ?thesis by (intro quiet) (simp add: ev)
    next
      case False
      then show ?thesis by (intro alert) (simp only: ev if_False)
    qed
  qed
qed

lemma alert_step_inv:
  assumes "alerts_inv rows" "alert_step rows rows'"
  shows "alerts_inv rows'"
  using assms(2)
proof cases
  case (evaluate_step lm mk news new_id now symb r)
  then have e: "evaluate_symbol lm mk news new_id now (py_upper symb) rows = Inr (r, rows')"
    by (simp add: evaluate_today_def split: sum.splits)
  show ?thesis
    by (rule evaluate_symbol_cases [of lm mk news "py_upper symb"])
      (use e assms(1) in \<open>auto simp: bind_r_Inr_iff intro: flush_alert_inv\<close>)
qed

interpretation alerts: invariant_system "\<lambda>rows. rows = []" alert_step alerts_inv
proof
  show "alerts_inv rows" if "rows = []" for rows using that by (simp add: alerts_inv_def)
qed (rule alert_step_inv)

section \<open>Examples\<close>

text \<open>Twenty-two quiet days, a day with ten times the volume, and a last day without prices.\<close>

definition ex_day :: "date \<Rightarrow> rat \<Rightarrow> int \<Rightarrow> OhlcvDaily" where
  "ex_day d c v = \<lparr>o_symbol = ''HBL'', o_date = d, o_open = Some (Dec 100), o_high = Some (Dec c), o_low = Some (Dec 100),
     o_close = Some (Dec c), o_volume = Some v, o_value_pkr = None, o_adjusted_close = None\<rparr>"

definition ex_gap_day :: "date \<Rightarrow> OhlcvDaily" where
  "ex_gap_day d = \<lparr>o_symbol = ''HBL'', o_date = d, o_open = None, o_high = None, o_low = None,
     o_close = None, o_volume = None, o_value_pkr = None, o_adjusted_close = None\<rparr>"

definition ex_market :: market_db where
  "ex_market = \<lparr>security_rows = [], ohlcv_rows = map (\<lambda>d. ex_day d 100 100) [1..22] @ [ex_day 23 110 1000, ex_gap_day 24]\<rparr>"

definition ex_quiet :: "flt option \<Rightarrow> DailyBar" where
  "ex_quiet p = \<lparr>d_open = Flt 100, d_high = Flt 100, d_low = Flt 100, d_close = Flt 100, d_volume = Flt 100, d_prev_close = p\<rparr>"

definition ex_spike :: DailyBar where
  "ex_spike = \<lparr>d_open = Flt 100, d_high = Flt 110, d_low = Flt 100, d_close = Flt 110, d_volume = Flt 1000, d_prev_close = Some (Flt 100)\<rparr>"

definition ex_bars :: "DailyBar list" where
  "ex_bars = ex_quiet None # replicate 21 (ex_quiet (Some (Flt 100))) @ [ex_spike]"

lemma ex_recent: "recent_rows ex_market ''HBL'' = map (\<lambda>d. ex_day d 100 100) [1..22] @ [ex_day 23 110 1000, ex_gap_day 24]"
  by code_simp

lemma ex_daily: "daily_bars (map (\<lambda>d. ex_day d 100 100) [1..22] @ [ex_day 23 110 1000, ex_gap_day 24]) = ex_bars"
  by code_simp

lemma ex_features: "features_from (ex_quiet None) (Flt 100) = \<lparr>f_close = Flt 100, f_volume = Flt 100, f_vol_spike = Flt 1, f_price_change_pct = Flt 0, f_intraday_range_pct = Flt 0, f_gap_pct = Flt 0\<rparr>"
 "features_from (ex_quiet (Some (Flt 100))) (Flt 100) = \<lparr>f_close = Flt 100, f_volume = Flt 100, f_vol_spike = Flt 1, f_price_change_pct = Flt 0, f_intraday_range_pct = Flt 0, f_gap_pct = Flt 0\<rparr>"
  by code_simp+

lemma ex_rule: "rr_triggered (detect_rule ex_spike (Flt 100))" "rr_vol_spike (detect_rule ex_spike (Flt 100)) = Flt 10"
  "rr_price_change_pct (detect_rule ex_spike (Flt 100)) = Flt 10"
  by code_simp+

definition ex_no_news :: news_db where
  "ex_no_news = \<lparr>actions = [], articles = [], mentions = [], sentiments = []\<rparr>"

text \<open>Sums of equal small integers are exact, so a feature that never varies has no spread.\<close>

lemma flt_sum_const: "int n * v < 2 ^ 53 \<Longrightarrow> 0 \<le> v \<Longrightarrow> flt_sum (replicate n (Flt (of_int v))) = Flt (of_int (int n * v))"
proof (induction n)
  case (Suc n)
  have "int n * v \<le> int (Suc n) * v" using Suc.prems(2) by (simp add: algebra_simps)
  then have "flt_sum (replicate n (Flt (of_int v))) = Flt (of_int (int n * v))" using Suc by simp
  moreover have "replicate (Suc n) (Flt (of_int v)) = replicate n (Flt (of_int v)) @ [Flt (of_int v)]"
    using replicate_append_same [of n "Flt (of_int v :: rat)"] by simp
  moreover have "fl64 (of_int (int (Suc n) * v)) = of_int (int (Suc n) * v)" using Suc.prems by (intro flt_r.exact_int) simp
  ultimately show ?case by (simp add: flt_sum_def flt_eq_iff algebra_simps)
qed (simp add: flt_sum_def flt_eq_iff)

lemma z_square_const:
  assumes "0 < n" "int n < 2 ^ 53" "int n * v < 2 ^ 53" "0 \<le> v"
  shows "z_square ex_libm x (replicate n (Flt (of_int v))) = Inr None"
proof -
  have "v \<le> int n * v" using assms(1,4) by (simp add: mult_le_cancel_right1)
  then have v: "fl64 (of_int v) = of_int v" using assms(3,4) by (intro flt_r.exact_int) simp
  have n: "fl64 (of_int (int n)) = of_int (int n)" using assms(2) by (intro flt_r.exact_int) simp
  have mean: "flt_sum (replicate n (Flt (of_int v))) / flt_of_nat n = Flt (of_int v)"
    using assms(1) n v flt_sum_const [OF assms(3,4)] by (simp add: flt_eq_iff flt_of_nat_def flt_of_int_def flt_def)
  have sq: "collect_r (map (\<lambda>x. lm_pow ex_libm (x - Flt (of_int v)) (flt 2)) (replicate n (Flt (of_int v)))) = Inr (replicate n 0)"
    by (induction n) (simp_all add: ex_libm_def flt_eq_iff)
  have zero: "Flt (of_int 0) = 0" by (simp add: flt_eq_iff)
  have "flt_sum (replicate n 0) = 0" using flt_sum_const [of n 0] unfolding zero by (simp add: zero [simplified])
  moreover have "(0 :: flt) / y = 0" for y by (simp add: flt_eq_iff)
  ultimately show ?thesis by (simp add: z_square_def mean sq Let_def del: map_replicate)
qed

lemma ex_judge: "judge ex_libm ex_bars = Inr \<lparr>vd_rule = detect_rule ex_spike (Flt 100), vd_score = 0\<rparr>"
proof -
  let ?q = "ex_quiet (Some (Flt 100))"
  have len: "length ex_bars = 23" by (simp add: ex_bars_def)
  have prior: "butlast (drop 2 ex_bars) = replicate 20 ?q" "butlast ex_bars = ex_quiet None # replicate 21 ?q"
    by (simp_all add: ex_bars_def butlast_append drop_Cons')
  have last: "last ex_bars = ex_spike" by (simp add: ex_bars_def)
  have vol: "flt_sum (map d_volume (replicate 20 ?q)) / flt 20 = Flt 100"
  proof -
    have "flt_sum (replicate 20 (Flt (of_int 100))) = Flt (of_int (int 20 * 100))" by (rule flt_sum_const) simp_all
    moreover have "fl64 20 = 20" "fl64 100 = 100" using flt_r.exact_int [of 20] flt_r.exact_int [of 100] by simp_all
    ultimately show ?thesis by (simp add: ex_quiet_def flt_eq_iff flt_def)
  qed
  define h where "h = map (\<lambda>b. features_from b (Flt 100)) (ex_quiet None # replicate 21 ?q)"
  have h: "h = replicate 22 \<lparr>f_close = Flt (of_int 100), f_volume = Flt (of_int 100), f_vol_spike = Flt (of_int 1),
      f_price_change_pct = Flt (of_int 0), f_intraday_range_pct = Flt (of_int 0), f_gap_pct = Flt (of_int 0)\<rparr>"
    using ex_features by (simp add: h_def numeral_eq_Suc)
  have z: "z_square ex_libm x (replicate 22 (Flt (of_int v))) = Inr None" if "v \<in> {0, 1, 100}" for x v
    by (rule z_square_const) (use that in auto)
  have "collect_r (map (\<lambda>f. z_square ex_libm (f today) (map f h)) FEATURES) = Inr [None, None, None, None, None, None]" for today
    unfolding FEATURES_def h by (simp add: z del: of_int_numeral of_int_1 of_int_0)
  then have score: "anomaly_score ex_libm today h = Inr 0" for today
    using round_half_even_of_int [of 0]
    by (simp add: anomaly_score_def h ex_libm_def round_flt_def flt_def qz_even_def flt_eq_iff)
  have "(23 :: nat) - 21 = 2" "(23 :: nat) - 61 = 0" by simp_all
  then show ?thesis by (simp only: judge_def Let_def len drop_0 prior last vol h_def [symmetric] score bind_r_simps)
qed

text \<open>
  An alert may carry the wrong date. The bar judged is the last one whose prices are all there, but
  the alert is dated by the last row: with a spike on day 23 and a row without prices on day 24, the
  alert of day 24 reports the 10 percent of the day before.
\<close>

lemma ex_alert:
  "\<exists>a. evaluate_today ex_libm ex_market ex_no_news ''a1'' 5 ''HBL'' [] = Inr (Some a, [a])
     \<and> sd_alert_date a = 24 \<and> sd_price_change_pct a = Dec 10 \<and> sd_severity a = Medium
     \<and> o_date (last (ohlcv_rows ex_market)) = 24 \<and> o_close (last (ohlcv_rows ex_market)) = None"
proof -
  have up: "py_upper ''HBL'' = ''HBL''" by code_simp
  have bars: "daily_bars (recent_rows ex_market ''HBL'') = ex_bars" by (simp only: ex_recent ex_daily)
  have len: "\<not> (length (recent_rows ex_market ''HBL'') < 22 \<or> length ex_bars < 22)" by (simp add: ex_recent ex_bars_def)
  have last: "o_date (last (recent_rows ex_market ''HBL'')) = 24" by (simp add: ex_recent ex_gap_day_def)
  have ctx: "has_recent_announcement ex_no_news ''HBL'' 24 = False" "news_context ex_no_news ''HBL'' 24 = (False, 0)"
    by (simp_all add: has_recent_announcement_def news_context_def news_rows_def ex_no_news_def)
  define a where "a = alert_row ''a1'' 5 ''HBL'' 24 \<lparr>vd_rule = detect_rule ex_spike (Flt 100), vd_score = 0\<rparr> Medium False"
  have sev: "escalate_severity True 0 False False 0 = Medium" by code_simp
  have dec: "column_dec 2 (Flt 10) = Dec 10" "column_dec 4 0 = Dec 0" by code_simp+
  have fits: "alert_fits a" "sd_price_change_pct a = Dec 10" "sd_alert_date a = 24" "sd_severity a = Medium"
    by (simp_all add: a_def alert_row_def alert_fits_def Let_def ex_rule dec numeric_def places_def)
  then have "flush_alert a [] = Inr (a, [a])" by (simp add: flush_alert_def find_alert_def)
  then have "evaluate_today ex_libm ex_market ex_no_news ''a1'' 5 ''HBL'' [] = Inr (Some a, [a])"
    unfolding evaluate_today_def evaluate_symbol_def up Let_def bars ex_judge bind_r_simps last ctx
    using len by (simp add: ex_rule sev flip: a_def)
  then show ?thesis using fits by (auto simp: ex_market_def ex_gap_day_def)
qed

section \<open>Properties\<close>

text \<open>
  The severity of an alert. An announcement or news never raises it; a higher anomaly score never
  lowers it; and it is high exactly when the rule triggered without any context and the score is
  at least 2.5.
\<close>

definition rank :: "severity \<Rightarrow> nat" where
  "rank s = (case s of Low \<Rightarrow> 0 | Medium \<Rightarrow> 1 | High \<Rightarrow> 2)"

lemma severity_sound:
  "rank (escalate_severity triggered score announced news pulse) \<le> rank (escalate_severity triggered score False False pulse')
   \<and> rank (escalate_severity triggered score announced news pulse) \<le> rank (escalate_severity triggered (max score score') announced news pulse)
   \<and> (escalate_severity triggered score announced news pulse = High \<longleftrightarrow> triggered \<and> flt (5 / 2) \<le> score \<and> \<not> announced \<and> \<not> news)"
proof -
  have "flt (5 / 2) \<le> flt 4" by (simp add: flt_le_iff flt_def flt_r.mono)
  then show ?thesis by (auto simp: escalate_severity_def rank_def Let_def le_max_iff_disj dest: order_trans)
qed

text \<open>
  C30: one alert per symbol and day. In every reachable table symbol and date are unique; an
  evaluation that shows an alert shows the stored one, adds at most that row, and evaluating again
  on the same market data, at any time, shows the same alert and stores nothing.
\<close>

theorem alert_once:
  assumes reach: "reach (\<lambda>rows. rows = []) alert_step rows"
    and ev: "evaluate_today lm mk news new_id now symb rows = Inr (Some a, rows')"
  shows "distinct (map (\<lambda>a. (sd_symbol a, sd_alert_date a)) rows') \<and> a \<in> set rows' \<and> rows' \<in> {rows, rows @ [a]}
    \<and> evaluate_today lm mk news new_id' now' symb rows' = Inr (Some a, rows')"
proof -
  have inv: "alerts_inv rows'" using alerts.reach_inv [OF reach] evaluate_step [OF ev] by (rule alert_step_inv)
  have e: "evaluate_symbol lm mk news new_id now (py_upper symb) rows = Inr (Some a, rows')"
    using ev by (simp add: evaluate_today_def split: sum.splits)
  show ?thesis
  proof (rule evaluate_symbol_cases [of lm mk news "py_upper symb"])
    fix v d sev ctx
    assume eq: "\<And>i t rows. evaluate_symbol lm mk news i t (py_upper symb) rows =
      bind_r (flush_alert (alert_row i t (py_upper (py_upper symb)) d v sev ctx) rows) (\<lambda>(a, rows). Inr (Some a, rows))"
    define c where "c i t = alert_row i t (py_upper (py_upper symb)) d v sev ctx" for i t
    have same: "sd_symbol (c i t) = py_upper (py_upper symb)" "sd_alert_date (c i t) = d" "alert_fits (c i t) = alert_fits (c new_id now)" for i t
      by (simp_all add: c_def alert_row_def alert_fits_def Let_def)
    have "flush_alert (c new_id now) rows = Inr (a, rows')" using e by (auto simp: eq bind_r_Inr_iff simp flip: c_def)
    note f = flush_alert_Inr [OF this]
    then have "flush_alert (c new_id' now') rows' = Inr (a, rows')"
      using same [of new_id' now'] same [of new_id now] by (simp add: flush_alert_def)
    then have "evaluate_today lm mk news new_id' now' symb rows' = Inr (Some a, rows')"
      by (simp add: evaluate_today_def eq flip: c_def)
    moreover have "a \<in> set rows'" using f(2) by (auto simp: find_alert_def find_Some_iff)
    ultimately show ?thesis using f(3) inv by (auto simp: alerts_inv_def)
  qed (use e in auto)
qed

theorem alert_once_witness:
  "\<exists>a. evaluate_today ex_libm ex_market ex_no_news ''a1'' 5 ''HBL'' [] = Inr (Some a, [a])
     \<and> evaluate_today ex_libm ex_market ex_no_news ''a2'' 6 ''HBL'' [a] = Inr (Some a, [a])"
proof -
  obtain a where a: "evaluate_today ex_libm ex_market ex_no_news ''a1'' 5 ''HBL'' [] = Inr (Some a, [a])" using ex_alert by blast
  from alert_once [OF reach_init [of "\<lambda>rows. rows = []"] a, of "''a2''" 6] a show ?thesis by auto
qed

text \<open>The join leaves out the symbol of the sentiment: a scandal of one company counts for every company its article mentions.\<close>

lemma sentiment_of_another_symbol:
  "\<exists>news pulse. news_context news ''HBL'' 719163 = (True, pulse) \<and> list_all (\<lambda>s. as_symbol s \<noteq> ''HBL'') (sentiments news)"
proof -
  define news where "news = \<lparr>actions = [], articles = [\<lparr>na_id = ''n1'', na_source = ''dawn'', na_url = ''u1'', na_headline = [],
      na_body = [], na_published_at = 0, na_scraped_at = 0, na_language = ''en''\<rparr>],
    mentions = [\<lparr>am_article_id = ''n1'', am_symbol = ''HBL'', am_match_count = 1\<rparr>,
      \<lparr>am_article_id = ''n1'', am_symbol = ''UBL'', am_match_count = 1\<rparr>],
    sentiments = [\<lparr>as_article_id = ''n1'', as_symbol = ''UBL'', as_polarity = Dec (-1), as_event_type = Some ''scandal'',
      as_model_version = ''lexicon-v0.1.0'', as_scored_at = 0\<rparr>]\<rparr>"
  have "fst (news_context news ''HBL'' 719163)" by (simp add: news_context_def news_rows_def news_def)
  moreover have "list_all (\<lambda>s. as_symbol s \<noteq> ''HBL'') (sentiments news)" by (simp add: news_def)
  ultimately show ?thesis
    by (intro exI [of _ news] exI [of _ "snd (news_context news ''HBL'' 719163)"]) (simp add: prod_eq_iff)
qed

end
