(* ===== verification/Adjustments.thy ===== *)
theory Adjustments
  imports Market
begin

text \<open>
  Corporate actions in the ingest service: \<^verbatim>\<open>psx_ingest/tasks/corporate_actions.py\<close> stores the
  announcements of the exchange, \<^verbatim>\<open>psx_ingest/adjustments.py\<close> computes the adjusted closing prices from
  them in one backward pass, and \<^verbatim>\<open>psx_ingest/tasks/adjust_prices.py\<close> writes them to the price table. The
  pages of the exchange are parsed by libraries; the parsed announcements are arguments.
\<close>

section \<open>Computing adjusted prices\<close>

text \<open>
  What the computation and the writes may raise: a division by zero, \<^verbatim>\<open>InvalidOperation\<close> of a quantize
  that needs more than 28 digits, and the overflow of a numeric column.
\<close>

datatype ingest_error = DivisionByZero | InvalidOperation | NumericOverflow

record CorporateEvent =
  ev_ex_date :: date
  ev_action_type :: string
  ev_amount_per_share :: "dec option"
  ev_ratio_numerator :: "int option"
  ev_ratio_denominator :: "int option"

record PriceRow =
  pr_date :: date
  pr_close :: dec
  pr_adjusted_close :: "dec option"

definition event_to_adjustment :: "CorporateEvent \<Rightarrow> ingest_error + dec \<times> dec" where
  "event_to_adjustment e =
     (if ev_action_type e \<in> {''split'', ''bonus'', ''rights''} then
        case (ev_ratio_numerator e, ev_ratio_denominator e) of
          (Some num, Some den) \<Rightarrow>
            if num \<noteq> 0 \<and> den \<noteq> 0 \<and> 0 < den
            then if den + num = 0 then Inl DivisionByZero else Inr (Dec (of_int den) / Dec (of_int (den + num)), Dec 0)
            else Inr (Dec 1, Dec 0)
        | _ \<Rightarrow> Inr (Dec 1, Dec 0)
      else if ev_action_type e = ''dividend_cash''
      then Inr (Dec 1, case ev_amount_per_share e of Some amt \<Rightarrow> amt | None \<Rightarrow> Dec 0)
      else Inr (Dec 1, Dec 0))"

type_synonym adjustment = "date \<times> dec \<times> dec"

text \<open>The inner loop: the events after the date of the row are added to the cumulative factors.\<close>

fun cross_events :: "date \<Rightarrow> dec \<times> dec \<Rightarrow> adjustment list \<Rightarrow> (dec \<times> dec) \<times> adjustment list" where
  "cross_events d (cm, ca) [] = ((cm, ca), [])"
| "cross_events d (cm, ca) ((ex_date, mul, addend) # adjs) =
     (if d < ex_date then cross_events d (cm * mul, ca * mul + addend) adjs
      else ((cm, ca), (ex_date, mul, addend) # adjs))"

definition adjust_close :: "dec \<Rightarrow> dec \<times> dec \<Rightarrow> ingest_error + dec" where
  "adjust_close close f =
     (let adj = max (close * fst f - snd f) (Dec (1 / 100)); q = quantize_half_up 4 adj
      in if \<bar>dval q\<bar> * 10 ^ 4 < 10 ^ 28 then Inr q else Inl InvalidOperation)"

fun backward_pass :: "dec \<times> dec \<Rightarrow> adjustment list \<Rightarrow> PriceRow list \<Rightarrow> ingest_error + PriceRow list" where
  "backward_pass f adjs [] = Inr []"
| "backward_pass f adjs (r # rs) =
     (let (f', adjs') = cross_events (pr_date r) f adjs
      in bind_r (adjust_close (pr_close r) f') (\<lambda>v.
         bind_r (backward_pass f' adjs' rs) (\<lambda>out.
           Inr (r\<lparr>pr_adjusted_close := Some v\<rparr> # out))))"

definition dated_adjustment :: "CorporateEvent \<Rightarrow> ingest_error + adjustment" where
  "dated_adjustment e = bind_r (event_to_adjustment e) (\<lambda>(mul, addend). Inr (ev_ex_date e, mul, addend))"

definition compute_adjusted_prices :: "PriceRow list \<Rightarrow> CorporateEvent list \<Rightarrow> ingest_error + PriceRow list" where
  "compute_adjusted_prices prices events =
     (if prices = [] then Inr prices
      else bind_r (collect_r (map dated_adjustment (sort_key_desc ev_ex_date events))) (\<lambda>adjs.
           bind_r (backward_pass (Dec 1, Dec 0) adjs (rev (sort_key pr_date prices))) (\<lambda>result. Inr (rev result))))"

section \<open>The task\<close>

definition fetch_active_symbols :: "market_db \<Rightarrow> string list" where
  "fetch_active_symbols mk = sort (map sec_symbol (filter is_active (security_rows mk)))"

definition price_row :: "OhlcvDaily \<Rightarrow> PriceRow option" where
  "price_row x = map_option (\<lambda>c. \<lparr>pr_date = o_date x, pr_close = c, pr_adjusted_close = None\<rparr>) (o_close x)"

definition fetch_prices :: "market_db \<Rightarrow> string \<Rightarrow> PriceRow list" where
  "fetch_prices mk symb = List.map_filter price_row (sort_key o_date (filter (\<lambda>x. o_symbol x = symb) (ohlcv_rows mk)))"

definition effective_date :: "CorporateAction \<Rightarrow> date" where
  "effective_date c = (case ca_ex_date c of Some d \<Rightarrow> d | None \<Rightarrow> ca_announcement_date c)"

definition nonzero :: "'a \<Rightarrow> 'a option \<Rightarrow> 'a option" where
  "nonzero z v = (if v = Some z then None else v)"

definition event_of :: "CorporateAction \<Rightarrow> CorporateEvent" where
  "event_of c = \<lparr>ev_ex_date = effective_date c, ev_action_type = ca_action_type c,
     ev_amount_per_share = nonzero (Dec 0) (ca_amount_per_share c),
     ev_ratio_numerator = nonzero 0 (ca_ratio_numerator c), ev_ratio_denominator = nonzero 0 (ca_ratio_denominator c)\<rparr>"

definition fetch_events :: "CorporateAction list \<Rightarrow> string \<Rightarrow> CorporateEvent list" where
  "fetch_events actions symb =
     map event_of (sort_key effective_date
       (filter (\<lambda>c. ca_symbol c = symb \<and> ca_action_type c \<in> {''split'', ''bonus'', ''rights'', ''dividend_cash''}) actions))"

text \<open>A float written to a column \<^verbatim>\<open>NUMERIC(12, 4)\<close>.\<close>

definition to_column :: "flt \<Rightarrow> ingest_error + dec" where
  "to_column x = (let v = qz_up 4 (fval x) in if \<bar>v\<bar> < 10 ^ 8 then Inr (Dec v) else Inl NumericOverflow)"

definition update_row :: "string \<Rightarrow> date \<Rightarrow> dec \<Rightarrow> OhlcvDaily list \<Rightarrow> OhlcvDaily list" where
  "update_row symb d v rows =
     map (\<lambda>x. if o_symbol x = symb \<and> o_date x = d then x\<lparr>o_adjusted_close := Some v\<rparr> else x) rows"

fun write_rows :: "string \<Rightarrow> PriceRow list \<Rightarrow> OhlcvDaily list \<Rightarrow> ingest_error + OhlcvDaily list" where
  "write_rows symb [] rows = Inr rows"
| "write_rows symb (p # ps) rows =
     (case pr_adjusted_close p of
        None \<Rightarrow> write_rows symb ps rows
      | Some adj \<Rightarrow> bind_r (to_column (flt_of_dec adj)) (\<lambda>v. write_rows symb ps (update_row symb (pr_date p) v rows)))"

definition write_adjusted_prices :: "string \<Rightarrow> PriceRow list \<Rightarrow> market_db \<Rightarrow> ingest_error + nat \<times> market_db" where
  "write_adjusted_prices symb ps mk =
     (if ps = [] then Inr (0, mk)
      else bind_r (write_rows symb ps (ohlcv_rows mk)) (\<lambda>rows. Inr (length ps, mk\<lparr>ohlcv_rows := rows\<rparr>)))"

definition recompute_symbol :: "CorporateAction list \<Rightarrow> string \<Rightarrow> market_db \<Rightarrow> ingest_error + nat \<times> market_db" where
  "recompute_symbol actions symb mk =
     (let prices = fetch_prices mk symb; events = fetch_events actions symb
      in if prices = [] then Inr (0, mk)
         else bind_r (compute_adjusted_prices prices events) (\<lambda>adjusted. write_adjusted_prices symb adjusted mk))"

record recompute_summary =
  symbols_ok :: nat
  symbols_err :: nat
  rows_updated :: nat

text \<open>Each symbol has sessions of its own: one that raises is counted and leaves the table as it was.\<close>

definition recompute_one ::
  "CorporateAction list \<Rightarrow> recompute_summary \<times> market_db \<Rightarrow> string \<Rightarrow> recompute_summary \<times> market_db" where
  "recompute_one actions = (\<lambda>(s, mk) symb.
     case recompute_symbol actions symb mk of
       Inr (n, mk') \<Rightarrow> (s\<lparr>symbols_ok := symbols_ok s + 1, rows_updated := rows_updated s + n\<rparr>, mk')
     | Inl _ \<Rightarrow> (s\<lparr>symbols_err := symbols_err s + 1\<rparr>, mk))"

definition run_recompute ::
  "string list option \<Rightarrow> CorporateAction list \<Rightarrow> market_db \<Rightarrow> recompute_summary \<times> market_db" where
  "run_recompute symbols actions mk =
     (let target = (case symbols of Some (s # ss) \<Rightarrow> s # ss | _ \<Rightarrow> fetch_active_symbols mk)
      in foldl (recompute_one actions) (\<lparr>symbols_ok = 0, symbols_err = 0, rows_updated = 0\<rparr>, mk) target)"

section \<open>Storing announcements\<close>

record CorporateActionRow =
  cr_symbol :: string
  cr_action_type :: string
  cr_announcement_date :: date
  cr_ex_date :: "date option"
  cr_record_date :: "date option"
  cr_payment_date :: "date option"
  cr_amount_per_share :: "dec option"
  cr_ratio_numerator :: "int option"
  cr_ratio_denominator :: "int option"
  cr_raw_announcement :: "string option"

definition CATEGORY_MAP :: "(string \<times> string) list" where
  "CATEGORY_MAP =
     [(''dividend'', ''dividend_cash''), (''cash dividend'', ''dividend_cash''),
      (''final dividend'', ''dividend_cash''), (''interim dividend'', ''dividend_cash''),
      (''stock dividend'', ''dividend_stock''), (''bonus shares'', ''bonus''), (''bonus'', ''bonus''),
      (''right shares'', ''rights''), (''rights'', ''rights''),
      (''agm'', ''agm''), (''annual general meeting'', ''agm''),
      (''extraordinary general meeting'', ''agm''), (''egm'', ''agm''),
      (''stock split'', ''split''), (''split'', ''split'')]"

definition map_category :: "string \<Rightarrow> string option" where
  "map_category category =
     (let normalized = py_strip (py_lower category)
      in case map_of CATEGORY_MAP normalized of
           Some v \<Rightarrow> Some v
         | None \<Rightarrow> map_option snd (List.find (\<lambda>(key, _). contains_str key normalized) CATEGORY_MAP))"

definition coalesce :: "'a option \<Rightarrow> 'a option \<Rightarrow> 'a option" where
  "coalesce x y = (case x of Some _ \<Rightarrow> x | None \<Rightarrow> y)"

definition same_action :: "CorporateActionRow \<Rightarrow> CorporateAction \<Rightarrow> bool" where
  "same_action r c \<longleftrightarrow> ca_symbol c = cr_symbol r \<and> ca_action_type c = cr_action_type r
     \<and> ca_announcement_date c = cr_announcement_date r"

definition merge_action :: "CorporateActionRow \<Rightarrow> dec option \<Rightarrow> CorporateAction \<Rightarrow> CorporateAction" where
  "merge_action r amount c = c\<lparr>ca_ex_date := coalesce (cr_ex_date r) (ca_ex_date c),
     ca_record_date := coalesce (cr_record_date r) (ca_record_date c),
     ca_payment_date := coalesce (cr_payment_date r) (ca_payment_date c),
     ca_amount_per_share := coalesce amount (ca_amount_per_share c),
     ca_ratio_numerator := coalesce (cr_ratio_numerator r) (ca_ratio_numerator c),
     ca_ratio_denominator := coalesce (cr_ratio_denominator r) (ca_ratio_denominator c),
     ca_raw_announcement := coalesce (cr_raw_announcement r) (ca_raw_announcement c)\<rparr>"

definition new_action :: "int \<Rightarrow> int \<Rightarrow> CorporateActionRow \<Rightarrow> dec option \<Rightarrow> CorporateAction" where
  "new_action i now r amount = \<lparr>ca_id = i, ca_symbol = cr_symbol r, ca_action_type = cr_action_type r,
     ca_announcement_date = cr_announcement_date r, ca_ex_date = cr_ex_date r, ca_record_date = cr_record_date r,
     ca_payment_date = cr_payment_date r, ca_amount_per_share = amount, ca_ratio_numerator = cr_ratio_numerator r,
     ca_ratio_denominator = cr_ratio_denominator r, ca_raw_announcement = cr_raw_announcement r, ca_created_at = now\<rparr>"

text \<open>
  What a statement of the session may do: the driver refuses a ratio outside of the integer column
  before it is sent (\<open>ClientError\<close>); an amount too large for its column is refused by the server
  (\<open>ServerAbort\<close>), which then refuses every statement until the transaction ends.
\<close>

datatype statement_error = ClientError | ServerAbort

definition int4 :: "int option \<Rightarrow> bool" where
  "int4 v = (case v of Some n \<Rightarrow> - (2 ^ 31) \<le> n \<and> n < 2 ^ 31 | None \<Rightarrow> True)"

definition amount_column :: "dec option \<Rightarrow> statement_error + dec option" where
  "amount_column a =
     (case nonzero (Dec 0) a of
        None \<Rightarrow> Inr None
      | Some x \<Rightarrow> (case to_column (flt_of_dec x) of Inr v \<Rightarrow> Inr (Some v) | Inl _ \<Rightarrow> Inl ServerAbort))"

definition upsert_action ::
  "int \<Rightarrow> int \<Rightarrow> CorporateActionRow \<Rightarrow> CorporateAction list \<Rightarrow> statement_error + bool \<times> CorporateAction list" where
  "upsert_action i now r actions =
     (if \<not> int4 (cr_ratio_numerator r) \<or> \<not> int4 (cr_ratio_denominator r) then Inl ClientError
      else bind_r (amount_column (cr_amount_per_share r)) (\<lambda>amount.
        if list_ex (same_action r) actions
        then Inr (False, map (\<lambda>c. if same_action r c then merge_action r amount c else c) actions)
        else Inr (True, actions @ [new_action i now r amount])))"

record ingest_state =
  ig_actions :: "CorporateAction list"
  ig_aborted :: bool
  ig_inserted :: nat
  ig_updated :: nat
  ig_skipped_unknown :: nat
  ig_errors :: nat

definition ingest_one :: "market_db \<Rightarrow> int \<Rightarrow> ingest_state \<Rightarrow> int \<times> CorporateActionRow \<Rightarrow> ingest_state" where
  "ingest_one mk now st = (\<lambda>(i, r).
     if ig_aborted st then st\<lparr>ig_errors := ig_errors st + 1\<rparr>
     else if find_security mk (cr_symbol r) = None then st\<lparr>ig_skipped_unknown := ig_skipped_unknown st + 1\<rparr>
     else case upsert_action i now r (ig_actions st) of
            Inr (True, actions) \<Rightarrow> st\<lparr>ig_actions := actions, ig_inserted := ig_inserted st + 1\<rparr>
          | Inr (False, actions) \<Rightarrow> st\<lparr>ig_actions := actions, ig_updated := ig_updated st + 1\<rparr>
          | Inl ClientError \<Rightarrow> st\<lparr>ig_errors := ig_errors st + 1\<rparr>
          | Inl ServerAbort \<Rightarrow> st\<lparr>ig_errors := ig_errors st + 1, ig_aborted := True\<rparr>)"

text \<open>The commit of a transaction the server has aborted is a rollback, without an error.\<close>

definition run_ingest ::
  "market_db \<Rightarrow> int \<Rightarrow> (int \<times> CorporateActionRow) list \<Rightarrow> CorporateAction list \<Rightarrow> ingest_state" where
  "run_ingest mk now announcements actions =
     (let st = foldl (ingest_one mk now) \<lparr>ig_actions = actions, ig_aborted = False, ig_inserted = 0, ig_updated = 0,
            ig_skipped_unknown = 0, ig_errors = 0\<rparr> announcements
      in if ig_aborted st then st\<lparr>ig_actions := actions\<rparr> else st)"

section \<open>The backward pass computes each price by itself\<close>

definition add_factor :: "dec \<times> dec \<Rightarrow> adjustment \<Rightarrow> dec \<times> dec" where
  "add_factor f a = (fst f * fst (snd a), snd f * fst (snd a) + snd (snd a))"

lemma cross_events_while:
  "cross_events d f adjs = (foldl add_factor f (takeWhile (\<lambda>a. d < fst a) adjs), dropWhile (\<lambda>a. d < fst a) adjs)"
proof (induction adjs arbitrary: f)
  case Nil
  then show ?case by (cases f) simp
next
  case (Cons a adjs)
  then show ?case by (cases f; cases a) (auto simp: add_factor_def)
qed

lemma sorted_desc_while:
  fixes adjs :: "adjustment list"
  assumes "sorted_wrt (\<lambda>a b. fst b \<le> fst a) adjs"
  shows "takeWhile (\<lambda>a. d < fst a) adjs = filter (\<lambda>a. d < fst a) adjs" (is "takeWhile ?P _ = _")
  using assms
proof (induction adjs)
  case (Cons a adjs)
  show ?case
  proof (cases "?P a")
    case False
    have "\<not> ?P x" if "x \<in> set adjs" for x
    proof -
      have "fst x \<le> fst a" using Cons.prems that by simp
      with False show ?thesis by linarith
    qed
    then have "filter ?P adjs = []" by (simp add: filter_empty_conv)
    with False show ?thesis by simp
  qed (use Cons in simp)
qed simp

definition factors_after :: "date \<Rightarrow> adjustment list \<Rightarrow> dec \<times> dec" where
  "factors_after d adjs = foldl add_factor (Dec 1, Dec 0) (filter (\<lambda>a. d < fst a) adjs)"

definition adjust_row :: "adjustment list \<Rightarrow> PriceRow \<Rightarrow> ingest_error + PriceRow" where
  "adjust_row adjs r = bind_r (adjust_close (pr_close r) (factors_after (pr_date r) adjs))
     (\<lambda>v. Inr (r\<lparr>pr_adjusted_close := Some v\<rparr>))"

lemma backward_pass_rows:
  assumes "sorted_wrt (\<lambda>a b. fst b \<le> fst a) (before @ rest)" "sorted_wrt (\<lambda>r s. pr_date s \<le> pr_date r) rs"
    and "f = foldl add_factor (Dec 1, Dec 0) before" "\<forall>a\<in>set before. \<forall>r\<in>set rs. pr_date r < fst a"
  shows "backward_pass f rest rs = collect_r (map (adjust_row (before @ rest)) rs)"
  using assms
proof (induction rs arbitrary: f before rest)
  case (Cons r rs)
  let ?P = "\<lambda>a. pr_date r < fst a"
  let ?now = "takeWhile ?P rest"
  have split: "before @ rest = (before @ ?now) @ dropWhile ?P rest" by simp
  have all: "filter ?P (before @ rest) = before @ ?now"
    using Cons.prems(1,4) by (auto simp: sorted_desc_while sorted_wrt_append)
  have f': "foldl add_factor f ?now = foldl add_factor (Dec 1, Dec 0) (before @ ?now)" by (simp add: Cons.prems(3))
  then have this_row: "factors_after (pr_date r) (before @ rest) = foldl add_factor f ?now" unfolding factors_after_def all by simp
  have later: "\<forall>a\<in>set (before @ ?now). \<forall>s\<in>set rs. pr_date s < fst a"
    using Cons.prems(2,4) by (fastforce dest: set_takeWhileD)
  have "backward_pass (foldl add_factor f ?now) (dropWhile ?P rest) rs
      = collect_r (map (adjust_row ((before @ ?now) @ dropWhile ?P rest)) rs)"
    by (rule Cons.IH) (use Cons.prems(1,2) f' later in auto)
  then have rest: "backward_pass (foldl add_factor f ?now) (dropWhile ?P rest) rs = collect_r (map (adjust_row (before @ rest)) rs)"
    by (simp only: split [symmetric])
  show ?case
    by (cases "adjust_close (pr_close r) (foldl add_factor f ?now)")
      (simp_all add: cross_events_while rest adjust_row_def [of _ r] this_row)
qed simp

text \<open>
  The reference: the price of a day needs the events after it, newest first; each event multiplies
  the factor and the sum of dividends so far.
\<close>

definition adjustment_of :: "CorporateEvent \<Rightarrow> dec \<times> dec" where
  "adjustment_of e = (case event_to_adjustment e of Inr f \<Rightarrow> f | Inl _ \<Rightarrow> (Dec 1, Dec 0))"

definition reference_factors :: "CorporateEvent list \<Rightarrow> date \<Rightarrow> dec \<times> dec" where
  "reference_factors events d =
     factors_after d (map (\<lambda>e. (ev_ex_date e, adjustment_of e)) (sort_key_desc ev_ex_date events))"

definition reference_price :: "CorporateEvent list \<Rightarrow> date \<Rightarrow> dec \<Rightarrow> dec" where
  "reference_price events d close =
     quantize_half_up 4 (max (close * fst (reference_factors events d) - snd (reference_factors events d)) (Dec (1 / 100)))"

lemma adjust_close_Inr: "adjust_close c f = Inr v \<Longrightarrow> v = quantize_half_up 4 (max (c * fst f - snd f) (Dec (1 / 100)))"
  by (simp add: adjust_close_def Let_def split: if_splits)

lemma dated_adjustment_Inr: "dated_adjustment e = Inr a \<Longrightarrow> a = (ev_ex_date e, adjustment_of e)"
  by (auto simp: dated_adjustment_def adjustment_of_def bind_r_Inr_iff)

lemma map_Inr_eq: "map f xs = map Inr ys \<Longrightarrow> (\<And>x y. f x = Inr y \<Longrightarrow> y = g x) \<Longrightarrow> ys = map g xs"
  by (induction xs arbitrary: ys) (auto simp: Cons_eq_map_conv)

lemma rev_sorted_dates: "sorted_wrt (\<lambda>r s. pr_date s \<le> pr_date r) (rev (sort_key pr_date prices))"
proof -
  have "sorted (map pr_date (sort_key pr_date prices))" by simp
  then show ?thesis by (simp add: sorted_wrt_rev sorted_map)
qed

text \<open>The optimised pass is the row by row reference; it raises exactly when a row or an event does.\<close>

lemma compute_adjusted_prices_rows:
  assumes "collect_r (map dated_adjustment (sort_key_desc ev_ex_date events)) = Inr adjs"
  shows "compute_adjusted_prices prices events =
    bind_r (collect_r (map (adjust_row adjs) (rev (sort_key pr_date prices)))) (\<lambda>out. Inr (rev out))"
proof -
  have adjs: "adjs = map (\<lambda>e. (ev_ex_date e, adjustment_of e)) (sort_key_desc ev_ex_date events)"
    by (rule map_Inr_eq [where f = dated_adjustment]) (use assms dated_adjustment_Inr in \<open>auto simp: collect_r_Inr_iff\<close>)
  have "sorted_wrt (\<lambda>a b. fst b \<le> fst a) ([] @ adjs)"
    using sort_key_desc_sorted [of ev_ex_date events] by (simp add: adjs sorted_wrt_map)
  from backward_pass_rows [OF this rev_sorted_dates] assms show ?thesis
    by (auto simp: compute_adjusted_prices_def)
qed

lemma compute_adjusted_prices_Inr:
  assumes "compute_adjusted_prices prices events = Inr out"
  shows "out = map (\<lambda>r. r\<lparr>pr_adjusted_close := Some (reference_price events (pr_date r) (pr_close r))\<rparr>) (sort_key pr_date prices)"
proof (cases "prices = []")
  case True
  then show ?thesis using assms by (simp add: compute_adjusted_prices_def)
next
  case False
  then obtain adjs where c: "collect_r (map dated_adjustment (sort_key_desc ev_ex_date events)) = Inr adjs"
    using assms by (auto simp: compute_adjusted_prices_def bind_r_Inr_iff)
  have adjs: "adjs = map (\<lambda>e. (ev_ex_date e, adjustment_of e)) (sort_key_desc ev_ex_date events)"
    by (rule map_Inr_eq [where f = dated_adjustment]) (use c dated_adjustment_Inr in \<open>auto simp: collect_r_Inr_iff\<close>)
  obtain out' where out: "collect_r (map (adjust_row adjs) (rev (sort_key pr_date prices))) = Inr out'" "out = rev out'"
    using assms by (auto simp: compute_adjusted_prices_rows [OF c] bind_r_Inr_iff)
  have "out' = map (\<lambda>r. r\<lparr>pr_adjusted_close := Some (reference_price events (pr_date r) (pr_close r))\<rparr>) (rev (sort_key pr_date prices))"
  proof (rule map_Inr_eq)
    show "map (adjust_row adjs) (rev (sort_key pr_date prices)) = map Inr out'" using out(1) by (simp only: collect_r_Inr_iff)
    show "y = x\<lparr>pr_adjusted_close := Some (reference_price events (pr_date x) (pr_close x))\<rparr>" if "adjust_row adjs x = Inr y" for x y
      using that by (auto simp: adjust_row_def bind_r_Inr_iff reference_price_def reference_factors_def adjs dest: adjust_close_Inr)
  qed
  then show ?thesis by (simp add: out(2) rev_map)
qed

section \<open>What is written\<close>

text \<open>A float that fits the column was that of a price that fits, and comes back as the price.\<close>

lemma to_column_price:
  assumes "to_column (flt_of_dec d) = Inr v" "places 4 (dval d)"
  shows "v = d" "\<bar>dval d\<bar> < 10 ^ 8"
proof -
  have v: "v = Dec (qz_up 4 (fval (flt_of_dec d)))" "\<bar>qz_up 4 (fval (flt_of_dec d))\<bar> < 10 ^ 8"
    using assms(1) by (auto simp: to_column_def Let_def split: if_splits)
  have big: "fl64 (10 ^ 8) = 10 ^ 8" using flt_r.exact_int [of "10 ^ 8"] by simp
  have q: "qz_up 4 (10 ^ 8) = 10 ^ 8" by (rule qz_fixed) (simp add: places_def)
  show small: "\<bar>dval d\<bar> < 10 ^ 8"
  proof (rule ccontr)
    assume "\<not> ?thesis"
    then have "10 ^ 8 \<le> \<bar>dval d\<bar>" by simp
    then have "10 ^ 8 \<le> fl64 \<bar>dval d\<bar>" using flt_r.ge_fixed [OF big] by simp
    then have "10 ^ 8 \<le> qz_up 4 (fl64 \<bar>dval d\<bar>)" using qz_up.ge_fixed [OF q] by simp
    then show False using v(2) by (simp add: flt_of_dec_def flt_def flt_r.abs_rd qz_up.abs_rd)
  qed
  show "v = d" using stored_float [OF assms(2) small] by (simp add: v(1) dec_eq_iff)
qed

lemma to_column_fits: "places 4 (dval d) \<Longrightarrow> \<bar>dval d\<bar> < 10 ^ 8 \<Longrightarrow> to_column (flt_of_dec d) = Inr d"
  using stored_float [of d] by (simp add: to_column_def Let_def dec_eq_iff)

definition put_adjusted :: "string \<Rightarrow> (date \<Rightarrow> dec option) \<Rightarrow> OhlcvDaily \<Rightarrow> OhlcvDaily" where
  "put_adjusted symb f x =
     (if o_symbol x = symb then case f (o_date x) of Some v \<Rightarrow> x\<lparr>o_adjusted_close := Some v\<rparr> | None \<Rightarrow> x else x)"

definition written :: "PriceRow list \<Rightarrow> date \<Rightarrow> dec option" where
  "written ps = map_of (map (\<lambda>p. (pr_date p, the (pr_adjusted_close p))) ps)"

definition priced :: "PriceRow \<Rightarrow> bool" where
  "priced p \<longleftrightarrow> (\<exists>v. pr_adjusted_close p = Some v \<and> places 4 (dval v))"

lemma write_rows_put:
  assumes "list_all priced ps" "distinct (map pr_date ps)"
    and "write_rows symb ps rows = Inr rows'"
  shows "rows' = map (put_adjusted symb (written ps)) rows"
  using assms
proof (induction ps arbitrary: rows)
  case Nil
  have "put_adjusted symb (written []) = id" by (rule ext) (simp add: put_adjusted_def written_def)
  with Nil.prems show ?case by simp
next
  case (Cons p ps)
  obtain v where v: "pr_adjusted_close p = Some v" "places 4 (dval v)" using Cons.prems(1) by (auto simp: priced_def)
  have w: "write_rows symb ps (update_row symb (pr_date p) v rows) = Inr rows'"
    using Cons.prems(3) v to_column_price(1) [OF _ v(2)] by (auto simp: bind_r_Inr_iff)
  have "rows' = map (put_adjusted symb (written ps)) (update_row symb (pr_date p) v rows)"
    by (rule Cons.IH) (use Cons.prems(1,2) w in simp_all)
  moreover have "written ps (pr_date p) = None"
    using Cons.prems(2) by (auto simp: written_def map_of_eq_None_iff)
  ultimately show ?case by (auto simp: update_row_def put_adjusted_def written_def v split: option.splits)
qed

definition unique_days :: "OhlcvDaily list \<Rightarrow> bool" where
  "unique_days rows \<longleftrightarrow> distinct (map (\<lambda>x. (o_symbol x, o_date x)) rows)"

lemma map_filter_prices: "List.map_filter price_row xs =
   map (\<lambda>x. \<lparr>pr_date = o_date x, pr_close = the (o_close x), pr_adjusted_close = None\<rparr>) (filter (\<lambda>x. o_close x \<noteq> None) xs)"
  by (induction xs) (auto simp: List.map_filter_def price_row_def)

lemma fetch_prices_distinct:
  assumes "unique_days (ohlcv_rows mk)"
  shows "distinct (map pr_date (fetch_prices mk symb))"
proof -
  let ?xs = "filter (\<lambda>x. o_close x \<noteq> None) (sort_key o_date (filter (\<lambda>x. o_symbol x = symb) (ohlcv_rows mk)))"
  have "inj_on o_date (set ?xs)"
    using assms by (auto simp: unique_days_def inj_on_def distinct_map)
  moreover have "distinct ?xs" using assms by (simp add: unique_days_def distinct_map)
  ultimately show ?thesis by (simp add: fetch_prices_def map_filter_prices o_def distinct_map)
qed

lemma fetch_prices_sorted: "sort_key pr_date (fetch_prices mk symb) = fetch_prices mk symb"
proof (rule sort_key_id_if_sorted)
  have "sorted (map o_date (sort_key o_date (filter (\<lambda>x. o_symbol x = symb) (ohlcv_rows mk))))" by simp
  then have "sorted (map o_date (filter (\<lambda>x. o_close x \<noteq> None) (sort_key o_date (filter (\<lambda>x. o_symbol x = symb) (ohlcv_rows mk)))))"
    by (rule sorted_filter)
  then show "sorted (map pr_date (fetch_prices mk symb))" by (simp add: fetch_prices_def map_filter_prices o_def)
qed

text \<open>What a recomputation leaves: every row of the symbol that has a close has its reference price.\<close>

definition readjusted :: "CorporateEvent list \<Rightarrow> string \<Rightarrow> OhlcvDaily \<Rightarrow> OhlcvDaily" where
  "readjusted events symb x =
     (if o_symbol x = symb
      then case o_close x of Some c \<Rightarrow> x\<lparr>o_adjusted_close := Some (reference_price events (o_date x) c)\<rparr> | None \<Rightarrow> x
      else x)"

lemma places_reference [simp]: "places 4 (dval (reference_price events d c))"
  by (simp add: reference_price_def)

lemma put_readjusted:
  assumes "unique_days (ohlcv_rows mk)" "x \<in> set (ohlcv_rows mk)"
    and "ps = map (\<lambda>r. r\<lparr>pr_adjusted_close := Some (reference_price events (pr_date r) (pr_close r))\<rparr>) (fetch_prices mk symb)"
  shows "put_adjusted symb (written ps) x = readjusted events symb x"
proof -
  let ?kvs = "map (\<lambda>p. (pr_date p, reference_price events (pr_date p) (pr_close p))) (fetch_prices mk symb)"
  have w: "written ps = map_of ?kvs" by (simp add: written_def assms(3) o_def)
  have mem: "r \<in> set (fetch_prices mk symb) \<longleftrightarrow>
    (\<exists>y\<in>set (ohlcv_rows mk). o_symbol y = symb \<and> (\<exists>c. o_close y = Some c \<and> r = \<lparr>pr_date = o_date y, pr_close = c, pr_adjusted_close = None\<rparr>))" for r
    by (auto simp: fetch_prices_def map_filter_prices)
  have same: "y = x" if "y \<in> set (ohlcv_rows mk)" "o_symbol y = o_symbol x" "o_date y = o_date x" for y
    using assms(1,2) that by (auto simp: unique_days_def distinct_map dest: inj_onD)
  show ?thesis
  proof (cases "o_symbol x = symb")
    case True
    show ?thesis
    proof (cases "o_close x")
      case None
      have "o_date x \<notin> pr_date ` set (fetch_prices mk symb)"
      proof
        assume "o_date x \<in> pr_date ` set (fetch_prices mk symb)"
        then obtain y c where "y \<in> set (ohlcv_rows mk)" "o_symbol y = symb" "o_close y = Some c" "o_date y = o_date x"
          by (auto simp: mem)
        then show False using same [of y] True None by simp
      qed
      then have "map_of ?kvs (o_date x) = None" by (simp add: map_of_eq_None_iff image_image)
      then show ?thesis using True None by (simp add: put_adjusted_def readjusted_def w)
    next
      case (Some c)
      have "\<lparr>pr_date = o_date x, pr_close = c, pr_adjusted_close = None\<rparr> \<in> set (fetch_prices mk symb)"
        using assms(2) True Some by (auto simp: mem)
      then have "(o_date x, reference_price events (o_date x) c) \<in> set ?kvs" by force
      moreover have "distinct (map fst ?kvs)" using fetch_prices_distinct [OF assms(1)] by (simp add: o_def)
      ultimately have "map_of ?kvs (o_date x) = Some (reference_price events (o_date x) c)" by (simp only: map_of_eq_Some_iff)
      then show ?thesis using True Some by (simp add: put_adjusted_def readjusted_def w)
    qed
  qed (simp add: put_adjusted_def readjusted_def)
qed

lemma recompute_symbol_Inr:
  assumes "unique_days (ohlcv_rows mk)" "recompute_symbol actions symb mk = Inr (n, mk')"
  shows "mk' = mk\<lparr>ohlcv_rows := map (readjusted (fetch_events actions symb) symb) (ohlcv_rows mk)\<rparr>"
    and "n = length (fetch_prices mk symb)"
proof -
  let ?ev = "fetch_events actions symb"
  have "mk' = mk\<lparr>ohlcv_rows := map (readjusted ?ev symb) (ohlcv_rows mk)\<rparr> \<and> n = length (fetch_prices mk symb)"
  proof (cases "fetch_prices mk symb = []")
    case True
    then have none: "o_symbol x \<noteq> symb \<or> o_close x = None" if "x \<in> set (ohlcv_rows mk)" for x
      using that by (auto simp: fetch_prices_def map_filter_prices filter_empty_conv)
    have "map (readjusted ?ev symb) (ohlcv_rows mk) = ohlcv_rows mk"
      by (rule map_idI) (use none in \<open>auto simp: readjusted_def\<close>)
    then show ?thesis using assms(2) True by (simp add: recompute_symbol_def)
  next
    case False
    then obtain ps where ps: "compute_adjusted_prices (fetch_prices mk symb) ?ev = Inr ps"
      and w: "write_adjusted_prices symb ps mk = Inr (n, mk')"
      using assms(2) by (auto simp: recompute_symbol_def Let_def bind_r_Inr_iff)
    have ps': "ps = map (\<lambda>r. r\<lparr>pr_adjusted_close := Some (reference_price ?ev (pr_date r) (pr_close r))\<rparr>) (fetch_prices mk symb)"
      using compute_adjusted_prices_Inr [OF ps] by (simp only: fetch_prices_sorted)
    obtain rows where rows: "write_rows symb ps (ohlcv_rows mk) = Inr rows" "mk' = mk\<lparr>ohlcv_rows := rows\<rparr>" "n = length ps"
      using w False by (auto simp: write_adjusted_prices_def ps' bind_r_Inr_iff)
    have "rows = map (put_adjusted symb (written ps)) (ohlcv_rows mk)"
    proof (rule write_rows_put [OF _ _ rows(1)])
      show "list_all priced ps" by (simp add: ps' list_all_iff priced_def)
      show "distinct (map pr_date ps)" using fetch_prices_distinct [OF assms(1)] by (simp add: ps' o_def)
    qed
    also have "\<dots> = map (readjusted ?ev symb) (ohlcv_rows mk)"
      by (rule map_cong [OF refl], rule put_readjusted [OF assms(1) _ ps'])
    finally show ?thesis using rows by (simp add: ps')
  qed
  then show "mk' = mk\<lparr>ohlcv_rows := map (readjusted ?ev symb) (ohlcv_rows mk)\<rparr>" "n = length (fetch_prices mk symb)"
    by auto
qed

section \<open>On well formed events the recomputation succeeds\<close>

definition action_ok :: "CorporateAction \<Rightarrow> bool" where
  "action_ok c \<longleftrightarrow> pred_option (\<lambda>a. 0 \<le> dval a) (ca_amount_per_share c)
     \<and> pred_option (\<lambda>n. 0 \<le> n) (ca_ratio_numerator c) \<and> pred_option (\<lambda>n. 0 \<le> n) (ca_ratio_denominator c)"

definition factor_ok :: "dec \<times> dec \<Rightarrow> bool" where
  "factor_ok f \<longleftrightarrow> 0 \<le> dval (fst f) \<and> dval (fst f) \<le> 1 \<and> 0 \<le> dval (snd f)"

lemma dec28_1 [simp]: "dec28 1 = 1"
  using dec_r.exact_int [of 1] by simp

lemma event_to_adjustment_ok:
  assumes "action_ok c"
  obtains f where "event_to_adjustment (event_of c) = Inr f" "factor_ok f"
proof -
  have ratio: "factor_ok (Dec (of_int den) / Dec (of_int (den + num)), Dec 0)" if "0 < den" "0 \<le> num" for den num :: int
  proof -
    have "0 \<le> (of_int den / of_int (den + num) :: rat)" "(of_int den / of_int (den + num) :: rat) \<le> 1"
      using that by (auto simp: divide_le_eq)
    then show ?thesis using dec_r.nonneg dec_r.le_fixed [OF dec28_1] by (simp add: factor_ok_def)
  qed
  have "\<exists>f. event_to_adjustment (event_of c) = Inr f \<and> factor_ok f"
  proof (cases "\<exists>num den. ev_ratio_numerator (event_of c) = Some num \<and> ev_ratio_denominator (event_of c) = Some den")
    case True
    then obtain num den where nd: "ca_ratio_numerator c = Some num" "ca_ratio_denominator c = Some den" "num \<noteq> 0" "den \<noteq> 0"
      by (auto simp: event_of_def nonzero_def split: if_splits)
    then have "0 < den" "0 < num" using assms by (auto simp: action_ok_def)
    then show ?thesis using ratio [of den num] nd assms
      by (auto simp: event_to_adjustment_def event_of_def nonzero_def factor_ok_def action_ok_def split: option.splits)
  next
    case False
    then show ?thesis using assms
      by (auto simp: event_to_adjustment_def factor_ok_def action_ok_def event_of_def nonzero_def split: option.splits)
  qed
  then show thesis using that by blast
qed

lemma add_factor_ok: "factor_ok f \<Longrightarrow> factor_ok (snd a) \<Longrightarrow> factor_ok (add_factor f a)"
  using dec_r.le_fixed [OF dec28_1] mult_le_one
  by (auto simp: factor_ok_def add_factor_def intro!: dec_r.nonneg add_nonneg_nonneg)

lemma factors_after_ok: "list_all (\<lambda>a. factor_ok (snd a)) adjs \<Longrightarrow> factor_ok (factors_after d adjs)"
proof -
  have "factor_ok f \<Longrightarrow> list_all (\<lambda>a. factor_ok (snd a)) as \<Longrightarrow> factor_ok (foldl add_factor f as)" for f as
    by (induction as arbitrary: f) (auto simp: add_factor_ok)
  then show "list_all (\<lambda>a. factor_ok (snd a)) adjs \<Longrightarrow> ?thesis"
    by (simp add: factors_after_def list_all_iff) (simp add: factor_ok_def)
qed

lemma numeric_dec28: "numeric 12 4 c \<Longrightarrow> dec28 (dval c) = dval c"
  by (rule dec28_places [of 4]) (auto simp: numeric_def)

lemma adjusted_between:
  assumes "numeric 12 4 c" "0 \<le> dval c" "factor_ok f"
  shows "Dec (1 / 100) \<le> quantize_half_up 4 (max (c * fst f - snd f) (Dec (1 / 100)))"
    and "quantize_half_up 4 (max (c * fst f - snd f) (Dec (1 / 100))) \<le> max c (Dec (1 / 100))"
proof -
  have q: "qz_up 4 (1 / 100) = 1 / 100" "qz_up 4 (dval c) = dval c"
    by (rule qz_fixed; use assms(1) in \<open>simp add: numeric_def places_def\<close>)+
  have "dval c * dval (fst f) \<le> dval c" using assms(2,3) by (simp add: factor_ok_def mult_left_le)
  then have "dec28 (dval c * dval (fst f)) \<le> dval c" using dec_r.le_fixed [OF numeric_dec28 [OF assms(1)]] by simp
  then have "dec28 (dval c * dval (fst f)) - dval (snd f) \<le> dval c" using assms(3) by (simp add: factor_ok_def)
  then have le: "dec28 (dec28 (dval c * dval (fst f)) - dval (snd f)) \<le> dval c"
    using dec_r.le_fixed [OF numeric_dec28 [OF assms(1)]] by simp
  show "Dec (1 / 100) \<le> quantize_half_up 4 (max (c * fst f - snd f) (Dec (1 / 100)))"
    using qz_up.ge_fixed [OF q(1)] by (simp add: dec_le_iff dval_max)
  have m: "qz_up 4 (max (dval c) (1 / 100)) = max (dval c) (1 / 100)" using q by (simp add: max_def)
  have "max (dec28 (dec28 (dval c * dval (fst f)) - dval (snd f))) (1 / 100) \<le> max (dval c) (1 / 100)" using le by simp
  then show "quantize_half_up 4 (max (c * fst f - snd f) (Dec (1 / 100))) \<le> max c (Dec (1 / 100))"
    using qz_up.le_fixed [OF m] by (simp add: dec_le_iff dval_max)
qed

definition closes_ok :: "OhlcvDaily list \<Rightarrow> bool" where
  "closes_ok rows \<longleftrightarrow> list_all (\<lambda>x. pred_option (\<lambda>c. numeric 12 4 c \<and> 0 \<le> dval c) (o_close x)) rows"

lemma adjustments_of_ok:
  assumes "list_all action_ok actions"
  shows "collect_r (map dated_adjustment (sort_key_desc ev_ex_date (fetch_events actions symb)))
      = Inr (map (\<lambda>e. (ev_ex_date e, adjustment_of e)) (sort_key_desc ev_ex_date (fetch_events actions symb)))"
    and "factor_ok (reference_factors (fetch_events actions symb) d)"
proof -
  have ev: "dated_adjustment e = Inr (ev_ex_date e, adjustment_of e) \<and> factor_ok (adjustment_of e)"
    if e: "e \<in> set (fetch_events actions symb)" for e
  proof -
    obtain c where "action_ok c" "e = event_of c" using e assms by (auto simp: fetch_events_def list_all_iff)
    then show ?thesis by (auto intro: event_to_adjustment_ok [of c] simp: dated_adjustment_def adjustment_of_def)
  qed
  then show "collect_r (map dated_adjustment (sort_key_desc ev_ex_date (fetch_events actions symb)))
      = Inr (map (\<lambda>e. (ev_ex_date e, adjustment_of e)) (sort_key_desc ev_ex_date (fetch_events actions symb)))"
    by (simp add: collect_r_Inr_iff)
  show "factor_ok (reference_factors (fetch_events actions symb) d)"
    unfolding reference_factors_def by (rule factors_after_ok) (use ev in \<open>simp add: list_all_iff\<close>)
qed

lemma reference_price_between:
  assumes "list_all action_ok actions" "numeric 12 4 c" "0 \<le> dval c"
  shows "Dec (1 / 100) \<le> reference_price (fetch_events actions symb) d c"
    and "reference_price (fetch_events actions symb) d c \<le> max c (Dec (1 / 100))"
  using adjusted_between [OF assms(2,3) adjustments_of_ok(2) [OF assms(1)]] by (simp_all add: reference_price_def)

lemma adjust_row_fits:
  assumes "list_all action_ok actions" "numeric 12 4 (pr_close r)" "0 \<le> dval (pr_close r)"
  shows "adjust_row (map (\<lambda>e. (ev_ex_date e, adjustment_of e)) (sort_key_desc ev_ex_date (fetch_events actions symb))) r
    = Inr (r\<lparr>pr_adjusted_close := Some (reference_price (fetch_events actions symb) (pr_date r) (pr_close r))\<rparr>)"
proof -
  let ?p = "reference_price (fetch_events actions symb) (pr_date r) (pr_close r)"
  have "0 \<le> dval ?p" "dval ?p \<le> max (dval (pr_close r)) (1 / 100)"
    using reference_price_between [OF assms, of symb "pr_date r"] by (auto simp: dec_le_iff dval_max)
  moreover have "dval (pr_close r) < 10 ^ 8" using assms(2,3) by (simp add: numeric_def)
  ultimately have "\<bar>dval ?p\<bar> * 10 ^ 4 < 10 ^ 28" by simp
  then show ?thesis
    by (simp add: adjust_row_def adjust_close_def Let_def reference_price_def reference_factors_def)
qed

lemma write_rows_fits:
  assumes "list_all (\<lambda>p. priced p \<and> \<bar>dval (the (pr_adjusted_close p))\<bar> < 10 ^ 8) ps"
  shows "is_ok (write_rows symb ps rows)"
  using assms by (induction ps arbitrary: rows) (auto simp: priced_def to_column_fits)

lemma recompute_symbol_fits:
  assumes "list_all action_ok actions" "closes_ok (ohlcv_rows mk)"
  shows "is_ok (recompute_symbol actions symb mk)"
proof (cases "fetch_prices mk symb = []")
  case False
  let ?ev = "fetch_events actions symb"
  let ?out = "map (\<lambda>r. r\<lparr>pr_adjusted_close := Some (reference_price ?ev (pr_date r) (pr_close r))\<rparr>) (fetch_prices mk symb)"
  have close: "numeric 12 4 (pr_close r) \<and> 0 \<le> dval (pr_close r)" if r: "r \<in> set (fetch_prices mk symb)" for r
    using assms(2) r by (fastforce simp: fetch_prices_def map_filter_prices closes_ok_def list_all_iff)
  have "map (adjust_row (map (\<lambda>e. (ev_ex_date e, adjustment_of e)) (sort_key_desc ev_ex_date ?ev))) (rev (fetch_prices mk symb))
      = map Inr (rev ?out)"
    using close by (simp add: rev_map adjust_row_fits [OF assms(1)])
  then have c: "compute_adjusted_prices (fetch_prices mk symb) ?ev = Inr ?out"
    using compute_adjusted_prices_rows [OF adjustments_of_ok(1) [OF assms(1), of symb], of "fetch_prices mk symb"]
    by (simp add: fetch_prices_sorted collect_r_Inr_iff [THEN iffD2])
  have "is_ok (write_rows symb ?out (ohlcv_rows mk))"
  proof (rule write_rows_fits)
    have "\<bar>dval (reference_price ?ev (pr_date r) (pr_close r))\<bar> < 10 ^ 8" if "r \<in> set (fetch_prices mk symb)" for r
      using reference_price_between [OF assms(1), of "pr_close r" symb "pr_date r"] close [OF that]
      by (auto simp: dec_le_iff dval_max numeric_def max_def split: if_splits)
    then show "list_all (\<lambda>p. priced p \<and> \<bar>dval (the (pr_adjusted_close p))\<bar> < 10 ^ 8) ?out"
      by (simp add: list_all_iff priced_def)
  qed
  then show ?thesis using False by (simp add: recompute_symbol_def Let_def c write_adjusted_prices_def is_ok_bind)
qed (simp add: recompute_symbol_def)

lemma readjusted_simps [simp]:
  "o_symbol (readjusted ev symb x) = o_symbol x" "o_date (readjusted ev symb x) = o_date x" "o_close (readjusted ev symb x) = o_close x"
  "readjusted ev symb (readjusted ev symb x) = readjusted ev symb x"
  by (auto simp: readjusted_def split: option.splits)

lemma fetch_prices_readjusted:
  "fetch_prices (mk\<lparr>ohlcv_rows := map (readjusted ev symb') (ohlcv_rows mk)\<rparr>) symb = fetch_prices mk symb"
  by (simp add: fetch_prices_def map_filter_prices filter_map o_def sort_key_map)

lemma reference_price_latest:
  assumes "numeric 12 4 c" "1 / 100 \<le> dval c" "list_all (\<lambda>e. ev_ex_date e \<le> d) events"
  shows "reference_price events d c = c"
proof -
  have "filter (\<lambda>a. d < fst a) (map (\<lambda>e. (ev_ex_date e, adjustment_of e)) (sort_key_desc ev_ex_date events)) = []"
    using assms(3) by (auto simp: filter_empty_conv list_all_iff)
  then have f: "reference_factors events d = (Dec 1, Dec 0)" by (simp only: reference_factors_def factors_after_def foldl.simps)
  have "qz_up 4 (dval c) = dval c" using assms(1) by (intro qz_fixed) (simp add: numeric_def)
  then show ?thesis using assms(2) by (simp add: reference_price_def f dec_eq_iff dval_max numeric_dec28 [OF assms(1)])
qed

section \<open>Properties\<close>


definition ex_action :: "string \<Rightarrow> date \<Rightarrow> dec option \<Rightarrow> int option \<Rightarrow> CorporateAction" where
  "ex_action t d amount num = \<lparr>ca_id = d, ca_symbol = ''HBL'', ca_action_type = t, ca_announcement_date = d, ca_ex_date = Some d,
     ca_record_date = None, ca_payment_date = None, ca_amount_per_share = amount, ca_ratio_numerator = num,
     ca_ratio_denominator = num, ca_raw_announcement = None, ca_created_at = 0\<rparr>"

definition ex_price :: "date \<Rightarrow> rat \<Rightarrow> OhlcvDaily" where
  "ex_price d c = \<lparr>o_symbol = ''HBL'', o_date = d, o_open = None, o_high = None, o_low = None, o_close = Some (Dec c),
     o_volume = None, o_value_pkr = None, o_adjusted_close = None\<rparr>"

definition ex_prices :: market_db where
  "ex_prices = \<lparr>security_rows = [], ohlcv_rows = [ex_price 1 200, ex_price 4 95]\<rparr>"

definition ex_split :: CorporateAction where "ex_split = ex_action ''split'' 2 None (Some 1)"
definition ex_dividend :: CorporateAction where "ex_dividend = ex_action ''dividend_cash'' 3 (Some (Dec 5)) None"

lemmas ex_defs = ex_action_def ex_price_def ex_prices_def ex_split_def ex_dividend_def

lemma ex_prices_ok: "unique_days (ohlcv_rows ex_prices)" "closes_ok (ohlcv_rows ex_prices)" "list_all action_ok [ex_split, ex_dividend]"
  by (simp_all add: ex_defs unique_days_def closes_ok_def action_ok_def numeric_def places_def)


text \<open>What adjusting for one event after the other gives, oldest first, as the docstring describes one event.\<close>

definition adjust_stepwise :: "CorporateEvent list \<Rightarrow> dec \<Rightarrow> dec" where
  "adjust_stepwise events close = foldl (\<lambda>p e. p * fst (adjustment_of e) - snd (adjustment_of e)) close events"

text \<open>
  Splits and dividends are combined in the wrong order. A price of 200 before a one-for-one split
  and a later dividend of 5 per new share should become 200 / 2 - 5 = 95, which is what the share traded
  at; the pass also halves the dividend and stores 97.5. With the dividend before the split it does not
  halve it and stores 95 instead of (200 - 5) / 2 = 97.5.
\<close>

lemma dividend_after_split_halved:
  "recompute_symbol [ex_split, ex_dividend] ''HBL'' ex_prices =
     Inr (2, ex_prices\<lparr>ohlcv_rows := [(ex_price 1 200)\<lparr>o_adjusted_close := Some (Dec (195 / 2))\<rparr>,
       (ex_price 4 95)\<lparr>o_adjusted_close := Some (Dec 95)\<rparr>]\<rparr>)
   \<and> adjust_stepwise (fetch_events [ex_split, ex_dividend] ''HBL'') (Dec 200) = Dec 95
   \<and> reference_price (map event_of [ex_action ''dividend_cash'' 2 (Some (Dec 5)) None, ex_action ''split'' 3 None (Some 1)]) 1 (Dec 200) = Dec 95
   \<and> adjust_stepwise (map event_of [ex_action ''dividend_cash'' 2 (Some (Dec 5)) None, ex_action ''split'' 3 None (Some 1)]) (Dec 200) = Dec (195 / 2)"
  by code_simp

section \<open>Storing announcements\<close>

lemma aborted_stays: "ig_aborted st \<Longrightarrow> ig_aborted (foldl (ingest_one mk now) st rs)"
  by (induction rs arbitrary: st) (auto simp: ingest_one_def)

lemma upsert_ServerAbort:
  assumes "int4 (cr_ratio_numerator r)" "int4 (cr_ratio_denominator r)" "amount_column (cr_amount_per_share r) = Inl ServerAbort"
  shows "upsert_action i now r actions = Inl ServerAbort"
  using assms by (simp add: upsert_action_def)

text \<open>
  One amount that is too large loses the whole batch. If the announcements hold an amount of a
  hundred million or more for a known symbol, the run leaves the table as it was: what was inserted
  before and what would have come after is gone, although the summary counts the former as inserted.
\<close>

lemma large_amount_loses_batch:
  assumes "find_security mk (cr_symbol r) \<noteq> None" "cr_amount_per_share r = Some (Dec a)" "10 ^ 8 \<le> a"
    and "int4 (cr_ratio_numerator r)" "int4 (cr_ratio_denominator r)"
  shows "ig_actions (run_ingest mk now (xs @ [(i, r)] @ ys) actions) = actions"
proof -
  have ne: "a \<noteq> 0" using assms(3) by auto
  have big: "fl64 (10 ^ 8) = 10 ^ 8" using flt_r.exact_int [of "10 ^ 8"] by simp
  have q: "qz_up 4 (10 ^ 8) = 10 ^ 8" by (rule qz_fixed) (simp add: places_def)
  have "10 ^ 8 \<le> qz_up 4 (fl64 a)" using qz_up.ge_fixed [OF q flt_r.ge_fixed [OF big assms(3)]] .
  then have "to_column (flt_of_dec (Dec a)) = Inl NumericOverflow"
    by (simp add: to_column_def Let_def flt_of_dec_def flt_def)
  then have col: "amount_column (cr_amount_per_share r) = Inl ServerAbort"
    using assms(2) ne by (simp add: amount_column_def nonzero_def)
  have "ig_aborted (ingest_one mk now st (i, r))" for st
    using assms(1) upsert_ServerAbort [OF assms(4,5) col] by (auto simp: ingest_one_def)
  then have "ig_aborted (foldl (ingest_one mk now) st (xs @ [(i, r)] @ ys))" for st
    by (simp add: aborted_stays)
  then show ?thesis by (simp only: run_ingest_def Let_def if_True) simp
qed

text \<open>Whatever is stored, symbol, kind and announcement date stay unique.\<close>

definition action_key :: "CorporateAction \<Rightarrow> string \<times> string \<times> date" where
  "action_key c = (ca_symbol c, ca_action_type c, ca_announcement_date c)"

lemma upsert_action_unique:
  assumes "distinct (map action_key actions)" "upsert_action i now r actions = Inr (b, actions')"
  shows "distinct (map action_key actions')"
proof -
  have keep: "action_key (if same_action r c then merge_action r v c else c) = action_key c" for v c
    by (simp add: merge_action_def action_key_def)
  have "map action_key (map (\<lambda>c. if same_action r c then merge_action r v c else c) actions) = map action_key actions" for v
    by (simp only: map_map o_def keep)
  moreover have "action_key (new_action i now r v) \<notin> action_key ` set actions" if "\<not> list_ex (same_action r) actions" for v
    using that by (auto simp: list_ex_iff same_action_def action_key_def new_action_def)
  ultimately show ?thesis using assms
    by (auto simp: upsert_action_def bind_r_Inr_iff simp del: map_map split: if_splits)
qed

lemma ingest_one_unique:
  "distinct (map action_key (ig_actions st)) \<Longrightarrow> distinct (map action_key (ig_actions (ingest_one mk now st x)))"
  using upsert_action_unique
  by (auto simp: ingest_one_def split: prod.splits sum.splits bool.splits statement_error.splits)

lemma run_ingest_unique:
  assumes "distinct (map action_key actions)"
  shows "distinct (map action_key (ig_actions (run_ingest mk now xs actions)))"
proof -
  have "distinct (map action_key (ig_actions st)) \<Longrightarrow> distinct (map action_key (ig_actions (foldl (ingest_one mk now) st xs)))" for st
    by (induction xs arbitrary: st) (auto simp: ingest_one_unique)
  then show ?thesis using assms by (simp add: run_ingest_def Let_def)
qed

text \<open>Categories are matched by substring in the order of the table, so an interim stock dividend counts as cash.\<close>

lemma stock_dividend_as_cash: "map_category ''Interim Stock Dividend'' = Some ''dividend_cash''"
  by code_simp

end
