(* ===== verification/Benchmark.thy ===== *)
theory Benchmark
  imports PortfolioSummary Json
begin

text \<open>
  The anonymous comparison with peers. \<^verbatim>\<open>psx_api/benchmark/buckets.py\<close> and
  \<^verbatim>\<open>services/benchmark_service.py\<close> show a user the figures of the group of users with the same profile,
  age and portfolio size; \<^verbatim>\<open>psx_ingest/benchmark/aggregate.py\<close> computes those figures every night from
  the users who agreed to share theirs. The two services share only the table \<^verbatim>\<open>peer_aggregates\<close>.
\<close>

section \<open>Buckets\<close>

definition MIN_BUCKET_SAMPLES :: nat where "MIN_BUCKET_SAMPLES = 5"

definition age_years :: "date \<Rightarrow> date \<Rightarrow> int" where
  "age_years dob today = year_of today - year_of dob
     - (if (month_of today, day_of today) < (month_of dob, day_of dob) then 1 else 0)"

definition age_bucket :: "date option \<Rightarrow> date \<Rightarrow> string" where
  "age_bucket dob today =
     (case dob of None \<Rightarrow> ''unknown''
      | Some d \<Rightarrow> let years = age_years d today
          in if years < 25 then ''18-24'' else if years < 35 then ''25-34''
             else if years < 45 then ''35-44'' else if years < 55 then ''45-54'' else ''55+'')"

definition size_bucket :: "flt option \<Rightarrow> string" where
  "size_bucket value =
     (case value of None \<Rightarrow> ''unknown''
      | Some v \<Rightarrow> if v < flt 100000 then ''<100K'' else if v < flt 500000 then ''100K-500K''
          else if v < flt 2000000 then ''500K-2M'' else if v < flt 10000000 then ''2M-10M'' else ''10M+'')"

definition archetype_bucket :: "string option \<Rightarrow> string" where
  "archetype_bucket a = (case a of Some s \<Rightarrow> if s = [] then ''unknown'' else s | None \<Rightarrow> ''unknown'')"

text \<open>\<^verbatim>\<open>s.title()\<close>: the first letter of every run of letters in upper case, the others in lower case.\<close>

fun title_from :: "bool \<Rightarrow> string \<Rightarrow> string" where
  "title_from inside [] = []"
| "title_from inside (c # cs) = (if inside then char_lower c else char_upper c) # title_from (is_alpha c) cs"

definition middle_dot :: string where "middle_dot = '' '' @ [CHR 0xC2, CHR 0xB7] @ '' ''"

definition bucket_label :: "string \<Rightarrow> string \<Rightarrow> string \<Rightarrow> string" where
  "bucket_label archetype age sz =
     (if archetype = ''unknown'' then ''Unspecified profile''
      else title_from False (map (\<lambda>c. if c = CHR ''_'' then CHR '' '' else c) archetype)) @ middle_dot
     @ (if age = ''unknown'' then ''Unknown age'' else age) @ middle_dot
     @ (if sz = ''unknown'' then ''Unknown portfolio size'' else sz @ '' PKR'')"

definition percentile_rank :: "flt \<Rightarrow> flt list \<Rightarrow> int" where
  "percentile_rank value distribution =
     (if distribution = [] then 50
      else py_round_int (flt (of_nat (length (filter (\<lambda>v. v < value) distribution)) / of_nat (length distribution)) * flt 100))"

section \<open>The table\<close>

text \<open>The JSON columns are lists of objects; a number is the float the reader gets.\<close>

record PeerAggregate =
  pa_archetype :: string
  pa_age_bucket :: string
  pa_size_bucket :: string
  pa_sample_count :: nat
  pa_median_ytd_return_pct :: "dec option"
  pa_top_holdings :: "(string \<times> json) list list"
  pa_sector_allocation :: "(string \<times> json) list list"

definition bucket_key :: "PeerAggregate \<Rightarrow> string \<times> string \<times> string" where
  "bucket_key a = (pa_archetype a, pa_age_bucket a, pa_size_bucket a)"

section \<open>The panel\<close>

record BenchmarkPanel =
  bp_available :: bool
  bp_bucket_label :: "string option"
  bp_sample_count :: nat
  bp_user_ytd_return_pct :: "flt option"
  bp_median_ytd_return_pct :: "flt option"
  bp_percentile_rank :: "int option"
  bp_user_top_sector :: "string option"
  bp_user_top_sector_pct :: "flt option"
  bp_peer_top_sector :: "json option"
  bp_peer_top_sector_pct :: "flt option"
  bp_peer_top_holdings :: "(string \<times> json) list list"
  bp_message :: "string option"

definition empty_panel :: BenchmarkPanel where
  "empty_panel = \<lparr>bp_available = False, bp_bucket_label = None, bp_sample_count = 0, bp_user_ytd_return_pct = None,
     bp_median_ytd_return_pct = None, bp_percentile_rank = None, bp_user_top_sector = None, bp_user_top_sector_pct = None,
     bp_peer_top_sector = None, bp_peer_top_sector_pct = None, bp_peer_top_holdings = [], bp_message = None\<rparr>"

record panel_totals =
  pt_value :: dec
  pt_return :: dec
  pt_invested :: dec
  pt_sectors :: "(string \<times> dec) list"

definition add_portfolio :: "panel_totals \<Rightarrow> PortfolioSummary \<Rightarrow> panel_totals" where
  "add_portfolio t s = \<lparr>pt_value = pt_value t + ps_current_value_pkr s, pt_return = pt_return t + ps_unrealized_pnl_pkr s,
     pt_invested = pt_invested t + ps_total_invested_pkr s,
     pt_sectors = foldl (\<lambda>kvs row. upsert (sa_sector row)
        (\<lambda>old. (case old of None \<Rightarrow> Dec 0 | Some v \<Rightarrow> v) + sa_value_pkr row) kvs) (pt_sectors t) (ps_sector_allocation s)\<rparr>"

text \<open>\<^verbatim>\<open>max(d.items(), key=...)\<close> is the first of the largest.\<close>

definition top_sector :: "panel_totals \<Rightarrow> (string \<times> flt) option" where
  "top_sector t =
     (if pt_sectors t = [] \<or> \<not> Dec 0 < pt_value t then None
      else let (s, v) = hd (sort_key_desc snd (pt_sectors t)) in Some (s, flt_of_dec (v / pt_value t * Dec 100)))"

definition approximate_rank :: "flt \<Rightarrow> flt \<Rightarrow> int" where
  "approximate_rank ytd median =
     (if median < ytd then 60 + min 35 \<lfloor>fval \<bar>ytd - median\<bar>\<rfloor> else max 5 (40 - \<lfloor>fval \<bar>median - ytd\<bar>\<rfloor>))"

text \<open>
  The weight the peers' sectors are sorted by and the subscript of the first: a row without \<^verbatim>\<open>pct\<close> sorts
  as 0 and raises \<^verbatim>\<open>KeyError\<close> when it is read. The column holds numbers only.
\<close>

definition pct_key :: "(string \<times> json) list \<Rightarrow> rat" where
  "pct_key row = (case map_of row ''pct'' of Some (JNum q) \<Rightarrow> q | _ \<Rightarrow> 0)"

definition peer_top :: "(string \<times> json) list list \<Rightarrow> http_error + (json \<times> flt) option" where
  "peer_top rows =
     (case sort_key_desc pct_key rows of
        [] \<Rightarrow> Inr None
      | row # _ \<Rightarrow> (case (map_of row ''sector'', map_of row ''pct'') of
          (Some s, Some (JNum q)) \<Rightarrow> Inr (Some (s, flt q))
        | _ \<Rightarrow> Inl ServerError))"

definition no_portfolio_message :: string where
  "no_portfolio_message = ''You don'' @ apostrophe @ ''t have a portfolio yet. Start tracking trades to see how you compare.''"

definition few_peers_message :: string where
  "few_peers_message = ''Need at least 5 peers in your bucket to show comparisons. Invite friends to join '' @ em_dash
     @ '' anonymized data is opt-in only.''"

definition panel ::
  "portfolio_db \<Rightarrow> market_db \<Rightarrow> PeerAggregate list \<Rightarrow> User \<Rightarrow> date \<Rightarrow> http_error + BenchmarkPanel" where
  "panel db mk aggs user today =
     (let ps = filter (\<lambda>p. pf_user_id p = u_id user) (portfolios db)
      in if ps = [] then Inr (empty_panel\<lparr>bp_message := Some no_portfolio_message\<rparr>)
         else case collect_r (map (\<lambda>p. summary (ledger db) mk (pf_id p) (u_is_filer user) today) ps) of
           Inl _ \<Rightarrow> Inl ServerError
         | Inr ss \<Rightarrow>
           let t = foldl add_portfolio \<lparr>pt_value = Dec 0, pt_return = Dec 0, pt_invested = Dec 0, pt_sectors = []\<rparr> ss;
               ytd_pct = (if Dec 0 < pt_invested t then pt_return t / pt_invested t * Dec 100 else Dec 0);
               ytd = flt_of_dec ytd_pct; top = top_sector t;
               arch = archetype_bucket (u_risk_archetype user); age = age_bucket (u_date_of_birth user) today;
               sz = size_bucket (Some (flt_of_dec (pt_value t)));
               own = empty_panel\<lparr>bp_bucket_label := Some (bucket_label arch age sz), bp_user_ytd_return_pct := Some ytd,
                 bp_user_top_sector := map_option fst top, bp_user_top_sector_pct := map_option snd top\<rparr>
           in case List.find (\<lambda>a. bucket_key a = (arch, age, sz)) aggs of
                None \<Rightarrow> Inr (own\<lparr>bp_message := Some few_peers_message\<rparr>)
              | Some agg \<Rightarrow>
                  if pa_sample_count agg < MIN_BUCKET_SAMPLES
                  then Inr (own\<lparr>bp_sample_count := pa_sample_count agg, bp_message := Some few_peers_message\<rparr>)
                  else let median = map_option flt_of_dec (pa_median_ytd_return_pct agg)
                    in bind_r (peer_top (pa_sector_allocation agg)) (\<lambda>peer.
                      Inr (own\<lparr>bp_available := True, bp_sample_count := pa_sample_count agg, bp_median_ytd_return_pct := median,
                        bp_percentile_rank := map_option (approximate_rank ytd) median,
                        bp_peer_top_sector := map_option fst peer, bp_peer_top_sector_pct := map_option snd peer,
                        bp_peer_top_holdings := pa_top_holdings agg\<rparr>)))"

definition my_benchmark ::
  "portfolio_db \<Rightarrow> market_db \<Rightarrow> PeerAggregate list \<Rightarrow> User \<Rightarrow> date \<Rightarrow> http_error + BenchmarkPanel" where
  "my_benchmark db mk aggs user today = panel db mk aggs user today"

section \<open>The nightly aggregation\<close>

record UserSample =
  us_sample_user :: string
  us_archetype :: string
  us_age_bucket :: string
  us_size_bucket :: string
  us_ytd_return_pct :: "flt option"
  us_top_holdings :: "string list"
  us_sector_allocation :: "(string \<times> flt) list"

definition user_holdings :: "portfolio_db \<Rightarrow> string \<Rightarrow> HoldingsSnapshot list" where
  "user_holdings db uid =
     filter (\<lambda>h. list_ex (\<lambda>p. pf_id p = h_portfolio_id h \<and> pf_user_id p = uid) (portfolios db)) (holdings (ledger db))"

text \<open>
  The lateral join with the latest price row, up to a day: no row drops the holding, a row without a
  close gives \<^verbatim>\<open>NULL\<close>, which the sum ignores.
\<close>

definition joined_values :: "market_db \<Rightarrow> (OhlcvDaily \<Rightarrow> bool) \<Rightarrow> HoldingsSnapshot list \<Rightarrow> (HoldingsSnapshot \<times> rat option) list" where
  "joined_values mk recent hs = concat (map (\<lambda>h.
     case filter recent (newest_first mk (h_symbol h)) of
       [] \<Rightarrow> [] | x # _ \<Rightarrow> [(h, map_option (\<lambda>c. dval (h_quantity h) * dval c) (o_close x))]) hs)"

definition sql_value :: "(HoldingsSnapshot \<times> rat option) list \<Rightarrow> flt" where
  "sql_value rows = flt (sum_list (List.map_filter snd rows))"

text \<open>\<^verbatim>\<open>ORDER BY mv DESC\<close>: the rows without a value come first.\<close>

definition by_value_desc :: "(HoldingsSnapshot \<times> rat option) list \<Rightarrow> (HoldingsSnapshot \<times> rat option) list" where
  "by_value_desc rows = sort_key_desc (\<lambda>r. case snd r of None \<Rightarrow> (1 :: nat, 0) | Some v \<Rightarrow> (0, v)) rows"

definition sector_or_unknown :: "Security \<Rightarrow> string" where
  "sector_or_unknown s = (if sector s = [] then ''unknown'' else sector s)"

definition add_sector_value :: "(string \<times> flt) list \<Rightarrow> string \<times> rat option \<Rightarrow> (string \<times> flt) list" where
  "add_sector_value kvs = (\<lambda>(s, mv). upsert s (\<lambda>old. (case old of None \<Rightarrow> 0 | Some v \<Rightarrow> v)
     + (case mv of None \<Rightarrow> 0 | Some q \<Rightarrow> flt q)) kvs)"

record portfolio_shape =
  sh_market_value_pkr :: "flt option"
  sh_ytd_return_pct :: "flt option"
  sh_top_holdings :: "string list"
  sh_sector_allocation :: "(string \<times> flt) list"

definition summarise_portfolio :: "portfolio_db \<Rightarrow> market_db \<Rightarrow> string \<Rightarrow> date \<Rightarrow> portfolio_shape" where
  "summarise_portfolio db mk uid today =
     (let hs = user_holdings db uid; market_value = sql_value (joined_values mk (\<lambda>_. True) hs)
      in if market_value \<le> 0
         then \<lparr>sh_market_value_pkr = None, sh_ytd_return_pct = None, sh_top_holdings = [], sh_sector_allocation = []\<rparr>
         else
           let jan1 = mk_date (year_of today) 1 1; jan1_value = sql_value (joined_values mk (\<lambda>x. o_date x \<le> jan1) hs);
               ytd = (if 0 < jan1_value then Some (py_round 4 ((market_value - jan1_value) / jan1_value * flt 100)) else None);
               rows = by_value_desc (filter (\<lambda>(h, _). find_security mk (h_symbol h) \<noteq> None) (joined_values mk (\<lambda>_. True) hs));
               sectors = foldl add_sector_value []
                 (map (\<lambda>(h, mv). (sector_or_unknown (the (find_security mk (h_symbol h))), mv)) rows)
           in \<lparr>sh_market_value_pkr = Some market_value, sh_ytd_return_pct = ytd,
               sh_top_holdings = map (\<lambda>(h, _). h_symbol h) (take 10 rows),
               sh_sector_allocation = map (\<lambda>(s, mv). (s, py_round 2 (mv / market_value * flt 100))) sectors\<rparr>)"

definition sample_of :: "portfolio_db \<Rightarrow> market_db \<Rightarrow> date \<Rightarrow> User \<Rightarrow> UserSample" where
  "sample_of db mk today u =
     (let p = summarise_portfolio db mk (u_id u) today
      in \<lparr>us_sample_user = u_id u, us_archetype = (case u_risk_archetype u of Some a \<Rightarrow> a | None \<Rightarrow> ''unknown''),
          us_age_bucket = age_bucket (u_date_of_birth u) today, us_size_bucket = size_bucket (sh_market_value_pkr p),
          us_ytd_return_pct = sh_ytd_return_pct p, us_top_holdings = sh_top_holdings p,
          us_sector_allocation = sh_sector_allocation p\<rparr>)"

definition load_samples :: "User list \<Rightarrow> portfolio_db \<Rightarrow> market_db \<Rightarrow> date \<Rightarrow> UserSample list" where
  "load_samples us db mk today = map (sample_of db mk today) (filter u_share_anonymously us)"

text \<open>\<^verbatim>\<open>statistics.median\<close> of a list that is not empty.\<close>

definition flt_median :: "flt list \<Rightarrow> flt" where
  "flt_median xs =
     (let s = sort xs; n = length xs
      in if odd n then s ! (n div 2) else (s ! (n div 2 - 1) + s ! (n div 2)) / flt 2)"

definition count_symbol :: "(string \<times> nat) list \<Rightarrow> string \<Rightarrow> (string \<times> nat) list" where
  "count_symbol kvs s = upsert s (\<lambda>old. (case old of None \<Rightarrow> 0 | Some n \<Rightarrow> n) + 1) kvs"

definition sector_weight :: "(string \<times> flt list) list \<Rightarrow> string \<times> flt \<Rightarrow> (string \<times> flt list) list" where
  "sector_weight kvs = (\<lambda>(s, pct). upsert s (\<lambda>old. (case old of None \<Rightarrow> [] | Some ws \<Rightarrow> ws) @ [pct]) kvs)"

record bucket_payload =
  bk_sample_count :: nat
  bk_median_ytd_return_pct :: "flt option"
  bk_top_holdings :: "(string \<times> json) list list"
  bk_sector_allocation :: "(string \<times> json) list list"

definition aggregate_bucket :: "UserSample list \<Rightarrow> bucket_payload" where
  "aggregate_bucket samples =
     (let ytd = List.map_filter us_ytd_return_pct samples;
          counter = foldl count_symbol [] (concat (map us_top_holdings samples));
          weights = foldl sector_weight [] (concat (map us_sector_allocation samples))
      in \<lparr>bk_sample_count = length samples,
          bk_median_ytd_return_pct = (if ytd = [] then None else Some (py_round 4 (flt_median ytd))),
          bk_top_holdings = map (\<lambda>(s, n). [(''symbol'', JStr s), (''frequency'', JNum (of_nat n))]) (take 10 (sort_key_desc snd counter)),
          bk_sector_allocation = map (\<lambda>(s, ws). [(''sector'', JStr s), (''median_pct'', JNum (fval (py_round 2 (flt_median ws))))])
            (sort_key fst weights)\<rparr>)"

text \<open>\<^verbatim>\<open>ON CONFLICT DO UPDATE\<close>; a median too large for \<^verbatim>\<open>NUMERIC(10, 4)\<close> fails the task.\<close>

definition upsert_bucket ::
  "string \<times> string \<times> string \<Rightarrow> bucket_payload \<Rightarrow> PeerAggregate list \<Rightarrow> http_error + PeerAggregate list" where
  "upsert_bucket key payload aggs =
     (let median = map_option (\<lambda>m. Dec (qz_up 4 (fval m))) (bk_median_ytd_return_pct payload);
          row = \<lparr>pa_archetype = fst key, pa_age_bucket = fst (snd key), pa_size_bucket = snd (snd key),
            pa_sample_count = bk_sample_count payload, pa_median_ytd_return_pct = median,
            pa_top_holdings = bk_top_holdings payload, pa_sector_allocation = bk_sector_allocation payload\<rparr>
      in if pred_option (\<lambda>m. \<bar>dval m\<bar> < 10 ^ 6) median
         then Inr (if list_ex (\<lambda>a. bucket_key a = key) aggs
                   then map (\<lambda>a. if bucket_key a = key then row else a) aggs else aggs @ [row])
         else Inl ServerError)"

definition sample_key :: "UserSample \<Rightarrow> string \<times> string \<times> string" where
  "sample_key s = (us_archetype s, us_age_bucket s, us_size_bucket s)"

definition group_sample :: "((string \<times> string \<times> string) \<times> UserSample list) list \<Rightarrow> UserSample
    \<Rightarrow> ((string \<times> string \<times> string) \<times> UserSample list) list" where
  "group_sample kvs s = upsert (sample_key s) (\<lambda>old. (case old of None \<Rightarrow> [] | Some ss \<Rightarrow> ss) @ [s]) kvs"

record AggregateSummary =
  users_considered :: nat
  buckets_written :: nat
  buckets_suppressed :: nat

fun write_buckets ::
  "((string \<times> string \<times> string) \<times> UserSample list) list \<Rightarrow> AggregateSummary \<times> PeerAggregate list
    \<Rightarrow> http_error + AggregateSummary \<times> PeerAggregate list" where
  "write_buckets [] st = Inr st"
| "write_buckets ((key, members) # groups) (s, aggs) =
     (let payload = aggregate_bucket members
      in if bk_sample_count payload < MIN_BUCKET_SAMPLES
         then write_buckets groups (s\<lparr>buckets_suppressed := buckets_suppressed s + 1\<rparr>, aggs)
         else bind_r (upsert_bucket key payload aggs) (\<lambda>aggs'.
           write_buckets groups (s\<lparr>buckets_written := buckets_written s + 1\<rparr>, aggs')))"

definition run_aggregation ::
  "User list \<Rightarrow> portfolio_db \<Rightarrow> market_db \<Rightarrow> date \<Rightarrow> PeerAggregate list \<Rightarrow> http_error + AggregateSummary \<times> PeerAggregate list" where
  "run_aggregation us db mk today aggs =
     (let samples = load_samples us db mk today
      in write_buckets (foldl group_sample [] samples)
           (\<lparr>users_considered = length samples, buckets_written = 0, buckets_suppressed = 0\<rparr>, aggs))"

section \<open>What the aggregation stores\<close>

lemma upsert_not_Nil [simp]: "upsert k f kvs \<noteq> []"
  by (cases kvs) (auto split: if_splits)

lemma foldl_not_Nil: "xs \<noteq> [] \<Longrightarrow> (\<And>a x. f a x \<noteq> []) \<Longrightarrow> foldl f a xs \<noteq> []"
  by (induction xs rule: rev_induct) auto

lemma size_bucket_unknown: "size_bucket v = ''unknown'' \<longleftrightarrow> v = None"
  by (simp add: size_bucket_def split: option.splits)

definition holdings_listed :: "portfolio_db \<Rightarrow> market_db \<Rightarrow> bool" where
  "holdings_listed db mk \<longleftrightarrow> list_all (\<lambda>h. find_security mk (h_symbol h) \<noteq> None) (holdings (ledger db))"

lemma joined_listed:
  assumes "holdings_listed db mk"
  shows "filter (\<lambda>(h, _). find_security mk (h_symbol h) \<noteq> None) (joined_values mk P (user_holdings db uid)) = joined_values mk P (user_holdings db uid)"
  using assms
  by (auto simp: filter_id_conv joined_values_def user_holdings_def holdings_listed_def list_all_iff split: list.splits)

text \<open>A sample with a known size holds something, and so has a sector.\<close>

lemma sized_sample_has_sector:
  assumes "holdings_listed db mk" "us_size_bucket (sample_of db mk today u) \<noteq> ''unknown''"
  shows "us_sector_allocation (sample_of db mk today u) \<noteq> []"
proof -
  let ?rows = "joined_values mk (\<lambda>_. True) (user_holdings db (u_id u))"
  have mv: "\<not> sql_value ?rows \<le> 0"
    using assms(2) by (auto simp: sample_of_def summarise_portfolio_def Let_def size_bucket_unknown split: if_splits)
  then have "?rows \<noteq> []" by (auto simp: sql_value_def flt_def List.map_filter_def flt_le_iff)
  then have "by_value_desc ?rows \<noteq> []" by (metis by_value_desc_def length_0_conv length_sort_key_desc)
  then have "foldl add_sector_value [] (map (\<lambda>(h, mv). (sector_or_unknown (the (find_security mk (h_symbol h))), mv)) (by_value_desc ?rows)) \<noteq> []"
    by (intro foldl_not_Nil) (auto simp: add_sector_value_def)
  then show ?thesis using mv unfolding sample_of_def summarise_portfolio_def Let_def joined_listed [OF assms(1)] by simp
qed

definition sample_ok :: "UserSample \<Rightarrow> bool" where
  "sample_ok s \<longleftrightarrow> (us_size_bucket s = ''unknown'' \<or> us_sector_allocation s \<noteq> [])"

definition group_ok :: "(string \<times> string \<times> string) \<times> UserSample list \<Rightarrow> bool" where
  "group_ok g \<longleftrightarrow> snd g \<noteq> [] \<and> list_all (\<lambda>s. sample_key s = fst g \<and> sample_ok s) (snd g)"

lemma upsert_all:
  assumes "list_all P kvs" "\<And>old. (old = None \<or> (\<exists>v. old = Some v \<and> P (k, v))) \<Longrightarrow> P (k, f old)"
  shows "list_all P (upsert k f kvs)"
  using assms by (induction kvs) auto

lemma groups_ok:
  assumes "list_all sample_ok samples" "list_all group_ok kvs"
  shows "list_all group_ok (foldl group_sample kvs samples)"
  using assms
proof (induction samples arbitrary: kvs)
  case (Cons s samples)
  have "list_all group_ok (group_sample kvs s)"
    unfolding group_sample_def
  proof (rule upsert_all)
    show "list_all group_ok kvs" by (rule Cons.prems(2))
  qed (use Cons.prems(1) in \<open>auto simp: group_ok_def\<close>)
  with Cons show ?case by simp
qed simp

definition aggregate_ok :: "PeerAggregate \<Rightarrow> bool" where
  "aggregate_ok a \<longleftrightarrow> MIN_BUCKET_SAMPLES \<le> pa_sample_count a
     \<and> list_all (\<lambda>row. map_of row ''pct'' = None) (pa_sector_allocation a)
     \<and> (pa_size_bucket a = ''unknown'' \<or> pa_sector_allocation a \<noteq> [])"

definition aggregates_inv :: "PeerAggregate list \<Rightarrow> bool" where
  "aggregates_inv aggs \<longleftrightarrow> list_all aggregate_ok aggs \<and> distinct (map bucket_key aggs)"

lemma aggregate_bucket_sectors:
  "list_all (\<lambda>row. map_of row ''pct'' = None) (bk_sector_allocation (aggregate_bucket samples))"
  "list_ex (\<lambda>s. us_sector_allocation s \<noteq> []) samples \<Longrightarrow> bk_sector_allocation (aggregate_bucket samples) \<noteq> []"
proof -
  show "list_all (\<lambda>row. map_of row ''pct'' = None) (bk_sector_allocation (aggregate_bucket samples))"
    by (auto simp: aggregate_bucket_def Let_def list_all_iff)
  assume "list_ex (\<lambda>s. us_sector_allocation s \<noteq> []) samples"
  then have "concat (map us_sector_allocation samples) \<noteq> []" by (auto simp: list_ex_iff)
  then have "foldl sector_weight [] (concat (map us_sector_allocation samples)) \<noteq> []"
    by (intro foldl_not_Nil) (auto simp: sector_weight_def)
  then have "sort_key fst (foldl sector_weight [] (concat (map us_sector_allocation samples))) \<noteq> []"
    by (metis length_0_conv length_sort)
  then show "bk_sector_allocation (aggregate_bucket samples) \<noteq> []" by (simp add: aggregate_bucket_def Let_def)
qed

lemma upsert_bucket_inv:
  assumes "aggregates_inv aggs" "group_ok (key, members)" "\<not> bk_sample_count (aggregate_bucket members) < MIN_BUCKET_SAMPLES"
    and "upsert_bucket key (aggregate_bucket members) aggs = Inr aggs'"
  shows "aggregates_inv aggs'"
proof -
  define row where "row = \<lparr>pa_archetype = fst key, pa_age_bucket = fst (snd key), pa_size_bucket = snd (snd key),
    pa_sample_count = bk_sample_count (aggregate_bucket members),
    pa_median_ytd_return_pct = map_option (\<lambda>m. Dec (qz_up 4 (fval m))) (bk_median_ytd_return_pct (aggregate_bucket members)),
    pa_top_holdings = bk_top_holdings (aggregate_bucket members), pa_sector_allocation = bk_sector_allocation (aggregate_bucket members)\<rparr>"
  have key: "bucket_key row = key" by (simp add: row_def bucket_key_def)
  have "list_ex (\<lambda>s. us_sector_allocation s \<noteq> []) members" if known: "snd (snd key) \<noteq> ''unknown''"
  proof -
    obtain s where s: "s \<in> set members" "sample_key s = key" "sample_ok s"
      using assms(2) by (cases members) (auto simp: group_ok_def)
    then have "us_sector_allocation s \<noteq> []" using known by (auto simp: sample_ok_def sample_key_def)
    with s(1) show ?thesis by (auto simp: list_ex_iff)
  qed
  then have row: "aggregate_ok row"
    using assms(3) aggregate_bucket_sectors [of members] by (auto simp: aggregate_ok_def row_def)
  have new: "aggs' = (if list_ex (\<lambda>a. bucket_key a = key) aggs then map (\<lambda>a. if bucket_key a = key then row else a) aggs else aggs @ [row])"
    using assms(4) unfolding upsert_bucket_def Let_def row_def [symmetric] by (simp split: if_splits)
  have "map bucket_key (map (\<lambda>a. if bucket_key a = key then row else a) aggs) = map bucket_key aggs" using key by simp
  then show ?thesis using assms(1) row key
    by (auto simp: new aggregates_inv_def list_all_iff list_ex_iff simp del: map_map)
qed

lemma write_buckets_inv:
  assumes "list_all group_ok groups" "aggregates_inv (snd st)" "write_buckets groups st = Inr (s, aggs)"
  shows "aggregates_inv aggs"
  using assms
proof (induction groups st rule: write_buckets.induct)
  case (2 key members groups s' aggs')
  then show ?case
    by (auto simp: Let_def bind_r_Inr_iff split: if_splits intro: upsert_bucket_inv)
qed simp

inductive aggregation_step :: "PeerAggregate list \<Rightarrow> PeerAggregate list \<Rightarrow> bool" where
  aggregated: "holdings_listed db mk \<Longrightarrow> run_aggregation us db mk today aggs = Inr (s, aggs') \<Longrightarrow> aggregation_step aggs aggs'"

interpretation peers: invariant_system "\<lambda>aggs. aggs = []" aggregation_step aggregates_inv
proof
  show "aggregates_inv aggs" if "aggs = []" for aggs using that by (simp add: aggregates_inv_def)
  fix aggs aggs' assume inv: "aggregates_inv aggs" and "aggregation_step aggs aggs'"
  then obtain db mk us today s where listed: "holdings_listed db mk" and run: "run_aggregation us db mk today aggs = Inr (s, aggs')"
    by (auto elim: aggregation_step.cases)
  have "list_all sample_ok (load_samples us db mk today)"
    using sized_sample_has_sector [OF listed] by (auto simp: load_samples_def list_all_iff sample_ok_def)
  then have "list_all group_ok (foldl group_sample [] (load_samples us db mk today))" by (rule groups_ok) simp
  from write_buckets_inv [OF this, where st = "(_, aggs)"] inv run show "aggregates_inv aggs'"
    by (simp add: run_aggregation_def Let_def)
qed

lemma peer_top_without_pct: "rows \<noteq> [] \<Longrightarrow> list_all (\<lambda>row. map_of row ''pct'' = None) rows \<Longrightarrow> peer_top rows = Inl ServerError"
proof -
  assume ne: "rows \<noteq> []" and no: "list_all (\<lambda>row. map_of row ''pct'' = None) rows"
  obtain row rest where sorted: "sort_key_desc pct_key rows = row # rest"
    using ne by (metis length_0_conv length_sort_key_desc list.exhaust)
  then have "row \<in> set rows" using set_sort_key_desc [of pct_key rows] by (metis list.set_intros(1))
  then show "peer_top rows = Inl ServerError" using no by (simp add: peer_top_def sorted list_all_iff split: option.splits)
qed

section \<open>Properties\<close>


definition ex_peer :: "string \<Rightarrow> User" where
  "ex_peer i = (new_user i i [] None 0)\<lparr>u_share_anonymously := True\<rparr>"

definition ex_peer_portfolio :: "string \<Rightarrow> Portfolio" where
  "ex_peer_portfolio i = \<lparr>pf_id = i, pf_user_id = i, pf_name = ''Main'', pf_description = None, pf_base_currency = ''PKR'',
     pf_is_default = True, pf_created_at = 0\<rparr>"

definition ex_peer_holding :: "string \<Rightarrow> HoldingsSnapshot" where
  "ex_peer_holding i = \<lparr>h_portfolio_id = i, h_symbol = ''HBL'', h_quantity = Dec 10, h_avg_cost_pkr = Dec 90,
     h_total_invested_pkr = Dec 900, h_realized_pnl_pkr = Dec 0, h_total_dividends_received_pkr = Dec 0\<rparr>"

definition ex_peers :: "string list" where "ex_peers = [''1'', ''2'', ''3'', ''4'', ''5'']"

definition ex_peer_db :: portfolio_db where
  "ex_peer_db = \<lparr>portfolios = map ex_peer_portfolio (ex_peers @ [''6'']),
     ledger = \<lparr>securities = [''HBL''], transactions = [], holdings = map ex_peer_holding ex_peers, tax_rules = []\<rparr>\<rparr>"

definition ex_peer_market :: market_db where
  "ex_peer_market = \<lparr>security_rows = [\<lparr>sec_symbol = ''HBL'', company_name = ''HBL'', sector = ''Banks'', is_kmi_compliant = False,
     is_kse100 = True, is_kse30 = True, market_cap_pkr = None, shares_outstanding = None, listed_at = None,
     delisted_at = None, is_active = True\<rparr>],
   ohlcv_rows = [\<lparr>o_symbol = ''HBL'', o_date = 738000, o_open = None, o_high = None, o_low = None, o_close = Some (Dec 100),
     o_volume = None, o_value_pkr = None, o_adjusted_close = None\<rparr>]\<rparr>"

lemma ex_values:
  "flt 1000 = Flt 1000" "flt 0 = 0" "size_bucket (Some (Flt 1000)) = ''<100K''"
  "size_bucket (Some (flt_of_dec (Dec 0))) = ''<100K''"
  "filter (\<lambda>x. o_date x \<le> mk_date (year_of 738001) 1 1) (newest_first ex_peer_market ''HBL'') = []"
proof -
  show v: "flt 1000 = Flt 1000" "flt 0 = 0"
    using flt_r.exact_int [of 1000] by (simp_all add: flt_def zero_flt_def)
  have "flt 100000 = Flt 100000" using flt_r.exact_int [of 100000] by (simp add: flt_def)
  then show "size_bucket (Some (Flt 1000)) = ''<100K''" "size_bucket (Some (flt_of_dec (Dec 0))) = ''<100K''"
    by (simp_all add: size_bucket_def flt_of_dec_def v zero_flt_def)
  have "mk_date (year_of 738001) 1 1 < 738000" by code_simp
  then show "filter (\<lambda>x. o_date x \<le> mk_date (year_of 738001) 1 1) (newest_first ex_peer_market ''HBL'') = []"
    by (simp add: newest_first_def ex_peer_market_def sort_key_desc_def)
qed

lemma ex_user_holdings: "i \<in> set ex_peers \<Longrightarrow> user_holdings ex_peer_db i = [ex_peer_holding i]"
  by (auto simp: ex_peers_def ex_peer_db_def user_holdings_def ex_peer_holding_def ex_peer_portfolio_def)

lemma ex_sample:
  assumes "i \<in> set ex_peers"
  shows "\<exists>w. sample_of ex_peer_db ex_peer_market 738001 (ex_peer i) = \<lparr>us_sample_user = i, us_archetype = ''unknown'',
    us_age_bucket = ''unknown'', us_size_bucket = ''<100K'', us_ytd_return_pct = None, us_top_holdings = [''HBL''],
    us_sector_allocation = [(''Banks'', w)]\<rparr>"
proof -
  have u: "u_id (ex_peer i) = i" "u_risk_archetype (ex_peer i) = None" "u_date_of_birth (ex_peer i) = None"
    by (simp_all add: ex_peer_def new_user_def)
  have new: "newest_first ex_peer_market ''HBL'' = ohlcv_rows ex_peer_market"
    by (simp add: newest_first_def ex_peer_market_def sort_key_desc_def)
  have now: "joined_values ex_peer_market (\<lambda>_. True) [ex_peer_holding i] = [(ex_peer_holding i, Some 1000)]"
    by (simp add: joined_values_def ex_peer_holding_def new) (simp add: ex_peer_market_def)
  have jan: "joined_values ex_peer_market (\<lambda>x. o_date x \<le> mk_date (year_of 738001) 1 1) [ex_peer_holding i] = []"
    using ex_values(5) by (simp add: joined_values_def ex_peer_holding_def)
  have val: "sql_value [(ex_peer_holding i, Some 1000)] = Flt 1000" "sql_value [] = 0"
    by (simp_all add: sql_value_def List.map_filter_def ex_values)
  have sec: "\<exists>s. find_security ex_peer_market (h_symbol (ex_peer_holding i)) = Some s \<and> sector_or_unknown s = ''Banks''"
    by (simp add: find_security_def ex_peer_market_def ex_peer_holding_def sector_or_unknown_def)
  then have rows: "by_value_desc (filter (\<lambda>(h, _). find_security ex_peer_market (h_symbol h) \<noteq> None) [(ex_peer_holding i, Some 1000)])
      = [(ex_peer_holding i, Some 1000)]" by (auto simp: by_value_desc_def sort_key_desc_def)
  have pos: "\<not> Flt 1000 \<le> 0" "\<not> 0 < (0 :: flt)" by (simp_all add: zero_flt_def)
  show ?thesis using sec
    unfolding sample_of_def summarise_portfolio_def u ex_user_holdings [OF assms] now jan val rows Let_def if_not_P [OF pos(1)] if_not_P [OF pos(2)]
    by (auto simp: age_bucket_def ex_values add_sector_value_def ex_peer_holding_def)
qed

lemma ex_aggregation:
  "\<exists>s agg. run_aggregation (map ex_peer ex_peers) ex_peer_db ex_peer_market 738001 [] = Inr (s, [agg])
     \<and> bucket_key agg = (''unknown'', ''unknown'', ''<100K'') \<and> pa_sample_count agg = 5"
proof -
  define sm where "sm i = sample_of ex_peer_db ex_peer_market 738001 (ex_peer i)" for i
  have k: "sample_key (sm i) = (''unknown'', ''unknown'', ''<100K'')" "us_ytd_return_pct (sm i) = None" if "i \<in> set ex_peers" for i
    using ex_sample [OF that] by (auto simp: sm_def sample_key_def)
  have load: "load_samples (map ex_peer ex_peers) ex_peer_db ex_peer_market 738001 = map sm ex_peers"
    by (simp add: load_samples_def sm_def filter_map o_def ex_peer_def)
  have grouped: "foldl group_sample [] (map sm ex_peers) = [((''unknown'', ''unknown'', ''<100K''), map sm ex_peers)]"
    using k by (simp add: ex_peers_def group_sample_def)
  have none: "List.map_filter us_ytd_return_pct (map sm ex_peers) = []"
    using k by (simp add: ex_peers_def List.map_filter_def)
  have "bk_sample_count (aggregate_bucket (map sm ex_peers)) = 5" "bk_median_ytd_return_pct (aggregate_bucket (map sm ex_peers)) = None"
    by (simp_all add: aggregate_bucket_def Let_def none) (simp add: ex_peers_def)
  then show ?thesis
    by (simp add: run_aggregation_def load grouped Let_def MIN_BUCKET_SAMPLES_def upsert_bucket_def bucket_key_def)
qed

lemma ex_reader_summary: "\<exists>s. summary (ledger ex_peer_db) ex_peer_market ''6'' False 738001 = Inr s \<and> ps_current_value_pkr s = Dec 0"
proof -
  have "holdings_with_market (ledger ex_peer_db) ex_peer_market ''6'' = []"
    by (simp add: holdings_with_market_def ex_peer_db_def ex_peers_def ex_peer_holding_def)
  moreover have "quantize 2 (Dec 0) = Dec 0" by (simp add: quantize_def)
  ultimately show ?thesis by (simp add: summary_def Let_def after_tax_unrealized_def eligible_def dec_sum_def)
qed


text \<open>
  Nothing ever removes a group: when every user has withdrawn, the figures of the last run stay, and a
  user without holdings is counted under an unknown size while the panel looks under the smallest one.
\<close>

lemma withdrawal_keeps_figures:
  "list_all (\<lambda>u. \<not> u_share_anonymously u) us \<Longrightarrow> run_aggregation us db mk today aggs =
     Inr (\<lparr>users_considered = 0, buckets_written = 0, buckets_suppressed = 0\<rparr>, aggs)"
proof -
  assume "list_all (\<lambda>u. \<not> u_share_anonymously u) us"
  then have "filter u_share_anonymously us = []" by (simp add: filter_empty_conv list_all_iff)
  then show ?thesis by (simp add: run_aggregation_def load_samples_def)
qed

lemma empty_portfolio_buckets:
  assumes "user_holdings db (u_id u) = []"
  shows "us_size_bucket (sample_of db mk today u) = ''unknown''" "size_bucket (Some (flt_of_dec (Dec 0))) = ''<100K''"
  using assms ex_values(2,4)
  by (simp_all add: sample_of_def summarise_portfolio_def sql_value_def joined_values_def size_bucket_def List.map_filter_def)

lemma percentile_rank_bounds: "0 \<le> percentile_rank v d \<and> percentile_rank v d \<le> 100"
proof (cases "d = []")
  case False
  let ?k = "length (filter (\<lambda>x. x < v) d)"
  have "0 \<le> fval (flt (of_nat ?k / of_nat (length d)) * flt 100)" "fval (flt (of_nat ?k / of_nat (length d)) * flt 100) \<le> 100"
    using percentage [of ?k "length d"] by (auto simp: flt_le_iff zero_flt_def simp del: fval_simps)
  from round_half_even_mono [OF this(1)] round_half_even_mono [OF this(2)] show ?thesis
    using False round_half_even_of_int [of 0] round_half_even_of_int [of 100]
    by (simp add: percentile_rank_def py_round_int_def del: fval_simps round_half_even_of_int)
qed (simp add: percentile_rank_def)

end
