(* ===== verification/Predictions.thy ===== *)
theory Predictions
  imports Indicators Market
begin

text \<open>
  Predictions of the next day's direction: the features \<^verbatim>\<open>psx_api/predictions/features.py\<close>, the ensemble
  \<^verbatim>\<open>predictions/ensemble.py\<close> with its heuristic models and its call of the inference service
  (\<^verbatim>\<open>psx_inference/inference.py\<close>, \<^verbatim>\<open>routers/predict.py\<close>), the service
  \<^verbatim>\<open>services/prediction_service.py\<close> and the endpoint. The trained models are functions of a bundle; the
  exponential and the logarithm of the C library are parameters.
\<close>

section \<open>Features\<close>

record math_fns =
  ma_exp :: "flt \<Rightarrow> backtest_error + flt"
  ma_log :: "flt \<Rightarrow> backtest_error + flt"

record MarketContext =
  mc_kse100_return_pct :: "flt option"
  mc_sector_return_pct :: "flt option"
  mc_kibor_6m_pct :: "flt option"
  mc_pkr_usd_change_pct :: "flt option"

record OhlcvBar =
  ob_open :: flt
  ob_high :: flt
  ob_low :: flt
  ob_close :: flt
  ob_volume :: flt

type_synonym features = "(string \<times> flt option) list"

definition safe_log_return :: "math_fns \<Rightarrow> flt \<Rightarrow> flt \<Rightarrow> backtest_error + flt option" where
  "safe_log_return ma prev cur =
     (if prev \<le> 0 \<or> cur \<le> 0 then Inr None else bind_r (ma_log ma (cur / prev)) (\<lambda>v. Inr (Some v)))"

definition z_score :: "libm \<Rightarrow> flt list \<Rightarrow> flt \<Rightarrow> backtest_error + flt option" where
  "z_score lm values current =
     (if length values < 2 then Inr None
      else let mean = flt_sum values / flt_of_nat (length values)
      in bind_r (collect_r (map (\<lambda>v. lm_pow lm (v - mean) (flt 2)) values)) (\<lambda>squares.
         let var = flt_sum squares / flt_of_nat (max (length values - 1) 1);
             std = (if 0 < var then lm_sqrt lm var else 0)
         in Inr (Some (if std = 0 then 0 else (current - mean) / std))))"

text \<open>\<^verbatim>\<open>xs[-k:]\<close> and \<^verbatim>\<open>xs[-k]\<close> of a list that is long enough, and the truth of an optional float.\<close>

definition last_n :: "nat \<Rightarrow> 'a list \<Rightarrow> 'a list" where "last_n k xs = drop (length xs - k) xs"
definition nth_last :: "nat \<Rightarrow> 'a list \<Rightarrow> 'a" where "nth_last k xs = xs ! (length xs - k)"

definition nonzero_opt :: "flt option \<Rightarrow> flt option" where
  "nonzero_opt v = (if v = Some 0 then None else v)"

definition log_returns :: "math_fns \<Rightarrow> flt list \<Rightarrow> backtest_error + features" where
  "log_returns ma closes =
     collect_r (map (\<lambda>(name, k). bind_r (if k < length closes then safe_log_return ma (nth_last (k + 1) closes) (last closes) else Inr None)
         (\<lambda>v. Inr (name, v)))
       [(''log_return_1d'', 1), (''log_return_5d'', 5), (''log_return_10d'', 10), (''log_return_20d'', 20)])"

definition momentum_10 :: "flt list \<Rightarrow> flt option" where
  "momentum_10 closes =
     (if 10 < length closes \<and> 0 < nth_last 11 closes then Some (last closes / nth_last 11 closes - 1) else None)"

definition disparity :: "flt list \<Rightarrow> int \<Rightarrow> backtest_error + flt option" where
  "disparity closes period = bind_r (sma closes period) (\<lambda>s. Inr (map_option (\<lambda>m. last closes / m - 1) (nonzero_opt (last s))))"

definition williams_r_14 :: "flt list \<Rightarrow> flt list \<Rightarrow> flt list \<Rightarrow> flt option" where
  "williams_r_14 highs lows closes =
     (if 14 \<le> length closes
      then let win_high = list_max (last_n 14 highs); denom = win_high - list_min (last_n 14 lows)
           in Some (if denom \<noteq> 0 then flt (- 100) * (win_high - last closes) / denom else 0)
      else None)"

definition bollinger_pct_b :: "libm \<Rightarrow> flt list \<Rightarrow> backtest_error + flt option" where
  "bollinger_pct_b lm closes =
     bind_r (bollinger_bands lm closes 20 (flt 2)) (\<lambda>bb.
       Inr (case (last (upper_band bb), last (lower_band bb)) of
              (Some upper, Some low) \<Rightarrow> if upper \<noteq> low then Some ((last closes - low) / (upper - low)) else None
            | _ \<Rightarrow> None))"

definition obv_change_5d :: "flt list \<Rightarrow> flt list \<Rightarrow> backtest_error + flt option" where
  "obv_change_5d closes volumes =
     bind_r (obv closes volumes) (\<lambda>s.
       Inr (if 6 \<le> length closes
            then case (last s, nth_last 6 s) of
                   (Some now, Some prev) \<Rightarrow> Some (if prev \<noteq> 0 then (now - prev) / \<bar>prev\<bar> else 0)
                 | _ \<Rightarrow> None
            else None))"

definition compute_features :: "libm \<Rightarrow> math_fns \<Rightarrow> OhlcvBar list \<Rightarrow> MarketContext \<Rightarrow> backtest_error + features" where
  "compute_features lm ma bars context =
     (if bars = [] then Inr []
      else let closes = map ob_close bars; highs = map ob_high bars; lows = map ob_low bars; volumes = map ob_volume bars;
               n = length closes; current = last closes
      in bind_r (log_returns ma closes) (\<lambda>returns.
         bind_r (disparity closes 5) (\<lambda>d5.
         bind_r (disparity closes 10) (\<lambda>d10.
         bind_r (rsi closes 14) (\<lambda>rsi14.
         bind_r (stochastic highs lows closes 14 3) (\<lambda>(k, d).
         bind_r (macd closes 12 26 9) (\<lambda>mc.
         bind_r (bollinger_pct_b lm closes) (\<lambda>pct_b.
         bind_r (atr highs lows closes 14) (\<lambda>atr14.
         bind_r (obv_change_5d closes volumes) (\<lambda>obv5.
         bind_r (if 20 \<le> n then z_score lm (last_n 20 volumes) (last volumes) else Inr None) (\<lambda>vz.
         bind_r (if 50 \<le> n then z_score lm (last_n 50 closes) current else Inr None) (\<lambda>pz.
           Inr (returns @
             [(''momentum_10'', momentum_10 closes), (''disparity_5'', d5), (''disparity_10'', d10), (''rsi_14'', last rsi14),
              (''stochastic_k'', last k), (''stochastic_d'', last d), (''williams_r_14'', williams_r_14 highs lows closes),
              (''macd'', last (macd_line mc)), (''macd_signal'', last (macd_signal mc)), (''macd_histogram'', last (macd_histogram mc)),
              (''bollinger_pct_b'', pct_b),
              (''atr_14_norm'', case last atr14 of Some a \<Rightarrow> if 0 < current then Some (a / current) else None | None \<Rightarrow> None),
              (''obv_change_5d'', obv5), (''volume_z_20'', vz), (''price_z_50'', pz),
              (''kse100_return_pct'', mc_kse100_return_pct context), (''sector_return_pct'', mc_sector_return_pct context),
              (''kibor_6m_pct'', mc_kibor_6m_pct context), (''pkr_usd_change_pct'', mc_pkr_usd_change_pct context)])))))))))))))"

definition FEATURE_NAMES :: "string list" where
  "FEATURE_NAMES = [''log_return_1d'', ''log_return_5d'', ''log_return_10d'', ''log_return_20d'', ''momentum_10'',
     ''disparity_5'', ''disparity_10'', ''rsi_14'', ''stochastic_k'', ''stochastic_d'', ''williams_r_14'', ''macd'',
     ''macd_signal'', ''macd_histogram'', ''bollinger_pct_b'', ''atr_14_norm'', ''obv_change_5d'', ''volume_z_20'',
     ''price_z_50'', ''kse100_return_pct'', ''sector_return_pct'', ''kibor_6m_pct'', ''pkr_usd_change_pct'']"

section \<open>The heuristic models\<close>

definition MODEL_VERSION :: string where "MODEL_VERSION = ''heuristic-v0.1.0''"

definition feature :: "features \<Rightarrow> string \<Rightarrow> flt option" where
  "feature fs name = (case map_of fs name of Some v \<Rightarrow> v | None \<Rightarrow> None)"

definition sigmoid :: "math_fns \<Rightarrow> flt \<Rightarrow> backtest_error + flt" where
  "sigmoid ma x =
     (if 0 \<le> x then bind_r (ma_exp ma (- x)) (\<lambda>z. Inr (1 / (1 + z)))
      else bind_r (ma_exp ma x) (\<lambda>z. Inr (z / (1 + z))))"

text \<open>\<^verbatim>\<open>if f.get(name) is not None: score += g(f[name])\<close>\<close>

definition plus_feature :: "features \<Rightarrow> string \<Rightarrow> (flt \<Rightarrow> flt) \<Rightarrow> flt \<Rightarrow> flt" where
  "plus_feature fs name g score = (case feature fs name of Some v \<Rightarrow> score + g v | None \<Rightarrow> score)"

definition model_lstm_proxy :: "math_fns \<Rightarrow> features \<Rightarrow> backtest_error + flt" where
  "model_lstm_proxy ma fs = sigmoid ma
     (plus_feature fs ''rsi_14'' (\<lambda>v. (flt 50 - v) / flt 50 * flt (3 / 10))
     (plus_feature fs ''williams_r_14'' (\<lambda>v. (flt (- 50) - v) / flt 50 * flt (4 / 10))
     (plus_feature fs ''log_return_10d'' (\<lambda>v. v * flt 4)
     (plus_feature fs ''log_return_5d'' (\<lambda>v. v * flt 8) 0))))"

definition model_xgb_proxy :: "math_fns \<Rightarrow> features \<Rightarrow> backtest_error + flt" where
  "model_xgb_proxy ma fs =
     (let score = plus_feature fs ''bollinger_pct_b'' (\<lambda>v. (flt (1 / 2) - v) * flt (8 / 10)) 0;
          score = (case feature fs ''disparity_5'' of Some v \<Rightarrow> score - v * flt 4 | None \<Rightarrow> score);
          score = plus_feature fs ''macd_histogram'' (\<lambda>v. v * flt (5 / 100)) score;
          score = (case (feature fs ''volume_z_20'', feature fs ''log_return_1d'') of
              (Some vz, Some r) \<Rightarrow> score + vz * (if 0 < r then flt 1 else flt (- 1)) * flt (15 / 100)
            | _ \<Rightarrow> score)
      in sigmoid ma score)"

definition model_rf_proxy :: "math_fns \<Rightarrow> features \<Rightarrow> backtest_error + flt" where
  "model_rf_proxy ma fs = sigmoid ma
     (plus_feature fs ''rsi_14'' (\<lambda>v. (v - flt 50) / flt 50 * flt (2 / 10))
     (plus_feature fs ''kse100_return_pct'' (\<lambda>v. v / flt 100 * flt (15 / 10))
     (plus_feature fs ''momentum_10'' (\<lambda>v. v * flt 4)
     (plus_feature fs ''disparity_10'' (\<lambda>v. v * flt 3) 0))))"

definition stacked_probability :: "flt list \<Rightarrow> flt" where
  "stacked_probability probs =
     (if probs = [] then flt (1 / 2)
      else let mean = flt_sum probs / flt_of_nat (length probs); spread = list_max probs - list_min probs;
               contracted = mean - (mean - flt (1 / 2)) * spread * flt (4 / 10)
           in max (flt (1 / 100)) (min (flt (99 / 100)) contracted))"

text \<open>\<^verbatim>\<open>statistics.variance\<close>: computed exactly, then rounded to a float.\<close>

definition sample_variance :: "flt list \<Rightarrow> flt" where
  "sample_variance xs =
     (let n = of_nat (length xs); mean = sum_list (map fval xs) / n
      in flt (sum_list (map (\<lambda>x. (fval x - mean) ^ 2) xs) / (n - 1)))"

definition confidence :: "flt list \<Rightarrow> string \<times> flt" where
  "confidence probs =
     (if length probs < 2 then (''low'', 0)
      else let score = max 0 (1 - sample_variance probs * flt 12)
           in if flt (75 / 100) < score then (''high'', score)
              else if flt (45 / 100) < score then (''medium'', score) else (''low'', score))"

record FeatureContribution =
  fc_name :: string
  fc_value :: flt
  fc_contribution :: string

text \<open>The sign and the scale of each feature.\<close>

definition FEATURE_DIRECTION :: "(string \<times> int \<times> rat) list" where
  "FEATURE_DIRECTION =
     [(''log_return_5d'', 1, 5 / 100), (''log_return_10d'', 1, 5 / 100), (''momentum_10'', 1, 5 / 100),
      (''disparity_5'', - 1, 5 / 100), (''disparity_10'', 1, 5 / 100), (''rsi_14'', - 1, 50), (''williams_r_14'', - 1, 50),
      (''macd_histogram'', 1, 1), (''bollinger_pct_b'', - 1, 5 / 10), (''kse100_return_pct'', 1, 1), (''volume_z_20'', 1, 1)]"

definition score_feature :: "features \<Rightarrow> flt \<Rightarrow> string \<times> int \<times> rat \<Rightarrow> (flt \<times> FeatureContribution) option" where
  "score_feature fs probability = (\<lambda>(name, dir, scale).
     map_option (\<lambda>v. let normed = v / flt scale; signed = normed * flt_of_int dir
       in (\<bar>normed\<bar>, \<lparr>fc_name = name, fc_value = v, fc_contribution =
            (if \<bar>signed\<bar> < flt (5 / 100) then ''neutral''
             else if (flt (1 / 2) \<le> probability) = (0 \<le> signed) then ''positive'' else ''negative'')\<rparr>))
       (feature fs name))"

definition top_contributions :: "features \<Rightarrow> flt \<Rightarrow> FeatureContribution list" where
  "top_contributions fs probability =
     map snd (take 3 (sort_key_desc fst (List.map_filter (score_feature fs probability) FEATURE_DIRECTION)))"

record Prediction =
  pn_probability_up :: flt
  pn_confidence :: string
  pn_confidence_score :: flt
  pn_sub_model_probabilities :: "(string \<times> flt) list"
  pn_top_features :: "FeatureContribution list"
  pn_model_version :: string
  pn_horizon_days :: int

section \<open>The inference service\<close>

text \<open>
  A bundle of trained models: what a session returns for the aligned features (for the LSTM the
  logit of the last rows), or that it raises, and the stacking model, if there is one.
\<close>

record InferenceBundle =
  ib_symbol :: string
  ib_sub_keys :: "string list"
  ib_feature_names :: "string list"
  ib_lstm_window :: nat
  ib_session :: "string \<Rightarrow> flt list \<Rightarrow> backtest_error + flt"
  ib_lstm :: "flt list list \<Rightarrow> backtest_error + flt"
  ib_meta :: "(flt list \<Rightarrow> backtest_error + flt) option"

record PredictResponse =
  pp_symbol :: string
  pp_prob_up :: flt
  pp_confidence :: string
  pp_sub_probabilities :: "(string \<times> flt) list"
  pp_predictions_disabled :: bool
  pp_reason :: "string option"
  pp_model_version :: string

definition logistic :: "math_fns \<Rightarrow> flt \<Rightarrow> backtest_error + flt" where
  "logistic ma x = bind_r (ma_exp ma (- x)) (\<lambda>z. if 1 + z = 0 then Inl ZeroDivErr else Inr (1 / (1 + z)))"

definition confidence_from_subs :: "libm \<Rightarrow> flt list \<Rightarrow> backtest_error + string" where
  "confidence_from_subs lm probs =
     (if probs = [] then Inr ''low'' else if length probs = 1 then Inr ''medium''
      else let mean = flt_sum probs / flt_of_nat (length probs)
      in bind_r (collect_r (map (\<lambda>p. lm_pow lm (p - mean) (flt 2)) probs)) (\<lambda>squares.
         let variance = flt_sum squares / flt_of_nat (length probs)
         in Inr (if variance < flt (25 / 10000) then ''high'' else if flt (225 / 10000) < variance then ''low'' else ''medium'')))"

definition sub_probability ::
  "math_fns \<Rightarrow> InferenceBundle \<Rightarrow> flt list \<Rightarrow> flt list list option \<Rightarrow> string \<Rightarrow> backtest_error + (string \<times> flt) option" where
  "sub_probability ma b fs win_rows key =
     (if key = ''lstm''
      then case win_rows of
             Some rows \<Rightarrow> if length rows < ib_lstm_window b then Inr None
               else bind_r (ib_lstm b (if ib_lstm_window b = 0 then rows else last_n (ib_lstm_window b) rows)) (\<lambda>logit.
                 bind_r (logistic ma logit) (\<lambda>p. Inr (Some (key, p))))
           | None \<Rightarrow> Inr None
      else bind_r (ib_session b key fs) (\<lambda>p. Inr (Some (key, p))))"

definition bundle_predict ::
  "libm \<Rightarrow> math_fns \<Rightarrow> InferenceBundle \<Rightarrow> flt list \<Rightarrow> flt list list option \<Rightarrow> backtest_error + PredictResponse" where
  "bundle_predict lm ma b fs win_rows =
     bind_r (collect_r (map (sub_probability ma b fs win_rows) (ib_sub_keys b))) (\<lambda>found.
     let subs = foldl (\<lambda>kvs (k, p). upsert k (\<lambda>_. p) kvs) [] (List.map_filter id found)
     in if subs = []
        then Inr \<lparr>pp_symbol = ib_symbol b, pp_prob_up = flt (1 / 2), pp_confidence = ''low'', pp_sub_probabilities = [],
               pp_predictions_disabled = True, pp_reason = Some ''no sub-models available at runtime'', pp_model_version = ''real-v1''\<rparr>
        else bind_r (case ib_meta b of
                 Some meta \<Rightarrow> meta (map (\<lambda>k. case map_of subs k of Some p \<Rightarrow> p | None \<Rightarrow> snd (hd subs)) (ib_sub_keys b))
               | None \<Rightarrow> Inr (flt_sum (map snd subs) / flt_of_nat (length subs))) (\<lambda>prob_up.
          bind_r (confidence_from_subs lm (map snd subs)) (\<lambda>c.
             Inr \<lparr>pp_symbol = ib_symbol b, pp_prob_up = py_round 4 prob_up, pp_confidence = c,
               pp_sub_probabilities = map (\<lambda>(k, p). (k, py_round 4 p)) subs, pp_predictions_disabled = False,
               pp_reason = None, pp_model_version = ''real-v1''\<rparr>)))"

text \<open>What the client of the service sees: nothing, an error status, or an answer.\<close>

datatype http_reply = Unreachable | Status int | Answer PredictResponse

text \<open>
  The endpoint. The body declares \<^verbatim>\<open>features: dict[str, float]\<close>, so a feature that is null fails the
  validation with 422. The caller sends no window.
\<close>

definition post_predict ::
  "libm \<Rightarrow> math_fns \<Rightarrow> (string \<Rightarrow> InferenceBundle option) \<Rightarrow> string \<Rightarrow> features \<Rightarrow> http_reply" where
  "post_predict lm ma registry symb fs =
     (if list_ex (\<lambda>(_, v). v = None) fs then Status 422
      else case registry (py_upper symb) of
        None \<Rightarrow> Status 404
      | Some b \<Rightarrow>
          let vec = map (\<lambda>name. case feature fs name of Some v \<Rightarrow> v | None \<Rightarrow> 0) (ib_feature_names b)
          in case bundle_predict lm ma b vec None of Inr r \<Rightarrow> Answer r | Inl _ \<Rightarrow> Status 500)"

section \<open>The ensemble\<close>

definition try_remote_predict ::
  "(string \<Rightarrow> features \<Rightarrow> http_reply) option \<Rightarrow> string \<Rightarrow> features \<Rightarrow> int \<Rightarrow> Prediction option" where
  "try_remote_predict remote symb fs horizon_days =
     (case remote of None \<Rightarrow> None
      | Some post \<Rightarrow> (case post symb fs of
          Unreachable \<Rightarrow> None
        | Status _ \<Rightarrow> None
        | Answer r \<Rightarrow>
            if pp_predictions_disabled r
            then Some \<lparr>pn_probability_up = flt (1 / 2), pn_confidence = ''low'', pn_confidence_score = 0, pn_sub_model_probabilities = [],
                   pn_top_features = [], pn_model_version = pp_model_version r, pn_horizon_days = horizon_days\<rparr>
            else Some \<lparr>pn_probability_up = pp_prob_up r, pn_confidence = pp_confidence r,
                   pn_confidence_score = (if pp_sub_probabilities r = [] then 0 else snd (confidence (map snd (pp_sub_probabilities r)))),
                   pn_sub_model_probabilities = pp_sub_probabilities r, pn_top_features = top_contributions fs (pp_prob_up r),
                   pn_model_version = pp_model_version r, pn_horizon_days = horizon_days\<rparr>))"

definition ensemble_predict ::
  "math_fns \<Rightarrow> (string \<Rightarrow> features \<Rightarrow> http_reply) option \<Rightarrow> string \<Rightarrow> features \<Rightarrow> int \<Rightarrow> backtest_error + Prediction" where
  "ensemble_predict ma remote symb fs horizon_days =
     (case (if symb = [] then None else try_remote_predict remote symb fs horizon_days) of
        Some p \<Rightarrow> Inr p
      | None \<Rightarrow>
          bind_r (model_lstm_proxy ma fs) (\<lambda>lstm.
          bind_r (model_xgb_proxy ma fs) (\<lambda>xgb.
          bind_r (model_rf_proxy ma fs) (\<lambda>rf.
            let probs = [lstm, xgb, rf]; stacked = stacked_probability probs
            in Inr \<lparr>pn_probability_up = stacked, pn_confidence = fst (confidence probs), pn_confidence_score = snd (confidence probs),
                 pn_sub_model_probabilities = [(''lstm'', lstm), (''xgboost'', xgb), (''random_forest'', rf)],
                 pn_top_features = top_contributions fs stacked, pn_model_version = MODEL_VERSION, pn_horizon_days = horizon_days\<rparr>))))"

section \<open>The service\<close>

record MacroIndicator =
  mi_date :: date
  mi_indicator :: string
  mi_value :: dec

record ModelPrediction =
  mp_id :: string
  mp_symbol :: string
  mp_model_version :: string
  mp_as_of_date :: date
  mp_horizon_days :: int
  mp_probability_up :: dec
  mp_confidence :: string
  mp_confidence_score :: dec
  mp_realised_direction :: "int option"
  mp_created_at :: int

definition MIN_BARS_FOR_PREDICTION :: nat where "MIN_BARS_FOR_PREDICTION = 80"

definition load_recent_bars :: "market_db \<Rightarrow> string \<Rightarrow> OhlcvDaily list" where
  "load_recent_bars mk symb = rev (take 120 (newest_first mk symb))"

text \<open>\<^verbatim>\<open>float(None)\<close> raises \<^verbatim>\<open>TypeError\<close>.\<close>

definition float_col :: "dec option \<Rightarrow> backtest_error + flt" where
  "float_col v = (case v of Some d \<Rightarrow> Inr (flt_of_dec d) | None \<Rightarrow> Inl TypeErr)"

definition feature_bar :: "OhlcvDaily \<Rightarrow> backtest_error + OhlcvBar" where
  "feature_bar x =
     bind_r (float_col (o_open x)) (\<lambda>op. bind_r (float_col (o_high x)) (\<lambda>h.
     bind_r (float_col (o_low x)) (\<lambda>low. bind_r (float_col (o_close x)) (\<lambda>c.
       Inr \<lparr>ob_open = op, ob_high = h, ob_low = low, ob_close = c,
            ob_volume = flt_of_int (case o_volume x of Some v \<Rightarrow> v | None \<Rightarrow> 0)\<rparr>))))"

definition macro_upto :: "MacroIndicator list \<Rightarrow> string \<Rightarrow> date \<Rightarrow> dec list" where
  "macro_upto macros name as_of =
     map mi_value (sort_key_desc mi_date (filter (\<lambda>m. mi_indicator m = name \<and> mi_date m \<le> as_of) macros))"

definition market_context :: "MacroIndicator list \<Rightarrow> date \<Rightarrow> MarketContext" where
  "market_context macros as_of =
     \<lparr>mc_kse100_return_pct = None, mc_sector_return_pct = None,
      mc_kibor_6m_pct = (case macro_upto macros ''kibor_6m'' as_of of [] \<Rightarrow> None | v # _ \<Rightarrow> Some (flt_of_dec v)),
      mc_pkr_usd_change_pct = (case macro_upto macros ''pkr_usd'' as_of of
          now # prev # _ \<Rightarrow> if prev \<noteq> Dec 0 then Some (flt_of_dec ((now - prev) / prev * Dec 100)) else None
        | _ \<Rightarrow> None)\<rparr>"

definition stored_prediction :: "string \<Rightarrow> int \<Rightarrow> string \<Rightarrow> date \<Rightarrow> Prediction \<Rightarrow> ModelPrediction" where
  "stored_prediction new_id now symb as_of p =
     \<lparr>mp_id = new_id, mp_symbol = symb, mp_model_version = pn_model_version p, mp_as_of_date = as_of,
      mp_horizon_days = pn_horizon_days p, mp_probability_up = Dec (qz_even 4 (fval (pn_probability_up p))),
      mp_confidence = pn_confidence p, mp_confidence_score = Dec (qz_even 4 (fval (pn_confidence_score p))),
      mp_realised_direction = None, mp_created_at = now\<rparr>"

text \<open>
  The insert: too long a text or too large a number is a database error nothing catches; the two
  check constraints of the table raise the \<^verbatim>\<open>IntegrityError\<close> that is rolled back. There is no unique
  constraint.
\<close>

definition persist :: "ModelPrediction \<Rightarrow> ModelPrediction list \<Rightarrow> backtest_error + ModelPrediction list" where
  "persist row rows =
     (if 40 < char_len (mp_model_version row) \<or> 10 < char_len (mp_confidence row)
         \<or> 100 \<le> \<bar>dval (mp_probability_up row)\<bar> \<or> 100 \<le> \<bar>dval (mp_confidence_score row)\<bar>
      then Inl (ValueErr ''database error'')
      else if Dec 0 \<le> mp_probability_up row \<and> mp_probability_up row \<le> Dec 1 \<and> mp_confidence row \<in> {''high'', ''medium'', ''low''}
      then Inr (rows @ [row]) else Inr rows)"

definition live_accuracy_pct :: "ModelPrediction list \<Rightarrow> string \<Rightarrow> string \<Rightarrow> date \<Rightarrow> flt option" where
  "live_accuracy_pct rows symb version today =
     (let known = filter (\<lambda>r. mp_symbol r = symb \<and> mp_model_version r = version \<and> today - 30 \<le> mp_as_of_date r
            \<and> mp_realised_direction r \<noteq> None) rows;
          correct = filter (\<lambda>r. (flt (1 / 2) \<le> flt_of_dec (mp_probability_up r)) = (mp_realised_direction r = Some 1)) known
      in if length known < 5 then None
         else Some (py_round 1 (flt (of_nat (length correct) / of_nat (length known)) * flt 100)))"

datatype prediction_response =
    Disabled string nat
  | Predicted string date Prediction "flt option"

datatype prediction_error = PredictionError string int | PredictionRaised backtest_error

definition service_predict ::
  "libm \<Rightarrow> math_fns \<Rightarrow> (string \<Rightarrow> features \<Rightarrow> http_reply) option \<Rightarrow> market_db \<Rightarrow> MacroIndicator list \<Rightarrow> date \<Rightarrow> string \<Rightarrow> int
    \<Rightarrow> string \<Rightarrow> int \<Rightarrow> ModelPrediction list \<Rightarrow> prediction_error + prediction_response \<times> ModelPrediction list" where
  "service_predict lm ma remote mk macros today new_id now symb horizon_days rows =
     (let symb = py_strip (py_upper symb)
      in if find_security mk symb = None
         then Inl (PredictionError (''Unknown symbol '' @ apostrophe @ symb @ apostrophe @ ''.'') 404)
         else let bars = load_recent_bars mk symb
         in if length bars < MIN_BARS_FOR_PREDICTION then Inr (Disabled symb (length bars), rows)
            else let as_of = o_date (last bars)
            in map_sum PredictionRaised id
              (bind_r (collect_r (map feature_bar bars)) (\<lambda>bs.
               bind_r (compute_features lm ma bs (market_context macros as_of)) (\<lambda>fs.
               bind_r (ensemble_predict ma remote symb fs horizon_days) (\<lambda>p.
               bind_r (persist (stored_prediction new_id now symb as_of p) rows) (\<lambda>rows'.
                 Inr (Predicted symb as_of p (live_accuracy_pct rows' symb (pn_model_version p) today), rows')))))))"

definition get_prediction ::
  "libm \<Rightarrow> math_fns \<Rightarrow> (string \<Rightarrow> features \<Rightarrow> http_reply) option \<Rightarrow> market_db \<Rightarrow> MacroIndicator list \<Rightarrow> date \<Rightarrow> string \<Rightarrow> int
    \<Rightarrow> string \<Rightarrow> int \<Rightarrow> ModelPrediction list \<Rightarrow> http_error + prediction_response \<times> ModelPrediction list" where
  "get_prediction lm ma remote mk macros today new_id now symb horizon_days rows =
     (if horizon_days \<notin> {1, 5} then Inl (HTTPException 400 ''horizon_days must be 1 or 5'')
      else case service_predict lm ma remote mk macros today new_id now symb horizon_days rows of
             Inl (PredictionError m status) \<Rightarrow> Inl (HTTPException status m)
           | Inl (PredictionRaised _) \<Rightarrow> Inl ServerError
           | Inr res \<Rightarrow> Inr res)"

section \<open>Bounds of the heuristic\<close>

text \<open>What the code relies on of \<^verbatim>\<open>math.exp\<close>: at a number that is not positive it does not raise and is between 0 and 1.\<close>

definition exp_ok :: "math_fns \<Rightarrow> bool" where
  "exp_ok ma \<longleftrightarrow> (\<forall>x \<le> 0. \<exists>z. ma_exp ma x = Inr z \<and> 0 \<le> z \<and> z \<le> 1)"

lemma sigmoid_bounds:
  assumes "exp_ok ma"
  shows "\<exists>p. sigmoid ma x = Inr p \<and> 0 \<le> p \<and> p \<le> 1"
proof -
  have one: "fl64 1 = 1" using flt_r.exact_int [of 1] by simp
  have "(if 0 \<le> x then - x else x) \<le> 0" by (simp add: flt_le_iff)
  then obtain z where z: "ma_exp ma (if 0 \<le> x then - x else x) = Inr z" "0 \<le> fval z" "fval z \<le> 1"
    using assms by (auto simp: exp_ok_def flt_le_iff)
  have d: "1 \<le> fl64 (1 + fval z)" using flt_r.ge_fixed [OF one, of "1 + fval z"] z(2) by simp
  have "0 \<le> fl64 (y / fl64 (1 + fval z)) \<and> fl64 (y / fl64 (1 + fval z)) \<le> 1" if "0 \<le> y" "y \<le> 1" for y
  proof
    show "0 \<le> fl64 (y / fl64 (1 + fval z))" using that d by (intro flt_r.nonneg) simp
    show "fl64 (y / fl64 (1 + fval z)) \<le> 1" using that d by (intro flt_r.le_fixed [OF one]) (simp add: divide_le_eq)
  qed
  then show ?thesis using z by (auto simp: sigmoid_def flt_le_iff)
qed

lemma stacked_bounds: "flt (1 / 100) \<le> stacked_probability (p # ps) \<and> stacked_probability (p # ps) \<le> flt (99 / 100)"
proof -
  have "flt (1 / 100) \<le> flt (99 / 100)" by (simp add: flt_le_iff flt_def flt_r.mono)
  then show ?thesis by (simp add: stacked_probability_def Let_def)
qed

lemma sample_variance_nonneg:
  assumes "2 \<le> length xs"
  shows "0 \<le> sample_variance xs"
proof -
  have "0 \<le> rat_of_nat (length xs) - 1" using assms by simp
  moreover have "0 \<le> (\<Sum>x\<leftarrow>xs. (fval x - m) ^ 2)" for m :: rat by (induction xs) simp_all
  ultimately show ?thesis by (simp add: sample_variance_def Let_def flt_le_iff flt_def flt_r.nonneg)
qed

lemma confidence_bounds:
  "0 \<le> snd (confidence probs) \<and> snd (confidence probs) \<le> 1 \<and> fst (confidence probs) \<in> {''high'', ''medium'', ''low''}"
proof (cases "length probs < 2")
  case False
  have one: "fl64 1 = 1" using flt_r.exact_int [of 1] by simp
  have "0 \<le> fval (sample_variance probs * flt 12)"
    using sample_variance_nonneg [of probs] False by (simp add: flt_le_iff flt_def flt_r.nonneg)
  then have "fval (1 - sample_variance probs * flt 12) \<le> 1"
    using flt_r.le_fixed [OF one, of "1 - fval (sample_variance probs * flt 12)"] by simp
  then have "max 0 (1 - sample_variance probs * flt 12) \<le> 1" by (simp add: flt_le_iff fval_max)
  moreover have "snd (confidence probs) = max 0 (1 - sample_variance probs * flt 12)"
    using False by (simp add: confidence_def Let_def)
  ultimately show ?thesis by (simp add: confidence_def Let_def)
qed (simp add: confidence_def flt_le_iff)

lemma length_top_contributions: "length (top_contributions fs p) \<le> 3"
  by (simp add: top_contributions_def)

lemma qz_even_unit: "0 \<le> q \<Longrightarrow> q \<le> 1 \<Longrightarrow> 0 \<le> qz_even 4 q \<and> qz_even 4 q \<le> 1"
  using round_half_even_mono [of 0 "q * 10 ^ 4"] round_half_even_mono [of "q * 10 ^ 4" "of_int 10000"] round_half_even_of_int [of 0]
  by (simp add: qz_even_def divide_le_eq del: round_half_even_of_int) (simp add: round_half_even_of_int [of 10000, simplified])

text \<open>A prediction of the heuristic always fits the table.\<close>

lemma persist_heuristic:
  assumes "0 \<le> pn_probability_up p" "pn_probability_up p \<le> 1" "0 \<le> pn_confidence_score p" "pn_confidence_score p \<le> 1"
    and "pn_confidence p \<in> {''high'', ''medium'', ''low''}" "pn_model_version p = MODEL_VERSION"
  shows "persist (stored_prediction new_id now symb as_of p) rows = Inr (rows @ [stored_prediction new_id now symb as_of p])"
proof -
  have "0 \<le> qz_even 4 (fval (pn_probability_up p)) \<and> qz_even 4 (fval (pn_probability_up p)) \<le> 1"
    "0 \<le> qz_even 4 (fval (pn_confidence_score p)) \<and> qz_even 4 (fval (pn_confidence_score p)) \<le> 1"
    using assms(1-4) by (simp_all add: flt_le_iff qz_even_unit)
  moreover have "char_len (pn_confidence p) \<le> 10" "char_len (pn_model_version p) \<le> 40"
    using assms(5,6) by (auto simp: MODEL_VERSION_def char_len_def)
  ultimately show ?thesis using assms(5) by (simp add: persist_def stored_prediction_def)
qed

text \<open>
  C36: without an answer of the inference service the prediction is the heuristic's, and it never fails:
  for any features the probability is between 0.01 and 0.99, those of the three models, the
  confidence score within 0 and 1, at most three features are named, and the row fits the table, so
  that every request appends one. The horizon is only copied: five days ahead has the probability of one.
\<close>

theorem prediction_bounds:
  assumes "exp_ok ma" and "\<And>h. try_remote_predict remote symb fs h = None"
  shows "\<exists>p. (\<forall>h. ensemble_predict ma remote symb fs h = Inr (p\<lparr>pn_horizon_days := h\<rparr>))
    \<and> flt (1 / 100) \<le> pn_probability_up p \<and> pn_probability_up p \<le> flt (99 / 100)
    \<and> map fst (pn_sub_model_probabilities p) = [''lstm'', ''xgboost'', ''random_forest'']
    \<and> list_all (\<lambda>(_, q). 0 \<le> q \<and> q \<le> 1) (pn_sub_model_probabilities p)
    \<and> 0 \<le> pn_confidence_score p \<and> pn_confidence_score p \<le> 1 \<and> length (pn_top_features p) \<le> 3
    \<and> (\<forall>new_id now as_of rows. persist (stored_prediction new_id now symb as_of p) rows
         = Inr (rows @ [stored_prediction new_id now symb as_of p]))"
proof -
  obtain a where a: "model_lstm_proxy ma fs = Inr a" "0 \<le> a" "a \<le> 1" using sigmoid_bounds [OF assms(1)] by (auto simp: model_lstm_proxy_def)
  obtain b where b: "model_xgb_proxy ma fs = Inr b" "0 \<le> b" "b \<le> 1" using sigmoid_bounds [OF assms(1)] by (metis model_xgb_proxy_def)
  obtain c where c: "model_rf_proxy ma fs = Inr c" "0 \<le> c" "c \<le> 1" using sigmoid_bounds [OF assms(1)] by (auto simp: model_rf_proxy_def)
  define p where "p = \<lparr>pn_probability_up = stacked_probability [a, b, c], pn_confidence = fst (confidence [a, b, c]),
    pn_confidence_score = snd (confidence [a, b, c]),
    pn_sub_model_probabilities = [(''lstm'', a), (''xgboost'', b), (''random_forest'', c)],
    pn_top_features = top_contributions fs (stacked_probability [a, b, c]), pn_model_version = MODEL_VERSION, pn_horizon_days = 1\<rparr>"
  have "ensemble_predict ma remote symb fs h = Inr (p\<lparr>pn_horizon_days := h\<rparr>)" for h
    using assms(2) by (simp add: ensemble_predict_def a b c p_def Let_def)
  moreover have unit: "0 \<le> flt (1 / 100)" "flt (99 / 100) \<le> 1"
    using flt_r.le_fixed [of 1 "99 / 100"] flt_r.exact_int [of 1] by (simp_all add: flt_le_iff flt_def flt_r.nonneg)
  moreover have "persist (stored_prediction new_id now symb as_of p) rows = Inr (rows @ [stored_prediction new_id now symb as_of p])"
    for new_id now as_of rows
  proof (rule persist_heuristic)
    show "0 \<le> pn_probability_up p" "pn_probability_up p \<le> 1" using stacked_bounds [of a "[b, c]"] unit by (auto simp: p_def)
  qed (use confidence_bounds [of "[a, b, c]"] in \<open>simp_all add: p_def\<close>)
  ultimately show ?thesis
    using stacked_bounds [of a "[b, c]"] confidence_bounds [of "[a, b, c]"] a b c
    by (intro exI [of _ p]) (simp add: p_def length_top_contributions)
qed

definition ex_math :: math_fns where
  "ex_math = \<lparr>ma_exp = (\<lambda>x. Inr (if x < 0 then 0 else 1)), ma_log = (\<lambda>x. Inr (x - 1))\<rparr>"

theorem prediction_bounds_witness:
  "\<exists>p. ensemble_predict ex_math None ''HBL'' [(''log_return_5d'', Some 1)] 1 = Inr (p\<lparr>pn_horizon_days := 1\<rparr>)
     \<and> ensemble_predict ex_math None ''HBL'' [(''log_return_5d'', Some 1)] 5 = Inr (p\<lparr>pn_horizon_days := 5\<rparr>)
     \<and> pn_probability_up p \<le> flt (99 / 100)"
proof -
  have "exp_ok ex_math" by (auto simp: exp_ok_def ex_math_def flt_le_iff)
  from prediction_bounds [OF this, of None "''HBL''" "[(''log_return_5d'', Some 1)]"] show ?thesis
    by (auto simp: try_remote_predict_def)
qed

section \<open>The trained models\<close>

text \<open>The names of the features are the ones the manifest of a model expects, in their order.\<close>

lemma feature_names: "bars \<noteq> [] \<Longrightarrow> compute_features lm ma bars context = Inr fs \<Longrightarrow> map fst fs = FEATURE_NAMES"
  by (auto simp: compute_features_def Let_def bind_r_Inr_iff log_returns_def FEATURE_NAMES_def split: if_splits)

lemma features_incomplete:
  assumes "bars \<noteq> []" "compute_features lm ma bars (market_context macros as_of) = Inr fs"
  shows "list_ex (\<lambda>(_, v). v = None) fs"
  using assms by (auto simp: compute_features_def Let_def bind_r_Inr_iff market_context_def)

lemma remote_rejects: "list_ex (\<lambda>(_, v). v = None) fs \<Longrightarrow> try_remote_predict (Some (post_predict lm ma registry)) symb fs h = None"
  by (simp add: try_remote_predict_def post_predict_def)

lemma ensemble_predict_rejected:
  "list_ex (\<lambda>(_, v). v = None) fs \<Longrightarrow> ensemble_predict ma (Some (post_predict lm ma' registry)) symb fs h = ensemble_predict ma None symb fs h"
  by (simp add: ensemble_predict_def remote_rejects) (simp add: try_remote_predict_def)

text \<open>
  C35: the trained models are never used. Whatever models the inference service has loaded, the endpoint
  answers and stores exactly what it does with no inference service: the returns of the index and
  of the sector are always missing, and the service rejects a body with a missing feature.
\<close>

theorem trained_models_never_used:
  "get_prediction lm ma (Some (post_predict lm ma registry)) mk macros today new_id now symb horizon_days rows
    = get_prediction lm ma None mk macros today new_id now symb horizon_days rows"
proof -
  have eq: "bind_r (compute_features lm ma bs (market_context macros as_of)) (\<lambda>fs. bind_r (ensemble_predict ma (Some (post_predict lm ma registry)) s fs h) (g fs))
    = bind_r (compute_features lm ma bs (market_context macros as_of)) (\<lambda>fs. bind_r (ensemble_predict ma None s fs h) (g fs))"
    if "bs \<noteq> []" for bs as_of s h and g :: "features \<Rightarrow> Prediction \<Rightarrow> backtest_error + 'b"
    using that by (cases "compute_features lm ma bs (market_context macros as_of)")
      (simp_all add: ensemble_predict_rejected [OF features_incomplete])
  have "service_predict lm ma (Some (post_predict lm ma registry)) mk macros today new_id now symb horizon_days rows
    = service_predict lm ma None mk macros today new_id now symb horizon_days rows"
  proof (cases "length (load_recent_bars mk (py_strip (py_upper symb))) < MIN_BARS_FOR_PREDICTION")
    case False
    then have "bs \<noteq> []" if "collect_r (map feature_bar (load_recent_bars mk (py_strip (py_upper symb)))) = Inr bs" for bs
      using length_collect_r [OF that] by (auto simp: MIN_BARS_FOR_PREDICTION_def)
    then show ?thesis
      by (cases "collect_r (map feature_bar (load_recent_bars mk (py_strip (py_upper symb))))")
        (simp_all add: service_predict_def Let_def eq)
  qed (simp add: service_predict_def Let_def)
  then show ?thesis unfolding get_prediction_def by (rule arg_cong)
qed

text \<open>
  Nothing writes the realised direction: the rows of the endpoint have none, so the live accuracy stays unknown.
\<close>

lemma live_accuracy_unknown:
  assumes "list_all (\<lambda>r. mp_realised_direction r = None) rows"
    and "get_prediction lm ma remote mk macros today new_id now symb horizon_days rows = Inr (resp, rows')"
  shows "list_all (\<lambda>r. mp_realised_direction r = None) rows' \<and> (\<forall>s d p acc. resp = Predicted s d p acc \<longrightarrow> acc = None)"
proof -
  have none: "live_accuracy_pct rs s v t = None" if "list_all (\<lambda>r. mp_realised_direction r = None) rs" for rs s v t
    using that by (simp add: live_accuracy_pct_def Let_def list_all_iff filter_False cong: filter_cong)
  have keep: "list_all (\<lambda>r. mp_realised_direction r = None) rs'" if "persist (stored_prediction i n s d p) rows = Inr rs'" for i n s d p rs'
    using that assms(1) by (auto simp: persist_def stored_prediction_def split: if_splits)
  show ?thesis
    using assms by (auto simp: get_prediction_def service_predict_def Let_def map_sum_def bind_r_Inr_iff none keep
        split: if_splits sum.splits prediction_error.splits dest: keep)
qed

end
