(* ===== verification/Securities.thy ===== *)
theory Securities
  imports Market Py_Conv
begin

text \<open>
  Reading the market tables: the cache \<^verbatim>\<open>psx_api/cache.py\<close>, the securities with prices, fundamentals,
  announcements and quotes (\<^verbatim>\<open>services/securities_service.py\<close>, \<^verbatim>\<open>routers/securities.py\<close>). A handler takes
  the cache and returns it, also when it raises: what Redis was told stays.
\<close>

section \<open>The cache\<close>

text \<open>
  A stored value comes back as it was: dates and decimals are stored as their text and parsed by
  the response model. It lives until its expiry.
\<close>

type_synonym 'v cache = "string \<Rightarrow> (int \<times> 'v) option"
type_synonym ('a, 'v) cache_result = "(http_error + 'a) \<times> 'v cache"

definition cache_get :: "'v cache \<Rightarrow> string \<Rightarrow> int \<Rightarrow> 'v option" where
  "cache_get rd key now = (case rd key of Some (expiry, v) \<Rightarrow> if now < expiry then Some v else None | None \<Rightarrow> None)"

definition cache_set :: "'v cache \<Rightarrow> string \<Rightarrow> 'v \<Rightarrow> int \<Rightarrow> int \<Rightarrow> 'v cache" where
  "cache_set rd key v ttl now = rd(key \<mapsto> (now + ttl, v))"

definition cached ::
  "'v cache \<Rightarrow> int \<Rightarrow> string \<Rightarrow> int \<Rightarrow> http_error + 'v option \<Rightarrow> ('v option, 'v) cache_result" where
  "cached rd now key ttl load =
     (case cache_get rd key now of
        Some v \<Rightarrow> (Inr (Some v), rd)
      | None \<Rightarrow> (case load of
          Inl e \<Rightarrow> (Inl e, rd)
        | Inr None \<Rightarrow> (Inr None, rd)
        | Inr (Some v) \<Rightarrow> (Inr (Some v), cache_set rd key v ttl now)))"

definition bind_c :: "('a, 'v) cache_result \<Rightarrow> ('a \<Rightarrow> 'v cache \<Rightarrow> ('b, 'v) cache_result) \<Rightarrow> ('b, 'v) cache_result" where
  "bind_c r f = (case r of (Inl e, rd) \<Rightarrow> (Inl e, rd) | (Inr x, rd) \<Rightarrow> f x rd)"

lemma bind_c_simps [simp]: "bind_c (Inl e, rd) f = (Inl e, rd)" "bind_c (Inr x, rd) f = f x rd"
  by (simp_all add: bind_c_def)

definition TTL_LIVE :: int where "TTL_LIVE = 60"
definition TTL_LIST :: int where "TTL_LIST = 300"
definition TTL_OHLCV :: int where "TTL_OHLCV = 3600"
definition TTL_FUNDAMENTALS :: int where "TTL_FUNDAMENTALS = 3600"
definition TTL_SECTORS :: int where "TTL_SECTORS = 86400"

section \<open>Formatting of keys, and LIKE\<close>

definition str_of_bool :: "bool \<Rightarrow> string" where "str_of_bool b = (if b then ''True'' else ''False'')"

definition str_of_opt :: "string option \<Rightarrow> string" where "str_of_opt v = (case v of Some s \<Rightarrow> s | None \<Rightarrow> ''None'')"

fun csv :: "string list \<Rightarrow> string" where
  "csv [] = []"
| "csv [s] = s"
| "csv (s # ss) = s @ '','' @ csv ss"

fun split_on :: "char \<Rightarrow> string \<Rightarrow> string list" where
  "split_on d [] = [[]]"
| "split_on d (c # s) = (if c = d then [] # split_on d s else (c # hd (split_on d s)) # tl (split_on d s))"

text \<open>
  \<^verbatim>\<open>LIKE\<close> with the default escape character; the percent sign and the underscore go over whole UTF-8
  characters. \<^verbatim>\<open>ILIKE\<close> ignores the case of ASCII letters.
\<close>

definition continues :: "char \<Rightarrow> bool" where "continues c \<longleftrightarrow> 128 \<le> (of_char c :: nat) \<and> (of_char c :: nat) < 192"

function sql_like :: "string \<Rightarrow> string \<Rightarrow> bool" where
  "sql_like [] s = (s = [])"
| "sql_like (p # ps) [] = (p = CHR ''%'' \<and> sql_like ps [])"
| "sql_like (p # ps) (c # s) =
     (if p = CHR ''%'' then sql_like ps (c # s) \<or> sql_like (p # ps) (dropWhile continues s)
      else if p = CHR ''_'' then sql_like ps (dropWhile continues s)
      else if p = CHR 0x5C then (case ps of q # qs \<Rightarrow> q = c \<and> sql_like qs s | [] \<Rightarrow> False)
      else p = c \<and> sql_like ps s)"
  by pat_completeness auto

lemma length_dropWhile_less: "length (dropWhile P s) < Suc (length s)" "length (dropWhile P s) < Suc (Suc (length s))"
  using length_dropWhile_le [of P s] by linarith+

termination sql_like
  by (relation "measure (\<lambda>(p, s). length p + length s)") (auto simp: length_dropWhile_less)

definition sql_ilike :: "string \<Rightarrow> string \<Rightarrow> bool" where
  "sql_ilike p s = sql_like (py_lower p) (py_lower s)"

section \<open>Securities\<close>

text \<open>The response model: the constraints of the fields, then the symbol in upper case without spaces.\<close>

definition text_between :: "nat \<Rightarrow> nat \<Rightarrow> string \<Rightarrow> bool" where
  "text_between lo hi s \<longleftrightarrow> lo \<le> char_len s \<and> char_len s \<le> hi"

definition valid_base :: "Security \<Rightarrow> bool" where
  "valid_base s \<longleftrightarrow> text_between 1 20 (sec_symbol s) \<and> text_between 1 255 (company_name s) \<and> text_between 1 100 (sector s)"

definition security_response :: "Security \<Rightarrow> http_error + Security" where
  "security_response s = (if valid_base s then Inr (s\<lparr>sec_symbol := py_strip (py_upper (sec_symbol s))\<rparr>) else Inl ServerError)"

record list_query =
  lq_page :: int
  lq_page_size :: int
  lq_sector :: "string option"
  lq_kmi_only :: bool
  lq_kse100_only :: bool
  lq_search :: "string option"
  lq_active_only :: bool

record SecuritiesListResponse =
  sl_items :: "Security list"
  sl_total :: nat
  sl_page :: int
  sl_page_size :: int
  sl_has_next :: bool

record OhlcvListResponse =
  ol_symbol :: string
  ol_interval :: string
  ol_items :: "OhlcvDaily list"
  ol_total :: nat

record FundamentalsResponse =
  fu_symbol :: string
  fu_week_52_high :: "dec option"
  fu_week_52_low :: "dec option"
  fu_avg_volume_30d :: "int option"
  fu_market_cap_pkr :: "int option"
  fu_shares_outstanding :: "int option"

record AnnouncementResponse =
  an_id :: int
  an_symbol :: string
  an_action_type :: string
  an_announcement_date :: date
  an_ex_date :: "date option"
  an_record_date :: "date option"
  an_payment_date :: "date option"
  an_amount_per_share :: "dec option"
  an_ratio_numerator :: "int option"
  an_ratio_denominator :: "int option"

record AnnouncementsListResponse =
  al_symbol :: string
  al_items :: "AnnouncementResponse list"
  al_total :: nat

record Quote =
  qt_symbol :: string
  qt_last_close :: "dec option"
  qt_prev_close :: "dec option"
  qt_last_date :: "date option"
  qt_change :: "dec option"
  qt_change_pct :: "dec option"

record IndexPerformance =
  ip_name :: string
  ip_constituent_count :: nat
  ip_last_close_date :: "date option"
  ip_change_1d_pct :: "dec option"
  ip_change_1w_pct :: "dec option"
  ip_change_1m_pct :: "dec option"
  ip_change_ytd_pct :: "dec option"

text \<open>Everything the service caches.\<close>

datatype cache_value =
    CList SecuritiesListResponse
  | CSecurity Security
  | COhlcv OhlcvListResponse
  | CFundamentals FundamentalsResponse
  | CAnnouncements AnnouncementsListResponse
  | CSectors "string list"
  | CQuotes "Quote list"
  | CIndices "IndexPerformance list"

type_synonym market_cache = "cache_value cache"
type_synonym 'a reply = "('a, cache_value) cache_result"

subsection \<open>The list\<close>

definition list_key :: "list_query \<Rightarrow> string" where
  "list_key q = ''sec_list:'' @ str_of_int (lq_page q) @ '':'' @ str_of_int (lq_page_size q) @ '':'' @ str_of_opt (lq_sector q) @ '':''
     @ str_of_bool (lq_kmi_only q) @ '':'' @ str_of_bool (lq_kse100_only q) @ '':'' @ str_of_opt (lq_search q) @ '':''
     @ str_of_bool (lq_active_only q)"

definition nonempty_arg :: "string option \<Rightarrow> string option" where "nonempty_arg v = (if v = Some [] then None else v)"

definition selected :: "list_query \<Rightarrow> Security \<Rightarrow> bool" where
  "selected q s \<longleftrightarrow> (lq_active_only q \<longrightarrow> is_active s)
     \<and> (case nonempty_arg (lq_sector q) of Some x \<Rightarrow> sector s = x | None \<Rightarrow> True)
     \<and> (lq_kmi_only q \<longrightarrow> is_kmi_compliant s) \<and> (lq_kse100_only q \<longrightarrow> is_kse100 s)
     \<and> (case nonempty_arg (lq_search q) of
          Some x \<Rightarrow> sql_like (''%'' @ py_upper x @ ''%'') (sec_symbol s) \<or> sql_ilike (''%'' @ x @ ''%'') (company_name s)
        | None \<Rightarrow> True)"

definition found :: "market_db \<Rightarrow> list_query \<Rightarrow> Security list" where
  "found mk q = sort_key sec_symbol (filter (selected q) (security_rows mk))"

definition load_list :: "market_db \<Rightarrow> list_query \<Rightarrow> http_error + SecuritiesListResponse" where
  "load_list mk q =
     (let rows = found mk q; offset = (lq_page q - 1) * lq_page_size q
      in if offset < 0 \<or> 2 ^ 63 \<le> offset \<or> lq_page_size q < 0 then Inl ServerError
         else let items = take (nat (lq_page_size q)) (drop (nat offset) rows)
         in bind_r (collect_r (map security_response items)) (\<lambda>shown.
              Inr \<lparr>sl_items = shown, sl_total = length rows, sl_page = lq_page q, sl_page_size = lq_page_size q,
                   sl_has_next = (nat offset + length items < length rows)\<rparr>))"

text \<open>What comes out of the cache is validated once more.\<close>

definition list_response :: "cache_value option \<Rightarrow> http_error + SecuritiesListResponse" where
  "list_response v = (case v of
       Some (CList r) \<Rightarrow> bind_r (collect_r (map security_response (sl_items r))) (\<lambda>items. Inr (r\<lparr>sl_items := items\<rparr>))
     | _ \<Rightarrow> Inl ServerError)"

definition service_list :: "market_db \<Rightarrow> market_cache \<Rightarrow> int \<Rightarrow> list_query \<Rightarrow> SecuritiesListResponse reply" where
  "service_list mk rd now q =
     bind_c (cached rd now (list_key q) TTL_LIST (bind_r (load_list mk q) (\<lambda>r. Inr (Some (CList r))))) (\<lambda>v rd'.
       (list_response v, rd'))"

definition list_securities ::
  "market_db \<Rightarrow> market_cache \<Rightarrow> int \<Rightarrow> int \<Rightarrow> int \<Rightarrow> string option \<Rightarrow> bool \<Rightarrow> bool \<Rightarrow> string option \<Rightarrow> SecuritiesListResponse reply" where
  "list_securities mk rd now page page_size sec kmi_only kse100_only search =
     (if page < 1 \<or> page_size < 1 \<or> 200 < page_size then (Inl (HTTPException 422 []), rd)
      else service_list mk rd now \<lparr>lq_page = page, lq_page_size = page_size, lq_sector = sec, lq_kmi_only = kmi_only,
             lq_kse100_only = kse100_only, lq_search = search, lq_active_only = True\<rparr>)"

subsection \<open>One security\<close>

definition load_security :: "market_db \<Rightarrow> string \<Rightarrow> http_error + cache_value option" where
  "load_security mk symb =
     (case find_security mk (py_upper symb) of
        None \<Rightarrow> Inr None
      | Some s \<Rightarrow> bind_r (security_response s) (\<lambda>r. Inr (Some (CSecurity r))))"

definition service_security :: "market_db \<Rightarrow> market_cache \<Rightarrow> int \<Rightarrow> string \<Rightarrow> Security option reply" where
  "service_security mk rd now symb =
     bind_c (cached rd now (''sec:'' @ py_upper symb) TTL_LIST (load_security mk symb)) (\<lambda>v rd'.
       (case v of
          None \<Rightarrow> Inr None
        | Some (CSecurity s) \<Rightarrow> bind_r (security_response s) (\<lambda>r. Inr (Some r))
        | _ \<Rightarrow> Inl ServerError, rd'))"

definition security_missing :: "string \<Rightarrow> http_error" where
  "security_missing symb = HTTPException 404 (''Security '' @ apostrophe @ py_upper symb @ apostrophe @ '' not found.'')"

definition get_security :: "market_db \<Rightarrow> market_cache \<Rightarrow> int \<Rightarrow> string \<Rightarrow> Security reply" where
  "get_security mk rd now symb =
     bind_c (service_security mk rd now symb) (\<lambda>v rd'. case v of
       Some s \<Rightarrow> (Inr s, rd') | None \<Rightarrow> (Inl (security_missing symb), rd'))"

text \<open>The body of an upsert; an optional field may be left out.\<close>

record SecurityCreate =
  sc_base :: Security
  sc_fields_set :: "string list"

definition valid_security_create :: "SecurityCreate \<Rightarrow> bool" where
  "valid_security_create body \<longleftrightarrow> valid_base (sc_base body) \<and> set [''symbol'', ''company_name'', ''sector''] \<subseteq> set (sc_fields_set body)"

definition int8 :: "int option \<Rightarrow> bool" where
  "int8 v = (case v of Some n \<Rightarrow> - (2 ^ 63) \<le> n \<and> n < 2 ^ 63 | None \<Rightarrow> True)"

text \<open>The fields that were given replace those of a row.\<close>

definition overwrite :: "string list \<Rightarrow> Security \<Rightarrow> Security \<Rightarrow> Security" where
  "overwrite given new old =
     (let pick = (\<lambda>name f. if name \<in> set given then f new else f old)
      in \<lparr>sec_symbol = pick ''symbol'' sec_symbol, company_name = pick ''company_name'' company_name,
          sector = pick ''sector'' sector,
          is_kmi_compliant = (if ''is_kmi_compliant'' \<in> set given then is_kmi_compliant new else is_kmi_compliant old),
          is_kse100 = (if ''is_kse100'' \<in> set given then is_kse100 new else is_kse100 old),
          is_kse30 = (if ''is_kse30'' \<in> set given then is_kse30 new else is_kse30 old),
          market_cap_pkr = (if ''market_cap_pkr'' \<in> set given then market_cap_pkr new else market_cap_pkr old),
          shares_outstanding = (if ''shares_outstanding'' \<in> set given then shares_outstanding new else shares_outstanding old),
          listed_at = (if ''listed_at'' \<in> set given then listed_at new else listed_at old),
          delisted_at = (if ''delisted_at'' \<in> set given then delisted_at new else delisted_at old),
          is_active = (if ''is_active'' \<in> set given then is_active new else is_active old)\<rparr>)"

definition upsert_security :: "SecurityCreate \<Rightarrow> market_db \<Rightarrow> http_error + Security \<times> market_db" where
  "upsert_security body mk =
     (let given = (sc_base body)\<lparr>sec_symbol := py_strip (py_upper (sec_symbol (sc_base body)))\<rparr>;
          new = (case find_security mk (sec_symbol given) of
                   Some old \<Rightarrow> overwrite (sc_fields_set body) given old | None \<Rightarrow> given)
      in if \<not> int8 (market_cap_pkr new) \<or> \<not> int8 (shares_outstanding new) then Inl ServerError
         else let rows = (if find_security mk (sec_symbol given) = None then security_rows mk @ [new]
                else map (\<lambda>s. if sec_symbol s = sec_symbol given then new else s) (security_rows mk))
         in bind_r (security_response new) (\<lambda>r. Inr (r, mk\<lparr>security_rows := rows\<rparr>)))"

subsection \<open>Prices, fundamentals, announcements\<close>

definition str_of_date :: "date option \<Rightarrow> string" where "str_of_date v = str_of_opt (map_option date_isoformat v)"

definition load_ohlcv :: "market_db \<Rightarrow> string \<Rightarrow> date option \<Rightarrow> date option \<Rightarrow> int \<Rightarrow> OhlcvListResponse" where
  "load_ohlcv mk symb date_from date_to limit =
     (let rows = take (nat limit) (sort_key_desc o_date (filter (\<lambda>x. o_symbol x = py_upper symb
            \<and> (case date_from of Some d \<Rightarrow> d \<le> o_date x | None \<Rightarrow> True)
            \<and> (case date_to of Some d \<Rightarrow> o_date x \<le> d | None \<Rightarrow> True)) (ohlcv_rows mk)))
      in \<lparr>ol_symbol = py_upper symb, ol_interval = ''daily'', ol_items = rows, ol_total = length rows\<rparr>)"

definition ohlcv_key :: "string \<Rightarrow> date option \<Rightarrow> date option \<Rightarrow> int \<Rightarrow> bool \<Rightarrow> string" where
  "ohlcv_key symb date_from date_to limit adjusted =
     ''ohlcv:'' @ py_upper symb @ '':'' @ str_of_date date_from @ '':'' @ str_of_date date_to @ '':'' @ str_of_int limit @ '':''
       @ str_of_bool adjusted"

definition service_ohlcv ::
  "market_db \<Rightarrow> market_cache \<Rightarrow> int \<Rightarrow> string \<Rightarrow> date option \<Rightarrow> date option \<Rightarrow> int \<Rightarrow> bool \<Rightarrow> OhlcvListResponse reply" where
  "service_ohlcv mk rd now symb date_from date_to limit adjusted =
     bind_c (cached rd now (ohlcv_key symb date_from date_to limit adjusted) TTL_OHLCV
       (Inr (Some (COhlcv (load_ohlcv mk symb date_from date_to limit))))) (\<lambda>v rd'.
       (case v of Some (COhlcv r) \<Rightarrow> Inr r | _ \<Rightarrow> Inl ServerError, rd'))"

definition get_ohlcv ::
  "market_db \<Rightarrow> market_cache \<Rightarrow> int \<Rightarrow> string \<Rightarrow> date option \<Rightarrow> date option \<Rightarrow> int \<Rightarrow> bool \<Rightarrow> OhlcvListResponse reply" where
  "get_ohlcv mk rd now symb date_from date_to limit adjusted =
     (if limit < 1 \<or> 2000 < limit then (Inl (HTTPException 422 []), rd)
      else bind_c (get_security mk rd now symb) (\<lambda>_ rd'. service_ohlcv mk rd' now symb date_from date_to limit adjusted))"

text \<open>\<^verbatim>\<open>d.replace(year=y, month=m)\<close> keeps the day, which the other month may not have: \<^verbatim>\<open>ValueError\<close>.\<close>

definition date_replace :: "date \<Rightarrow> int \<Rightarrow> int \<Rightarrow> http_error + date" where
  "date_replace d y m = (if ymd_valid y m (day_of d) then Inr (mk_date y m (day_of d)) else Inl ServerError)"

definition month_ago :: "date \<Rightarrow> http_error + date" where
  "month_ago today =
     (if 1 < month_of today then date_replace today (year_of today) (month_of today - 1)
      else date_replace today (year_of today - 1) 12)"

definition some_nonzero :: "dec option \<Rightarrow> dec option" where "some_nonzero v = (if v = Some (Dec 0) then None else v)"

definition best :: "(dec \<Rightarrow> dec \<Rightarrow> dec) \<Rightarrow> dec list \<Rightarrow> dec option" where
  "best f xs = (case xs of [] \<Rightarrow> None | y # ys \<Rightarrow> Some (foldl f y ys))"

definition average_volume :: "int list \<Rightarrow> int option" where
  "average_volume vols =
     (if vols = [] \<or> sum_list vols = 0 then None else Some (truncate_rat (of_int (sum_list vols) / of_nat (length vols))))"

definition load_fundamentals :: "market_db \<Rightarrow> date \<Rightarrow> string \<Rightarrow> http_error + cache_value option" where
  "load_fundamentals mk today symb =
     (case find_security mk symb of
        None \<Rightarrow> Inr None
      | Some s \<Rightarrow>
          bind_r (date_replace today (year_of today - 1) (month_of today)) (\<lambda>year_ago.
          let year = filter (\<lambda>x. o_symbol x = symb \<and> year_ago \<le> o_date x) (ohlcv_rows mk)
          in bind_r (month_ago today) (\<lambda>since.
             let month = filter (\<lambda>x. o_symbol x = symb \<and> since \<le> o_date x) (ohlcv_rows mk)
             in Inr (Some (CFundamentals \<lparr>fu_symbol = symb,
                  fu_week_52_high = some_nonzero (best max (List.map_filter o_high year)),
                  fu_week_52_low = some_nonzero (best min (List.map_filter o_low year)),
                  fu_avg_volume_30d = average_volume (List.map_filter o_volume month),
                  fu_market_cap_pkr = market_cap_pkr s, fu_shares_outstanding = shares_outstanding s\<rparr>)))))"

definition get_fundamentals :: "market_db \<Rightarrow> market_cache \<Rightarrow> int \<Rightarrow> date \<Rightarrow> string \<Rightarrow> FundamentalsResponse reply" where
  "get_fundamentals mk rd now today symb =
     bind_c (cached rd now (''fundamentals:'' @ py_upper symb) TTL_FUNDAMENTALS (load_fundamentals mk today (py_upper symb))) (\<lambda>v rd'.
       (case v of Some (CFundamentals r) \<Rightarrow> Inr r | None \<Rightarrow> Inl (security_missing symb) | _ \<Rightarrow> Inl ServerError, rd'))"

definition announcement :: "CorporateAction \<Rightarrow> AnnouncementResponse" where
  "announcement c = \<lparr>an_id = ca_id c, an_symbol = ca_symbol c, an_action_type = ca_action_type c,
     an_announcement_date = ca_announcement_date c, an_ex_date = ca_ex_date c, an_record_date = ca_record_date c,
     an_payment_date = ca_payment_date c, an_amount_per_share = ca_amount_per_share c,
     an_ratio_numerator = ca_ratio_numerator c, an_ratio_denominator = ca_ratio_denominator c\<rparr>"

definition service_announcements :: "CorporateAction list \<Rightarrow> market_cache \<Rightarrow> int \<Rightarrow> string \<Rightarrow> int \<Rightarrow> AnnouncementsListResponse reply" where
  "service_announcements actions rd now symb limit =
     (let symb = py_upper symb;
          items = map announcement (take (nat limit) (sort_key_desc ca_announcement_date (filter (\<lambda>c. ca_symbol c = symb) actions)))
      in bind_c (cached rd now (''announcements:'' @ symb @ '':'' @ str_of_int limit) TTL_LIST
           (Inr (Some (CAnnouncements \<lparr>al_symbol = symb, al_items = items, al_total = length items\<rparr>)))) (\<lambda>v rd'.
           (case v of Some (CAnnouncements r) \<Rightarrow> Inr r | _ \<Rightarrow> Inl ServerError, rd')))"

definition get_announcements ::
  "market_db \<Rightarrow> CorporateAction list \<Rightarrow> market_cache \<Rightarrow> int \<Rightarrow> string \<Rightarrow> int \<Rightarrow> AnnouncementsListResponse reply" where
  "get_announcements mk actions rd now symb limit =
     (if limit < 1 \<or> 200 < limit then (Inl (HTTPException 422 []), rd)
      else bind_c (get_security mk rd now symb) (\<lambda>_ rd'. service_announcements actions rd' now symb limit))"

subsection \<open>Sectors, quotes, indices\<close>

definition list_sectors :: "market_db \<Rightarrow> market_cache \<Rightarrow> int \<Rightarrow> string list reply" where
  "list_sectors mk rd now =
     bind_c (cached rd now ''sectors'' TTL_SECTORS (Inr (Some (CSectors (sort (remdups (map sector (filter is_active (security_rows mk)))))))))
       (\<lambda>v rd'. (case v of Some (CSectors xs) \<Rightarrow> Inr xs | _ \<Rightarrow> Inr [], rd'))"

text \<open>The two latest rows of a symbol.\<close>

definition last_row :: "market_db \<Rightarrow> string \<Rightarrow> OhlcvDaily option" where
  "last_row mk symb = (case newest_first mk symb of x # _ \<Rightarrow> Some x | [] \<Rightarrow> None)"

definition prev_row :: "market_db \<Rightarrow> string \<Rightarrow> OhlcvDaily option" where
  "prev_row mk symb = (case newest_first mk symb of _ # y # _ \<Rightarrow> Some y | _ \<Rightarrow> None)"

definition quote :: "market_db \<Rightarrow> string \<Rightarrow> Quote" where
  "quote mk symb =
     (let last_close = Option.bind (last_row mk symb) o_close; prev_close = Option.bind (prev_row mk symb) o_close;
          change = (case (last_close, prev_close) of (Some l, Some p) \<Rightarrow> Some (l - p) | _ \<Rightarrow> None)
      in \<lparr>qt_symbol = symb, qt_last_close = last_close, qt_prev_close = prev_close,
          qt_last_date = map_option o_date (last_row mk symb), qt_change = change,
          qt_change_pct = (case (change, some_nonzero prev_close) of (Some c, Some p) \<Rightarrow> Some (c / p * Dec 100) | _ \<Rightarrow> None)\<rparr>)"

definition cleaned :: "string list \<Rightarrow> string list" where
  "cleaned symbols = map (\<lambda>s. py_strip (py_upper s)) (filter (\<lambda>s. py_strip s \<noteq> []) symbols)"

definition quotes_key :: "string list \<Rightarrow> string" where
  "quotes_key symbols = ''quotes:'' @ csv (sort (remdups symbols))"

definition service_quotes :: "market_db \<Rightarrow> market_cache \<Rightarrow> int \<Rightarrow> string list \<Rightarrow> Quote list reply" where
  "service_quotes mk rd now symbols =
     (if symbols = [] then (Inr [], rd)
      else bind_c (cached rd now (quotes_key (cleaned symbols)) TTL_LIVE (Inr (Some (CQuotes (map (quote mk) (cleaned symbols))))))
        (\<lambda>v rd'. (case v of Some (CQuotes xs) \<Rightarrow> Inr xs | _ \<Rightarrow> Inl ServerError, rd')))"

definition get_quotes :: "market_db \<Rightarrow> market_cache \<Rightarrow> int \<Rightarrow> string \<Rightarrow> Quote list reply" where
  "get_quotes mk rd now symbols =
     (let parts = filter (\<lambda>s. s \<noteq> []) (map py_strip (split_on (CHR '','') symbols))
      in if parts = [] then (Inr [], rd)
         else if 100 < length parts then (Inl (HTTPException 400 ''At most 100 symbols per request.''), rd)
         else service_quotes mk rd now parts)"

definition index_performance :: "market_db \<Rightarrow> string \<times> (Security \<Rightarrow> bool) \<Rightarrow> IndexPerformance" where
  "index_performance mk = (\<lambda>(name, flag).
     \<lparr>ip_name = name, ip_constituent_count = length (filter (\<lambda>s. is_active s \<and> flag s) (security_rows mk)), ip_last_close_date = None,
      ip_change_1d_pct = None, ip_change_1w_pct = None, ip_change_1m_pct = None, ip_change_ytd_pct = None\<rparr>)"

definition get_indices :: "market_db \<Rightarrow> market_cache \<Rightarrow> int \<Rightarrow> IndexPerformance list reply" where
  "get_indices mk rd now =
     bind_c (cached rd now ''indices'' TTL_LIVE (Inr (Some (CIndices (map (index_performance mk)
         [(''KSE-100'', is_kse100), (''KSE-30'', is_kse30), (''KMI-30'', is_kmi_compliant)])))))
       (\<lambda>v rd'. (case v of Some (CIndices xs) \<Rightarrow> Inr xs | _ \<Rightarrow> Inl ServerError, rd'))"

section \<open>The cache serves what was loaded\<close>

text \<open>
  Along with the cache goes a log of what was loaded and stored: key, value, time and lifetime. An
  entry is always one of the log, so that a value is served for its lifetime at most and only under
  the key it was loaded for.
\<close>

inductive cache_step :: "'v cache \<times> (string \<times> 'v \<times> int \<times> int) list \<Rightarrow> 'v cache \<times> (string \<times> 'v \<times> int \<times> int) list \<Rightarrow> bool" where
  cache_step: "cached rd now key ttl load = (r, rd') \<Longrightarrow>
    cache_step (rd, hist) (rd', case load of Inr (Some v) \<Rightarrow> (key, v, now, ttl) # hist | _ \<Rightarrow> hist)"

definition cache_inv :: "'v cache \<times> (string \<times> 'v \<times> int \<times> int) list \<Rightarrow> bool" where
  "cache_inv = (\<lambda>(rd, hist). \<forall>key expiry v. rd key = Some (expiry, v) \<longrightarrow> (\<exists>t ttl. (key, v, t, ttl) \<in> set hist \<and> expiry = t + ttl))"

interpretation cache: invariant_system "\<lambda>(rd, hist). rd = Map.empty" cache_step cache_inv
proof unfold_locales
  show "cache_inv s" if "(\<lambda>(rd, hist). rd = Map.empty) s" for s :: "'v cache \<times> (string \<times> 'v \<times> int \<times> int) list"
    using that by (auto simp: cache_inv_def)
  show "cache_inv t" if "cache_inv s" "cache_step s t" for s t :: "'v cache \<times> (string \<times> 'v \<times> int \<times> int) list"
    using that(2,1)
  proof cases
    case (cache_step rd now key ttl load r rd' hist)
    then show ?thesis using that(1)
      by (auto simp: cache_inv_def cached_def cache_set_def split: option.splits sum.splits if_splits; blast)
  qed
qed

lemma cache_fresh:
  assumes "reach (\<lambda>(rd, hist). rd = Map.empty) cache_step (rd, hist)" "cached rd now key ttl load = (Inr (Some v), rd')"
  shows "load = Inr (Some v) \<or> (\<exists>t life. (key, v, t, life) \<in> set hist \<and> now < t + life)"
proof -
  have "cache_inv (rd, hist)" using assms(1) by (rule cache.reach_inv)
  then show ?thesis using assms(2)
    by (auto simp: cached_def cache_get_def cache_inv_def split: option.splits sum.splits if_splits; metis)
qed

section \<open>Searching\<close>

lemma sql_like_percent: "sql_like (CHR ''%'' # ps) s \<longleftrightarrow> sql_like ps s \<or> (s \<noteq> [] \<and> sql_like (CHR ''%'' # ps) (dropWhile continues (tl s)))"
  by (cases s) auto

lemma sql_like_any: "sql_like ''%'' s"
  by (induction s rule: length_induct) (metis length_dropWhile_less(1) length_Cons list.exhaust list.sel(3) sql_like.simps(1) sql_like_percent)

definition plain_char :: "char \<Rightarrow> bool" where
  "plain_char c \<longleftrightarrow> c \<noteq> CHR ''%'' \<and> c \<noteq> CHR ''_'' \<and> c \<noteq> CHR 0x5C"

lemma sql_like_prefix: "list_all plain_char p \<Longrightarrow> sql_like (p @ ''%'') s \<longleftrightarrow> startswith p s"
proof (induction p s rule: startswith.induct)
  case (1 s)
  then show ?case using sql_like_any by simp
qed (auto simp: plain_char_def)

text \<open>A search for a text without wildcards that begins a character finds the strings that contain it.\<close>

lemma sql_like_contains:
  assumes "list_all plain_char p" "p = [] \<or> \<not> continues (hd p)"
  shows "sql_like (''%'' @ p @ ''%'') s \<longleftrightarrow> contains_str p s"
proof (induction s rule: length_induct)
  case (1 s)
  show ?case
  proof (cases s)
    case Nil
    then show ?thesis using sql_like_prefix [OF assms(1), of "[]"] by (cases p) simp_all
  next
    case (Cons c t)
    have "contains_str p (dropWhile continues t) \<longleftrightarrow> contains_str p t" if "p \<noteq> []"
    proof -
      have nc: "\<not> continues (hd p)" using assms(2) that by simp
      show ?thesis
      proof (induction t)
        case (Cons d t)
        then show ?case using nc that by (cases p) auto
      qed simp
    qed
    moreover have "sql_like (''%'' @ p @ ''%'') (dropWhile continues t) \<longleftrightarrow> contains_str p (dropWhile continues t)"
      using 1 length_dropWhile_less(1) [of continues t] by (simp add: Cons)
    ultimately show ?thesis using sql_like_prefix [OF assms(1), of s] sql_like_percent [of "p @ ''%''" s]
      by (cases "p = []") (auto simp: Cons)
  qed
qed

section \<open>Pages\<close>

lemma concat_pages: "concat (map (\<lambda>p. take n (drop (p * n) xs)) [0..<k]) = take (k * n) xs"
proof (induction k)
  case (Suc k)
  have "take (Suc k * n) xs = take (k * n) xs @ take n (drop (k * n) xs)" by (simp add: take_add add.commute [of n])
  then show ?case using Suc by simp
qed simp

text \<open>A row as the endpoints store it: its fields are valid and its symbol is in upper case.\<close>

definition stored_ok :: "Security \<Rightarrow> bool" where
  "stored_ok s \<longleftrightarrow> valid_base s \<and> py_strip (py_upper (sec_symbol s)) = sec_symbol s"

lemma response_row: "stored_ok s \<Longrightarrow> security_response s = Inr s"
  by (simp add: stored_ok_def security_response_def)

lemma response_rows: "list_all stored_ok xs \<Longrightarrow> collect_r (map security_response xs) = Inr xs"
  by (induction xs) (simp_all add: response_row)

lemma found_ok: "list_all stored_ok (security_rows mk) \<Longrightarrow> list_all stored_ok (found mk q)"
  by (simp add: found_def list_all_iff)

lemma page_served:
  assumes "list_all stored_ok (security_rows mk)" "1 \<le> sz" "sz \<le> 200" "int (p * sz) < 2 ^ 63"
    and "cache_get rd (list_key q) now = None"
    and q: "q = \<lparr>lq_page = int (Suc p), lq_page_size = int sz, lq_sector = sec, lq_kmi_only = kmi, lq_kse100_only = kse,
      lq_search = search, lq_active_only = True\<rparr>"
  shows "fst (list_securities mk rd now (int (Suc p)) (int sz) sec kmi kse search) = Inr \<lparr>sl_items = take sz (drop (p * sz) (found mk q)),
    sl_total = length (found mk q), sl_page = int (Suc p), sl_page_size = int sz, sl_has_next = (Suc p * sz < length (found mk q))\<rparr>"
proof -
  let ?items = "take sz (drop (p * sz) (found mk q))"
  have fields: "lq_page q = int (Suc p)" "lq_page_size q = int sz" by (simp_all add: q)
  have off: "(lq_page q - 1) * lq_page_size q = int (p * sz)" by (simp add: fields)
  have ok: "list_all stored_ok ?items" using found_ok [OF assms(1), of q] by (auto simp: list_all_iff dest: in_set_takeD in_set_dropD)
  have more: "(p * sz + length ?items < length (found mk q)) = (Suc p * sz < length (found mk q))"
    using assms(2) by (auto simp: min_def)
  define r where "r = \<lparr>sl_items = ?items, sl_total = length (found mk q), sl_page = int (Suc p), sl_page_size = int sz,
    sl_has_next = (Suc p * sz < length (found mk q))\<rparr>"
  have load: "load_list mk q = Inr r"
    unfolding load_list_def Let_def off nat_int using assms(4) response_rows [OF ok] more
    by (simp only: fields r_def) (simp flip: of_nat_mult)
  have "list_response (Some (CList r)) = Inr r" using response_rows [OF ok] by (simp add: list_response_def r_def)
  then have "fst (service_list mk rd now q) = Inr r"
    using assms(5) by (simp add: service_list_def load cached_def)
  moreover have "list_securities mk rd now (int (Suc p)) (int sz) sec kmi kse search = service_list mk rd now q"
    using assms(2,3) by (simp add: list_securities_def q)
  ultimately show ?thesis by (simp add: r_def)
qed


definition ex_stock :: "string \<Rightarrow> Security" where
  "ex_stock symb = \<lparr>sec_symbol = symb, company_name = ''Bank'', sector = ''Banks'', is_kmi_compliant = False, is_kse100 = True,
     is_kse30 = True, market_cap_pkr = None, shares_outstanding = None, listed_at = None, delisted_at = None, is_active = True\<rparr>"

definition ex_stocks :: market_db where
  "ex_stocks = \<lparr>security_rows = [ex_stock ''UBL'', ex_stock ''HBL'', ex_stock ''MCB''], ohlcv_rows = []\<rparr>"

lemma ex_stocks_ok: "list_all stored_ok (security_rows ex_stocks)" by code_simp

definition ex_list :: "string option \<Rightarrow> list_query" where
  "ex_list search = \<lparr>lq_page = 1, lq_page_size = 2, lq_sector = None, lq_kmi_only = False, lq_kse100_only = False,
     lq_search = search, lq_active_only = True\<rparr>"


section \<open>Keys that say too little\<close>

text \<open>
  The cache mixes up a search for the word None with no search at all. When the former has been
  answered, the whole list asked for with the same parameters within the next five minutes is the
  answer of the search, whatever the table holds by then.
\<close>

lemma list_cache_confused:
  assumes "list_securities mk rd now page page_size sec kmi kse (Some ''None'') = (Inr r, rd')"
    and "cache_get rd (list_key \<lparr>lq_page = page, lq_page_size = page_size, lq_sector = sec, lq_kmi_only = kmi, lq_kse100_only = kse,
      lq_search = None, lq_active_only = True\<rparr>) now = None" "now' < now + 300"
  shows "fst (list_securities mk' rd' now' page page_size sec kmi kse None) = Inr r"
proof -
  define q where "q v = \<lparr>lq_page = page, lq_page_size = page_size, lq_sector = sec, lq_kmi_only = kmi, lq_kse100_only = kse,
      lq_search = v, lq_active_only = True\<rparr>" for v
  have range: "\<not> (page < 1 \<or> page_size < 1 \<or> 200 < page_size)" using assms(1) by (auto simp: list_securities_def split: if_splits)
  have key: "list_key (q (Some ''None'')) = list_key (q None)" by (simp add: list_key_def q_def str_of_opt_def)
  have none: "cache_get rd (list_key (q None)) now = None" using assms(2) by (simp add: q_def)
  have "service_list mk rd now (q (Some ''None'')) = (Inr r, rd')" using assms(1) range by (simp add: list_securities_def q_def)
  then obtain v where "load_list mk (q (Some ''None'')) = Inr v" "list_response (Some (CList v)) = Inr r"
    "rd' = rd(list_key (q None) \<mapsto> (now + 300, CList v))"
    by (cases "load_list mk (q (Some ''None''))") (auto simp: service_list_def cached_def key none cache_set_def TTL_LIST_def)
  then have "fst (service_list mk' rd' now' (q None)) = Inr r"
    using assms(3) by (simp add: service_list_def cached_def cache_get_def)
  then show ?thesis using range by (simp add: list_securities_def q_def)
qed

text \<open>The key of the quotes forgets repetitions, so one symbol asked for may be answered twice.\<close>

lemma quotes_repeated:
  assumes "service_quotes mk rd now [symb, symb] = (Inr xs, rd')" "cache_get rd (quotes_key (cleaned [symb])) now = None"
    and "now' < now + 60" "py_strip symb \<noteq> []"
  shows "length xs = 2 \<and> fst (service_quotes mk' rd' now' [symb]) = Inr xs"
proof -
  have key: "quotes_key (cleaned [symb, symb]) = quotes_key (cleaned [symb])" by (simp add: quotes_key_def cleaned_def)
  show ?thesis using assms
    by (auto simp: service_quotes_def cached_def key cache_set_def cache_get_def TTL_LIVE_def) (simp add: cleaned_def)
qed

text \<open>The fundamentals of a known symbol cannot be computed on a day the month before does not have.\<close>

lemma fundamentals_fail:
  assumes "find_security mk (py_upper symb) \<noteq> None" "cache_get rd (''fundamentals:'' @ py_upper symb) now = None"
    and "month_ago today = Inl ServerError"
  shows "fst (get_fundamentals mk rd now today symb) = Inl ServerError"
proof -
  have "load_fundamentals mk today (py_upper symb) = Inl ServerError"
    using assms(1,3) by (auto simp: load_fundamentals_def date_replace_def)
  then show ?thesis using assms(2) by (simp add: get_fundamentals_def cached_def)
qed

lemma month_ago_examples:
  "month_ago (mk_date 2026 3 31) = Inl ServerError" "month_ago (mk_date 2026 3 29) = Inl ServerError"
  "month_ago (mk_date 2026 1 31) = Inr (mk_date 2025 12 31)" "date_replace (mk_date 2024 2 29) 2023 2 = Inl ServerError"
  by code_simp+

lemma find_security_None: "find_security mk symb = None \<longleftrightarrow> symb \<notin> set (map sec_symbol (security_rows mk))"
  by (auto simp: find_security_def find_None_iff)

text \<open>An upsert keeps symbols unique, and the security it shows is the one stored.\<close>

lemma upsert_unique:
  assumes "distinct (map sec_symbol (security_rows mk))" "upsert_security body mk = Inr (r, mk')" "''symbol'' \<in> set (sc_fields_set body)"
  shows "distinct (map sec_symbol (security_rows mk')) \<and> py_strip (py_upper (sec_symbol (sc_base body))) \<in> set (map sec_symbol (security_rows mk'))"
proof -
  define symb where "symb = py_strip (py_upper (sec_symbol (sc_base body)))"
  show ?thesis
  proof (cases "find_security mk symb")
    case None
    then have "security_rows mk' = security_rows mk @ [sc_base body\<lparr>sec_symbol := symb\<rparr>]"
      using assms(2) by (auto simp: upsert_security_def Let_def bind_r_Inr_iff simp flip: symb_def split: if_splits)
    then show ?thesis using assms(1) None by (simp add: find_security_None flip: symb_def)
  next
    case (Some old)
    define new where "new = overwrite (sc_fields_set body) (sc_base body\<lparr>sec_symbol := symb\<rparr>) old"
    have new: "sec_symbol new = symb" using assms(3) by (simp add: new_def overwrite_def Let_def)
    have rows: "security_rows mk' = map (\<lambda>s. if sec_symbol s = symb then new else s) (security_rows mk)"
      using assms(2) Some by (auto simp: upsert_security_def Let_def bind_r_Inr_iff new_def simp flip: symb_def split: if_splits)
    have "map sec_symbol (security_rows mk') = map sec_symbol (security_rows mk)" by (simp add: rows new)
    moreover have "symb \<in> set (map sec_symbol (security_rows mk))" using Some find_security_None [of mk symb] by auto
    ultimately show ?thesis using assms(1) by (simp only: symb_def)
  qed
qed

end
