(* ===== verification/Sectors.thy ===== *)
theory Sectors
  imports Securities Predictions
begin

text \<open>
  Comparison of the stocks of a sector and the heatmap (\<^verbatim>\<open>psx_api/services/sector_service.py\<close>,
  \<^verbatim>\<open>routers/sectors.py\<close>), and the series of macro indicators (\<^verbatim>\<open>services/macro_service.py\<close>, \<^verbatim>\<open>routers/macro.py\<close>).
\<close>

section \<open>Sectors\<close>

record MetricDefinition =
  md_key :: string
  md_label :: string
  md_format :: string
  md_rankable :: bool
  md_higher_is_better :: "bool option"

definition METRICS :: "MetricDefinition list" where
  "METRICS = map (\<lambda>(k, l, f, r, h). \<lparr>md_key = k, md_label = l, md_format = f, md_rankable = r, md_higher_is_better = h\<rparr>)
     [(''market_cap_pkr'', ''Market Cap (PKR)'', ''mcap'', True, Some True),
      (''last_close'', ''Last Close (PKR)'', ''price'', False, None),
      (''day_change_pct'', ''Day Change %'', ''pct'', False, None),
      (''pe_ratio'', ''P/E'', ''decimal'', True, Some False),
      (''pb_ratio'', ''P/B'', ''decimal'', True, Some False),
      (''roe'', ''ROE'', ''pct'', True, Some True),
      (''dividend_yield'', ''Dividend Yield'', ''pct'', True, Some True),
      (''debt_to_equity'', ''Debt / Equity'', ''decimal'', True, Some False),
      (''payout_ratio'', ''Payout Ratio'', ''pct'', True, Some False)]"

text \<open>The metrics that are filled in; the fundamentals are null. The item of a symbol outside of the sector has a reason.\<close>

record sector_metrics =
  sm_market_cap_pkr :: "int option"
  sm_last_close :: "dec option"
  sm_day_change_pct :: "dec option"

datatype compare_item =
    MissingStock string string
  | ComparedStock string string bool sector_metrics "int option"

record sector_comparison =
  sx_sector :: string
  sx_constituent_count :: "nat option"
  sx_items :: "compare_item list"
  sx_metric_definitions :: "MetricDefinition list"

record heatmap_tile =
  hm_symbol :: string
  hm_company_name :: string
  hm_sector :: string
  hm_is_kmi_compliant :: bool
  hm_market_cap_pkr :: "int option"
  hm_last_close :: "flt option"
  hm_day_change_pct :: "flt option"

definition latest_two_closes :: "market_db \<Rightarrow> string list \<Rightarrow> (string \<Rightarrow> dec option) \<times> (string \<Rightarrow> dec option)" where
  "latest_two_closes mk symbols =
     (\<lambda>s. if s \<in> set symbols then Option.bind (last_row mk s) o_close else None,
      \<lambda>s. if s \<in> set symbols then Option.bind (prev_row mk s) o_close else None)"

definition sector_universe :: "market_db \<Rightarrow> string \<Rightarrow> Security list" where
  "sector_universe mk sec = filter (\<lambda>s. sector s = sec \<and> is_active s) (security_rows mk)"

definition compute_ranks :: "Security \<Rightarrow> Security list \<Rightarrow> int option" where
  "compute_ranks target universe =
     (let mcaps = sort (List.map_filter market_cap_pkr universe)
      in case market_cap_pkr target of
           None \<Rightarrow> None
         | Some cap \<Rightarrow> if mcaps = [] then None
             else Some (py_round_int (flt (of_nat (length (filter (\<lambda>v. v < cap) mcaps)) / of_nat (length mcaps)) * flt 100)))"

definition compare_one ::
  "string \<Rightarrow> Security list \<Rightarrow> (string \<Rightarrow> dec option) \<times> (string \<Rightarrow> dec option) \<Rightarrow> string \<Rightarrow> compare_item" where
  "compare_one sec universe closes symb =
     (case List.find (\<lambda>s. sec_symbol s = symb) universe of
        None \<Rightarrow> MissingStock symb (symb @ '' is not in the '' @ sec @ '' sector or is inactive.'')
      | Some s \<Rightarrow> ComparedStock symb (company_name s) (is_kmi_compliant s)
          \<lparr>sm_market_cap_pkr = market_cap_pkr s, sm_last_close = fst closes symb,
           sm_day_change_pct = (case (fst closes symb, some_nonzero (snd closes symb)) of
               (Some lc, Some pc) \<Rightarrow> Some (quantize 2 ((lc - pc) / pc * Dec 100)) | _ \<Rightarrow> None)\<rparr>
          (compute_ranks s universe))"

definition sector_compare :: "market_db \<Rightarrow> string \<Rightarrow> string list \<Rightarrow> sector_comparison" where
  "sector_compare mk sec symbols =
     (let symbols = cleaned symbols
      in if symbols = [] then \<lparr>sx_sector = sec, sx_constituent_count = None, sx_items = [], sx_metric_definitions = METRICS\<rparr>
         else let universe = sector_universe mk sec
         in \<lparr>sx_sector = sec, sx_constituent_count = Some (length universe),
             sx_items = map (compare_one sec universe (latest_two_closes mk symbols)) symbols, sx_metric_definitions = METRICS\<rparr>)"

definition compare :: "market_db \<Rightarrow> string \<Rightarrow> string \<Rightarrow> http_error + sector_comparison" where
  "compare mk sector_name symbols =
     (let parts = filter (\<lambda>s. s \<noteq> []) (map py_strip (split_on (CHR '','') symbols))
      in if 2 \<le> length parts \<and> length parts \<le> 4 then Inr (sector_compare mk sector_name parts)
         else Inl (HTTPException 400 (''Compare 2'' @ en_dash @ ''4 symbols at a time.'')))"

definition heatmap_row :: "(string \<Rightarrow> dec option) \<times> (string \<Rightarrow> dec option) \<Rightarrow> Security \<Rightarrow> heatmap_tile" where
  "heatmap_row closes s =
     (let lc = fst closes (sec_symbol s); pc = snd closes (sec_symbol s)
      in \<lparr>hm_symbol = sec_symbol s, hm_company_name = company_name s, hm_sector = sector s, hm_is_kmi_compliant = is_kmi_compliant s,
          hm_market_cap_pkr = (if market_cap_pkr s = Some 0 then None else market_cap_pkr s), hm_last_close = map_option flt_of_dec lc,
          hm_day_change_pct = (case (lc, some_nonzero pc) of (Some l, Some p) \<Rightarrow> Some (flt_of_dec ((l - p) / p * Dec 100)) | _ \<Rightarrow> None)\<rparr>)"

definition tile_weight :: "heatmap_tile \<Rightarrow> int" where
  "tile_weight t = (case hm_market_cap_pkr t of Some cap \<Rightarrow> cap | None \<Rightarrow> 0)"

definition heatmap :: "market_db \<Rightarrow> string option \<Rightarrow> heatmap_tile list" where
  "heatmap mk sec =
     (let rows = filter (\<lambda>s. is_active s \<and> (case nonempty_arg sec of Some x \<Rightarrow> sector s = x | None \<Rightarrow> True)) (security_rows mk)
      in sort_key_desc tile_weight (map (heatmap_row (latest_two_closes mk (map sec_symbol rows))) rows))"

section \<open>Macro indicators\<close>

record indicator_info =
  ii_key :: string
  ii_label :: string
  ii_unit :: string
  ii_category :: string

definition SUPPORTED_INDICATORS :: "indicator_info list" where
  "SUPPORTED_INDICATORS = map (\<lambda>(k, l, u, c). \<lparr>ii_key = k, ii_label = l, ii_unit = u, ii_category = c\<rparr>)
     [(''kibor_1m'', ''KIBOR 1M'', ''%'', ''rates''), (''kibor_3m'', ''KIBOR 3M'', ''%'', ''rates''),
      (''kibor_6m'', ''KIBOR 6M'', ''%'', ''rates''), (''kibor_12m'', ''KIBOR 12M'', ''%'', ''rates''),
      (''sbp_policy_rate'', ''SBP Policy Rate'', ''%'', ''rates''), (''pkr_usd'', ''PKR/USD'', ''PKR'', ''fx''),
      (''brent_usd'', ''Brent Crude (USD)'', ''USD'', ''commodities''), (''gold_pkr_per_tola'', ''Gold (PKR/tola)'', ''PKR'', ''commodities'')]"

definition macro_series :: "MacroIndicator list \<Rightarrow> string \<Rightarrow> date option \<Rightarrow> date option \<Rightarrow> (string \<times> flt) list" where
  "macro_series macros name date_from date_to =
     map (\<lambda>m. (date_isoformat (mi_date m), flt_of_dec (mi_value m)))
       (sort_key mi_date (filter (\<lambda>m. mi_indicator m = name \<and> (case date_from of Some d \<Rightarrow> d \<le> mi_date m | None \<Rightarrow> True)
          \<and> (case date_to of Some d \<Rightarrow> mi_date m \<le> d | None \<Rightarrow> True)) macros))"

text \<open>How \<^verbatim>\<open>sorted(...)\<close> of the keys is shown in the message.\<close>

fun repr_items :: "string list \<Rightarrow> string" where
  "repr_items [] = []"
| "repr_items [s] = apostrophe @ s @ apostrophe"
| "repr_items (s # ss) = apostrophe @ s @ apostrophe @ '', '' @ repr_items ss"

definition get_series ::
  "MacroIndicator list \<Rightarrow> string \<Rightarrow> date option \<Rightarrow> date option \<Rightarrow> http_error + (string \<times> flt) list" where
  "get_series macros name date_from date_to =
     (if name \<notin> set (map ii_key SUPPORTED_INDICATORS)
      then Inl (HTTPException 400 (''Unknown indicator '' @ apostrophe @ name @ apostrophe @ ''. Valid: ['' @
        repr_items (sort (map ii_key SUPPORTED_INDICATORS)) @ '']''))
      else Inr (macro_series macros name date_from date_to))"

section \<open>Ranks\<close>

lemma round_percent: "k \<le> n \<Longrightarrow> 0 \<le> py_round_int (flt (of_nat k / of_nat n) * flt 100) \<and> py_round_int (flt (of_nat k / of_nat n) * flt 100) \<le> 100"
proof -
  assume "k \<le> n"
  then have b: "0 \<le> fval (flt (of_nat k / of_nat n) * flt 100)" "fval (flt (of_nat k / of_nat n) * flt 100) \<le> of_int 100"
    using percentage [of k n] by (simp_all add: flt_le_iff)
  show ?thesis
    using round_half_even_mono [OF b(1)] round_half_even_mono [OF b(2)] round_half_even_of_int [of 0] round_half_even_of_int [of 100]
    unfolding py_round_int_def by simp
qed

lemma round_percent_mono: "j \<le> k \<Longrightarrow> py_round_int (flt (of_nat j / of_nat n) * flt 100) \<le> py_round_int (flt (of_nat k / of_nat n) * flt 100)"
proof -
  assume "j \<le> k"
  then have "(of_nat j / of_nat n :: rat) \<le> of_nat k / of_nat n" by (simp add: divide_right_mono)
  then have "fl64 (of_nat j / of_nat n) \<le> fl64 (of_nat k / of_nat n)" by (rule flt_r.mono)
  moreover have "0 \<le> fl64 100" by (rule flt_r.nonneg) simp
  ultimately have "fl64 (fl64 (of_nat j / of_nat n) * fl64 100) \<le> fl64 (fl64 (of_nat k / of_nat n) * fl64 100)"
    by (intro flt_r.mono [OF mult_right_mono])
  then show ?thesis unfolding py_round_int_def by (intro round_half_even_mono) (simp add: flt_def)
qed

lemma filter_below_le: "(a :: int) \<le> b \<Longrightarrow> length (filter (\<lambda>v. v < a) xs) \<le> length (filter (\<lambda>v. v < b) xs)"
  by (induction xs) auto

lemma compute_ranks_Some:
  assumes "market_cap_pkr s = Some cap" "s \<in> set universe"
  shows "compute_ranks s universe = Some (py_round_int (flt (of_nat (length (filter (\<lambda>v. v < cap) (sort (List.map_filter market_cap_pkr universe)))) /
     of_nat (length (sort (List.map_filter market_cap_pkr universe)))) * flt 100))"
proof -
  have "cap \<in> set (List.map_filter market_cap_pkr universe)" using assms by (force simp: List.map_filter_def)
  then have "sort (List.map_filter market_cap_pkr universe) \<noteq> []" by (metis empty_iff list.set(1) set_sort)
  then show ?thesis using assms(1) by (simp add: compute_ranks_def Let_def)
qed

text \<open>
  The rank of a stock in its sector is a percentage: between 0 and 100 for every stock with a market
  value, never larger for the smaller of two, and 0 for the smallest.
\<close>

lemma sector_rank:
  assumes "s \<in> set (sector_universe mk sec)" "t \<in> set (sector_universe mk sec)"
    and "market_cap_pkr s = Some a" "market_cap_pkr t = Some b" "a \<le> b"
  shows "\<exists>i j. compute_ranks s (sector_universe mk sec) = Some i \<and> compute_ranks t (sector_universe mk sec) = Some j
    \<and> 0 \<le> i \<and> i \<le> j \<and> j \<le> 100
    \<and> (list_all (\<lambda>x. case market_cap_pkr x of Some c \<Rightarrow> a \<le> c | None \<Rightarrow> True) (sector_universe mk sec) \<longrightarrow> i = 0)"
proof -
  define caps where "caps = sort (List.map_filter market_cap_pkr (sector_universe mk sec))"
  define below where "below c = length (filter (\<lambda>v. v < c) caps)" for c :: int
  define rank where "rank k = py_round_int (flt (of_nat k / of_nat (length caps)) * flt 100)" for k
  have ranks: "compute_ranks s (sector_universe mk sec) = Some (rank (below a))" "compute_ranks t (sector_universe mk sec) = Some (rank (below b))"
    using compute_ranks_Some [OF assms(3,1)] compute_ranks_Some [OF assms(4,2)] by (simp_all add: rank_def below_def caps_def)
  have "below b \<le> length caps" "below a \<le> length caps" "below a \<le> below b" using filter_below_le [OF assms(5)] by (simp_all add: below_def)
  then have "0 \<le> rank (below a)" "rank (below a) \<le> rank (below b)" "rank (below b) \<le> 100"
    using round_percent round_percent_mono unfolding rank_def by blast+
  moreover have "rank (below a) = 0"
    if "list_all (\<lambda>x. case market_cap_pkr x of Some c \<Rightarrow> a \<le> c | None \<Rightarrow> True) (sector_universe mk sec)"
  proof -
    have "below a = 0" using that by (auto simp: below_def caps_def list_all_iff List.map_filter_def filter_empty_conv split: option.splits)
    then show ?thesis using round_half_even_of_int [of 0] by (simp add: rank_def py_round_int_def flt_def)
  qed
  ultimately show ?thesis using ranks by blast
qed

text \<open>The heatmap has a tile for each active security of the sector, the largest first.\<close>

lemma heatmap_tiles:
  "set (map hm_symbol (heatmap mk sec)) = sec_symbol ` {s \<in> set (security_rows mk). is_active s \<and> (case nonempty_arg sec of Some x \<Rightarrow> sector s = x | None \<Rightarrow> True)}
   \<and> length (heatmap mk sec) = length (filter (\<lambda>s. is_active s \<and> (case nonempty_arg sec of Some x \<Rightarrow> sector s = x | None \<Rightarrow> True)) (security_rows mk))
   \<and> sorted_wrt (\<lambda>x y. tile_weight y \<le> tile_weight x) (heatmap mk sec)"
  unfolding heatmap_def Let_def by (simp add: sort_key_desc_sorted image_image heatmap_row_def Let_def)

end
