(* ===== verification/News.thy ===== *)
theory News
  imports Alerts Securities Predictions
begin

text \<open>
  News: the companies an article mentions (\<^verbatim>\<open>psx_ingest/news/extract.py\<close>), its sentiment
  (\<^verbatim>\<open>psx_ingest/news/sentiment.py\<close>), the rows it is stored as (\<^verbatim>\<open>psx_ingest/news/persistence.py\<close>,
  \<^verbatim>\<open>tasks/news.py\<close>), and what the API makes of them: the pulse of a symbol (\<^verbatim>\<open>psx_api/news/pulse.py\<close>), the
  service \<^verbatim>\<open>services/news_service.py\<close> and its endpoints. The articles a scraper yields are an argument.
\<close>

section \<open>Companies mentioned\<close>

text \<open>
  The patterns are a literal text between word boundaries, without regard to case. A boundary is
  where exactly one of the two neighbours is a letter, a digit or an underscore (ASCII).
\<close>

definition word_char :: "char \<Rightarrow> bool" where "word_char c \<longleftrightarrow> is_alpha c \<or> is_digit c \<or> c = CHR ''_''"

definition boundary :: "char option \<Rightarrow> char option \<Rightarrow> bool" where
  "boundary a b \<longleftrightarrow> (case a of Some c \<Rightarrow> word_char c | None \<Rightarrow> False) \<noteq> (case b of Some c \<Rightarrow> word_char c | None \<Rightarrow> False)"

definition head :: "'a list \<Rightarrow> 'a option" where "head xs = (case xs of [] \<Rightarrow> None | x # _ \<Rightarrow> Some x)"

definition word_at :: "string \<Rightarrow> char option \<Rightarrow> string \<Rightarrow> bool" where
  "word_at surf before s \<longleftrightarrow> startswith (py_lower surf) (py_lower s) \<and> boundary before (head s)
     \<and> boundary (head (rev (take (length surf) s))) (head (drop (length surf) s))"

text \<open>\<^verbatim>\<open>findall\<close> counts the matches from left to right, \<^verbatim>\<open>sub\<close> puts four spaces for each.\<close>

fun sub_word :: "string \<Rightarrow> char option \<Rightarrow> string \<Rightarrow> nat \<times> string" where
  "sub_word surf before [] = (0, [])"
| "sub_word surf before (c # s) =
     (if word_at surf before (c # s)
      then let (n, out) = sub_word surf (head (rev (take (length surf) (c # s)))) (drop (length surf - 1) s) in (n + 1, ''    '' @ out)
      else let (n, out) = sub_word surf (Some c) s in (n, c # out))"

record Alias =
  ax_symbol :: string
  ax_surface :: string

definition build_alias_index :: "(string \<times> string) list \<Rightarrow> Alias list" where
  "build_alias_index rows =
     sort_key_desc (\<lambda>a. char_len (ax_surface a))
       (map (\<lambda>(s, a). \<lparr>ax_symbol = py_upper s, ax_surface = py_strip a\<rparr>) (filter (\<lambda>(_, a). py_strip a \<noteq> []) rows))"

definition mention_step :: "(string \<times> nat) list \<times> string \<Rightarrow> Alias \<Rightarrow> (string \<times> nat) list \<times> string" where
  "mention_step = (\<lambda>(out, working) a.
     let (n, rest) = sub_word (ax_surface a) None working
     in if n = 0 then (out, working)
        else (upsert (ax_symbol a) (\<lambda>old. (case old of Some k \<Rightarrow> k | None \<Rightarrow> 0) + n) out, rest))"

definition extract_mentions :: "string \<Rightarrow> Alias list \<Rightarrow> (string \<times> nat) list" where
  "extract_mentions body aliases = (if body = [] \<or> aliases = [] then [] else fst (foldl mention_step ([], body) aliases))"

section \<open>Sentiment\<close>

definition MODEL_VERSION_LEXICON :: string where "MODEL_VERSION_LEXICON = ''lexicon-v0.1.0''"

definition POSITIVE_WORDS :: "string list" where
  "POSITIVE_WORDS =
     [''profit'', ''profits'', ''profitable'', ''growth'', ''gain'', ''gains'', ''gained'', ''surged'', ''rally'',
      ''rallied'', ''outperform'', ''beat'', ''beats'', ''beating'', ''record'', ''milestone'', ''expansion'',
      ''expanded'', ''strong'', ''robust'', ''upgrade'', ''upgraded'', ''approve'', ''approval'', ''approved'',
      ''dividend'', ''bonus'', ''buyback'', ''exceed'', ''exceeded'', ''boost'', ''boosted'', ''improve'',
      ''improved'', ''improvement'', ''ease'', ''eased'', ''favourable'', ''favorable'', ''positive'', ''promising'',
      ''successful'', ''win'', ''won'', ''secure'', ''secured'']"

definition NEGATIVE_WORDS :: "string list" where
  "NEGATIVE_WORDS =
     [''loss'', ''losses'', ''decline'', ''declined'', ''fall'', ''fell'', ''plunge'', ''plunged'', ''crash'',
      ''crashed'', ''bearish'', ''miss'', ''missed'', ''missing'', ''underperform'', ''downgrade'', ''downgraded'',
      ''weak'', ''weakened'', ''concern'', ''concerns'', ''worrying'', ''investigation'', ''fraud'', ''scandal'',
      ''lawsuit'', ''fine'', ''fined'', ''penalty'', ''penalties'', ''default'', ''defaulted'', ''bankruptcy'',
      ''shutdown'', ''layoff'', ''layoffs'', ''fired'', ''resign'', ''resigned'', ''warning'', ''warnings'',
      ''risk'', ''risks'', ''halt'', ''halted'', ''suspend'', ''suspended'', ''delay'', ''delayed'', ''negative'',
      ''deteriorate'', ''deteriorated'', ''tumble'', ''tumbled'', ''slump'', ''slumped'']"

definition NEGATORS :: "string list" where
  "NEGATORS = [''not'', ''no'', ''never'', ''n'' @ apostrophe @ ''t'', ''without'', ''fails'', ''failed'']"

text \<open>The alternatives of each pattern, with their optional parts written out.\<close>

definition EVENT_PATTERNS :: "(string \<times> string list) list" where
  "EVENT_PATTERNS =
     [(''earnings'', [''earnings'', ''quarterly results'', ''profit after tax'', ''revenue'', ''EPS'', ''bottom-line'', ''bottom line'']),
      (''guidance'', [''guidance'', ''forecast'', ''outlook'']),
      (''mna'', [''merger'', ''acquisition'', ''takeover'', ''buyout'', ''acquire'', ''acquired'', ''acquiring'', ''m&a'']),
      (''regulatory'', [''SECP'', ''SBP'', ''FBR'', ''regulator'', ''regulatory'', ''policy rate'', ''tariff'', ''tax'', ''tax on'', ''circular'']),
      (''leadership'', [''CEO'', ''chairman'', ''chairperson'', ''chief executive'', ''director'', ''board'', ''resign'', ''resigned'',
         ''resignation'', ''appointed'']),
      (''scandal'', [''fraud'', ''scandal'', ''investigation'', ''probe'', ''insider trading'', ''manipulation'']),
      (''macro'', [''KIBOR'', ''inflation'', ''CPI'', ''PKR/USD'', ''rupee'', ''IMF'', ''fiscal deficit'', ''current account''])]"

fun has_word :: "string \<Rightarrow> char option \<Rightarrow> string \<Rightarrow> bool" where
  "has_word surf before [] = False"
| "has_word surf before (c # s) = (word_at surf before (c # s) \<or> has_word surf (Some c) s)"

definition classify_event :: "string \<Rightarrow> string" where
  "classify_event body =
     (case List.find (\<lambda>(_, alts). list_ex (\<lambda>a. has_word a None body) alts) EVENT_PATTERNS of
        Some (name, _) \<Rightarrow> name | None \<Rightarrow> ''general'')"

definition token_char :: "char \<Rightarrow> bool" where "token_char c \<longleftrightarrow> is_alpha c \<or> c = CHR 0x27"

function tokens :: "string \<Rightarrow> string list" where
  "tokens [] = []"
| "tokens (c # s) = (if token_char c then (c # takeWhile token_char s) # tokens (dropWhile token_char s) else tokens s)"
  by pat_completeness auto

termination tokens
  by (relation "measure length") (auto simp: le_imp_less_Suc length_dropWhile_le)

text \<open>The first word with a polarity among the next three: how many words before it, and whether it is positive.\<close>

fun flipped :: "string list \<Rightarrow> (nat \<times> bool) option" where
  "flipped [] = None"
| "flipped (w # ws) =
     (if w \<in> set POSITIVE_WORDS then Some (0, True) else if w \<in> set NEGATIVE_WORDS then Some (0, False)
      else map_option (\<lambda>(k, b). (k + 1, b)) (flipped ws))"

function score_tokens :: "string list \<Rightarrow> nat \<times> nat \<Rightarrow> nat \<times> nat" where
  "score_tokens [] pn = pn"
| "score_tokens (t # ts) (pos, neg) =
     (if t \<in> set NEGATORS
      then case flipped (take 3 ts) of
             Some (k, positive) \<Rightarrow> score_tokens (drop (k + 1) ts) (if positive then (pos, neg + 1) else (pos + 1, neg))
           | None \<Rightarrow> score_tokens ts (pos, neg)
      else score_tokens ts (if t \<in> set POSITIVE_WORDS then (pos + 1, neg) else if t \<in> set NEGATIVE_WORDS then (pos, neg + 1) else (pos, neg)))"
  by pat_completeness auto

termination score_tokens
  by (relation "measure (\<lambda>(ts, _). length ts)") auto

record SentimentResult =
  se_polarity :: flt
  se_event_type :: string
  se_model_version :: string

definition polarity_of :: "nat \<times> nat \<Rightarrow> flt" where
  "polarity_of = (\<lambda>(pos, neg). py_round 3 (max (flt (- 1)) (min 1 (flt ((of_nat pos - of_nat neg) / of_nat (max (pos + neg) 1))))))"

definition score_lexicon :: "string \<Rightarrow> SentimentResult" where
  "score_lexicon body =
     (if body = [] then \<lparr>se_polarity = 0, se_event_type = ''general'', se_model_version = MODEL_VERSION_LEXICON\<rparr>
      else \<lparr>se_polarity = polarity_of (score_tokens (tokens (py_lower body)) (0, 0)), se_event_type = classify_event body,
            se_model_version = MODEL_VERSION_LEXICON\<rparr>)"

section \<open>Storing articles\<close>

record NewsArticleRow =
  nr_source :: string
  nr_url :: string
  nr_headline :: string
  nr_body :: string
  nr_published_at :: int
  nr_language :: string

record CompanyAlias =
  cal_symbol :: string
  cal_alias :: string

text \<open>The union has each row once, in whatever order the database finds them.\<close>

definition alias_rows :: "market_db \<Rightarrow> CompanyAlias list \<Rightarrow> (string \<times> string) list" where
  "alias_rows mk company_aliases =
     remdups (map (\<lambda>s. (sec_symbol s, company_name s)) (filter is_active (security_rows mk)) @
              map (\<lambda>a. (cal_symbol a, cal_alias a)) company_aliases)"

definition load_alias_index :: "(string \<times> string) list \<Rightarrow> Alias list" where
  "load_alias_index rows = build_alias_index (filter (\<lambda>(_, a). a \<noteq> []) rows @ map (\<lambda>(s, _). (s, s)) rows)"

record IngestSummary =
  is_fetched :: nat
  is_inserted :: nat
  is_duplicates :: nat
  is_errors :: nat
  is_mentions_total :: nat
  is_sentiment_rows :: nat

text \<open>The session of a run: its tables, whether the server has aborted the transaction, and the summary.\<close>

record news_session =
  ns_db :: news_db
  ns_aborted :: bool
  ns_summary :: IngestSummary

definition article_fits :: "NewsArticleRow \<Rightarrow> bool" where
  "article_fits a \<longleftrightarrow> char_len (nr_source a) \<le> 50 \<and> char_len (nr_url a) \<le> 1000 \<and> char_len (nr_language a) \<le> 10"

definition upsert_article :: "string \<Rightarrow> int \<Rightarrow> NewsArticleRow \<Rightarrow> news_db \<Rightarrow> news_db option" where
  "upsert_article new_id now a db =
     (if nr_url a \<in> na_url ` set (articles db) then None
      else Some (db\<lparr>articles := articles db @ [\<lparr>na_id = new_id, na_source = nr_source a, na_url = nr_url a, na_headline = nr_headline a,
             na_body = nr_body a, na_published_at = nr_published_at a, na_scraped_at = now, na_language = nr_language a\<rparr>]\<rparr>))"

definition insert_mention :: "string \<Rightarrow> string \<Rightarrow> nat \<Rightarrow> news_db \<Rightarrow> news_db" where
  "insert_mention i symb n db =
     (let same = (\<lambda>m. am_article_id m = i \<and> am_symbol m = symb)
      in db\<lparr>mentions := (if list_ex same (mentions db) then map (\<lambda>m. if same m then m\<lparr>am_match_count := n\<rparr> else m) (mentions db)
            else mentions db @ [\<lparr>am_article_id = i, am_symbol = symb, am_match_count = n\<rparr>])\<rparr>)"

definition insert_sentiment :: "int \<Rightarrow> string \<Rightarrow> string \<Rightarrow> SentimentResult \<Rightarrow> news_db \<Rightarrow> news_db" where
  "insert_sentiment now i symb r db =
     (if list_ex (\<lambda>s. as_article_id s = i \<and> as_symbol s = symb) (sentiments db) then db
      else db\<lparr>sentiments := sentiments db @ [\<lparr>as_article_id = i, as_symbol = symb, as_polarity = Dec (qz_up 3 (fval (se_polarity r))),
             as_event_type = Some (se_event_type r), as_model_version = se_model_version r, as_scored_at = now\<rparr>]\<rparr>)"

text \<open>
  The loop over the mentioned symbols. A mention of a symbol that is not listed violates the foreign
  key: the exception is caught, and the server has aborted the transaction.
\<close>

definition count_error :: "news_session \<Rightarrow> news_session" where
  "count_error ss = ss\<lparr>ns_aborted := True, ns_summary := (ns_summary ss)\<lparr>is_errors := is_errors (ns_summary ss) + 1\<rparr>\<rparr>"

fun store_mentions :: "market_db \<Rightarrow> int \<Rightarrow> string \<Rightarrow> SentimentResult \<Rightarrow> (string \<times> nat) list \<Rightarrow> news_session \<Rightarrow> news_session" where
  "store_mentions mk now i r [] ss = ss"
| "store_mentions mk now i r ((symb, n) # ms) ss =
     (if find_security mk symb = None then count_error ss
      else let sm = ns_summary ss in store_mentions mk now i r ms
        (ss\<lparr>ns_db := insert_sentiment now i symb r (insert_mention i symb n (ns_db ss)),
            ns_summary := sm\<lparr>is_mentions_total := is_mentions_total sm + n, is_sentiment_rows := is_sentiment_rows sm + 1\<rparr>\<rparr>))"

text \<open>\<^verbatim>\<open>s[:n]\<close> counts characters.\<close>

fun first_chars :: "nat \<Rightarrow> string \<Rightarrow> string" where
  "first_chars 0 s = []"
| "first_chars (Suc n) [] = []"
| "first_chars (Suc n) (c # s) = c # takeWhile continues s @ first_chars n (dropWhile continues s)"

definition ingest_article :: "market_db \<Rightarrow> int \<Rightarrow> Alias list \<Rightarrow> news_session \<Rightarrow> string \<times> NewsArticleRow \<Rightarrow> news_session" where
  "ingest_article mk now aliases ss = (\<lambda>(new_id, a).
     let sm = (ns_summary ss)\<lparr>is_fetched := is_fetched (ns_summary ss) + 1\<rparr>; ss = ss\<lparr>ns_summary := sm\<rparr>
     in if ns_aborted ss \<or> \<not> article_fits a then count_error ss
        else case upsert_article new_id now a (ns_db ss) of
          None \<Rightarrow> ss\<lparr>ns_summary := sm\<lparr>is_duplicates := is_duplicates sm + 1\<rparr>\<rparr>
        | Some db \<Rightarrow>
            let ss = ss\<lparr>ns_db := db, ns_summary := sm\<lparr>is_inserted := is_inserted sm + 1\<rparr>\<rparr>;
                snippet = first_chars 1000 (nr_headline a @ [CHR 10, CHR 10] @ nr_body a)
            in store_mentions mk now new_id (score_lexicon snippet) (extract_mentions snippet aliases) ss)"

text \<open>One source: everything in one transaction, whose commit is a rollback when the server has aborted it.\<close>

definition run_one_source :: "market_db \<Rightarrow> int \<Rightarrow> Alias list \<Rightarrow> (string \<times> NewsArticleRow) list \<Rightarrow> news_db \<Rightarrow> IngestSummary \<times> news_db" where
  "run_one_source mk now aliases fetched db =
     (let ss = foldl (ingest_article mk now aliases) \<lparr>ns_db = db, ns_aborted = False, ns_summary = \<lparr>is_fetched = 0, is_inserted = 0,
            is_duplicates = 0, is_errors = 0, is_mentions_total = 0, is_sentiment_rows = 0\<rparr>\<rparr> fetched
      in (ns_summary ss, if ns_aborted ss then db else ns_db ss))"

section \<open>The pulse of a symbol\<close>

record PulseInput =
  pu_polarity :: flt
  pu_published_on :: date

record PulseScore =
  ps_score :: flt
  ps_article_count :: nat
  ps_weighted_count :: flt

fun pulse_sums :: "math_fns \<Rightarrow> date \<Rightarrow> PulseInput list \<Rightarrow> flt \<times> flt \<Rightarrow> backtest_error + flt \<times> flt" where
  "pulse_sums ma today [] acc = Inr acc"
| "pulse_sums ma today (x # xs) (weighted_sum, total_weight) =
     bind_r (ma_exp ma (flt (of_int (- max 0 (today - pu_published_on x)) / 5))) (\<lambda>weight.
       pulse_sums ma today xs (weighted_sum + pu_polarity x * weight, total_weight + weight))"

definition compute_pulse :: "math_fns \<Rightarrow> date \<Rightarrow> PulseInput list \<Rightarrow> backtest_error + PulseScore" where
  "compute_pulse ma today items =
     (if items = [] then Inr \<lparr>ps_score = 0, ps_article_count = 0, ps_weighted_count = 0\<rparr>
      else bind_r (pulse_sums ma today items (0, 0)) (\<lambda>(weighted_sum, total_weight).
        let raw = weighted_sum / flt 9 * flt 100; score = max (flt (- 100)) (min (flt 100) raw)
        in Inr \<lparr>ps_score = py_round 1 score, ps_article_count = length items, ps_weighted_count = py_round 2 total_weight\<rparr>))"

text \<open>The date of a timestamp in microseconds since 1970, in UTC.\<close>

definition date_of_micros :: "int \<Rightarrow> date" where "date_of_micros t = 719163 + t div (86400 * 10 ^ 6)"

record article_view =
  av_article :: NewsArticle
  av_polarity :: "dec option"
  av_event_type :: "string option"

definition articles_for_symbol :: "news_db \<Rightarrow> string \<Rightarrow> int \<Rightarrow> article_view list" where
  "articles_for_symbol news symb limit =
     take (nat limit) (sort_key_desc (\<lambda>v. na_published_at (av_article v))
       (concat (map (\<lambda>m. concat (map (\<lambda>a.
            let ss = filter (\<lambda>s. as_article_id s = na_id a \<and> as_symbol s = am_symbol m) (sentiments news)
            in if ss = [] then [\<lparr>av_article = a, av_polarity = None, av_event_type = None\<rparr>]
               else map (\<lambda>s. \<lparr>av_article = a, av_polarity = Some (as_polarity s), av_event_type = as_event_type s\<rparr>) ss)
          (filter (\<lambda>a. na_id a = am_article_id m) (articles news))))
        (filter (\<lambda>m. am_symbol m = py_upper symb) (mentions news)))))"

definition pulse_rows :: "news_db \<Rightarrow> string \<Rightarrow> date \<Rightarrow> (NewsArticle \<times> ArticleSentiment) list" where
  "pulse_rows news symb today =
     sort_key_desc (\<lambda>(a, s). na_published_at a)
       (concat (map (\<lambda>s. map (\<lambda>a. (a, s)) (filter (\<lambda>a. na_id a = as_article_id s \<and> (today - 14 - 719163) * 86400 * 10 ^ 6 \<le> na_published_at a)
          (articles news))) (filter (\<lambda>s. as_symbol s = py_upper symb) (sentiments news))))"

definition signed_whole :: "flt \<Rightarrow> string" where "signed_whole x = fmt_fixed 0 x"

definition explainer :: "flt \<Rightarrow> nat \<Rightarrow> string" where
  "explainer score n =
     (let heads = str_of_nat n
      in if n = 0 then ''No tagged news in the last 14 days.''
         else if flt 50 \<le> score then ''Strong positive coverage: '' @ heads @ '' headlines, sentiment +'' @ signed_whole score @ '' / 100.''
         else if flt 15 \<le> score then ''Mildly positive coverage: '' @ heads @ '' headlines, sentiment +'' @ signed_whole score @ '' / 100.''
         else if score \<le> flt (- 50) then ''Strong negative coverage: '' @ heads @ '' headlines, sentiment '' @ signed_whole score @ '' / 100.''
         else if score \<le> flt (- 15) then ''Mildly negative coverage: '' @ heads @ '' headlines, sentiment '' @ signed_whole score @ '' / 100.''
         else ''Mixed / neutral: '' @ heads @ '' headlines, net sentiment '' @ signed_whole score @ '' / 100.'')"

record news_pulse =
  np_symbol :: string
  np_as_of_date :: date
  np_score :: flt
  np_article_count :: nat
  np_weighted_count :: flt
  np_top_articles :: "(NewsArticle \<times> ArticleSentiment) list"
  np_explainer :: string

definition article_rank :: "date \<Rightarrow> NewsArticle \<times> ArticleSentiment \<Rightarrow> flt" where
  "article_rank today = (\<lambda>(a, s). \<bar>flt_of_dec (as_polarity s)\<bar> - flt_of_int (max 0 (today - date_of_micros (na_published_at a))) * flt (5 / 100))"

definition news_pulse_of :: "math_fns \<Rightarrow> news_db \<Rightarrow> string \<Rightarrow> date \<Rightarrow> backtest_error + news_pulse" where
  "news_pulse_of ma news symb today =
     (let rows = pulse_rows news symb today
      in bind_r (compute_pulse ma today (map (\<lambda>(a, s). \<lparr>pu_polarity = flt_of_dec (as_polarity s),
             pu_published_on = date_of_micros (na_published_at a)\<rparr>) rows)) (\<lambda>sc.
           Inr \<lparr>np_symbol = py_upper symb, np_as_of_date = today, np_score = ps_score sc, np_article_count = ps_article_count sc,
             np_weighted_count = ps_weighted_count sc, np_top_articles = take 3 (sort_key_desc (article_rank today) rows),
             np_explainer = explainer (ps_score sc) (ps_article_count sc)\<rparr>))"

definition get_pulse :: "math_fns \<Rightarrow> news_db \<Rightarrow> date \<Rightarrow> string \<Rightarrow> http_error + news_pulse" where
  "get_pulse ma news today symb = (case news_pulse_of ma news (py_upper symb) today of Inr r \<Rightarrow> Inr r | Inl _ \<Rightarrow> Inl ServerError)"

definition get_articles :: "news_db \<Rightarrow> string \<Rightarrow> int \<Rightarrow> http_error + article_view list" where
  "get_articles news symb limit =
     (if 1 \<le> limit \<and> limit \<le> 100 then Inr (articles_for_symbol news (py_upper symb) limit)
      else Inl (HTTPException 400 ''limit must be 1..100''))"

section \<open>Bounds\<close>

lemma fl64_one: "fl64 1 = 1" "fl64 (- 1) = - 1"
  using flt_r.exact_int [of 1] flt_r.exact_int [of "- 1"] by simp_all

text \<open>Rounding to decimal places stays within whole numbers that are floats.\<close>

lemma py_round_between:
  assumes "of_int lo \<le> fval x" "fval x \<le> of_int hi" "\<bar>lo\<bar> < 2 ^ 53" "\<bar>hi\<bar> < 2 ^ 53"
  shows "of_int lo \<le> fval (py_round n x) \<and> fval (py_round n x) \<le> of_int hi"
proof -
  have "of_int (lo * 10 ^ n) \<le> fval x * 10 ^ n" "fval x * 10 ^ n \<le> of_int (hi * 10 ^ n)" using assms(1,2) by simp_all
  then have "lo * 10 ^ n \<le> round_half_even (fval x * 10 ^ n)" "round_half_even (fval x * 10 ^ n) \<le> hi * 10 ^ n"
    using round_half_even_mono round_half_even_of_int by metis+
  then have "(of_int (lo * 10 ^ n) :: rat) \<le> of_int (round_half_even (fval x * 10 ^ n))"
    "(of_int (round_half_even (fval x * 10 ^ n)) :: rat) \<le> of_int (hi * 10 ^ n)" unfolding of_int_le_iff .
  then have "of_int lo \<le> (of_int (round_half_even (fval x * 10 ^ n)) / 10 ^ n :: rat)"
    "(of_int (round_half_even (fval x * 10 ^ n)) / 10 ^ n :: rat) \<le> of_int hi"
    by (simp_all add: pos_le_divide_eq pos_divide_le_eq)
  moreover have "fl64 (of_int lo) = of_int lo" "fl64 (of_int hi) = of_int hi"
    using assms(3,4) by (simp_all add: flt_r.exact_int)
  ultimately show ?thesis by (simp add: py_round_def flt_def flt_r.ge_fixed flt_r.le_fixed)
qed

lemma polarity_bounds: "- 1 \<le> fval (se_polarity (score_lexicon body)) \<and> fval (se_polarity (score_lexicon body)) \<le> 1"
proof (cases "body = []")
  case False
  define pol where "pol = flt ((of_nat (fst (score_tokens (tokens (py_lower body)) (0, 0))) - of_nat (snd (score_tokens (tokens (py_lower body)) (0, 0))))
    / of_nat (max (fst (score_tokens (tokens (py_lower body)) (0, 0)) + snd (score_tokens (tokens (py_lower body)) (0, 0))) 1))"
  have "- 1 \<le> fval (max (flt (- 1)) (min 1 pol))" "fval (max (flt (- 1)) (min 1 pol)) \<le> 1"
    by (simp_all add: fval_max fval_min flt_def fl64_one)
  then have "- 1 \<le> fval (py_round 3 (max (flt (- 1)) (min 1 pol))) \<and> fval (py_round 3 (max (flt (- 1)) (min 1 pol))) \<le> 1"
    using py_round_between [of "- 1" "max (flt (- 1)) (min 1 pol)" 1 3] by simp
  then show ?thesis using False by (simp add: score_lexicon_def polarity_of_def case_prod_beta pol_def)
qed (simp add: score_lexicon_def)

text \<open>A contraction is one token, so the negator \<^verbatim>\<open>n't\<close> of the list never negates.\<close>

lemma contraction_not_negated:
  "tokens (py_lower (''Growth isn'' @ apostrophe @ ''t strong'')) = [''growth'', ''isn'' @ apostrophe @ ''t'', ''strong'']"
  "score_tokens [''growth'', ''isn'' @ apostrophe @ ''t'', ''strong''] (0, 0) = (2, 0)"
  "score_tokens [''growth'', ''is'', ''not'', ''strong''] (0, 0) = (1, 1)"
  by code_simp+

lemma pulse_sums_ok:
  assumes "exp_ok ma" "0 \<le> w"
  shows "\<exists>s w'. pulse_sums ma today items (s0, w) = Inr (s, w') \<and> 0 \<le> w'"
  using assms(2)
proof (induction items arbitrary: s0 w)
  case (Cons x xs)
  have "flt (of_int (- max 0 (today - pu_published_on x)) / 5) \<le> 0" by (simp add: flt_le_iff flt_def flt_r.nonpos)
  then obtain z where z: "ma_exp ma (flt (of_int (- max 0 (today - pu_published_on x)) / 5)) = Inr z" "0 \<le> z"
    using assms(1) unfolding exp_ok_def by blast
  then show ?case using Cons.IH [of "w + z"] Cons.prems by (simp add: flt_nonneg)
qed simp

text \<open>The pulse is computed for any articles and is a number between -100 and 100.\<close>

lemma pulse_bounds:
  assumes "exp_ok ma"
  shows "\<exists>p. compute_pulse ma today items = Inr p \<and> ps_article_count p = length items
    \<and> - 100 \<le> fval (ps_score p) \<and> fval (ps_score p) \<le> 100"
proof (cases "items = []")
  case False
  obtain s w where s: "pulse_sums ma today items (0, 0) = Inr (s, w)" using pulse_sums_ok [where w = 0 and today = today and items = items and ?s0.0 = 0, OF assms] by auto
  have "fl64 100 = 100" "fl64 (- 100) = - 100" using flt_r.exact_int [of 100] flt_r.exact_int [of "- 100"] by simp_all
  then have "- 100 \<le> fval (max (flt (- 100)) (min (flt 100) (s / flt 9 * flt 100)))"
    "fval (max (flt (- 100)) (min (flt 100) (s / flt 9 * flt 100))) \<le> 100"
    by (simp_all add: fval_max fval_min flt_def)
  then show ?thesis
    using False s py_round_between [of "- 100" "max (flt (- 100)) (min (flt 100) (s / flt 9 * flt 100))" 100 1]
    by (simp add: compute_pulse_def Let_def)
qed (simp add: compute_pulse_def)

section \<open>What a run stores\<close>

definition mention_key :: "ArticleMention \<Rightarrow> string \<times> string" where "mention_key m = (am_article_id m, am_symbol m)"
definition sentiment_key :: "ArticleSentiment \<Rightarrow> string \<times> string" where "sentiment_key s = (as_article_id s, as_symbol s)"

definition news_inv :: "news_db \<Rightarrow> bool" where
  "news_inv db \<longleftrightarrow> distinct (map na_url (articles db)) \<and> distinct (map mention_key (mentions db))
     \<and> map sentiment_key (sentiments db) = map mention_key (mentions db)
     \<and> fst ` set (map mention_key (mentions db)) \<subseteq> na_id ` set (articles db)
     \<and> list_all (\<lambda>s. \<bar>dval (as_polarity s)\<bar> \<le> 1 \<and> places 3 (dval (as_polarity s))) (sentiments db)"

lemma stored_polarity: "\<bar>qz_up 3 (fval (se_polarity (score_lexicon body)))\<bar> \<le> 1"
proof -
  have "round_half_up (of_int (- 1000)) \<le> round_half_up (fval (se_polarity (score_lexicon body)) * 10 ^ 3)"
    "round_half_up (fval (se_polarity (score_lexicon body)) * 10 ^ 3) \<le> round_half_up (of_int 1000)"
    using polarity_bounds [of body] by (intro round_half_up_mono; simp)+
  then have "- 1000 \<le> round_half_up (fval (se_polarity (score_lexicon body)) * 10 ^ 3)"
    "round_half_up (fval (se_polarity (score_lexicon body)) * 10 ^ 3) \<le> 1000" unfolding round_half_up_of_int .
  then have "(of_int (- 1000) :: rat) \<le> of_int (round_half_up (fval (se_polarity (score_lexicon body)) * 10 ^ 3))"
    "(of_int (round_half_up (fval (se_polarity (score_lexicon body)) * 10 ^ 3)) :: rat) \<le> of_int 1000" unfolding of_int_le_iff .
  then show ?thesis by (simp add: qz_up_def abs_le_iff)
qed

lemma insert_pair_inv:
  assumes "news_inv db" "i \<in> na_id ` set (articles db)"
  shows "news_inv (insert_sentiment now i symb (score_lexicon body) (insert_mention i symb n db))"
proof -
  have mkey: "am_article_id m = i \<and> am_symbol m = symb \<longleftrightarrow> mention_key m = (i, symb)" for m by (simp add: mention_key_def)
  have skey: "as_article_id s = i \<and> as_symbol s = symb \<longleftrightarrow> sentiment_key s = (i, symb)" for s by (simp add: sentiment_key_def)
  have same: "list_ex (\<lambda>s. sentiment_key s = (i, symb)) (sentiments db) = list_ex (\<lambda>m. mention_key m = (i, symb)) (mentions db)"
  proof -
    have ex: "list_ex (\<lambda>x. f x = k) xs \<longleftrightarrow> k \<in> set (map f xs)" for f :: "'c \<Rightarrow> 'd" and k xs by (auto simp: list_ex_iff)
    have ex': "list_ex (\<lambda>x. f x = k) xs \<longleftrightarrow> k \<in> set (map f xs)" for f :: "'e \<Rightarrow> 'f" and k xs by (auto simp: list_ex_iff)
    show ?thesis using assms(1) by (simp only: ex ex' news_inv_def)
  qed
  show ?thesis
  proof (cases "list_ex (\<lambda>m. mention_key m = (i, symb)) (mentions db)")
    case True
    have "map mention_key (map (\<lambda>m. if mention_key m = (i, symb) then m\<lparr>am_match_count := n\<rparr> else m) (mentions db)) = map mention_key (mentions db)"
      by (simp add: mention_key_def)
    then show ?thesis using assms True same
      by (simp add: insert_sentiment_def insert_mention_def Let_def mkey skey news_inv_def del: map_map set_map)
  next
    case False
    then have "(i, symb) \<notin> set (map mention_key (mentions db))" by (auto simp: list_ex_iff)
    then show ?thesis using assms False same stored_polarity [of body]
      by (simp add: insert_sentiment_def insert_mention_def Let_def mkey skey news_inv_def) (simp add: mention_key_def sentiment_key_def)
  qed
qed

lemma insert_pair_articles [simp]: "articles (insert_sentiment now i symb r (insert_mention i symb n db)) = articles db"
  by (simp add: insert_sentiment_def insert_mention_def Let_def)

lemma store_mentions_inv:
  "news_inv (ns_db ss) \<Longrightarrow> i \<in> na_id ` set (articles (ns_db ss)) \<Longrightarrow> news_inv (ns_db (store_mentions mk now i (score_lexicon body) ms ss))"
  by (induction mk now i "score_lexicon body" ms ss rule: store_mentions.induct) (simp_all add: count_error_def Let_def insert_pair_inv)

lemma store_mentions_articles: "articles (ns_db (store_mentions mk now i r ms ss)) = articles (ns_db ss)"
  by (induction mk now i r ms ss rule: store_mentions.induct) (simp_all add: count_error_def Let_def)

lemma ingest_article_inv: "news_inv (ns_db ss) \<Longrightarrow> news_inv (ns_db (ingest_article mk now aliases ss (new_id, a)))"
proof -
  assume inv: "news_inv (ns_db ss)"
  have new: "news_inv db \<and> new_id \<in> na_id ` set (articles db)" if "upsert_article new_id now a (ns_db ss) = Some db" for db
  proof -
    have url: "nr_url a \<notin> na_url ` set (articles (ns_db ss))"
      and db: "mentions db = mentions (ns_db ss)" "sentiments db = sentiments (ns_db ss)"
        "map na_url (articles db) = map na_url (articles (ns_db ss)) @ [nr_url a]"
        "na_id ` set (articles db) = insert new_id (na_id ` set (articles (ns_db ss)))"
      using that by (auto simp: upsert_article_def split: if_splits)
    have "fst ` set (map mention_key (mentions db)) \<subseteq> na_id ` set (articles db)"
      using inv unfolding news_inv_def db by (metis subset_insertI2)
    then show ?thesis using inv url by (simp add: news_inv_def db del: map_map)
  qed
  show ?thesis
  proof (cases "upsert_article new_id now a (ns_db ss)")
    case None
    then show ?thesis using inv by (simp add: ingest_article_def count_error_def Let_def)
  next
    case (Some db)
    then show ?thesis using inv new by (simp add: ingest_article_def count_error_def Let_def store_mentions_inv)
  qed
qed

lemma run_one_source_inv: "news_inv db \<Longrightarrow> news_inv (snd (run_one_source mk now aliases fetched db))"
proof -
  assume inv: "news_inv db"
  have "news_inv (ns_db (foldl (ingest_article mk now aliases) ss fetched))" if "news_inv (ns_db ss)" for ss
    using that by (induction fetched arbitrary: ss) (auto simp: ingest_article_inv)
  then show ?thesis using inv by (simp add: run_one_source_def Let_def)
qed

inductive news_step :: "news_db \<Rightarrow> news_db \<Rightarrow> bool" where
  news_step: "run_one_source mk now aliases fetched db = (sm, db') \<Longrightarrow> news_step db db'"

interpretation news_tables: invariant_system "\<lambda>db. articles db = [] \<and> mentions db = [] \<and> sentiments db = []" news_step news_inv
proof unfold_locales
  show "news_inv db" if "articles db = [] \<and> mentions db = [] \<and> sentiments db = []" for db using that by (simp add: news_inv_def)
  show "news_inv db'" if "news_inv db" "news_step db db'" for db db'
    using that(2,1) by cases (metis run_one_source_inv snd_conv)
qed

definition ex_article :: "string \<Rightarrow> string \<Rightarrow> NewsArticleRow" where
  "ex_article url title = \<lparr>nr_source = ''dawn'', nr_url = url, nr_headline = title, nr_body = ''Details follow.'',
     nr_published_at = 0, nr_language = ''en''\<rparr>"

definition ex_no_news_db :: news_db where "ex_no_news_db = \<lparr>actions = [], articles = [], mentions = [], sentiments = []\<rparr>"

definition ex_fetched :: "(string \<times> NewsArticleRow) list" where
  "ex_fetched = [(''a1'', ex_article ''u1'' ''HBL posts profit''), (''a2'', ex_article ''u1'' ''again''), (''a3'', ex_article ''u2'' ''Rain'')]"

text \<open>
  C38: in every state the runs of the scrapers can reach, an article is stored once, every mention of a
  symbol in it has exactly one sentiment and each sentiment such a mention of a stored article, and its
  polarity is a number with three decimals between -1 and 1, as the column demands.
\<close>

theorem news_consistent:
  assumes "reach (\<lambda>db. articles db = [] \<and> mentions db = [] \<and> sentiments db = []) news_step db"
  shows "distinct (map na_url (articles db)) \<and> distinct (map mention_key (mentions db))
    \<and> map sentiment_key (sentiments db) = map mention_key (mentions db)
    \<and> fst ` set (map mention_key (mentions db)) \<subseteq> na_id ` set (articles db)
    \<and> list_all (\<lambda>s. \<bar>dval (as_polarity s)\<bar> \<le> 1 \<and> places 3 (dval (as_polarity s))) (sentiments db)"
  using news_tables.reach_inv [OF assms] by (simp only: news_inv_def)

section \<open>Running again\<close>

text \<open>An error is counted exactly when the transaction is aborted.\<close>

definition session_ok :: "news_session \<Rightarrow> bool" where
  "session_ok ss \<longleftrightarrow> (ns_aborted ss \<longleftrightarrow> 0 < is_errors (ns_summary ss))"

lemma store_mentions_aborted: "ns_aborted ss \<Longrightarrow> ns_aborted (store_mentions mk now i r ms ss)"
  by (induction mk now i r ms ss rule: store_mentions.induct) (simp_all add: count_error_def Let_def)

lemma store_mentions_session: "session_ok ss \<Longrightarrow> session_ok (store_mentions mk now i r ms ss)"
proof (induction mk now i r ms ss rule: store_mentions.induct)
  case (2 mk now i r symb n ms ss)
  show ?case
  proof (cases "find_security mk symb = None")
    case True
    then show ?thesis by (simp add: count_error_def session_ok_def)
  next
    case False
    have "session_ok (ss\<lparr>ns_db := insert_sentiment now i symb r (insert_mention i symb n (ns_db ss)), ns_summary := (ns_summary ss)
      \<lparr>is_mentions_total := is_mentions_total (ns_summary ss) + n, is_sentiment_rows := is_sentiment_rows (ns_summary ss) + 1\<rparr>\<rparr>)"
      using 2(2) by (simp add: session_ok_def)
    from 2(1) [OF False refl this] show ?thesis by (simp only: store_mentions.simps False if_False Let_def)
  qed
qed simp

lemma count_error_session: "session_ok (count_error ss)" "ns_aborted (count_error ss)" "ns_db (count_error ss) = ns_db ss"
  by (simp_all add: count_error_def session_ok_def)

text \<open>What one article does to the session.\<close>

lemma ingest_article_cases:
  obtains (failed) "ingest_article mk now aliases ss (i, a) =
      count_error (ss\<lparr>ns_summary := (ns_summary ss)\<lparr>is_fetched := is_fetched (ns_summary ss) + 1\<rparr>\<rparr>)"
  | (duplicate) "\<not> ns_aborted ss" "article_fits a" "nr_url a \<in> na_url ` set (articles (ns_db ss))"
      "ingest_article mk now aliases ss (i, a) = ss\<lparr>ns_summary := (ns_summary ss)\<lparr>is_fetched := is_fetched (ns_summary ss) + 1,
         is_duplicates := is_duplicates (ns_summary ss) + 1\<rparr>\<rparr>"
  | (stored) db r ms where "\<not> ns_aborted ss" "article_fits a"
      "na_url ` set (articles db) = insert (nr_url a) (na_url ` set (articles (ns_db ss)))"
      "ingest_article mk now aliases ss (i, a) = store_mentions mk now i r ms (ss\<lparr>ns_db := db, ns_summary := (ns_summary ss)\<lparr>
         is_fetched := is_fetched (ns_summary ss) + 1, is_inserted := is_inserted (ns_summary ss) + 1\<rparr>\<rparr>)"
proof (cases "ns_aborted ss \<or> \<not> article_fits a")
  case True
  then show ?thesis by (intro failed) (auto simp: ingest_article_def Let_def)
next
  case False
  show ?thesis
  proof (cases "nr_url a \<in> na_url ` set (articles (ns_db ss))")
    case True
    then show ?thesis using False by (intro duplicate) (simp_all add: ingest_article_def Let_def upsert_article_def)
  next
    case new: False
    show ?thesis
      by (rule stored) (use False new in \<open>simp_all add: ingest_article_def Let_def upsert_article_def\<close>)
  qed
qed

lemma ingest_article_session:
  assumes "session_ok ss"
  shows "let ss' = ingest_article mk now aliases ss (i, a)
    in session_ok ss' \<and> (ns_aborted ss \<longrightarrow> ns_aborted ss') \<and> na_url ` set (articles (ns_db ss)) \<subseteq> na_url ` set (articles (ns_db ss'))
      \<and> (\<not> ns_aborted ss' \<longrightarrow> article_fits a \<and> nr_url a \<in> na_url ` set (articles (ns_db ss')))"
proof (cases rule: ingest_article_cases [of mk now aliases ss i a])
  case failed
  then show ?thesis by (simp add: count_error_session)
next
  case duplicate
  then show ?thesis using assms by (simp add: session_ok_def)
next
  case (stored db r ms)
  have "session_ok (ss\<lparr>ns_db := db, ns_summary := (ns_summary ss)\<lparr>is_fetched := is_fetched (ns_summary ss) + 1,
    is_inserted := is_inserted (ns_summary ss) + 1\<rparr>\<rparr>)" using assms by (simp add: session_ok_def)
  then show ?thesis using stored store_mentions_session by (auto simp: store_mentions_articles Let_def)
qed

lemma ingest_articles_session:
  assumes "session_ok ss" "\<not> ns_aborted (foldl (ingest_article mk now aliases) ss fetched)"
  shows "\<not> ns_aborted ss \<and> na_url ` set (articles (ns_db ss)) \<subseteq> na_url ` set (articles (ns_db (foldl (ingest_article mk now aliases) ss fetched)))
    \<and> list_all (\<lambda>(_, a). article_fits a \<and> nr_url a \<in> na_url ` set (articles (ns_db (foldl (ingest_article mk now aliases) ss fetched)))) fetched"
  using assms
proof (induction fetched arbitrary: ss)
  case (Cons x xs)
  define s' where "s' = ingest_article mk now aliases ss (fst x, snd x)"
  define t where "t = foldl (ingest_article mk now aliases) s' xs"
  have step: "session_ok s'" "ns_aborted ss \<longrightarrow> ns_aborted s'" "na_url ` set (articles (ns_db ss)) \<subseteq> na_url ` set (articles (ns_db s'))"
    "\<not> ns_aborted s' \<longrightarrow> article_fits (snd x) \<and> nr_url (snd x) \<in> na_url ` set (articles (ns_db s'))"
    using ingest_article_session [OF Cons.prems(1), of mk now aliases "fst x" "snd x"] unfolding Let_def s'_def [symmetric] by blast+
  have t: "foldl (ingest_article mk now aliases) ss (x # xs) = t" by (simp add: t_def s'_def)
  have "\<not> ns_aborted (foldl (ingest_article mk now aliases) s' xs)" using Cons.prems(2) unfolding t t_def .
  from Cons.IH [OF step(1) this] have "\<not> ns_aborted s'" "na_url ` set (articles (ns_db s')) \<subseteq> na_url ` set (articles (ns_db t))"
    "list_all (\<lambda>(_, a). article_fits a \<and> nr_url a \<in> na_url ` set (articles (ns_db t))) xs" unfolding t_def by blast+
  then show ?case using step(2-4) unfolding t list.pred_inject case_prod_beta by blast
qed simp

lemma ingest_again:
  assumes "list_all (\<lambda>(_, a). article_fits a \<and> nr_url a \<in> na_url ` set (articles (ns_db ss))) fetched" "\<not> ns_aborted ss"
  shows "foldl (ingest_article mk now aliases) ss fetched
    = ss\<lparr>ns_summary := (ns_summary ss)\<lparr>is_fetched := is_fetched (ns_summary ss) + length fetched,
        is_duplicates := is_duplicates (ns_summary ss) + length fetched\<rparr>\<rparr>"
  using assms
proof (induction fetched arbitrary: ss)
  case (Cons x xs)
  obtain i a where x: "x = (i, a)" by (cases x)
  have "ingest_article mk now aliases ss (i, a) = ss\<lparr>ns_summary := (ns_summary ss)\<lparr>is_fetched := is_fetched (ns_summary ss) + 1,
      is_duplicates := is_duplicates (ns_summary ss) + 1\<rparr>\<rparr>"
    using Cons.prems by (simp add: x ingest_article_def Let_def upsert_article_def)
  then show ?case using Cons.IH [of "ingest_article mk now aliases ss (i, a)"] Cons.prems by (simp add: x)
qed simp

text \<open>
  C39: a run stores all of its articles or none. When it counts an error nothing of it is stored,
  although it may report articles as inserted; when it counts none, running again over the same
  articles, at another time and with other aliases, reports each as a duplicate and stores nothing.
\<close>

theorem news_run_atomic:
  assumes "run_one_source mk now aliases fetched db = (sm, db')"
  shows "(0 < is_errors sm \<longrightarrow> db' = db)
    \<and> (is_errors sm = 0 \<longrightarrow> run_one_source mk' now' aliases' fetched db' = (\<lparr>is_fetched = length fetched, is_inserted = 0,
         is_duplicates = length fetched, is_errors = 0, is_mentions_total = 0, is_sentiment_rows = 0\<rparr>, db'))"
proof -
  define start where "start d = \<lparr>ns_db = d, ns_aborted = False, ns_summary = \<lparr>is_fetched = 0, is_inserted = 0,
    is_duplicates = 0, is_errors = 0, is_mentions_total = 0, is_sentiment_rows = 0\<rparr>\<rparr>" for d
  define ss where "ss = foldl (ingest_article mk now aliases) (start db) fetched"
  have res: "sm = ns_summary ss" "db' = (if ns_aborted ss then db else ns_db ss)"
    using assms by (auto simp: run_one_source_def Let_def ss_def start_def)
  have ok: "session_ok (start db)" by (simp add: session_ok_def start_def)
  have one: "session_ok (ingest_article mk now aliases s x)" if "session_ok s" for s x
    using ingest_article_session [OF that, of mk now aliases "fst x" "snd x"] by (simp add: Let_def)
  have fold: "session_ok (foldl (ingest_article mk now aliases) s xs)" if "session_ok s" for s xs
    using that by (induction xs arbitrary: s) (simp_all add: one)
  have err: "ns_aborted ss \<longleftrightarrow> 0 < is_errors sm" using fold [OF ok] by (simp add: ss_def res session_ok_def)
  have "run_one_source mk' now' aliases' fetched (ns_db ss) = (\<lparr>is_fetched = length fetched, is_inserted = 0,
         is_duplicates = length fetched, is_errors = 0, is_mentions_total = 0, is_sentiment_rows = 0\<rparr>, ns_db ss)"
    if "\<not> ns_aborted ss"
  proof -
    have "list_all (\<lambda>(_, a). article_fits a \<and> nr_url a \<in> na_url ` set (articles (ns_db (start (ns_db ss))))) fetched"
      using ingest_articles_session [OF ok] that unfolding ss_def by (simp add: start_def)
    from ingest_again [OF this, of mk' now' aliases'] show ?thesis
      by (simp add: run_one_source_def Let_def start_def)
  qed
  then show ?thesis using err by (auto simp: res)
qed

lemma ex_run:
  obtains sm db' where "run_one_source ex_stocks 0 [] ex_fetched ex_no_news_db = (sm, db')" "is_errors sm = 0" "is_inserted sm = 2"
    "is_duplicates sm = 1" "length (articles db') = 2"
proof -
  have new: "ingest_article mk now [] ss (i, ex_article u t) = ss\<lparr>ns_db := (ns_db ss)\<lparr>articles := articles (ns_db ss) @
      [\<lparr>na_id = i, na_source = ''dawn'', na_url = u, na_headline = t, na_body = ''Details follow.'', na_published_at = 0, na_scraped_at = now,
        na_language = ''en''\<rparr>]\<rparr>, ns_summary := (ns_summary ss)\<lparr>is_fetched := is_fetched (ns_summary ss) + 1, is_inserted := is_inserted (ns_summary ss) + 1\<rparr>\<rparr>"
    if "\<not> ns_aborted ss" "char_len u \<le> 1000" "u \<notin> na_url ` set (articles (ns_db ss))" for mk now ss i u t
    using that by (simp add: ingest_article_def article_fits_def ex_article_def char_len_def upsert_article_def extract_mentions_def Let_def)
  have old: "ingest_article mk now [] ss (i, ex_article u t) = ss\<lparr>ns_summary := (ns_summary ss)\<lparr>is_fetched := is_fetched (ns_summary ss) + 1,
      is_duplicates := is_duplicates (ns_summary ss) + 1\<rparr>\<rparr>"
    if "\<not> ns_aborted ss" "char_len u \<le> 1000" "u \<in> na_url ` set (articles (ns_db ss))" for mk now ss i u t
    using that by (simp add: ingest_article_def article_fits_def ex_article_def char_len_def upsert_article_def Let_def)
  have len: "char_len ''u1'' \<le> 1000" "char_len ''u2'' \<le> 1000" by code_simp+
  obtain sm db' where run: "run_one_source ex_stocks 0 [] ex_fetched ex_no_news_db = (sm, db')"
    by (cases "run_one_source ex_stocks 0 [] ex_fetched ex_no_news_db")
  then have "is_errors sm = 0 \<and> is_inserted sm = 2 \<and> is_duplicates sm = 1 \<and> length (articles db') = 2"
    unfolding run_one_source_def ex_fetched_def Let_def foldl.simps ex_no_news_db_def by (simp add: new old len) (elim conjE; hypsubst; simp)
  with run that show thesis by blast
qed

theorem news_consistent_witness:
  "\<exists>db. reach (\<lambda>db. articles db = [] \<and> mentions db = [] \<and> sentiments db = []) news_step db \<and> length (articles db) = 2
     \<and> distinct (map na_url (articles db)) \<and> map sentiment_key (sentiments db) = map mention_key (mentions db)"
proof (rule ex_run, goal_cases)
  case (1 sm db')
  have "reach (\<lambda>db. articles db = [] \<and> mentions db = [] \<and> sentiments db = []) news_step ex_no_news_db"
    by (rule reach_init) (simp add: ex_no_news_db_def)
  then have "reach (\<lambda>db. articles db = [] \<and> mentions db = [] \<and> sentiments db = []) news_step db'"
    using news_step [OF 1(1)] by (rule reach_step)
  from this news_consistent [OF this] 1(5) show ?case by blast
qed

theorem news_run_atomic_witness:
  "\<exists>sm db'. run_one_source ex_stocks 0 [] ex_fetched ex_no_news_db = (sm, db') \<and> is_inserted sm = 2 \<and> is_duplicates sm = 1
     \<and> length (articles db') = 2 \<and> snd (run_one_source ex_stocks 9 (load_alias_index (alias_rows ex_stocks [])) ex_fetched db') = db'"
proof (rule ex_run, goal_cases)
  case (1 sm db')
  with news_run_atomic [OF 1(1), of ex_stocks 9 "load_alias_index (alias_rows ex_stocks [])"] show ?case by auto
qed

end
