(* ===== verification/Readings.thy ===== *)
theory Readings
  imports Indicators Securities
begin

text \<open>
  The indicators a user is shown: \<^verbatim>\<open>psx_api/services/indicator_service.py\<close>, the texts of
  \<^verbatim>\<open>psx_api/indicators/interpret.py\<close> and the endpoint of \<^verbatim>\<open>routers/securities.py\<close>. The service turns a missing
  price into NaN, so the functions of \<^verbatim>\<open>psx_api/indicators/compute.py\<close> are given here once more on
  floats with NaN; on complete prices they are shown to be those of \<^verbatim>\<open>Indicators\<close>.
\<close>

section \<open>Floats with NaN\<close>

text \<open>
  An operation on NaN is NaN and every comparison with it is false, so that \<^verbatim>\<open>max(a, b)\<close>, which takes
  \<^verbatim>\<open>b\<close> where \<^verbatim>\<open>b > a\<close>, is \<open>max\<close> and keeps a first argument NaN.
\<close>

datatype nflt = NaN | Num flt

definition lift2 :: "(flt \<Rightarrow> flt \<Rightarrow> flt) \<Rightarrow> nflt \<Rightarrow> nflt \<Rightarrow> nflt" where
  "lift2 f a b = (case (a, b) of (Num x, Num y) \<Rightarrow> Num (f x y) | _ \<Rightarrow> NaN)"

definition compare2 :: "(flt \<Rightarrow> flt \<Rightarrow> bool) \<Rightarrow> nflt \<Rightarrow> nflt \<Rightarrow> bool" where
  "compare2 f a b = (case (a, b) of (Num x, Num y) \<Rightarrow> f x y | _ \<Rightarrow> False)"

instantiation nflt :: "{zero, plus, minus, uminus, times, inverse, ord, abs}"
begin

definition zero_nflt :: nflt where "0 = Num 0"
definition plus_nflt :: "nflt \<Rightarrow> nflt \<Rightarrow> nflt" where "a + b = lift2 (+) a b"
definition minus_nflt :: "nflt \<Rightarrow> nflt \<Rightarrow> nflt" where "a - b = lift2 (-) a b"
definition uminus_nflt :: "nflt \<Rightarrow> nflt" where "- a = (case a of Num x \<Rightarrow> Num (- x) | NaN \<Rightarrow> NaN)"
definition times_nflt :: "nflt \<Rightarrow> nflt \<Rightarrow> nflt" where "a * b = lift2 (*) a b"
definition inverse_nflt :: "nflt \<Rightarrow> nflt" where "inverse a = (case a of Num x \<Rightarrow> Num (inverse x) | NaN \<Rightarrow> NaN)"
definition divide_nflt :: "nflt \<Rightarrow> nflt \<Rightarrow> nflt" where "a div b = lift2 (/) a b"
definition abs_nflt :: "nflt \<Rightarrow> nflt" where "\<bar>a\<bar> = (case a of Num x \<Rightarrow> Num \<bar>x\<bar> | NaN \<Rightarrow> NaN)"
definition less_eq_nflt :: "nflt \<Rightarrow> nflt \<Rightarrow> bool" where "a \<le> b \<longleftrightarrow> compare2 (\<le>) a b"
definition less_nflt :: "nflt \<Rightarrow> nflt \<Rightarrow> bool" where "a < b \<longleftrightarrow> compare2 (<) a b"

instance ..

end

lemma nan_simps [simp]:
  "NaN + b = NaN" "a + NaN = NaN" "NaN - b = NaN" "a - NaN = NaN" "- NaN = NaN" "NaN * b = NaN" "a * NaN = NaN"
  "NaN / b = NaN" "a / NaN = NaN" "\<bar>NaN\<bar> = NaN" "\<not> NaN \<le> b" "\<not> a \<le> NaN" "\<not> NaN < b" "\<not> a < NaN" "max NaN b = NaN" "max a NaN = a"
  by (cases a; simp add: plus_nflt_def minus_nflt_def uminus_nflt_def times_nflt_def divide_nflt_def abs_nflt_def less_eq_nflt_def
      less_nflt_def max_def lift2_def compare2_def)+

lemma num_simps [simp]:
  "Num x + Num y = Num (x + y)" "Num x - Num y = Num (x - y)" "- Num x = Num (- x)" "Num x * Num y = Num (x * y)"
  "Num x / Num y = Num (x / y)" "\<bar>Num x\<bar> = Num \<bar>x\<bar>" "Num x \<le> Num y \<longleftrightarrow> x \<le> y" "Num x < Num y \<longleftrightarrow> x < y"
  "max (Num x) (Num y) = Num (max x y)" "0 = Num z \<longleftrightarrow> z = 0" "Num z = 0 \<longleftrightarrow> z = 0" "NaN \<noteq> 0"
  by (auto simp: plus_nflt_def minus_nflt_def uminus_nflt_def times_nflt_def divide_nflt_def abs_nflt_def less_eq_nflt_def
      less_nflt_def max_def lift2_def compare2_def zero_nflt_def)

definition num :: "rat \<Rightarrow> nflt" where "num q = Num (flt q)"

text \<open>\<^verbatim>\<open>min(a, b)\<close> takes \<^verbatim>\<open>b\<close> where \<^verbatim>\<open>b < a\<close>. Division by zero raises, also of NaN. \<^verbatim>\<open>nan ** y\<close> is NaN for the exponents used.\<close>

definition nan_min :: "nflt \<Rightarrow> nflt \<Rightarrow> nflt" where "nan_min a b = (if b < a then b else a)"

definition nan_div :: "nflt \<Rightarrow> nflt \<Rightarrow> backtest_error + nflt" where
  "nan_div a b = (if b = num 0 then Inl ZeroDivErr else Inr (a / b))"

definition nan_pow :: "libm \<Rightarrow> nflt \<Rightarrow> flt \<Rightarrow> backtest_error + nflt" where
  "nan_pow lm a e = (case a of NaN \<Rightarrow> Inr NaN | Num x \<Rightarrow> bind_r (lm_pow lm x e) (\<lambda>y. Inr (Num y)))"

definition nan_sum :: "nflt list \<Rightarrow> nflt" where "nan_sum xs = foldl (+) (num 0) xs"

definition fmt_nan :: "nat \<Rightarrow> nflt \<Rightarrow> string" where
  "fmt_nan n a = (case a of NaN \<Rightarrow> ''nan'' | Num x \<Rightarrow> fmt_fixed n x)"

section \<open>The indicators on prices with gaps\<close>

definition nan_sma :: "nflt list \<Rightarrow> int \<Rightarrow> backtest_error + nflt option list" where
  "nan_sma closes period =
     (if period \<le> 0 then Inl (ValueErr ''period must be positive'')
      else let xs = closes; n = length xs; p = nat period; d = num (of_int period)
      in if n < p then Inr (replicate n None)
         else let running = nan_sum (take p xs)
              in Inr (replicate (p - 1) None @ Some (running / d) #
                   scan (\<lambda>running i. running + (xs ! i - xs ! (i - p))) (\<lambda>running. running / d) running [p..<n]))"

definition nan_ema :: "nflt list \<Rightarrow> int \<Rightarrow> backtest_error + nflt option list" where
  "nan_ema closes period =
     (if period \<le> 0 then Inl (ValueErr ''period must be positive'')
      else let xs = closes; n = length xs; p = nat period
      in if n < p then Inr (replicate n None)
         else let seed = nan_sum (take p xs) / num (of_int period); k = num (2 / of_int (period + 1))
              in Inr (replicate (p - 1) None @ Some seed #
                   scan (\<lambda>prev i. xs ! i * k + prev * (num 1 - k)) (\<lambda>prev. prev) seed [p..<n]))"

definition nan_rsi_first :: "nflt list \<Rightarrow> nat \<Rightarrow> nflt \<times> nflt" where
  "nan_rsi_first xs p =
     foldl (\<lambda>(gains, losses) i.
        let delta = xs ! i - xs ! (i - 1) in if num 0 \<le> delta then (gains + delta, losses) else (gains, losses - delta))
       (num 0, num 0) [1..<p + 1]"

definition nan_rsi_step :: "nflt list \<Rightarrow> int \<Rightarrow> nflt \<times> nflt \<Rightarrow> nat \<Rightarrow> nflt \<times> nflt" where
  "nan_rsi_step xs period = (\<lambda>(avg_gain, avg_loss) i.
     let delta = xs ! i - xs ! (i - 1); gain = max delta (num 0); loss = max (- delta) (num 0);
         m = num (of_int (period - 1)); d = num (of_int period)
     in ((avg_gain * m + gain) / d, (avg_loss * m + loss) / d))"

definition nan_rsi_value :: "nflt \<times> nflt \<Rightarrow> nflt" where
  "nan_rsi_value = (\<lambda>(avg_gain, avg_loss).
     if avg_loss = num 0 then num 100 else num 100 - num 100 / (num 1 + avg_gain / avg_loss))"

definition nan_rsi :: "nflt list \<Rightarrow> int \<Rightarrow> backtest_error + nflt option list" where
  "nan_rsi closes period =
     (if period \<le> 0 then Inl (ValueErr ''period must be positive'')
      else let xs = closes; n = length xs; p = nat period
      in if n \<le> p then Inr (replicate n None)
         else let (gains, losses) = nan_rsi_first xs p; d = num (of_int period); avg = (gains / d, losses / d)
              in Inr (replicate p None @ Some (nan_rsi_value avg) # scan (nan_rsi_step xs period) nan_rsi_value avg [p + 1..<n]))"

type_synonym nan_series = "nflt option list"

definition nan_macd :: "nflt list \<Rightarrow> int \<Rightarrow> int \<Rightarrow> int \<Rightarrow> backtest_error + nan_series \<times> nan_series \<times> nan_series" where
  "nan_macd closes fast slow signal_period =
     bind_r (nan_ema closes fast) (\<lambda>fast_line.
     bind_r (nan_ema closes slow) (\<lambda>slow_line.
       let line = minus_series fast_line slow_line
       in bind_r (smoothed (\<lambda>vs. nan_ema vs signal_period) (length closes) line) (\<lambda>signal_line.
            Inr (line, signal_line, minus_series line signal_line))))"

definition nan_stochastic_k :: "nat \<Rightarrow> nflt list \<Rightarrow> nflt list \<Rightarrow> nflt list \<Rightarrow> nat \<Rightarrow> nflt" where
  "nan_stochastic_k k_period highs lows closes i =
     (let hs = window k_period i highs; ls = window k_period i lows;
          window_high = foldl max (hd hs) (tl hs); window_low = foldl nan_min (hd ls) (tl ls);
          denom = window_high - window_low
      in if denom \<noteq> num 0 then num 100 * (closes ! i - window_low) / denom else num 50)"

definition nan_stochastic ::
  "nflt list \<Rightarrow> nflt list \<Rightarrow> nflt list \<Rightarrow> nat \<Rightarrow> int \<Rightarrow> backtest_error + nan_series \<times> nan_series" where
  "nan_stochastic highs lows closes k_period d_period =
     (if \<not> (length highs = length lows \<and> length lows = length closes)
      then Inl (ValueErr ''highs/lows/closes must be same length'')
      else if k_period = 0 then Inl (ValueErr ''max() arg is an empty sequence'')
      else let n = length closes;
               k_line = replicate (min (k_period - 1) n) None @
                 map (\<lambda>i. Some (nan_stochastic_k k_period highs lows closes i)) [k_period - 1..<n]
           in bind_r (smoothed (\<lambda>vs. nan_sma vs d_period) n k_line) (\<lambda>d_line. Inr (k_line, d_line)))"

definition nan_band_std :: "libm \<Rightarrow> nflt list \<Rightarrow> int \<Rightarrow> nflt \<Rightarrow> nat \<Rightarrow> backtest_error + nflt" where
  "nan_band_std lm xs period mean i =
     bind_r (collect_r (map (\<lambda>x. nan_pow lm (x - mean) (flt 2)) (window (nat period) i xs))) (\<lambda>squares.
       nan_pow lm (nan_sum squares / num (of_int period)) (flt (1 / 2)))"

definition nan_bollinger_bands :: "libm \<Rightarrow> nflt list \<Rightarrow> int \<Rightarrow> nflt \<Rightarrow> backtest_error + nan_series \<times> nan_series \<times> nan_series" where
  "nan_bollinger_bands lm closes period num_std =
     bind_r (nan_sma closes period) (\<lambda>middle.
     let n = length closes; p = nat period; mean = (\<lambda>i. the (middle ! i));
         ixs = [p - 1..<n]; pad = replicate (min (p - 1) n) None
     in bind_r (collect_r (map (\<lambda>i. nan_band_std lm closes period (mean i) i) ixs)) (\<lambda>stds.
          Inr (pad @ map2 (\<lambda>i std. Some (mean i + num_std * std)) ixs stds, middle,
               pad @ map2 (\<lambda>i std. Some (mean i - num_std * std)) ixs stds)))"

definition nan_true_range :: "nflt list \<Rightarrow> nflt list \<Rightarrow> nflt list \<Rightarrow> nat \<Rightarrow> nflt" where
  "nan_true_range highs lows closes i =
     (let h = highs ! i; lo = lows ! i; prev_c = closes ! (i - 1)
      in max (max (h - lo) \<bar>h - prev_c\<bar>) \<bar>lo - prev_c\<bar>)"

definition nan_atr :: "nflt list \<Rightarrow> nflt list \<Rightarrow> nflt list \<Rightarrow> nat \<Rightarrow> backtest_error + nan_series" where
  "nan_atr highs lows closes period =
     (if \<not> (length highs = length lows \<and> length lows = length closes)
      then Inl (ValueErr ''highs/lows/closes must be same length'')
      else let n = length closes; trs = map (nan_true_range highs lows closes) [1..<n]; d = num (of_nat period)
      in if n < period + 1 then Inr (replicate n None)
         else if period = 0 then Inl ZeroDivErr
         else let first_atr = nan_sum (take period trs) / d
              in Inr (replicate period None @ Some first_atr #
                   scan (\<lambda>prev i. (prev * num (of_nat (period - 1)) + trs ! (i - 1)) / d) (\<lambda>prev. prev) first_atr
                     [period + 1..<n]))"

definition nan_obv :: "nflt list \<Rightarrow> nflt list \<Rightarrow> backtest_error + nan_series" where
  "nan_obv closes volumes =
     (if length closes \<noteq> length volumes then Inl (ValueErr ''closes/volumes must be same length'')
      else if closes = [] then Inr []
      else Inr (Some (num 0) # scan (\<lambda>running i.
             if closes ! (i - 1) < closes ! i then running + volumes ! i
             else if closes ! i < closes ! (i - 1) then running - volumes ! i else running) (\<lambda>running. running)
           (num 0) [1..<length closes]))"

section \<open>The texts\<close>

datatype signal = Bullish | Bearish | Neutral

record reading =
  rd_signal :: signal
  rd_summary :: string
  rd_explainer :: string
  rd_value :: "(string \<times> nflt option) list"

definition pkg :: "signal \<Rightarrow> string \<Rightarrow> string \<Rightarrow> (string \<times> nflt option) list \<Rightarrow> reading" where
  "pkg sig summary explainer shown = \<lparr>rd_signal = sig, rd_summary = summary, rd_explainer = explainer, rd_value = shown\<rparr>"

definition rsi_explainer :: "string" where
  "rsi_explainer =
     ''**RSI (Relative Strength Index)** measures how fast a stock has been rising or falling on a 0'' @
     en_dash @ ''100 scale. Above 70 is traditionally called *overbought* '' @ em_dash @
     '' recent gains have been sharp and a pullback is more likely. Below 30 is *oversold* '' @ em_dash @
     '' a bounce is more likely. RSI is a momentum indicator, not a timing tool. Stocks can stay '' @
     ''overbought or oversold for a long time, especially during strong trends.''"

definition interpret_rsi :: "nflt option \<Rightarrow> reading" where
  "interpret_rsi reading_value =
     (case reading_value of
        None \<Rightarrow> pkg Neutral (''Not enough history to compute RSI yet.'') rsi_explainer [(''rsi'', None)]
      | Some v \<Rightarrow>
          if num 70 \<le> v then pkg Bearish (''RSI is '' @ fmt_nan 1 v @
          ''. Above 70 typically suggests the stock is overbought and may pull back. This is a cautionary '' @
          ''signal, not a sell order.'')
            rsi_explainer [(''rsi'', Some v)]
          else if v \<le> num 30 then pkg Bullish (''RSI is '' @ fmt_nan 1 v @
          ''. Below 30 typically suggests the stock is oversold and may bounce. This is a cautionary '' @
          ''signal, not a buy order.'')
            rsi_explainer [(''rsi'', Some v)]
          else pkg Neutral (''RSI is '' @ fmt_nan 1 v @ '' '' @ em_dash @
          '' a neutral reading. The stock is neither overbought nor oversold.'')
            rsi_explainer [(''rsi'', Some v)])"

definition macd_explainer :: "string" where
  "macd_explainer =
     ''**MACD (Moving Average Convergence Divergence)** plots the difference between a fast and slow '' @
     ''exponential moving average, plus a signal line that'' @ apostrophe @
     ''s an EMA of that difference. When the MACD crosses above its signal line, momentum is turning '' @
     ''up. When it crosses below, momentum is turning down. The histogram is the gap between the two '' @
     em_dash @ '' bigger bars mean stronger momentum.''"

definition interpret_macd :: "nflt option \<Rightarrow> nflt option \<Rightarrow> nflt option \<Rightarrow> reading" where
  "interpret_macd macd_v signal_v hist_v =
     (let shown = [(''macd'', macd_v), (''signal'', signal_v), (''histogram'', hist_v)]
      in case (macd_v, signal_v, hist_v) of
           (Some line, Some sig, Some hist) \<Rightarrow>
             if num 0 < hist \<and> num 0 < line then pkg Bullish (''MACD ('' @ fmt_nan 2 line @ '') is above its signal line ('' @ fmt_nan 2 sig @ '') '' @ em_dash @
          '' short-term momentum is positive.'')
               macd_explainer shown
             else if hist < num 0 \<and> line < num 0 then pkg Bearish (''MACD ('' @ fmt_nan 2 line @ '') is below its signal line ('' @ fmt_nan 2 sig @ '') '' @ em_dash @
          '' short-term momentum is negative.'')
               macd_explainer shown
             else pkg Neutral (''MACD ('' @ fmt_nan 2 line @ '') and signal ('' @ fmt_nan 2 sig @ '') are crossing '' @ em_dash @
          '' momentum is shifting.'')
               macd_explainer shown
         | _ \<Rightarrow> pkg Neutral (''Not enough history to compute MACD yet.'') macd_explainer shown)"

definition sma_explainer :: "int \<Rightarrow> string" where
  "sma_explainer period =
     ''**SMA-'' @ str_of_int period @
     '' (Simple Moving Average)** is the average closing price over the last '' @ str_of_int period @
     '' days. It smooths out daily noise and shows the underlying trend. Price above SMA = uptrend, '' @
     ''price below = downtrend. The 50-day and 200-day SMAs are the two most-watched trend lines on '' @
     ''the planet.''"

definition interpret_sma :: "nflt option \<Rightarrow> nflt option \<Rightarrow> int \<Rightarrow> backtest_error + reading" where
  "interpret_sma close_v sma_value period =
     (case (close_v, sma_value) of
        (Some cl, Some avg) \<Rightarrow>
          bind_r (nan_div (cl - avg) avg) (\<lambda>ratio.
            let pct = ratio * num 100; shown = [(''sma'', Some avg), (''close'', Some cl), (''delta_pct'', Some pct)]
            in if avg < cl then Inr (pkg Bullish (''Price ('' @ fmt_nan 2 cl @ '') is '' @ fmt_nan 1 pct @ ''% above its '' @ str_of_int period @
          ''-day average ('' @ fmt_nan 2 avg @ '') '' @ em_dash @ '' the trend is up.'')
                 (sma_explainer period) shown)
               else Inr (pkg Bearish (''Price ('' @ fmt_nan 2 cl @ '') is '' @ fmt_nan 1 \<bar>pct\<bar> @ ''% below its '' @
          str_of_int period @ ''-day average ('' @ fmt_nan 2 avg @ '') '' @ em_dash @ '' the trend is down.'')
                 (sma_explainer period) shown))
      | _ \<Rightarrow> Inr (pkg Neutral (''Not enough history to compute SMA-'' @ str_of_int period @ ''.'') (sma_explainer period)
          [(''sma'', sma_value), (''close'', close_v)]))"

definition ema_explainer :: "int \<Rightarrow> string" where
  "ema_explainer period =
     ''**EMA-'' @ str_of_int period @
     '' (Exponential Moving Average)** is like SMA but weights recent prices more heavily, so it '' @
     ''reacts faster to changes. Traders favor EMA over SMA on short timeframes when they want to see '' @
     ''momentum shifts sooner.''"

definition interpret_ema :: "nflt option \<Rightarrow> nflt option \<Rightarrow> int \<Rightarrow> backtest_error + reading" where
  "interpret_ema close_v ema_value period =
     bind_r (interpret_sma close_v ema_value period) (\<lambda>base. Inr (base\<lparr>rd_explainer := ema_explainer period\<rparr>))"

definition bollinger_explainer :: "string" where
  "bollinger_explainer =
     ''**Bollinger Bands** wrap a 20-day moving average with bands two standard deviations above and '' @
     ''below. Most price action stays inside the bands. Price riding the upper band = strong uptrend '' @
     ''(or potential exhaustion). Price riding the lower band = strong downtrend (or potential '' @
     ''bottom). Width tells you about volatility '' @ em_dash @
     '' narrow bands often precede big moves.''"

definition interpret_bollinger :: "nflt option \<Rightarrow> nflt option \<Rightarrow> nflt option \<Rightarrow> nflt option \<Rightarrow> reading" where
  "interpret_bollinger close_v upper_v middle_v lower_v =
     (let shown = [(''upper'', upper_v), (''middle'', middle_v), (''lower'', lower_v), (''close'', close_v)]
      in case (close_v, upper_v, middle_v, lower_v) of
           (Some cl, Some up, Some mid, Some lo) \<Rightarrow>
             if up \<le> cl then pkg Bearish (''Price ('' @ fmt_nan 2 cl @ '') is at or above the upper band ('' @ fmt_nan 2 up @ '') '' @ em_dash @
          '' the stock is statistically extended; a pullback or sideways move is more likely.'')
               bollinger_explainer shown
             else if cl \<le> lo then pkg Bullish (''Price ('' @ fmt_nan 2 cl @ '') is at or below the lower band ('' @ fmt_nan 2 lo @ '') '' @ em_dash @
          '' the stock is statistically stretched; a bounce or sideways move is more likely.'')
               bollinger_explainer shown
             else pkg Neutral (''Price ('' @ fmt_nan 2 cl @ '') is inside the bands ('' @ fmt_nan 2 lo @ en_dash @ fmt_nan 2 up @
          ''). Normal range.'')
               bollinger_explainer shown
         | _ \<Rightarrow> pkg Neutral (''Not enough history to compute Bollinger Bands.'') bollinger_explainer shown)"

definition stochastic_explainer :: "string" where
  "stochastic_explainer =
     ''**Stochastic Oscillator** measures where today'' @ apostrophe @
     ''s close sits within the recent high'' @ en_dash @ ''low range, on a 0'' @ en_dash @
     ''100 scale. Above 80 is overbought, below 20 is oversold. Like RSI, it'' @ apostrophe @
     ''s momentum, not timing '' @ em_dash @ '' strong trends can pin %K at the extremes.''"

definition interpret_stochastic :: "nflt option \<Rightarrow> nflt option \<Rightarrow> reading" where
  "interpret_stochastic k_v d_v =
     (let shown = [(''k'', k_v), (''d'', d_v)]
      in case (k_v, d_v) of
           (Some k, Some d) \<Rightarrow>
             if num 80 < k then pkg Bearish (''Stochastic %K is '' @ fmt_nan 1 k @ ''. Above 80 = overbought territory.'')
               stochastic_explainer shown
             else if k < num 20 then pkg Bullish (''Stochastic %K is '' @ fmt_nan 1 k @ ''. Below 20 = oversold territory.'')
               stochastic_explainer shown
             else pkg Neutral (''Stochastic %K is '' @ fmt_nan 1 k @ '' '' @ em_dash @ '' neutral.'')
               stochastic_explainer shown
         | _ \<Rightarrow> pkg Neutral (''Not enough history to compute Stochastic.'') stochastic_explainer shown)"

definition obv_explainer :: "string" where
  "obv_explainer =
     ''**OBV (On-Balance Volume)** adds up volume on up-days and subtracts it on down-days. Rising '' @
     ''OBV = volume is supporting the uptrend. Falling OBV during a price uptrend = a divergence '' @
     ''worth watching, since the rally may not have buyer conviction behind it.''"

definition interpret_obv :: "nflt option \<Rightarrow> nflt option \<Rightarrow> reading" where
  "interpret_obv latest week_ago =
     (case (latest, week_ago) of
        (Some l, Some w) \<Rightarrow>
          let delta = l - w; shown = [(''obv'', Some l), (''obv_week_ago'', Some w), (''delta'', Some delta)]
          in if num 0 < delta then pkg Bullish (''OBV is rising over the past week '' @ em_dash @ '' buyers have been more active than sellers.'')
               obv_explainer shown
             else if delta < num 0 then pkg Bearish (''OBV is falling over the past week '' @ em_dash @ '' sellers have been more active than buyers.'')
               obv_explainer shown
             else pkg Neutral (''OBV is flat '' @ em_dash @ '' buying and selling pressure are balanced.'')
               obv_explainer shown
      | _ \<Rightarrow> pkg Neutral (''Not enough history to read OBV trend.'') obv_explainer [(''obv'', latest), (''obv_week_ago'', week_ago)])"

definition atr_explainer :: "string" where
  "atr_explainer =
     ''**ATR (Average True Range)** measures average daily volatility in PKR. It'' @ apostrophe @
     ''s not directional '' @ em_dash @
     '' it just tells you how much the stock typically moves in a day. Useful for sizing positions: '' @
     ''divide your risk budget by ATR to figure out a sensible stop-loss distance.''"

definition interpret_atr :: "nflt option \<Rightarrow> nflt option \<Rightarrow> backtest_error + reading" where
  "interpret_atr atr_value close_v =
     (case (atr_value, close_v) of
        (Some rng, Some cl) \<Rightarrow>
          bind_r (nan_div rng cl) (\<lambda>ratio.
            let pct = ratio * num 100
            in Inr (pkg Neutral (''Average daily range '' @ [CHR 0xE2, CHR 0x89, CHR 0x88] @ '' PKR '' @ fmt_nan 2 rng @ '' ('' @
          fmt_nan 1 pct @ ''% of current price). Use this to size stop-losses.'')
                 atr_explainer [(''atr'', Some rng), (''atr_pct_of_price'', Some pct)]))
      | _ \<Rightarrow> Inr (pkg Neutral (''Not enough history to compute ATR.'') atr_explainer [(''atr'', atr_value)]))"

section \<open>The service\<close>

record indicator_response =
  ir_symbol :: string
  ir_indicator :: string
  ir_as_of :: "string option"
  ir_signal :: signal
  ir_summary :: string
  ir_explainer :: string
  ir_value :: "(string \<times> nflt option) list"

definition SUPPORTED :: "(string \<times> string \<times> string) list" where
  "SUPPORTED =
     [(''rsi'', ''RSI (14)'', ''momentum''), (''macd'', ''MACD (12, 26, 9)'', ''momentum''), (''sma50'', ''SMA 50'', ''trend''),
      (''sma200'', ''SMA 200'', ''trend''), (''ema20'', ''EMA 20'', ''trend''),
      (''bbands'', ''Bollinger Bands (20, 2'' @ [CHR 0xCF, CHR 0x83] @ '')'', ''volatility''),
      (''stochastic'', ''Stochastic (14, 3)'', ''momentum''), (''obv'', ''OBV'', ''volume''), (''atr'', ''ATR (14)'', ''volatility'')]"

definition price :: "dec option \<Rightarrow> nflt" where
  "price v = (case v of Some d \<Rightarrow> Num (flt_of_dec d) | None \<Rightarrow> NaN)"

definition volume_or_zero :: "int option \<Rightarrow> nflt" where
  "volume_or_zero v = (case v of Some n \<Rightarrow> Num (flt_of_int n) | None \<Rightarrow> num 0)"

definition wrap :: "string \<Rightarrow> string \<Rightarrow> string \<Rightarrow> reading \<Rightarrow> indicator_response" where
  "wrap symb ind as_of res =
     \<lparr>ir_symbol = symb, ir_indicator = ind, ir_as_of = Some as_of, ir_signal = rd_signal res, ir_summary = rd_summary res,
      ir_explainer = rd_explainer res, ir_value = rd_value res\<rparr>"

definition no_history :: "string \<Rightarrow> string \<Rightarrow> indicator_response" where
  "no_history symb ind =
     \<lparr>ir_symbol = symb, ir_indicator = ind, ir_as_of = None, ir_signal = Neutral,
      ir_summary = ''No price history available for this symbol yet.'', ir_explainer = [], ir_value = []\<rparr>"

definition history :: "market_db \<Rightarrow> string \<Rightarrow> OhlcvDaily list" where
  "history mk symb = rev (take 260 (newest_first mk symb))"

definition read_indicator :: "libm \<Rightarrow> string \<Rightarrow> OhlcvDaily list \<Rightarrow> backtest_error + reading" where
  "read_indicator lm ind rows =
     (let highs = map (\<lambda>r. price (o_high r)) rows; lows = map (\<lambda>r. price (o_low r)) rows;
          closes = map (\<lambda>r. price (o_close r)) rows; volumes = map (\<lambda>r. volume_or_zero (o_volume r)) rows;
          last_close = Some (last closes)
      in if ind = ''rsi'' then bind_r (nan_rsi closes 14) (\<lambda>series. Inr (interpret_rsi (last series)))
         else if ind = ''macd'' then bind_r (nan_macd closes 12 26 9) (\<lambda>(line, sig, hist).
           Inr (interpret_macd (last line) (last sig) (last hist)))
         else if ind = ''sma50'' then bind_r (nan_sma closes 50) (\<lambda>series. interpret_sma last_close (last series) 50)
         else if ind = ''sma200'' then bind_r (nan_sma closes 200) (\<lambda>series. interpret_sma last_close (last series) 200)
         else if ind = ''ema20'' then bind_r (nan_ema closes 20) (\<lambda>series. interpret_ema last_close (last series) 20)
         else if ind = ''bbands'' then bind_r (nan_bollinger_bands lm closes 20 (num 2)) (\<lambda>(up, mid, lo).
           Inr (interpret_bollinger last_close (last up) (last mid) (last lo)))
         else if ind = ''stochastic'' then bind_r (nan_stochastic highs lows closes 14 3) (\<lambda>(ks, ds).
           Inr (interpret_stochastic (last ks) (last ds)))
         else if ind = ''obv'' then bind_r (nan_obv closes volumes) (\<lambda>series.
           Inr (interpret_obv (last series) (series ! (length series - 6))))
         else if ind = ''atr'' then bind_r (nan_atr highs lows closes 14) (\<lambda>series. interpret_atr (last series) last_close)
         else Inl (ValueErr (''Unknown indicator: '' @ ind)))"

definition compute_uncached :: "libm \<Rightarrow> market_db \<Rightarrow> string \<Rightarrow> string \<Rightarrow> backtest_error + indicator_response" where
  "compute_uncached lm mk symb ind =
     (let rows = history mk symb
      in if rows = [] then Inr (no_history symb ind)
         else bind_r (read_indicator lm ind rows) (\<lambda>res. Inr (wrap symb ind (date_isoformat (o_date (last rows))) res)))"

definition indicator_key :: "string \<Rightarrow> string \<Rightarrow> string" where
  "indicator_key symb ind = ''indicator:'' @ symb @ '':'' @ ind"

type_synonym indicator_cache = "indicator_response cache"

definition service_indicator ::
  "libm \<Rightarrow> market_db \<Rightarrow> indicator_cache \<Rightarrow> int \<Rightarrow> string \<Rightarrow> string \<Rightarrow> (indicator_response, indicator_response) cache_result" where
  "service_indicator lm mk rd now symb ind =
     bind_c (cached rd now (indicator_key symb ind) TTL_OHLCV
         (case compute_uncached lm mk symb ind of Inl e \<Rightarrow> Inl ServerError | Inr r \<Rightarrow> Inr (Some r)))
       (\<lambda>v rd'. (case v of Some r \<Rightarrow> Inr r | None \<Rightarrow> Inl ServerError, rd'))"

definition py_list_repr :: "string list \<Rightarrow> string" where
  "py_list_repr ss = ''['' @ concat (map (\<lambda>(i, s). (if i = 0 then [] else '', '') @ apostrophe @ s @ apostrophe) (enumerate 0 ss)) @ '']''"

definition compute_indicator ::
  "libm \<Rightarrow> market_db \<Rightarrow> indicator_cache \<Rightarrow> int \<Rightarrow> string \<Rightarrow> string \<Rightarrow> (indicator_response, indicator_response) cache_result" where
  "compute_indicator lm mk rd now symb ind =
     (let valid = map fst SUPPORTED
      in if ind \<notin> set valid
         then (Inl (HTTPException 400 (''Unknown indicator '' @ apostrophe @ ind @ apostrophe @ ''. Valid: '' @ py_list_repr (sort valid))), rd)
         else service_indicator lm mk rd now (py_upper symb) ind)"

section \<open>Complete prices\<close>

text \<open>On prices without gaps the functions are those of the strategies.\<close>

definition embed :: "series \<Rightarrow> nan_series" where "embed = map (map_option Num)"

lemma embed_simps [simp]:
  "length (embed xs) = length xs" "embed [] = []" "embed (x # xs) = map_option Num x # embed xs" "embed (xs @ ys) = embed xs @ embed ys"
  "embed (replicate n None) = replicate n None" "xs \<noteq> [] \<Longrightarrow> last (embed xs) = map_option Num (last xs)"
  "i < length xs \<Longrightarrow> embed xs ! i = map_option Num (xs ! i)"
  by (simp_all add: embed_def last_map)

lemma num_eqs [simp]: "num (of_int i) = Num (flt_of_int i)" "num (of_nat n) = Num (flt_of_nat n)" "num 0 = Num 0" "num 1 = Num 1"
  using flt_r.exact_int [of 1] by (simp_all add: num_def flt_of_int_def flt_of_nat_def flt_def zero_flt_def one_flt_def)

lemma nan_sum_Num: "nan_sum (map Num xs) = Num (flt_sum xs)"
proof -
  have "foldl (+) (Num a) (map Num xs) = Num (foldl (+) a xs)" for a by (induction xs arbitrary: a) simp_all
  then show ?thesis by (simp add: nan_sum_def flt_sum_def)
qed

lemma nan_sum_take: "nan_sum (take k (map Num xs)) = Num (flt_sum (take k xs))"
  by (simp only: take_map nan_sum_Num)

lemma scan_embed:
  assumes "\<And>i s. i \<in> set js \<Longrightarrow> step' (h s) i = h (step s i)" "\<And>s. emit' (h s) = Num (emit s)"
  shows "scan step' emit' (h s) js = embed (scan step emit s js)"
  using assms(1) by (induction js arbitrary: s) (simp_all add: assms(2) Let_def)

lemma map_sum_simps: "map_sum f g (bind_r r k) = bind_r (map_sum f id r) (\<lambda>x. map_sum f g (k x))"
  by (cases r) simp_all

lemma nan_sma_Num: "nan_sma (map Num xs) p = map_sum id embed (sma xs p)"
proof -
  have "scan (\<lambda>r i. r + (map Num xs ! i - map Num xs ! (i - k))) (\<lambda>r. r / Num d) (Num r) [k..<length xs]
    = embed (scan (\<lambda>r i. r + (xs ! i - xs ! (i - k))) (\<lambda>r. r / d) r [k..<length xs])" for k d r
    by (rule scan_embed) auto
  then show ?thesis by (auto simp: nan_sma_def sma_def Let_def nan_sum_take)
qed

lemma nan_ema_Num: "nan_ema (map Num xs) p = map_sum id embed (ema xs p)"
proof -
  have "scan (\<lambda>prev i. map Num xs ! i * Num k + prev * Num j) (\<lambda>prev. prev) (Num r) [n..<length xs]
    = embed (scan (\<lambda>prev i. xs ! i * k + prev * j) (\<lambda>prev. prev) r [n..<length xs])" for k j n r
    by (rule scan_embed) auto
  moreover have "num (2 / q) = Num (flt (2 / q))" for q by (simp add: num_def)
  ultimately show ?thesis by (auto simp: nan_ema_def ema_def Let_def nan_sum_take)
qed

lemma foldl_image: "(\<And>a i. i \<in> set js \<Longrightarrow> f' (h a) i = h (f a i)) \<Longrightarrow> foldl f' (h a) js = h (foldl f a js)"
  by (induction js arbitrary: a) simp_all

lemma nan_rsi_first_Num:
  assumes "p < length xs"
  shows "nan_rsi_first (map Num xs) p = map_prod Num Num (rsi_first xs p)"
proof -
  have "(0, 0) = map_prod Num Num (0, 0)" by (simp add: zero_nflt_def)
  then show ?thesis unfolding nan_rsi_first_def rsi_first_def
    by (simp only: num_eqs map_prod_simp [symmetric]) (rule foldl_image, use assms in \<open>auto simp: Let_def\<close>)
qed

lemma nan_rsi_step_Num:
  "i < length xs \<Longrightarrow> nan_rsi_step (map Num xs) period (map_prod Num Num a) i = map_prod Num Num (rsi_step xs period a i)"
  by (cases a) (simp add: nan_rsi_step_def rsi_step_def Let_def del: of_int_diff)

lemma nan_rsi_value_Num: "nan_rsi_value (map_prod Num Num a) = Num (rsi_value a)"
  by (cases a) (simp add: nan_rsi_value_def rsi_value_def num_def [of 100])

lemma nan_rsi_Num: "nan_rsi (map Num xs) p = map_sum id embed (rsi xs p)"
proof -
  have "scan (nan_rsi_step (map Num xs) p) nan_rsi_value (map_prod Num Num a) [k..<length xs] = embed (scan (rsi_step xs p) rsi_value a [k..<length xs])" for k a
    by (rule scan_embed) (simp_all add: nan_rsi_step_Num nan_rsi_value_Num)
  from this [of "(g, l)" for g l] show ?thesis
    by (auto simp: nan_rsi_def rsi_def Let_def nan_rsi_first_Num nan_rsi_value_Num [of "(g, l)" for g l, simplified] split: prod.splits)
qed

lemma embed_minus_series: "minus_series (embed a) (embed b) = embed (minus_series a b)"
  by (simp add: minus_series_def embed_def zip_map_map split: prod.splits option.splits)

lemma embed_populated: "populated_idx (embed xs) = populated_idx xs" "populated (embed xs) = map Num (populated xs)"
proof -
  show idx: "populated_idx (embed xs) = populated_idx xs" by (simp add: populated_idx_def embed_def takeWhile_map comp_def)
  have "map the (filter (\<lambda>v. v \<noteq> None) (map (map_option Num) ys)) = map Num (map the (filter (\<lambda>v. v \<noteq> None) ys))" for ys
    by (induction ys) auto
  then show "populated (embed xs) = map Num (populated xs)" by (simp add: populated_def idx) (simp add: embed_def drop_map)
qed

lemma smoothed_embed:
  assumes "\<And>vs. f' (map Num vs) = map_sum id embed (f vs)"
  shows "smoothed f' n (embed line) = map_sum id embed (smoothed f n line)"
proof -
  have sh: "shifted n k (embed t) = embed (shifted n k t)" for k t by (simp add: shifted_def)
  show ?thesis by (cases "f (populated line)") (auto simp: smoothed_def embed_populated assms sh simp flip: embed_simps(2))
qed

lemma nan_macd_Num:
  "nan_macd (map Num xs) fast slow sig = map_sum id (\<lambda>m. (embed (macd_line m), embed (macd_signal m), embed (macd_histogram m))) (macd xs fast slow sig)"
proof -
  have sm: "smoothed (\<lambda>vs. nan_ema vs sig) n (embed l) = map_sum id embed (smoothed (\<lambda>vs. ema vs sig) n l)" for n l
    by (rule smoothed_embed) (rule nan_ema_Num)
  show ?thesis by (cases "ema xs fast"; cases "ema xs slow";
      cases "smoothed (\<lambda>vs. ema vs sig) (length xs) (minus_series (projr (ema xs fast)) (projr (ema xs slow)))")
    (simp_all add: nan_macd_def macd_def nan_ema_Num embed_minus_series sm Let_def)
qed

lemma nan_min_Num: "nan_min (Num x) (Num y) = Num (min x y)"
  by (simp add: nan_min_def min_def not_less [symmetric])

lemma foldl_max_Num: "xs \<noteq> [] \<Longrightarrow> foldl max (hd (map Num xs)) (tl (map Num xs)) = Num (list_max xs)"
  and foldl_min_Num: "xs \<noteq> [] \<Longrightarrow> foldl nan_min (hd (map Num xs)) (tl (map Num xs)) = Num (list_min xs)"
proof -
  have "foldl max (Num a) (map Num ys) = Num (foldl max a ys)" for a ys by (induction ys arbitrary: a) simp_all
  then show "xs \<noteq> [] \<Longrightarrow> foldl max (hd (map Num xs)) (tl (map Num xs)) = Num (list_max xs)"
    by (simp add: list_max_def list.map_sel flip: map_tl)
  have "foldl nan_min (Num a) (map Num ys) = Num (foldl min a ys)" for a ys by (induction ys arbitrary: a) (simp_all add: nan_min_Num)
  then show "xs \<noteq> [] \<Longrightarrow> foldl nan_min (hd (map Num xs)) (tl (map Num xs)) = Num (list_min xs)"
    by (simp add: list_min_def list.map_sel flip: map_tl)
qed

lemma window_map: "window k i (map f xs) = map f (window k i xs)"
  by (simp add: window_def drop_map take_map)

lemma nan_stochastic_k_Num:
  assumes "k \<noteq> 0" "i < length cs" "length hs = length cs" "length ls = length cs"
  shows "nan_stochastic_k k (map Num hs) (map Num ls) (map Num cs) i = Num (stochastic_k k hs ls cs i)"
proof -
  have "window k i hs \<noteq> []" "window k i ls \<noteq> []" using assms by (auto simp: window_def)
  then show ?thesis using assms(2) unfolding nan_stochastic_k_def stochastic_k_def Let_def window_map
    by (simp add: foldl_max_Num foldl_min_Num num_def [of 100] num_def [of 50] zero_flt_def)
qed

lemma nan_stochastic_Num:
  "nan_stochastic (map Num hs) (map Num ls) (map Num cs) k d = map_sum id (map_prod embed embed) (stochastic hs ls cs k d)"
proof (cases "length hs = length ls \<and> length ls = length cs \<and> k \<noteq> 0")
  case True
  let ?line = "replicate (min (k - 1) (length cs)) None @ map (\<lambda>i. Some (stochastic_k k hs ls cs i)) [k - 1..<length cs]"
  have line: "replicate (min (k - 1) (length cs)) None @ map (\<lambda>i. Some (nan_stochastic_k k (map Num hs) (map Num ls) (map Num cs) i)) [k - 1..<length cs]
    = embed ?line"
    using True by (auto simp: embed_def nan_stochastic_k_Num)
  have sm: "smoothed (\<lambda>vs. nan_sma vs d) n (embed l) = map_sum id embed (smoothed (\<lambda>vs. sma vs d) n l)" for n l
    by (rule smoothed_embed) (rule nan_sma_Num)
  show ?thesis using True unfolding nan_stochastic_def stochastic_def Let_def length_map line sm
    by (cases "smoothed (\<lambda>vs. sma vs d) (length cs) ?line") simp_all
qed (auto simp: nan_stochastic_def stochastic_def)

lemma nan_pow_Num: "nan_pow lm (Num x) e = map_sum id Num (lm_pow lm x e)"
  by (cases "lm_pow lm x e") (simp_all add: nan_pow_def)

lemma collect_map_sum: "collect_r (map (\<lambda>x. map_sum id g (f x)) xs) = map_sum id (map g) (collect_r (map f xs))"
proof (induction xs)
  case (Cons x xs)
  then show ?case by (cases "f x"; cases "collect_r (map f xs)") simp_all
qed simp

lemma nan_band_std_Num: "nan_band_std lm (map Num xs) p (Num mean) i = map_sum id Num (band_std lm xs p mean i)"
proof -
  have "collect_r (map (\<lambda>x. nan_pow lm (x - Num mean) (flt 2)) (map Num ws)) = map_sum id (map Num) (collect_r (map (\<lambda>x. lm_pow lm (x - mean) (flt 2)) ws))" for ws
    by (simp add: comp_def nan_pow_Num collect_map_sum)
  then show ?thesis unfolding nan_band_std_def band_std_def window_map
    by (cases "collect_r (map (\<lambda>x. lm_pow lm (x - mean) (flt 2)) (window (nat p) i xs))") (simp_all add: nan_sum_Num nan_pow_Num)
qed

lemma nan_bollinger_Num:
  "nan_bollinger_bands lm (map Num xs) p (num 2) =
     map_sum id (\<lambda>b. (embed (upper_band b), embed (middle_band b), embed (lower_band b))) (bollinger_bands lm xs p (flt 2))"
proof (cases "sma xs p")
  case (Inr middle)
  let ?ixs = "[nat p - 1..<length xs]" and ?pad = "replicate (min (nat p - 1) (length xs)) None" and ?mean = "\<lambda>i. the (middle ! i)"
  have pos: "0 < p" using Inr by (auto simp: sma_def split: if_splits)
  have "length middle = length xs" by (rule sma.aligned [OF Inr])
  moreover have "middle ! i \<noteq> None" if "i \<in> set ?ixs" for i
  proof -
    have "middle = warm_scan (nat p - 1) (flt_sum (take (nat p) xs)) (\<lambda>r i. r + (xs ! i - xs ! (i - nat p))) (\<lambda>r. r / flt_of_int p) (length xs)"
      using Inr pos by (simp add: sma_form)
    then have "middle ! i = None \<longleftrightarrow> i < nat p - 1" using that by (simp only: warm_scan_nth_None set_upt atLeastLessThan_iff)
    then show ?thesis using that by simp
  qed
  ultimately have mean: "the (embed middle ! i) = Num (?mean i)" if "i \<in> set ?ixs" for i
    using that by (auto simp: option.map_sel)
  have std: "collect_r (map (\<lambda>i. nan_band_std lm (map Num xs) p (the (embed middle ! i)) i) ?ixs)
      = map_sum id (map Num) (collect_r (map (\<lambda>i. band_std lm xs p (?mean i) i) ?ixs))"
    unfolding collect_map_sum [symmetric] by (rule arg_cong [where f = collect_r], rule map_cong) (simp_all add: mean nan_band_std_Num)
  have band: "?pad @ map2 (\<lambda>i std. Some (g (the (embed middle ! i)) std)) ?ixs (map Num stds)
      = embed (?pad @ map2 (\<lambda>i std. Some (g' (?mean i) std)) ?ixs stds)"
    if "\<And>x y. g (Num x) (Num y) = Num (g' x y)" for g g' stds
    using mean by (auto simp: that embed_def zip_map2 dest!: set_zip_leftD)
  show ?thesis
    unfolding nan_bollinger_bands_def bollinger_bands_def nan_sma_Num Inr Let_def
    by (cases "collect_r (map (\<lambda>i. band_std lm xs p (?mean i) i) ?ixs)")
      (simp_all add: std [simplified] num_def [of 2] band [of "\<lambda>a b. a + Num (flt 2) * b" "\<lambda>a b. a + flt 2 * b", simplified]
        band [of "\<lambda>a b. a - Num (flt 2) * b" "\<lambda>a b. a - flt 2 * b", simplified])
qed (simp add: nan_bollinger_bands_def bollinger_bands_def nan_sma_Num)

lemma nan_atr_Num: "nan_atr (map Num hs) (map Num ls) (map Num cs) p = map_sum id embed (atr hs ls cs p)"
proof (cases "length hs = length ls \<and> length ls = length cs")
  case True
  define trs where "trs = map (true_range hs ls cs) [1..<length cs]"
  have trs: "map (nan_true_range (map Num hs) (map Num ls) (map Num cs)) [1..<length cs] = map Num trs"
    using True by (auto simp: trs_def nan_true_range_def true_range_def Let_def)
  have "scan (\<lambda>prev i. (prev * Num m + map Num trs ! (i - 1)) / Num d) (\<lambda>prev. prev) (Num r) [p + 1..<length cs]
    = embed (scan (\<lambda>prev i. (prev * m + trs ! (i - 1)) / d) (\<lambda>prev. prev) r [p + 1..<length cs])" for m d r
    by (rule scan_embed) (auto simp: trs_def)
  then show ?thesis using True unfolding nan_atr_def atr_def Let_def length_map trs trs_def [symmetric] nan_sum_take
    by (simp del: of_nat_diff)
qed (auto simp: nan_atr_def atr_def)

lemma nan_obv_Num: "nan_obv (map Num cs) (map Num vs) = map_sum id embed (obv cs vs)"
proof (cases "length cs = length vs")
  case True
  have "scan (\<lambda>running i. if map Num cs ! (i - 1) < map Num cs ! i then running + map Num vs ! i
       else if map Num cs ! i < map Num cs ! (i - 1) then running - map Num vs ! i else running) (\<lambda>running. running) (Num r) [1..<length cs]
    = embed (scan (\<lambda>running i. if cs ! (i - 1) < cs ! i then running + vs ! i
       else if cs ! i < cs ! (i - 1) then running - vs ! i else running) (\<lambda>running. running) r [1..<length cs])" for r
    by (rule scan_embed) (use True in auto)
  then show ?thesis using True by (simp add: nan_obv_def obv_def)
qed (simp add: nan_obv_def obv_def)

text \<open>The last values of the series of the strategies, as the service reads them.\<close>

lemma last_series:
  "xs \<noteq> [] \<Longrightarrow> sma xs p = Inr ys \<Longrightarrow> ys \<noteq> []" "xs \<noteq> [] \<Longrightarrow> ema xs p = Inr ys \<Longrightarrow> ys \<noteq> []" "xs \<noteq> [] \<Longrightarrow> rsi xs p = Inr ys \<Longrightarrow> ys \<noteq> []"
  by (auto dest: sma.aligned ema.aligned rsi.aligned)

lemma smoothed_nonempty: "0 < n \<Longrightarrow> smoothed f n l = Inr ys \<Longrightarrow> ys \<noteq> []"
  by (auto simp: smoothed_def shifted_def bind_r_Inr_iff)

lemma nonempty_length: "length ys = length xs \<Longrightarrow> xs \<noteq> [] \<Longrightarrow> ys \<noteq> []"
  by auto

lemma minus_series_nonempty: "a \<noteq> [] \<Longrightarrow> b \<noteq> [] \<Longrightarrow> minus_series a b \<noteq> []"
  by (cases a; cases b) (simp_all add: minus_series_def)

lemma macd_nonempty:
  assumes "xs \<noteq> []" "macd xs f s g = Inr m"
  shows "macd_line m \<noteq> [] \<and> macd_signal m \<noteq> [] \<and> macd_histogram m \<noteq> []"
proof -
  obtain a b where ab: "ema xs f = Inr a" "ema xs s = Inr b"
    and sm: "smoothed (\<lambda>vs. ema vs g) (length xs) (minus_series a b) = Inr (macd_signal m)"
    and m: "macd_line m = minus_series a b" "macd_histogram m = minus_series (minus_series a b) (macd_signal m)"
    using assms(2) by (auto simp: macd_def bind_r_Inr_iff Let_def)
  have "macd_signal m \<noteq> []" by (rule smoothed_nonempty [OF _ sm]) (use assms(1) in simp)
  moreover have "minus_series a b \<noteq> []"
    by (intro minus_series_nonempty nonempty_length [OF ema.aligned assms(1)]) (rule ab)+
  ultimately show ?thesis unfolding m by (simp add: minus_series_nonempty)
qed

lemma bollinger_nonempty:
  assumes "xs \<noteq> []" "bollinger_bands lm xs 20 k = Inr b"
  shows "upper_band b \<noteq> [] \<and> middle_band b \<noteq> [] \<and> lower_band b \<noteq> []"
  using bollinger_aligned [OF assms(2)] nonempty_length [OF _ assms(1)] by blast

lemma stochastic_nonempty: "xs \<noteq> [] \<Longrightarrow> stochastic hs ls xs kp dp = Inr (ks, ds) \<Longrightarrow> ks \<noteq> [] \<and> ds \<noteq> []"
  by (auto simp: stochastic_def Let_def bind_r_Inr_iff min_def dest!: smoothed_nonempty [rotated] split: if_splits)

lemma atr_nonempty: "xs \<noteq> [] \<Longrightarrow> atr hs ls xs n = Inr ys \<Longrightarrow> ys \<noteq> []"
  by (auto simp: atr_def Let_def split: if_splits)

lemma obv_nonempty: "xs \<noteq> [] \<Longrightarrow> obv xs vs = Inr ys \<Longrightarrow> ys \<noteq> []"
  by (auto simp: obv_def split: if_splits)

text \<open>The service on complete prices: the same readings of the indicators of the strategies.\<close>

definition column :: "(OhlcvDaily \<Rightarrow> dec option) \<Rightarrow> OhlcvDaily list \<Rightarrow> flt list" where
  "column f rows = map (\<lambda>r. flt_of_dec (the (f r))) rows"

definition plain_reading :: "libm \<Rightarrow> string \<Rightarrow> OhlcvDaily list \<Rightarrow> backtest_error + reading" where
  "plain_reading lm ind rows =
     (let highs = column o_high rows; lows = column o_low rows; closes = column o_close rows;
          volumes = map (\<lambda>r. case o_volume r of Some n \<Rightarrow> flt_of_int n | None \<Rightarrow> 0) rows;
          at_end = (\<lambda>series. map_option Num (last series)); last_close = Some (Num (last closes))
      in if ind = ''rsi'' then bind_r (rsi closes 14) (\<lambda>s. Inr (interpret_rsi (at_end s)))
         else if ind = ''macd'' then bind_r (macd closes 12 26 9) (\<lambda>m.
           Inr (interpret_macd (at_end (macd_line m)) (at_end (macd_signal m)) (at_end (macd_histogram m))))
         else if ind = ''sma50'' then bind_r (sma closes 50) (\<lambda>s. interpret_sma last_close (at_end s) 50)
         else if ind = ''sma200'' then bind_r (sma closes 200) (\<lambda>s. interpret_sma last_close (at_end s) 200)
         else if ind = ''ema20'' then bind_r (ema closes 20) (\<lambda>s. interpret_ema last_close (at_end s) 20)
         else if ind = ''bbands'' then bind_r (bollinger_bands lm closes 20 (flt 2)) (\<lambda>b.
           Inr (interpret_bollinger last_close (at_end (upper_band b)) (at_end (middle_band b)) (at_end (lower_band b))))
         else if ind = ''stochastic'' then bind_r (stochastic highs lows closes 14 3) (\<lambda>(ks, ds).
           Inr (interpret_stochastic (at_end ks) (at_end ds)))
         else if ind = ''obv'' then bind_r (obv closes volumes) (\<lambda>s.
           Inr (interpret_obv (at_end s) (map_option Num (s ! (length s - 6)))))
         else if ind = ''atr'' then bind_r (atr highs lows closes 14) (\<lambda>s. interpret_atr (at_end s) last_close)
         else Inl (ValueErr (''Unknown indicator: '' @ ind)))"

definition complete :: "OhlcvDaily \<Rightarrow> bool" where
  "complete r \<longleftrightarrow> o_high r \<noteq> None \<and> o_low r \<noteq> None \<and> o_close r \<noteq> None"

lemma price_column: "list_all (\<lambda>r. f r \<noteq> None) rows \<Longrightarrow> map (\<lambda>r. price (f r)) rows = map Num (column f rows)"
  by (auto simp: column_def price_def list_all_iff)

lemma volume_column: "map (\<lambda>r. volume_or_zero (o_volume r)) rows = map Num (map (\<lambda>r. case o_volume r of Some n \<Rightarrow> flt_of_int n | None \<Rightarrow> 0) rows)"
  by (simp add: volume_or_zero_def split: option.split)

lemma read_plain:
  assumes "rows \<noteq> []" "list_all complete rows"
  shows "read_indicator lm ind rows = plain_reading lm ind rows"
proof -
  let ?xs = "column o_close rows"
  have cols: "map (\<lambda>r. price (o_high r)) rows = map Num (column o_high rows)" "map (\<lambda>r. price (o_low r)) rows = map Num (column o_low rows)"
    "map (\<lambda>r. price (o_close r)) rows = map Num ?xs"
    using assms(2) by (auto intro!: price_column simp: list_all_iff complete_def)
  have xs: "?xs \<noteq> []" using assms(1) by (simp add: column_def)
  have lst: "last (map Num ?xs) = Num (last ?xs)" using xs by (simp add: last_map)
  let ?hs = "column o_high rows" and ?ls = "column o_low rows" and ?vs = "map (\<lambda>r. case o_volume r of Some n \<Rightarrow> flt_of_int n | None \<Rightarrow> 0) rows"
  let ?fin = "\<lambda>s. map_option Num (last s)" and ?cl = "Some (Num (last ?xs))"
  have e1: "bind_r (nan_rsi (map Num ?xs) 14) (\<lambda>s. Inr (interpret_rsi (last s))) = bind_r (rsi ?xs 14) (\<lambda>s. Inr (interpret_rsi (?fin s)))"
    using last_series(3) [OF xs, of 14] by (cases "rsi ?xs 14") (simp_all add: nan_rsi_Num)
  have e2: "bind_r (nan_macd (map Num ?xs) 12 26 9) (\<lambda>(line, sig, hist). Inr (interpret_macd (last line) (last sig) (last hist)))
      = bind_r (macd ?xs 12 26 9) (\<lambda>m. Inr (interpret_macd (?fin (macd_line m)) (?fin (macd_signal m)) (?fin (macd_histogram m))))"
    using macd_nonempty [OF xs, of 12 26 9] by (cases "macd ?xs 12 26 9") (simp_all add: nan_macd_Num)
  have e3: "bind_r (nan_sma (map Num ?xs) p) (\<lambda>s. interpret_sma ?cl (last s) p) = bind_r (sma ?xs p) (\<lambda>s. interpret_sma ?cl (?fin s) p)" for p
    using last_series(1) [OF xs, of p] by (cases "sma ?xs p") (simp_all add: nan_sma_Num)
  have e4: "bind_r (nan_ema (map Num ?xs) p) (\<lambda>s. interpret_ema ?cl (last s) p) = bind_r (ema ?xs p) (\<lambda>s. interpret_ema ?cl (?fin s) p)" for p
    using last_series(2) [OF xs, of p] by (cases "ema ?xs p") (simp_all add: nan_ema_Num)
  have e5: "bind_r (nan_bollinger_bands lm (map Num ?xs) 20 (num 2)) (\<lambda>(up, mid, lo). Inr (interpret_bollinger ?cl (last up) (last mid) (last lo)))
      = bind_r (bollinger_bands lm ?xs 20 (flt 2)) (\<lambda>b. Inr (interpret_bollinger ?cl (?fin (upper_band b)) (?fin (middle_band b)) (?fin (lower_band b))))"
    using bollinger_nonempty [OF xs, of lm "flt 2"] by (cases "bollinger_bands lm ?xs 20 (flt 2)") (simp_all add: nan_bollinger_Num)
  have e6: "bind_r (nan_stochastic (map Num ?hs) (map Num ?ls) (map Num ?xs) 14 3) (\<lambda>(ks, ds). Inr (interpret_stochastic (last ks) (last ds)))
      = bind_r (stochastic ?hs ?ls ?xs 14 3) (\<lambda>(ks, ds). Inr (interpret_stochastic (?fin ks) (?fin ds)))"
    using stochastic_nonempty [OF xs, of ?hs ?ls 14 3] by (cases "stochastic ?hs ?ls ?xs 14 3") (auto simp: nan_stochastic_Num)
  have e7: "bind_r (nan_obv (map Num ?xs) (map Num vs)) (\<lambda>s. Inr (interpret_obv (last s) (s ! (length s - 6))))
      = bind_r (obv ?xs vs) (\<lambda>s. Inr (interpret_obv (?fin s) (map_option Num (s ! (length s - 6)))))" for vs
    using obv_nonempty [OF xs, of vs] by (cases "obv ?xs vs") (simp_all add: nan_obv_Num)
  have e8: "bind_r (nan_atr (map Num ?hs) (map Num ?ls) (map Num ?xs) 14) (\<lambda>s. interpret_atr (last s) ?cl) = bind_r (atr ?hs ?ls ?xs 14) (\<lambda>s. interpret_atr (?fin s) ?cl)"
    using atr_nonempty [OF xs, of ?hs ?ls 14] by (cases "atr ?hs ?ls ?xs 14") (simp_all add: nan_atr_Num)
  show ?thesis unfolding read_indicator_def plain_reading_def Let_def cols volume_column lst by (simp only: e1 e2 e3 e4 e5 e6 e7 e8)
qed


text \<open>A symbol with the given closes on consecutive days.\<close>

definition ex_closes :: "dec option list \<Rightarrow> market_db" where
  "ex_closes closes = \<lparr>security_rows = [], ohlcv_rows = map (\<lambda>(d, c). \<lparr>o_symbol = ''HBL'', o_date = int d, o_open = c, o_high = c,
     o_low = c, o_close = c, o_volume = Some 100, o_value_pkr = None, o_adjusted_close = None\<rparr>) (enumerate 1 closes)\<rparr>"

lemma ex_closes_history:
  assumes "length closes \<le> 260"
  shows "length (history (ex_closes closes) ''HBL'') = length closes"
    and "o_close ` set (history (ex_closes closes) ''HBL'') = set closes"
proof -
  have all: "filter (\<lambda>x. o_symbol x = ''HBL'') (ohlcv_rows (ex_closes closes)) = ohlcv_rows (ex_closes closes)"
    by (auto simp: ex_closes_def intro!: filter_True)
  have len: "length (ohlcv_rows (ex_closes closes)) = length closes" by (simp add: ex_closes_def)
  have map: "map o_close (ohlcv_rows (ex_closes closes)) = closes"
    by (simp add: ex_closes_def comp_def case_prod_beta)
  show "length (history (ex_closes closes) ''HBL'') = length closes" using assms by (simp add: history_def newest_first_def all len)
  have "o_close ` set (history (ex_closes closes) ''HBL'') = set (map o_close (ohlcv_rows (ex_closes closes)))"
    using assms by (simp add: history_def newest_first_def all len)
  then show "o_close ` set (history (ex_closes closes) ''HBL'') = set closes" by (simp only: map)
qed

lemma ex_closes_complete: "length closes \<le> 260 \<Longrightarrow> None \<notin> set closes \<Longrightarrow> list_all complete (history (ex_closes closes) ''HBL'')"
proof -
  assume len: "length closes \<le> 260" and none: "None \<notin> set closes"
  have "r \<in> set (ohlcv_rows (ex_closes closes))" if "r \<in> set (history (ex_closes closes) ''HBL'')" for r
    using that by (auto simp: history_def newest_first_def dest!: in_set_takeD)
  moreover have "o_high r \<in> set closes \<and> o_low r \<in> set closes \<and> o_close r \<in> set closes" if "r \<in> set (ohlcv_rows (ex_closes closes))" for r
    using that by (auto simp: ex_closes_def in_set_enumerate_eq)
  ultimately show ?thesis using none unfolding list_all_iff complete_def by metis
qed


section \<open>Missing prices\<close>

lemma nan_sum_NaN: "NaN \<in> set xs \<Longrightarrow> nan_sum xs = NaN"
proof -
  have stuck: "foldl (+) NaN ys = NaN" for ys by (induction ys) simp_all
  have "NaN \<in> set xs \<Longrightarrow> foldl (+) a xs = NaN" for a by (induction xs arbitrary: a) (auto simp: stuck)
  then show "NaN \<in> set xs \<Longrightarrow> nan_sum xs = NaN" by (simp add: nan_sum_def)
qed

text \<open>A loop ends in a state it cannot leave once it was in one, at the start or by a step.\<close>

lemma foldl_stuck:
  assumes stuck: "\<And>s i. P s \<Longrightarrow> P (step s i)" and "P s \<or> (\<exists>i\<in>set js. \<forall>s. P (step s i))"
  shows "P (foldl step s js)"
proof -
  have st: "P s \<Longrightarrow> P (foldl step s js)" for s js by (induction js arbitrary: s) (simp_all add: stuck)
  have "\<exists>i\<in>set js. \<forall>s. P (step s i) \<Longrightarrow> P (foldl step s js)" by (induction js arbitrary: s) (auto simp: st)
  then show ?thesis using assms(2) st by blast
qed

lemma last_scan: "last (Some (emit s) # scan step emit s js) = Some (emit (foldl step s js))"
  by (induction js arbitrary: s) (simp_all add: Let_def)

lemma nan_sma_gap:
  assumes "NaN \<in> set xs" "0 < p" "nat p \<le> length xs"
  shows "\<exists>ys. nan_sma xs p = Inr ys \<and> last ys = Some NaN"
proof -
  obtain j where j: "j < length xs" "xs ! j = NaN" using assms(1) by (auto simp: in_set_conv_nth)
  let ?step = "\<lambda>r i. r + (xs ! i - xs ! (i - nat p))"
  have "foldl ?step (nan_sum (take (nat p) xs)) [nat p..<length xs] = NaN"
  proof (rule foldl_stuck [where P = "\<lambda>r. r = NaN"])
    show "nan_sum (take (nat p) xs) = NaN \<or> (\<exists>i\<in>set [nat p..<length xs]. \<forall>s. ?step s i = NaN)"
    proof (cases "j < nat p")
      case True
      then have "NaN \<in> set (take (nat p) xs)" using j by (auto simp: in_set_conv_nth intro!: exI [of _ j])
      then show ?thesis by (simp add: nan_sum_NaN)
    qed (use j in \<open>auto intro!: disjI2 bexI [of _ j]\<close>)
  qed simp
  then show ?thesis using assms(2,3)
    by (simp add: nan_sma_def Let_def last_scan [where emit = "\<lambda>r. r / num (of_int p)"] del: num_eqs last.simps)
qed

lemma nan_ema_gap:
  assumes "NaN \<in> set xs" "0 < p" "nat p \<le> length xs"
  shows "\<exists>ys. nan_ema xs p = Inr ys \<and> last ys = Some NaN"
proof -
  obtain j where j: "j < length xs" "xs ! j = NaN" using assms(1) by (auto simp: in_set_conv_nth)
  let ?step = "\<lambda>prev i. xs ! i * num (2 / of_int (p + 1)) + prev * (num 1 - num (2 / of_int (p + 1)))"
  let ?seed = "nan_sum (take (nat p) xs) / num (of_int p)"
  have "foldl ?step ?seed [nat p..<length xs] = NaN"
  proof (rule foldl_stuck [where P = "\<lambda>r. r = NaN"])
    show "?seed = NaN \<or> (\<exists>i\<in>set [nat p..<length xs]. \<forall>s. ?step s i = NaN)"
    proof (cases "j < nat p")
      case True
      then have "NaN \<in> set (take (nat p) xs)" using j by (auto simp: in_set_conv_nth intro!: exI [of _ j])
      then show ?thesis by (simp add: nan_sum_NaN)
    qed (use j in \<open>auto intro!: disjI2 bexI [of _ j]\<close>)
  qed simp
  then show ?thesis using assms(2,3)
    by (simp add: nan_ema_def Let_def last_scan [where emit = "\<lambda>r. r"] del: num_eqs of_int_add last.simps)
qed

lemma nan_rsi_gap:
  assumes "NaN \<in> set xs" "0 < p" "nat p < length xs"
  shows "\<exists>ys. nan_rsi xs p = Inr ys \<and> last ys = Some NaN"
proof -
  obtain j where j: "j < length xs" "xs ! j = NaN" using assms(1) by (auto simp: in_set_conv_nth)
  define i where "i = max j 1"
  have i: "0 < i" "i < length xs" and delta: "xs ! i - xs ! (i - 1) = NaN"
    using j assms(2,3) by (cases j; auto simp: i_def max_def le_Suc_eq)+
  let ?avg = "\<lambda>(g, l). (g / num (of_int p), l / num (of_int p))"
  have first: "snd (nan_rsi_first xs (nat p)) = NaN" if "i \<le> nat p"
    unfolding nan_rsi_first_def
  proof (rule foldl_stuck [where P = "\<lambda>a. snd a = NaN"])
    show "snd (num 0, num 0) = NaN \<or> (\<exists>i\<in>set [1..<nat p + 1]. \<forall>s. snd ((\<lambda>(gains, losses) i.
        let delta = xs ! i - xs ! (i - 1) in if num 0 \<le> delta then (gains + delta, losses) else (gains, losses - delta)) s i) = NaN)"
      using that i delta by (intro disjI2 bexI [of _ i]) (auto simp: Let_def case_prod_beta)
  qed (auto simp: Let_def split: prod.splits)
  have "snd (foldl (nan_rsi_step xs p) (?avg (nan_rsi_first xs (nat p))) [nat p + 1..<length xs]) = NaN"
  proof (rule foldl_stuck [where P = "\<lambda>a. snd a = NaN"])
    show "snd (?avg (nan_rsi_first xs (nat p))) = NaN \<or> (\<exists>i\<in>set [nat p + 1..<length xs]. \<forall>s. snd (nan_rsi_step xs p s i) = NaN)"
    proof (cases "i \<le> nat p")
      case False
      then show ?thesis using i delta by (intro disjI2 bexI [of _ i]) (auto simp: nan_rsi_step_def Let_def case_prod_beta)
    qed (use first in \<open>simp add: case_prod_beta\<close>)
  qed (simp add: nan_rsi_step_def Let_def case_prod_beta)
  moreover have "nan_rsi_value a = NaN" if "snd a = NaN" for a using that by (cases a) (simp add: nan_rsi_value_def)
  ultimately show ?thesis using assms(2,3)
    by (simp add: nan_rsi_def Let_def case_prod_beta last_scan [where emit = nan_rsi_value] del: num_eqs last.simps)
qed



end
