(* ===== verification/PriceIngest.thy ===== *)
theory PriceIngest
  imports Adjustments Securities
begin

text \<open>
  The daily prices: the scraper \<^verbatim>\<open>psx_ingest/scrapers/dps.py\<close> with its retries, its monthly requests and the
  parsing and validation of rows, and the tasks that store them: \<^verbatim>\<open>psx_ingest/tasks/ohlcv.py\<close>,
  \<^verbatim>\<open>psx_ingest/tasks/backfill.py\<close>, \<^verbatim>\<open>psx_ingest/backfill.py\<close> and \<^verbatim>\<open>scripts/backfill_ohlcv.py\<close>. What the server
  answers, and the table the HTML library finds in a page, is an argument.
\<close>

section \<open>Requests\<close>

text \<open>
  A table cell has its \<^verbatim>\<open>data-order\<close> attribute and its text. A page is the rows of its table, if it has
  one. An attempt is answered with a status and a page, fails with one of the network errors that are
  retried, or breaks with another one.
\<close>

record cell =
  cl_order :: "string option"
  cl_text :: string

type_synonym page = "cell list list option"

datatype attempt = Answered int page | NetworkFailed | Broken

text \<open>Any other exception of the scraper is \<open>Crashed\<close>.\<close>

datatype fetch_error = HttpStatus int | NetworkDown | Crashed

definition MAX_NETWORK_RETRIES :: nat where "MAX_NETWORK_RETRIES = 3"

fun retry_loop :: "(nat \<Rightarrow> attempt) \<Rightarrow> nat \<Rightarrow> nat \<Rightarrow> fetch_error + page" where
  "retry_loop net k 0 = Inl Crashed"
| "retry_loop net k (Suc n) =
     (case net k of
        Answered status body \<Rightarrow> if 200 \<le> status \<and> status < 300 then Inr body else Inl (HttpStatus status)
      | NetworkFailed \<Rightarrow> if MAX_NETWORK_RETRIES \<le> k then Inl NetworkDown else retry_loop net (k + 1) n
      | Broken \<Rightarrow> Inl Crashed)"

definition rate_limited_post :: "(nat \<Rightarrow> attempt) \<Rightarrow> fetch_error + page" where
  "rate_limited_post net = retry_loop net 1 MAX_NETWORK_RETRIES"

record raw_row =
  rw_unix_ts :: "string option"
  rw_date_text :: string
  rw_open :: string
  rw_high :: string
  rw_low :: string
  rw_close :: string
  rw_volume :: string

definition no_commas :: "string \<Rightarrow> string" where "no_commas s = filter (\<lambda>c. c \<noteq> CHR '','') s"

definition raw_of_cells :: "cell list \<Rightarrow> raw_row" where
  "raw_of_cells tds = \<lparr>rw_unix_ts = cl_order (tds ! 0), rw_date_text = cl_text (tds ! 0), rw_open = no_commas (cl_text (tds ! 1)),
     rw_high = no_commas (cl_text (tds ! 2)), rw_low = no_commas (cl_text (tds ! 3)), rw_close = no_commas (cl_text (tds ! 4)),
     rw_volume = no_commas (cl_text (tds ! 5))\<rparr>"

definition parse_html_table :: "page \<Rightarrow> raw_row list" where
  "parse_html_table body = (case body of None \<Rightarrow> [] | Some trs \<Rightarrow> map raw_of_cells (filter (\<lambda>tds. 6 \<le> length tds) trs))"

text \<open>The server, asked for a symbol and the days from one to another, at each attempt.\<close>

type_synonym server = "string \<Rightarrow> date \<Rightarrow> date \<Rightarrow> nat \<Rightarrow> attempt"

definition post_historical :: "server \<Rightarrow> string \<Rightarrow> date \<Rightarrow> date \<Rightarrow> fetch_error + raw_row list" where
  "post_historical srv symb a b =
     (case rate_limited_post (srv (py_upper symb) a b) of
        Inl (HttpStatus status) \<Rightarrow> if status \<in> {404, 422} then Inr [] else Inl (HttpStatus status)
      | Inl e \<Rightarrow> Inl e
      | Inr body \<Rightarrow> Inr (parse_html_table body))"

section \<open>Rows\<close>

record OhlcvRow =
  px_symbol :: string
  px_date :: date
  px_open :: "dec option"
  px_high :: "dec option"
  px_low :: "dec option"
  px_close :: "dec option"
  px_volume :: "int option"
  px_value_pkr :: "dec option"

text \<open>
  A row that raises one of the exceptions of the handler is skipped, any other exception ends the fetch.
\<close>

datatype row_error = InvalidRow | RowCrash

text \<open>\<^verbatim>\<open>datetime.fromtimestamp(int(ts), tz=UTC).date()\<close>: the errors handled give no date.\<close>

definition timestamp_date :: "string \<Rightarrow> row_error + date option" where
  "timestamp_date ts =
     (case int_literal (py_strip ts) of
        None \<Rightarrow> Inr None
      | Some q \<Rightarrow>
          let n = \<lfloor>q\<rfloor>; d = 719163 + n div 86400
          in if n < - (2 ^ 63) \<or> 2 ^ 63 \<le> n then Inl RowCrash
             else if 1 \<le> d \<and> d \<le> 3652059 then Inr (Some d) else Inr None)"

text \<open>
  \<^verbatim>\<open>strptime\<close> for the directives used: numbers of one or two digits, years of four, names of months in
  either case, other characters as they are, a space for any space.
\<close>

datatype directive = DayNum | MonthNum | YearNum | MonthName "string list" | Literal char | Spaces

definition small_number :: "int \<Rightarrow> string \<Rightarrow> (int \<times> string) option" where
  "small_number hi s =
     (let run = takeWhile is_digit s
      in if length run \<notin> {1, 2} then None
         else Option.bind (digits_val run) (\<lambda>v. if 1 \<le> v \<and> v \<le> hi then Some (v, drop (length run) s) else None))"

fun named_month :: "int \<Rightarrow> string list \<Rightarrow> string \<Rightarrow> (int \<times> string) option" where
  "named_month i [] s = None"
| "named_month i (n # ns) s = (if startswith (py_lower n) (py_lower s) then Some (i, drop (length n) s) else named_month (i + 1) ns s)"

fun strptime :: "directive list \<Rightarrow> int \<times> int \<times> int \<Rightarrow> string \<Rightarrow> date option" where
  "strptime [] (y, m, d) s = (if s = [] \<and> ymd_valid y m d then Some (mk_date y m d) else None)"
| "strptime (DayNum # ds) (y, m, d) s = Option.bind (small_number 31 s) (\<lambda>(v, r). strptime ds (y, m, v) r)"
| "strptime (MonthNum # ds) (y, m, d) s = Option.bind (small_number 12 s) (\<lambda>(v, r). strptime ds (y, v, d) r)"
| "strptime (YearNum # ds) (y, m, d) s =
     (if length (take 4 s) < 4 then None else Option.bind (digits_val (take 4 s)) (\<lambda>v. strptime ds (v, m, d) (drop 4 s)))"
| "strptime (MonthName ns # ds) (y, m, d) s = Option.bind (named_month 1 ns s) (\<lambda>(v, r). strptime ds (y, v, d) r)"
| "strptime (Literal c # ds) (y, m, d) s = (case s of x # r \<Rightarrow> if x = c then strptime ds (y, m, d) r else None | [] \<Rightarrow> None)"
| "strptime (Spaces # ds) (y, m, d) s = (case s of x # r \<Rightarrow> if is_space x then strptime ds (y, m, d) (dropWhile is_space r) else None | [] \<Rightarrow> None)"

definition MONTHS :: "string list" where
  "MONTHS = [''January'', ''February'', ''March'', ''April'', ''May'', ''June'', ''July'', ''August'', ''September'', ''October'',
     ''November'', ''December'']"

definition FORMATS :: "directive list list" where
  "FORMATS =
     (let short = MonthName (map (take 3) MONTHS); dash = Literal (CHR ''-''); comma = Literal (CHR '',''); slash = Literal (CHR ''/'')
      in [[short, Spaces, DayNum, comma, Spaces, YearNum], [DayNum, dash, short, dash, YearNum], [YearNum, dash, MonthNum, dash, DayNum],
          [DayNum, slash, MonthNum, slash, YearNum], [MonthName MONTHS, Spaces, DayNum, comma, Spaces, YearNum]])"

definition text_date :: "string \<Rightarrow> date option" where
  "text_date t = Option.bind (List.find (\<lambda>v. v \<noteq> None) (map (\<lambda>f. strptime f (1900, 1, 1) (py_strip t)) FORMATS)) (\<lambda>v. v)"

definition blank_cell :: "string \<Rightarrow> bool" where "blank_cell v \<longleftrightarrow> v \<in> {[], ''N/A'', ''-''}"

definition decimal_cell :: "string \<Rightarrow> dec option" where
  "decimal_cell v = (if blank_cell v then None else map_option Dec (float_literal (filter (\<lambda>c. c \<noteq> CHR ''_'') (py_strip v))))"

definition int_cell :: "string \<Rightarrow> int option" where
  "int_cell v = (if blank_cell v then None else map_option (\<lambda>q. truncate_rat (fval (flt q))) (float_literal (py_strip (no_commas v))))"

definition parse_row :: "string \<Rightarrow> raw_row \<Rightarrow> row_error + OhlcvRow" where
  "parse_row symb raw =
     bind_r (case rw_unix_ts raw of Some ts \<Rightarrow> if ts \<noteq> [] then timestamp_date ts else Inr None | None \<Rightarrow> Inr None) (\<lambda>from_ts.
       case (case from_ts of Some d \<Rightarrow> Some d | None \<Rightarrow> text_date (rw_date_text raw)) of
         None \<Rightarrow> Inl InvalidRow
       | Some d \<Rightarrow> Inr \<lparr>px_symbol = py_upper symb, px_date = d, px_open = decimal_cell (rw_open raw), px_high = decimal_cell (rw_high raw),
           px_low = decimal_cell (rw_low raw), px_close = decimal_cell (rw_close raw), px_volume = int_cell (rw_volume raw), px_value_pkr = None\<rparr>)"

text \<open>Whether a row that passes is logged for its large swing.\<close>

definition validate_row :: "OhlcvRow \<Rightarrow> row_error + bool" where
  "validate_row r =
     (if (case px_volume r of Some v \<Rightarrow> v < 0 | None \<Rightarrow> False) then Inl InvalidRow
      else if px_open r = Some (Dec 0) then Inl InvalidRow
      else case (px_high r, px_low r, px_open r) of
             (Some h, Some l, Some p) \<Rightarrow> Inr (Dec 0 < p \<and> Dec (1 / 2) < (h - l) / p)
           | _ \<Rightarrow> Inr False)"

fun parse_and_validate :: "string \<Rightarrow> raw_row list \<Rightarrow> date \<Rightarrow> date \<Rightarrow> row_error + OhlcvRow list" where
  "parse_and_validate symb [] a b = Inr []"
| "parse_and_validate symb (raw # raws) a b =
     (case parse_row symb raw of
        Inl RowCrash \<Rightarrow> Inl RowCrash
      | Inl InvalidRow \<Rightarrow> parse_and_validate symb raws a b
      | Inr r \<Rightarrow>
          if \<not> (a \<le> px_date r \<and> px_date r \<le> b) then parse_and_validate symb raws a b
          else if is_ok (validate_row r) then bind_r (parse_and_validate symb raws a b) (\<lambda>rs. Inr (r # rs))
          else parse_and_validate symb raws a b)"

definition fetch_window :: "server \<Rightarrow> string \<Rightarrow> date \<Rightarrow> date \<Rightarrow> fetch_error + OhlcvRow list" where
  "fetch_window srv symb a b =
     bind_r (post_historical srv symb a b) (\<lambda>raw. case parse_and_validate symb raw a b of Inl _ \<Rightarrow> Inl Crashed | Inr rs \<Rightarrow> Inr rs)"

definition fetch_ohlcv :: "server \<Rightarrow> string \<Rightarrow> date \<Rightarrow> fetch_error + OhlcvRow list" where
  "fetch_ohlcv srv symb trade_date = fetch_window srv symb trade_date trade_date"

subsection \<open>Monthly requests\<close>

text \<open>The end of the month of a day; December of the last year has none, since the next year is out of range.\<close>

definition month_end :: "date \<Rightarrow> date option" where
  "month_end d =
     (if month_of d = 12 then if 9999 \<le> year_of d then None else Some (mk_date (year_of d + 1) 1 1 - 1)
      else Some (mk_date (year_of d) (month_of d + 1) 1 - 1))"

lemma days_before_year_bounds:
  "146097 * z - 699 \<le> 400 * days_before_year (z + 1)" "400 * days_before_year (z + 1) \<le> 146097 * z + 396"
proof -
  have "4 * (z div 4) \<le> z" "z \<le> 4 * (z div 4) + 3" "100 * (z div 100) \<le> z" "z \<le> 100 * (z div 100) + 99"
    "400 * (z div 400) \<le> z" "z \<le> 400 * (z div 400) + 399" by presburger+
  moreover have "days_before_year (z + 1) = z * 365 + z div 4 - z div 100 + z div 400" by (simp add: days_before_year_def)
  ultimately show "146097 * z - 699 \<le> 400 * days_before_year (z + 1)" "400 * days_before_year (z + 1) \<le> 146097 * z + 396"
    by linarith+
qed

lemma year_of_bounds: "days_before_year (year_of n) < n" "n \<le> days_before_year (year_of n + 1)"
proof -
  define z where "z = n * 400 div 146097"
  have "n * 400 = 146097 * z + n * 400 mod 146097" "0 \<le> n * 400 mod 146097" "n * 400 mod 146097 < 146097" by (simp_all add: z_def)
  then have z: "146097 * z \<le> n * 400" "n * 400 < 146097 * z + 146097" by linarith+
  have "400 * days_before_year z \<le> 146097 * (z - 1) + 396" "146097 * (z + 1) - 699 \<le> 400 * days_before_year (z + 2)"
    "146097 * (z + 2) - 699 \<le> 400 * days_before_year (z + 3)"
    using days_before_year_bounds [of "z - 1"] days_before_year_bounds [of "z + 1"] days_before_year_bounds [of "z + 2"] by (simp_all add: add.commute)
  moreover have "year_of n = (if n \<le> days_before_year (z + 1) then z else if days_before_year (z + 2) < n then z + 2 else z + 1)"
    by (simp add: year_of_def z_def Let_def add.commute)
  ultimately show "days_before_year (year_of n) < n" "n \<le> days_before_year (year_of n + 1)"
    using z by (auto simp: add.commute)
qed

lemma month_nth: "k < 12 \<Longrightarrow> [1, 2, 3, 4, 5, 6, 7, 8, 9, 10, 11, 12] ! k = int k + 1"
proof -
  assume "k < 12"
  then have "k \<in> {0..<12}" by simp
  then show ?thesis by (auto simp: eval_nat_numeral atLeastLessThanSuc less_Suc_eq)
qed

lemma month_end_after: "month_end d = Some e \<Longrightarrow> d \<le> e"
proof -
  assume e: "month_end d = Some e"
  let ?y = "year_of d" and ?ms = "[1, 2, 3, 4, 5, 6, 7, 8, 9, 10, 11, 12] :: int list"
  define r where "r = d - days_before_year ?y"
  define tw where "tw = takeWhile (\<lambda>k. days_before_month ?y k < r) ?ms"
  have m: "month_of d = int (length tw)" by (simp add: month_of_def Let_def tw_def r_def)
  show ?thesis
  proof (cases "month_of d = 12")
    case True
    have "e = mk_date (?y + 1) 1 1 - 1" using e True by (auto simp: month_end_def split: if_splits)
    then show ?thesis using year_of_bounds(2) [of d] by (simp add: mk_date_def days_before_month_def)
  next
    case False
    have "length tw \<le> length ?ms" unfolding tw_def by (rule length_takeWhile_le)
    then have lt: "length tw < length ?ms" using False m by simp
    then have "\<not> days_before_month ?y (?ms ! length tw) < r" unfolding tw_def by (rule nth_length_takeWhile)
    then have "r \<le> days_before_month ?y (month_of d + 1)" using lt m month_nth [of "length tw"] by simp
    then show ?thesis using e False by (auto simp: month_end_def mk_date_def r_def)
  qed
qed

function fetch_ohlcv_range :: "server \<Rightarrow> string \<Rightarrow> date \<Rightarrow> date \<Rightarrow> fetch_error + OhlcvRow list" where
  "fetch_ohlcv_range srv symb chunk_start to_date =
     (if to_date < chunk_start then Inr []
      else case month_end chunk_start of
             None \<Rightarrow> Inl Crashed
           | Some e \<Rightarrow>
               let chunk_end = min e to_date
               in bind_r (fetch_window srv symb chunk_start chunk_end) (\<lambda>rows.
                  bind_r (fetch_ohlcv_range srv symb (chunk_end + 1) to_date) (\<lambda>rest. Inr (rows @ rest))))"
  by pat_completeness auto

termination
  by (relation "measure (\<lambda>(srv, symb, a, b). nat (b + 1 - a))") (auto dest: month_end_after)

declare fetch_ohlcv_range.simps [simp del]

section \<open>Storing prices\<close>

text \<open>
  A value sent to a column \<^verbatim>\<open>NUMERIC(12, 4)\<close>, or to one of 64 bits. With \<open>DoUpdate\<close> a stored day takes the
  new values and keeps its adjusted close, with \<open>DoNothing\<close> it stays.
\<close>

datatype conflict = DoUpdate | DoNothing

definition price_to_column :: "dec option \<Rightarrow> ingest_error + dec option" where
  "price_to_column v =
     (case v of None \<Rightarrow> Inr None
      | Some d \<Rightarrow> let q = qz_up 4 (dval d) in if \<bar>q\<bar> < 10 ^ 8 then Inr (Some (Dec q)) else Inl NumericOverflow)"

definition volume_to_column :: "int option \<Rightarrow> ingest_error + int option" where
  "volume_to_column v =
     (case v of None \<Rightarrow> Inr None | Some n \<Rightarrow> if - (2 ^ 63) \<le> n \<and> n < 2 ^ 63 then Inr (Some n) else Inl NumericOverflow)"

definition stored_row :: "OhlcvRow \<Rightarrow> ingest_error + OhlcvDaily" where
  "stored_row r =
     bind_r (price_to_column (px_open r)) (\<lambda>op. bind_r (price_to_column (px_high r)) (\<lambda>hi.
     bind_r (price_to_column (px_low r)) (\<lambda>lo. bind_r (price_to_column (px_close r)) (\<lambda>cl.
     bind_r (volume_to_column (px_volume r)) (\<lambda>vol.
       Inr \<lparr>o_symbol = px_symbol r, o_date = px_date r, o_open = op, o_high = hi, o_low = lo, o_close = cl, o_volume = vol,
            o_value_pkr = px_value_pkr r, o_adjusted_close = None\<rparr>)))))"

definition same_day :: "OhlcvDaily \<Rightarrow> OhlcvDaily \<Rightarrow> bool" where
  "same_day x y \<longleftrightarrow> o_symbol x = o_symbol y \<and> o_date x = o_date y"

text \<open>The foreign key refuses a symbol that is no security.\<close>

datatype store_error = BadValue ingest_error | ForeignKey

definition upsert_row :: "conflict \<Rightarrow> OhlcvRow \<Rightarrow> market_db \<Rightarrow> store_error + market_db" where
  "upsert_row act r mk =
     (case stored_row r of
        Inl e \<Rightarrow> Inl (BadValue e)
      | Inr x \<Rightarrow>
          if list_ex (same_day x) (ohlcv_rows mk)
          then (case act of
                  DoNothing \<Rightarrow> Inr mk
                | DoUpdate \<Rightarrow> Inr (mk\<lparr>ohlcv_rows := map (\<lambda>y. if same_day x y then x\<lparr>o_adjusted_close := o_adjusted_close y\<rparr> else y) (ohlcv_rows mk)\<rparr>))
          else if px_symbol r \<notin> set (map sec_symbol (security_rows mk)) then Inl ForeignKey
          else Inr (mk\<lparr>ohlcv_rows := ohlcv_rows mk @ [x]\<rparr>))"

fun upsert_all :: "conflict \<Rightarrow> OhlcvRow list \<Rightarrow> market_db \<Rightarrow> store_error + market_db" where
  "upsert_all act [] mk = Inr mk"
| "upsert_all act (r # rs) mk = bind_r (upsert_row act r mk) (upsert_all act rs)"

definition upsert_rows :: "conflict \<Rightarrow> OhlcvRow list \<Rightarrow> market_db \<Rightarrow> store_error + nat \<times> market_db" where
  "upsert_rows act rows mk =
     (if rows = [] then Inr (0, mk) else bind_r (upsert_all act rows mk) (\<lambda>mk'. Inr (length rows, mk')))"

section \<open>The daily task\<close>

record ingest_counts =
  ic_symbols_ok :: nat
  ic_symbols_err :: nat
  ic_rows_upserted :: nat

definition ingest_symbol :: "server \<Rightarrow> date \<Rightarrow> ingest_counts \<times> market_db \<Rightarrow> string \<Rightarrow> ingest_counts \<times> market_db" where
  "ingest_symbol srv trade_date = (\<lambda>(s, mk) symb.
     case fetch_ohlcv srv symb trade_date of
       Inl _ \<Rightarrow> (s\<lparr>ic_symbols_err := ic_symbols_err s + 1\<rparr>, mk)
     | Inr [] \<Rightarrow> (s\<lparr>ic_symbols_ok := ic_symbols_ok s + 1\<rparr>, mk)
     | Inr rows \<Rightarrow> (case upsert_rows DoUpdate rows mk of
           Inl _ \<Rightarrow> (s\<lparr>ic_symbols_err := ic_symbols_err s + 1\<rparr>, mk)
         | Inr (n, mk') \<Rightarrow> (s\<lparr>ic_symbols_ok := ic_symbols_ok s + 1, ic_rows_upserted := ic_rows_upserted s + n\<rparr>, mk')))"

definition run_price_ingest :: "server \<Rightarrow> date \<Rightarrow> market_db \<Rightarrow> ingest_counts \<times> market_db" where
  "run_price_ingest srv trade_date mk =
     foldl (ingest_symbol srv trade_date) (\<lparr>ic_symbols_ok = 0, ic_symbols_err = 0, ic_rows_upserted = 0\<rparr>, mk) (fetch_active_symbols mk)"

text \<open>The argument of the task is an ISO date or absent.\<close>

definition ingest_eod_ohlcv :: "server \<Rightarrow> date \<Rightarrow> string option \<Rightarrow> market_db \<Rightarrow> (ingest_counts \<times> market_db) option" where
  "ingest_eod_ohlcv srv today_pkt trade_date mk =
     (case nonzero [] trade_date of
        None \<Rightarrow> Some (run_price_ingest srv today_pkt mk)
      | Some s \<Rightarrow> map_option (\<lambda>d. run_price_ingest srv d mk) (date_fromisoformat s))"

section \<open>The backfill\<close>

text \<open>Five years back by replacing the year, which raises on 29 February.\<close>

definition date_range :: "date \<Rightarrow> (date \<times> date) option" where
  "date_range today_pkt =
     (let y = year_of today_pkt - 5
      in if ymd_valid y (month_of today_pkt) (day_of today_pkt) then Some (mk_date y (month_of today_pkt) (day_of today_pkt), today_pkt) else None)"

definition symbol_already_backfilled :: "market_db \<Rightarrow> string \<Rightarrow> date \<Rightarrow> bool" where
  "symbol_already_backfilled mk symb from_date \<longleftrightarrow>
     900 \<le> length (filter (\<lambda>x. o_symbol x = symb \<and> from_date \<le> o_date x) (ohlcv_rows mk))"

record backfill_counts =
  bf_symbols_ok :: nat
  bf_symbols_skipped :: nat
  bf_symbols_err :: nat
  bf_rows_inserted :: nat
  bf_total_symbols :: nat

definition backfill_symbol ::
  "server \<Rightarrow> date \<Rightarrow> date \<Rightarrow> bool \<Rightarrow> backfill_counts \<times> market_db \<Rightarrow> string \<Rightarrow> backfill_counts \<times> market_db" where
  "backfill_symbol srv from_date to_date skip_existing = (\<lambda>(s, mk) symb.
     if skip_existing \<and> symbol_already_backfilled mk symb from_date
     then (s\<lparr>bf_symbols_skipped := bf_symbols_skipped s + 1\<rparr>, mk)
     else case fetch_ohlcv_range srv symb from_date to_date of
            Inl _ \<Rightarrow> (s\<lparr>bf_symbols_err := bf_symbols_err s + 1\<rparr>, mk)
          | Inr rows \<Rightarrow>
              if rows = [] then (s\<lparr>bf_symbols_ok := bf_symbols_ok s + 1\<rparr>, mk)
              else (case upsert_rows DoNothing rows mk of
                      Inl _ \<Rightarrow> (s\<lparr>bf_symbols_err := bf_symbols_err s + 1\<rparr>, mk)
                    | Inr (n, mk') \<Rightarrow> (s\<lparr>bf_symbols_ok := bf_symbols_ok s + 1, bf_rows_inserted := bf_rows_inserted s + n\<rparr>, mk')))"

definition run_backfill ::
  "server \<Rightarrow> date \<Rightarrow> string list option \<Rightarrow> date option \<Rightarrow> date option \<Rightarrow> bool \<Rightarrow> market_db \<Rightarrow> (backfill_counts \<times> market_db) option" where
  "run_backfill srv today_pkt symbols from_date to_date skip_existing mk =
     map_option (\<lambda>(default_from, default_to).
       let target = (case symbols of Some (s # ss) \<Rightarrow> s # ss | _ \<Rightarrow> fetch_active_symbols mk);
           a = (case from_date of Some d \<Rightarrow> d | None \<Rightarrow> default_from); b = (case to_date of Some d \<Rightarrow> d | None \<Rightarrow> default_to)
       in foldl (backfill_symbol srv a b skip_existing)
            (\<lparr>bf_symbols_ok = 0, bf_symbols_skipped = 0, bf_symbols_err = 0, bf_rows_inserted = 0, bf_total_symbols = length target\<rparr>, mk) target)
     (date_range today_pkt)"

text \<open>The command line: the symbols between commas, the dates, and the exit status.\<close>

definition backfill_main ::
  "server \<Rightarrow> date \<Rightarrow> string option \<Rightarrow> date option \<Rightarrow> date option \<Rightarrow> bool \<Rightarrow> market_db \<Rightarrow> (int \<times> market_db) option" where
  "backfill_main srv today_pkt symbols_arg from_date to_date skip_existing mk =
     (let symbols = (case nonzero [] symbols_arg of None \<Rightarrow> None | Some s \<Rightarrow> Some (map (\<lambda>t. py_upper (py_strip t)) (split_on (CHR '','') s)))
      in map_option (\<lambda>(counts, mk'). (if 0 < bf_symbols_err counts then 1 else 0, mk'))
           (run_backfill srv today_pkt symbols from_date to_date skip_existing mk))"

text \<open>The script that continues each symbol from its latest day.\<close>

definition last_date :: "OhlcvDaily list \<Rightarrow> string \<Rightarrow> date option" where
  "last_date rows symb = (case map o_date (filter (\<lambda>x. o_symbol x = symb) rows) of [] \<Rightarrow> None | d # ds \<Rightarrow> Some (foldl max d ds))"

definition continue_symbol :: "server \<Rightarrow> date \<Rightarrow> OhlcvDaily list \<Rightarrow> (nat \<times> nat) \<times> market_db \<Rightarrow> string \<Rightarrow> (nat \<times> nat) \<times> market_db" where
  "continue_symbol srv today_pkt rows0 = (\<lambda>((total_rows, total_errors), mk) symb.
     let from_date = (case last_date rows0 symb of Some d \<Rightarrow> d + 1 | None \<Rightarrow> mk_date (year_of today_pkt - 1) 1 1)
     in if today_pkt < from_date then ((total_rows, total_errors), mk)
        else case fetch_ohlcv_range srv symb from_date today_pkt of
               Inl _ \<Rightarrow> ((total_rows, total_errors + 1), mk)
             | Inr rows \<Rightarrow> (case upsert_rows DoUpdate rows mk of
                   Inl _ \<Rightarrow> ((total_rows, total_errors + 1), mk)
                 | Inr (n, mk') \<Rightarrow> ((total_rows + n, total_errors), mk')))"

definition continue_all :: "server \<Rightarrow> date \<Rightarrow> market_db \<Rightarrow> (nat \<times> nat) \<times> market_db" where
  "continue_all srv today_pkt mk = foldl (continue_symbol srv today_pkt (ohlcv_rows mk)) ((0, 0), mk) (fetch_active_symbols mk)"

section \<open>The requests of a range\<close>

text \<open>The answer is that of the first attempt that does not fail, of at most three.\<close>

lemma retries:
  "rate_limited_post net = (case List.find (\<lambda>a. a \<noteq> NetworkFailed) [net 1, net 2, net 3] of
       Some (Answered status body) \<Rightarrow> if 200 \<le> status \<and> status < 300 then Inr body else Inl (HttpStatus status)
     | Some Broken \<Rightarrow> Inl Crashed
     | _ \<Rightarrow> Inl NetworkDown)"
  by (simp add: rate_limited_post_def MAX_NETWORK_RETRIES_def eval_nat_numeral split: attempt.split)

text \<open>What a stored row may hold.\<close>

definition valid_row :: "OhlcvRow \<Rightarrow> bool" where
  "valid_row r \<longleftrightarrow> px_open r \<noteq> Some (Dec 0) \<and> (case px_volume r of Some v \<Rightarrow> 0 \<le> v | None \<Rightarrow> True) \<and> px_value_pkr r = None"

lemma parse_and_validate_rows:
  "parse_and_validate symb raws a b = Inr rs \<Longrightarrow>
     list_all (\<lambda>r. a \<le> px_date r \<and> px_date r \<le> b \<and> px_symbol r = py_upper symb \<and> valid_row r) rs"
proof (induction symb raws a b arbitrary: rs rule: parse_and_validate.induct)
  case (2 symb raw raws a b)
  show ?case
  proof (cases "parse_row symb raw")
    case (Inl e)
    then show ?thesis using 2 by (cases e) auto
  next
    case (Inr r)
    have "px_symbol r = py_upper symb" "px_value_pkr r = None"
      using Inr by (auto simp: parse_row_def bind_r_Inr_iff split: option.splits)
    moreover have "px_open r \<noteq> Some (Dec 0) \<and> (case px_volume r of Some v \<Rightarrow> 0 \<le> v | None \<Rightarrow> True)" if "is_ok (validate_row r)"
      using that by (auto simp: validate_row_def split: if_splits option.splits)
    ultimately show ?thesis using 2 Inr by (auto simp: bind_r_Inr_iff valid_row_def split: if_splits)
  qed
qed simp

lemma fetch_window_rows:
  "fetch_window srv symb a b = Inr rs \<Longrightarrow>
     list_all (\<lambda>r. a \<le> px_date r \<and> px_date r \<le> b \<and> px_symbol r = py_upper symb \<and> valid_row r) rs"
proof -
  assume "fetch_window srv symb a b = Inr rs"
  then obtain raw where raw: "(case parse_and_validate symb raw a b of Inl _ \<Rightarrow> Inl Crashed | Inr rs \<Rightarrow> Inr rs) = Inr rs"
    by (auto simp: fetch_window_def bind_r_Inr_iff)
  then have "parse_and_validate symb raw a b = Inr rs" by (cases "parse_and_validate symb raw a b") simp_all
  then show ?thesis by (rule parse_and_validate_rows)
qed

lemma int_div_step:
  assumes "0 < k"
  shows "k dvd y \<Longrightarrow> (y :: int) div k = (y - 1) div k + 1" and "\<not> k dvd y \<Longrightarrow> y div k = (y - 1) div k"
proof -
  show "k dvd y \<Longrightarrow> y div k = (y - 1) div k + 1"
  proof -
    assume "k dvd y"
    then obtain q where y: "y = k * q" ..
    then have "(y - 1) div k = q - 1" using assms by (intro int_div_pos_eq [where r = "k - 1"]) (simp_all add: algebra_simps)
    then show ?thesis using y assms by simp
  qed
  show "\<not> k dvd y \<Longrightarrow> y div k = (y - 1) div k"
  proof -
    assume "\<not> k dvd y"
    then have "y mod k \<noteq> 0" by (simp add: dvd_eq_mod_eq_0)
    moreover have "0 \<le> y mod k" "y mod k < k" using assms by simp_all
    ultimately have "(y - 1) div k = y div k" using mult_div_mod_eq [of k y]
      by (intro int_div_pos_eq [where r = "y mod k - 1"]) linarith+
    then show ?thesis by simp
  qed
qed

lemma days_in_year: "days_before_year (y + 1) = days_before_year y + (if is_leap y then 366 else 365)"
proof -
  define q4 q100 q400 where q: "q4 = (y - 1) div 4" "q100 = (y - 1) div 100" "q400 = (y - 1) div 400"
  define p4 p100 p400 where p: "p4 = y div 4" "p100 = y div 100" "p400 = y div 400"
  have e: "days_before_year (y + 1) = y * 365 + p4 - p100 + p400" "days_before_year y = (y - 1) * 365 + q4 - q100 + q400"
    by (simp_all add: days_before_year_def Let_def p q)
  have leap: "is_leap y \<longleftrightarrow> 4 dvd y \<and> (\<not> 100 dvd y \<or> 400 dvd y)" by (simp only: is_leap_def mod_eq_0_iff_dvd)
  have dvd: "400 dvd y \<Longrightarrow> 100 dvd y" "100 dvd y \<Longrightarrow> 4 dvd y" by (rule dvd_trans; simp)+
  have "4 dvd y \<Longrightarrow> p4 = q4 + 1" "\<not> 4 dvd y \<Longrightarrow> p4 = q4" "100 dvd y \<Longrightarrow> p100 = q100 + 1" "\<not> 100 dvd y \<Longrightarrow> p100 = q100"
    "400 dvd y \<Longrightarrow> p400 = q400 + 1" "\<not> 400 dvd y \<Longrightarrow> p400 = q400"
    unfolding p q by (rule int_div_step; simp)+
  then show ?thesis using e leap dvd by (cases "4 dvd y"; cases "100 dvd y"; cases "400 dvd y") simp_all
qed

lemma month_end_within: "month_end d = Some e \<Longrightarrow> e \<le> d + 30"
proof -
  assume e: "month_end d = Some e"
  let ?y = "year_of d" and ?ms = "[1, 2, 3, 4, 5, 6, 7, 8, 9, 10, 11, 12] :: int list"
  define r where "r = d - days_before_year ?y"
  define tw where "tw = takeWhile (\<lambda>k. days_before_month ?y k < r) ?ms"
  have m: "month_of d = int (length tw)" by (simp add: month_of_def Let_def tw_def r_def)
  have pos: "0 < r" using year_of_bounds(1) [of d] by (simp add: r_def)
  then have ne: "tw \<noteq> []" by (simp add: tw_def days_before_month_def)
  have le: "length tw \<le> 12" using length_takeWhile_le [of "\<lambda>k. days_before_month ?y k < r" ?ms] by (simp add: tw_def)
  have "last (take k ?ms) = int k" if "k \<in> {1..<13}" for k
    using that month_nth [of "k - 1"] by (subst last_conv_nth) (auto simp: min_def of_nat_diff)
  moreover have "length tw \<in> {1..<13}" using ne le by (cases tw) simp_all
  moreover have "tw = take (length tw) ?ms" unfolding tw_def by (rule takeWhile_eq_take)
  ultimately have "last tw = month_of d" using m by metis
  moreover have "days_before_month ?y (last tw) < r" using set_takeWhileD [of "last tw" "\<lambda>k. days_before_month ?y k < r" ?ms, folded tw_def] last_in_set [OF ne] by blast
  ultimately have ly: "days_before_month ?y (month_of d) < r" "1 \<le> month_of d" "month_of d \<le> 12" using le ne m by (cases tw, simp_all)+
  have step: "days_before_month ?y (k + 1) \<le> days_before_month ?y k + 31" if "1 \<le> k" "k \<le> 11" for k
  proof -
    have "k \<in> {1, 2, 3, 4, 5, 6, 7, 8, 9, 10, 11}" using that by (simp, presburger)
    then show ?thesis by (auto simp: days_before_month_def days_in_month_def)
  qed
  show ?thesis
  proof (cases "month_of d = 12")
    case True
    then have "e = days_before_year ?y + (if is_leap ?y then 366 else 365)"
      using e by (auto simp: month_end_def mk_date_def days_before_month_def days_in_year split: if_splits)
    moreover have "days_before_month ?y 12 = (if is_leap ?y then 335 else 334)" by (simp add: days_before_month_def days_in_month_def)
    ultimately show ?thesis using ly(1) True by (simp add: r_def split: if_splits)
  next
    case False
    then have "e = days_before_year ?y + days_before_month ?y (month_of d + 1)" using e by (auto simp: month_end_def mk_date_def)
    then show ?thesis using step [of "month_of d"] ly False by (simp add: r_def)
  qed
qed

lemma month_end_Some: "year_of d < 9999 \<Longrightarrow> month_end d \<noteq> None"
  by (simp add: month_end_def)

lemma days_before_year_mono: "y \<le> z \<Longrightarrow> days_before_year y \<le> days_before_year z"
  by (induction z rule: int_ge_induct) (auto simp: days_in_year)

lemma year_of_mono: "a \<le> b \<Longrightarrow> year_of a \<le> year_of b"
  using year_of_bounds(1) [of a] year_of_bounds(2) [of b] days_before_year_mono [of "year_of b + 1" "year_of a"]
  by linarith

text \<open>The days of a range in consecutive requests.\<close>

fun tiles :: "date \<Rightarrow> date \<Rightarrow> (date \<times> date) list \<Rightarrow> bool" where
  "tiles a b [] = (a = b + 1)"
| "tiles a b ((s, e) # ws) = (s = a \<and> s \<le> e \<and> e \<le> s + 30 \<and> e \<le> b \<and> tiles (e + 1) b ws)"

lemma tiles_bounds: "tiles a b ws \<Longrightarrow> list_all (\<lambda>(s, e). a \<le> s \<and> s \<le> e \<and> e \<le> b \<and> e \<le> s + 30) ws"
  by (induction a b ws rule: tiles.induct) (fastforce simp: list_all_iff)+

lemma tiles_cover: "tiles a b ws \<Longrightarrow> length (filter (\<lambda>(s, e). s \<le> d \<and> d \<le> e) ws) = (if a \<le> d \<and> d \<le> b then 1 else 0)"
  by (induction a b ws rule: tiles.induct) (auto split: if_splits)

lemma range_tiles:
  assumes "a \<le> b" "year_of b < 9999"
  shows "\<exists>ws. tiles a b ws \<and> fetch_ohlcv_range srv symb a b = bind_r (collect_r (map (\<lambda>(s, e). fetch_window srv symb s e) ws)) (\<lambda>rss. Inr (concat rss))"
  using assms
proof (induction srv symb a b rule: fetch_ohlcv_range.induct)
  case (1 srv symb a b)
  obtain e where e: "month_end a = Some e" using month_end_Some [of a] year_of_mono [OF 1(2)] 1(3) by fastforce
  note w = month_end_after [OF e] month_end_within [OF e]
  show ?case
  proof (cases "b \<le> e")
    case True
    have "fetch_ohlcv_range srv symb a b = bind_r (collect_r (map (\<lambda>(s, e). fetch_window srv symb s e) [(a, b)])) (\<lambda>rss. Inr (concat rss))"
      using 1(2) True e by (cases "fetch_window srv symb a b")
        (simp_all add: fetch_ohlcv_range.simps [of srv symb a b] fetch_ohlcv_range.simps [of srv symb "b + 1" b] Let_def min_absorb2)
    moreover have "tiles a b [(a, b)]" using 1(2) w True by simp
    ultimately show ?thesis by blast
  next
    case False
    then obtain ws where ws: "tiles (e + 1) b ws" "fetch_ohlcv_range srv symb (e + 1) b
        = bind_r (collect_r (map (\<lambda>(s, e). fetch_window srv symb s e) ws)) (\<lambda>rss. Inr (concat rss))"
      using 1(1) [OF _ e refl] 1(2,3) by (auto simp: min_absorb1)
    have "fetch_ohlcv_range srv symb a b = bind_r (collect_r (map (\<lambda>(s, e). fetch_window srv symb s e) ((a, e) # ws))) (\<lambda>rss. Inr (concat rss))"
      using 1(2) False e ws(2) by (cases "fetch_window srv symb a e"; cases "collect_r (map (\<lambda>(s, e). fetch_window srv symb s e) ws)")
        (simp_all add: fetch_ohlcv_range.simps [of srv symb a b] Let_def min_absorb1)
    moreover have "tiles a b ((a, e) # ws)" using w False ws(1) by simp
    ultimately show ?thesis by blast
  qed
qed

text \<open>
  C32: a range of days is fetched by requests of at most 31 days that cover every day of it exactly once;
  the result is the rows of all requests in order or the first failure, and every row is one of the symbol,
  within the range, with an open that is not zero and a volume that is not negative.
\<close>

theorem range_fetched:
  assumes "a \<le> b" "year_of b < 9999"
  shows "\<exists>ws. list_all (\<lambda>(s, e). a \<le> s \<and> s \<le> e \<and> e \<le> b \<and> e \<le> s + 30) ws
      \<and> (\<forall>d. a \<le> d \<and> d \<le> b \<longrightarrow> length (filter (\<lambda>(s, e). s \<le> d \<and> d \<le> e) ws) = 1)
      \<and> fetch_ohlcv_range srv symb a b = bind_r (collect_r (map (\<lambda>(s, e). fetch_window srv symb s e) ws)) (\<lambda>rss. Inr (concat rss))
      \<and> (\<forall>rows. fetch_ohlcv_range srv symb a b = Inr rows \<longrightarrow>
           list_all (\<lambda>r. a \<le> px_date r \<and> px_date r \<le> b \<and> px_symbol r = py_upper symb \<and> valid_row r) rows)"
proof -
  obtain ws where ws: "tiles a b ws" and eq: "fetch_ohlcv_range srv symb a b = bind_r (collect_r (map (\<lambda>(s, e). fetch_window srv symb s e) ws)) (\<lambda>rss. Inr (concat rss))"
    using range_tiles [OF assms] by blast
  have "list_all (\<lambda>r. a \<le> px_date r \<and> px_date r \<le> b \<and> px_symbol r = py_upper symb \<and> valid_row r) rows"
    if rows: "fetch_ohlcv_range srv symb a b = Inr rows" for rows
  proof -
    obtain rss where rss: "collect_r (map (\<lambda>(s, e). fetch_window srv symb s e) ws) = Inr rss" "rows = concat rss"
      using rows eq by (cases "collect_r (map (\<lambda>(s, e). fetch_window srv symb s e) ws)") auto
    then have "map (\<lambda>(s, e). fetch_window srv symb s e) ws = map Inr rss" by (simp add: collect_r_Inr_iff)
    then have "\<exists>s e. (s, e) \<in> set ws \<and> fetch_window srv symb s e = Inr rs" if "rs \<in> set rss" for rs
      using that by (metis (no_types, lifting) case_prod_beta imageE image_eqI list.set_map prod.collapse)
    moreover have "a \<le> s \<and> e \<le> b" if "(s, e) \<in> set ws" for s e using tiles_bounds [OF ws] that by (auto simp: list_all_iff)
    ultimately show ?thesis using rss(2) by (fastforce simp: list_all_iff dest!: fetch_window_rows)
  qed
  moreover have "length (filter (\<lambda>(s, e). s \<le> d \<and> d \<le> e) ws) = 1" if "a \<le> d \<and> d \<le> b" for d using tiles_cover [OF ws, of d] that by simp
  ultimately show ?thesis using eq tiles_bounds [OF ws] by (intro exI [of _ ws]) simp
qed

section \<open>The price table\<close>

text \<open>
  A row of the table: of a known security, with prices that fit their columns and a volume that is not
  negative; and every day of a symbol once.
\<close>

definition fits :: "dec option \<Rightarrow> bool" where
  "fits v \<longleftrightarrow> (case v of Some d \<Rightarrow> numeric 12 4 d | None \<Rightarrow> True)"

definition price_row_ok :: "market_db \<Rightarrow> OhlcvDaily \<Rightarrow> bool" where
  "price_row_ok mk x \<longleftrightarrow> o_symbol x \<in> set (map sec_symbol (security_rows mk)) \<and> fits (o_open x) \<and> fits (o_high x) \<and> fits (o_low x)
     \<and> fits (o_close x) \<and> fits (o_adjusted_close x) \<and> (case o_volume x of Some v \<Rightarrow> 0 \<le> v \<and> v < 2 ^ 63 | None \<Rightarrow> True)"

definition prices_ok :: "market_db \<Rightarrow> bool" where
  "prices_ok mk \<longleftrightarrow> unique_days (ohlcv_rows mk) \<and> list_all (price_row_ok mk) (ohlcv_rows mk)"

lemma price_row_ok_rows [simp]: "price_row_ok (mk\<lparr>ohlcv_rows := rows\<rparr>) x = price_row_ok mk x"
  by (simp add: price_row_ok_def)

lemma column_numeric: "\<bar>qz_up 4 q\<bar> < 10 ^ 8 \<Longrightarrow> numeric 12 4 (Dec (qz_up 4 q))"
  by (simp add: numeric_def)

lemma price_to_column_fits: "price_to_column v = Inr w \<Longrightarrow> fits w"
  by (auto simp: price_to_column_def fits_def Let_def column_numeric split: option.splits if_splits)

lemma stored_row_Inr:
  assumes "stored_row r = Inr x" "valid_row r"
  shows "o_symbol x = px_symbol r \<and> o_date x = px_date r \<and> o_adjusted_close x = None \<and> fits (o_open x) \<and> fits (o_high x) \<and> fits (o_low x)
    \<and> fits (o_close x) \<and> (case o_volume x of Some v \<Rightarrow> 0 \<le> v \<and> v < 2 ^ 63 | None \<Rightarrow> True)"
proof -
  obtain op hi lo cl vol where c: "price_to_column (px_open r) = Inr op" "price_to_column (px_high r) = Inr hi" "price_to_column (px_low r) = Inr lo"
    "price_to_column (px_close r) = Inr cl" "volume_to_column (px_volume r) = Inr vol"
    and x: "x = \<lparr>o_symbol = px_symbol r, o_date = px_date r, o_open = op, o_high = hi, o_low = lo, o_close = cl, o_volume = vol,
            o_value_pkr = px_value_pkr r, o_adjusted_close = None\<rparr>"
    using assms(1) by (auto simp: stored_row_def bind_r_Inr_iff)
  have "case vol of Some v \<Rightarrow> 0 \<le> v \<and> v < 2 ^ 63 | None \<Rightarrow> True"
    using c(5) assms(2) by (auto simp: volume_to_column_def valid_row_def split: option.splits if_splits)
  then show ?thesis using c(1-4) [THEN price_to_column_fits] by (simp add: x)
qed

lemma upsert_row_ok:
  assumes "prices_ok mk" "valid_row r" "upsert_row act r mk = Inr mk'"
  shows "prices_ok mk' \<and> security_rows mk' = security_rows mk
    \<and> filter (\<lambda>x. o_date x \<noteq> px_date r) (ohlcv_rows mk') = filter (\<lambda>x. o_date x \<noteq> px_date r) (ohlcv_rows mk)"
proof -
  obtain x where x: "stored_row r = Inr x" using assms(3) by (auto simp: upsert_row_def split: sum.splits)
  note sx = stored_row_Inr [OF x assms(2)]
  let ?rows = "ohlcv_rows mk"
  show ?thesis
  proof (cases "list_ex (same_day x) ?rows")
    case stored: True
    show ?thesis
    proof (cases act)
      case DoNothing
      then show ?thesis using assms(1,3) x stored by (simp add: upsert_row_def)
    next
      case DoUpdate
      let ?f = "\<lambda>y. if same_day x y then x\<lparr>o_adjusted_close := o_adjusted_close y\<rparr> else y"
      have mk': "mk' = mk\<lparr>ohlcv_rows := map ?f ?rows\<rparr>" using assms(3) x stored DoUpdate by (simp add: upsert_row_def)
      have key: "(o_symbol (?f y), o_date (?f y)) = (o_symbol y, o_date y)" for y by (simp add: same_day_def)
      have "price_row_ok mk (?f y)" if "price_row_ok mk y" for y using that sx by (auto simp: price_row_ok_def same_day_def)
      then have "list_all (price_row_ok mk) (map ?f ?rows)"
        using assms(1) unfolding prices_ok_def list.pred_map by (auto simp only: list_all_iff comp_def)
      moreover have "filter (\<lambda>x. o_date x \<noteq> px_date r) (map ?f ys) = filter (\<lambda>x. o_date x \<noteq> px_date r) ys" for ys
        using sx by (induction ys) (auto simp: same_day_def)
      moreover have "unique_days (map ?f ?rows)" using assms(1) by (simp add: prices_ok_def unique_days_def comp_def key)
      ultimately show ?thesis by (simp add: mk' prices_ok_def cong: list.pred_cong)
    qed
  next
    case False
    have mk': "mk' = mk\<lparr>ohlcv_rows := ?rows @ [x]\<rparr>" "px_symbol r \<in> set (map sec_symbol (security_rows mk))"
      using assms(3) x False by (auto simp: upsert_row_def split: if_splits)
    have "price_row_ok mk x" using sx mk'(2) by (simp add: price_row_ok_def fits_def)
    moreover have "(o_symbol x, o_date x) \<notin> set (map (\<lambda>x. (o_symbol x, o_date x)) ?rows)"
      using False by (auto simp: list_ex_iff same_day_def)
    ultimately show ?thesis using assms(1) sx by (auto simp: mk' prices_ok_def unique_days_def list_all_iff price_row_ok_def)
  qed
qed

lemma upsert_all_ok:
  "upsert_all act rs mk = Inr mk' \<Longrightarrow> list_all valid_row rs \<Longrightarrow> prices_ok mk \<Longrightarrow> prices_ok mk' \<and> security_rows mk' = security_rows mk
     \<and> (list_all (\<lambda>r. px_date r = d) rs \<longrightarrow> filter (\<lambda>x. o_date x \<noteq> d) (ohlcv_rows mk') = filter (\<lambda>x. o_date x \<noteq> d) (ohlcv_rows mk))"
proof (induction rs arbitrary: mk)
  case (Cons r rs)
  then obtain mk1 where one: "upsert_row act r mk = Inr mk1" and rest: "upsert_all act rs mk1 = Inr mk'" by (auto simp: bind_r_Inr_iff)
  have "valid_row r" "list_all valid_row rs" using Cons.prems(2) by simp_all
  with upsert_row_ok [OF Cons.prems(3) _ one] Cons.IH [OF rest] show ?case by auto
qed simp

lemma upsert_rows_ok:
  assumes "upsert_rows act rs mk = Inr (n, mk')" "list_all valid_row rs" "prices_ok mk"
  shows "prices_ok mk' \<and> security_rows mk' = security_rows mk
     \<and> (list_all (\<lambda>r. px_date r = d) rs \<longrightarrow> filter (\<lambda>x. o_date x \<noteq> d) (ohlcv_rows mk') = filter (\<lambda>x. o_date x \<noteq> d) (ohlcv_rows mk))"
  using assms upsert_all_ok [of act rs mk mk' d] by (auto simp: upsert_rows_def bind_r_Inr_iff split: if_splits)

text \<open>The fetches give valid rows.\<close>

lemma fetch_ohlcv_rows: "fetch_ohlcv srv symb d = Inr rs \<Longrightarrow> list_all valid_row rs \<and> list_all (\<lambda>r. px_date r = d) rs"
  unfolding fetch_ohlcv_def by (drule fetch_window_rows) (auto simp: list_all_iff)

lemma fetch_range_rows: "fetch_ohlcv_range srv symb a b = Inr rs \<Longrightarrow> list_all valid_row rs"
proof (induction srv symb a b arbitrary: rs rule: fetch_ohlcv_range.induct)
  case (1 srv symb a b)
  show ?case
  proof (cases "b < a")
    case True
    then show ?thesis using 1(2) by (simp add: fetch_ohlcv_range.simps [of srv symb a b])
  next
    case False
    then obtain e xs ys where e: "month_end a = Some e" "fetch_window srv symb a (min e b) = Inr xs"
      "fetch_ohlcv_range srv symb (min e b + 1) b = Inr ys" "rs = xs @ ys"
      using 1(2) by (auto simp: fetch_ohlcv_range.simps [of srv symb a b] bind_r_Inr_iff Let_def split: option.splits)
    have "list_all valid_row xs" using fetch_window_rows [OF e(2)] by (auto simp: list_all_iff)
    then show ?thesis using 1(1) [OF False e(1) refl e(3)] e(4) by simp
  qed
qed

text \<open>One symbol at a time: the counts go up by one, and the table stays consistent.\<close>

lemma ingest_symbol_ok:
  assumes "prices_ok mk" "ingest_symbol srv d (s, mk) symb = (s', mk')"
  shows "prices_ok mk' \<and> security_rows mk' = security_rows mk \<and> filter (\<lambda>x. o_date x \<noteq> d) (ohlcv_rows mk') = filter (\<lambda>x. o_date x \<noteq> d) (ohlcv_rows mk)
    \<and> ic_symbols_ok s' + ic_symbols_err s' = ic_symbols_ok s + ic_symbols_err s + 1"
proof (cases "fetch_ohlcv srv symb d")
  case (Inr rs)
  note v = fetch_ohlcv_rows [OF Inr]
  show ?thesis
  proof (cases rs)
    case (Cons r rs')
    have step: "ingest_symbol srv d (s, mk) symb = (case upsert_rows DoUpdate rs mk of Inl _ \<Rightarrow> (s\<lparr>ic_symbols_err := ic_symbols_err s + 1\<rparr>, mk)
         | Inr (n, mk') \<Rightarrow> (s\<lparr>ic_symbols_ok := ic_symbols_ok s + 1, ic_rows_upserted := ic_rows_upserted s + n\<rparr>, mk'))"
      by (simp add: ingest_symbol_def Inr Cons)
    show ?thesis
    proof (cases "upsert_rows DoUpdate rs mk")
      case (Inl e)
      then show ?thesis using assms step by auto
    next
      case up: (Inr w)
      obtain n m where w: "w = (n, m)" by (cases w)
      have "s' = s\<lparr>ic_symbols_ok := ic_symbols_ok s + 1, ic_rows_upserted := ic_rows_upserted s + n\<rparr>" "mk' = m"
        using assms(2) step up w by simp_all
      then show ?thesis using upsert_rows_ok [OF up [unfolded w] _ assms(1), of d] v by simp
    qed
  qed (use assms Inr in \<open>auto simp: ingest_symbol_def\<close>)
qed (use assms in \<open>auto simp: ingest_symbol_def\<close>)

lemma run_ingest_fold:
  "foldl (ingest_symbol srv d) (s, mk) symbols = (s', mk') \<Longrightarrow> prices_ok mk \<Longrightarrow>
     prices_ok mk' \<and> security_rows mk' = security_rows mk \<and> filter (\<lambda>x. o_date x \<noteq> d) (ohlcv_rows mk') = filter (\<lambda>x. o_date x \<noteq> d) (ohlcv_rows mk)
     \<and> ic_symbols_ok s' + ic_symbols_err s' = ic_symbols_ok s + ic_symbols_err s + length symbols"
proof (induction symbols arbitrary: s mk)
  case (Cons symb symbols)
  obtain s1 mk1 where one: "ingest_symbol srv d (s, mk) symb = (s1, mk1)" by (cases "ingest_symbol srv d (s, mk) symb")
  have "foldl (ingest_symbol srv d) (s1, mk1) symbols = (s', mk')" using Cons.prems(1) one by simp
  from Cons.IH [OF this] ingest_symbol_ok [OF Cons.prems(2) one] show ?case by auto
qed auto

lemma stored_range_ok:
  assumes "prices_ok mk" "fetch_ohlcv_range srv symb a b = Inr rs" "upsert_rows act rs mk = Inr (n, mk')"
  shows "prices_ok mk'"
  using upsert_rows_ok [OF assms(3) fetch_range_rows [OF assms(2)] assms(1)] by blast

lemma backfill_symbol_ok:
  assumes "prices_ok mk" "backfill_symbol srv a b skip (s, mk) symb = (s', mk')" shows "prices_ok mk'"
proof (cases "fetch_ohlcv_range srv symb a b")
  case (Inr rs)
  then show ?thesis using assms stored_range_ok [OF assms(1) Inr, of DoNothing]
    by (cases "upsert_rows DoNothing rs mk") (auto simp: backfill_symbol_def split: if_splits)
qed (use assms in \<open>auto simp: backfill_symbol_def split: if_splits\<close>)

lemma backfill_fold: "prices_ok mk \<Longrightarrow> foldl (backfill_symbol srv a b skip) (s, mk) symbols = (s', mk') \<Longrightarrow> prices_ok mk'"
proof (induction symbols arbitrary: s mk)
  case (Cons symb symbols)
  obtain s1 mk1 where one: "backfill_symbol srv a b skip (s, mk) symb = (s1, mk1)" by (cases "backfill_symbol srv a b skip (s, mk) symb")
  with Cons.IH [of mk1 s1] backfill_symbol_ok [OF Cons.prems(1) one] Cons.prems(2) show ?case by simp
qed simp

lemma continue_symbol_ok:
  assumes "prices_ok mk" "continue_symbol srv d rows0 (s, mk) symb = (s', mk')" shows "prices_ok mk'"
proof -
  define a where "a = (case last_date rows0 symb of Some d \<Rightarrow> d + 1 | None \<Rightarrow> mk_date (year_of d - 1) 1 1)"
  obtain n m where s: "s = (n, m)" by (cases s)
  show ?thesis
  proof (cases "d < a")
    case True
    then show ?thesis using assms by (simp add: s continue_symbol_def Let_def flip: a_def)
  next
    case False
    show ?thesis
    proof (cases "fetch_ohlcv_range srv symb a d")
      case (Inr rs)
      then show ?thesis using assms False stored_range_ok [OF assms(1) Inr, of DoUpdate]
        by (cases "upsert_rows DoUpdate rs mk") (auto simp: s continue_symbol_def Let_def simp flip: a_def)
    qed (use assms False in \<open>auto simp: s continue_symbol_def Let_def simp flip: a_def\<close>)
  qed
qed

lemma continue_fold: "prices_ok mk \<Longrightarrow> foldl (continue_symbol srv d rows0) (s, mk) symbols = (s', mk') \<Longrightarrow> prices_ok mk'"
proof (induction symbols arbitrary: s mk)
  case (Cons symb symbols)
  obtain s1 mk1 where one: "continue_symbol srv d rows0 (s, mk) symb = (s1, mk1)" by (cases "continue_symbol srv d rows0 (s, mk) symb")
  with Cons.IH [of mk1 s1] continue_symbol_ok [OF Cons.prems(1) one] Cons.prems(2) show ?case by simp
qed simp

lemma write_rows_ok:
  "write_rows symb ps rows = Inr rows' \<Longrightarrow> unique_days rows \<and> list_all (price_row_ok mk) rows \<Longrightarrow> unique_days rows' \<and> list_all (price_row_ok mk) rows'"
proof (induction symb ps rows arbitrary: rows' rule: write_rows.induct)
  case (2 symb p ps rows)
  show ?case
  proof (cases "pr_adjusted_close p")
    case (Some adj)
    then obtain v where v: "to_column (flt_of_dec adj) = Inr v" "write_rows symb ps (update_row symb (pr_date p) v rows) = Inr rows'"
      using 2(3) by (auto simp: bind_r_Inr_iff)
    have "numeric 12 4 v" using v(1) by (auto simp: to_column_def Let_def column_numeric split: if_splits)
    have "map (\<lambda>x. (o_symbol x, o_date x)) (update_row symb (pr_date p) v rows) = map (\<lambda>x. (o_symbol x, o_date x)) rows"
      by (simp add: update_row_def)
    with \<open>numeric 12 4 v\<close> have "unique_days (update_row symb (pr_date p) v rows) \<and> list_all (price_row_ok mk) (update_row symb (pr_date p) v rows)"
      using 2(4) by (simp add: unique_days_def) (auto simp: update_row_def list_all_iff price_row_ok_def fits_def)
    then show ?thesis using 2(2) [OF Some v(2)] by blast
  qed (use 2 in simp)
qed simp

lemma recompute_symbol_ok: "prices_ok mk \<Longrightarrow> recompute_symbol actions symb mk = Inr (n, mk') \<Longrightarrow> prices_ok mk'"
  using write_rows_ok [of symb _ "ohlcv_rows mk" _ mk]
  by (auto simp: recompute_symbol_def write_adjusted_prices_def bind_r_Inr_iff prices_ok_def Let_def price_row_ok_def cong: list.pred_cong split: if_splits)

lemma recompute_fold: "prices_ok mk \<Longrightarrow> foldl (recompute_one actions) (s, mk) symbols = (s', mk') \<Longrightarrow> prices_ok mk'"
proof (induction symbols arbitrary: s mk)
  case (Cons symb symbols)
  obtain s1 mk1 where one: "recompute_one actions (s, mk) symb = (s1, mk1)" by (cases "recompute_one actions (s, mk) symb")
  have "prices_ok mk1" using one Cons.prems(1) recompute_symbol_ok [of mk actions symb] by (auto simp: recompute_one_def split: sum.splits)
  with Cons.IH [of mk1 s1] one Cons.prems(2) show ?case by simp
qed simp

inductive price_step :: "market_db \<Rightarrow> market_db \<Rightarrow> bool" where
  daily: "run_price_ingest srv d mk = (s, mk') \<Longrightarrow> price_step mk mk'"
| backfill: "run_backfill srv d symbols a b skip mk = Some (c, mk') \<Longrightarrow> price_step mk mk'"
| continued: "continue_all srv d mk = (t, mk') \<Longrightarrow> price_step mk mk'"
| adjusted: "run_recompute symbols actions mk = (u, mk') \<Longrightarrow> price_step mk mk'"

interpretation price_table: invariant_system "\<lambda>mk. ohlcv_rows mk = []" price_step prices_ok
proof unfold_locales
  show "prices_ok mk" if "ohlcv_rows mk = []" for mk using that by (simp add: prices_ok_def unique_days_def)
  show "prices_ok mk'" if "prices_ok mk" "price_step mk mk'" for mk mk'
    using that(2,1)
  proof cases
    case daily
    then show ?thesis using run_ingest_fold that(1) by (auto simp: run_price_ingest_def)
  next
    case backfill
    then show ?thesis using backfill_fold [OF that(1)] by (auto simp: run_backfill_def Let_def)
  next
    case continued
    then show ?thesis using continue_fold [OF that(1)] by (auto simp: continue_all_def)
  next
    case adjusted
    then show ?thesis using recompute_fold [OF that(1)] by (auto simp: run_recompute_def Let_def)
  qed
qed

text \<open>
  C31: in every state the daily task, the backfills and the recomputation of adjusted closes can reach, a
  symbol has each day once, every row is of a known security, prices fit their columns and volumes are
  not negative; and a daily run counts every active symbol once, as done or as failed, and changes
  the rows of its day only.
\<close>

theorem price_table_consistent:
  assumes "reach (\<lambda>mk. ohlcv_rows mk = []) price_step mk"
  shows "unique_days (ohlcv_rows mk) \<and> list_all (price_row_ok mk) (ohlcv_rows mk)
    \<and> (case run_price_ingest srv d mk of (s, mk') \<Rightarrow> ic_symbols_ok s + ic_symbols_err s = length (fetch_active_symbols mk)
         \<and> filter (\<lambda>x. o_date x \<noteq> d) (ohlcv_rows mk') = filter (\<lambda>x. o_date x \<noteq> d) (ohlcv_rows mk))"
proof -
  have ok: "prices_ok mk" using assms by (rule price_table.reach_inv)
  then show ?thesis using run_ingest_fold [OF _ ok] by (auto simp: prices_ok_def run_price_ingest_def split: prod.splits)
qed

definition ex_row :: "cell list" where
  "ex_row = map (\<lambda>(d, t). \<lparr>cl_order = d, cl_text = t\<rparr>) [(Some ''1705276800'', ''Jan 15, 2024''), (None, ''N/A''), (None, ''-''), (None, []), (None, ''1,234''), (None, [])]"

definition ex_server :: server where "ex_server symb a b k = (if k = 1 then NetworkFailed else Answered 200 (Some [ex_row]))"

definition ex_listed :: market_db where
  "ex_listed = \<lparr>security_rows = [\<lparr>sec_symbol = ''HBL'', company_name = ''Habib Bank'', sector = ''Banks'', is_kmi_compliant = False, is_kse100 = True,
     is_kse30 = True, market_cap_pkr = None, shares_outstanding = None, listed_at = None, delisted_at = None, is_active = True\<rparr>], ohlcv_rows = []\<rparr>"

lemma ex_ingest:
  "run_price_ingest ex_server 738900 ex_listed = (\<lparr>ic_symbols_ok = 1, ic_symbols_err = 0, ic_rows_upserted = 1\<rparr>,
     ex_listed\<lparr>ohlcv_rows := [\<lparr>o_symbol = ''HBL'', o_date = 738900, o_open = None, o_high = None, o_low = None, o_close = Some (Dec 1234),
       o_volume = None, o_value_pkr = None, o_adjusted_close = None\<rparr>]\<rparr>)"
  by code_simp

theorem range_fetched_witness:
  "\<exists>ws. list_all (\<lambda>(s, e). 738890 \<le> s \<and> s \<le> e \<and> e \<le> 738950 \<and> e \<le> s + 30) ws
     \<and> length (filter (\<lambda>(s, e). s \<le> 738900 \<and> 738900 \<le> e) ws) = 1
     \<and> fetch_ohlcv_range ex_server ''hbl'' 738890 738950
       = bind_r (collect_r (map (\<lambda>(s, e). fetch_window ex_server ''hbl'' s e) ws)) (\<lambda>rss. Inr (concat rss))"
proof -
  have "year_of 738950 < 9999" by code_simp
  then obtain ws where "list_all (\<lambda>(s, e). 738890 \<le> s \<and> s \<le> e \<and> e \<le> 738950 \<and> e \<le> s + 30) ws"
    "\<forall>d. 738890 \<le> d \<and> d \<le> 738950 \<longrightarrow> length (filter (\<lambda>(s, e). s \<le> d \<and> d \<le> e) ws) = 1"
    "fetch_ohlcv_range ex_server ''hbl'' 738890 738950
       = bind_r (collect_r (map (\<lambda>(s, e). fetch_window ex_server ''hbl'' s e) ws)) (\<lambda>rss. Inr (concat rss))"
    using range_fetched [of 738890 738950 ex_server "''hbl''"] by auto
  then show ?thesis by (intro exI [of _ ws]) simp
qed

theorem price_table_consistent_witness:
  "\<exists>s mk. run_price_ingest ex_server 738900 ex_listed = (s, mk) \<and> ic_rows_upserted s = 1 \<and> unique_days (ohlcv_rows mk)
     \<and> list_all (price_row_ok mk) (ohlcv_rows mk) \<and> length (ohlcv_rows mk) = 1"
proof -
  obtain s mk where run: "run_price_ingest ex_server 738900 ex_listed = (s, mk)" by (cases "run_price_ingest ex_server 738900 ex_listed")
  have "reach (\<lambda>mk. ohlcv_rows mk = []) price_step ex_listed" by (rule reach_init) (simp add: ex_listed_def)
  then have "reach (\<lambda>mk. ohlcv_rows mk = []) price_step mk" using daily [OF run] by (rule reach_step)
  from price_table_consistent [OF this, where srv = ex_server and d = 738900] run show ?thesis by (auto simp: ex_ingest)
qed

section \<open>The backfill keeps what is stored\<close>

text \<open>
  Rows that are stored already are left as they are, and yet counted as inserted. On 29 February the
  backfill cannot start, whatever range it is asked for.
\<close>

lemma backfill_counts_stored:
  assumes "list_all (\<lambda>r. is_ok (stored_row r) \<and> list_ex (\<lambda>y. o_symbol y = px_symbol r \<and> o_date y = px_date r) (ohlcv_rows mk)) rows"
  shows "upsert_rows DoNothing rows mk = Inr (length rows, mk)"
proof -
  have "upsert_row DoNothing r mk = Inr mk"
    if ok: "is_ok (stored_row r)" and stored: "list_ex (\<lambda>y. o_symbol y = px_symbol r \<and> o_date y = px_date r) (ohlcv_rows mk)" for r
  proof -
    obtain x where x: "stored_row r = Inr x" using ok by (auto simp: is_ok_ex)
    then have "o_symbol x = px_symbol r" "o_date x = px_date r" by (auto simp: stored_row_def bind_r_Inr_iff)
    then have "list_ex (same_day x) (ohlcv_rows mk)" using stored unfolding list_ex_iff same_day_def by metis
    then show ?thesis by (simp add: upsert_row_def x)
  qed
  then have "upsert_all DoNothing rows mk = Inr mk" using assms by (induction rows) simp_all
  then show ?thesis by (simp add: upsert_rows_def)
qed

lemma backfill_on_leap_day: "run_backfill srv (mk_date 2024 2 29) symbols from_date to_date skip mk = None"
proof -
  have "date_range (mk_date 2024 2 29) = None" by code_simp
  then show ?thesis by (simp add: run_backfill_def)
qed

end
