(* ===== verification/Spec2Isabelle.thy ===== *)
theory Spec2Isabelle
  imports Purification RiskProfile GoalService BacktestService Billing CustomStrategies Lessons Notifications Alerts
    Adjustments Benchmark Predictions Sectors News Readings PriceIngest
begin

text \<open>
  Verification of the backend of a trading-intelligence service for the Pakistan Stock Exchange.
  The repository has an API (\<^verbatim>\<open>psx-api\<close>, Python 3.11, FastAPI over PostgreSQL and Redis), an ingest
  service, an inference service and a web client. The development models the core of the API (what
  it computes about money and what it stores for a user) and the jobs of the other two services
  whose results the API serves.

  \<^bold>\<open>The parts and how they interact.\<close> A request carries a session cookie; \<^verbatim>\<open>Auth\<close> turns it into a user.
  The user's portfolios (\<^verbatim>\<open>Portfolios\<close>) own a ledger of transactions (\<^verbatim>\<open>Transactions\<close>) from which a
  snapshot of the holdings is kept; selling asks the tax engine (\<^verbatim>\<open>Cgt\<close>) to match the sale against
  the open lots, first in first out. The tax simulator (\<^verbatim>\<open>TaxSimulator\<close>) replays the ledger under both
  tax statuses, the summary (\<^verbatim>\<open>PortfolioSummary\<close>) values the holdings at market prices (\<^verbatim>\<open>Market\<close>) and
  asks the tax engine what a liquidation would cost, and purification (\<^verbatim>\<open>Purification\<close>) sums the year's
  dividends and keeps the marks of what was donated. Around these stand the watchlist
  (\<^verbatim>\<open>Watchlist\<close>), the risk questionnaire (\<^verbatim>\<open>RiskProfile\<close>), whose archetype is stored on the user, and
  the goals (\<^verbatim>\<open>Goals\<close>, \<^verbatim>\<open>GoalService\<close>), whose allocation depends on that archetype. A backtest
  (\<^verbatim>\<open>BacktestService\<close>) reads the prices of a symbol, builds a preset strategy (\<^verbatim>\<open>Strategies\<close>) over the
  indicators (\<^verbatim>\<open>Indicators\<close>) and runs it through the engine (\<^verbatim>\<open>Backtest\<close>); the indicators are also shown to
  users, with a traffic light and a text (\<^verbatim>\<open>Readings\<close>). A paid plan is bought through
  one of seven payment gateways (\<^verbatim>\<open>Payments\<close>): the checkout stores an intent, the callback of the gateway
  settles it and activates the subscription (\<^verbatim>\<open>Billing\<close>). Users write strategies of their own as JSON
  rules (\<^verbatim>\<open>StrategyBuilder\<close>), which they store, publish and fork (\<^verbatim>\<open>CustomStrategies\<close>); they take lessons
  with quizzes (\<^verbatim>\<open>Curriculum\<close>, \<^verbatim>\<open>Lessons\<close>), have an inbox (\<^verbatim>\<open>Notifications\<close>), and are warned of suspicious
  days of the symbols they hold or watch (\<^verbatim>\<open>Alerts\<close>).

  The ingest service fetches the daily prices (\<^verbatim>\<open>PriceIngest\<close>), stores the announcements of companies and adjusts the stored prices for splits and
  dividends (\<^verbatim>\<open>Adjustments\<close>), and aggregates the portfolios of the users who agreed, which the API
  compares a user with (\<^verbatim>\<open>Benchmark\<close>). The prediction of the next day is made of features of the
  prices by a heuristic, or by the trained models of the inference service (\<^verbatim>\<open>Predictions\<close>). Securities,
  prices, fundamentals and quotes are read through a cache in Redis (\<^verbatim>\<open>Securities\<close>), sectors and macro
  indicators from the tables (\<^verbatim>\<open>Sectors\<close>), and the ingest service stores the articles of the press with the
  companies they mention and a sentiment (\<^verbatim>\<open>News\<close>), which the alerts and the API read.

  \<^bold>\<open>Numbers.\<close> \<^verbatim>\<open>Rounding\<close> defines rounding to a number of digits and its contract as locales;
  \<^verbatim>\<open>Py_Num\<close> has \<^verbatim>\<open>Decimal\<close> with the 28 digits of the default context and \<^verbatim>\<open>float\<close> with 53 bits, so that
  \<open>a + b\<close> of the model rounds where the program rounds, and interprets the locales on both and on
  \<^verbatim>\<open>quantize\<close>. Exponent overflow, infinities and signed zeros are not values of the model, and NaN is one
  in \<^verbatim>\<open>Readings\<close> only, where a missing price is NaN.
  \<^verbatim>\<open>Py_Str\<close> has the string methods on ASCII (strings are their UTF-8 bytes), \<^verbatim>\<open>Py_Base\<close> results that
  may be errors (\<open>'e + 'a\<close>), dates as ordinals, sorting, dictionaries in insertion order, and the
  locale \<open>invariant_system\<close>: the contract of a stateful component (its invariant holds initially and
  every request keeps it), interpreted for the accounts, the ledger, the portfolios, the
  watchlist, the goals, the billing tables, the custom strategies, the lessons, the inbox, the alerts, the
  peer aggregates, the cache, the news tables and the price table. \<^verbatim>\<open>Json\<close> has parsed JSON for the bodies taken as plain
  dictionaries, \<^verbatim>\<open>Py_Conv\<close> the conversions \<^verbatim>\<open>int(x)\<close> and \<^verbatim>\<open>float(x)\<close> with the round trip of printing
  and parsing. The locale \<open>causal_series\<close> of \<^verbatim>\<open>Indicators\<close> is the contract of a series computed from
  prices (length, warm-up, prefixes), interpreted for the moving averages and the RSI.

  \<^bold>\<open>State and requests.\<close> A table is the list of its rows, each a \<open>record\<close> with the columns; unique
  constraints and column types are checks at the flush that may fail. A handler is a function from
  the tables to an error or a response with the new tables; the session rolls back when the handler
  raises, so an error leaves the tables alone. What a handler draws from outside (new ids, random
  tokens, the clock, the date of today) is an argument, and so is code outside the repository:
  password hashing, SHA-256 and TOTP verification (\<open>auth_env\<close>), the keyed hashes and the
  JSON codec of the callbacks (\<open>pay_env\<close>), and the float power and square root of the C library
  (\<open>pow_fn\<close>, \<open>libm\<close>), its exponential and logarithm (\<open>math_fns\<close>) and the trained models (the sessions of an
  \<open>InferenceBundle\<close>). An exception nothing handles is \<open>ServerError\<close>, the 500 the client sees.

  \<^bold>\<open>Where the code is and what is shown.\<close>
  \<^item> \<^verbatim>\<open>Cgt\<close>: \<^verbatim>\<open>psx_api/tax/cgt.py\<close>. Bracket search, FIFO matching, tax per lot. The match refines the
    specification \<open>take_fifo\<close> on rationals, succeeds exactly when the lots suffice, taxes within
    bounds, and agrees with the single-lot calculator.
  \<^item> \<^verbatim>\<open>Transactions\<close>: \<^verbatim>\<open>services/transaction_service.py\<close>. Preview, creation and the snapshot walk. No
    symbol is ever oversold, the snapshot is the net position, the cash impact is exact; a backdated
    sale is accepted but not deducted (a finding).
  \<^item> \<^verbatim>\<open>Auth\<close>: \<^verbatim>\<open>services/auth_service.py\<close>, \<^verbatim>\<open>services/rate_limiter.py\<close>, \<^verbatim>\<open>routers/auth.py\<close>. Consistency of
    accounts and sessions, what a login guarantees, revocation by a password reset, lock-out.
  \<^item> \<^verbatim>\<open>Portfolios\<close>: \<^verbatim>\<open>services/portfolio_service.py\<close>, \<^verbatim>\<open>routers/portfolios.py\<close>. One default per user,
    unique names, conflicts, isolation of users.
  \<^item> \<^verbatim>\<open>TaxSimulator\<close>: \<^verbatim>\<open>services/tax_simulator_service.py\<close>. A filer never pays more; when the replay
    returns and when it raises.
  \<^item> \<^verbatim>\<open>Market\<close>, \<^verbatim>\<open>PortfolioSummary\<close>: \<^verbatim>\<open>services/portfolio_summary_service.py\<close>. The summary is always
    computed on a consistent ledger, sector shares are percentages, and the unrealized profit counts
    the cost of sold shares (a finding).
  \<^item> \<^verbatim>\<open>Purification\<close>: \<^verbatim>\<open>purification/calculator.py\<close>, \<^verbatim>\<open>services/purification_service.py\<close>. Lines and bounds of
    a report, round trip of the donation marks.
  \<^item> \<^verbatim>\<open>Watchlist\<close>: \<^verbatim>\<open>services/watchlist_service.py\<close>. Each watched symbol once in a determined order;
    reordering does what was asked.
  \<^item> \<^verbatim>\<open>RiskProfile\<close>: \<^verbatim>\<open>risk/profile.py\<close>, \<^verbatim>\<open>routers/risk.py\<close>. Exactly the complete answers are scored, the
    archetype is monotone, a submitted profile reads back.
  \<^item> \<^verbatim>\<open>Goals\<close>, \<^verbatim>\<open>GoalService\<close>: \<^verbatim>\<open>goals/tvm.py\<close>, \<^verbatim>\<open>goals/allocation.py\<close>, \<^verbatim>\<open>services/goal_service.py\<close>. The
    bisection brackets the required rate, the extension search ends at the first month that is
    enough, allocations add up, goals belong to their user.
  \<^item> \<^verbatim>\<open>Backtest\<close>, \<^verbatim>\<open>Indicators\<close>, \<^verbatim>\<open>Strategies\<close>, \<^verbatim>\<open>BacktestService\<close>: \<^verbatim>\<open>backtest/engine.py\<close>,
    \<^verbatim>\<open>backtest/metrics.py\<close>, \<^verbatim>\<open>indicators/compute.py\<close>, \<^verbatim>\<open>backtest/strategies.py\<close>,
    \<^verbatim>\<open>services/backtest_service.py\<close> and the endpoint. Runs are sound (dates, trades, drawdowns), no
    preset strategy looks ahead, indicators are causal, and the outcome of a request is determined;
    the final equity leaves out the last commission (a finding).
  \<^item> \<^verbatim>\<open>Readings\<close>: \<^verbatim>\<open>services/indicator_service.py\<close>, \<^verbatim>\<open>indicators/interpret.py\<close>, the indicator endpoints. On
    complete prices the readings are those of the series the strategies use; one missing close is
    read as bearish for a year (a finding).
  \<^item> \<^verbatim>\<open>Payments\<close>, \<^verbatim>\<open>Billing\<close>: \<^verbatim>\<open>services/payments/\<close>, \<^verbatim>\<open>services/billing_service.py\<close>, \<^verbatim>\<open>routers/billing.py\<close>.
    Every payment buys exactly one subscription, a confirmed callback of a configured gateway was
    signed, the sandbox callback is accepted by its gateway; the manual gateway is not
    authenticated (a finding).
  \<^item> \<^verbatim>\<open>StrategyBuilder\<close>, \<^verbatim>\<open>CustomStrategies\<close>: \<^verbatim>\<open>strategy_builder/parse.py\<close>,
    \<^verbatim>\<open>services/custom_strategy_service.py\<close> and the strategy endpoints of \<^verbatim>\<open>routers/community.py\<close>. Rules are
    evaluated on any JSON value with the exceptions Python raises; validation and building agree, no
    user strategy looks ahead, stored strategies build, a time stop ends a position; rules that pass
    may still raise in a run, and a fork of a long name fails (findings). How \<^verbatim>\<open>str\<close> shows JSON values
    is the parameter \<open>printer\<close>.
  \<^item> \<^verbatim>\<open>Curriculum\<close>, \<^verbatim>\<open>Lessons\<close>: \<^verbatim>\<open>learning/curriculum.py\<close>, \<^verbatim>\<open>services/lesson_service.py\<close>. The ten lessons with
    their answer keys, grading, progress. Progress is consistent and every lesson can be completed.
  \<^item> \<^verbatim>\<open>Notifications\<close>: \<^verbatim>\<open>services/notification_service.py\<close>. What is delivered, and that the inbox, the count
    and the marks of a user concern that user's rows only.
  \<^item> \<^verbatim>\<open>Alerts\<close>: \<^verbatim>\<open>alerts/pump_dump.py\<close>, \<^verbatim>\<open>services/alert_service.py\<close>, \<^verbatim>\<open>routers/alerts.py\<close>. One alert per symbol
    and day, severity grows with the evidence; an incomplete latest day gives its date to the alert of
    the day before (a finding).
  \<^item> \<^verbatim>\<open>PriceIngest\<close>: \<^verbatim>\<open>psx_ingest/scrapers/dps.py\<close>, \<^verbatim>\<open>tasks/ohlcv.py\<close>, \<^verbatim>\<open>tasks/backfill.py\<close>,
    \<^verbatim>\<open>psx_ingest/backfill.py\<close>, \<^verbatim>\<open>scripts/backfill_ohlcv.py\<close>. A range is fetched by monthly requests that
    cover it, at most three attempts each; the price table stays consistent; the backfill cannot start
    on 29 February (a finding).
  \<^item> \<^verbatim>\<open>Adjustments\<close>: \<^verbatim>\<open>psx_ingest/adjustments.py\<close>, \<^verbatim>\<open>tasks/adjust_prices.py\<close>, \<^verbatim>\<open>tasks/corporate_actions.py\<close>, the
    categories of \<^verbatim>\<open>scrapers/pucars.py\<close>. The backward pass computes what a row by row reference does, the
    float round trip to the column loses nothing, recomputing is idempotent; the order in which splits
    and dividends are combined is wrong, and one amount too large loses a batch (findings).
  \<^item> \<^verbatim>\<open>Benchmark\<close>: \<^verbatim>\<open>benchmark/buckets.py\<close>, \<^verbatim>\<open>services/benchmark_service.py\<close>,
    \<^verbatim>\<open>psx_ingest/benchmark/aggregate.py\<close>. Stored groups have five members; the panel never shows a
    comparison, since reader and writer disagree on a key (a finding).
  \<^item> \<^verbatim>\<open>Predictions\<close>: \<^verbatim>\<open>predictions/features.py\<close>, \<^verbatim>\<open>predictions/ensemble.py\<close>,
    \<^verbatim>\<open>services/prediction_service.py\<close>, \<^verbatim>\<open>psx_inference/inference.py\<close>, \<^verbatim>\<open>psx_inference/routers/predict.py\<close>. The
    heuristic always answers within its bounds; the trained models are never reached (a finding).
  \<^item> \<^verbatim>\<open>Securities\<close>: \<^verbatim>\<open>psx_api/cache.py\<close>, \<^verbatim>\<open>services/securities_service.py\<close>, \<^verbatim>\<open>routers/securities.py\<close>.
    The pages of the list show every selected security once, and a cached value is one that was
    computed less than its lifetime ago; the keys of the cache confuse requests, and the fundamentals
    fail on the last days of some months (findings).
  \<^item> \<^verbatim>\<open>Sectors\<close>: \<^verbatim>\<open>services/sector_service.py\<close>, \<^verbatim>\<open>services/macro_service.py\<close> and their routers. A rank counts the
    strictly better values, the heatmap has one tile per active security.
  \<^item> \<^verbatim>\<open>News\<close>: \<^verbatim>\<open>psx_ingest/news/\<close> (\<^verbatim>\<open>extract.py\<close>, \<^verbatim>\<open>sentiment.py\<close>, \<^verbatim>\<open>persistence.py\<close>), \<^verbatim>\<open>tasks/news.py\<close>,
    \<^verbatim>\<open>psx_api/news/pulse.py\<close>, \<^verbatim>\<open>services/news_service.py\<close>, \<^verbatim>\<open>routers/news.py\<close>. The tables are consistent, a run is
    atomic and can be repeated; one bad row loses a run, and contracted negations are not seen (findings).
  \<^item> This theory: the profile a user submits is the one that drives the allocation of the goals.

  \<^bold>\<open>Loops and bounds.\<close> The loops of the code run over lists or a fixed count, so the model has no
  fuel: the bisection runs its 80 steps (enough for a bracket of width \<open>2 ^ -48\<close> in float
  arithmetic) and the month walk its 719 months by recursion on a natural number.

  \<^bold>\<open>Not modelled.\<close> Concurrency of requests on one table (each request is one step); the ORM's loading
  of attributes; e-mail and HTTP transport; migrations. Of the API: the branches without Redis, which no endpoint takes; of the ingest
  service the fetching of pages and the HTML library, the scrapers of news and macro data, archiving and the
  training of the anomaly model; of the inference service the loading of model files and the window for
  the LSTM, which the API never sends; the web client. The manifest lists each
  with the reason.
\<close>

section \<open>Across components\<close>

lemma archetypes_in_table: "set ARCHETYPES = set (map fst TABLE)"
  by (simp add: ARCHETYPES_def TABLE_def)

text \<open>
  C40: the questionnaire drives the goals. After a user's answers were accepted, the analysis of any goal
  of that user recommends the allocation of exactly the archetype the response showed, never the
  fallback for unknown profiles, and its shares add up to 100 percent.
\<close>

theorem profile_drives_allocation:
  assumes ok: "auth_ok (adb st)" and sub: "submit_answers env answers cookie now st = (Inr r, st')"
    and user: "get_current_user env cookie now st' = Inr user"
    and ana: "analyse pow goal user today = Inr resp"
  shows "al_archetype (gr_allocation resp) = rp_archetype r
    \<and> gr_allocation resp = recommend (rp_archetype r) (ga_months_remaining (gr_analysis resp))
    \<and> al_equity_pct (gr_allocation resp) + al_tbills_pct (gr_allocation resp) + al_cash_pct (gr_allocation resp) = 100"
proof (rule submit_answers_Inr [OF ok sub], goal_cases)
  case (1 u x p)
  have arch: "u_risk_archetype user = Some (rp_archetype r)" using user 1(5,8) by auto
  have mem: "rp_archetype r \<in> set (map fst TABLE)" using 1(4,5) by (simp only: archetypes_in_table) simp
  then have ne: "rp_archetype r \<noteq> []" by (auto simp: TABLE_def)
  have alloc: "gr_allocation resp = recommend (rp_archetype r) (ga_months_remaining (gr_analysis resp))"
    using ana by (auto simp: analyse_def arch ne Let_def split: sum.splits)
  have "al_archetype (recommend (rp_archetype r) m) = rp_archetype r" for m
    using mem unfolding recommend_def Let_def by (simp add: case_prod_beta del: set_map)
  moreover have "al_equity_pct (recommend a m) + al_tbills_pct (recommend a m) + al_cash_pct (recommend a m) = 100" for a m
    using allocation_sound [of m m 0 0 a] by (simp add: Let_def)
  ultimately show ?case using alloc by simp
qed

definition ex_goal :: Goal where
  "ex_goal = \<lparr>g_id = ''g1'', g_user_id = ''u1'', g_name = ''Hajj'', g_goal_type = Hajj, g_target_amount_pkr = Dec 100,
     g_target_date = 738300, g_current_amount_pkr = Dec 200, g_monthly_contribution_pkr = Dec 0,
     g_linked_portfolio_id = None, g_notes = None, g_created_at = 5, g_updated_at = 5\<rparr>"

theorem profile_drives_allocation_witness:
  "\<exists>r st' user resp. submit_answers ex_env ex_answers (Some ''tok1'') 300 ex_logged_in = (Inr r, st')
     \<and> get_current_user ex_env (Some ''tok1'') 300 st' = Inr user
     \<and> analyse exact_pow ex_goal user 738000 = Inr resp
     \<and> al_archetype (gr_allocation resp) = rp_archetype r"
proof -
  have "is_ok (get_current_user ex_env (Some ''tok1'') 300 ex_logged_in)" by code_simp
  then obtain u where "get_current_user ex_env (Some ''tok1'') 300 ex_logged_in = Inr u"
    by (cases "get_current_user ex_env (Some ''tok1'') 300 ex_logged_in") auto
  then obtain r st' where sub: "submit_answers ex_env ex_answers (Some ''tok1'') 300 ex_logged_in = (Inr r, st')"
    using evaluate_complete [OF ex_answers_complete] by (auto simp: submit_answers_def Let_def ex_answers_def)
  obtain user where user: "get_current_user ex_env (Some ''tok1'') 300 st' = Inr user"
    by (rule submit_answers_Inr [OF ex_auth_ok(2) sub]) blast
  have "flt_of_dec (Dec 100) \<le> flt_of_dec (Dec 200)" by (simp add: flt_of_dec_def flt_def flt_r.mono)
  then obtain resp where resp: "analyse exact_pow ex_goal user 738000 = Inr resp"
    by (simp add: analyse_def analyze_def ex_goal_def Let_def)
  show ?thesis using profile_drives_allocation [OF ex_auth_ok(2) sub user resp] sub user resp by blast
qed

end
